(* ===== verification/Prelude.thy ===== *)
theory Prelude
  imports Main "HOL-Library.Word" "HOL-Library.List_Lexorder"
begin

text \<open>
  Shared vocabulary of the development: the machine types of the Rust sources (\<open>u8\<close>,
  \<open>u64\<close>, fixed-size byte arrays \<open>[u8; N]\<close>), the integer operations of the Rust standard
  library the sources call (\<open>to_le_bytes\<close>, \<open>saturating_add\<close>, \<open>div_ceil\<close>, ...), results as
  sums, and the generic lemmas the component theories share.
\<close>

section \<open>Words and results\<close>

type_synonym byte = "8 word"
type_synonym u64 = "64 word"
type_synonym ('e, 'a) result = "'e + 'a"

abbreviation Err :: "'e \<Rightarrow> ('e, 'a) result" where "Err \<equiv> Inl"
abbreviation Ok :: "'a \<Rightarrow> ('e, 'a) result" where "Ok \<equiv> Inr"

named_theorems codec_simps \<open>byte layout equations of the encoders and decoders\<close>
named_theorems step_simps \<open>unfolding equations of the state-changing operations\<close>

text \<open>Rust's \<open>?\<close> operator and \<open>map_err\<close>, on results.\<close>

definition and_then :: "('e, 'a) result \<Rightarrow> ('a \<Rightarrow> ('e, 'b) result) \<Rightarrow> ('e, 'b) result" where
  "and_then r f = (case r of Inl e \<Rightarrow> Inl e | Inr x \<Rightarrow> f x)"

definition map_err :: "('e \<Rightarrow> 'f) \<Rightarrow> ('e, 'a) result \<Rightarrow> ('f, 'a) result" where
  "map_err g r = (case r of Inl e \<Rightarrow> Inl (g e) | Inr x \<Rightarrow> Inr x)"

definition ok_or :: "'e \<Rightarrow> 'a option \<Rightarrow> ('e, 'a) result" where
  "ok_or e x = (case x of None \<Rightarrow> Inl e | Some y \<Rightarrow> Inr y)"

lemma and_then_simps [simp]:
  "and_then (Inl e) f = Inl e" "and_then (Inr x) f = f x"
  by (simp_all add: and_then_def)

lemma map_err_simps [simp]:
  "map_err g (Inl e) = Inl (g e)" "map_err g (Inr x) = Inr x"
  by (simp_all add: map_err_def)

lemma ok_or_simps [simp]: "ok_or e None = Inl e" "ok_or e (Some x) = Inr x"
  by (simp_all add: ok_or_def)

lemma and_then_eq_Inr: "and_then r f = Inr y \<longleftrightarrow> (\<exists>x. r = Inr x \<and> f x = Inr y)"
  by (cases r) auto

lemma and_then_eq_Inl: "and_then r f = Inl e \<longleftrightarrow> r = Inl e \<or> (\<exists>x. r = Inr x \<and> f x = Inl e)"
  by (cases r) auto

lemma map_err_eq_Inr [simp]: "map_err g r = Inr y \<longleftrightarrow> r = Inr y"
  by (cases r) auto

lemma map_err_Inr_eq [simp]: "Inr y = map_err g r \<longleftrightarrow> r = Inr y"
  by (cases r) auto

lemma ok_or_eq_Inr [simp]: "ok_or e x = Inr y \<longleftrightarrow> x = Some y"
  by (cases x) auto

lemma Inr_eq_ok_or [simp]: "Inr y = ok_or e x \<longleftrightarrow> x = Some y"
  by (cases x) auto

text \<open>Collecting an iterator of results, as \<open>collect::<Result<Vec<_>, _>>\<close> does: the first
  error wins.\<close>

primrec collect_results :: "('e, 'a) result list \<Rightarrow> ('e, 'a list) result" where
  "collect_results [] = Inr []"
| "collect_results (r # rs) =
     (case r of Inl e \<Rightarrow> Inl e
      | Inr x \<Rightarrow> (case collect_results rs of Inl e \<Rightarrow> Inl e | Inr xs \<Rightarrow> Inr (x # xs)))"

lemma collect_results_Inr_map: "collect_results (map (\<lambda>x. Inr (f x)) xs) = Inr (map f xs)"
  by (induction xs) auto

lemma collect_results_map_Inr [simp]: "collect_results (map Inr xs) = Inr xs"
  by (induction xs) auto

lemma collect_results_eq_Inr: "collect_results rs = Inr xs \<longleftrightarrow> rs = map Inr xs"
  by (induction rs arbitrary: xs) (auto split: sum.splits)

lemma collect_results_eq_Inl_ex: "(\<exists>e. collect_results rs = Inl e) \<longleftrightarrow> (\<exists>e. Inl e \<in> set rs)"
  by (induction rs) (auto split: sum.splits)

section \<open>Integer operations of the standard library\<close>

definition u64_max :: u64 where
  "u64_max = - 1"

definition saturating_add :: "u64 \<Rightarrow> u64 \<Rightarrow> u64" where
  "saturating_add a b = (if unat a + unat b < 2 ^ 64 then a + b else u64_max)"

definition saturating_mul :: "u64 \<Rightarrow> u64 \<Rightarrow> u64" where
  "saturating_mul a b = (if unat a * unat b < 2 ^ 64 then a * b else u64_max)"

definition div_ceil :: "u64 \<Rightarrow> u64 \<Rightarrow> u64" where
  "div_ceil a b = (if a mod b > 0 then a div b + 1 else a div b)"

lemma unat_u64_max: "unat u64_max = 2 ^ 64 - 1"
  by (simp add: u64_max_def unsigned_minus_1_eq_mask mask_eq_exp_minus_1)

lemma unat_u64_less: "unat (a :: u64) < 2 ^ 64"
  using unsigned_less [of a] by simp

lemma unat_saturating_add: "unat (saturating_add a b) = min (unat a + unat b) (2 ^ 64 - 1)"
proof (cases "unat a + unat b < 2 ^ 64")
  case True
  then have "unat (a + b) = unat a + unat b" by (simp add: unat_word_ariths)
  with True show ?thesis by (simp add: saturating_add_def)
next
  case False
  then show ?thesis by (simp add: saturating_add_def unat_u64_max)
qed

lemma unat_saturating_mul: "unat (saturating_mul a b) = min (unat a * unat b) (2 ^ 64 - 1)"
proof (cases "unat a * unat b < 2 ^ 64")
  case True
  then have "unat (a * b) = unat a * unat b" by (simp add: unat_word_ariths)
  with True show ?thesis by (simp add: saturating_mul_def)
next
  case False
  then show ?thesis by (simp add: saturating_mul_def unat_u64_max)
qed

lemma saturating_add_ge: "a \<le> saturating_add a b"
proof -
  have "unat a < 2 ^ 64" using unat_u64_less [of a] by simp
  then show ?thesis by (simp add: word_le_nat_alt unat_saturating_add)
qed

lemma saturating_add_mono: "a \<le> c \<Longrightarrow> saturating_add a b \<le> saturating_add c b"
  by (simp add: word_le_nat_alt unat_saturating_add)

lemma div_ceil_bound:
  assumes "b > 0"
  shows "unat a \<le> unat (div_ceil a b) * unat b"
    and "unat (div_ceil a b) * unat b < unat a + unat b"
proof -
  define d m where "d = unat a div unat b" and "m = unat a mod unat b"
  have b: "0 < unat b" using assms by (simp add: word_less_nat_alt)
  have eq: "unat a = d * unat b + m" by (simp add: d_def m_def)
  have md: "m < unat b" using b by (simp add: m_def)
  have q: "unat (a div b) = d" by (simp add: unat_div d_def)
  have r: "a mod b > 0 \<longleftrightarrow> 0 < m"
    by (simp add: word_less_nat_alt unat_mod m_def)
  have no_ovf: "unat (a div b + 1) = d + 1" if "0 < m"
  proof -
    from that md have "1 < unat b" by linarith
    then have "d \<le> unat a div 2" unfolding d_def by (intro div_le_mono2) auto
    also have "\<dots> < 2 ^ 63" using unat_u64_less [of a] by simp
    finally have lt: "d + 1 < 2 ^ 64" by simp
    have "unat (a div b + 1) = (unat (a div b) + 1) mod 2 ^ 64" by (simp add: unat_word_ariths)
    also have "\<dots> = d + 1" using lt by (simp only: q mod_less)
    finally show ?thesis .
  qed
  show "unat a \<le> unat (div_ceil a b) * unat b"
    using md no_ovf by (cases "0 < m") (simp_all add: div_ceil_def r q eq)
  show "unat (div_ceil a b) * unat b < unat a + unat b"
    using md b no_ovf by (cases "0 < m") (simp_all add: div_ceil_def r q eq)
qed

section \<open>Fixed-size byte arrays\<close>

text \<open>
  \<open>[u8; N]\<close>: the length is a type-level number, so \<open>Hash\<close> is \<open>32 barray\<close> and a value
  of the wrong length does not exist. \<open>to_vec\<close> and \<open>try_into\<close> are the two conversions the
  sources use, \<open>barr_fill\<close> is the literal \<open>[b; N]\<close>.
\<close>

typedef (overloaded) ('n::len) barray = "{xs :: byte list. length xs = LENGTH('n)}"
  morphisms to_vec Abs_barray
  by (rule exI [of _ "replicate LENGTH('n) 0"]) simp

definition try_into :: "byte list \<Rightarrow> ('n::len) barray option" where
  "try_into xs = (if length xs = LENGTH('n) then Some (Abs_barray xs) else None)"

definition barr_fill :: "byte \<Rightarrow> ('n::len) barray" where
  "barr_fill b = Abs_barray (replicate LENGTH('n) b)"

lemma length_to_vec [simp]: "length (to_vec (a :: ('n::len) barray)) = LENGTH('n)"
  using to_vec [of a] by simp

lemma to_vec_Abs [simp]: "length xs = LENGTH('n::len) \<Longrightarrow> to_vec (Abs_barray xs :: 'n barray) = xs"
  by (rule Abs_barray_inverse) simp

lemma to_vec_fill [simp]: "to_vec (barr_fill b :: ('n::len) barray) = replicate LENGTH('n) b"
  by (simp add: barr_fill_def)

lemma to_vec_eq_iff: "to_vec a = to_vec b \<longleftrightarrow> a = b"
  by (rule to_vec_inject)

lemma try_into_to_vec [simp]: "try_into (to_vec a) = Some a"
  by (simp add: try_into_def to_vec_inverse)

lemma try_into_eq_Some: "try_into xs = Some a \<longleftrightarrow> xs = to_vec a"
  by (auto simp: try_into_def to_vec_inverse)

lemma try_into_None [simp]: "length xs \<noteq> LENGTH('n::len) \<Longrightarrow> (try_into xs :: 'n barray option) = None"
  by (simp add: try_into_def)

lemma barr_fill_eq_iff [simp]:
  "(barr_fill b :: ('n::len) barray) = barr_fill c \<longleftrightarrow> b = c"
  by (auto simp flip: to_vec_eq_iff)

text \<open>Rust derives the lexicographic order and byte-wise equality on arrays.\<close>

instantiation barray :: (len) linorder
begin
definition less_eq_barray :: "'a barray \<Rightarrow> 'a barray \<Rightarrow> bool" where
  "less_eq_barray a b \<longleftrightarrow> to_vec a \<le> to_vec b"
definition less_barray :: "'a barray \<Rightarrow> 'a barray \<Rightarrow> bool" where
  "less_barray a b \<longleftrightarrow> to_vec a < to_vec b"
instance
  by standard
    (auto simp: less_eq_barray_def less_barray_def less_le_not_le simp flip: to_vec_eq_iff)
end

instantiation barray :: (len) equal
begin
definition equal_barray :: "'a barray \<Rightarrow> 'a barray \<Rightarrow> bool" where
  "equal_barray a b \<longleftrightarrow> to_vec a = to_vec b"
instance
  by standard (simp add: equal_barray_def to_vec_eq_iff)
end

section \<open>Little- and big-endian bytes\<close>

primrec le_bytes :: "nat \<Rightarrow> 'a::len word \<Rightarrow> byte list" where
  "le_bytes 0 w = []"
| "le_bytes (Suc n) w = ucast w # le_bytes n (drop_bit 8 w)"

primrec le_word :: "byte list \<Rightarrow> 'a::len word" where
  "le_word [] = 0"
| "le_word (b # bs) = or (ucast b) (push_bit 8 (le_word bs))"

definition to_le_bytes :: "u64 \<Rightarrow> byte list" where
  "to_le_bytes w = le_bytes 8 w"

definition from_le_bytes :: "byte list \<Rightarrow> u64" where
  "from_le_bytes bs = le_word bs"

definition to_be_bytes :: "u64 \<Rightarrow> byte list" where
  "to_be_bytes w = rev (to_le_bytes w)"

definition from_be_bytes :: "byte list \<Rightarrow> u64" where
  "from_be_bytes bs = from_le_bytes (rev bs)"

lemma length_le_bytes [simp]: "length (le_bytes n w) = n"
  by (induction n arbitrary: w) auto

lemma le_word_le_bytes: "le_word (le_bytes n w) = take_bit (8 * n) w"
proof (induction n arbitrary: w)
  case 0
  then show ?case by simp
next
  case (Suc n)
  show ?case
  proof (rule bit_word_eqI)
    fix i assume i: "i < LENGTH('a)"
    show "bit (le_word (le_bytes (Suc n) w) :: 'a word) i = bit (take_bit (8 * Suc n) w) i"
      using i by (auto simp: Suc bit_or_iff bit_push_bit_iff bit_take_bit_iff bit_drop_bit_eq
          bit_ucast_iff)
  qed
qed

lemma length_to_le_bytes [simp]: "length (to_le_bytes w) = 8"
  by (simp add: to_le_bytes_def)

lemma length_to_be_bytes [simp]: "length (to_be_bytes w) = 8"
  by (simp add: to_be_bytes_def)

lemma from_to_le_bytes [simp]: "from_le_bytes (to_le_bytes w) = w"
proof -
  have "take_bit 64 w = w" by (rule bit_word_eqI) (simp add: bit_take_bit_iff)
  then show ?thesis by (simp add: from_le_bytes_def to_le_bytes_def le_word_le_bytes)
qed

lemma from_to_be_bytes [simp]: "from_be_bytes (to_be_bytes w) = w"
  by (simp add: from_be_bytes_def to_be_bytes_def)

lemma to_le_bytes_inject [simp]: "to_le_bytes v = to_le_bytes w \<longleftrightarrow> v = w"
  by (metis from_to_le_bytes)

lemma le_bytes_le_word:
  "8 * length bs \<le> LENGTH('a) \<Longrightarrow> le_bytes (length bs) (le_word bs :: 'a::len word) = bs"
proof (induction bs)
  case Nil
  then show ?case by simp
next
  case (Cons b bs)
  have hd: "ucast (le_word (b # bs) :: 'a word) = b"
    using Cons.prems
    by (intro bit_word_eqI) (auto simp: bit_ucast_iff bit_or_iff bit_push_bit_iff)
  have tl: "drop_bit 8 (le_word (b # bs) :: 'a word) = le_word bs" if "bs \<noteq> []"
  proof (rule bit_word_eqI)
    fix i assume i: "i < LENGTH('a)"
    have hi: "\<not> bit (le_word bs :: 'a word) i" if "LENGTH('a) \<le> 8 + i"
    proof -
      have "(le_word bs :: 'a word) = take_bit (8 * length bs) (le_word bs)"
        using Cons by (metis (no_types, lifting) add_leD2 le_word_le_bytes length_Cons mult_Suc_right)
      moreover have "8 * length bs \<le> i" using Cons.prems that by simp
      ultimately show ?thesis by (metis bit_take_bit_iff not_le)
    qed
    have "\<not> bit b (8 + i)" using bit_imp_le_length [of b "8 + i"] by auto
    with i hi show "bit (drop_bit 8 (le_word (b # bs) :: 'a word)) i = bit (le_word bs :: 'a word) i"
      by (cases "8 + i < LENGTH('a)")
        (auto simp: bit_drop_bit_eq bit_or_iff bit_push_bit_iff bit_ucast_iff
          dest: bit_imp_le_length)
  qed
  show ?case using Cons hd tl by (cases bs) auto
qed

lemma to_from_le_bytes: "length bs = 8 \<Longrightarrow> to_le_bytes (from_le_bytes bs) = bs"
  using le_bytes_le_word [where bs = bs and 'a = 64]
  by (simp add: to_le_bytes_def from_le_bytes_def)

section \<open>Lists\<close>

lemma sorted_distinct_remdups_adj: "sorted xs \<Longrightarrow> distinct (remdups_adj (xs :: 'a::linorder list))"
  by (induction xs rule: remdups_adj.induct) (auto simp: order.antisym)

lemma distinct_remdups_adj_sort [simp]: "distinct (remdups_adj (sort (xs :: 'a::linorder list)))"
  by (simp add: sorted_distinct_remdups_adj)

end
