(* ===== verification/Text_Util.thy ===== *)
theory Text_Util
  imports Prelude
begin

text \<open>
  The string operations of the Rust standard library the sources use, on ASCII strings:
  decimal formatting (\<open>format!("{n}")\<close>), \<open>str::parse::<u64>\<close>, \<open>u64::from_str_radix(_, 16)\<close>,
  \<open>trim\<close>, \<open>trim_start_matches\<close>, \<open>to_lowercase\<close>, \<open>starts_with\<close>. Round-trip lemmas connect
  formatting with parsing.
\<close>

section \<open>Decimal numbers\<close>

definition digit_char :: "nat \<Rightarrow> char" where
  "digit_char d = char_of (48 + d)"

definition char_digit :: "char \<Rightarrow> nat option" where
  "char_digit c = (let n = (of_char c :: nat) in if 48 \<le> n \<and> n \<le> 57 then Some (n - 48) else None)"

fun show_nat :: "nat \<Rightarrow> string" where
  "show_nat n = (if n < 10 then [digit_char n] else show_nat (n div 10) @ [digit_char (n mod 10)])"

declare show_nat.simps [simp del]

definition show_u64 :: "u64 \<Rightarrow> string" where
  "show_u64 w = show_nat (unat w)"

text \<open>\<open>parse_digits acc s\<close>: the accumulating loop of \<open>from_str_radix\<close> in base 10.\<close>

fun parse_digits :: "nat \<Rightarrow> string \<Rightarrow> nat option" where
  "parse_digits acc [] = Some acc"
| "parse_digits acc (c # cs) =
     (case char_digit c of None \<Rightarrow> None | Some d \<Rightarrow> parse_digits (10 * acc + d) cs)"

text \<open>\<open>str::parse::<u64>\<close>: an optional leading \<open>+\<close>, at least one digit, no overflow.\<close>

definition parse_u64 :: "string \<Rightarrow> u64 option" where
  "parse_u64 s =
     (let ds = (case s of c # cs \<Rightarrow> if c = CHR ''+'' then cs else s | [] \<Rightarrow> s)
      in if ds = [] then None
         else case parse_digits 0 ds of
                None \<Rightarrow> None
              | Some n \<Rightarrow> if n < 2 ^ 64 then Some (of_nat n) else None)"

lemma char_digit_digit_char [simp]: "d < 10 \<Longrightarrow> char_digit (digit_char d) = Some d"
  by (simp add: char_digit_def digit_char_def)

lemma parse_digits_append:
  "parse_digits acc (xs @ ys) = Option.bind (parse_digits acc xs) (\<lambda>a. parse_digits a ys)"
  by (induction xs arbitrary: acc) (auto split: option.splits)

lemma parse_digits_show_nat: "parse_digits 0 (show_nat n) = Some n"
proof (induction n rule: show_nat.induct)
  case (1 n)
  then show ?case
    by (subst show_nat.simps) (auto simp: parse_digits_append)
qed

lemma show_nat_nonempty: "show_nat n \<noteq> []"
  by (subst show_nat.simps) auto

lemma hd_show_nat: "\<exists>d < 10. hd (show_nat n) = digit_char d"
proof (induction n rule: show_nat.induct)
  case (1 n)
  then show ?case
    by (subst show_nat.simps) (auto simp: show_nat_nonempty hd_append)
qed

lemma parse_show_u64 [simp]: "parse_u64 (show_u64 w) = Some w"
proof -
  obtain d where d: "d < 10" "hd (show_nat (unat w)) = digit_char d" using hd_show_nat by blast
  have "digit_char d \<noteq> CHR ''+''"
    using d(1) char_digit_digit_char [OF d(1)] by (auto simp: char_digit_def)
  then have s: "(case show_nat (unat w) of [] \<Rightarrow> show_nat (unat w)
      | c # cs \<Rightarrow> if c = CHR ''+'' then cs else show_nat (unat w)) = show_nat (unat w)"
    using d(2) by (cases "show_nat (unat w)") auto
  show ?thesis
    using unat_u64_less [of w]
    by (simp add: parse_u64_def show_u64_def s show_nat_nonempty parse_digits_show_nat Let_def)
qed

lemma show_u64_inject [simp]: "show_u64 v = show_u64 w \<longleftrightarrow> v = w"
  by (metis option.inject parse_show_u64)

section \<open>Hexadecimal quantities\<close>

definition hex_digit :: "char \<Rightarrow> nat option" where
  "hex_digit c = (let n = (of_char c :: nat) in
     if 48 \<le> n \<and> n \<le> 57 then Some (n - 48)
     else if 97 \<le> n \<and> n \<le> 102 then Some (n - 87)
     else if 65 \<le> n \<and> n \<le> 70 then Some (n - 55)
     else None)"

fun parse_hex_digits :: "nat \<Rightarrow> string \<Rightarrow> nat option" where
  "parse_hex_digits acc [] = Some acc"
| "parse_hex_digits acc (c # cs) =
     (case hex_digit c of None \<Rightarrow> None | Some d \<Rightarrow> parse_hex_digits (16 * acc + d) cs)"

text \<open>\<open>u64::from_str_radix(s, 16)\<close>.\<close>

definition from_str_radix_16 :: "string \<Rightarrow> u64 option" where
  "from_str_radix_16 s =
     (let ds = (case s of c # cs \<Rightarrow> if c = CHR ''+'' then cs else s | [] \<Rightarrow> s)
      in if ds = [] then None
         else case parse_hex_digits 0 ds of
                None \<Rightarrow> None
              | Some n \<Rightarrow> if n < 2 ^ 64 then Some (of_nat n) else None)"

text \<open>\<open>format!("{n:x}")\<close>.\<close>

definition hex_char :: "nat \<Rightarrow> char" where
  "hex_char d = char_of (if d < 10 then 48 + d else 87 + d)"

fun show_hex :: "nat \<Rightarrow> string" where
  "show_hex n = (if n < 16 then [hex_char n] else show_hex (n div 16) @ [hex_char (n mod 16)])"

declare show_hex.simps [simp del]

definition show_hex_u64 :: "u64 \<Rightarrow> string" where
  "show_hex_u64 w = show_hex (unat w)"

lemma hex_digit_hex_char [simp]: "d < 16 \<Longrightarrow> hex_digit (hex_char d) = Some d"
  by (simp add: hex_digit_def hex_char_def)

lemma parse_hex_digits_append:
  "parse_hex_digits acc (xs @ ys) = Option.bind (parse_hex_digits acc xs) (\<lambda>a. parse_hex_digits a ys)"
  by (induction xs arbitrary: acc) (auto split: option.splits)

lemma parse_hex_digits_show_hex: "parse_hex_digits 0 (show_hex n) = Some n"
proof (induction n rule: show_hex.induct)
  case (1 n)
  then show ?case
    by (subst show_hex.simps) (auto simp: parse_hex_digits_append)
qed

lemma show_hex_digits: "c \<in> set (show_hex n) \<Longrightarrow> hex_digit c \<noteq> None"
proof (induction n rule: show_hex.induct)
  case (1 n)
  show ?case
  proof (cases "n < 16")
    case True
    with 1(2) show ?thesis by (subst (asm) show_hex.simps) simp
  next
    case False
    with 1(2) have "c \<in> set (show_hex (n div 16)) \<or> c = hex_char (n mod 16)"
      by (subst (asm) show_hex.simps) auto
    with 1(1) [OF False] show ?thesis by auto
  qed
qed

lemma show_hex_nonempty: "show_hex n \<noteq> []"
  by (subst show_hex.simps) auto

lemma from_str_radix_16_show_hex [simp]: "from_str_radix_16 (show_hex_u64 w) = Some w"
proof -
  obtain c cs where s: "show_hex (unat w) = c # cs"
    using show_hex_nonempty by (cases "show_hex (unat w)") auto
  have "hex_digit c \<noteq> None" using show_hex_digits [of c "unat w"] s by simp
  then have "c \<noteq> CHR ''+''" by (auto simp: hex_digit_def)
  then show ?thesis
    using parse_hex_digits_show_hex [of "unat w"] unat_u64_less [of w]
    by (simp add: from_str_radix_16_def show_hex_u64_def s)
qed

section \<open>Characters and bytes\<close>

lemma byte_char_byte: "(of_char (char_of (unat b) :: char) :: byte) = b" for b :: byte
proof -
  have w: "(of_char c :: byte) = of_nat (of_char c)" for c :: char
    by (simp add: of_nat_of_char)
  show ?thesis using unsigned_less [of b, where 'a = nat] by (simp add: w of_char_of)
qed

lemma char_byte_char: "char_of (unat (of_char c :: byte)) = c"
proof -
  have w: "(of_char c :: byte) = of_nat (of_char c)"
    by (simp add: of_nat_of_char)
  show ?thesis by (simp add: w unat_of_nat)
qed

section \<open>Trimming and prefixes\<close>

definition is_ws :: "char \<Rightarrow> bool" where
  "is_ws c = (let n = (of_char c :: nat) in n = 32 \<or> (9 \<le> n \<and> n \<le> 13))"

definition trim :: "string \<Rightarrow> string" where
  "trim s = rev (dropWhile is_ws (rev (dropWhile is_ws s)))"

definition starts_with :: "string \<Rightarrow> string \<Rightarrow> bool" where
  "starts_with s p = (take (length p) s = p)"

definition to_lower :: "char \<Rightarrow> char" where
  "to_lower c = (let n = (of_char c :: nat) in if 65 \<le> n \<and> n \<le> 90 then char_of (n + 32) else c)"

definition to_lowercase :: "string \<Rightarrow> string" where
  "to_lowercase s = map to_lower s"

definition split_once :: "char \<Rightarrow> string \<Rightarrow> (string \<times> string) option" where
  "split_once c s =
     (if c \<in> set s then Some (takeWhile (\<lambda>x. x \<noteq> c) s, drop 1 (dropWhile (\<lambda>x. x \<noteq> c) s)) else None)"

text \<open>\<open>trim_start_matches("0x")\<close> strips every leading copy of the prefix.\<close>

fun trim_start_0x :: "string \<Rightarrow> string" where
  "trim_start_0x (a # b # cs) =
     (if a = CHR ''0'' \<and> b = CHR ''x'' then trim_start_0x cs else a # b # cs)"
| "trim_start_0x s = s"

lemma trim_ws_free:
  assumes "s \<noteq> []" "\<not> is_ws (hd s)" "\<not> is_ws (last s)"
  shows "trim s = s"
proof -
  have "dropWhile is_ws s = s" using assms(1,2) by (cases s) auto
  moreover have "dropWhile is_ws (rev s) = rev s" using assms(1,3) by (cases s rule: rev_cases) auto
  ultimately show ?thesis by (simp add: trim_def)
qed

lemma trim_idem [simp]: "trim (trim s) = trim s"
proof -
  have edge: "dropWhile P (rev (dropWhile P (rev (dropWhile P s)))) = rev (dropWhile P (rev (dropWhile P s)))"
    for P :: "char \<Rightarrow> bool" and s
  proof (cases "dropWhile P s")
    case Nil
    show ?thesis by (simp only: Nil list.simps rev.simps dropWhile.simps)
  next
    case (Cons a as)
    then have na: "\<not> P a" by (simp add: dropWhile_eq_Cons_conv)
    then have "dropWhile P (rev (a # as)) = dropWhile P (rev as) @ [a]"
      by (auto simp: dropWhile_append1 dropWhile_append3 dropWhile_append)
    with na show ?thesis by (simp add: Cons)
  qed
  show ?thesis unfolding trim_def by (simp only: edge rev_rev_ident dropWhile_idem)
qed

text \<open>A hexadecimal quantity with its prefix reads back.\<close>

lemma trim_start_0x_show_hex: "trim_start_0x (''0x'' @ show_hex_u64 w) = show_hex_u64 w"
proof (cases "show_hex_u64 w" rule: trim_start_0x.cases)
  case (1 a b cs)
  then have "hex_digit b \<noteq> None" using show_hex_digits [of b "unat w"] by (simp add: show_hex_u64_def)
  then have "b \<noteq> CHR ''x''" by (auto simp: hex_digit_def)
  with 1 show ?thesis by simp
qed simp_all

end
