(* ===== verification/Core_Types.thy ===== *)
theory Core_Types
  imports Text_Util
begin

text \<open>
  The \<open>podseq-core\<close> crate (\<open>crates/core/src/lib.rs\<close>, \<open>crates/core/src/keys.rs\<close>): the block
  and header types every other crate shares, the signing message of a header, the error type,
  the serde helper of the signature field, and the signer key parser and block signer. The
  ed25519, bech32 and base64 primitives come from other crates and are arguments of the
  definitions that call them; the text of their errors is a \<open>string\<close>.
\<close>

section \<open>Blocks\<close>

type_synonym hash = "32 barray"
type_synonym sig_bytes = "64 barray"

datatype blob_id = BlobId hash

record header =
  height :: u64
  parent_hash :: hash
  state_root :: hash
  timestamp :: u64

record block =
  header :: header
  data :: "byte list"
  signature :: "sig_bytes option"

definition signing_message :: "header \<Rightarrow> byte list" where
  "signing_message h =
     to_le_bytes (height h) @ to_vec (parent_hash h) @ to_vec (state_root h) @
     to_le_bytes (timestamp h)"

datatype core_error =
    InvalidBlock string
  | Execution string
  | DataAvailability string
  | SettlementErr string
  | Network string

fun core_error_display :: "core_error \<Rightarrow> string" where
  "core_error_display (InvalidBlock msg) = ''invalid block: '' @ msg"
| "core_error_display (Execution msg) = ''execution failure: '' @ msg"
| "core_error_display (DataAvailability msg) = ''data availability failure: '' @ msg"
| "core_error_display (SettlementErr msg) = ''settlement failure: '' @ msg"
| "core_error_display (Network msg) = ''network failure: '' @ msg"

text \<open>\<open>mod serde_signature\<close>: the signature travels as an optional byte vector; on the way in a
  vector of another length is an error.\<close>

definition serde_signature_serialize :: "sig_bytes option \<Rightarrow> byte list option" where
  "serde_signature_serialize sig = map_option to_vec sig"

definition serde_signature_deserialize :: "byte list option \<Rightarrow> (string, sig_bytes option) result" where
  "serde_signature_deserialize opt =
     (case opt of
        None \<Rightarrow> Ok None
      | Some v \<Rightarrow> (case try_into v of
                     None \<Rightarrow> Err ''expected 64-byte signature''
                   | Some s \<Rightarrow> Ok (Some s)))"

section \<open>Signer keys\<close>

text \<open>\<open>parse_signer_key\<close>: bech32 first, then 33 base64 bytes with scheme flag 0. The
  arguments stand for \<open>Ed25519PrivateKey::from_suiprivkey\<close>, the base64 decoder and
  \<open>Ed25519PrivateKey::new\<close>.\<close>

definition parse_signer_key ::
    "(string \<Rightarrow> (string, 'key) result) \<Rightarrow> (string \<Rightarrow> (string, byte list) result) \<Rightarrow>
     (hash \<Rightarrow> 'key) \<Rightarrow> string \<Rightarrow> (string, 'key) result" where
  "parse_signer_key from_suiprivkey base64_decode new_key s =
     (let trimmed = trim s in
      if starts_with trimmed ''suiprivkey'' then from_suiprivkey (to_lowercase trimmed)
      else case base64_decode trimmed of
             Inl e \<Rightarrow> Err (''not bech32 and not valid base64: '' @ e)
           | Inr raw \<Rightarrow>
               if length raw \<noteq> 33 then
                 Err (''base64 payload is '' @ show_nat (length raw) @
                      '' bytes, expected 33 (flag + ed25519 key)'')
               else if raw ! 0 \<noteq> 0 then
                 Err (''unsupported key scheme flag: '' @ show_nat (unat (raw ! 0)) @
                      '' (expected 0 for ed25519)'')
               else Ok (new_key (Abs_barray (drop 1 raw))))"

record 'key block_signer =
  bs_key :: 'key

definition from_suiprivkey_file ::
    "(string \<Rightarrow> (string, 'key) result) \<Rightarrow> (string \<Rightarrow> (string, byte list) result) \<Rightarrow>
     (hash \<Rightarrow> 'key) \<Rightarrow> (string \<Rightarrow> (string, string) result) \<Rightarrow> string \<Rightarrow>
     (core_error, 'key block_signer) result" where
  "from_suiprivkey_file from_suiprivkey base64_decode new_key read_to_string path =
     (case read_to_string path of
        Inl e \<Rightarrow> Err (Execution (''reading block key: '' @ e))
      | Inr contents \<Rightarrow>
          (case parse_signer_key from_suiprivkey base64_decode new_key (trim contents) of
             Inl e \<Rightarrow> Err (Execution (''invalid block key: '' @ e))
           | Inr key \<Rightarrow> Ok \<lparr>bs_key = key\<rparr>))"

text \<open>The signature schemes of \<open>SimpleSignature\<close>: only the ed25519 variant carries the
  64 bytes the block stores.\<close>

datatype simple_signature = Ed25519 sig_bytes | OtherScheme

definition sign_header ::
    "('key \<Rightarrow> byte list \<Rightarrow> (string, simple_signature) result) \<Rightarrow> 'key block_signer \<Rightarrow> header \<Rightarrow>
     (core_error, sig_bytes) result" where
  "sign_header try_sign signer h =
     (let msg = signing_message h in
      case try_sign (bs_key signer) msg of
        Inl e \<Rightarrow> Err (Execution (''signing header: '' @ e))
      | Inr (Ed25519 s) \<Rightarrow> Ok s
      | Inr OtherScheme \<Rightarrow> Err (Execution ''unexpected signature scheme''))"

section \<open>Properties\<close>

lemma length_signing_message [simp]: "length (signing_message h) = 80"
  by (simp add: signing_message_def)

lemma signing_message_inject [simp]: "signing_message h = signing_message h' \<longleftrightarrow> h = h'"
proof
  assume eq: "signing_message h = signing_message h'"
  have "to_le_bytes (height h) = to_le_bytes (height h')"
    and "to_vec (parent_hash h) = to_vec (parent_hash h')"
    and "to_vec (state_root h) = to_vec (state_root h')"
    and "to_le_bytes (timestamp h) = to_le_bytes (timestamp h')"
    using eq by (auto simp: signing_message_def append_eq_append_conv)
  then show "h = h'" by (simp add: to_vec_eq_iff)
qed simp

lemma serde_signature_roundtrip [simp]:
  "serde_signature_deserialize (serde_signature_serialize sig) = Ok sig"
  by (cases sig) (auto simp: serde_signature_deserialize_def serde_signature_serialize_def)

lemma serde_signature_deserialize_Ok:
  "serde_signature_deserialize opt = Ok sig \<longleftrightarrow> opt = serde_signature_serialize sig"
  by (cases opt; cases sig)
    (auto simp: serde_signature_deserialize_def serde_signature_serialize_def try_into_eq_Some to_vec_eq_iff
      split: option.splits)

text \<open>The base64 branch accepts exactly a zero flag followed by 32 key bytes.\<close>

lemma parse_signer_key_base64:
  assumes "\<not> starts_with (trim s) ''suiprivkey''"
  shows "parse_signer_key fs b64 nk s = Ok k \<longleftrightarrow>
    (\<exists>seed. b64 (trim s) = Ok (0 # to_vec seed) \<and> k = nk seed)"
proof
  assume "parse_signer_key fs b64 nk s = Ok k"
  with assms obtain raw where raw: "b64 (trim s) = Ok raw" "length raw = 33" "raw ! 0 = 0"
    "k = nk (Abs_barray (drop 1 raw))"
    by (auto simp: parse_signer_key_def Let_def split: sum.splits if_splits)
  then have "raw = 0 # drop 1 raw" by (cases raw) auto
  moreover have "to_vec (Abs_barray (drop 1 raw) :: hash) = drop 1 raw" using raw(2) by simp
  ultimately show "\<exists>seed. b64 (trim s) = Ok (0 # to_vec seed) \<and> k = nk seed"
    using raw(1,4) by metis
next
  assume "\<exists>seed. b64 (trim s) = Ok (0 # to_vec seed) \<and> k = nk seed"
  with assms show "parse_signer_key fs b64 nk s = Ok k"
    by (auto simp: parse_signer_key_def Let_def to_vec_inverse)
qed

lemma sign_header_Ok:
  "sign_header try_sign signer h = Ok s \<longleftrightarrow>
    try_sign (bs_key signer) (signing_message h) = Ok (Ed25519 s)"
  by (auto simp: sign_header_def split: sum.splits simple_signature.splits)

end
