(* ===== verification/Disk.thy ===== *)
theory Disk
  imports Core_Types
begin

text \<open>
  The filesystem calls the stores make (\<open>std::fs::read\<close>, \<open>write\<close>, \<open>rename\<close>, \<open>exists\<close>), with
  faults, and the shared shape of the JSON stores under \<open>crates/node/src/store\<close>: load with a
  default, save through a temporary file. A fault plan decides for every call whether it
  fails; a failing or interrupted write leaves arbitrary partial contents.
\<close>

section \<open>Files\<close>

type_synonym path = string

datatype fdata = Text string | Bytes "byte list"

record disk =
  files :: "path \<rightharpoonup> fdata"
  ops :: nat

text \<open>\<open>io n\<close> is the fault of the \<open>n\<close>-th call: an error and what a write leaves behind.\<close>

type_synonym io = "nat \<Rightarrow> (string \<times> fdata) option"

datatype store_error =
    StoreIo string
  | StoreSerde string
  | BlockNotFound u64
  | Conflict string

fun store_error_display :: "store_error \<Rightarrow> string" where
  "store_error_display (StoreIo e) = ''io error: '' @ e"
| "store_error_display (StoreSerde e) = ''serde error: '' @ e"
| "store_error_display (BlockNotFound h) = ''block not found: height '' @ show_u64 h"
| "store_error_display (Conflict e) = ''state conflict: '' @ e"

definition call :: "disk \<Rightarrow> disk" where "call d = d\<lparr>ops := Suc (ops d)\<rparr>"

definition fs_exists :: "path \<Rightarrow> disk \<Rightarrow> bool" where
  "fs_exists p d \<longleftrightarrow> files d p \<noteq> None"

definition fs_read :: "io \<Rightarrow> path \<Rightarrow> disk \<Rightarrow> (store_error, fdata) result \<times> disk" where
  "fs_read io p d =
     (case io (ops d) of
        Some (e, _) \<Rightarrow> (Err (StoreIo e), call d)
      | None \<Rightarrow> (case files d p of
            None \<Rightarrow> (Err (StoreIo ''No such file or directory''), call d)
          | Some t \<Rightarrow> (Ok t, call d)))"

definition fs_read_to_string :: "io \<Rightarrow> path \<Rightarrow> disk \<Rightarrow> (store_error, string) result \<times> disk" where
  "fs_read_to_string io p d =
     (case fs_read io p d of
        (Inl e, d') \<Rightarrow> (Err e, d')
      | (Inr (Text t), d') \<Rightarrow> (Ok t, d')
      | (Inr (Bytes _), d') \<Rightarrow> (Err (StoreIo ''stream did not contain valid UTF-8''), d'))"

definition fs_write :: "io \<Rightarrow> path \<Rightarrow> fdata \<Rightarrow> disk \<Rightarrow> (store_error, unit) result \<times> disk" where
  "fs_write io p t d =
     (case io (ops d) of
        Some (e, partial) \<Rightarrow> (Err (StoreIo e), (call d)\<lparr>files := (files d)(p \<mapsto> partial)\<rparr>)
      | None \<Rightarrow> (Ok (), (call d)\<lparr>files := (files d)(p \<mapsto> t)\<rparr>))"

definition fs_rename :: "io \<Rightarrow> path \<Rightarrow> path \<Rightarrow> disk \<Rightarrow> (store_error, unit) result \<times> disk" where
  "fs_rename io p q d =
     (case io (ops d) of
        Some (e, _) \<Rightarrow> (Err (StoreIo e), call d)
      | None \<Rightarrow> (case files d p of
            None \<Rightarrow> (Err (StoreIo ''No such file or directory''), call d)
          | Some t \<Rightarrow> (Ok (), (call d)\<lparr>files := (files d)(p := None, q \<mapsto> t)\<rparr>)))"

definition fs_create_dir_all :: "io \<Rightarrow> path \<Rightarrow> disk \<Rightarrow> (store_error, unit) result \<times> disk" where
  "fs_create_dir_all io p d =
     (case io (ops d) of Some (e, _) \<Rightarrow> (Err (StoreIo e), call d) | None \<Rightarrow> (Ok (), call d))"

text \<open>Sequencing of fallible operations on a state (\<open>?\<close>), on the disk here and on the state of
  whole components elsewhere.\<close>

definition sbind ::
    "('s \<Rightarrow> ('e, 'a) result \<times> 's) \<Rightarrow> ('a \<Rightarrow> 's \<Rightarrow> ('e, 'b) result \<times> 's) \<Rightarrow>
     's \<Rightarrow> ('e, 'b) result \<times> 's" where
  "sbind m f d = (case m d of (Inl e, d') \<Rightarrow> (Inl e, d') | (Inr x, d') \<Rightarrow> f x d')"

definition sreturn :: "'a \<Rightarrow> 's \<Rightarrow> ('e, 'a) result \<times> 's" where "sreturn x d = (Ok x, d)"
definition sthrow :: "'e \<Rightarrow> 's \<Rightarrow> ('e, 'a) result \<times> 's" where "sthrow e d = (Err e, d)"
definition slift :: "('e, 'a) result \<Rightarrow> 's \<Rightarrow> ('e, 'a) result \<times> 's" where "slift r d = (r, d)"

definition st_map_err :: "('e \<Rightarrow> 'f) \<Rightarrow> ('s \<Rightarrow> ('e, 'a) result \<times> 's) \<Rightarrow> 's \<Rightarrow> ('f, 'a) result \<times> 's" where
  "st_map_err f m d = (case m d of (r, d') \<Rightarrow> (map_err f r, d'))"

section \<open>JSON stores\<close>

text \<open>\<open>serde_json\<close>: \<open>to_string_pretty\<close> and \<open>from_str\<close> of one type.\<close>

record 'a json =
  to_json :: "'a \<Rightarrow> (string, string) result"
  from_json :: "string \<Rightarrow> (string, 'a) result"

definition json_ok :: "'a json \<Rightarrow> bool" where
  "json_ok j \<longleftrightarrow> (\<forall>x t. to_json j x = Ok t \<longrightarrow> from_json j t = Ok x \<and> trim t \<noteq> [])"

definition load_json :: "io \<Rightarrow> 'a json \<Rightarrow> 'a \<Rightarrow> path \<Rightarrow> disk \<Rightarrow> (store_error, 'a) result \<times> disk" where
  "load_json io j dflt p d =
     (if \<not> fs_exists p d then (Ok dflt, d)
      else sbind (fs_read_to_string io p) (\<lambda>text.
             if trim text = [] then sreturn dflt
             else slift (map_err StoreSerde (from_json j text))) d)"

definition save_json :: "io \<Rightarrow> 'a json \<Rightarrow> path \<Rightarrow> path \<Rightarrow> 'a \<Rightarrow> disk \<Rightarrow> (store_error, unit) result \<times> disk" where
  "save_json io j tmp p x =
     sbind (slift (map_err StoreSerde (to_json j x))) (\<lambda>text.
     sbind (fs_write io tmp (Text text)) (\<lambda>_.
       fs_rename io tmp p))"

section \<open>Properties\<close>

lemma call_simps [simp]: "files (call d) = files d" "ops (call d) = Suc (ops d)"
  by (simp_all add: call_def)

lemma sbind_simps [simp]:
  "m d = (Inl e, d') \<Longrightarrow> sbind m f d = (Inl e, d')"
  "m d = (Inr x, d') \<Longrightarrow> sbind m f d = f x d'"
  by (simp_all add: sbind_def)

lemma sbind_return [simp]: "sbind (sreturn x) f d = f x d" "sbind (sthrow e) f d = (Err e, d)"
  by (simp_all add: sbind_def sreturn_def sthrow_def)

lemma sbind_slift [simp]:
  "sbind (slift (Inr x)) f d = f x d" "sbind (slift (Inl e)) f d = (Err e, d)"
  by (simp_all add: sbind_def slift_def)

lemma fs_read_files [simp]: "files (snd (fs_read io p d)) = files d"
  by (simp add: fs_read_def split: option.splits)

lemma fs_read_to_string_files [simp]: "files (snd (fs_read_to_string io p d)) = files d"
  using fs_read_files [of io p d]
  by (auto simp: fs_read_to_string_def simp del: fs_read_files split: prod.splits sum.splits fdata.splits)

lemma load_json_files [simp]: "files (snd (load_json io j dflt p d)) = files d"
  using fs_read_to_string_files [of io p d]
  by (auto simp: load_json_def sbind_def sreturn_def slift_def simp del: fs_read_to_string_files
      split: prod.splits sum.splits)

lemma load_json_same: "load_json io j dflt p d = (r, d') \<Longrightarrow> files d' = files d"
  using load_json_files [of io j dflt p d] by simp

text \<open>What a store file holds.\<close>

definition holds :: "'a json \<Rightarrow> 'a \<Rightarrow> path \<Rightarrow> disk \<Rightarrow> 'a \<Rightarrow> bool" where
  "holds j dflt p d x \<longleftrightarrow>
     (files d p = None \<and> x = dflt) \<or>
     (\<exists>t. files d p = Some (Text t) \<and> (if trim t = [] then x = dflt else from_json j t = Ok x))"

lemma load_json_holds:
  assumes "io (ops d) = None" "holds j dflt p d x"
  shows "\<exists>d'. load_json io j dflt p d = (Ok x, d') \<and> files d' = files d"
proof (cases "files d p")
  case None
  with assms show ?thesis by (simp add: load_json_def fs_exists_def holds_def)
next
  case (Some f)
  with assms obtain t where t: "f = Text t" "if trim t = [] then x = dflt else from_json j t = Ok x"
    by (auto simp: holds_def)
  with Some assms(1) show ?thesis
    by (auto simp: load_json_def fs_exists_def sbind_def fs_read_to_string_def fs_read_def sreturn_def
        slift_def split: if_splits)
qed

lemma load_json_Ok:
  assumes "load_json io j dflt p d = (Ok x, d')"
  shows "holds j dflt p d x \<and> files d' = files d"
proof -
  have "files d' = files d" using load_json_files [of io j dflt p d] assms by simp
  moreover have "holds j dflt p d x"
    using assms by (auto simp: load_json_def fs_exists_def holds_def sbind_def fs_read_to_string_def
        fs_read_def sreturn_def slift_def split: if_splits option.splits prod.splits sum.splits fdata.splits)
  ultimately show ?thesis by simp
qed

lemma holds_unique: "holds j dflt p d x \<Longrightarrow> holds j dflt p d y \<Longrightarrow> x = y"
  by (auto simp: holds_def split: if_splits)

lemma holds_cong: "files d p = files d' p \<Longrightarrow> holds j dflt p d x \<longleftrightarrow> holds j dflt p d' x"
  by (simp add: holds_def)

text \<open>A save, under any fault plan, either leaves the store file as it was and reports an error, or
  replaces it by the whole new contents and reports success; nothing but the temporary file
  changes otherwise.\<close>

lemma save_json_cases:
  assumes "save_json io j tmp p x d = (r, d')" "tmp \<noteq> p"
  shows "(\<exists>e. r = Err e) \<and> files d' p = files d p \<and> (\<forall>q. q \<noteq> tmp \<longrightarrow> files d' q = files d q) \<or>
    r = Ok () \<and> (\<exists>t. to_json j x = Ok t \<and> files d' p = Some (Text t)) \<and>
      (\<forall>q. q \<noteq> tmp \<longrightarrow> q \<noteq> p \<longrightarrow> files d' q = files d q)"
  using assms
  by (cases "to_json j x")
     (auto simp: save_json_def fs_write_def fs_rename_def sbind_def slift_def
       split: option.splits prod.splits sum.splits if_splits)

lemma save_json_holds:
  assumes "json_ok j" "save_json io j tmp p x d = (r, d')" "tmp \<noteq> p" "holds j dflt p d old"
  shows "holds j dflt p d' (case r of Inl _ \<Rightarrow> old | Inr _ \<Rightarrow> x)"
  using save_json_cases [OF assms(2,3)] assms(1,4)
  by (auto simp: holds_def json_ok_def)

lemma save_json_no_fault:
  assumes "\<And>n. io n = None" "to_json j x = Ok t"
  shows "\<exists>d'. save_json io j tmp p x d = (Ok (), d')"
  using assms by (simp add: save_json_def fs_write_def fs_rename_def sbind_def slift_def)

end
