(* ===== verification/Effects.thy ===== *)
theory Effects
  imports Disk
begin

text \<open>
  Reasoning about the state-passing operations: inversion of \<open>sbind\<close>, and a locale for
  properties of the form \<open>every operation relates its start and end state\<close>, where the
  relation is reflexive and transitive (a log that only grows, fields that never change).
\<close>

lemma sbind_Ok_iff: "sbind m f s = (Ok y, s') \<longleftrightarrow> (\<exists>x s1. m s = (Ok x, s1) \<and> f x s1 = (Ok y, s'))"
  by (auto simp: sbind_def split: prod.splits sum.splits)

lemma sbind_Err_iff:
  "sbind m f s = (Err e, s') \<longleftrightarrow> m s = (Err e, s') \<or> (\<exists>x s1. m s = (Ok x, s1) \<and> f x s1 = (Err e, s'))"
  by (auto simp: sbind_def split: prod.splits sum.splits)

lemma sbindE:
  assumes "sbind m f s = (r, s')"
  obtains (err) e where "m s = (Err e, s')" "r = Err e"
    | (ok) x s1 where "m s = (Ok x, s1)" "f x s1 = (r, s')"
  using assms by (auto simp: sbind_def split: prod.splits sum.splits)

lemma st_map_err_Ok_iff [simp]: "st_map_err g m s = (Ok y, s') \<longleftrightarrow> m s = (Ok y, s')"
  by (auto simp: st_map_err_def split: prod.splits)

lemma st_map_err_Err_iff: "st_map_err g m s = (Err e, s') \<longleftrightarrow> (\<exists>e'. m s = (Err e', s') \<and> e = g e')"
  by (auto simp: st_map_err_def map_err_def split: prod.splits sum.splits)

lemma slift_iff [simp]: "slift r s = (x, s') \<longleftrightarrow> x = r \<and> s' = s"
  by (auto simp: slift_def)

lemma sreturn_iff [simp]: "sreturn x s = (r, s') \<longleftrightarrow> r = Ok x \<and> s' = s"
  by (auto simp: sreturn_def)

lemma sthrow_iff [simp]: "sthrow e s = (r, s') \<longleftrightarrow> r = Err e \<and> s' = s"
  by (auto simp: sthrow_def)

definition preserves :: "('s \<Rightarrow> 's \<Rightarrow> bool) \<Rightarrow> ('s \<Rightarrow> 'a \<times> 's) \<Rightarrow> bool" where
  "preserves R m \<longleftrightarrow> (\<forall>s. R s (snd (m s)))"

locale run_order =
  fixes R :: "'s \<Rightarrow> 's \<Rightarrow> bool"
  assumes refl: "R s s"
    and trans: "R s t \<Longrightarrow> R t u \<Longrightarrow> R s u"
begin

lemma preservesI: "(\<And>s. R s (snd (m s))) \<Longrightarrow> preserves R m"
  by (simp add: preserves_def)

lemma preservesD: "preserves R m \<Longrightarrow> m s = (r, s') \<Longrightarrow> R s s'"
  unfolding preserves_def by (metis snd_conv)

lemma preserves_slift: "preserves R (slift r)"
  by (simp add: preserves_def slift_def refl)

lemma preserves_sreturn: "preserves R (sreturn x)"
  by (simp add: preserves_def sreturn_def refl)

lemma preserves_sthrow: "preserves R (sthrow e)"
  by (simp add: preserves_def sthrow_def refl)

lemma preserves_st_map_err: "preserves R m \<Longrightarrow> preserves R (st_map_err g m)"
  by (simp add: preserves_def st_map_err_def case_prod_beta)

lemma preserves_sbind:
  assumes "preserves R m" "\<And>x s s1. m s = (Ok x, s1) \<Longrightarrow> R s1 (snd (f x s1))"
  shows "preserves R (sbind m f)"
proof (rule preservesI)
  fix s
  obtain r s1 where m: "m s = (r, s1)" by fastforce
  have "R s s1" by (rule preservesD [OF assms(1) m])
  with m show "R s (snd (sbind m f s))"
    by (cases r) (auto intro: trans assms(2))
qed

lemma preserves_sbind':
  "preserves R m \<Longrightarrow> (\<And>x. preserves R (f x)) \<Longrightarrow> preserves R (sbind m f)"
  by (rule preserves_sbind) (simp_all add: preserves_def)

lemma preserves_sbind_slift:
  "(\<And>x. r = Ok x \<Longrightarrow> preserves R (f x)) \<Longrightarrow> preserves R (sbind (slift r) f)"
  by (cases r) (simp_all add: preserves_def refl)

lemma preserves_if: "(b \<Longrightarrow> preserves R m) \<Longrightarrow> (\<not> b \<Longrightarrow> preserves R m') \<Longrightarrow> preserves R (if b then m else m')"
  by simp

lemma preserves_after: "preserves R m \<Longrightarrow> R s s1 \<Longrightarrow> R s (snd (m s1))"
  unfolding preserves_def by (blast intro: trans)

lemmas preserves_rules =
  preserves_slift preserves_sreturn preserves_sthrow preserves_st_map_err

end

text \<open>Fields that an operation leaves alone: equality of a view of the state.\<close>

definition same_view :: "('s \<Rightarrow> 'v) \<Rightarrow> 's \<Rightarrow> 's \<Rightarrow> bool" where
  "same_view f s t \<longleftrightarrow> f s = f t"

interpretation view: run_order "same_view f"
  by unfold_locales (simp_all add: same_view_def)

text \<open>A log that only grows, every new entry meeting a condition.\<close>

definition log_extends :: "('s \<Rightarrow> 'e list) \<Rightarrow> ('e \<Rightarrow> bool) \<Rightarrow> 's \<Rightarrow> 's \<Rightarrow> bool" where
  "log_extends lg Q s t \<longleftrightarrow> (\<exists>new. lg t = lg s @ new \<and> (\<forall>e \<in> set new. Q e))"

interpretation log: run_order "log_extends lg Q"
proof
  show "log_extends lg Q s s" for s by (simp add: log_extends_def)
  show "log_extends lg Q s u" if "log_extends lg Q s t" "log_extends lg Q t u" for s t u
  proof -
    from that obtain n1 n2 where "lg t = lg s @ n1" "lg u = lg t @ n2"
      "\<forall>e \<in> set n1. Q e" "\<forall>e \<in> set n2. Q e"
      unfolding log_extends_def by blast
    then have "lg u = lg s @ (n1 @ n2) \<and> (\<forall>e \<in> set (n1 @ n2). Q e)" by auto
    then show ?thesis unfolding log_extends_def by blast
  qed
qed

lemma log_extends_same: "lg t = lg s \<Longrightarrow> log_extends lg Q s t"
  by (simp add: log_extends_def)

lemma log_extends_snoc: "lg t = lg s @ [e] \<Longrightarrow> Q e \<Longrightarrow> log_extends lg Q s t"
  by (simp add: log_extends_def)

lemma log_preserves_after:
  "preserves (log_extends lg Q) m \<Longrightarrow> lg s1 = lg s \<Longrightarrow> log_extends lg Q s (snd (m s1))"
  by (rule log.preserves_after) (simp_all add: log_extends_same)

lemma log_extends_mem: "log_extends lg Q s t \<Longrightarrow> lg s = [] \<Longrightarrow> e \<in> set (lg t) \<Longrightarrow> Q e"
  by (auto simp: log_extends_def)

end
