(* ===== verification/Engine.thy ===== *)
theory Engine
  imports Effects
begin

text \<open>
  The Engine API client (\<open>crates/engine/src/client.rs\<close>, \<open>auth.rs\<close>, \<open>lib.rs\<close>): authenticated JSON-RPC
  calls to the execution layer, head discovery with retries, building, accepting and
  finalizing blocks. The execution layer, HTTP, the token and the JSON codecs of the payload
  types are a port over an abstract outside world \<open>'w\<close> that every call may change.
\<close>

section \<open>JSON values\<close>

text \<open>Numbers are integers, or have a fraction or an exponent and are kept by their text.\<close>

datatype jv =
    JNull
  | JBool bool
  | JNum int
  | JFloat string
  | JStr string
  | JArr "jv list"
  | JObj "(string \<times> jv) list"

definition jget :: "string \<Rightarrow> jv \<Rightarrow> jv option" where
  "jget k v = (case v of JObj kvs \<Rightarrow> map_of kvs k | _ \<Rightarrow> None)"

definition as_i64 :: "jv \<Rightarrow> int option" where
  "as_i64 v = (case v of JNum i \<Rightarrow> if - (2 ^ 63) \<le> i \<and> i < 2 ^ 63 then Some i else None | _ \<Rightarrow> None)"

definition as_str :: "jv \<Rightarrow> string option" where
  "as_str v = (case v of JStr t \<Rightarrow> Some t | _ \<Rightarrow> None)"

text \<open>Deserializing \<open>String\<close> and \<open>Option<Value>\<close>.\<close>

definition string_value :: "jv \<Rightarrow> (string, string) result" where
  "string_value v = ok_or ''invalid type, expected a string'' (as_str v)"

definition option_value :: "jv \<Rightarrow> (string, jv option) result" where
  "option_value v = Ok (if v = JNull then None else Some v)"

section \<open>Types of the Engine API\<close>

datatype engine_error =
    ERpc int string
  | EDecode string
  | ETransport string
  | EJwt string
  | EAuthSecret string
  | EUrl string

definition show_int :: "int \<Rightarrow> string" where
  "show_int i = (if i < 0 then ''-'' @ show_nat (nat (- i)) else show_nat (nat i))"

fun engine_error_display :: "engine_error \<Rightarrow> string" where
  "engine_error_display (ERpc code message) = ''engine api error ('' @ show_int code @ ''): '' @ message"
| "engine_error_display (EDecode e) = ''decode error: '' @ e"
| "engine_error_display (ETransport e) = ''transport error: '' @ e"
| "engine_error_display (EJwt e) = ''jwt error: '' @ e"
| "engine_error_display (EAuthSecret e) = ''auth secret error: '' @ e"
| "engine_error_display (EUrl e) = ''invalid url: '' @ e"

record forkchoice =
  fc_head :: hash
  fc_safe :: hash
  fc_finalized :: hash

record attributes =
  pa_timestamp :: u64
  pa_prev_randao :: hash
  pa_fee_recipient :: "20 barray"
  pa_withdrawals :: "jv list option"
  pa_beacon_root :: "hash option"

text \<open>\<open>ExecutionPayloadV3\<close>: the fields the node reads, and the others as they came.\<close>

record payload =
  pl_parent_hash :: hash
  pl_state_root :: hash
  pl_block_hash :: hash
  pl_block_number :: u64
  pl_timestamp :: u64
  pl_transactions :: "byte list list"
  pl_rest :: "jv list"

datatype payload_validity = Valid | Invalid string | Syncing | Accepted

record payload_status =
  ps_status :: payload_validity
  ps_latest_valid_hash :: "hash option"

record forkchoice_updated =
  fu_payload_status :: payload_status
  fu_payload_id :: "(8 barray) option"

record built_payload =
  bp_payload_id :: "8 barray"
  bp_payload :: payload
  bp_block_hash :: hash
  bp_height :: u64
  bp_timestamp :: u64

definition PARENT_BEACON_BLOCK_ROOT :: hash where
  "PARENT_BEACON_BLOCK_ROOT = barr_fill 0"

section \<open>The port and the client state\<close>

text \<open>\<open>ep_token\<close> mints a bearer token, \<open>ep_post\<close> is the HTTP round trip with its JSON body,
  \<open>ep_now\<close> and \<open>ep_sleep\<close> are the clock in milliseconds; the rest are the serde codecs of the
  foreign types and the texts of foreign errors.\<close>

record 'w engine_port =
  ep_endpoint :: string
  ep_token :: "'w \<Rightarrow> (string, string) result \<times> 'w"
  ep_post :: "string \<Rightarrow> string \<Rightarrow> jv \<Rightarrow> 'w \<Rightarrow> (string, jv) result \<times> 'w"
  ep_now :: "'w \<Rightarrow> nat"
  ep_sleep :: "nat \<Rightarrow> 'w \<Rightarrow> 'w"
  ep_enc_state :: "forkchoice \<Rightarrow> (string, jv) result"
  ep_enc_attributes :: "attributes option \<Rightarrow> (string, jv) result"
  ep_enc_payload_id :: "8 barray \<Rightarrow> (string, jv) result"
  ep_enc_payload :: "payload \<Rightarrow> (string, jv) result"
  ep_enc_hashes :: "hash list \<Rightarrow> (string, jv) result"
  ep_enc_hash :: "hash \<Rightarrow> (string, jv) result"
  ep_dec_updated :: "jv \<Rightarrow> (string, forkchoice_updated) result"
  ep_dec_envelope :: "jv \<Rightarrow> (string, payload) result"
  ep_dec_status :: "jv \<Rightarrow> (string, payload_status) result"
  ep_parse_hash :: "string \<Rightarrow> (string, hash) result"
  ep_int_error :: "string \<Rightarrow> string"
  ep_show_status :: "payload_validity \<Rightarrow> string"

text \<open>\<open>next_id\<close> of the client, and the world.\<close>

record 'w eng_state =
  es_next_id :: u64
  es_world :: 'w

definition es_sleep :: "'w engine_port \<Rightarrow> nat \<Rightarrow> ('w, 'm) eng_state_scheme \<Rightarrow> ('w, 'm) eng_state_scheme" where
  "es_sleep p ms s = s\<lparr>es_world := ep_sleep p ms (es_world s)\<rparr>"

section \<open>JSON-RPC calls\<close>

definition decode_response :: "(jv \<Rightarrow> (string, 'r) result) \<Rightarrow> jv \<Rightarrow> (engine_error, 'r) result" where
  "decode_response from_value response =
     (case jget ''error'' response of
        Some err \<Rightarrow>
          (let code = (case Option.bind (jget ''code'' err) as_i64 of Some i \<Rightarrow> i | None \<Rightarrow> - 1);
               message = (case Option.bind (jget ''message'' err) as_str of Some t \<Rightarrow> t | None \<Rightarrow> ''unknown error'')
           in Err (ERpc code message))
      | None \<Rightarrow>
          (case jget ''result'' response of
             None \<Rightarrow> Err (ERpc (- 1) ''response missing result field'')
           | Some v \<Rightarrow> map_err EDecode (from_value v)))"

definition rpc_request :: "u64 \<Rightarrow> string \<Rightarrow> jv list \<Rightarrow> jv" where
  "rpc_request i method params =
     JObj [(''jsonrpc'', JStr ''2.0''), (''id'', JNum (uint i)),
           (''method'', JStr method), (''params'', JArr params)]"

definition engine_call ::
    "'w engine_port \<Rightarrow> (jv \<Rightarrow> (string, 'r) result) \<Rightarrow> string \<Rightarrow> jv list \<Rightarrow>
     ('w, 'm) eng_state_scheme \<Rightarrow> (engine_error, 'r) result \<times> ('w, 'm) eng_state_scheme" where
  "engine_call p from_value method params s =
     (let i = es_next_id s; s1 = s\<lparr>es_next_id := i + 1\<rparr> in
      case ep_token p (es_world s1) of
        (Inl e, w) \<Rightarrow> (Err (EJwt e), s1\<lparr>es_world := w\<rparr>)
      | (Inr token, w) \<Rightarrow>
          (case ep_post p (ep_endpoint p) token (rpc_request i method params) w of
             (Inl e, w') \<Rightarrow> (Err (ETransport e), s1\<lparr>es_world := w'\<rparr>)
           | (Inr response, w') \<Rightarrow> (decode_response from_value response, s1\<lparr>es_world := w'\<rparr>)))"

definition fork_choice_updated_v3 ::
    "'w engine_port \<Rightarrow> forkchoice \<Rightarrow> attributes option \<Rightarrow>
     ('w, 'm) eng_state_scheme \<Rightarrow> (engine_error, forkchoice_updated) result \<times> ('w, 'm) eng_state_scheme" where
  "fork_choice_updated_v3 p st attrs =
     sbind (slift (map_err EDecode (ep_enc_state p st))) (\<lambda>a.
     sbind (slift (map_err EDecode (ep_enc_attributes p attrs))) (\<lambda>b.
       engine_call p (ep_dec_updated p) ''engine_forkchoiceUpdatedV3'' [a, b]))"

definition get_payload_v4 ::
    "'w engine_port \<Rightarrow> 8 barray \<Rightarrow>
     ('w, 'm) eng_state_scheme \<Rightarrow> (engine_error, payload) result \<times> ('w, 'm) eng_state_scheme" where
  "get_payload_v4 p i =
     sbind (slift (map_err EDecode (ep_enc_payload_id p i))) (\<lambda>a.
       engine_call p (ep_dec_envelope p) ''engine_getPayloadV4'' [a])"

definition new_payload_v4 ::
    "'w engine_port \<Rightarrow> payload \<Rightarrow> hash list \<Rightarrow> hash \<Rightarrow>
     ('w, 'm) eng_state_scheme \<Rightarrow> (engine_error, payload_status) result \<times> ('w, 'm) eng_state_scheme" where
  "new_payload_v4 p pl versioned_hashes beacon_root =
     sbind (slift (map_err EDecode (ep_enc_payload p pl))) (\<lambda>a.
     sbind (slift (map_err EDecode (ep_enc_hashes p versioned_hashes))) (\<lambda>b.
     sbind (slift (map_err EDecode (ep_enc_hash p beacon_root))) (\<lambda>c.
       engine_call p (ep_dec_status p) ''engine_newPayloadV4'' [a, b, c, JArr []])))"

definition block_number ::
    "'w engine_port \<Rightarrow> ('w, 'm) eng_state_scheme \<Rightarrow> (engine_error, u64) result \<times> ('w, 'm) eng_state_scheme" where
  "block_number p =
     sbind (engine_call p string_value ''eth_blockNumber'' []) (\<lambda>hex.
       slift (ok_or (ERpc (- 3) (''invalid block number: '' @ ep_int_error p (trim_start_0x hex)))
                (from_str_radix_16 (trim_start_0x hex))))"

definition block_by_number ::
    "'w engine_port \<Rightarrow> u64 \<Rightarrow>
     ('w, 'm) eng_state_scheme \<Rightarrow> (engine_error, hash option) result \<times> ('w, 'm) eng_state_scheme" where
  "block_by_number p number =
     sbind (engine_call p option_value ''eth_getBlockByNumber''
              [JStr (''0x'' @ show_hex_u64 number), JBool False]) (\<lambda>block.
       slift (case block of
          None \<Rightarrow> Ok None
        | Some obj \<Rightarrow>
            and_then (map_err (\<lambda>e. ERpc (- 3) (''invalid block hash: '' @ e))
                        (string_value (case jget ''hash'' obj of Some v \<Rightarrow> v | None \<Rightarrow> JNull))) (\<lambda>h.
            and_then (map_err (\<lambda>e. ERpc (- 3) (''invalid block hash format: '' @ e))
                        (ep_parse_hash p h)) (\<lambda>x. Ok (Some x)))))"

section \<open>Head discovery\<close>

fun engine_is_transient :: "engine_error \<Rightarrow> bool" where
  "engine_is_transient (ETransport _) = True"
| "engine_is_transient (ERpc code message) = (code = - 1 \<and> starts_with message ''block '')"
| "engine_is_transient _ = False"

definition current_head_inner ::
    "'w engine_port \<Rightarrow> ('w, 'm) eng_state_scheme \<Rightarrow> (engine_error, hash \<times> u64) result \<times> ('w, 'm) eng_state_scheme" where
  "current_head_inner p =
     sbind (block_number p) (\<lambda>ht.
     sbind (block_by_number p ht) (\<lambda>found.
       slift (case found of
          None \<Rightarrow> Err (ERpc (- 1) (''block '' @ show_u64 ht @ '' not found; is the EL initialized?''))
        | Some h \<Rightarrow> Ok (h, ht))))"

text \<open>The retry loop; the first argument bounds the attempts, \<open>None\<close> means it is still retrying.\<close>

fun current_head_loop ::
    "'w engine_port \<Rightarrow> nat \<Rightarrow> nat \<Rightarrow> nat \<Rightarrow> ('w, 'm) eng_state_scheme \<Rightarrow>
     ((engine_error, hash \<times> u64) result \<times> ('w, 'm) eng_state_scheme) option" where
  "current_head_loop p 0 backoff deadline s = None"
| "current_head_loop p (Suc k) backoff deadline s =
     (case current_head_inner p s of
        (Inr r, s') \<Rightarrow> Some (Ok r, s')
      | (Inl e, s') \<Rightarrow>
          if engine_is_transient e \<and> ep_now p (es_world s') < deadline then
            current_head_loop p k (min (backoff * 2) 5000) deadline (es_sleep p backoff s')
          else Some (Err e, s'))"

definition current_head_with_height ::
    "'w engine_port \<Rightarrow> nat \<Rightarrow> ('w, 'm) eng_state_scheme \<Rightarrow>
     ((engine_error, hash \<times> u64) result \<times> ('w, 'm) eng_state_scheme) option" where
  "current_head_with_height p fuel s =
     current_head_loop p fuel 500 (ep_now p (es_world s) + 60000) s"

definition current_head ::
    "'w engine_port \<Rightarrow> nat \<Rightarrow> ('w, 'm) eng_state_scheme \<Rightarrow>
     ((engine_error, hash) result \<times> ('w, 'm) eng_state_scheme) option" where
  "current_head p fuel s =
     map_option (\<lambda>(r, s'). (and_then r (\<lambda>(h, _). Ok h), s')) (current_head_with_height p fuel s)"

section \<open>Building, accepting, finalizing\<close>

definition MAX_RETRIES :: nat where "MAX_RETRIES = 10"

fun forkchoice_loop ::
    "'w engine_port \<Rightarrow> forkchoice \<Rightarrow> attributes option \<Rightarrow> nat \<Rightarrow> nat \<Rightarrow>
     ('w, 'm) eng_state_scheme \<Rightarrow> (engine_error, forkchoice_updated) result \<times> ('w, 'm) eng_state_scheme" where
  "forkchoice_loop p st attrs 0 backoff s = (Err (ERpc (- 32001) ''Reth still syncing after max retries''), s)"
| "forkchoice_loop p st attrs (Suc k) backoff s =
     (case fork_choice_updated_v3 p st attrs s of
        (Inl e, s') \<Rightarrow> (Err e, s')
      | (Inr u, s') \<Rightarrow>
          (case ps_status (fu_payload_status u) of
             Syncing \<Rightarrow> forkchoice_loop p st attrs k (min (backoff * 2) 5000) (es_sleep p backoff s')
           | Valid \<Rightarrow> (Ok u, s')
           | other \<Rightarrow> (Err (ERpc (- 32001) (''forkchoiceUpdated returned '' @ ep_show_status p other)), s')))"

definition wait_for_forkchoice ::
    "'w engine_port \<Rightarrow> forkchoice \<Rightarrow> attributes option \<Rightarrow>
     ('w, 'm) eng_state_scheme \<Rightarrow> (engine_error, forkchoice_updated) result \<times> ('w, 'm) eng_state_scheme" where
  "wait_for_forkchoice p st attrs = forkchoice_loop p st attrs MAX_RETRIES 500"

definition engine_build ::
    "'w engine_port \<Rightarrow> forkchoice \<Rightarrow> attributes \<Rightarrow>
     ('w, 'm) eng_state_scheme \<Rightarrow> (engine_error, built_payload) result \<times> ('w, 'm) eng_state_scheme" where
  "engine_build p st attrs =
     sbind (wait_for_forkchoice p st (Some attrs)) (\<lambda>updated.
     sbind (slift (ok_or (ERpc (- 32000) ''forkchoiceUpdated returned no payload id'') (fu_payload_id updated))) (\<lambda>i.
     sbind (get_payload_v4 p i) (\<lambda>pl.
       sreturn \<lparr>bp_payload_id = i, bp_payload = pl, bp_block_hash = pl_block_hash pl,
                bp_height = pl_block_number pl, bp_timestamp = pl_timestamp pl\<rparr>)))"

definition engine_finalize ::
    "'w engine_port \<Rightarrow> hash \<Rightarrow> hash \<Rightarrow> hash \<Rightarrow>
     ('w, 'm) eng_state_scheme \<Rightarrow> (engine_error, unit) result \<times> ('w, 'm) eng_state_scheme" where
  "engine_finalize p hd_hash safe finalized =
     sbind (wait_for_forkchoice p \<lparr>fc_head = hd_hash, fc_safe = safe, fc_finalized = finalized\<rparr> None) (\<lambda>_. sreturn ())"

definition engine_accept ::
    "'w engine_port \<Rightarrow> payload \<Rightarrow> hash \<Rightarrow> hash \<Rightarrow> hash \<Rightarrow>
     ('w, 'm) eng_state_scheme \<Rightarrow> (engine_error, unit) result \<times> ('w, 'm) eng_state_scheme" where
  "engine_accept p pl new_head safe finalized =
     sbind (new_payload_v4 p pl [] PARENT_BEACON_BLOCK_ROOT) (\<lambda>status.
       if ps_status status \<noteq> Valid then
         sthrow (ERpc (- 32002) (''newPayload rejected payload: '' @ ep_show_status p (ps_status status)))
       else
         sbind (wait_for_forkchoice p \<lparr>fc_head = new_head, fc_safe = safe, fc_finalized = finalized\<rparr> None) (\<lambda>_.
           sreturn ()))"

text \<open>\<open>payload_into_block\<close>; \<open>to_vec\<close> of \<open>serde_json\<close> is the argument.\<close>

definition payload_into_block ::
    "(payload \<Rightarrow> (string, byte list) result) \<Rightarrow> built_payload \<Rightarrow> (core_error, block) result" where
  "payload_into_block json_to_vec built =
     (let pl = bp_payload built in
      and_then (map_err (\<lambda>e. Execution (''encode payload: '' @ e)) (json_to_vec pl)) (\<lambda>bytes.
        Ok \<lparr>header = \<lparr>height = bp_height built, parent_hash = pl_parent_hash pl,
                      state_root = pl_state_root pl, timestamp = bp_timestamp built\<rparr>,
            data = bytes, signature = None\<rparr>))"

section \<open>Properties\<close>

text \<open>A height the execution layer reports as a hexadecimal quantity is read exactly.\<close>

lemma block_number_reads_quantity:
  assumes "ep_token p (es_world s) = (Ok tk, w)"
    and "ep_post p (ep_endpoint p) tk (rpc_request (es_next_id s) ''eth_blockNumber'' []) w =
         (Ok (JObj [(''result'', JStr (''0x'' @ show_hex_u64 n))]), w')"
  shows "block_number p s = (Ok n, s\<lparr>es_next_id := es_next_id s + 1, es_world := w'\<rparr>)"
  using assms trim_start_0x_show_hex [of n]
  by (simp add: block_number_def engine_call_def sbind_def slift_def decode_response_def jget_def
      string_value_def as_str_def)

subsection \<open>The forkchoice retry\<close>

text \<open>The state after \<open>k\<close> answers \<open>SYNCING\<close> in a row, with the pauses between them.\<close>

fun after_syncing ::
    "'w engine_port \<Rightarrow> forkchoice \<Rightarrow> attributes option \<Rightarrow> nat \<Rightarrow> nat \<Rightarrow>
     ('w, 'm) eng_state_scheme \<Rightarrow> ('w, 'm) eng_state_scheme option" where
  "after_syncing p st attrs 0 backoff s = Some s"
| "after_syncing p st attrs (Suc k) backoff s =
     (case fork_choice_updated_v3 p st attrs s of
        (Inl _, _) \<Rightarrow> None
      | (Inr u, s') \<Rightarrow>
          if ps_status (fu_payload_status u) = Syncing then
            after_syncing p st attrs k (min (backoff * 2) 5000) (es_sleep p backoff s')
          else None)"

lemma ex_less_Suc: "(\<exists>k < Suc n. P k) \<longleftrightarrow> P 0 \<or> (\<exists>k < n. P (Suc k))" for n :: nat
  using less_Suc_eq_0_disj by auto

lemma forkchoice_loop_Ok_iff:
  "forkchoice_loop p st attrs n backoff s = (Ok u, s') \<longleftrightarrow>
     (\<exists>k < n. \<exists>sk. after_syncing p st attrs k backoff s = Some sk \<and>
        fork_choice_updated_v3 p st attrs sk = (Ok u, s') \<and> ps_status (fu_payload_status u) = Valid)"
proof (induction n arbitrary: backoff s)
  case 0
  then show ?case by simp
next
  case (Suc n)
  obtain r s1 where r: "fork_choice_updated_v3 p st attrs s = (r, s1)" by fastforce
  show ?case
  proof (cases r)
    case (Inl e)
    with r show ?thesis by (simp add: ex_less_Suc)
  next
    case (Inr v)
    show ?thesis
    proof (cases "ps_status (fu_payload_status v)")
      case Syncing
      then show ?thesis using r Inr Suc.IH by (auto simp: ex_less_Suc)
    qed (use r Inr in \<open>auto simp: ex_less_Suc\<close>)
  qed
qed

lemma wait_for_forkchoice_Ok_iff:
  "wait_for_forkchoice p st attrs s = (Ok u, s') \<longleftrightarrow>
     (\<exists>k < 10. \<exists>sk. after_syncing p st attrs k 500 s = Some sk \<and>
        fork_choice_updated_v3 p st attrs sk = (Ok u, s') \<and> ps_status (fu_payload_status u) = Valid)"
  unfolding wait_for_forkchoice_def forkchoice_loop_Ok_iff MAX_RETRIES_def ..

lemma engine_finalize_Ok_iff:
  "engine_finalize p h sf fi s = (Ok (), s') \<longleftrightarrow>
     (\<exists>u. wait_for_forkchoice p \<lparr>fc_head = h, fc_safe = sf, fc_finalized = fi\<rparr> None s = (Ok u, s'))"
  by (auto simp: engine_finalize_def sbind_Ok_iff sreturn_def)

text \<open>
  C23: a payload is accepted exactly when the execution layer validated it. \<open>accept\<close> reports success
  if and only if \<open>newPayload\<close> answered \<open>VALID\<close> and then, after at most nine \<open>SYNCING\<close> answers,
  \<open>forkchoiceUpdated\<close> with exactly the requested head, safe and finalized hashes answered
  \<open>VALID\<close>. No other status, error or exhausted retry counts as acceptance.
\<close>

theorem accept_iff_validated:
  "engine_accept p pl new_head safe finalized s = (Ok (), s') \<longleftrightarrow>
     (\<exists>status s1 k sk u.
        new_payload_v4 p pl [] PARENT_BEACON_BLOCK_ROOT s = (Ok status, s1) \<and> ps_status status = Valid \<and>
        k < 10 \<and>
        after_syncing p \<lparr>fc_head = new_head, fc_safe = safe, fc_finalized = finalized\<rparr> None k 500 s1 = Some sk \<and>
        fork_choice_updated_v3 p \<lparr>fc_head = new_head, fc_safe = safe, fc_finalized = finalized\<rparr> None sk = (Ok u, s') \<and>
        ps_status (fu_payload_status u) = Valid)"
  (is "?L \<longleftrightarrow> ?R")
proof
  assume ?L
  then obtain status s1 where np: "new_payload_v4 p pl [] PARENT_BEACON_BLOCK_ROOT s = (Ok status, s1)"
      "ps_status status = Valid"
      "engine_finalize p new_head safe finalized s1 = (Ok (), s')"
    by (auto simp: engine_accept_def engine_finalize_def sbind_Ok_iff sthrow_def split: if_splits)
  then show ?R unfolding engine_finalize_Ok_iff wait_for_forkchoice_Ok_iff by blast
next
  assume ?R
  then obtain status s1 where np: "new_payload_v4 p pl [] PARENT_BEACON_BLOCK_ROOT s = (Ok status, s1)"
      "ps_status status = Valid"
      "engine_finalize p new_head safe finalized s1 = (Ok (), s')"
    unfolding engine_finalize_Ok_iff wait_for_forkchoice_Ok_iff by blast
  then show ?L by (auto simp: engine_accept_def engine_finalize_def sbind_Ok_iff sbind_def split: prod.splits sum.splits)
qed

subsection \<open>Head discovery ends\<close>

text \<open>A clock that never runs backwards and a sleep that lasts at least as long as asked.\<close>

definition clock_ok :: "'w engine_port \<Rightarrow> bool" where
  "clock_ok p \<longleftrightarrow>
     (\<forall>ms w. ep_now p w + ms \<le> ep_now p (ep_sleep p ms w)) \<and>
     (\<forall>w. ep_now p w \<le> ep_now p (snd (ep_token p w))) \<and>
     (\<forall>url tk body w. ep_now p w \<le> ep_now p (snd (ep_post p url tk body w)))"

lemma clock_okD:
  assumes "clock_ok p"
  shows "ep_now p w + ms \<le> ep_now p (ep_sleep p ms w)"
    and "ep_token p w = (r, w') \<Longrightarrow> ep_now p w \<le> ep_now p w'"
    and "ep_post p url tk body w = (r', w') \<Longrightarrow> ep_now p w \<le> ep_now p w'"
proof -
  show "ep_now p w + ms \<le> ep_now p (ep_sleep p ms w)"
    using assms by (simp add: clock_ok_def)
  show "ep_now p w \<le> ep_now p w'" if "ep_token p w = (r, w')"
    using assms that unfolding clock_ok_def by (metis snd_conv)
  show "ep_now p w \<le> ep_now p w'" if "ep_post p url tk body w = (r', w')"
    using assms that unfolding clock_ok_def by (metis snd_conv)
qed

lemma engine_call_clock:
  assumes "clock_ok p"
  shows "ep_now p (es_world s) \<le> ep_now p (es_world (snd (engine_call p dec method params s)))"
proof -
  obtain r w where t: "ep_token p (es_world s) = (r, w)" by fastforce
  note c1 = clock_okD(2) [OF assms t]
  show ?thesis
  proof (cases r)
    case Inl
    then show ?thesis using t c1 by (simp add: engine_call_def)
  next
    case (Inr tk)
    obtain r' w' where q: "ep_post p (ep_endpoint p) tk (rpc_request (es_next_id s) method params) w = (r', w')"
      by fastforce
    from clock_okD(3) [OF assms q] c1 have "ep_now p (es_world s) \<le> ep_now p w'" by simp
    then show ?thesis using t Inr q by (cases r') (simp_all add: engine_call_def)
  qed
qed

lemma engine_call_clock':
  "clock_ok p \<Longrightarrow> engine_call p dec method params s = (r, s') \<Longrightarrow> ep_now p (es_world s) \<le> ep_now p (es_world s')"
  by (metis engine_call_clock snd_conv)

lemma current_head_inner_clock:
  assumes "clock_ok p" "current_head_inner p s = (r, s')"
  shows "ep_now p (es_world s) \<le> ep_now p (es_world s')"
proof -
  obtain r1 s1 where b: "engine_call p string_value ''eth_blockNumber'' [] s = (r1, s1)" by fastforce
  note c1 = engine_call_clock' [OF assms(1) b]
  obtain x where bn: "block_number p s = (x, s1)"
    using b by (cases r1) (auto simp: block_number_def sbind_def slift_def)
  show ?thesis
  proof (cases x)
    case Inl
    then show ?thesis using assms(2) bn c1 by (simp add: current_head_inner_def sbind_def)
  next
    case (Inr ht)
    obtain r2 s2 where b2: "engine_call p option_value ''eth_getBlockByNumber''
        [JStr (''0x'' @ show_hex_u64 ht), JBool False] s1 = (r2, s2)" by fastforce
    note c2 = engine_call_clock' [OF assms(1) b2]
    obtain y where "block_by_number p ht s1 = (y, s2)"
      using b2 by (cases r2) (auto simp: block_by_number_def sbind_def slift_def)
    then have "s' = s2"
      using assms(2) bn Inr by (cases y) (auto simp: current_head_inner_def sbind_def slift_def)
    then show ?thesis using c1 c2 by simp
  qed
qed

fun head_sleep :: "nat \<Rightarrow> nat \<Rightarrow> nat" where
  "head_sleep 0 backoff = 0"
| "head_sleep (Suc k) backoff = backoff + head_sleep k (min (backoff * 2) 5000)"

lemma current_head_loop_None:
  assumes "clock_ok p" "current_head_loop p (Suc k) backoff deadline s = None"
  shows "ep_now p (es_world s) + head_sleep k backoff < deadline"
  using assms(2)
proof (induction k arbitrary: backoff s)
  case 0
  obtain r s' where i: "current_head_inner p s = (r, s')" by fastforce
  with 0 have "ep_now p (es_world s') < deadline" by (cases r) (simp_all split: if_splits)
  with current_head_inner_clock [OF assms(1) i] show ?case by simp
next
  case (Suc k)
  obtain r s' where i: "current_head_inner p s = (r, s')" by fastforce
  have loop: "current_head_loop p (Suc k) (min (backoff * 2) 5000) deadline (es_sleep p backoff s') = None"
    using Suc.prems unfolding current_head_loop.simps(2) [of p "Suc k"] i
    by (cases r) (simp_all del: current_head_loop.simps split: if_splits)
  have "ep_now p (es_world s) + backoff \<le> ep_now p (es_world (es_sleep p backoff s'))"
    using current_head_inner_clock [OF assms(1) i] clock_okD(1) [OF assms(1), of "es_world s'" backoff]
    by (simp add: es_sleep_def)
  with Suc.IH [OF loop] show ?case by simp
qed

lemma head_sleep_numeral [simp]:
  "head_sleep (numeral n) backoff = backoff + head_sleep (pred_numeral n) (min (backoff * 2) 5000)"
  by (simp add: numeral_eq_Suc)

lemma head_sleep_16: "60000 \<le> head_sleep 15 500"
  by simp

text \<open>
  C27: head discovery always ends. Against any execution layer, as long as the clock does not run
  backwards and a sleep lasts as long as asked, \<open>current_head\<close> returns, with the head or with the
  last error, after at most sixteen attempts; the one-minute deadline is never ignored.
\<close>

theorem head_discovery_terminates:
  assumes "clock_ok p"
  shows "\<exists>r s'. current_head_with_height p 16 s = Some (r, s')"
proof (rule ccontr)
  assume "\<not> ?thesis"
  then have "current_head_with_height p (Suc 15) s = None"
    by (cases "current_head_with_height p 16 s") (simp_all del: current_head_loop.simps)
  then have "current_head_loop p (Suc 15) 500 (ep_now p (es_world s) + 60000) s = None"
    unfolding current_head_with_height_def .
  from current_head_loop_None [OF assms this] head_sleep_16 show False by simp
qed

text \<open>An execution layer that never becomes reachable, with a clock in milliseconds.\<close>

definition dead_port :: "nat engine_port" where
  "dead_port = \<lparr>ep_endpoint = [], ep_token = (\<lambda>w. (Ok [], w)),
     ep_post = (\<lambda>url tk body w. (Err ''connection refused'', w)),
     ep_now = id, ep_sleep = (+),
     ep_enc_state = (\<lambda>_. Ok JNull), ep_enc_attributes = (\<lambda>_. Ok JNull), ep_enc_payload_id = (\<lambda>_. Ok JNull),
     ep_enc_payload = (\<lambda>_. Ok JNull), ep_enc_hashes = (\<lambda>_. Ok JNull), ep_enc_hash = (\<lambda>_. Ok JNull),
     ep_dec_updated = (\<lambda>_. Err []), ep_dec_envelope = (\<lambda>_. Err []), ep_dec_status = (\<lambda>_. Err []),
     ep_parse_hash = (\<lambda>_. Err []), ep_int_error = (\<lambda>_. []), ep_show_status = (\<lambda>_. [])\<rparr>"

theorem head_discovery_terminates_witness:
  "\<exists>r s'. current_head_with_height dead_port 16 \<lparr>es_next_id = 1, es_world = 0\<rparr> = Some (r, s')"
  by (rule head_discovery_terminates) (simp add: clock_ok_def dead_port_def)

subsection \<open>Requests on the wire\<close>

text \<open>Any port, with the bodies of all requests recorded in its world.\<close>

definition traced_engine :: "'w engine_port \<Rightarrow> ('w \<times> jv list) engine_port" where
  "traced_engine p =
     \<lparr>ep_endpoint = ep_endpoint p,
      ep_token = (\<lambda>(w, l). case ep_token p w of (r, w') \<Rightarrow> (r, (w', l))),
      ep_post = (\<lambda>url tk body (w, l). case ep_post p url tk body w of (r, w') \<Rightarrow> (r, (w', l @ [body]))),
      ep_now = (\<lambda>(w, l). ep_now p w),
      ep_sleep = (\<lambda>ms (w, l). (ep_sleep p ms w, l)),
      ep_enc_state = ep_enc_state p, ep_enc_attributes = ep_enc_attributes p,
      ep_enc_payload_id = ep_enc_payload_id p, ep_enc_payload = ep_enc_payload p,
      ep_enc_hashes = ep_enc_hashes p, ep_enc_hash = ep_enc_hash p,
      ep_dec_updated = ep_dec_updated p, ep_dec_envelope = ep_dec_envelope p,
      ep_dec_status = ep_dec_status p, ep_parse_hash = ep_parse_hash p,
      ep_int_error = ep_int_error p, ep_show_status = ep_show_status p\<rparr>"

definition sent :: "('w \<times> jv list, 'm) eng_state_scheme \<Rightarrow> jv list" where
  "sent s = snd (es_world s)"

lemma sent_update [simp]:
  "sent (s\<lparr>es_next_id := i\<rparr>) = sent s" "sent (s\<lparr>es_world := wl\<rparr>) = snd wl"
  by (simp_all add: sent_def)

lemma engine_call_sent:
  assumes "\<And>i. Q (rpc_request i method params)"
  shows "log_extends sent Q s (snd (engine_call (traced_engine p) dec method params s))"
proof -
  obtain w l where w: "es_world s = (w, l)" by fastforce
  obtain r w1 where t: "ep_token p w = (r, w1)" by fastforce
  show ?thesis
  proof (cases r)
    case Inl
    then show ?thesis
      by (intro log_extends_same) (simp add: engine_call_def traced_engine_def w t sent_def)
  next
    case (Inr tk)
    obtain r2 w2 where q: "ep_post p (ep_endpoint p) tk (rpc_request (es_next_id s) method params) w1 = (r2, w2)"
      by fastforce
    have "sent (snd (engine_call (traced_engine p) dec method params s)) =
        sent s @ [rpc_request (es_next_id s) method params]"
      by (cases r2) (simp_all add: engine_call_def traced_engine_def w t Inr q sent_def Let_def)
    then show ?thesis using assms by (rule log_extends_snoc)
  qed
qed

lemma engine_call_preserves:
  "(\<And>i. Q (rpc_request i method params)) \<Longrightarrow>
    preserves (log_extends sent Q) (engine_call (traced_engine p) dec method params)"
  by (rule log.preservesI) (rule engine_call_sent)

lemma fork_choice_updated_preserves:
  assumes "\<And>i params. Q (rpc_request i ''engine_forkchoiceUpdatedV3'' params)"
  shows "preserves (log_extends sent Q) (fork_choice_updated_v3 (traced_engine p) st attrs)"
  unfolding fork_choice_updated_v3_def
  by (intro log.preserves_sbind' log.preserves_slift engine_call_preserves assms)

lemma block_number_preserves:
  assumes "\<And>i params. Q (rpc_request i ''eth_blockNumber'' params)"
  shows "preserves (log_extends sent Q) (block_number (traced_engine p))"
  unfolding block_number_def
  by (intro log.preserves_sbind' log.preserves_slift engine_call_preserves assms)

lemma block_by_number_preserves:
  assumes "\<And>i params. Q (rpc_request i ''eth_getBlockByNumber'' params)"
  shows "preserves (log_extends sent Q) (block_by_number (traced_engine p) n)"
  unfolding block_by_number_def
  by (intro log.preserves_sbind' log.preserves_slift engine_call_preserves assms)

lemma new_payload_preserves:
  assumes "\<And>i a rest. ep_enc_payload p pl = Ok a \<Longrightarrow> Q (rpc_request i ''engine_newPayloadV4'' (a # rest))"
  shows "preserves (log_extends sent Q) (new_payload_v4 (traced_engine p) pl hs root)"
  unfolding new_payload_v4_def
  by (intro log.preserves_sbind_slift log.preserves_sbind' log.preserves_slift engine_call_preserves assms)
    (auto simp: traced_engine_def)

end
