(* ===== verification/L2_Rpc.thy ===== *)
theory L2_Rpc
  imports Engine
begin

text \<open>
  The L2 JSON-RPC helpers and the ABI decoders of the bridge relayer
  (\<open>crates/node/src/bridge.rs\<close>). The node behind the RPC URL is the operation \<open>lp_post\<close> over an
  abstract world; hex, keccak, the \<open>sol!\<close> call encoders, addresses and Sui type tags are the
  foreign libraries of the record \<open>evm_lib\<close>.
\<close>

section \<open>Foreign libraries\<close>

type_synonym evm_address = "20 barray"

text \<open>\<open>el_struct_tag\<close> is \<open>StructTag::from_str\<close>; a struct tag is represented by its text
  (\<open>to_string\<close>). \<open>el_sign_tx\<close> signs a transaction and encodes the envelope.\<close>

record l2_tx =
  tx_chain_id :: u64
  tx_nonce :: u64
  tx_gas_limit :: u64
  tx_max_fee_per_gas :: nat
  tx_max_priority_fee :: nat
  tx_to :: evm_address
  tx_input :: "byte list"

record evm_lib =
  el_hex :: "byte list \<Rightarrow> string"
  el_unhex :: "string \<Rightarrow> (string, byte list) result"
  el_keccak :: "byte list \<Rightarrow> hash"
  el_show_address :: "evm_address \<Rightarrow> string"
  el_parse_address :: "string \<Rightarrow> (string, evm_address) result"
  el_checksum :: "evm_address \<Rightarrow> string"
  el_struct_tag :: "string \<Rightarrow> (string, string) result"
  el_mint_call :: "evm_address \<Rightarrow> u64 \<Rightarrow> u64 \<Rightarrow> byte list"
  el_create_call :: "string \<Rightarrow> string \<Rightarrow> string \<Rightarrow> byte list"
  el_sign_tx :: "l2_tx \<Rightarrow> (string, byte list) result"

section \<open>Strings as bytes\<close>

text \<open>A string is the list of its UTF-8 bytes.\<close>

definition as_bytes :: "string \<Rightarrow> byte list" where
  "as_bytes s = map of_char s"

definition utf8_cont :: "byte \<Rightarrow> bool" where
  "utf8_cont b \<longleftrightarrow> 0x80 \<le> b \<and> b \<le> 0xBF"

definition utf8_second :: "byte \<Rightarrow> byte \<Rightarrow> bool" where
  "utf8_second b c \<longleftrightarrow>
     (if b = 0xE0 then 0xA0 \<le> c \<and> c \<le> 0xBF
      else if b = 0xED then 0x80 \<le> c \<and> c \<le> 0x9F
      else if b = 0xF0 then 0x90 \<le> c \<and> c \<le> 0xBF
      else if b = 0xF4 then 0x80 \<le> c \<and> c \<le> 0x8F
      else utf8_cont c)"

fun utf8_ok :: "byte list \<Rightarrow> bool" where
  "utf8_ok [] = True"
| "utf8_ok (b # bs) =
     (if b < 0x80 then utf8_ok bs
      else case bs of
        [] \<Rightarrow> False
      | c # cs \<Rightarrow>
          if 0xC2 \<le> b \<and> b \<le> 0xDF then utf8_cont c \<and> utf8_ok cs
          else case cs of
            [] \<Rightarrow> False
          | d # ds \<Rightarrow>
              if 0xE0 \<le> b \<and> b \<le> 0xEF then utf8_second b c \<and> utf8_cont d \<and> utf8_ok ds
              else case ds of
                [] \<Rightarrow> False
              | e # es \<Rightarrow> 0xF0 \<le> b \<and> b \<le> 0xF4 \<and> utf8_second b c \<and> utf8_cont d \<and> utf8_cont e \<and> utf8_ok es)"

definition from_utf8 :: "string \<Rightarrow> byte list \<Rightarrow> (string, string) result" where
  "from_utf8 err bs = (if utf8_ok bs then Ok (map (\<lambda>b. char_of (unat b)) bs) else Err err)"

declare utf8_ok.simps(2) [simp del]

lemma utf8_ascii: "(\<forall>b \<in> set bs. b < 0x80) \<Longrightarrow> utf8_ok bs"
proof (induction bs)
  case (Cons b bs)
  then have "b < 0x80" "utf8_ok bs" by simp_all
  then show ?case by (simp only: utf8_ok.simps if_True)
qed (simp only: utf8_ok.simps)

lemma chars_of_as_bytes: "map (\<lambda>b. char_of (unat b)) (as_bytes s) = s"
proof (induction s)
  case (Cons c s)
  have "map (\<lambda>b. char_of (unat b)) (as_bytes (c # s)) =
      char_of (unat (of_char c :: byte)) # map (\<lambda>b. char_of (unat b)) (as_bytes s)"
    by (simp only: as_bytes_def list.map)
  then show ?case by (simp only: Cons char_byte_char)
qed (simp only: as_bytes_def list.map)

lemma from_utf8_as_bytes: "from_utf8 err (as_bytes s) = (if utf8_ok (as_bytes s) then Ok s else Err err)"
  unfolding from_utf8_def chars_of_as_bytes by (rule refl)

lemma as_bytes_ascii: "(\<forall>c \<in> set u. of_char c < (128 :: nat)) \<Longrightarrow> utf8_ok (as_bytes u)"
proof (rule utf8_ascii, rule ballI)
  fix b assume u: "\<forall>c \<in> set u. of_char c < (128 :: nat)" and "b \<in> set (as_bytes u)"
  then obtain c where c: "c \<in> set u" "b = of_char c" by (auto simp: as_bytes_def)
  have "(of_char c :: byte) = of_nat (of_char c)" by (simp add: of_nat_of_char)
  then have "unat b = of_char c mod 2 ^ 8" unfolding c(2) by (simp add: unat_of_nat)
  with u c(1) have "unat b < 128" by simp
  then show "b < 0x80" by (simp add: word_less_nat_alt)
qed

section \<open>ABI helpers\<close>

definition mint_calldata :: "evm_lib \<Rightarrow> evm_address \<Rightarrow> u64 \<Rightarrow> u64 \<Rightarrow> byte list" where
  "mint_calldata l recipient amount nonce = el_mint_call l recipient amount nonce"

definition create_bridge_calldata :: "evm_lib \<Rightarrow> string \<Rightarrow> string \<Rightarrow> string \<Rightarrow> byte list" where
  "create_bridge_calldata l name symbol coin_type = el_create_call l name symbol coin_type"

definition WITHDRAWAL_TOPIC :: "evm_lib \<Rightarrow> hash" where
  "WITHDRAWAL_TOPIC l = el_keccak l (as_bytes ''WithdrawalInitiated(uint64,address,bytes32,uint256)'')"

definition BRIDGE_CREATED_TOPIC :: "evm_lib \<Rightarrow> hash" where
  "BRIDGE_CREATED_TOPIC l = el_keccak l (as_bytes ''BridgeCreated(address,string,string,string)'')"

record rpc_log =
  rl_address :: string
  rl_topics :: "string list"
  rl_data :: string

record parsed_withdrawal =
  pw_nonce :: u64
  pw_amount :: u64
  pw_sui_recipient :: hash

text \<open>The low-order 8 bytes of a big-endian word.\<close>

definition word_u64 :: "byte list \<Rightarrow> u64" where
  "word_u64 word = from_be_bytes (drop 24 word)"

definition log_data_u64 :: "evm_lib \<Rightarrow> string \<Rightarrow> (string, u64) result" where
  "log_data_u64 l dat =
     and_then (map_err (\<lambda>_. ''amount not hex'') (el_unhex l (trim_start_0x dat))) (\<lambda>bytes.
       if length bytes < 32 then Err ''log data shorter than 32 bytes''
       else Ok (from_be_bytes (take 8 (drop 24 bytes))))"

definition hex_to_fixed32 :: "evm_lib \<Rightarrow> string \<Rightarrow> (string, hash) result" where
  "hex_to_fixed32 l s =
     and_then (map_err (\<lambda>_. ''topic not hex'') (el_unhex l (trim_start_0x s))) (\<lambda>bytes.
       ok_or ''topic not 32 bytes'' (try_into bytes))"

definition topic_at :: "string \<Rightarrow> nat \<Rightarrow> rpc_log \<Rightarrow> (string, string) result" where
  "topic_at err i lg = (if i < length (rl_topics lg) then Ok (rl_topics lg ! i) else Err err)"

definition parse_withdrawal_log :: "evm_lib \<Rightarrow> rpc_log \<Rightarrow> (string, parsed_withdrawal) result" where
  "parse_withdrawal_log l lg =
     and_then (and_then (topic_at ''missing nonce topic'' 1 lg) (hex_to_fixed32 l)) (\<lambda>nonce_word.
     and_then (and_then (topic_at ''missing suiRecipient topic'' 3 lg) (hex_to_fixed32 l)) (\<lambda>sui_word.
     and_then (map_err (\<lambda>_. ''missing/short amount'') (log_data_u64 l (rl_data lg))) (\<lambda>amount.
       Ok \<lparr>pw_nonce = word_u64 (to_vec nonce_word), pw_amount = amount, pw_sui_recipient = sui_word\<rparr>)))"

definition decode_word_address :: "hash \<Rightarrow> evm_address" where
  "decode_word_address word = Abs_barray (drop 12 (to_vec word))"

text \<open>\<open>decode_first_abi_string\<close>; \<open>usize\<close> is 64 bits wide.\<close>

definition decode_first_abi_string :: "evm_lib \<Rightarrow> string \<Rightarrow> (string, string) result" where
  "decode_first_abi_string l dat =
     and_then (map_err (\<lambda>_. ''log data not hex'') (el_unhex l (trim_start_0x dat))) (\<lambda>bytes.
       if length bytes < 32 then Err ''log data shorter than one word''
       else let off = unat (word_u64 (take 32 bytes)) in
         if \<not> (off + 32 < 2 ^ 64 \<and> off + 32 \<le> length bytes) then Err ''string offset overruns''
         else let len = unat (word_u64 (take 32 (drop off bytes))) in
           if \<not> (off + 32 + len < 2 ^ 64 \<and> off + 32 + len \<le> length bytes) then Err ''string length overruns''
           else from_utf8 ''string not utf-8'' (take len (drop (off + 32) bytes)))"

definition parse_bridge_created_log :: "evm_lib \<Rightarrow> rpc_log \<Rightarrow> (string, string \<times> evm_address) result" where
  "parse_bridge_created_log l lg =
     and_then (and_then (topic_at ''missing topics'' 0 lg) (hex_to_fixed32 l)) (\<lambda>topic.
       if topic \<noteq> BRIDGE_CREATED_TOPIC l then Err ''not a BridgeCreated log''
       else
         and_then (and_then (topic_at ''missing token topic'' 1 lg) (hex_to_fixed32 l)) (\<lambda>token_word.
         and_then (map_err (\<lambda>_. ''decoding coinType'') (decode_first_abi_string l (rl_data lg))) (\<lambda>coin.
           Ok (coin, decode_word_address token_word))))"

definition parse_struct_tag_flexible :: "evm_lib \<Rightarrow> string \<Rightarrow> (string, string) result" where
  "parse_struct_tag_flexible l coin_type =
     map_err (\<lambda>_. ''parsing coin type '' @ coin_type @ '' as a Sui StructTag'')
       (el_struct_tag l (if starts_with coin_type ''0x'' then coin_type else ''0x'' @ coin_type))"

definition normalize_coin_type :: "evm_lib \<Rightarrow> string \<Rightarrow> (string, byte list) result" where
  "normalize_coin_type l coin_type =
     and_then (parse_struct_tag_flexible l coin_type) (\<lambda>tag. Ok (as_bytes (trim_start_0x tag)))"

definition coin_type_tag :: "evm_lib \<Rightarrow> string \<Rightarrow> (string, string) result" where
  "coin_type_tag l coin_type = parse_struct_tag_flexible l coin_type"

definition parse_log_address :: "evm_lib \<Rightarrow> string \<Rightarrow> (string, evm_address) result" where
  "parse_log_address l s =
     and_then (map_err (\<lambda>_. ''log address not hex'') (el_unhex l (trim_start_0x s))) (\<lambda>bytes.
       ok_or ''log address not 20 bytes'' (try_into bytes))"

text \<open>\<open>rsplit("::").next()\<close>: what follows the last separator.\<close>

fun after_last_colons :: "string \<Rightarrow> string option" where
  "after_last_colons (a # b # cs) =
     (case after_last_colons (b # cs) of
        Some t \<Rightarrow> Some t
      | None \<Rightarrow> if a = CHR '':'' \<and> b = CHR '':'' then Some cs else None)"
| "after_last_colons s = None"

definition derive_token_metadata :: "string \<Rightarrow> string \<times> string" where
  "derive_token_metadata coin_type =
     (coin_type, case after_last_colons coin_type of Some s \<Rightarrow> s | None \<Rightarrow> coin_type)"

section \<open>JSON-RPC\<close>

text \<open>The L2 side of the relayer's environment. \<open>lp_post\<close> sends a request body and decodes the
  JSON answer; its errors are the texts of \<open>reqwest\<close>. Times are milliseconds.\<close>

record 'w l2_port =
  lp_lib :: evm_lib
  lp_post :: "jv \<Rightarrow> 'w \<Rightarrow> (string, jv) result \<times> 'w"
  lp_now :: "'w \<Rightarrow> nat"
  lp_sleep :: "nat \<Rightarrow> 'w \<Rightarrow> 'w"

definition l2_request :: "string \<Rightarrow> jv list \<Rightarrow> jv" where
  "l2_request name params =
     JObj [(''jsonrpc'', JStr ''2.0''), (''id'', JNum 1), (''method'', JStr name), (''params'', JArr params)]"

text \<open>An optional field: absent and \<open>null\<close> are \<open>None\<close>.\<close>

definition optional_field :: "(jv \<Rightarrow> (string, 'a) result) \<Rightarrow> string \<Rightarrow> jv \<Rightarrow> (string, 'a option) result" where
  "optional_field dec k v =
     (case jget k v of
        None \<Rightarrow> Ok None
      | Some x \<Rightarrow> if x = JNull then Ok None else and_then (dec x) (\<lambda>y. Ok (Some y)))"

definition default_field :: "(jv \<Rightarrow> (string, 'a) result) \<Rightarrow> 'a \<Rightarrow> string \<Rightarrow> jv \<Rightarrow> (string, 'a) result" where
  "default_field dec dflt k v = (case jget k v of None \<Rightarrow> Ok dflt | Some x \<Rightarrow> dec x)"

definition array_of :: "(jv \<Rightarrow> (string, 'a) result) \<Rightarrow> jv \<Rightarrow> (string, 'a list) result" where
  "array_of dec v = (case v of JArr xs \<Rightarrow> collect_results (map dec xs) | _ \<Rightarrow> Err ''invalid type, expected a sequence'')"

definition is_object :: "jv \<Rightarrow> (string, unit) result" where
  "is_object v = (case v of JObj _ \<Rightarrow> Ok () | _ \<Rightarrow> Err ''invalid type, expected a map'')"

definition rpc_error_of :: "jv \<Rightarrow> (string, int \<times> string) result" where
  "rpc_error_of v =
     and_then (is_object v) (\<lambda>_.
     and_then (ok_or ''missing field code'' (Option.bind (jget ''code'' v) as_i64)) (\<lambda>code.
     and_then (ok_or ''missing field message'' (Option.bind (jget ''message'' v) as_str)) (\<lambda>message.
       Ok (code, message))))"

definition rpc_call :: "'w l2_port \<Rightarrow> (jv \<Rightarrow> (string, 'a) result) \<Rightarrow> jv \<Rightarrow> 'w \<Rightarrow> (string, 'a) result \<times> 'w" where
  "rpc_call p dec req =
     sbind (st_map_err (\<lambda>_. ''L2 RPC send'') (lp_post p req)) (\<lambda>body.
     sbind (slift (map_err (\<lambda>_. ''L2 RPC decode'')
              (and_then (is_object body) (\<lambda>_.
               and_then (optional_field dec ''result'' body) (\<lambda>res.
               and_then (optional_field rpc_error_of ''error'' body) (\<lambda>err. Ok (res, err))))))) (\<lambda>(res, err).
       slift (case err of
           Some (code, message) \<Rightarrow> Err (''L2 rpc error '' @ show_int code @ '': '' @ message)
         | None \<Rightarrow> ok_or ''L2 rpc returned no result'' res)))"

definition rpc_log_of :: "jv \<Rightarrow> (string, rpc_log) result" where
  "rpc_log_of v =
     and_then (is_object v) (\<lambda>_.
     and_then (default_field string_value [] ''address'' v) (\<lambda>a.
     and_then (default_field (array_of string_value) [] ''topics'' v) (\<lambda>ts.
     and_then (default_field string_value [] ''data'' v) (\<lambda>d.
       Ok \<lparr>rl_address = a, rl_topics = ts, rl_data = d\<rparr>))))"

record receipt =
  rc_status :: string
  rc_logs :: "rpc_log list"

definition receipt_of :: "jv \<Rightarrow> (string, receipt) result" where
  "receipt_of v =
     and_then (is_object v) (\<lambda>_.
     and_then (and_then (ok_or ''missing field status'' (jget ''status'' v)) string_value) (\<lambda>st.
     and_then (default_field (array_of rpc_log_of) [] ''logs'' v) (\<lambda>lgs.
       Ok \<lparr>rc_status = st, rc_logs = lgs\<rparr>)))"

definition option_of :: "(jv \<Rightarrow> (string, 'a) result) \<Rightarrow> jv \<Rightarrow> (string, 'a option) result" where
  "option_of dec v = (if v = JNull then Ok None else and_then (dec v) (\<lambda>x. Ok (Some x)))"

definition hex_text :: "evm_lib \<Rightarrow> byte list \<Rightarrow> string" where
  "hex_text l bs = ''0x'' @ el_hex l bs"

text \<open>\<open>parse_hex_qty\<close> never fails: what does not parse is 0.\<close>

definition parse_hex_qty :: "string \<Rightarrow> (string, u64) result" where
  "parse_hex_qty s = Ok (case from_str_radix_16 (trim_start_0x s) of Some n \<Rightarrow> n | None \<Rightarrow> 0)"

definition eth_get_logs ::
    "'w l2_port \<Rightarrow> evm_address list \<Rightarrow> hash \<Rightarrow> u64 \<Rightarrow> u64 \<Rightarrow> 'w \<Rightarrow> (string, rpc_log list) result \<times> 'w" where
  "eth_get_logs p addresses topic0 from_block to_block =
     (if addresses = [] then sthrow ''eth_getLogs needs at least one address''
      else st_map_err (\<lambda>_. ''eth_getLogs'')
        (rpc_call p (array_of rpc_log_of) (l2_request ''eth_getLogs''
           [JObj [(''address'', JArr (map (\<lambda>a. JStr (el_checksum (lp_lib p) a)) addresses)),
                  (''fromBlock'', JStr (''0x'' @ show_hex_u64 from_block)),
                  (''toBlock'', JStr (''0x'' @ show_hex_u64 to_block)),
                  (''topics'', JArr [JStr (hex_text (lp_lib p) (to_vec topic0))])]])))"

definition rpc_quantity :: "'w l2_port \<Rightarrow> string \<Rightarrow> jv list \<Rightarrow> 'w \<Rightarrow> (string, u64) result \<times> 'w" where
  "rpc_quantity p name params =
     sbind (rpc_call p string_value (l2_request name params)) (\<lambda>s. slift (parse_hex_qty s))"

definition eth_block_number :: "'w l2_port \<Rightarrow> 'w \<Rightarrow> (string, u64) result \<times> 'w" where
  "eth_block_number p = rpc_quantity p ''eth_blockNumber'' []"

definition eth_chain_id :: "'w l2_port \<Rightarrow> 'w \<Rightarrow> (string, u64) result \<times> 'w" where
  "eth_chain_id p = rpc_quantity p ''eth_chainId'' []"

definition eth_get_transaction_count :: "'w l2_port \<Rightarrow> evm_address \<Rightarrow> 'w \<Rightarrow> (string, u64) result \<times> 'w" where
  "eth_get_transaction_count p a =
     rpc_quantity p ''eth_getTransactionCount'' [JStr (el_checksum (lp_lib p) a), JStr ''pending'']"

text \<open>The gas price is at least one gwei.\<close>

definition eth_gas_price :: "'w l2_port \<Rightarrow> 'w \<Rightarrow> (string, nat) result \<times> 'w" where
  "eth_gas_price p =
     sbind (rpc_call p string_value (l2_request ''eth_gasPrice'' [])) (\<lambda>s.
       sreturn (max (case parse_hex_qty s of Inl _ \<Rightarrow> 0 | Inr v \<Rightarrow> unat v) 1000000000))"

definition eth_send_raw_transaction :: "'w l2_port \<Rightarrow> byte list \<Rightarrow> 'w \<Rightarrow> (string, string) result \<times> 'w" where
  "eth_send_raw_transaction p raw =
     rpc_call p string_value (l2_request ''eth_sendRawTransaction'' [JStr (hex_text (lp_lib p) raw)])"

definition selector :: "evm_lib \<Rightarrow> string \<Rightarrow> byte list" where
  "selector l sig = take 4 (to_vec (el_keccak l (as_bytes sig)))"

definition eth_call_request :: "evm_lib \<Rightarrow> evm_address \<Rightarrow> string \<Rightarrow> jv" where
  "eth_call_request l token dat =
     l2_request ''eth_call'' [JObj [(''to'', JStr (el_checksum l token)), (''data'', JStr dat)], JStr ''latest'']"

definition eth_call :: "'w l2_port \<Rightarrow> evm_address \<Rightarrow> byte list \<Rightarrow> 'w \<Rightarrow> (string, byte list) result \<times> 'w" where
  "eth_call p token sel =
     sbind (rpc_call p string_value (eth_call_request (lp_lib p) token (hex_text (lp_lib p) sel))) (\<lambda>s.
       slift (map_err (\<lambda>_. ''eth_call not hex'') (el_unhex (lp_lib p) (trim_start_0x s))))"

definition eth_call_u64 :: "'w l2_port \<Rightarrow> evm_address \<Rightarrow> byte list \<Rightarrow> 'w \<Rightarrow> (string, u64) result \<times> 'w" where
  "eth_call_u64 p token sel =
     sbind (eth_call p token sel) (\<lambda>bytes.
       if length bytes < 32 then sthrow ''eth_call u64 return too short''
       else sreturn (from_be_bytes (take 8 (drop 24 bytes))))"

definition eth_call_bool :: "'w l2_port \<Rightarrow> evm_address \<Rightarrow> byte list \<Rightarrow> 'w \<Rightarrow> (string, bool) result \<times> 'w" where
  "eth_call_bool p token sel =
     sbind (eth_call p token sel) (\<lambda>bytes. sreturn (bytes \<noteq> [] \<and> last bytes \<noteq> 0))"

definition decode_abi_address :: "byte list \<Rightarrow> (string, evm_address) result" where
  "decode_abi_address bytes =
     (if length bytes < 32 then Err ''eth_call address return too short''
      else Ok (Abs_barray (take 20 (drop 12 bytes))))"

definition eth_call_address :: "'w l2_port \<Rightarrow> evm_address \<Rightarrow> byte list \<Rightarrow> 'w \<Rightarrow> (string, evm_address) result \<times> 'w" where
  "eth_call_address p token sel = sbind (eth_call p token sel) (\<lambda>bytes. slift (decode_abi_address bytes))"

definition eth_get_code :: "'w l2_port \<Rightarrow> evm_address \<Rightarrow> 'w \<Rightarrow> (string, byte list) result \<times> 'w" where
  "eth_get_code p a =
     sbind (rpc_call p string_value
              (l2_request ''eth_getCode'' [JStr (el_checksum (lp_lib p) a), JStr ''latest''])) (\<lambda>s.
       sreturn (case el_unhex (lp_lib p) (trim_start_0x s) of Inl _ \<Rightarrow> [] | Inr bs \<Rightarrow> bs))"

text \<open>\<open>Result::unwrap_or\<close>.\<close>

definition unwrap_or :: "'a \<Rightarrow> ('w \<Rightarrow> ('e, 'a) result \<times> 'w) \<Rightarrow> 'w \<Rightarrow> 'a \<times> 'w" where
  "unwrap_or dflt m w = (case m w of (Inl _, w') \<Rightarrow> (dflt, w') | (Inr x, w') \<Rightarrow> (x, w'))"

definition eth_mint_cursor :: "'w l2_port \<Rightarrow> evm_address \<Rightarrow> 'w \<Rightarrow> (string, bool \<times> u64) result \<times> 'w" where
  "eth_mint_cursor p token w =
     (case unwrap_or 0 (eth_call_u64 p token (selector (lp_lib p) ''lastMintedDepositNonce()'')) w of
        (last_minted, w1) \<Rightarrow>
          sbind (eth_call_bool p token (selector (lp_lib p) ''mintedAny()'')) (\<lambda>any. sreturn (any, last_minted)) w1)"

text \<open>The receipt poll; the first number bounds its rounds, \<open>None\<close> means still polling after
  them.\<close>

fun receipt_loop ::
    "'w l2_port \<Rightarrow> string \<Rightarrow> nat \<Rightarrow> nat \<Rightarrow> nat \<Rightarrow> 'w \<Rightarrow> ((string, receipt) result \<times> 'w) option" where
  "receipt_loop p tx_hash poll deadline 0 w = None"
| "receipt_loop p tx_hash poll deadline (Suc k) w =
     (case rpc_call p (option_of receipt_of) (l2_request ''eth_getTransactionReceipt'' [JStr tx_hash]) w of
        (Inl e, w1) \<Rightarrow> Some (Err e, w1)
      | (Inr (Some r), w1) \<Rightarrow> Some (Ok r, w1)
      | (Inr None, w1) \<Rightarrow>
          if lp_now p w1 \<ge> deadline then Some (Err (''timed out waiting for receipt of tx '' @ tx_hash), w1)
          else receipt_loop p tx_hash poll deadline k (lp_sleep p (min poll 2000) w1))"

definition wait_for_receipt ::
    "'w l2_port \<Rightarrow> nat \<Rightarrow> string \<Rightarrow> nat \<Rightarrow> 'w \<Rightarrow> ((string, receipt) result \<times> 'w) option" where
  "wait_for_receipt p fuel tx_hash poll w = receipt_loop p tx_hash poll (lp_now p w + 60000) fuel w"

definition ensure_receipt_success :: "receipt \<Rightarrow> (string, unit) result" where
  "ensure_receipt_success r =
     (if to_lowercase (trim_start_0x (rc_status r)) \<noteq> ''1'' then Err ''tx reverted on L2'' else Ok ())"

definition BRIDGE_TOKEN_PREDEPLOY :: evm_address where
  "BRIDGE_TOKEN_PREDEPLOY = Abs_barray (0x42 # replicate 18 0 @ [0x11])"

definition BRIDGE_FACTORY_ADDRESS :: evm_address where
  "BRIDGE_FACTORY_ADDRESS = Abs_barray (0x42 # replicate 18 0 @ [0x10])"

definition verify_l2_bridge_factory ::
    "'w l2_port \<Rightarrow> evm_address \<Rightarrow> evm_address \<Rightarrow> 'w \<Rightarrow> (string, unit) result \<times> 'w" where
  "verify_l2_bridge_factory p factory expected_relayer =
     sbind (eth_get_code p factory) (\<lambda>code.
       if length code \<le> 2 then sthrow ''BridgeFactory predeploy not found''
       else
     sbind (eth_get_code p BRIDGE_TOKEN_PREDEPLOY) (\<lambda>token_code.
       if length token_code \<le> 2 then sthrow ''Bridge predeploy not found''
       else
     sbind (st_map_err (\<lambda>_. ''calling initialized() on L2 BridgeFactory'')
              (eth_call_bool p factory (selector (lp_lib p) ''initialized()''))) (\<lambda>initialized.
       if \<not> initialized then sthrow ''BridgeFactory predeploy is not initialized''
       else
     sbind (st_map_err (\<lambda>_. ''calling relayer() on L2 BridgeFactory'')
              (eth_call_address p factory (selector (lp_lib p) ''relayer()''))) (\<lambda>onchain_relayer.
       if onchain_relayer \<noteq> expected_relayer then sthrow ''BridgeFactory relayer mismatch''
       else sreturn ()))))"

end
