(* ===== verification/Bcs.thy ===== *)
theory Bcs
  imports Core_Types
begin

text \<open>
  The interface of the \<open>bcs\<close> crate (Binary Canonical Serialization), which every on-chain
  and on-blob decoder of the sources goes through. The crate is not part of the repository, so
  the decoders of the model take \<open>to_bytes\<close> and \<open>from_bytes\<close> as arguments; the locale states
  the contract the sources rely on: encoding and decoding are inverse, and decoding accepts
  canonical encodings only. The second half is a reference codec that follows the published
  format (little-endian integers, ULEB128 sequence lengths below \<open>2^31\<close>, one-byte option
  tags, structs as concatenated fields); it shows that the contract can be met and gives the
  byte layouts the hand-written readers of the sources assume.
\<close>

section \<open>The interface\<close>

locale bcs_codec =
  fixes to_bytes :: "'a \<Rightarrow> (string, byte list) result"
    and from_bytes :: "byte list \<Rightarrow> (string, 'a) result"
  assumes canonical: "from_bytes bs = Ok x \<longleftrightarrow> to_bytes x = Ok bs"
begin

lemma from_to_bytes: "to_bytes x = Ok bs \<Longrightarrow> from_bytes bs = Ok x"
  by (simp add: canonical)

lemma to_bytes_inject: "to_bytes x = Ok bs \<Longrightarrow> to_bytes y = Ok bs \<Longrightarrow> x = y"
  by (metis canonical sum.inject(2))

lemma from_bytes_inject: "from_bytes bs = Ok x \<Longrightarrow> from_bytes cs = Ok x \<Longrightarrow> bs = cs"
  by (metis canonical sum.inject(2))

end

section \<open>Reference codec\<close>

record 'a codec =
  c_enc :: "'a \<Rightarrow> byte list option"
  c_dec :: "byte list \<Rightarrow> ('a \<times> byte list) option"

definition codec_ok :: "'a codec \<Rightarrow> bool" where
  "codec_ok c \<longleftrightarrow>
     (\<forall>bs x rest. c_dec c bs = Some (x, rest) \<longleftrightarrow> (\<exists>p. c_enc c x = Some p \<and> bs = p @ rest))"

lemma codec_okI:
  assumes "\<And>x p rest. c_enc c x = Some p \<Longrightarrow> c_dec c (p @ rest) = Some (x, rest)"
    and "\<And>bs x rest. c_dec c bs = Some (x, rest) \<Longrightarrow> \<exists>p. c_enc c x = Some p \<and> bs = p @ rest"
  shows "codec_ok c"
  using assms unfolding codec_ok_def by blast

lemma codec_ok_dec:
  "codec_ok c \<Longrightarrow> c_dec c bs = Some (x, rest) \<longleftrightarrow> (\<exists>p. c_enc c x = Some p \<and> bs = p @ rest)"
  by (simp add: codec_ok_def)

definition bcs_to_bytes :: "'a codec \<Rightarrow> 'a \<Rightarrow> (string, byte list) result" where
  "bcs_to_bytes c x = ok_or ''sequence too long'' (c_enc c x)"

definition bcs_from_bytes :: "'a codec \<Rightarrow> byte list \<Rightarrow> (string, 'a) result" where
  "bcs_from_bytes c bs =
     (case c_dec c bs of
        None \<Rightarrow> Err ''malformed input''
      | Some (x, rest) \<Rightarrow> if rest = [] then Ok x else Err ''remaining input'')"

lemma bcs_from_bytes_iff:
  "codec_ok c \<Longrightarrow> bcs_from_bytes c bs = Ok x \<longleftrightarrow> bcs_to_bytes c x = Ok bs"
proof -
  assume "codec_ok c"
  have "bcs_from_bytes c bs = Ok x \<longleftrightarrow> c_dec c bs = Some (x, [])"
    by (auto simp: bcs_from_bytes_def split: option.splits prod.splits if_splits)
  also have "\<dots> \<longleftrightarrow> c_enc c x = Some bs" using \<open>codec_ok c\<close> by (auto simp: codec_ok_dec)
  finally show ?thesis by (simp add: bcs_to_bytes_def)
qed

text \<open>Fixed-width integers and arrays.\<close>

definition c_u64 :: "u64 codec" where
  "c_u64 = \<lparr>c_enc = (\<lambda>w. Some (to_le_bytes w)),
            c_dec = (\<lambda>bs. if length bs < 8 then None
                          else Some (from_le_bytes (take 8 bs), drop 8 bs))\<rparr>"

definition c_byte :: "byte codec" where
  "c_byte = \<lparr>c_enc = (\<lambda>b. Some [b]),
             c_dec = (\<lambda>bs. case bs of [] \<Rightarrow> None | b # rest \<Rightarrow> Some (b, rest))\<rparr>"

definition c_array :: "('n::len) barray codec" where
  "c_array = \<lparr>c_enc = (\<lambda>a. Some (to_vec a)),
              c_dec = (\<lambda>bs. if length bs < LENGTH('n) then None
                            else Some (Abs_barray (take LENGTH('n) bs), drop LENGTH('n) bs))\<rparr>"

text \<open>Products, and a codec carried over a bijection (a struct is the product of its
  fields).\<close>

definition c_pair :: "'a codec \<Rightarrow> 'b codec \<Rightarrow> ('a \<times> 'b) codec" where
  "c_pair c d =
     \<lparr>c_enc = (\<lambda>(x, y). case c_enc c x of None \<Rightarrow> None
                | Some p \<Rightarrow> map_option (\<lambda>q. p @ q) (c_enc d y)),
      c_dec = (\<lambda>bs. case c_dec c bs of None \<Rightarrow> None
                | Some (x, r) \<Rightarrow> map_option (\<lambda>(y, r'). ((x, y), r')) (c_dec d r))\<rparr>"

definition c_iso :: "('a \<Rightarrow> 'b) \<Rightarrow> ('b \<Rightarrow> 'a) \<Rightarrow> 'a codec \<Rightarrow> 'b codec" where
  "c_iso f g c =
     \<lparr>c_enc = (\<lambda>y. c_enc c (g y)),
      c_dec = (\<lambda>bs. map_option (\<lambda>(x, r). (f x, r)) (c_dec c bs))\<rparr>"

text \<open>Options: tag 0 or tag 1 followed by the value.\<close>

definition c_option :: "'a codec \<Rightarrow> 'a option codec" where
  "c_option c =
     \<lparr>c_enc = (\<lambda>x. case x of None \<Rightarrow> Some [0] | Some y \<Rightarrow> map_option (\<lambda>p. 1 # p) (c_enc c y)),
      c_dec = (\<lambda>bs. case bs of [] \<Rightarrow> None
                | t # rest \<Rightarrow> if t = 0 then Some (None, rest)
                             else if t = 1 then map_option (\<lambda>(y, r). (Some y, r)) (c_dec c rest)
                             else None)\<rparr>"

text \<open>Two-variant enums: tag 0 or tag 1 followed by the payload.\<close>

definition c_sum :: "'a codec \<Rightarrow> 'b codec \<Rightarrow> ('a + 'b) codec" where
  "c_sum c d =
     \<lparr>c_enc = (\<lambda>x. case x of Inl y \<Rightarrow> map_option (\<lambda>p. 0 # p) (c_enc c y)
                           | Inr z \<Rightarrow> map_option (\<lambda>p. 1 # p) (c_enc d z)),
      c_dec = (\<lambda>bs. case bs of [] \<Rightarrow> None
                | t # rest \<Rightarrow> if t = 0 then map_option (\<lambda>(y, r). (Inl y, r)) (c_dec c rest)
                             else if t = 1 then map_option (\<lambda>(z, r). (Inr z, r)) (c_dec d rest)
                             else None)\<rparr>"

text \<open>Sequences: a canonical ULEB128 length, then the elements.\<close>

fun uleb :: "nat \<Rightarrow> byte list" where
  "uleb n = (if n < 128 then [of_nat n] else of_nat (n mod 128 + 128) # uleb (n div 128))"

declare uleb.simps [simp del]

fun uleb_dec :: "byte list \<Rightarrow> (nat \<times> byte list) option" where
  "uleb_dec [] = None"
| "uleb_dec (b # bs) =
     (if unat b < 128 then Some (unat b, bs)
      else case uleb_dec bs of None \<Rightarrow> None
           | Some (m, rest) \<Rightarrow> if m = 0 then None else Some (unat b - 128 + 128 * m, rest))"

primrec enc_all :: "'a codec \<Rightarrow> 'a list \<Rightarrow> byte list option" where
  "enc_all c [] = Some []"
| "enc_all c (x # xs) =
     (case c_enc c x of None \<Rightarrow> None | Some p \<Rightarrow> map_option (\<lambda>q. p @ q) (enc_all c xs))"

primrec dec_n :: "'a codec \<Rightarrow> nat \<Rightarrow> byte list \<Rightarrow> ('a list \<times> byte list) option" where
  "dec_n c 0 bs = Some ([], bs)"
| "dec_n c (Suc n) bs =
     (case c_dec c bs of None \<Rightarrow> None
      | Some (x, r) \<Rightarrow> map_option (\<lambda>(xs, r'). (x # xs, r')) (dec_n c n r))"

definition c_list :: "'a codec \<Rightarrow> 'a list codec" where
  "c_list c =
     \<lparr>c_enc = (\<lambda>xs. if length xs < 2 ^ 31 then map_option (\<lambda>q. uleb (length xs) @ q) (enc_all c xs)
                    else None),
      c_dec = (\<lambda>bs. case uleb_dec bs of None \<Rightarrow> None
                | Some (n, r) \<Rightarrow> if n < 2 ^ 31 then dec_n c n r else None)\<rparr>"

abbreviation c_bytes :: "byte list codec" where
  "c_bytes \<equiv> c_list c_byte"

text \<open>Strings travel as byte strings.\<close>

definition c_string :: "string codec" where
  "c_string = c_iso (map (\<lambda>b. char_of (unat b))) (map (\<lambda>c. of_char c)) c_bytes"

lemma c_enc_simps [codec_simps]:
  "c_enc c_u64 w = Some (to_le_bytes w)"
  "c_enc c_byte b = Some [b]"
  "c_enc c_array a = Some (to_vec a)"
  "c_enc (c_pair c d) (x, y) =
     (case c_enc c x of None \<Rightarrow> None | Some p \<Rightarrow> map_option (\<lambda>q. p @ q) (c_enc d y))"
  "c_enc (c_iso f g c) z = c_enc c (g z)"
  "c_enc (c_option c) None = Some [0]"
  "c_enc (c_option c) (Some x) = map_option (\<lambda>p. 1 # p) (c_enc c x)"
  "c_enc (c_list c) xs =
     (if length xs < 2 ^ 31 then map_option (\<lambda>q. uleb (length xs) @ q) (enc_all c xs) else None)"
  by (simp_all add: c_u64_def c_byte_def c_array_def c_pair_def c_iso_def c_option_def c_list_def)

lemma c_enc_sum [codec_simps]:
  "c_enc (c_sum c d) (Inl a) = map_option (\<lambda>p. 0 # p) (c_enc c a)"
  "c_enc (c_sum c d) (Inr b) = map_option (\<lambda>p. 1 # p) (c_enc d b)"
  by (simp_all add: c_sum_def)

lemma uleb_small [codec_simps]: "n < 128 \<Longrightarrow> uleb n = [of_nat n]"
  by (subst uleb.simps) simp

lemma enc_all_byte [simp]: "enc_all c_byte xs = Some xs"
  by (induction xs) (auto simp: c_byte_def)

subsection \<open>Correctness of the combinators\<close>

named_theorems codec_oks \<open>codec_ok facts\<close>

lemma codec_ok_u64 [codec_oks]: "codec_ok c_u64"
proof (rule codec_okI)
  fix x p rest assume "c_enc c_u64 x = Some p"
  then show "c_dec c_u64 (p @ rest) = Some (x, rest)" by (auto simp: c_u64_def)
next
  fix bs x rest assume "c_dec c_u64 bs = Some (x, rest)"
  then have "8 \<le> length bs" "x = from_le_bytes (take 8 bs)" "rest = drop 8 bs"
    by (auto simp: c_u64_def split: if_splits)
  then show "\<exists>p. c_enc c_u64 x = Some p \<and> bs = p @ rest"
    by (auto simp: c_u64_def to_from_le_bytes)
qed

lemma codec_ok_byte [codec_oks]: "codec_ok c_byte"
  by (rule codec_okI) (auto simp: c_byte_def split: list.splits)

lemma codec_ok_array [codec_oks]: "codec_ok (c_array :: ('n::len) barray codec)"
proof (rule codec_okI)
  fix x :: "'n barray" and p rest
  assume "c_enc c_array x = Some p"
  then show "c_dec c_array (p @ rest) = Some (x, rest)" by (auto simp: c_array_def to_vec_inverse)
next
  fix bs rest and x :: "'n barray"
  assume "c_dec c_array bs = Some (x, rest)"
  then have "LENGTH('n) \<le> length bs" "x = Abs_barray (take LENGTH('n) bs)"
    "rest = drop LENGTH('n) bs" by (auto simp: c_array_def split: if_splits)
  then show "\<exists>p. c_enc c_array x = Some p \<and> bs = p @ rest" by (auto simp: c_array_def)
qed

lemma codec_ok_pair [codec_oks]:
  assumes c: "codec_ok c" and d: "codec_ok d"
  shows "codec_ok (c_pair c d)"
proof (rule codec_okI)
  fix z p rest assume "c_enc (c_pair c d) z = Some p"
  then obtain x y px py where z: "z = (x, y)" "c_enc c x = Some px" "c_enc d y = Some py" "p = px @ py"
    by (cases z) (auto simp: c_pair_def split: option.splits)
  have "c_dec c (p @ rest) = Some (x, py @ rest)" using c z by (simp add: codec_ok_dec)
  moreover have "c_dec d (py @ rest) = Some (y, rest)" using d z by (simp add: codec_ok_dec)
  ultimately show "c_dec (c_pair c d) (p @ rest) = Some (z, rest)" by (simp add: c_pair_def z)
next
  fix bs z rest assume "c_dec (c_pair c d) bs = Some (z, rest)"
  then obtain x y r where z: "z = (x, y)" "c_dec c bs = Some (x, r)" "c_dec d r = Some (y, rest)"
    by (auto simp: c_pair_def split: option.splits)
  with c d obtain px py where "c_enc c x = Some px" "bs = px @ r" "c_enc d y = Some py" "r = py @ rest"
    by (auto simp: codec_ok_dec)
  then show "\<exists>p. c_enc (c_pair c d) z = Some p \<and> bs = p @ rest" by (simp add: c_pair_def z)
qed

lemma codec_ok_iso:
  assumes "codec_ok c" "\<And>x. g (f x) = x" "\<And>y. f (g y) = y"
  shows "codec_ok (c_iso f g c)"
  using assms by (intro codec_okI) (fastforce simp: c_iso_def codec_ok_dec)+

lemma codec_ok_option [codec_oks]:
  assumes "codec_ok c"
  shows "codec_ok (c_option c)"
proof (rule codec_okI)
  fix x p rest assume "c_enc (c_option c) x = Some p"
  with assms show "c_dec (c_option c) (p @ rest) = Some (x, rest)"
    by (auto simp: c_option_def codec_ok_dec split: option.splits)
next
  fix bs x rest assume "c_dec (c_option c) bs = Some (x, rest)"
  with assms show "\<exists>p. c_enc (c_option c) x = Some p \<and> bs = p @ rest"
    by (auto simp: c_option_def codec_ok_dec split: list.splits if_splits)
qed

lemma codec_ok_sum [codec_oks]:
  assumes "codec_ok c" "codec_ok d"
  shows "codec_ok (c_sum c d)"
proof (rule codec_okI)
  fix x p rest assume "c_enc (c_sum c d) x = Some p"
  with assms show "c_dec (c_sum c d) (p @ rest) = Some (x, rest)"
    by (auto simp: c_sum_def codec_ok_dec split: sum.splits)
next
  fix bs x rest assume "c_dec (c_sum c d) bs = Some (x, rest)"
  with assms show "\<exists>p. c_enc (c_sum c d) x = Some p \<and> bs = p @ rest"
    by (auto simp: c_sum_def codec_ok_dec split: list.splits if_splits)
qed

lemma uleb_dec_uleb: "uleb_dec (uleb n @ rest) = Some (n, rest)"
proof (induction n rule: uleb.induct)
  case (1 n)
  show ?case
  proof (cases "n < 128")
    case True
    then show ?thesis by (subst uleb.simps) (simp add: unat_of_nat)
  next
    case False
    have "unat (of_nat (n mod 128 + 128) :: byte) = n mod 128 + 128"
      by (simp only: unat_of_nat) simp
    moreover have "n div 128 \<noteq> 0" using False by simp
    ultimately show ?thesis
      using False 1 by (subst uleb.simps) simp
  qed
qed

lemma uleb_dec_Some: "uleb_dec bs = Some (n, rest) \<Longrightarrow> bs = uleb n @ rest"
proof (induction bs arbitrary: n)
  case Nil
  then show ?case by simp
next
  case (Cons b bs)
  show ?case
  proof (cases "unat b < 128")
    case True
    with Cons.prems have "n = unat b" "rest = bs" by auto
    with True show ?thesis by (subst uleb.simps) simp
  next
    case False
    with Cons.prems obtain m where m: "uleb_dec bs = Some (m, rest)" "m \<noteq> 0"
      "n = unat b - 128 + 128 * m" by (auto split: option.splits if_splits)
    have b: "unat b < 256" using unsigned_less [of b] by simp
    define k where "k = unat b - 128"
    have k: "unat b = k + 128" "k < 128" using False b by (simp_all add: k_def)
    then have n: "128 \<le> n" "n mod 128 + 128 = unat b" "n div 128 = m" using m(2,3) by auto
    from n(1) have "uleb n = of_nat (n mod 128 + 128) # uleb (n div 128)"
      by (subst uleb.simps) simp
    with n Cons.IH [OF m(1)] show ?thesis by simp
  qed
qed

lemma dec_n_iff:
  assumes "codec_ok c"
  shows "dec_n c n bs = Some (xs, rest) \<longleftrightarrow>
    length xs = n \<and> (\<exists>p. enc_all c xs = Some p \<and> bs = p @ rest)"
proof (induction n arbitrary: bs xs)
  case 0
  then show ?case by auto
next
  case (Suc n)
  show ?case
  proof (cases xs)
    case Nil
    then show ?thesis by (auto split: option.splits)
  next
    case (Cons x xs')
    have "dec_n c (Suc n) bs = Some (xs, rest) \<longleftrightarrow>
      (\<exists>r. c_dec c bs = Some (x, r) \<and> dec_n c n r = Some (xs', rest))"
      by (auto simp: Cons split: option.splits)
    then show ?thesis
      using assms Suc.IH by (auto simp: Cons codec_ok_dec split: option.splits)
  qed
qed

lemma codec_ok_list [codec_oks]:
  assumes "codec_ok c"
  shows "codec_ok (c_list c)"
proof (rule codec_okI)
  fix x p rest assume "c_enc (c_list c) x = Some p"
  then obtain q where "length x < 2 ^ 31" "enc_all c x = Some q" "p = uleb (length x) @ q"
    by (auto simp: c_list_def split: if_splits)
  with assms show "c_dec (c_list c) (p @ rest) = Some (x, rest)"
    by (auto simp: c_list_def uleb_dec_uleb dec_n_iff)
next
  fix bs x rest assume "c_dec (c_list c) bs = Some (x, rest)"
  then obtain n r where "uleb_dec bs = Some (n, r)" "n < 2 ^ 31" "dec_n c n r = Some (x, rest)"
    by (auto simp: c_list_def split: option.splits if_splits)
  with assms show "\<exists>p. c_enc (c_list c) x = Some p \<and> bs = p @ rest"
    by (auto simp: c_list_def dec_n_iff dest!: uleb_dec_Some)
qed

lemma codec_ok_string [codec_oks]: "codec_ok c_string"
  unfolding c_string_def
  by (rule codec_ok_iso) (auto simp: comp_def byte_char_byte char_byte_char intro!: codec_oks)

lemma bcs_codec_ref: "codec_ok c \<Longrightarrow> bcs_codec (bcs_to_bytes c) (bcs_from_bytes c)"
  by unfold_locales (rule bcs_from_bytes_iff)

end
