(* ===== verification/Wire.thy ===== *)
theory Wire
  imports Bcs
begin

text \<open>
  Data availability (\<open>crates/sui/src/wire.rs\<close>, \<open>blob_id.rs\<close> and the Walrus half of
  \<open>lib.rs\<close>): the on-blob block encoding, the blob id text form, the store and read requests
  with their error classification, and the block signature check shared by full nodes. HTTP,
  base64, BCS and ed25519 are arguments.
\<close>

section \<open>Errors\<close>

datatype sui_error =
    Transport string
  | Serde string
  | Store nat string
  | Read nat string
  | InvalidBlobId string
  | MissingBlobId
  | Url string
  | InvalidBatch string
  | SettlementFailure string

fun is_transient :: "sui_error \<Rightarrow> bool" where
  "is_transient (Transport _) = True"
| "is_transient (Read status _) =
     (status \<in> {404, 408, 425, 429} \<or> (500 \<le> status \<and> status \<le> 599))"
| "is_transient (Store status _) =
     (status \<in> {404, 408, 425, 429} \<or> (500 \<le> status \<and> status \<le> 599))"
| "is_transient (Serde _) = False"
| "is_transient (InvalidBlobId _) = False"
| "is_transient (InvalidBatch _) = False"
| "is_transient MissingBlobId = False"
| "is_transient (Url _) = False"
| "is_transient (SettlementFailure _) = False"

fun sui_error_display :: "sui_error \<Rightarrow> string" where
  "sui_error_display (Transport e) = ''transport error: '' @ e"
| "sui_error_display (Serde e) = ''serde error: '' @ e"
| "sui_error_display (Store s b) = ''store failed ('' @ show_nat s @ ''): '' @ b"
| "sui_error_display (Read s b) = ''read failed ('' @ show_nat s @ ''): '' @ b"
| "sui_error_display (InvalidBlobId e) = ''invalid blob id: '' @ e"
| "sui_error_display MissingBlobId = ''store response missing blob id''"
| "sui_error_display (Url e) = ''invalid url: '' @ e"
| "sui_error_display (InvalidBatch e) = ''invalid blob batch: '' @ e"
| "sui_error_display (SettlementFailure e) = ''settlement error: '' @ e"

definition to_core :: "sui_error \<Rightarrow> core_error" where
  "to_core e = DataAvailability (sui_error_display e)"

section \<open>Block batches on the wire\<close>

record wire_block =
  wb_height :: u64
  wb_parent_hash :: hash
  wb_state_root :: hash
  wb_timestamp :: u64
  wb_data :: "byte list"
  wb_signature :: "byte list option"

definition wire_of_block :: "block \<Rightarrow> wire_block" where
  "wire_of_block b =
     (let h = header b in
      \<lparr>wb_height = height h, wb_parent_hash = parent_hash h, wb_state_root = state_root h,
       wb_timestamp = timestamp h, wb_data = data b,
       wb_signature = map_option to_vec (signature b)\<rparr>)"

definition block_of_wire :: "wire_block \<Rightarrow> block" where
  "block_of_wire w =
     \<lparr>header = \<lparr>height = wb_height w, parent_hash = wb_parent_hash w,
                state_root = wb_state_root w, timestamp = wb_timestamp w\<rparr>,
      data = wb_data w,
      signature = Option.bind (wb_signature w) try_into\<rparr>"

definition encode ::
    "(wire_block list \<Rightarrow> (string, byte list) result) \<Rightarrow> block list \<Rightarrow> (sui_error, byte list) result" where
  "encode to_bytes blocks = map_err Serde (to_bytes (map wire_of_block blocks))"

definition check_wire_block :: "wire_block \<Rightarrow> (sui_error, block) result" where
  "check_wire_block w =
     (case wb_signature w of
        Some sig \<Rightarrow>
          if length sig \<noteq> 64 then
            Err (InvalidBatch (''block '' @ show_u64 (wb_height w) @ '' signature length '' @
                 show_nat (length sig) @ '', expected 64''))
          else Ok (block_of_wire w)
      | None \<Rightarrow> Ok (block_of_wire w))"

definition decode ::
    "(byte list \<Rightarrow> (string, wire_block list) result) \<Rightarrow> byte list \<Rightarrow> (sui_error, block list) result" where
  "decode from_bytes bs =
     (case from_bytes bs of
        Inl e \<Rightarrow> Err (Serde e)
      | Inr wire \<Rightarrow>
          if wire = [] then Err (InvalidBatch ''batch is empty'')
          else collect_results (map check_wire_block wire))"

section \<open>Blob ids\<close>

definition blob_id_decode :: "(string \<Rightarrow> (string, byte list) result) \<Rightarrow> string \<Rightarrow> (sui_error, blob_id) result" where
  "blob_id_decode b64url_decode s =
     (case b64url_decode s of
        Inl e \<Rightarrow> Err (InvalidBlobId (''base64url decode: '' @ e))
      | Inr bytes \<Rightarrow>
          (case try_into bytes of
             None \<Rightarrow> Err (InvalidBlobId (''expected 32 bytes, got '' @ show_nat (length bytes)))
           | Some arr \<Rightarrow> Ok (BlobId arr)))"

fun blob_id_encode :: "(byte list \<Rightarrow> string) \<Rightarrow> blob_id \<Rightarrow> string" where
  "blob_id_encode b64url_encode (BlobId h) = b64url_encode (to_vec h)"

section \<open>The Walrus client\<close>

record walrus_config =
  publisher_url :: string
  aggregator_url :: string
  epochs :: u64
  publisher_auth_token :: "string option"

definition MAX_EPOCHS :: u64 where
  "MAX_EPOCHS = 53"

text \<open>The publisher's reply: either variant carries the blob id.\<close>

record store_response =
  newly_created :: "string option"
  already_certified :: "string option"

definition store_response_blob_id :: "store_response \<Rightarrow> string option" where
  "store_response_blob_id r =
     (case newly_created r of Some b \<Rightarrow> Some b | None \<Rightarrow> already_certified r)"

text \<open>An HTTP response as the client reads it: status, body text, body as JSON, body bytes.\<close>

record http_response =
  hr_status :: nat
  hr_text :: "string option"
  hr_json :: "(string, store_response) result"
  hr_bytes :: "(string, byte list) result"

definition http_is_success :: "nat \<Rightarrow> bool" where
  "http_is_success status \<longleftrightarrow> 200 \<le> status \<and> status < 300"

text \<open>A PUT request: url, optional \<open>Authorization\<close> header, body.\<close>

type_synonym http_put = "string \<Rightarrow> string option \<Rightarrow> byte list \<Rightarrow> (string, http_response) result"
type_synonym http_get = "string \<Rightarrow> (string, http_response) result"

definition store_blob ::
    "http_put \<Rightarrow> (string \<Rightarrow> (string, byte list) result) \<Rightarrow> walrus_config \<Rightarrow> byte list \<Rightarrow>
     (sui_error, blob_id) result" where
  "store_blob put b64url_decode cfg bytes =
     (let url = publisher_url cfg @ ''/v1/blobs?epochs='' @ show_u64 (epochs cfg) @ ''&permanent=true'';
          auth = (case publisher_auth_token cfg of
                    Some token \<Rightarrow> Some (''Bearer '' @ token) | None \<Rightarrow> None)
      in case put url auth bytes of
           Inl e \<Rightarrow> Err (Transport e)
         | Inr response \<Rightarrow>
             if \<not> http_is_success (hr_status response) then
               Err (Store (hr_status response)
                 (case hr_text response of Some t \<Rightarrow> t | None \<Rightarrow> []))
             else case hr_json response of
               Inl e \<Rightarrow> Err (Transport e)
             | Inr parsed \<Rightarrow>
                 (case store_response_blob_id parsed of
                    None \<Rightarrow> Err MissingBlobId
                  | Some s \<Rightarrow> blob_id_decode b64url_decode s))"

definition fetch_blob ::
    "http_get \<Rightarrow> (byte list \<Rightarrow> string) \<Rightarrow> walrus_config \<Rightarrow> blob_id \<Rightarrow> (sui_error, byte list) result" where
  "fetch_blob get b64url_encode cfg i =
     (let url = aggregator_url cfg @ ''/v1/blobs/'' @ blob_id_encode b64url_encode i
      in case get url of
           Inl e \<Rightarrow> Err (Transport e)
         | Inr response \<Rightarrow>
             if \<not> http_is_success (hr_status response) then
               Err (Read (hr_status response)
                 (case hr_text response of Some t \<Rightarrow> t | None \<Rightarrow> []))
             else map_err Transport (hr_bytes response))"

definition publish ::
    "(wire_block list \<Rightarrow> (string, byte list) result) \<Rightarrow> http_put \<Rightarrow>
     (string \<Rightarrow> (string, byte list) result) \<Rightarrow> walrus_config \<Rightarrow> block list \<Rightarrow>
     (core_error, blob_id) result" where
  "publish to_bytes put b64url_decode cfg blocks =
     (case map_err to_core (encode to_bytes blocks) of
        Inl e \<Rightarrow> Err e
      | Inr bytes \<Rightarrow> map_err to_core (store_blob put b64url_decode cfg bytes))"

definition fetch ::
    "(byte list \<Rightarrow> (string, wire_block list) result) \<Rightarrow> http_get \<Rightarrow> (byte list \<Rightarrow> string) \<Rightarrow>
     walrus_config \<Rightarrow> blob_id \<Rightarrow> (core_error, block list) result" where
  "fetch from_bytes get b64url_encode cfg i =
     (case map_err to_core (fetch_blob get b64url_encode cfg i) of
        Inl e \<Rightarrow> Err e
      | Inr bytes \<Rightarrow> map_err to_core (decode from_bytes bytes))"

section \<open>Block signatures\<close>

definition verify_block_signature ::
    "('pk \<Rightarrow> byte list \<Rightarrow> sig_bytes \<Rightarrow> (string, unit) result) \<Rightarrow> block \<Rightarrow> 'pk \<Rightarrow> (core_error, unit) result" where
  "verify_block_signature verify b pubkey =
     (case signature b of
        None \<Rightarrow> Err (InvalidBlock (''block '' @ show_u64 (height (header b)) @ '' is unsigned''))
      | Some sig \<Rightarrow>
          (let msg = signing_message (header b) in
           map_err (\<lambda>e. InvalidBlock (''invalid signature on block '' @
                      show_u64 (height (header b)) @ '': '' @ e))
             (verify pubkey msg sig)))"

section \<open>Properties\<close>

lemma block_of_wire_of_block [simp]: "block_of_wire (wire_of_block b) = b"
  by (cases "signature b") (simp_all add: block_of_wire_def wire_of_block_def Let_def)

lemma check_wire_of_block [simp]: "check_wire_block (wire_of_block b) = Ok b"
proof (cases "signature b")
  case None
  then have "wb_signature (wire_of_block b) = None" by (simp add: wire_of_block_def Let_def)
  then show ?thesis by (simp add: check_wire_block_def)
next
  case (Some s)
  then have "wb_signature (wire_of_block b) = Some (to_vec s)" by (simp add: wire_of_block_def Let_def)
  then show ?thesis by (simp add: check_wire_block_def)
qed

lemma check_wire_block_Ok: "check_wire_block w = Ok b \<longleftrightarrow> w = wire_of_block b"
proof
  assume ok: "check_wire_block w = Ok b"
  show "w = wire_of_block b"
  proof (cases "wb_signature w")
    case None
    with ok have "b = block_of_wire w" by (simp add: check_wire_block_def)
    with None show ?thesis by (simp add: wire_of_block_def block_of_wire_def Let_def)
  next
    case (Some v)
    with ok have "length v = 64" "b = block_of_wire w"
      by (auto simp: check_wire_block_def split: if_splits)
    with Some show ?thesis
      by (cases w) (auto simp: wire_of_block_def block_of_wire_def Let_def try_into_def)
  qed
qed simp

lemma map_check_wire_block:
  "map check_wire_block ws = map Inr blocks \<longleftrightarrow> ws = map wire_of_block blocks"
proof (induction ws arbitrary: blocks)
  case Nil
  then show ?case by auto
next
  case (Cons w ws)
  then show ?case by (cases blocks) (auto simp: check_wire_block_Ok)
qed

text \<open>What a wire decoder of this shape promises, for any codec that meets the BCS contract.\<close>

context bcs_codec
begin

lemma from_bytes_total: "(\<exists>e. from_bytes bs = Err e) \<or> (\<exists>x. from_bytes bs = Ok x \<and> to_bytes x = Ok bs)"
  by (cases "from_bytes bs") (auto simp: canonical)

end

lemma decode_encode_iff:
  assumes "bcs_codec tb fb"
  shows "decode fb bs = Ok blocks \<longleftrightarrow> blocks \<noteq> [] \<and> encode tb blocks = Ok bs"
proof -
  have can: "fb bs = Ok ws \<longleftrightarrow> tb ws = Ok bs" for ws by (rule bcs_codec.canonical [OF assms])
  have "decode fb bs = Ok blocks \<longleftrightarrow>
      (\<exists>ws. fb bs = Ok ws \<and> ws \<noteq> [] \<and> map check_wire_block ws = map Inr blocks)"
    by (auto simp: decode_def collect_results_eq_Inr split: sum.splits)
  also have "\<dots> \<longleftrightarrow> (\<exists>ws. fb bs = Ok ws \<and> ws \<noteq> [] \<and> ws = map wire_of_block blocks)"
    by (simp add: map_check_wire_block)
  finally show ?thesis by (auto simp: encode_def can)
qed

section \<open>The reference codec of a batch\<close>

definition wire_tuple :: "wire_block \<Rightarrow> u64 \<times> hash \<times> hash \<times> u64 \<times> byte list \<times> byte list option" where
  "wire_tuple w = (wb_height w, wb_parent_hash w, wb_state_root w, wb_timestamp w, wb_data w, wb_signature w)"

fun tuple_wire :: "u64 \<times> hash \<times> hash \<times> u64 \<times> byte list \<times> byte list option \<Rightarrow> wire_block" where
  "tuple_wire (h, p, r, t, d, s) =
     \<lparr>wb_height = h, wb_parent_hash = p, wb_state_root = r, wb_timestamp = t, wb_data = d, wb_signature = s\<rparr>"

definition c_wire_block :: "wire_block codec" where
  "c_wire_block =
     c_iso tuple_wire wire_tuple
       (c_pair c_u64 (c_pair c_array (c_pair c_array (c_pair c_u64 (c_pair c_bytes (c_option c_bytes))))))"

lemma codec_ok_wire_block [codec_oks]: "codec_ok c_wire_block"
  unfolding c_wire_block_def
  by (rule codec_ok_iso) (auto simp: wire_tuple_def intro!: codec_oks)

interpretation wire_bcs: bcs_codec "bcs_to_bytes (c_list c_wire_block)" "bcs_from_bytes (c_list c_wire_block)"
  by (intro bcs_codec_ref codec_oks)

definition sample_block :: block where
  "sample_block =
     \<lparr>header = \<lparr>height = 42, parent_hash = barr_fill 1, state_root = barr_fill 2, timestamp = 1700\<rparr>,
      data = [0xde, 0xad, 0xbe, 0xef], signature = Some (barr_fill 7)\<rparr>"

definition sample_wire_bytes :: "byte list" where
  "sample_wire_bytes =
     [1] @ to_le_bytes 42 @ replicate 32 1 @ replicate 32 2 @ to_le_bytes 1700 @
     [4, 0xde, 0xad, 0xbe, 0xef] @ [1, 64] @ replicate 64 7"

lemma sample_wire_bytes_enc:
  "encode (bcs_to_bytes (c_list c_wire_block)) [sample_block] = Ok sample_wire_bytes"
  by (simp add: encode_def bcs_to_bytes_def c_wire_block_def codec_simps wire_tuple_def
      wire_of_block_def sample_block_def sample_wire_bytes_def Let_def)

text \<open>
  C30: decoding accepts exactly the encodings of non-empty batches and returns the batch that
  was encoded. In particular every block, signature included, survives the trip through the
  data availability layer, an empty batch is refused, and no two byte strings decode to the
  same batch.
\<close>

theorem wire_roundtrip:
  assumes "bcs_codec tb fb"
  shows "decode fb bs = Ok blocks \<longleftrightarrow> blocks \<noteq> [] \<and> encode tb blocks = Ok bs"
  by (rule decode_encode_iff [OF assms])

theorem wire_roundtrip_witness:
  "decode (bcs_from_bytes (c_list c_wire_block)) sample_wire_bytes = Ok [sample_block]"
  using wire_roundtrip [OF wire_bcs.bcs_codec_axioms, of sample_wire_bytes "[sample_block]"]
  by (simp add: sample_wire_bytes_enc)

text \<open>
  a signature of any length other than 64 fails the whole decode, and so does anything
  the codec rejects: a decoded block is never silently stripped of its signature.
\<close>

lemma decode_rejects_bad_signature:
  assumes "fb bs = Ok ws" and "w \<in> set ws" and "wb_signature w = Some v" and "length v \<noteq> 64"
  shows "\<exists>e. decode fb bs = Err (InvalidBatch e)"
proof -
  from assms(2) have ne: "ws \<noteq> []" by auto
  have inv: "Inl e \<in> set (map check_wire_block xs) \<Longrightarrow> \<exists>m. e = InvalidBatch m" for e xs
    by (auto simp: check_wire_block_def split: option.splits if_splits)
  have first: "\<exists>m. collect_results (map check_wire_block xs) = Err (InvalidBatch m)"
    if "w \<in> set xs" for xs
    using that
  proof (induction xs)
    case (Cons x xs)
    show ?case
    proof (cases "check_wire_block x")
      case (Inl e)
      with inv [of e "[x]"] show ?thesis by auto
    next
      case (Inr b)
      with assms(3,4) have "x \<noteq> w" by (auto simp: check_wire_block_def)
      with Cons Inr show ?thesis by auto
    qed
  qed simp
  from first [OF assms(2)] ne assms(1) show ?thesis by (auto simp: decode_def)
qed

lemma decode_rejects_bad_signature_witness:
  "\<exists>e. decode (\<lambda>_. Ok [(wire_of_block sample_block)\<lparr>wb_signature := Some [0]\<rparr>]) [] = Err (InvalidBatch e)"
proof -
  let ?w = "(wire_of_block sample_block)\<lparr>wb_signature := Some [0]\<rparr>"
  show ?thesis
    by (rule decode_rejects_bad_signature [where ws = "[?w]" and w = ?w and v = "[0]"]) simp_all
qed

end
