(* ===== verification/Sui_Rpc.thy ===== *)
theory Sui_Rpc
  imports Wire
begin

text \<open>
  The object reads of \<open>crates/sui/src/settlement.rs\<close>: raw object and table-entry contents over
  the Sui gRPC ledger API, and the decoders of the Registry, Inbox cursor and commitment
  entries. The RPC client is an argument; every call carries the index of the read, so that
  two reads of one operation may see different chain states.
\<close>

section \<open>Errors and the RPC client\<close>

type_synonym address = "32 barray"

datatype settlement_error =
    SIo string
  | SKey string
  | SRpc string
  | SBuild string
  | SExecution string
  | SParse string

fun settlement_error_display :: "settlement_error \<Rightarrow> string" where
  "settlement_error_display (SIo e) = ''io error: '' @ e"
| "settlement_error_display (SKey e) = ''key error: '' @ e"
| "settlement_error_display (SRpc e) = ''rpc error: '' @ e"
| "settlement_error_display (SBuild e) = ''transaction build error: '' @ e"
| "settlement_error_display (SExecution e) = ''transaction execution failed: '' @ e"
| "settlement_error_display (SParse e) = ''parse error: '' @ e"

text \<open>Type tags of dynamic-field keys: \<open>u64\<close> for tables, \<open>package::module::Name\<close> for the
  unit-struct keys.\<close>

datatype type_tag = TagU64 | TagStruct address string string

text \<open>\<open>rpc_new\<close> builds a client for an endpoint; \<open>get_object n a\<close> is the \<open>n\<close>-th
  \<open>get_object\<close> request, of the object \<open>a\<close>: no object, an object without contents, or its
  contents.\<close>

record rpc_env =
  rpc_new :: "string \<Rightarrow> (string, unit) result"
  get_object :: "nat \<Rightarrow> address \<Rightarrow> (string, byte list option option) result"
  derive_dynamic_child_id :: "address \<Rightarrow> type_tag \<Rightarrow> byte list \<Rightarrow> address"

definition parse_address ::
    "(string \<Rightarrow> (string, address) result) \<Rightarrow> string \<Rightarrow> string \<Rightarrow> (settlement_error, address) result" where
  "parse_address parse s label = map_err (\<lambda>e. SParse (label @ '' '' @ s @ '': '' @ e)) (parse s)"

definition parse_contract_ids ::
    "(string \<Rightarrow> (string, address) result) \<Rightarrow> string \<Rightarrow> string \<Rightarrow> string \<Rightarrow> string \<Rightarrow>
     (settlement_error, address \<times> address \<times> address \<times> address) result" where
  "parse_contract_ids parse package_id cap_id registry_id inbox_id =
     and_then (parse_address parse package_id ''package id'') (\<lambda>p.
     and_then (parse_address parse cap_id ''cap id'') (\<lambda>c.
     and_then (parse_address parse registry_id ''registry id'') (\<lambda>r.
     and_then (parse_address parse inbox_id ''inbox id'') (\<lambda>i.
       Ok (p, c, r, i)))))"

definition object_contents ::
    "rpc_env \<Rightarrow> nat \<Rightarrow> string \<Rightarrow> address \<Rightarrow> string \<Rightarrow> (settlement_error, byte list) result" where
  "object_contents env n rpc_url i label =
     (case rpc_new env rpc_url of
        Inl e \<Rightarrow> Err (SRpc e)
      | Inr _ \<Rightarrow>
          (case get_object env n i of
             Inl e \<Rightarrow> Err (SRpc (''get_object: '' @ e))
           | Inr None \<Rightarrow> Err (SExecution (label @ '' object not found''))
           | Inr (Some None) \<Rightarrow> Err (SExecution (label @ '' has no contents''))
           | Inr (Some (Some bytes)) \<Rightarrow> Ok bytes))"

definition field_contents ::
    "rpc_env \<Rightarrow> nat \<Rightarrow> string \<Rightarrow> address \<Rightarrow> u64 \<Rightarrow> (settlement_error, byte list option) result" where
  "field_contents env n rpc_url tbl key =
     (case rpc_new env rpc_url of
        Inl e \<Rightarrow> Err (SRpc e)
      | Inr _ \<Rightarrow>
          (let field_id = derive_dynamic_child_id env tbl TagU64 (to_le_bytes key) in
           case get_object env n field_id of
             Inl e \<Rightarrow> Err (SRpc (''get_object (field): '' @ e))
           | Inr None \<Rightarrow> Ok None
           | Inr (Some None) \<Rightarrow> Err (SExecution ''field contents missing raw BCS'')
           | Inr (Some (Some bytes)) \<Rightarrow> Ok (Some bytes)))"

section \<open>Registry and Inbox readers\<close>

text \<open>The two hand-written readers slice the object bytes directly.\<close>

definition parse_latest_height :: "byte list \<Rightarrow> (settlement_error, u64) result" where
  "parse_latest_height contents =
     (if length contents < 40 then
        Err (SExecution (''registry BCS too short: '' @ show_nat (length contents) @ '' bytes''))
      else Ok (from_le_bytes (take 8 (drop 32 contents))))"

definition parse_inbox_cursor :: "byte list \<Rightarrow> (settlement_error, u64) result" where
  "parse_inbox_cursor contents =
     (if length contents < 48 then
        Err (SExecution (''inbox BCS too short: '' @ show_nat (length contents) @ '' bytes''))
      else Ok (from_le_bytes (take 8 (drop 40 contents))))"

record table_bcs =
  tb_id :: address
  tb_size :: u64

record registry_bcs =
  rb_id :: address
  rb_latest_height :: u64
  rb_commitments :: table_bcs

definition parse_table_uid ::
    "(byte list \<Rightarrow> (string, registry_bcs) result) \<Rightarrow> byte list \<Rightarrow> (settlement_error, address) result" where
  "parse_table_uid from_bytes bs =
     (case from_bytes bs of
        Inl e \<Rightarrow> Err (SParse (''registry BCS: '' @ e))
      | Inr registry \<Rightarrow> Ok (tb_id (rb_commitments registry)))"

definition parse_blob_id :: "byte list \<Rightarrow> (settlement_error, blob_id) result" where
  "parse_blob_id bytes =
     (if length bytes \<noteq> 32 then
        Err (SParse (''expected 32-byte blob id, got '' @ show_nat (length bytes)))
      else Ok (BlobId (Abs_barray bytes)))"

record 'v field_bcs =
  fb_id :: address
  fb_name :: u64
  fb_value :: 'v

definition parse_field_blob_id ::
    "(byte list \<Rightarrow> (string, byte list field_bcs) result) \<Rightarrow> byte list \<Rightarrow> (settlement_error, blob_id) result" where
  "parse_field_blob_id from_bytes bs =
     (case from_bytes bs of
        Inl e \<Rightarrow> Err (SParse (''field BCS: '' @ e))
      | Inr field \<Rightarrow> parse_blob_id (fb_value field))"

definition settle_block_ts :: "u64 \<Rightarrow> u64" where
  "settle_block_ts header_timestamp_secs = saturating_mul header_timestamp_secs 1000"

definition latest_height ::
    "rpc_env \<Rightarrow> (string \<Rightarrow> (string, address) result) \<Rightarrow> nat \<Rightarrow> string \<Rightarrow> string \<Rightarrow>
     (settlement_error, u64) result" where
  "latest_height env parse n rpc_url registry_id =
     and_then (parse_address parse registry_id ''registry id'') (\<lambda>registry.
     and_then (object_contents env n rpc_url registry ''registry'') parse_latest_height)"

definition table_uid ::
    "rpc_env \<Rightarrow> (string \<Rightarrow> (string, address) result) \<Rightarrow> (byte list \<Rightarrow> (string, registry_bcs) result) \<Rightarrow>
     nat \<Rightarrow> string \<Rightarrow> string \<Rightarrow> (settlement_error, address) result" where
  "table_uid env parse from_bytes n rpc_url registry_id =
     and_then (parse_address parse registry_id ''registry id'') (\<lambda>registry.
     and_then (object_contents env n rpc_url registry ''registry'') (parse_table_uid from_bytes))"

definition commitment_at ::
    "rpc_env \<Rightarrow> (byte list \<Rightarrow> (string, byte list field_bcs) result) \<Rightarrow> nat \<Rightarrow> string \<Rightarrow> address \<Rightarrow> u64 \<Rightarrow>
     (settlement_error, blob_id option) result" where
  "commitment_at env from_bytes n rpc_url tbl h =
     (case field_contents env n rpc_url tbl h of
        Inl e \<Rightarrow> Err e
      | Inr None \<Rightarrow> Ok None
      | Inr (Some bytes) \<Rightarrow> and_then (parse_field_blob_id from_bytes bytes) (\<lambda>b. Ok (Some b)))"

section \<open>Properties\<close>

lemma parse_blob_id_Ok: "parse_blob_id bytes = Ok (BlobId h) \<longleftrightarrow> bytes = to_vec h"
  by (auto simp: parse_blob_id_def to_vec_inverse)

text \<open>The settle timestamp conversion never wraps: a header second count either converts
  exactly to milliseconds or saturates, and is monotone.\<close>

lemma unat_settle_block_ts:
  "unat (settle_block_ts t) = min (unat t * 1000) (2 ^ 64 - 1)"
  by (simp add: settle_block_ts_def unat_saturating_mul)

lemma settle_block_ts_mono: "s \<le> t \<Longrightarrow> settle_block_ts s \<le> settle_block_ts t"
  by (simp add: word_le_nat_alt settle_block_ts_def unat_saturating_mul min.coboundedI1)

lemma object_contents_Ok:
  "object_contents env n url i label = Ok bs \<longleftrightarrow>
    rpc_new env url = Ok () \<and> get_object env n i = Ok (Some (Some bs))"
  by (auto simp: object_contents_def split: sum.splits option.splits)

end
