(* ===== verification/Ptb.thy ===== *)
theory Ptb
  imports Sui_Rpc
begin

text \<open>
  Programmable transaction blocks as data: the calls a builder collects, and the path that
  builds, signs, submits and checks one (\<open>sign_and_execute\<close>, \<open>into_checked\<close>,
  \<open>find_created_object\<close> of \<open>crates/sui/src/settlement.rs\<close>; \<open>submit_rotation_tx\<close> and
  \<open>module_function\<close> of \<open>crates/sui/src/rotation.rs\<close>). Building, signing and execution are
  third-party code: the record \<open>tx_env\<close> holds them.
\<close>

section \<open>Transactions\<close>

datatype ptb_arg =
    ArgObject address
  | ArgU64 u64
  | ArgAddress address
  | ArgBytes "byte list"
  | ArgU8 byte
  | ArgResult nat

record move_call =
  mc_package :: address
  mc_module :: string
  mc_function :: string
  mc_args :: "ptb_arg list"

text \<open>Commands of a block: a Move call (with type arguments), a package publish, a package upgrade
  whose ticket is the result of an earlier command. \<open>ArgResult i\<close> is the result of command \<open>i\<close>.\<close>

datatype command =
    MoveCall move_call
  | MoveCallT "string list" move_call
  | Publish "byte list list" "address list"
  | Upgrade "byte list list" "address list" address ptb_arg

record ptb =
  ptb_sender :: address
  ptb_calls :: "command list"

definition SUI_CLOCK_ID :: address where
  "SUI_CLOCK_ID = Abs_barray (replicate 31 0 @ [6])"

text \<open>\<open>Identifier::new\<close> validates a name.\<close>

definition module_function ::
    "(string \<Rightarrow> (string, unit) result) \<Rightarrow> address \<Rightarrow> string \<Rightarrow> string \<Rightarrow>
     (settlement_error, address \<times> string \<times> string) result" where
  "module_function identifier package md name =
     and_then (map_err SParse (identifier md)) (\<lambda>_.
     and_then (map_err SParse (identifier name)) (\<lambda>_. Ok (package, md, name)))"

datatype id_operation = IdCreated | IdOther
datatype owner_kind = OwnerAddress | OwnerShared | OwnerOther
datatype output_state = PackageWrite | OutputOther

record changed_object =
  co_object_id :: "string option"
  co_id_operation :: id_operation
  co_owner :: owner_kind
  co_output :: output_state

record tx_response =
  tr_success :: bool
  tr_error :: "string option"
  tr_changed :: "changed_object list"

text \<open>The signing key is abstract; \<open>te_derive\<close> is \<open>public_key().derive_address()\<close>.\<close>

record ('key, 'tx, 'sg) tx_env =
  te_derive :: "'key \<Rightarrow> address"
  te_client :: "string \<Rightarrow> (string, unit) result"
  te_build :: "ptb \<Rightarrow> (string, 'tx) result"
  te_sign :: "'key \<Rightarrow> 'tx \<Rightarrow> (string, 'sg) result"
  te_execute :: "'tx \<Rightarrow> 'sg \<Rightarrow> nat \<Rightarrow> (string, tx_response) result"

definition DEPLOY_TX_WAIT :: nat where
  "DEPLOY_TX_WAIT = 120"

definition COMMIT_TX_WAIT :: nat where
  "COMMIT_TX_WAIT = 30"

definition into_checked :: "tx_response \<Rightarrow> string \<Rightarrow> (settlement_error, tx_response) result" where
  "into_checked inner label =
     (if tr_success inner then Ok inner
      else Err (SExecution (label @ '' failed: '' @
             (case tr_error inner of Some d \<Rightarrow> d | None \<Rightarrow> []))))"

definition sign_and_execute ::
    "('key, 'tx, 'sg) tx_env \<Rightarrow> 'key \<Rightarrow> 'tx \<Rightarrow> string \<Rightarrow> nat \<Rightarrow> (settlement_error, tx_response) result" where
  "sign_and_execute te key tx label wait =
     (case te_sign te key tx of
        Inl e \<Rightarrow> Err (SKey (label @ '': '' @ e))
      | Inr sg \<Rightarrow>
          (case te_execute te tx sg wait of
             Inl e \<Rightarrow> Err (SExecution (label @ '': '' @ e))
           | Inr response \<Rightarrow> into_checked response label))"

definition find_created_object :: "changed_object list \<Rightarrow> owner_kind \<Rightarrow> string option" where
  "find_created_object changes kind =
     Option.bind (find (\<lambda>c. co_id_operation c = IdCreated \<and> co_owner c = kind) changes) co_object_id"

definition submit_rotation_tx ::
    "('key, 'tx, 'sg) tx_env \<Rightarrow> string \<Rightarrow> 'key \<Rightarrow> string \<Rightarrow> move_call list \<Rightarrow> (settlement_error, unit) result" where
  "submit_rotation_tx te rpc_url key label calls =
     (let sender = te_derive te key in
      and_then (map_err SRpc (te_client te rpc_url)) (\<lambda>_.
      and_then (map_err (\<lambda>e. SBuild (label @ '': '' @ e))
                 (te_build te \<lparr>ptb_sender = sender, ptb_calls = map MoveCall calls\<rparr>)) (\<lambda>tx.
      and_then (map_err SRpc (te_client te rpc_url)) (\<lambda>_.
      and_then (sign_and_execute te key tx label DEPLOY_TX_WAIT) (\<lambda>_. Ok ())))))"

section \<open>Properties\<close>

lemma into_checked_Ok [simp]: "into_checked r label = Ok r' \<longleftrightarrow> tr_success r \<and> r' = r"
  by (auto simp: into_checked_def)

lemma sign_and_execute_Ok:
  "sign_and_execute te key tx label w = Ok r \<longleftrightarrow>
    (\<exists>sg. te_sign te key tx = Ok sg \<and> te_execute te tx sg w = Ok r \<and> tr_success r)"
  by (auto simp: sign_and_execute_def split: sum.splits)

text \<open>A submit that reports success was built from exactly the given calls, signed by the
  given key, and executed without an on-chain abort.\<close>

lemma submit_rotation_tx_Ok:
  assumes "submit_rotation_tx te url key label calls = Ok ()"
  obtains tx sg r where
    "te_build te \<lparr>ptb_sender = te_derive te key, ptb_calls = map MoveCall calls\<rparr> = Ok tx"
    "te_sign te key tx = Ok sg" "te_execute te tx sg DEPLOY_TX_WAIT = Ok r" "tr_success r"
  using assms
  by (auto simp: submit_rotation_tx_def and_then_eq_Inr sign_and_execute_Ok Let_def)

end
