(* ===== verification/Inbox_Read.thy ===== *)
theory Inbox_Read
  imports Ptb
begin

text \<open>
  The force-inclusion inbox reader (\<open>crates/sui/src/inbox.rs\<close>): the transport interface with
  its production instance, the BCS mirrors of the on-chain objects, the typed reader, the
  inclusion window and the transactions that change it. A transport answers the \<open>n\<close>-th read
  of an operation, so a multi-read operation can observe a chain that moves between reads.
\<close>

section \<open>Transport\<close>

datatype inbox_error =
    InboxRpc string
  | InboxNotFound string
  | InboxParse string

fun inbox_error_display :: "inbox_error \<Rightarrow> string" where
  "inbox_error_display (InboxRpc e) = ''rpc error: '' @ e"
| "inbox_error_display (InboxNotFound e) = ''object not found: '' @ e"
| "inbox_error_display (InboxParse e) = ''parse error: '' @ e"

record transport =
  t_object :: "nat \<Rightarrow> address \<Rightarrow> (inbox_error, byte list) result"
  t_field :: "nat \<Rightarrow> address \<Rightarrow> u64 \<Rightarrow> (inbox_error, byte list option) result"

definition contains :: "string \<Rightarrow> string \<Rightarrow> bool" where
  "contains s p \<longleftrightarrow> (\<exists>i \<in> set [0..<Suc (length s)]. take (length p) (drop i s) = p)"

definition classify_read_error :: "settlement_error \<Rightarrow> inbox_error" where
  "classify_read_error e =
     (case e of
        SExecution msg \<Rightarrow>
          if contains msg ''not found'' \<or> contains msg ''no contents'' then InboxNotFound msg
          else InboxRpc (settlement_error_display e)
      | _ \<Rightarrow> InboxRpc (settlement_error_display e))"

definition sui_inbox_transport :: "rpc_env \<Rightarrow> string \<Rightarrow> transport" where
  "sui_inbox_transport env rpc_url =
     \<lparr>t_object = (\<lambda>n i. map_err classify_read_error (object_contents env n rpc_url i ''inbox'')),
      t_field = (\<lambda>n tbl key. map_err (\<lambda>e. InboxRpc (settlement_error_display e))
                               (field_contents env n rpc_url tbl key))\<rparr>"

section \<open>Decoders\<close>

record inbox_status =
  next_nonce :: u64
  included_count :: u64
  last_settled_ts :: u64
  pending_table_uid :: address

record pending_tx =
  deadline_ms :: u64
  tx_bytes :: "byte list"

text \<open>The BCS mirrors: \<open>InboxBcs\<close> and \<open>PendingTxBcs\<close>, the latter inside a
  \<open>Field<u64, PendingTx>\<close>.\<close>

record inbox_bcs =
  ib_id :: address
  ib_next_nonce :: u64
  ib_included_count :: u64
  ib_last_settled_ts :: u64
  ib_pending :: table_bcs

record pending_tx_bcs =
  pb_deadline_ms :: u64
  pb_tx_bytes :: "byte list"

definition parse_inbox_status ::
    "(byte list \<Rightarrow> (string, inbox_bcs) result) \<Rightarrow> byte list \<Rightarrow> (inbox_error, inbox_status) result" where
  "parse_inbox_status from_bytes contents =
     (case from_bytes contents of
        Inl e \<Rightarrow> Err (InboxParse (''inbox BCS: '' @ e))
      | Inr inbox \<Rightarrow> Ok \<lparr>next_nonce = ib_next_nonce inbox, included_count = ib_included_count inbox,
                        last_settled_ts = ib_last_settled_ts inbox,
                        pending_table_uid = tb_id (ib_pending inbox)\<rparr>)"

definition parse_pending_tx ::
    "(byte list \<Rightarrow> (string, pending_tx_bcs field_bcs) result) \<Rightarrow> byte list \<Rightarrow> (inbox_error, pending_tx) result" where
  "parse_pending_tx from_bytes field_bs =
     (case from_bytes field_bs of
        Inl e \<Rightarrow> Err (InboxParse (''pending-tx field BCS: '' @ e))
      | Inr field \<Rightarrow>
          if pb_tx_bytes (fb_value field) = [] then
            Err (InboxParse ''pending transaction has empty tx_bytes'')
          else Ok \<lparr>deadline_ms = pb_deadline_ms (fb_value field),
                   tx_bytes = pb_tx_bytes (fb_value field)\<rparr>)"

section \<open>Inclusion window\<close>

definition DEFAULT_WINDOW_MS :: u64 where "DEFAULT_WINDOW_MS = 600000"
definition MIN_WINDOW_MS :: u64 where "MIN_WINDOW_MS = 60000"
definition MAX_WINDOW_MS :: u64 where "MAX_WINDOW_MS = 3600000"
definition MIN_WIDEN_DELAY_MS :: u64 where "MIN_WIDEN_DELAY_MS = 600000"
definition MAX_WIDEN_DELAY_MS :: u64 where "MAX_WIDEN_DELAY_MS = 604800000"

definition WINDOW_KEY_BCS :: "byte list" where "WINDOW_KEY_BCS = []"

record pending_window =
  new_window_ms :: u64
  effective_at_ms :: u64

record window_view =
  override_ms :: "u64 option"
  wv_pending :: "pending_window option"
  effective_ms :: u64

definition window_field_id :: "rpc_env \<Rightarrow> address \<Rightarrow> address \<Rightarrow> address" where
  "window_field_id env inbox package =
     derive_dynamic_child_id env inbox (TagStruct package ''inbox'' ''WindowKey'') WINDOW_KEY_BCS"

definition pending_window_field_id :: "rpc_env \<Rightarrow> address \<Rightarrow> address \<Rightarrow> address" where
  "pending_window_field_id env inbox package =
     derive_dynamic_child_id env inbox (TagStruct package ''inbox'' ''PendingWindowKey'') WINDOW_KEY_BCS"

text \<open>A \<open>Field\<close> whose key is a unit struct has no name bytes.\<close>

record 'v unit_field_bcs =
  uf_id :: address
  uf_value :: 'v

definition parse_window_override ::
    "(byte list \<Rightarrow> (string, u64 unit_field_bcs) result) \<Rightarrow> byte list \<Rightarrow> (inbox_error, u64) result" where
  "parse_window_override from_bytes field_bs =
     (case from_bytes field_bs of
        Inl e \<Rightarrow> Err (InboxParse (''window field BCS: '' @ e))
      | Inr field \<Rightarrow> Ok (uf_value field))"

definition parse_pending_window ::
    "(byte list \<Rightarrow> (string, pending_window unit_field_bcs) result) \<Rightarrow> byte list \<Rightarrow>
     (inbox_error, pending_window) result" where
  "parse_pending_window from_bytes field_bs =
     (case from_bytes field_bs of
        Inl e \<Rightarrow> Err (InboxParse (''pending-window field BCS: '' @ e))
      | Inr field \<Rightarrow> Ok (uf_value field))"

definition effective_window_ms :: "u64 option \<Rightarrow> pending_window option \<Rightarrow> u64 \<Rightarrow> u64" where
  "effective_window_ms ovr pending now_ms =
     (case pending of
        Some staged \<Rightarrow>
          if now_ms \<ge> effective_at_ms staged then new_window_ms staged
          else (case ovr of Some v \<Rightarrow> v | None \<Rightarrow> DEFAULT_WINDOW_MS)
      | None \<Rightarrow> (case ovr of Some v \<Rightarrow> v | None \<Rightarrow> DEFAULT_WINDOW_MS))"

definition validate_window_change :: "u64 \<Rightarrow> u64 \<Rightarrow> (settlement_error, unit) result" where
  "validate_window_change new_window delay =
     (if \<not> (MIN_WINDOW_MS \<le> new_window \<and> new_window \<le> MAX_WINDOW_MS) then
        Err (SParse (''window '' @ show_u64 new_window @ '' ms outside ['' @
               show_u64 MIN_WINDOW_MS @ '', '' @ show_u64 MAX_WINDOW_MS @ '']''))
      else if delay \<noteq> 0 \<and> \<not> (MIN_WIDEN_DELAY_MS \<le> delay \<and> delay \<le> MAX_WIDEN_DELAY_MS) then
        Err (SParse (''widening delay '' @ show_u64 delay @ '' ms outside ['' @
               show_u64 MIN_WIDEN_DELAY_MS @ '', '' @ show_u64 MAX_WIDEN_DELAY_MS @
               ''] (0 = narrowing)''))
      else Ok ())"

section \<open>The reader\<close>

text \<open>The decoders a reader is instantiated with, one per mirrored struct.\<close>

record inbox_decoders =
  dec_inbox :: "byte list \<Rightarrow> (string, inbox_bcs) result"
  dec_pending :: "byte list \<Rightarrow> (string, pending_tx_bcs field_bcs) result"
  dec_window :: "byte list \<Rightarrow> (string, u64 unit_field_bcs) result"
  dec_pending_window :: "byte list \<Rightarrow> (string, pending_window unit_field_bcs) result"

definition reader_status ::
    "inbox_decoders \<Rightarrow> transport \<Rightarrow> address \<Rightarrow> nat \<Rightarrow> (inbox_error, inbox_status) result" where
  "reader_status d tr inbox n = and_then (t_object tr n inbox) (parse_inbox_status (dec_inbox d))"

definition reader_next_nonce ::
    "inbox_decoders \<Rightarrow> transport \<Rightarrow> address \<Rightarrow> nat \<Rightarrow> (inbox_error, u64) result" where
  "reader_next_nonce d tr inbox n = and_then (reader_status d tr inbox n) (\<lambda>s. Ok (next_nonce s))"

definition reader_pending_at ::
    "inbox_decoders \<Rightarrow> transport \<Rightarrow> address \<Rightarrow> nat \<Rightarrow> u64 \<Rightarrow> (inbox_error, pending_tx option) result" where
  "reader_pending_at d tr inbox n nonce =
     and_then (reader_status d tr inbox n) (\<lambda>s.
     and_then (t_field tr (n + 1) (pending_table_uid s) nonce) (\<lambda>f.
       case f of
         None \<Rightarrow> Ok None
       | Some bytes \<Rightarrow> and_then (parse_pending_tx (dec_pending d) bytes) (\<lambda>p. Ok (Some p))))"

text \<open>An absent object is \<open>None\<close>; every other failure propagates.\<close>

definition read_optional ::
    "transport \<Rightarrow> nat \<Rightarrow> address \<Rightarrow> (byte list \<Rightarrow> (inbox_error, 'a) result) \<Rightarrow> (inbox_error, 'a option) result" where
  "read_optional tr n i parse =
     (case t_object tr n i of
        Inr bytes \<Rightarrow> and_then (parse bytes) (\<lambda>x. Ok (Some x))
      | Inl (InboxNotFound _) \<Rightarrow> Ok None
      | Inl e \<Rightarrow> Err e)"

definition reader_window ::
    "rpc_env \<Rightarrow> inbox_decoders \<Rightarrow> transport \<Rightarrow> address \<Rightarrow> nat \<Rightarrow> address \<Rightarrow> u64 \<Rightarrow> (inbox_error, window_view) result" where
  "reader_window env d tr inbox n package now_ms =
     and_then (read_optional tr n (window_field_id env inbox package)
                 (parse_window_override (dec_window d))) (\<lambda>ovr.
     and_then (read_optional tr (n + 1) (pending_window_field_id env inbox package)
                 (parse_pending_window (dec_pending_window d))) (\<lambda>pending.
       Ok \<lparr>override_ms = ovr, wv_pending = pending,
           effective_ms = effective_window_ms ovr pending now_ms\<rparr>))"

section \<open>Window transactions\<close>

record window_targets =
  wt_package :: address
  wt_registry :: address
  wt_inbox :: address
  wt_ops_cap :: address

definition submit_window_change ::
    "('key, 'tx, 'sg) tx_env \<Rightarrow> string \<Rightarrow> 'key \<Rightarrow> window_targets \<Rightarrow> u64 \<Rightarrow> u64 \<Rightarrow> (settlement_error, unit) result" where
  "submit_window_change te rpc_url key targets new_window delay =
     and_then (validate_window_change new_window delay) (\<lambda>_.
       submit_rotation_tx te rpc_url key ''window change''
         [\<lparr>mc_package = wt_package targets, mc_module = ''settlement'',
           mc_function = ''request_window_change'',
           mc_args = [ArgObject (wt_registry targets), ArgObject (wt_inbox targets),
                      ArgObject SUI_CLOCK_ID, ArgU64 new_window, ArgU64 delay,
                      ArgObject (wt_ops_cap targets)]\<rparr>])"

definition submit_cancel_window_change ::
    "('key, 'tx, 'sg) tx_env \<Rightarrow> string \<Rightarrow> 'key \<Rightarrow> window_targets \<Rightarrow> (settlement_error, unit) result" where
  "submit_cancel_window_change te rpc_url key targets =
     submit_rotation_tx te rpc_url key ''window cancel''
       [\<lparr>mc_package = wt_package targets, mc_module = ''settlement'',
         mc_function = ''cancel_window_change'',
         mc_args = [ArgObject (wt_registry targets), ArgObject (wt_inbox targets),
                    ArgObject (wt_ops_cap targets)]\<rparr>]"

section \<open>Reference codecs of the mirrors\<close>

definition c_table :: "table_bcs codec" where
  "c_table = c_iso (\<lambda>(i, n). \<lparr>tb_id = i, tb_size = n\<rparr>) (\<lambda>t. (tb_id t, tb_size t)) (c_pair c_array c_u64)"

definition c_inbox :: "inbox_bcs codec" where
  "c_inbox =
     c_iso (\<lambda>(i, n, c, l, p). \<lparr>ib_id = i, ib_next_nonce = n, ib_included_count = c,
                              ib_last_settled_ts = l, ib_pending = p\<rparr>)
           (\<lambda>b. (ib_id b, ib_next_nonce b, ib_included_count b, ib_last_settled_ts b, ib_pending b))
           (c_pair c_array (c_pair c_u64 (c_pair c_u64 (c_pair c_u64 c_table))))"

definition c_pending_tx :: "pending_tx_bcs codec" where
  "c_pending_tx = c_iso (\<lambda>(d, t). \<lparr>pb_deadline_ms = d, pb_tx_bytes = t\<rparr>)
                    (\<lambda>p. (pb_deadline_ms p, pb_tx_bytes p)) (c_pair c_u64 c_bytes)"

definition c_field :: "'v codec \<Rightarrow> 'v field_bcs codec" where
  "c_field c = c_iso (\<lambda>(i, n, v). \<lparr>fb_id = i, fb_name = n, fb_value = v\<rparr>)
                 (\<lambda>f. (fb_id f, fb_name f, fb_value f)) (c_pair c_array (c_pair c_u64 c))"

definition c_unit_field :: "'v codec \<Rightarrow> 'v unit_field_bcs codec" where
  "c_unit_field c = c_iso (\<lambda>(i, v). \<lparr>uf_id = i, uf_value = v\<rparr>)
                      (\<lambda>f. (uf_id f, uf_value f)) (c_pair c_array c)"

definition c_pending_window :: "pending_window codec" where
  "c_pending_window = c_iso (\<lambda>(w, e). \<lparr>new_window_ms = w, effective_at_ms = e\<rparr>)
                        (\<lambda>p. (new_window_ms p, effective_at_ms p)) (c_pair c_u64 c_u64)"

lemma codec_ok_table [codec_oks]: "codec_ok c_table"
  unfolding c_table_def by (rule codec_ok_iso) (auto intro!: codec_oks)

lemma codec_ok_inbox [codec_oks]: "codec_ok c_inbox"
  unfolding c_inbox_def by (rule codec_ok_iso) (auto intro!: codec_oks)

lemma codec_ok_pending_tx [codec_oks]: "codec_ok c_pending_tx"
  unfolding c_pending_tx_def by (rule codec_ok_iso) (auto intro!: codec_oks)

lemma codec_ok_field [codec_oks]: "codec_ok c \<Longrightarrow> codec_ok (c_field c)"
  unfolding c_field_def by (rule codec_ok_iso) (auto intro!: codec_oks)

lemma codec_ok_unit_field [codec_oks]: "codec_ok c \<Longrightarrow> codec_ok (c_unit_field c)"
  unfolding c_unit_field_def by (rule codec_ok_iso) (auto intro!: codec_oks)

lemma codec_ok_pending_window [codec_oks]: "codec_ok c_pending_window"
  unfolding c_pending_window_def by (rule codec_ok_iso) (auto intro!: codec_oks)

interpretation inbox_obj: bcs_codec "bcs_to_bytes c_inbox" "bcs_from_bytes c_inbox"
  by (intro bcs_codec_ref codec_oks)

interpretation pending_field: bcs_codec "bcs_to_bytes (c_field c_pending_tx)" "bcs_from_bytes (c_field c_pending_tx)"
  by (intro bcs_codec_ref codec_oks)

definition ref_decoders :: inbox_decoders where
  "ref_decoders =
     \<lparr>dec_inbox = bcs_from_bytes c_inbox, dec_pending = bcs_from_bytes (c_field c_pending_tx),
      dec_window = bcs_from_bytes (c_unit_field c_u64),
      dec_pending_window = bcs_from_bytes (c_unit_field c_pending_window)\<rparr>"

text \<open>The documented BCS layout of the shared \<open>Inbox\<close> object.\<close>

definition inbox_layout :: "inbox_bcs \<Rightarrow> byte list" where
  "inbox_layout x =
     to_vec (ib_id x) @ to_le_bytes (ib_next_nonce x) @ to_le_bytes (ib_included_count x) @
     to_le_bytes (ib_last_settled_ts x) @ to_vec (tb_id (ib_pending x)) @
     to_le_bytes (tb_size (ib_pending x))"

lemma ref_inbox_layout: "bcs_from_bytes c_inbox bs = Ok x \<Longrightarrow> bs = inbox_layout x"
  unfolding inbox_obj.canonical
  by (auto simp: bcs_to_bytes_def c_inbox_def c_table_def codec_simps inbox_layout_def)

lemma dec_ref_inbox [simp]: "bcs_from_bytes c_inbox (inbox_layout x) = Ok x"
  unfolding inbox_obj.canonical
  by (simp add: bcs_to_bytes_def c_inbox_def c_table_def codec_simps inbox_layout_def)

section \<open>Properties\<close>

text \<open>
  the settlement client and the inbox reader agree on the settle cursor. Whenever the typed
  reader decodes an Inbox object, the hand-sliced cursor reader of the settlement client
  returns the same \<open>included_count\<close> from the same bytes.
\<close>

lemma cursor_readers_agree:
  assumes layout: "\<And>bs x. from_bytes bs = Ok x \<Longrightarrow> bs = inbox_layout x"
    and status: "parse_inbox_status from_bytes contents = Ok st"
  shows "parse_inbox_cursor contents = Ok (included_count st)"
proof -
  from status obtain x where x: "from_bytes contents = Ok x" "included_count st = ib_included_count x"
    by (auto simp: parse_inbox_status_def split: sum.splits)
  from layout [OF x(1)] show ?thesis
    by (simp add: parse_inbox_cursor_def inbox_layout_def x(2))
qed

definition sample_inbox :: inbox_bcs where
  "sample_inbox = \<lparr>ib_id = barr_fill 1, ib_next_nonce = 9, ib_included_count = 7,
     ib_last_settled_ts = 1000, ib_pending = \<lparr>tb_id = barr_fill 2, tb_size = 2\<rparr>\<rparr>"

lemma cursor_readers_agree_witness:
  "parse_inbox_cursor (inbox_layout sample_inbox) = Ok 7"
  using cursor_readers_agree [where from_bytes = "bcs_from_bytes c_inbox" and
      contents = "inbox_layout sample_inbox" and st =
      "\<lparr>next_nonce = 9, included_count = 7, last_settled_ts = 1000, pending_table_uid = barr_fill 2\<rparr>",
      OF ref_inbox_layout]
  by (simp add: parse_inbox_status_def) (simp add: sample_inbox_def)

lemma classify_not_found [simp]:
  "classify_read_error (SExecution ''inbox object not found'') = InboxNotFound ''inbox object not found''"
  "classify_read_error (SExecution ''inbox has no contents'') = InboxNotFound ''inbox has no contents''"
  by (simp_all add: classify_read_error_def, code_simp+)

lemma classify_rpc [simp]: "classify_read_error (SRpc e) = InboxRpc (''rpc error: '' @ e)"
  by (simp add: classify_read_error_def)

text \<open>
  Fail-closed reads. The production transport reports an object as not found exactly when
  the chain answered that the object, or its contents, is absent. A client that cannot be
  built and a failed request surface as RPC errors, so no outage is ever read as absence.
\<close>

theorem not_found_iff_absent:
  "(\<exists>m. t_object (sui_inbox_transport env url) n i = Err (InboxNotFound m)) \<longleftrightarrow>
     rpc_new env url = Ok () \<and> (get_object env n i = Ok None \<or> get_object env n i = Ok (Some None))"
  by (auto simp: sui_inbox_transport_def object_contents_def split: sum.splits option.splits)

lemma read_optional_Ok:
  "read_optional tr n i parse = Ok x \<longleftrightarrow>
     (case x of
        None \<Rightarrow> (\<exists>m. t_object tr n i = Err (InboxNotFound m))
      | Some y \<Rightarrow> (\<exists>bs. t_object tr n i = Ok bs \<and> parse bs = Ok y))"
  by (cases x) (auto simp: read_optional_def and_then_eq_Inr split: sum.splits inbox_error.splits)

lemma effective_window_bounds:
  assumes "\<And>v. ovr = Some v \<Longrightarrow> MIN_WINDOW_MS \<le> v \<and> v \<le> MAX_WINDOW_MS"
    and "\<And>p. pending = Some p \<Longrightarrow> MIN_WINDOW_MS \<le> new_window_ms p \<and> new_window_ms p \<le> MAX_WINDOW_MS"
  shows "MIN_WINDOW_MS \<le> effective_window_ms ovr pending now \<and>
    effective_window_ms ovr pending now \<le> MAX_WINDOW_MS"
proof -
  have d: "MIN_WINDOW_MS \<le> DEFAULT_WINDOW_MS \<and> DEFAULT_WINDOW_MS \<le> MAX_WINDOW_MS"
    by (simp add: MIN_WINDOW_MS_def MAX_WINDOW_MS_def DEFAULT_WINDOW_MS_def)
  show ?thesis using assms d
    by (auto simp: effective_window_ms_def split: option.splits)
qed

end
