(* ===== verification/Contract.thy ===== *)
theory Contract
  imports Inbox_Read
begin

text \<open>
  The on-chain counterpart of the node: the force-inclusion inbox (\<open>move/sources/inbox.move\<close>)
  and the settle gate of the registry (\<open>move/sources/settlement.move\<close>). The Rust components
  read the state these functions produce and submit the calls that change it. A Move
  \<open>assert!\<close> or arithmetic overflow aborts the transaction: the functions return the abort.
\<close>

section \<open>State\<close>

datatype abort =
    E_EMPTY_TX
  | E_CURSOR_REGRESSION
  | E_CURSOR_TOO_HIGH
  | E_TIMESTAMP_REGRESSION
  | E_DEADLINE_EXCEEDED
  | E_WINDOW_OUT_OF_BOUNDS
  | E_DELAY_OUT_OF_BOUNDS
  | E_NO_PENDING_WINDOW
  | E_INVALID_HEIGHT
  | E_CONFLICTING_BLOB
  | E_STATE_ROOT_MALFORMED
  | E_STATE_ROOT_HEIGHT
  | E_STATE_ROOT_CONFLICT
  | ARITHMETIC_ERROR
  | FIELD_DOES_NOT_EXIST
  | FIELD_ALREADY_EXISTS

record move_inbox =
  mi_id :: address
  mi_next_nonce :: u64
  mi_included_count :: u64
  mi_last_settled_ts :: u64
  mi_table :: address
  mi_pending :: "u64 \<rightharpoonup> pending_tx"
  mi_window :: "u64 option"
  mi_pending_window :: "pending_window option"

record move_registry =
  mr_latest_height :: u64
  mr_commitments :: "u64 \<rightharpoonup> byte list"
  mr_state_roots :: "u64 \<rightharpoonup> byte list"

record chain =
  ch_clock :: u64
  ch_inbox :: move_inbox
  ch_registry :: move_registry

definition move_add :: "u64 \<Rightarrow> u64 \<Rightarrow> (abort, u64) result" where
  "move_add a b = (if unat a + unat b < 2 ^ 64 then Ok (a + b) else Err ARITHMETIC_ERROR)"

definition table_add :: "('k \<rightharpoonup> 'v) \<Rightarrow> 'k \<Rightarrow> 'v \<Rightarrow> (abort, 'k \<rightharpoonup> 'v) result" where
  "table_add t k v = (case t k of None \<Rightarrow> Ok (t(k \<mapsto> v)) | Some _ \<Rightarrow> Err FIELD_ALREADY_EXISTS)"

section \<open>Inbox\<close>

definition move_effective_window :: "move_inbox \<Rightarrow> u64 \<Rightarrow> u64" where
  "move_effective_window ib clock =
     (let base = (case mi_window ib of Some w \<Rightarrow> w | None \<Rightarrow> DEFAULT_WINDOW_MS) in
      case mi_pending_window ib of
        Some p \<Rightarrow> if clock \<ge> effective_at_ms p then new_window_ms p else base
      | None \<Rightarrow> base)"

definition move_submit :: "move_inbox \<Rightarrow> u64 \<Rightarrow> byte list \<Rightarrow> (abort, move_inbox) result" where
  "move_submit ib clock bytes =
     (if bytes = [] then Err E_EMPTY_TX
      else and_then (move_add clock (move_effective_window ib clock)) (\<lambda>deadline.
           and_then (table_add (mi_pending ib) (mi_next_nonce ib)
                       \<lparr>deadline_ms = deadline, tx_bytes = bytes\<rparr>) (\<lambda>pending.
           and_then (move_add (mi_next_nonce ib) 1) (\<lambda>nn.
             Ok (ib\<lparr>mi_pending := pending, mi_next_nonce := nn\<rparr>)))))"

definition move_stage_window_change ::
    "move_inbox \<Rightarrow> u64 \<Rightarrow> u64 \<Rightarrow> u64 \<Rightarrow> (abort, move_inbox) result" where
  "move_stage_window_change ib new_window delay clock =
     (if \<not> (MIN_WINDOW_MS \<le> new_window \<and> new_window \<le> MAX_WINDOW_MS) then Err E_WINDOW_OUT_OF_BOUNDS
      else if new_window \<le> move_effective_window ib clock then
        Ok (ib\<lparr>mi_pending_window := None, mi_window := Some new_window\<rparr>)
      else if \<not> (MIN_WIDEN_DELAY_MS \<le> delay \<and> delay \<le> MAX_WIDEN_DELAY_MS) then
        Err E_DELAY_OUT_OF_BOUNDS
      else and_then (move_add clock delay) (\<lambda>at.
        Ok (ib\<lparr>mi_pending_window := Some \<lparr>new_window_ms = new_window, effective_at_ms = at\<rparr>\<rparr>)))"

definition move_cancel_window_change :: "move_inbox \<Rightarrow> (abort, move_inbox) result" where
  "move_cancel_window_change ib =
     (case mi_pending_window ib of
        None \<Rightarrow> Err E_NO_PENDING_WINDOW
      | Some _ \<Rightarrow> Ok (ib\<lparr>mi_pending_window := None\<rparr>))"

text \<open>The pruning loop of \<open>enforce_settle\<close>.\<close>

function prune :: "u64 \<Rightarrow> u64 \<Rightarrow> (u64 \<rightharpoonup> pending_tx) \<Rightarrow> (abort, u64 \<rightharpoonup> pending_tx) result" where
  "prune nonce cursor pending =
     (if nonce < cursor then
        (case pending nonce of
           None \<Rightarrow> Err FIELD_DOES_NOT_EXIST
         | Some _ \<Rightarrow> prune (nonce + 1) cursor (pending(nonce := None)))
      else Ok pending)"
  by auto

lemma unat_Suc_less: "(a :: u64) < b \<Longrightarrow> unat (a + 1) = Suc (unat a)"
proof -
  assume "a < b"
  then have "unat a < unat b" by (simp add: word_less_nat_alt)
  moreover have "unat b < 2 ^ 64" by (rule unat_u64_less)
  ultimately show ?thesis by (simp add: unat_word_ariths)
qed

termination prune
  by (relation "measure (\<lambda>(n, c, _). unat c - unat n)")
     (auto simp: unat_Suc_less word_less_nat_alt)

declare prune.simps [simp del]

definition enforce_settle :: "move_inbox \<Rightarrow> u64 \<Rightarrow> u64 \<Rightarrow> (abort, move_inbox) result" where
  "enforce_settle ib block_ts cursor =
     (if \<not> mi_included_count ib \<le> cursor then Err E_CURSOR_REGRESSION
      else if \<not> cursor \<le> mi_next_nonce ib then Err E_CURSOR_TOO_HIGH
      else if \<not> mi_last_settled_ts ib \<le> block_ts then Err E_TIMESTAMP_REGRESSION
      else
        and_then (prune (mi_included_count ib) cursor (mi_pending ib)) (\<lambda>pending.
          let ib' = ib\<lparr>mi_pending := pending, mi_included_count := cursor,
                       mi_last_settled_ts := block_ts\<rparr> in
          case pending cursor of
            Some oldest \<Rightarrow> if block_ts \<le> deadline_ms oldest then Ok ib' else Err E_DEADLINE_EXCEEDED
          | None \<Rightarrow> Ok ib'))"

section \<open>Registry\<close>

definition do_settle ::
    "move_registry \<Rightarrow> move_inbox \<Rightarrow> byte list \<Rightarrow> u64 \<Rightarrow> u64 \<Rightarrow> u64 \<Rightarrow>
     (abort, move_registry \<times> move_inbox) result" where
  "do_settle reg ib blob ht block_ts cursor =
     (if ht = mr_latest_height reg then
        (case mr_commitments reg ht of
           None \<Rightarrow> Err FIELD_DOES_NOT_EXIST
         | Some b \<Rightarrow> if b = blob then Ok (reg, ib) else Err E_CONFLICTING_BLOB)
      else
        and_then (move_add (mr_latest_height reg) 1) (\<lambda>next.
          if ht \<noteq> next then Err E_INVALID_HEIGHT
          else and_then (enforce_settle ib block_ts cursor) (\<lambda>ib'.
               and_then (table_add (mr_commitments reg) ht blob) (\<lambda>cs.
                 Ok (reg\<lparr>mr_commitments := cs, mr_latest_height := ht\<rparr>, ib')))))"

definition commit_state_root ::
    "move_registry \<Rightarrow> u64 \<Rightarrow> byte list \<Rightarrow> (abort, move_registry) result" where
  "commit_state_root reg ht root =
     (if length root \<noteq> 32 then Err E_STATE_ROOT_MALFORMED
      else if ht \<noteq> mr_latest_height reg then Err E_STATE_ROOT_HEIGHT
      else case mr_state_roots reg ht of
        Some r \<Rightarrow> if r = root then Ok reg else Err E_STATE_ROOT_CONFLICT
      | None \<Rightarrow> Ok (reg\<lparr>mr_state_roots := (mr_state_roots reg)(ht \<mapsto> root)\<rparr>))"

section \<open>Runs of the chain\<close>

text \<open>One transaction, or the consensus clock moving forward. Transactions of the steering
  authority and of users interleave freely with the sequencer's settles.\<close>

inductive chain_step :: "chain \<Rightarrow> chain \<Rightarrow> bool" where
  idle: "chain_step c c"
| tick: "ch_clock c \<le> t \<Longrightarrow> chain_step c (c\<lparr>ch_clock := t\<rparr>)"
| submit: "move_submit (ch_inbox c) (ch_clock c) bytes = Ok ib \<Longrightarrow> chain_step c (c\<lparr>ch_inbox := ib\<rparr>)"
| stage: "move_stage_window_change (ch_inbox c) w d (ch_clock c) = Ok ib \<Longrightarrow>
    chain_step c (c\<lparr>ch_inbox := ib\<rparr>)"
| cancel: "move_cancel_window_change (ch_inbox c) = Ok ib \<Longrightarrow> chain_step c (c\<lparr>ch_inbox := ib\<rparr>)"
| settle: "do_settle (ch_registry c) (ch_inbox c) blob h ts cur = Ok (reg, ib) \<Longrightarrow>
    chain_step c (c\<lparr>ch_registry := reg, ch_inbox := ib\<rparr>)"
| root: "commit_state_root (ch_registry c) h r = Ok reg \<Longrightarrow> chain_step c (c\<lparr>ch_registry := reg\<rparr>)"

inductive_cases chain_stepE: "chain_step c c'"

definition genesis :: "address \<Rightarrow> address \<Rightarrow> u64 \<Rightarrow> chain" where
  "genesis inbox_id table_id clock =
     \<lparr>ch_clock = clock,
      ch_inbox = \<lparr>mi_id = inbox_id, mi_next_nonce = 0, mi_included_count = 0, mi_last_settled_ts = 0,
                  mi_table = table_id, mi_pending = Map.empty, mi_window = None,
                  mi_pending_window = None\<rparr>,
      ch_registry = \<lparr>mr_latest_height = 0, mr_commitments = Map.empty, mr_state_roots = Map.empty\<rparr>\<rparr>"

text \<open>The well-formedness of a chain state: the pending table holds exactly the nonces between
  the cursor and the next nonce, and the commitments exactly the heights up to the tip.\<close>

definition chain_inv :: "chain \<Rightarrow> bool" where
  "chain_inv c \<longleftrightarrow>
     mi_included_count (ch_inbox c) \<le> mi_next_nonce (ch_inbox c) \<and>
     dom (mi_pending (ch_inbox c)) = {mi_included_count (ch_inbox c)..<mi_next_nonce (ch_inbox c)} \<and>
     (\<forall>p \<in> ran (mi_pending (ch_inbox c)). tx_bytes p \<noteq> []) \<and>
     dom (mr_commitments (ch_registry c)) = {0<..mr_latest_height (ch_registry c)}"

lemma chain_inv_genesis [simp]: "chain_inv (genesis i t k)"
  by (auto simp: chain_inv_def genesis_def)

lemma move_add_Ok: "move_add a b = Ok s \<longleftrightarrow> s = a + b \<and> unat a + unat b < 2 ^ 64"
  by (auto simp: move_add_def)

lemma table_add_Ok: "table_add t k v = Ok t' \<longleftrightarrow> k \<notin> dom t \<and> t' = t(k \<mapsto> v)"
  by (auto simp: table_add_def split: option.splits)

lemma u64_interval_step:
  assumes "(n :: u64) < c"
  shows "{n..<c} = insert n {n + 1..<c}"
proof -
  have "n \<le> k \<longleftrightarrow> k = n \<or> n + 1 \<le> k" for k
  proof -
    have "unat n \<le> unat k \<longleftrightarrow> unat k = unat n \<or> Suc (unat n) \<le> unat k" by linarith
    then show ?thesis
      unfolding word_le_nat_alt unat_Suc_less [OF assms] word_unat_eq_iff .
  qed
  with assms show ?thesis by auto
qed

lemma prune_Ok:
  "prune n c m = Ok m' \<longleftrightarrow> {n..<c} \<subseteq> dom m \<and> m' = (\<lambda>k. if k \<in> {n..<c} then None else m k)"
proof (induction n c m rule: prune.induct)
  case (1 n c m)
  show ?case
  proof (cases "n < c")
    case False
    then have "{n..<c} = {}" by auto
    with False show ?thesis by (auto simp: prune.simps [of n c m])
  next
    case True
    note split = u64_interval_step [OF True]
    have notin: "n \<notin> {n + 1..<c}"
      using unat_Suc_less [OF True] by (simp add: word_le_nat_alt)
    show ?thesis
    proof (cases "m n")
      case None
      with True show ?thesis by (auto simp: prune.simps [of n c m] split)
    next
      case (Some p)
      have IH: "prune (n + 1) c (m(n := None)) = Ok m' \<longleftrightarrow> {n + 1..<c} \<subseteq> dom (m(n := None)) \<and>
          m' = (\<lambda>k. if k \<in> {n + 1..<c} then None else (m(n := None)) k)"
        using 1 [OF True Some] .
      have eq: "prune n c m = prune (n + 1) c (m(n := None))"
        using True Some by (simp add: prune.simps [of n c m])
      have dom: "{n + 1..<c} \<subseteq> dom (m(n := None)) \<longleftrightarrow> insert n {n + 1..<c} \<subseteq> dom m"
        using notin Some by auto
      show ?thesis unfolding eq IH dom split
        by (auto intro!: ext)
    qed
  qed
qed

lemma enforce_settle_Ok:
  "enforce_settle ib ts cur = Ok ib' \<longleftrightarrow>
     mi_included_count ib \<le> cur \<and> cur \<le> mi_next_nonce ib \<and> mi_last_settled_ts ib \<le> ts \<and>
     {mi_included_count ib..<cur} \<subseteq> dom (mi_pending ib) \<and>
     (\<forall>p. mi_pending ib cur = Some p \<longrightarrow> ts \<le> deadline_ms p) \<and>
     ib' = ib\<lparr>mi_pending := (\<lambda>k. if k \<in> {mi_included_count ib..<cur} then None else mi_pending ib k),
             mi_included_count := cur, mi_last_settled_ts := ts\<rparr>"
  by (auto simp: enforce_settle_def and_then_eq_Inr prune_Ok Let_def split: if_splits option.splits)

section \<open>Invariant and history order\<close>

lemma u64_succ_interval:
  assumes "unat (n :: u64) + 1 < 2 ^ 64"
  shows "{a..<n + 1} = (if a \<le> n then insert n {a..<n} else {})" "{a<..n + 1} = (if a \<le> n then insert (n + 1) {a<..n} else {})"
proof -
  have u: "unat (n + 1) = Suc (unat n)" using assms by (simp add: unat_word_ariths)
  have lt: "k < n + 1 \<longleftrightarrow> k = n \<or> k < n" for k
    unfolding word_less_nat_alt u word_unat_eq_iff by linarith
  have le: "k \<le> n + 1 \<longleftrightarrow> k = n + 1 \<or> k \<le> n" for k
    unfolding word_le_nat_alt u word_unat_eq_iff by linarith
  have na: "a < n + 1 \<longleftrightarrow> a \<le> n" unfolding word_le_nat_alt word_less_nat_alt u by linarith
  show "{a..<n + 1} = (if a \<le> n then insert n {a..<n} else {})"
    by (intro set_eqI, unfold atLeastLessThan_iff lt) (use na in \<open>force split: if_splits\<close>)
  show "{a<..n + 1} = (if a \<le> n then insert (n + 1) {a<..n} else {})"
    by (intro set_eqI, unfold greaterThanAtMost_iff le) (use na in \<open>force split: if_splits\<close>)
qed

lemma move_submit_Ok:
  "move_submit ib clock bytes = Ok ib' \<longleftrightarrow>
     bytes \<noteq> [] \<and> unat clock + unat (move_effective_window ib clock) < 2 ^ 64 \<and>
     mi_next_nonce ib \<notin> dom (mi_pending ib) \<and> unat (mi_next_nonce ib) + 1 < 2 ^ 64 \<and>
     ib' = ib\<lparr>mi_pending := (mi_pending ib)(mi_next_nonce ib \<mapsto>
                \<lparr>deadline_ms = clock + move_effective_window ib clock, tx_bytes = bytes\<rparr>),
             mi_next_nonce := mi_next_nonce ib + 1\<rparr>"
  by (auto simp: move_submit_def and_then_eq_Inr move_add_Ok table_add_Ok)

lemma move_window_Ok:
  "move_stage_window_change ib w d clock = Ok ib' \<Longrightarrow> \<exists>v p. ib' = ib\<lparr>mi_window := v, mi_pending_window := p\<rparr>"
  "move_cancel_window_change ib = Ok ib' \<Longrightarrow> ib' = ib\<lparr>mi_pending_window := None\<rparr>"
proof -
  assume ok: "move_stage_window_change ib w d clock = Ok ib'"
  consider "ib' = ib\<lparr>mi_pending_window := None, mi_window := Some w\<rparr>"
    | x where "ib' = ib\<lparr>mi_pending_window := Some x\<rparr>"
    using ok by (auto simp: move_stage_window_change_def and_then_eq_Inr split: if_splits)
  then show "\<exists>v p. ib' = ib\<lparr>mi_window := v, mi_pending_window := p\<rparr>"
  proof cases
    case 1
    then have "ib' = ib\<lparr>mi_window := Some w, mi_pending_window := None\<rparr>" by simp
    then show ?thesis by blast
  next
    case (2 x)
    then have "ib' = ib\<lparr>mi_window := mi_window ib, mi_pending_window := Some x\<rparr>" by simp
    then show ?thesis by blast
  qed
qed (simp add: move_cancel_window_change_def split: option.splits)

lemma do_settle_Ok:
  "do_settle reg ib blob ht ts cur = Ok (reg', ib') \<longleftrightarrow>
     (ht = mr_latest_height reg \<and> mr_commitments reg ht = Some blob \<and> reg' = reg \<and> ib' = ib) \<or>
     (ht \<noteq> mr_latest_height reg \<and> unat (mr_latest_height reg) + 1 < 2 ^ 64 \<and>
      ht = mr_latest_height reg + 1 \<and> enforce_settle ib ts cur = Ok ib' \<and>
      ht \<notin> dom (mr_commitments reg) \<and>
      reg' = reg\<lparr>mr_commitments := (mr_commitments reg)(ht \<mapsto> blob), mr_latest_height := ht\<rparr>)"
  by (auto simp: do_settle_def and_then_eq_Inr move_add_Ok table_add_Ok split: option.splits if_splits)

lemma enforce_settle_window:
  assumes "enforce_settle ib ts cur = Ok ib'"
    and "mi_included_count ib \<le> mi_next_nonce ib"
    and "dom (mi_pending ib) = {mi_included_count ib..<mi_next_nonce ib}"
  shows "mi_included_count ib' \<le> mi_next_nonce ib'"
    and "dom (mi_pending ib') = {mi_included_count ib'..<mi_next_nonce ib'}"
    and "ran (mi_pending ib') \<subseteq> ran (mi_pending ib)"
proof -
  from assms(1) have f: "mi_included_count ib \<le> cur" "cur \<le> mi_next_nonce ib"
    and ib': "mi_included_count ib' = cur" "mi_next_nonce ib' = mi_next_nonce ib"
      "mi_pending ib' = (\<lambda>k. if k \<in> {mi_included_count ib..<cur} then None else mi_pending ib k)"
    by (auto simp: enforce_settle_Ok)
  show "mi_included_count ib' \<le> mi_next_nonce ib'" using f ib' by simp
  have "dom (mi_pending ib') = dom (mi_pending ib) - {mi_included_count ib..<cur}"
    unfolding ib' by (auto split: if_splits)
  also have "\<dots> = {cur..<mi_next_nonce ib}"
    unfolding assms(3) using f by auto
  finally show "dom (mi_pending ib') = {mi_included_count ib'..<mi_next_nonce ib'}"
    by (simp add: ib')
  show "ran (mi_pending ib') \<subseteq> ran (mi_pending ib)"
    unfolding ib' by (auto simp: ran_def split: if_splits)
qed

lemma chain_inv_submit:
  assumes "move_submit (ch_inbox c) (ch_clock c) bytes = Ok ib" and inv: "chain_inv c"
  shows "chain_inv (c\<lparr>ch_inbox := ib\<rparr>)"
proof -
  let ?i = "ch_inbox c"
  have n: "unat (mi_next_nonce ?i) + 1 < 2 ^ 64" and b: "bytes \<noteq> []"
    and ib: "ib = ?i\<lparr>mi_pending := (mi_pending ?i)(mi_next_nonce ?i \<mapsto>
                \<lparr>deadline_ms = ch_clock c + move_effective_window ?i (ch_clock c), tx_bytes = bytes\<rparr>),
             mi_next_nonce := mi_next_nonce ?i + 1\<rparr>"
    using assms(1) unfolding move_submit_Ok by blast+
  have le: "mi_next_nonce ?i \<le> mi_next_nonce ?i + 1"
    unfolding word_le_nat_alt using n by (simp add: unat_word_ariths)
  from inv have i: "mi_included_count ?i \<le> mi_next_nonce ?i"
    and d: "dom (mi_pending ?i) = {mi_included_count ?i..<mi_next_nonce ?i}"
    and r: "\<forall>p \<in> ran (mi_pending ?i). tx_bytes p \<noteq> []"
    and c: "dom (mr_commitments (ch_registry c)) = {0<..mr_latest_height (ch_registry c)}"
    by (simp_all add: chain_inv_def)
  have "mi_next_nonce ?i \<notin> dom (mi_pending ?i)" by (simp add: d)
  then have "mi_pending ?i (mi_next_nonce ?i) = None" by blast
  then have r': "\<forall>p \<in> ran (mi_pending ib). tx_bytes p \<noteq> []"
    using r b by (simp add: ib)
  have i': "mi_included_count ib \<le> mi_next_nonce ib" using i le by (simp add: ib)
  have d': "dom (mi_pending ib) = {mi_included_count ib..<mi_next_nonce ib}"
    using i by (simp add: ib d u64_succ_interval [OF n])
  show ?thesis using i' d' r' c by (simp add: chain_inv_def)
qed

lemma chain_inv_settle:
  assumes "do_settle (ch_registry c) (ch_inbox c) blob h ts cur = Ok (reg, ib)" and inv: "chain_inv c"
  shows "chain_inv (c\<lparr>ch_registry := reg, ch_inbox := ib\<rparr>)"
  using assms(1) unfolding do_settle_Ok
proof (elim disjE conjE)
  assume "reg = ch_registry c" "ib = ch_inbox c"
  with inv show ?thesis by (simp add: chain_inv_def)
next
  assume n: "unat (mr_latest_height (ch_registry c)) + 1 < 2 ^ 64"
    and h: "h = mr_latest_height (ch_registry c) + 1"
    and e: "enforce_settle (ch_inbox c) ts cur = Ok ib"
    and reg: "reg = (ch_registry c)\<lparr>mr_commitments := (mr_commitments (ch_registry c))(h \<mapsto> blob), mr_latest_height := h\<rparr>"
  from inv have i: "mi_included_count (ch_inbox c) \<le> mi_next_nonce (ch_inbox c)"
      "dom (mi_pending (ch_inbox c)) = {mi_included_count (ch_inbox c)..<mi_next_nonce (ch_inbox c)}"
    and r: "\<forall>p \<in> ran (mi_pending (ch_inbox c)). tx_bytes p \<noteq> []"
    and c: "dom (mr_commitments (ch_registry c)) = {0<..mr_latest_height (ch_registry c)}"
    by (simp_all add: chain_inv_def)
  note w = enforce_settle_window [OF e i]
  have "dom (mr_commitments reg) = {0<..mr_latest_height reg}"
    by (simp add: reg c h u64_succ_interval [OF n])
  then show ?thesis using w r by (auto simp: chain_inv_def)
qed

lemma chain_step_inv: "chain_step c c' \<Longrightarrow> chain_inv c \<Longrightarrow> chain_inv c'"
proof (induction rule: chain_step.induct)
  case (submit c bytes ib)
  then show ?case by (rule chain_inv_submit)
next
  case (settle c blob h ts cur reg ib)
  then show ?case by (rule chain_inv_settle)
next
  case (stage c w d ib)
  from move_window_Ok(1) [OF stage(1)] obtain v p where "ib = (ch_inbox c)\<lparr>mi_window := v, mi_pending_window := p\<rparr>"
    by blast
  with stage show ?case by (simp add: chain_inv_def)
next
  case (cancel c ib)
  then show ?case by (simp add: chain_inv_def move_window_Ok(2) [OF cancel(1)])
next
  case (root c h r reg)
  then have "mr_commitments reg = mr_commitments (ch_registry c)"
    "mr_latest_height reg = mr_latest_height (ch_registry c)"
    by (auto simp: commit_state_root_def split: if_splits option.splits)
  with root show ?case by (simp add: chain_inv_def)
qed (auto simp: chain_inv_def)

text \<open>How a later state relates to an earlier one: identities are kept, clock, cursor, next
  nonce and witness only grow, a nonce below the earlier \<open>next_nonce\<close> is never re-filled,
  and a recorded commitment never changes.\<close>

definition chain_le :: "chain \<Rightarrow> chain \<Rightarrow> bool" where
  "chain_le c c' \<longleftrightarrow>
     mi_id (ch_inbox c') = mi_id (ch_inbox c) \<and> mi_table (ch_inbox c') = mi_table (ch_inbox c) \<and>
     ch_clock c \<le> ch_clock c' \<and>
     mi_included_count (ch_inbox c) \<le> mi_included_count (ch_inbox c') \<and>
     mi_next_nonce (ch_inbox c) \<le> mi_next_nonce (ch_inbox c') \<and>
     mi_last_settled_ts (ch_inbox c) \<le> mi_last_settled_ts (ch_inbox c') \<and>
     (\<forall>k p. mi_pending (ch_inbox c') k = Some p \<longrightarrow> k < mi_next_nonce (ch_inbox c) \<longrightarrow>
        mi_pending (ch_inbox c) k = Some p) \<and>
     mr_commitments (ch_registry c) \<subseteq>\<^sub>m mr_commitments (ch_registry c')"

lemma chain_le_refl [simp]: "chain_le c c"
  by (simp add: chain_le_def)

lemma chain_le_trans:
  assumes "chain_le a b" "chain_le b c"
  shows "chain_le a c"
proof -
  have "mi_pending (ch_inbox a) k = Some p"
    if "mi_pending (ch_inbox c) k = Some p" "k < mi_next_nonce (ch_inbox a)" for k p
  proof -
    have "k < mi_next_nonce (ch_inbox b)" using assms that(2) by (auto simp: chain_le_def)
    with that assms show ?thesis by (simp add: chain_le_def)
  qed
  then show ?thesis using assms
    by (auto simp: chain_le_def intro: order_trans map_le_trans)
qed

lemma chain_step_le: "chain_step c c' \<Longrightarrow> chain_le c c'"
proof (induction rule: chain_step.induct)
  case (submit c bytes ib)
  then have n: "unat (mi_next_nonce (ch_inbox c)) + 1 < 2 ^ 64" by (simp add: move_submit_Ok)
  have "mi_next_nonce (ch_inbox c) \<le> mi_next_nonce (ch_inbox c) + 1"
    unfolding word_le_nat_alt using n by (simp add: unat_word_ariths)
  with submit show ?case by (auto simp: move_submit_Ok chain_le_def)
next
  case (settle c blob h ts cur reg ib)
  then show ?case unfolding do_settle_Ok
    by (elim disjE conjE) (auto simp: chain_le_def enforce_settle_Ok map_le_def split: if_splits)
next
  case (stage c w d ib)
  from move_window_Ok(1) [OF stage(1)] obtain v p where "ib = (ch_inbox c)\<lparr>mi_window := v, mi_pending_window := p\<rparr>"
    by blast
  then show ?case by (simp add: chain_le_def)
next
  case (cancel c ib)
  then show ?case by (simp add: chain_le_def move_window_Ok(2) [OF cancel])
next
  case (root c h r reg)
  then show ?case by (auto simp: commit_state_root_def chain_le_def split: if_splits option.splits)
qed (auto simp: chain_le_def)

lemma chain_reachable_inv: "chain_step\<^sup>*\<^sup>* c c' \<Longrightarrow> chain_inv c \<Longrightarrow> chain_inv c'"
  by (induction rule: rtranclp_induct) (auto intro: chain_step_inv)

lemma chain_reachable_le: "chain_step\<^sup>*\<^sup>* c c' \<Longrightarrow> chain_le c c'"
  by (induction rule: rtranclp_induct) (auto intro: chain_le_trans chain_step_le)

end
