(* ===== verification/State_Root.thy ===== *)
theory State_Root
  imports Contract
begin

text \<open>
  Settled state roots (\<open>crates/sui/src/state_root.rs\<close>): the payload of the commit command, its
  client-side validation, and the reader of anchored roots.
\<close>

section \<open>Operations\<close>

definition STATE_ROOT_LEN :: nat where "STATE_ROOT_LEN = 32"

definition state_root_command :: "bool \<Rightarrow> header \<Rightarrow> byte list option" where
  "state_root_command enabled h = (if enabled then Some (to_vec (state_root h)) else None)"

definition validate_state_root :: "byte list \<Rightarrow> (inbox_error, unit) result" where
  "validate_state_root root =
     (if length root = STATE_ROOT_LEN then Ok ()
      else Err (InboxParse (''state root must be '' @ show_nat STATE_ROOT_LEN @ '' bytes, got '' @
                  show_nat (length root))))"

definition state_root_field_id :: "rpc_env \<Rightarrow> address \<Rightarrow> address \<Rightarrow> u64 \<Rightarrow> address" where
  "state_root_field_id env registry package ht =
     derive_dynamic_child_id env registry (TagStruct package ''settlement'' ''StateRootKey'') (to_le_bytes ht)"

definition parse_state_root_field ::
    "(byte list \<Rightarrow> (string, byte list field_bcs) result) \<Rightarrow> byte list \<Rightarrow> (inbox_error, hash) result" where
  "parse_state_root_field from_bytes bs =
     (case from_bytes bs of
        Inl e \<Rightarrow> Err (InboxParse (''state-root field BCS: '' @ e))
      | Inr field \<Rightarrow>
          if length (fb_value field) \<noteq> STATE_ROOT_LEN then
            Err (InboxParse (''state root must be '' @ show_nat STATE_ROOT_LEN @ '' bytes, got '' @
                   show_nat (length (fb_value field))))
          else Ok (Abs_barray (fb_value field)))"

text \<open>\<open>StateRootReader::at\<close>.\<close>

definition state_root_at ::
    "rpc_env \<Rightarrow> (byte list \<Rightarrow> (string, byte list field_bcs) result) \<Rightarrow> transport \<Rightarrow> address \<Rightarrow> address \<Rightarrow>
     nat \<Rightarrow> u64 \<Rightarrow> (inbox_error, hash option) result" where
  "state_root_at env from_bytes tr registry package n ht =
     (case t_object tr n (state_root_field_id env registry package ht) of
        Inr bytes \<Rightarrow> and_then (parse_state_root_field from_bytes bytes) (\<lambda>r. Ok (Some r))
      | Inl (InboxNotFound _) \<Rightarrow> Ok None
      | Inl e \<Rightarrow> Err e)"

section \<open>Properties\<close>

lemma validate_state_root_Ok [simp]: "validate_state_root r = Ok () \<longleftrightarrow> length r = 32"
  by (simp add: validate_state_root_def STATE_ROOT_LEN_def)

lemma state_root_command_valid:
  "state_root_command enabled h = Some r \<Longrightarrow> validate_state_root r = Ok ()"
  by (auto simp: state_root_command_def split: if_splits)

lemma parse_state_root_field_Ok:
  "parse_state_root_field from_bytes bs = Ok r \<longleftrightarrow>
     (\<exists>f. from_bytes bs = Ok f \<and> fb_value f = to_vec r)"
  by (auto simp: parse_state_root_field_def STATE_ROOT_LEN_def to_vec_inverse split: sum.splits)

text \<open>The contract accepts the command of a settled block: what the settle transaction appends
  for the header at the tip is committed, or the tip already carries another root.\<close>

lemma state_root_command_accepted:
  assumes "state_root_command True hdr = Some r" "mr_latest_height reg = height hdr"
    and "mr_state_roots reg (height hdr) \<in> {None, Some r}"
  shows "\<exists>reg'. commit_state_root reg (height hdr) r = Ok reg' \<and> mr_state_roots reg' (height hdr) = Some r"
  using assms by (auto simp: state_root_command_def commit_state_root_def)

definition c_root_field :: "byte list field_bcs codec" where
  "c_root_field = c_field c_bytes"

lemma codec_ok_root_field: "codec_ok c_root_field"
  unfolding c_root_field_def by (intro codec_oks)

interpretation root_field: bcs_codec "bcs_to_bytes c_root_field" "bcs_from_bytes c_root_field"
  by (intro bcs_codec_ref codec_ok_root_field)


definition sample_header :: header where
  "sample_header = \<lparr>height = 1, parent_hash = barr_fill 0, state_root = barr_fill 5, timestamp = 100\<rparr>"

definition sample_rpc :: rpc_env where
  "sample_rpc = \<lparr>rpc_new = (\<lambda>_. Ok ()), get_object = (\<lambda>_ _. Ok None),
     derive_dynamic_child_id = (\<lambda>_ _ _. barr_fill 9)\<rparr>"

definition sample_root_transport :: transport where
  "sample_root_transport = \<lparr>t_object = (\<lambda>_ _. map_err InboxParse (bcs_to_bytes c_root_field
      \<lparr>fb_id = barr_fill 9, fb_name = 1, fb_value = replicate 32 5\<rparr>)), t_field = (\<lambda>_ _ _. Ok None)\<rparr>"


end
