(* ===== verification/Settlement.thy ===== *)
theory Settlement
  imports State_Root
begin

text \<open>
  The Sui settlement client (\<open>crates/sui/src/settlement.rs\<close>, and the \<open>Settlement\<close> half of
  \<open>crates/sui/src/lib.rs\<close>): the settle transaction and its commit, the deploy ceremony and the
  package-custody transactions. The last part executes a settle transaction against the
  contract.
\<close>

section \<open>Client\<close>

text \<open>\<open>read\<close> is \<open>std::fs::read_to_string\<close>, \<open>parse_key\<close> is \<open>parse_signer_key\<close>.\<close>

definition load_signer ::
    "('key, 'tx, 'sg) tx_env \<Rightarrow> (string \<Rightarrow> (string, string) result) \<Rightarrow> (string \<Rightarrow> (string, 'key) result) \<Rightarrow> string \<Rightarrow>
     (settlement_error, 'key \<times> address) result" where
  "load_signer te read parse_key key_path =
     and_then (map_err SIo (read key_path)) (\<lambda>contents.
     and_then (map_err SKey (parse_key (trim contents))) (\<lambda>key. Ok (key, te_derive te key)))"

record 'key settlement =
  s_key :: 'key
  s_sender :: address
  s_package :: address
  s_cap :: address
  s_registry :: address
  s_inbox :: address
  s_commit_state_roots :: bool

definition settlement_new ::
    "('key, 'tx, 'sg) tx_env \<Rightarrow> (string \<Rightarrow> (string, string) result) \<Rightarrow> (string \<Rightarrow> (string, 'key) result) \<Rightarrow>
     (string \<Rightarrow> (string, address) result) \<Rightarrow> string \<Rightarrow> string \<Rightarrow> string \<Rightarrow> string \<Rightarrow> string \<Rightarrow> string \<Rightarrow>
     (settlement_error, 'key settlement) result" where
  "settlement_new te read parse_key parse key_path package_id cap_id registry_id inbox_id rpc_url =
     and_then (load_signer te read parse_key key_path) (\<lambda>(key, sender).
     and_then (map_err SRpc (te_client te rpc_url)) (\<lambda>_.
     and_then (parse_contract_ids parse package_id cap_id registry_id inbox_id) (\<lambda>(p, c, r, i).
       Ok \<lparr>s_key = key, s_sender = sender, s_package = p, s_cap = c, s_registry = r, s_inbox = i,
           s_commit_state_roots = True\<rparr>)))"

definition with_commit_state_roots :: "bool \<Rightarrow> 'key settlement \<Rightarrow> 'key settlement" where
  "with_commit_state_roots enabled s = s\<lparr>s_commit_state_roots := enabled\<rparr>"

definition swap_key :: "('key, 'tx, 'sg) tx_env \<Rightarrow> 'key \<Rightarrow> 'key settlement \<Rightarrow> 'key settlement" where
  "swap_key te key s = s\<lparr>s_sender := te_derive te key, s_key := key\<rparr>"

definition inbox_cursor :: "rpc_env \<Rightarrow> nat \<Rightarrow> 'key settlement \<Rightarrow> (settlement_error, u64) result" where
  "inbox_cursor env n s =
     (case get_object env n (s_inbox s) of
        Inl e \<Rightarrow> Err (SRpc (''get_object: '' @ e))
      | Inr None \<Rightarrow> Err (SExecution ''inbox object not found'')
      | Inr (Some None) \<Rightarrow> Err (SExecution ''inbox has no contents'')
      | Inr (Some (Some bytes)) \<Rightarrow>
          map_err (\<lambda>e. SParse (''decoding inbox contents as BCS: '' @ settlement_error_display e))
            (parse_inbox_cursor bytes))"

definition append_commit_state_root ::
    "command list \<Rightarrow> address \<Rightarrow> address \<Rightarrow> header \<Rightarrow> bool \<Rightarrow> command list" where
  "append_commit_state_root cmds package registry hdr enabled =
     (case state_root_command enabled hdr of
        None \<Rightarrow> cmds
      | Some root \<Rightarrow> cmds @
          [MoveCall \<lparr>mc_package = package, mc_module = ''settlement'', mc_function = ''commit_state_root'',
             mc_args = [ArgObject registry, ArgObject SUI_CLOCK_ID, ArgU64 (height hdr), ArgBytes root]\<rparr>])"

definition settle_commands :: "'key settlement \<Rightarrow> header \<Rightarrow> blob_id \<Rightarrow> u64 \<Rightarrow> command list" where
  "settle_commands s hdr blob cursor =
     append_commit_state_root
       [MoveCall \<lparr>mc_package = s_package s, mc_module = ''settlement'', mc_function = ''settle_as'',
          mc_args = [ArgObject (s_registry s), ArgObject (s_inbox s), ArgObject SUI_CLOCK_ID,
                     ArgBytes (case blob of BlobId b \<Rightarrow> to_vec b), ArgU64 (height hdr),
                     ArgU64 (settle_block_ts (timestamp hdr)), ArgU64 cursor]\<rparr>]
       (s_package s) (s_registry s) hdr (s_commit_state_roots s)"

definition build_settle_tx ::
    "('key, 'tx, 'sg) tx_env \<Rightarrow> 'key settlement \<Rightarrow> header \<Rightarrow> blob_id \<Rightarrow> u64 \<Rightarrow> (settlement_error, 'tx) result" where
  "build_settle_tx te s hdr blob cursor =
     map_err SBuild (te_build te \<lparr>ptb_sender = s_sender s, ptb_calls = settle_commands s hdr blob cursor\<rparr>)"

definition commit_with_cursor ::
    "('key, 'tx, 'sg) tx_env \<Rightarrow> rpc_env \<Rightarrow> nat \<Rightarrow> 'key settlement \<Rightarrow> header \<Rightarrow> blob_id \<Rightarrow> u64 \<Rightarrow> (settlement_error, unit) result" where
  "commit_with_cursor te env n s hdr blob tracked_cursor =
     and_then (inbox_cursor env n s) (\<lambda>on_chain.
     and_then (build_settle_tx te s hdr blob (max tracked_cursor on_chain)) (\<lambda>tx.
     and_then (sign_and_execute te (s_key s) tx ''settle'' COMMIT_TX_WAIT) (\<lambda>_. Ok ())))"

definition commit ::
    "('key, 'tx, 'sg) tx_env \<Rightarrow> rpc_env \<Rightarrow> nat \<Rightarrow> 'key settlement \<Rightarrow> header \<Rightarrow> blob_id \<Rightarrow> (settlement_error, unit) result" where
  "commit te env n s hdr blob =
     and_then (inbox_cursor env n s) (\<lambda>cursor. commit_with_cursor te env (n + 1) s hdr blob cursor)"

text \<open>The trait implementation of the shared client: no signer is an error.\<close>

definition client_commit ::
    "('key, 'tx, 'sg) tx_env \<Rightarrow> rpc_env \<Rightarrow> nat \<Rightarrow> 'key settlement option \<Rightarrow> block \<Rightarrow> blob_id \<Rightarrow> (core_error, unit) result" where
  "client_commit te env n settlement b blob =
     (case settlement of
        None \<Rightarrow> Err (SettlementErr ''settlement not configured'')
      | Some s \<Rightarrow> map_err (\<lambda>e. SettlementErr (settlement_error_display e)) (commit te env n s (header b) blob))"

definition client_commit_with_cursor ::
    "('key, 'tx, 'sg) tx_env \<Rightarrow> rpc_env \<Rightarrow> nat \<Rightarrow> 'key settlement option \<Rightarrow> block \<Rightarrow> blob_id \<Rightarrow> u64 \<Rightarrow> (core_error, unit) result" where
  "client_commit_with_cursor te env n settlement b blob tracked =
     (case settlement of
        None \<Rightarrow> Err (SettlementErr ''settlement not configured'')
      | Some s \<Rightarrow> map_err (\<lambda>e. SettlementErr (settlement_error_display e))
                   (commit_with_cursor te env n s (header b) blob tracked))"

section \<open>Ceremonies\<close>

definition build_and_execute ::
    "('key, 'tx, 'sg) tx_env \<Rightarrow> 'key \<Rightarrow> address \<Rightarrow> command list \<Rightarrow> string \<Rightarrow> (settlement_error, tx_response) result" where
  "build_and_execute te key sender cmds label =
     and_then (map_err (\<lambda>e. SBuild (label @ '': '' @ e)) (te_build te \<lparr>ptb_sender = sender, ptb_calls = cmds\<rparr>)) (\<lambda>tx.
       sign_and_execute te key tx label DEPLOY_TX_WAIT)"

definition find_package :: "changed_object list \<Rightarrow> string option" where
  "find_package changes = Option.bind (find (\<lambda>c. co_output c = PackageWrite) changes) co_object_id"

definition call_initialize ::
    "('key, 'tx, 'sg) tx_env \<Rightarrow> 'key \<Rightarrow> address \<Rightarrow> address \<Rightarrow> string \<Rightarrow> string \<Rightarrow> (settlement_error, changed_object list) result" where
  "call_initialize te key sender package md label =
     and_then (build_and_execute te key sender
         [MoveCall \<lparr>mc_package = package, mc_module = md, mc_function = ''initialize'', mc_args = []\<rparr>] label) (\<lambda>r.
       Ok (tr_changed r))"

definition run_entomb_settler_cap ::
    "('key, 'tx, 'sg) tx_env \<Rightarrow> 'key \<Rightarrow> address \<Rightarrow> address \<Rightarrow> address \<Rightarrow> address \<Rightarrow> (settlement_error, string) result" where
  "run_entomb_settler_cap te key sender package cap registry =
     and_then (build_and_execute te key sender
         [MoveCall \<lparr>mc_package = package, mc_module = ''settlement'', mc_function = ''entomb_settler_cap_ops'',
            mc_args = [ArgObject cap, ArgObject registry]\<rparr>] ''entomb settler cap'') (\<lambda>r.
       ok_or (SExecution ''OpsCap not found in entombment response'')
         (find_created_object (tr_changed r) OwnerAddress))"

definition run_entomb_upgrade_cap ::
    "('key, 'tx, 'sg) tx_env \<Rightarrow> 'key \<Rightarrow> address \<Rightarrow> address \<Rightarrow> address \<Rightarrow> address \<Rightarrow> address \<Rightarrow> (settlement_error, unit) result" where
  "run_entomb_upgrade_cap te key sender package registry upgrade_cap ops_cap =
     and_then (build_and_execute te key sender
         [MoveCall \<lparr>mc_package = package, mc_module = ''settlement'', mc_function = ''entomb_upgrade_cap'',
            mc_args = [ArgObject upgrade_cap, ArgObject registry, ArgObject ops_cap]\<rparr>] ''entomb upgrade cap'') (\<lambda>_.
       Ok ())"

record deployed_contract =
  dc_package_id :: string
  dc_settler_cap_id :: string
  dc_registry_id :: string
  dc_inbox_id :: string
  dc_upgrade_cap_id :: string
  dc_ops_cap_id :: string

definition MOVE_STDLIB :: address where "MOVE_STDLIB = Abs_barray (replicate 31 0 @ [1])"
definition SUI_FRAMEWORK :: address where "SUI_FRAMEWORK = Abs_barray (replicate 31 0 @ [2])"

definition deploy ::
    "('key, 'tx, 'sg) tx_env \<Rightarrow> (string \<Rightarrow> (string, address) result) \<Rightarrow> (settlement_error, 'key \<times> address) result \<Rightarrow>
     string \<Rightarrow> byte list list \<Rightarrow> (settlement_error, deployed_contract) result" where
  "deploy te parse signer rpc_url modules =
     and_then signer (\<lambda>(key, sender).
     and_then (map_err SRpc (te_client te rpc_url)) (\<lambda>_.
     and_then (build_and_execute te key sender
         [Publish modules [MOVE_STDLIB, SUI_FRAMEWORK],
          MoveCallT [''0x2::package::UpgradeCap'']
            \<lparr>mc_package = SUI_FRAMEWORK, mc_module = ''transfer'', mc_function = ''public_transfer'',
             mc_args = [ArgResult 0, ArgAddress sender]\<rparr>] ''publish'') (\<lambda>published.
     and_then (ok_or (SExecution ''package not found in publish response'') (find_package (tr_changed published))) (\<lambda>package_id.
     and_then (ok_or (SExecution ''UpgradeCap not found in publish response'')
         (find_created_object (tr_changed published) OwnerAddress)) (\<lambda>upgrade_cap_id.
     and_then (parse_address parse package_id ''package id'') (\<lambda>package_addr.
     and_then (call_initialize te key sender package_addr ''settlement'' ''settlement init'') (\<lambda>changes.
     and_then (ok_or (SExecution ''Registry not found in init response'') (find_created_object changes OwnerShared)) (\<lambda>registry_id.
     and_then (ok_or (SExecution ''SettlerCap not found in init response'') (find_created_object changes OwnerAddress)) (\<lambda>settler_cap_id.
     and_then (parse_address parse settler_cap_id ''settler cap id'') (\<lambda>settler_cap_addr.
     and_then (parse_address parse registry_id ''registry id'') (\<lambda>registry_addr.
     and_then (run_entomb_settler_cap te key sender package_addr settler_cap_addr registry_addr) (\<lambda>ops_cap_id.
     and_then (parse_address parse upgrade_cap_id ''upgrade cap id'') (\<lambda>upgrade_cap_addr.
     and_then (parse_address parse ops_cap_id ''ops cap id'') (\<lambda>ops_cap_addr.
     and_then (run_entomb_upgrade_cap te key sender package_addr registry_addr upgrade_cap_addr ops_cap_addr) (\<lambda>_.
     and_then (call_initialize te key sender package_addr ''inbox'' ''inbox init'') (\<lambda>inbox_changes.
     and_then (ok_or (SExecution ''Inbox not found in inbox init response'') (find_created_object inbox_changes OwnerShared)) (\<lambda>inbox_id.
       Ok \<lparr>dc_package_id = package_id, dc_settler_cap_id = settler_cap_id, dc_registry_id = registry_id,
           dc_inbox_id = inbox_id, dc_upgrade_cap_id = upgrade_cap_id, dc_ops_cap_id = ops_cap_id\<rparr>)))))))))))))))))"

record move_build =
  mb_modules :: "byte list list"
  mb_dependencies :: "address list"
  mb_digest :: "byte list"

record move_build_json =
  mj_modules :: "string list"
  mj_dependencies :: "string list"
  mj_digest :: "byte list"

definition parse_move_build ::
    "(string \<Rightarrow> (string, move_build_json) result) \<Rightarrow> (string \<Rightarrow> (string, byte list) result) \<Rightarrow>
     (string \<Rightarrow> (string, address) result) \<Rightarrow> string \<Rightarrow> (settlement_error, move_build) result" where
  "parse_move_build from_str base64_decode parse json =
     and_then (map_err (\<lambda>e. SParse (''move build json: '' @ e)) (from_str json)) (\<lambda>raw.
     and_then (collect_results (map (\<lambda>m. map_err (\<lambda>e. SParse (''module base64: '' @ e)) (base64_decode m)) (mj_modules raw))) (\<lambda>modules.
     and_then (collect_results (map (\<lambda>d. parse_address parse d ''dependency id'') (mj_dependencies raw))) (\<lambda>deps.
       if length (mj_digest raw) \<noteq> 32 then
         Err (SParse (''upgrade digest must be 32 bytes, got '' @ show_nat (length (mj_digest raw))))
       else Ok \<lparr>mb_modules = modules, mb_dependencies = deps, mb_digest = mj_digest raw\<rparr>)))"

record upgrade_cap_bcs =
  uc_id :: address
  uc_package :: address
  uc_version :: u64
  uc_policy :: byte

definition read_upgrade_cap_package ::
    "rpc_env \<Rightarrow> (byte list \<Rightarrow> (string, upgrade_cap_bcs) result) \<Rightarrow> nat \<Rightarrow> address \<Rightarrow> (settlement_error, address) result" where
  "read_upgrade_cap_package env from_bytes n cap_id =
     (case get_object env n cap_id of
        Inl e \<Rightarrow> Err (SRpc (''get_object: '' @ e))
      | Inr None \<Rightarrow> Err (SExecution ''UpgradeCap object not found'')
      | Inr (Some None) \<Rightarrow> Err (SExecution ''UpgradeCap has no contents'')
      | Inr (Some (Some bytes)) \<Rightarrow>
          and_then (map_err (\<lambda>e. SParse (''decoding UpgradeCap as BCS: '' @ e)) (from_bytes bytes)) (\<lambda>c.
            Ok (uc_package c)))"

text \<open>\<open>show_addr\<close> is the \<open>Display\<close> of an address.\<close>

definition entomb_upgrade_cap ::
    "('key, 'tx, 'sg) tx_env \<Rightarrow> rpc_env \<Rightarrow> (byte list \<Rightarrow> (string, upgrade_cap_bcs) result) \<Rightarrow>
     (string \<Rightarrow> (string, address) result) \<Rightarrow> (address \<Rightarrow> string) \<Rightarrow> (settlement_error, 'key \<times> address) result \<Rightarrow> nat \<Rightarrow>
     string \<Rightarrow> string \<Rightarrow> string \<Rightarrow> string \<Rightarrow> string \<Rightarrow> (settlement_error, unit) result" where
  "entomb_upgrade_cap te env from_bytes parse show_addr signer n rpc_url package_id registry_id upgrade_cap_id ops_cap_id =
     and_then signer (\<lambda>(key, sender).
     and_then (map_err SRpc (te_client te rpc_url)) (\<lambda>_.
     and_then (parse_address parse package_id ''package id'') (\<lambda>package.
     and_then (parse_address parse registry_id ''registry id'') (\<lambda>registry.
     and_then (parse_address parse upgrade_cap_id ''upgrade cap id'') (\<lambda>upgrade_cap.
     and_then (parse_address parse ops_cap_id ''ops cap id'') (\<lambda>ops_cap.
     and_then (read_upgrade_cap_package env from_bytes n upgrade_cap) (\<lambda>cap_package.
       if cap_package \<noteq> package then
         Err (SExecution (''UpgradeCap '' @ upgrade_cap_id @ '' authorizes package '' @ show_addr cap_package @
                '', not '' @ package_id))
       else run_entomb_upgrade_cap te key sender package registry upgrade_cap ops_cap)))))))"

definition upgrade_package ::
    "('key, 'tx, 'sg) tx_env \<Rightarrow> (string \<Rightarrow> (string, address) result) \<Rightarrow> (settlement_error, 'key \<times> address) result \<Rightarrow>
     string \<Rightarrow> string \<Rightarrow> string \<Rightarrow> string \<Rightarrow> move_build \<Rightarrow> byte \<Rightarrow> (settlement_error, string) result" where
  "upgrade_package te parse signer rpc_url package_id registry_id ops_cap_id bld policy =
     and_then signer (\<lambda>(key, sender).
     and_then (map_err SRpc (te_client te rpc_url)) (\<lambda>_.
     and_then (parse_address parse package_id ''package id'') (\<lambda>package.
     and_then (parse_address parse registry_id ''registry id'') (\<lambda>registry.
     and_then (parse_address parse ops_cap_id ''ops cap id'') (\<lambda>ops_cap.
     and_then (build_and_execute te key sender
         [MoveCall \<lparr>mc_package = package, mc_module = ''settlement'', mc_function = ''authorize_package_upgrade'',
            mc_args = [ArgObject registry, ArgObject ops_cap, ArgU8 policy, ArgBytes (mb_digest bld)]\<rparr>,
          Upgrade (mb_modules bld) (mb_dependencies bld) package (ArgResult 0),
          MoveCall \<lparr>mc_package = package, mc_module = ''settlement'', mc_function = ''commit_package_upgrade'',
            mc_args = [ArgObject registry, ArgObject ops_cap, ArgResult 1]\<rparr>] ''upgrade package'') (\<lambda>r.
       ok_or (SExecution ''upgraded package not found in response'') (find_package (tr_changed r))))))))"

definition restrict_package_upgrades ::
    "('key, 'tx, 'sg) tx_env \<Rightarrow> (string \<Rightarrow> (string, address) result) \<Rightarrow> (settlement_error, 'key \<times> address) result \<Rightarrow>
     string \<Rightarrow> string \<Rightarrow> string \<Rightarrow> string \<Rightarrow> byte \<Rightarrow> (settlement_error, unit) result" where
  "restrict_package_upgrades te parse signer rpc_url package_id registry_id ops_cap_id policy =
     and_then signer (\<lambda>(key, sender).
     and_then (map_err SRpc (te_client te rpc_url)) (\<lambda>_.
     and_then (parse_address parse package_id ''package id'') (\<lambda>package.
     and_then (parse_address parse registry_id ''registry id'') (\<lambda>registry.
     and_then (parse_address parse ops_cap_id ''ops cap id'') (\<lambda>ops_cap.
     and_then (build_and_execute te key sender
         [MoveCall \<lparr>mc_package = package, mc_module = ''settlement'', mc_function = ''restrict_package_upgrades'',
            mc_args = [ArgObject registry, ArgObject ops_cap, ArgU8 policy]\<rparr>] ''restrict upgrades'') (\<lambda>_. Ok ()))))))"

definition freeze_package ::
    "('key, 'tx, 'sg) tx_env \<Rightarrow> (string \<Rightarrow> (string, address) result) \<Rightarrow> (settlement_error, 'key \<times> address) result \<Rightarrow>
     string \<Rightarrow> string \<Rightarrow> string \<Rightarrow> string \<Rightarrow> (settlement_error, unit) result" where
  "freeze_package te parse signer rpc_url package_id registry_id ops_cap_id =
     and_then signer (\<lambda>(key, sender).
     and_then (map_err SRpc (te_client te rpc_url)) (\<lambda>_.
     and_then (parse_address parse package_id ''package id'') (\<lambda>package.
     and_then (parse_address parse registry_id ''registry id'') (\<lambda>registry.
     and_then (parse_address parse ops_cap_id ''ops cap id'') (\<lambda>ops_cap.
     and_then (build_and_execute te key sender
         [MoveCall \<lparr>mc_package = package, mc_module = ''settlement'', mc_function = ''freeze_package'',
            mc_args = [ArgObject registry, ArgObject ops_cap]\<rparr>] ''freeze package'') (\<lambda>_. Ok ()))))))"

text \<open>Balances: the stream of \<open>list_balances\<close> items up to the first SUI entry.\<close>

fun sui_balance_of :: "(string \<Rightarrow> bool) \<Rightarrow> (string, string option \<times> u64 option) result list \<Rightarrow> (settlement_error, u64) result" where
  "sui_balance_of is_sui_coin_type [] = Ok 0"
| "sui_balance_of is_sui_coin_type (Inl e # _) = Err (SRpc (''list_balances: '' @ e))"
| "sui_balance_of is_sui_coin_type (Inr (ct, bal) # rest) =
     (if (case ct of None \<Rightarrow> False | Some c \<Rightarrow> is_sui_coin_type c)
      then Ok (case bal of Some b \<Rightarrow> b | None \<Rightarrow> 0)
      else sui_balance_of is_sui_coin_type rest)"

section \<open>Settle transactions on the contract\<close>

text \<open>Execution of the commands of a settle transaction by an authorized sender: all or nothing.\<close>

definition exec_settle_call :: "command \<Rightarrow> chain \<Rightarrow> (abort, chain) result" where
  "exec_settle_call cmd c =
     (case cmd of
        MoveCall m \<Rightarrow>
          (if mc_function m = ''settle_as'' then
             (case mc_args m of
                [_, _, _, ArgBytes blob, ArgU64 h, ArgU64 ts, ArgU64 cur] \<Rightarrow>
                  and_then (do_settle (ch_registry c) (ch_inbox c) blob h ts cur) (\<lambda>(reg, ib).
                    Ok (c\<lparr>ch_registry := reg, ch_inbox := ib\<rparr>))
              | _ \<Rightarrow> Err FIELD_DOES_NOT_EXIST)
           else if mc_function m = ''commit_state_root'' then
             (case mc_args m of
                [_, _, ArgU64 h, ArgBytes r] \<Rightarrow>
                  and_then (commit_state_root (ch_registry c) h r) (\<lambda>reg. Ok (c\<lparr>ch_registry := reg\<rparr>))
              | _ \<Rightarrow> Err FIELD_DOES_NOT_EXIST)
           else Err FIELD_DOES_NOT_EXIST)
      | _ \<Rightarrow> Err FIELD_DOES_NOT_EXIST)"

primrec exec_settle :: "command list \<Rightarrow> chain \<Rightarrow> (abort, chain) result" where
  "exec_settle [] c = Ok c"
| "exec_settle (x # xs) c = and_then (exec_settle_call x c) (exec_settle xs)"

lemma exec_settle_commands:
  "exec_settle (settle_commands s hdr (BlobId b) cur) c =
     and_then (do_settle (ch_registry c) (ch_inbox c) (to_vec b) (height hdr) (settle_block_ts (timestamp hdr)) cur)
       (\<lambda>(reg, ib).
          if s_commit_state_roots s then
            and_then (commit_state_root reg (height hdr) (to_vec (state_root hdr))) (\<lambda>reg'.
              Ok (c\<lparr>ch_registry := reg', ch_inbox := ib\<rparr>))
          else Ok (c\<lparr>ch_registry := reg, ch_inbox := ib\<rparr>))"
  by (auto simp: settle_commands_def append_commit_state_root_def state_root_command_def
      exec_settle_call_def and_then_def split: sum.splits prod.splits)

text \<open>A block the contract is ready for.\<close>

definition settleable :: "chain \<Rightarrow> header \<Rightarrow> u64 \<Rightarrow> bool" where
  "settleable c hdr cur \<longleftrightarrow>
     unat (mr_latest_height (ch_registry c)) + 1 < 2 ^ 64 \<and>
     height hdr = mr_latest_height (ch_registry c) + 1 \<and>
     mi_included_count (ch_inbox c) \<le> cur \<and> cur \<le> mi_next_nonce (ch_inbox c) \<and>
     mi_last_settled_ts (ch_inbox c) \<le> settle_block_ts (timestamp hdr) \<and>
     (case mi_pending (ch_inbox c) cur of
        None \<Rightarrow> True | Some p \<Rightarrow> settle_block_ts (timestamp hdr) \<le> deadline_ms p) \<and>
     mr_state_roots (ch_registry c) (height hdr) = None"

lemma settle_first:
  assumes inv: "chain_inv c" and st: "settleable c hdr cur"
  obtains ib where "do_settle (ch_registry c) (ch_inbox c) blob (height hdr) (settle_block_ts (timestamp hdr)) cur =
      Ok ((ch_registry c)\<lparr>mr_commitments := (mr_commitments (ch_registry c))(height hdr \<mapsto> blob),
            mr_latest_height := height hdr\<rparr>, ib)"
    "mi_included_count ib = cur" "mi_last_settled_ts ib = settle_block_ts (timestamp hdr)"
proof -
  let ?ib = "(ch_inbox c)\<lparr>mi_pending := (\<lambda>k. if k \<in> {mi_included_count (ch_inbox c)..<cur} then None else mi_pending (ch_inbox c) k),
             mi_included_count := cur, mi_last_settled_ts := settle_block_ts (timestamp hdr)\<rparr>"
  have n: "unat (mr_latest_height (ch_registry c)) + 1 < 2 ^ 64"
    and h: "height hdr = mr_latest_height (ch_registry c) + 1" using st by (simp_all add: settleable_def)
  have u: "unat (height hdr) = Suc (unat (mr_latest_height (ch_registry c)))"
    using n by (simp add: h unat_word_ariths)
  have fresh: "height hdr \<notin> dom (mr_commitments (ch_registry c))" "height hdr \<noteq> mr_latest_height (ch_registry c)"
    using inv u by (auto simp: chain_inv_def word_le_nat_alt word_unat_eq_iff)
  have "{mi_included_count (ch_inbox c)..<cur} \<subseteq> dom (mi_pending (ch_inbox c))"
    using inv st by (auto simp: chain_inv_def settleable_def)
  then have "enforce_settle (ch_inbox c) (settle_block_ts (timestamp hdr)) cur = Ok ?ib"
    using st by (simp add: enforce_settle_Ok settleable_def split: option.splits)
  with fresh n h have "do_settle (ch_registry c) (ch_inbox c) blob (height hdr) (settle_block_ts (timestamp hdr)) cur =
      Ok ((ch_registry c)\<lparr>mr_commitments := (mr_commitments (ch_registry c))(height hdr \<mapsto> blob),
            mr_latest_height := height hdr\<rparr>, ?ib)"
    by (simp add: do_settle_Ok)
  then show ?thesis by (rule that) simp_all
qed


definition sample_settlement :: "unit settlement" where
  "sample_settlement = \<lparr>s_key = (), s_sender = barr_fill 1, s_package = barr_fill 2, s_cap = barr_fill 3,
     s_registry = barr_fill 4, s_inbox = barr_fill 5, s_commit_state_roots = True\<rparr>"


text \<open>
  the contract-enforced halt is reached through the client's unit conversion. A settle transaction for
  the next block whose timestamp, in milliseconds, lies past the deadline of the oldest entry
  the transaction leaves pending aborts with \<open>E_DEADLINE_EXCEEDED\<close>, whatever else it carries.
\<close>

lemma settle_past_deadline_aborts:
  assumes "chain_inv c" "unat (mr_latest_height (ch_registry c)) + 1 < 2 ^ 64"
    and "height hdr = mr_latest_height (ch_registry c) + 1"
    and "mi_included_count (ch_inbox c) \<le> cur" "cur \<le> mi_next_nonce (ch_inbox c)"
    and "mi_last_settled_ts (ch_inbox c) \<le> settle_block_ts (timestamp hdr)"
    and "mi_pending (ch_inbox c) cur = Some p" "unat (deadline_ms p) < unat (timestamp hdr) * 1000"
    and "unat (timestamp hdr) * 1000 < 2 ^ 64"
  shows "exec_settle (settle_commands s hdr (BlobId b) cur) c = Err E_DEADLINE_EXCEEDED"
proof -
  have u: "unat (height hdr) = Suc (unat (mr_latest_height (ch_registry c)))"
    using assms(2) by (simp add: assms(3) unat_word_ariths)
  have ne: "height hdr \<noteq> mr_latest_height (ch_registry c)" using u by (auto simp: word_unat_eq_iff)
  have late: "\<not> settle_block_ts (timestamp hdr) \<le> deadline_ms p"
    using assms(8,9) by (simp add: word_le_nat_alt unat_settle_block_ts)
  have "{mi_included_count (ch_inbox c)..<cur} \<subseteq> dom (mi_pending (ch_inbox c))"
    using assms(1,4,5) by (auto simp: chain_inv_def)
  then have "prune (mi_included_count (ch_inbox c)) cur (mi_pending (ch_inbox c)) =
      Ok (\<lambda>k. if k \<in> {mi_included_count (ch_inbox c)..<cur} then None else mi_pending (ch_inbox c) k)"
    by (simp add: prune_Ok)
  then have "enforce_settle (ch_inbox c) (settle_block_ts (timestamp hdr)) cur = Err E_DEADLINE_EXCEEDED"
    using assms(4-7) late by (simp add: enforce_settle_def Let_def)
  then show ?thesis
    using ne assms(2,3) by (simp add: exec_settle_commands do_settle_def move_add_def)
qed

lemma settle_past_deadline_aborts_witness:
  "exec_settle (settle_commands sample_settlement (sample_header\<lparr>timestamp := 601\<rparr>) (BlobId (barr_fill 9)) 0)
     ((genesis (barr_fill 5) (barr_fill 6) 0)\<lparr>ch_inbox := (ch_inbox (genesis (barr_fill 5) (barr_fill 6) 0))
        \<lparr>mi_next_nonce := 1, mi_pending := [0 \<mapsto> \<lparr>deadline_ms = 600000, tx_bytes = [1]\<rparr>]\<rparr>\<rparr>) = Err E_DEADLINE_EXCEEDED"
proof (rule settle_past_deadline_aborts [where p = "\<lparr>deadline_ms = 600000, tx_bytes = [1]\<rparr>"])
  show "chain_inv ((genesis (barr_fill 5) (barr_fill 6) 0)\<lparr>ch_inbox := (ch_inbox (genesis (barr_fill 5) (barr_fill 6) 0))
        \<lparr>mi_next_nonce := 1, mi_pending := [0 \<mapsto> \<lparr>deadline_ms = 600000, tx_bytes = [1]\<rparr>]\<rparr>\<rparr>)"
    by (auto simp: chain_inv_def genesis_def)
qed (simp_all add: genesis_def sample_header_def)

end
