(* ===== verification/Deadline.thy ===== *)
theory Deadline
  imports Contract
begin

text \<open>
  Trustless deadline verification (\<open>crates/sui/src/deadline.rs\<close>): the classification of one
  snapshot, and the monitor that reads inbox, clock and oldest pending entry in separate round
  trips and confirms every halt verdict against a fresh inbox read. The locale \<open>chain_reads\<close>
  states what the monitor relies on of the chain behind its transport; the contract's
  histories provide it.
\<close>

section \<open>Classification\<close>

definition DEFAULT_MARGIN_MS :: u64 where "DEFAULT_MARGIN_MS = 1000"

datatype deadline_status =
    Active
  | Halted (halt_nonce: u64) (halt_deadline: u64)
  | Violated (halt_nonce: u64) (halt_deadline: u64) (settled_ts_ms: u64)

fun is_halted :: "deadline_status \<Rightarrow> bool" where
  "is_halted Active = False"
| "is_halted (Halted _ _) = True"
| "is_halted (Violated _ _ _) = True"

datatype deadline_error =
    DInbox inbox_error
  | DInboxId string
  | InconsistentSnapshot nat

fun deadline_error_display :: "deadline_error \<Rightarrow> string" where
  "deadline_error_display (DInbox e) = ''inbox error: '' @ inbox_error_display e"
| "deadline_error_display (DInboxId s) = ''invalid inbox id: '' @ s"
| "deadline_error_display (InconsistentSnapshot n) =
     ''inbox changed under all '' @ show_nat n @ '' reads; deadline status unconfirmed''"

definition classify :: "u64 \<Rightarrow> u64 \<Rightarrow> inbox_status \<Rightarrow> pending_tx option \<Rightarrow> deadline_status" where
  "classify now_ms margin_ms inbox oldest =
     (case oldest of
        None \<Rightarrow> Active
      | Some tx \<Rightarrow>
          if now_ms \<le> saturating_add (deadline_ms tx) margin_ms then Active
          else if last_settled_ts inbox \<le> deadline_ms tx then
            Halted (included_count inbox) (deadline_ms tx)
          else Violated (included_count inbox) (deadline_ms tx) (last_settled_ts inbox))"

record clock_bcs =
  ck_id :: address
  ck_timestamp_ms :: u64

definition parse_clock ::
    "(byte list \<Rightarrow> (string, clock_bcs) result) \<Rightarrow> byte list \<Rightarrow> (inbox_error, u64) result" where
  "parse_clock from_bytes contents =
     (case from_bytes contents of
        Inl e \<Rightarrow> Err (InboxParse (''clock BCS: '' @ e))
      | Inr clock \<Rightarrow> Ok (ck_timestamp_ms clock))"

section \<open>Monitor\<close>

record monitor =
  mon_transport :: transport
  mon_inbox :: address
  mon_margin_ms :: u64

record monitor_decoders =
  md_inbox :: inbox_decoders
  md_clock :: "byte list \<Rightarrow> (string, clock_bcs) result"

definition CONFIRM_LIMIT :: nat where "CONFIRM_LIMIT = 3"

text \<open>One snapshot is the reads \<open>n\<close> (inbox), \<open>n + 1\<close> (clock) and \<open>n + 2\<close> (oldest entry).\<close>

definition read_snapshot ::
    "monitor_decoders \<Rightarrow> monitor \<Rightarrow> nat \<Rightarrow>
     (deadline_error, inbox_status \<times> u64 \<times> pending_tx option) result" where
  "read_snapshot d m n =
     map_err DInbox (
       and_then (t_object (mon_transport m) n (mon_inbox m)) (\<lambda>inbox_bytes.
       and_then (parse_inbox_status (dec_inbox (md_inbox d)) inbox_bytes) (\<lambda>inbox.
       and_then (t_object (mon_transport m) (n + 1) SUI_CLOCK_ID) (\<lambda>clock_bytes.
       and_then (parse_clock (md_clock d) clock_bytes) (\<lambda>now_ms.
       and_then (t_field (mon_transport m) (n + 2) (pending_table_uid inbox) (included_count inbox)) (\<lambda>f.
         case f of
           None \<Rightarrow> Ok (inbox, now_ms, None)
         | Some bytes \<Rightarrow>
             and_then (parse_pending_tx (dec_pending (md_inbox d)) bytes) (\<lambda>p.
               Ok (inbox, now_ms, Some p))))))))"

definition confirm_unchanged ::
    "monitor_decoders \<Rightarrow> monitor \<Rightarrow> nat \<Rightarrow> inbox_status \<Rightarrow> (deadline_error, bool) result" where
  "confirm_unchanged d m n read =
     map_err DInbox (
       and_then (t_object (mon_transport m) n (mon_inbox m)) (\<lambda>confirm_bytes.
       and_then (parse_inbox_status (dec_inbox (md_inbox d)) confirm_bytes) (\<lambda>confirm.
         Ok (included_count confirm = included_count read \<and>
             last_settled_ts confirm = last_settled_ts read))))"

text \<open>The retry loop, with \<open>k\<close> attempts left; each attempt uses four reads.\<close>

fun status_loop ::
    "monitor_decoders \<Rightarrow> monitor \<Rightarrow> nat \<Rightarrow> nat \<Rightarrow> (deadline_error, deadline_status) result" where
  "status_loop d m n 0 = Err (InconsistentSnapshot CONFIRM_LIMIT)"
| "status_loop d m n (Suc k) =
     and_then (read_snapshot d m n) (\<lambda>(inbox, now_ms, oldest).
       let status = classify now_ms (mon_margin_ms m) inbox oldest in
       if \<not> is_halted status then Ok status
       else and_then (confirm_unchanged d m (n + 3) inbox) (\<lambda>ok.
              if ok then Ok status else status_loop d m (n + 4) k))"

definition monitor_status :: "monitor_decoders \<Rightarrow> monitor \<Rightarrow> nat \<Rightarrow> (deadline_error, deadline_status) result" where
  "monitor_status d m n = status_loop d m n CONFIRM_LIMIT"

definition monitor_from_config ::
    "rpc_env \<Rightarrow> (string \<Rightarrow> address option) \<Rightarrow> string \<Rightarrow> string \<Rightarrow> u64 \<Rightarrow> (deadline_error, monitor) result" where
  "monitor_from_config env from_str rpc_url inbox_id margin_ms =
     and_then (ok_or (DInboxId (''invalid sui.inbox_id: '' @ inbox_id)) (from_str inbox_id)) (\<lambda>inbox.
       Ok \<lparr>mon_transport = sui_inbox_transport env rpc_url, mon_inbox = inbox,
           mon_margin_ms = margin_ms\<rparr>)"

section \<open>What the chain promises its readers\<close>

text \<open>The inbox status of a chain state, and the verdict an atomic observer of that state
  would reach: the abstract specification of the monitor.\<close>

definition status_of :: "chain \<Rightarrow> inbox_status" where
  "status_of c =
     \<lparr>next_nonce = mi_next_nonce (ch_inbox c), included_count = mi_included_count (ch_inbox c),
      last_settled_ts = mi_last_settled_ts (ch_inbox c), pending_table_uid = mi_table (ch_inbox c)\<rparr>"

definition atomic_status :: "u64 \<Rightarrow> chain \<Rightarrow> deadline_status" where
  "atomic_status margin c =
     classify (ch_clock c) margin (status_of c) (mi_pending (ch_inbox c) (mi_included_count (ch_inbox c)))"

lemma classify_later:
  assumes "is_halted (classify now margin ib oldest)" "now \<le> now'"
    and "included_count ib' = included_count ib" "last_settled_ts ib' = last_settled_ts ib"
  shows "classify now' margin ib' oldest = classify now margin ib oldest"
  using assms by (auto simp: classify_def split: option.splits if_splits)

text \<open>\<open>view n\<close> is the chain state the \<open>n\<close>-th read observes. Reads that fail or do not decode
  are unconstrained.\<close>

locale chain_reads =
  fixes d :: monitor_decoders and m :: monitor and view :: "nat \<Rightarrow> chain"
  assumes inbox_read:
    "\<lbrakk>t_object (mon_transport m) n (mon_inbox m) = Ok bs; parse_inbox_status (dec_inbox (md_inbox d)) bs = Ok st\<rbrakk> \<Longrightarrow>
       st = status_of (view n)"
    and clock_read:
    "\<lbrakk>t_object (mon_transport m) n SUI_CLOCK_ID = Ok bs; parse_clock (md_clock d) bs = Ok t\<rbrakk> \<Longrightarrow>
       t = ch_clock (view n)"
    and field_read:
    "\<lbrakk>t_field (mon_transport m) n (mi_table (ch_inbox (view n))) k = Ok (Some bs);
      parse_pending_tx (dec_pending (md_inbox d)) bs = Ok p\<rbrakk> \<Longrightarrow>
       mi_pending (ch_inbox (view n)) k = Some p"
    and field_absent:
    "t_field (mon_transport m) n (mi_table (ch_inbox (view n))) k = Ok None \<Longrightarrow>
       mi_pending (ch_inbox (view n)) k = None"
    and history: "n \<le> n' \<Longrightarrow> chain_le (view n) (view n')"
begin

lemma read_snapshot_view:
  assumes "read_snapshot d m n = Ok (inbox, now, oldest)"
  shows "inbox = status_of (view n)"
    and "now = ch_clock (view (n + 1))"
    and "oldest = mi_pending (ch_inbox (view (n + 2))) (mi_included_count (ch_inbox (view n)))"
proof -
  from assms obtain ib cb f where
    ib: "t_object (mon_transport m) n (mon_inbox m) = Ok ib" "parse_inbox_status (dec_inbox (md_inbox d)) ib = Ok inbox"
    and cb: "t_object (mon_transport m) (n + 1) SUI_CLOCK_ID = Ok cb" "parse_clock (md_clock d) cb = Ok now"
    and f: "t_field (mon_transport m) (n + 2) (pending_table_uid inbox) (included_count inbox) = Ok f"
    and fo: "f = None \<and> oldest = None \<or>
      (\<exists>bs p. f = Some bs \<and> parse_pending_tx (dec_pending (md_inbox d)) bs = Ok p \<and> oldest = Some p)"
    by (auto simp: read_snapshot_def and_then_eq_Inr split: option.splits)
  show i: "inbox = status_of (view n)"
    using inbox_read [OF ib] .
  show "now = ch_clock (view (n + 1))" using clock_read [OF cb] .
  have "chain_le (view n) (view (n + 2))" by (rule history) simp
  then have "mi_table (ch_inbox (view n)) = mi_table (ch_inbox (view (n + 2)))"
    by (simp add: chain_le_def)
  with f i fo show "oldest = mi_pending (ch_inbox (view (n + 2))) (mi_included_count (ch_inbox (view n)))"
    by (auto simp: status_of_def dest: field_read field_absent)
qed

text \<open>The state at the oldest-entry read justifies a confirmed verdict: the cursor and the
  witness are squeezed between the two equal inbox reads around it.\<close>

lemma confirmed_view:
  assumes "read_snapshot d m n = Ok (inbox, now, oldest)"
    and "confirm_unchanged d m (n + 3) inbox = Ok True"
  shows "mi_included_count (ch_inbox (view (n + 2))) = included_count inbox"
    and "mi_last_settled_ts (ch_inbox (view (n + 2))) = last_settled_ts inbox"
    and "oldest = mi_pending (ch_inbox (view (n + 2))) (mi_included_count (ch_inbox (view (n + 2))))"
    and "now \<le> ch_clock (view (n + 2))"
proof -
  note s = read_snapshot_view [OF assms(1)]
  from assms(2) obtain cb confirm where
    "t_object (mon_transport m) (n + 3) (mon_inbox m) = Ok cb" "parse_inbox_status (dec_inbox (md_inbox d)) cb = Ok confirm"
    and eq: "included_count confirm = included_count inbox" "last_settled_ts confirm = last_settled_ts inbox"
    by (auto simp: confirm_unchanged_def and_then_eq_Inr)
  from inbox_read [OF this(1,2)] eq
  have c3: "mi_included_count (ch_inbox (view (n + 3))) = included_count inbox"
    "mi_last_settled_ts (ch_inbox (view (n + 3))) = last_settled_ts inbox" by (simp_all add: status_of_def)
  have le: "chain_le (view n) (view (n + 2))" "chain_le (view (n + 2)) (view (n + 3))"
    "chain_le (view (n + 1)) (view (n + 2))"
    by (rule history; simp)+
  show inc: "mi_included_count (ch_inbox (view (n + 2))) = included_count inbox"
    using le(1,2) c3(1) s(1) by (auto simp: chain_le_def status_of_def intro: antisym)
  show "mi_last_settled_ts (ch_inbox (view (n + 2))) = last_settled_ts inbox"
    using le(1,2) c3(2) s(1) by (auto simp: chain_le_def status_of_def intro: antisym)
  show "oldest = mi_pending (ch_inbox (view (n + 2))) (mi_included_count (ch_inbox (view (n + 2))))"
    using s(1,3) inc by (simp add: status_of_def)
  show "now \<le> ch_clock (view (n + 2))" using s(2) le(3) by (simp add: chain_le_def)
qed

lemma status_loop_halted:
  assumes "status_loop d m n k = Ok status" "is_halted status"
  shows "\<exists>i \<in> {n..<n + 4 * k}. atomic_status (mon_margin_ms m) (view i) = status"
  using assms
proof (induction k arbitrary: n)
  case (Suc k)
  then obtain inbox now oldest where r: "read_snapshot d m n = Ok (inbox, now, oldest)"
    by (auto simp: and_then_eq_Inr)
  let ?s = "classify now (mon_margin_ms m) inbox oldest"
  from r Suc.prems have h: "is_halted ?s"
    by (auto simp: and_then_eq_Inr Let_def split: if_splits)
  with r Suc.prems(1) obtain ok where ok: "confirm_unchanged d m (n + 3) inbox = Ok ok"
    and st: "if ok then status = ?s else status_loop d m (n + 4) k = Ok status"
    by (auto simp: and_then_eq_Inr Let_def split: if_splits)
  show ?case
  proof (cases ok)
    case False
    with st have "status_loop d m (n + 4) k = Ok status" by simp
    from Suc.IH [OF this Suc.prems(2)] show ?thesis by force
  next
    case True
    with ok have "confirm_unchanged d m (n + 3) inbox = Ok True" by simp
    note v = confirmed_view [OF r this]
    have "atomic_status (mon_margin_ms m) (view (n + 2)) = ?s"
      unfolding atomic_status_def v(3) [symmetric]
      by (rule classify_later [OF h v(4)]) (use v(1,2) in \<open>simp_all add: status_of_def\<close>)
    with True st show ?thesis by (intro bexI [of _ "n + 2"]) auto
  qed
qed simp

lemma monitor_status_halted:
  assumes "monitor_status d m n = Ok status" "is_halted status"
  shows "\<exists>i \<in> {n..<n + 4 * CONFIRM_LIMIT}. atomic_status (mon_margin_ms m) (view i) = status"
  using status_loop_halted assms unfolding monitor_status_def by blast

end

section \<open>The contract provides the reads\<close>

definition c_clock :: "clock_bcs codec" where
  "c_clock = c_iso (\<lambda>(i, t). \<lparr>ck_id = i, ck_timestamp_ms = t\<rparr>)
               (\<lambda>c. (ck_id c, ck_timestamp_ms c)) (c_pair c_array c_u64)"

lemma codec_ok_clock [codec_oks]: "codec_ok c_clock"
  unfolding c_clock_def by (rule codec_ok_iso) (auto intro!: codec_oks)

interpretation clock_obj: bcs_codec "bcs_to_bytes c_clock" "bcs_from_bytes c_clock"
  by (intro bcs_codec_ref codec_oks)

definition ref_monitor_decoders :: monitor_decoders where
  "ref_monitor_decoders = \<lparr>md_inbox = ref_decoders, md_clock = bcs_from_bytes c_clock\<rparr>"

text \<open>A full node answering the \<open>n\<close>-th read from the chain state \<open>h n\<close>, objects serialized
  in the documented BCS layout.\<close>

definition inbox_mirror :: "chain \<Rightarrow> inbox_bcs" where
  "inbox_mirror c =
     \<lparr>ib_id = mi_id (ch_inbox c), ib_next_nonce = mi_next_nonce (ch_inbox c),
      ib_included_count = mi_included_count (ch_inbox c),
      ib_last_settled_ts = mi_last_settled_ts (ch_inbox c),
      ib_pending = \<lparr>tb_id = mi_table (ch_inbox c),
                    tb_size = mi_next_nonce (ch_inbox c) - mi_included_count (ch_inbox c)\<rparr>\<rparr>"

definition pending_mirror :: "u64 \<Rightarrow> pending_tx \<Rightarrow> pending_tx_bcs field_bcs" where
  "pending_mirror k p = \<lparr>fb_id = barr_fill 0, fb_name = k,
     fb_value = \<lparr>pb_deadline_ms = deadline_ms p, pb_tx_bytes = tx_bytes p\<rparr>\<rparr>"

definition serve :: "(string, byte list) result \<Rightarrow> (inbox_error, byte list) result" where
  "serve r = map_err InboxRpc r"

definition chain_transport :: "(nat \<Rightarrow> chain) \<Rightarrow> transport" where
  "chain_transport h =
     \<lparr>t_object = (\<lambda>n i.
        if i = SUI_CLOCK_ID then
          serve (bcs_to_bytes c_clock \<lparr>ck_id = SUI_CLOCK_ID, ck_timestamp_ms = ch_clock (h n)\<rparr>)
        else if i = mi_id (ch_inbox (h n)) then serve (bcs_to_bytes c_inbox (inbox_mirror (h n)))
        else Err (InboxNotFound ''inbox object not found'')),
      t_field = (\<lambda>n tbl k.
        if tbl = mi_table (ch_inbox (h n)) then
          (case mi_pending (ch_inbox (h n)) k of
             None \<Rightarrow> Ok None
           | Some p \<Rightarrow> and_then (serve (bcs_to_bytes (c_field c_pending_tx) (pending_mirror k p)))
                         (\<lambda>bs. Ok (Some bs)))
        else Ok None)\<rparr>"

definition chain_monitor :: "(nat \<Rightarrow> chain) \<Rightarrow> address \<Rightarrow> u64 \<Rightarrow> monitor" where
  "chain_monitor h inbox margin =
     \<lparr>mon_transport = chain_transport h, mon_inbox = inbox, mon_margin_ms = margin\<rparr>"

locale chain_history =
  fixes h :: "nat \<Rightarrow> chain" and inbox :: address and margin :: u64
  assumes start: "chain_inv (h 0)" "mi_id (ch_inbox (h 0)) = inbox" "inbox \<noteq> SUI_CLOCK_ID"
    and steps: "chain_step\<^sup>*\<^sup>* (h n) (h (Suc n))"
begin

lemma reachable: "n \<le> n' \<Longrightarrow> chain_step\<^sup>*\<^sup>* (h n) (h n')"
proof (induction n' rule: dec_induct)
  case (step n')
  from step.IH steps [of n'] show ?case by (rule rtranclp_trans)
qed simp

lemma history_le: "n \<le> n' \<Longrightarrow> chain_le (h n) (h n')"
  by (rule chain_reachable_le) (rule reachable)

lemma history_id: "mi_id (ch_inbox (h n)) = inbox"
  using history_le [of 0 n] start by (simp add: chain_le_def)

lemma history_inv: "chain_inv (h n)"
  by (rule chain_reachable_inv [OF reachable [of 0 n] start(1)]) simp

end

lemma serve_Ok [simp]: "serve r = Ok bs \<longleftrightarrow> r = Ok bs"
  by (simp add: serve_def)

lemma parse_inbox_mirror:
  assumes "bcs_to_bytes c_inbox (inbox_mirror c) = Ok bs"
  shows "parse_inbox_status (bcs_from_bytes c_inbox) bs = Ok (status_of c)"
  using assms [folded inbox_obj.canonical]
  by (simp add: parse_inbox_status_def status_of_def inbox_mirror_def)

lemma parse_pending_mirror:
  assumes "bcs_to_bytes (c_field c_pending_tx) (pending_mirror k p) = Ok bs" "tx_bytes p \<noteq> []"
  shows "parse_pending_tx (bcs_from_bytes (c_field c_pending_tx)) bs = Ok p"
  using assms(1) [folded pending_field.canonical] assms(2)
  by (simp add: parse_pending_tx_def pending_mirror_def)

sublocale chain_history \<subseteq> chain_reads ref_monitor_decoders "chain_monitor h inbox margin" h
proof unfold_locales
  fix n bs st
  assume "t_object (mon_transport (chain_monitor h inbox margin)) n (mon_inbox (chain_monitor h inbox margin)) = Ok bs"
    and p: "parse_inbox_status (dec_inbox (md_inbox ref_monitor_decoders)) bs = Ok st"
  then have "bcs_to_bytes c_inbox (inbox_mirror (h n)) = Ok bs"
    using start(3) history_id by (simp add: chain_monitor_def chain_transport_def)
  from parse_inbox_mirror [OF this] p show "st = status_of (h n)"
    by (simp add: ref_monitor_decoders_def ref_decoders_def)
next
  fix n bs t
  assume "t_object (mon_transport (chain_monitor h inbox margin)) n SUI_CLOCK_ID = Ok bs"
    and p: "parse_clock (md_clock ref_monitor_decoders) bs = Ok t"
  then have "bcs_to_bytes c_clock \<lparr>ck_id = SUI_CLOCK_ID, ck_timestamp_ms = ch_clock (h n)\<rparr> = Ok bs"
    by (simp add: chain_monitor_def chain_transport_def)
  from this [folded clock_obj.canonical] p show "t = ch_clock (h n)"
    by (simp add: ref_monitor_decoders_def parse_clock_def)
next
  fix n k bs p
  assume f: "t_field (mon_transport (chain_monitor h inbox margin)) n (mi_table (ch_inbox (h n))) k = Ok (Some bs)"
    and p: "parse_pending_tx (dec_pending (md_inbox ref_monitor_decoders)) bs = Ok p"
  from f obtain q where q: "mi_pending (ch_inbox (h n)) k = Some q"
    and bs: "bcs_to_bytes (c_field c_pending_tx) (pending_mirror k q) = Ok bs"
    by (auto simp: chain_monitor_def chain_transport_def and_then_eq_Inr split: option.splits)
  have "tx_bytes q \<noteq> []" using history_inv [of n] q by (auto simp: chain_inv_def ran_def)
  from parse_pending_mirror [OF bs this] p q show "mi_pending (ch_inbox (h n)) k = Some p"
    by (simp add: ref_monitor_decoders_def ref_decoders_def)
next
  fix n k
  assume "t_field (mon_transport (chain_monitor h inbox margin)) n (mi_table (ch_inbox (h n))) k = Ok None"
  then show "mi_pending (ch_inbox (h n)) k = None"
    by (auto simp: chain_monitor_def chain_transport_def and_then_eq_Inr split: option.splits)
next
  fix n n' :: nat
  assume "n \<le> n'"
  then show "chain_le (h n) (h n')" by (rule history_le)
qed

context chain_history
begin

lemmas halt_verdict = monitor_status_halted

end

section \<open>Properties\<close>

text \<open>A concrete run: one forced transaction submitted at genesis and never included, the clock
  past its deadline.\<close>

definition overdue_chain :: "address \<Rightarrow> address \<Rightarrow> chain" where
  "overdue_chain i t =
     (genesis i t 0)\<lparr>ch_clock := 700000,
       ch_inbox := (ch_inbox (genesis i t 0))\<lparr>mi_next_nonce := 1,
         mi_pending := [0 \<mapsto> \<lparr>deadline_ms = 600000, tx_bytes = [1]\<rparr>]\<rparr>\<rparr>"

definition sample_history :: "nat \<Rightarrow> chain" where
  "sample_history n = (if n = 0 then genesis (barr_fill 1) (barr_fill 2) 0 else overdue_chain (barr_fill 1) (barr_fill 2))"

text \<open>A run in which no settled block is stamped ahead of the consensus clock.\<close>

definition timely_step :: "chain \<Rightarrow> chain \<Rightarrow> bool" where
  "timely_step c c' \<longleftrightarrow> chain_step c c' \<and> mi_last_settled_ts (ch_inbox c') \<le> ch_clock c'"

lemma overdue_timely: "timely_step\<^sup>*\<^sup>* (genesis i t 0) (overdue_chain i t)"
proof -
  let ?g = "genesis i t 0"
  let ?ib = "(ch_inbox ?g)\<lparr>mi_next_nonce := 1, mi_pending := [0 \<mapsto> \<lparr>deadline_ms = 600000, tx_bytes = [1]\<rparr>]\<rparr>"
  have "move_submit (ch_inbox ?g) (ch_clock ?g) [1] = Ok ?ib"
    by (simp add: genesis_def move_submit_def move_effective_window_def DEFAULT_WINDOW_MS_def
        move_add_def table_add_def)
  then have "timely_step ?g (?g\<lparr>ch_inbox := ?ib\<rparr>)"
    by (simp add: timely_step_def chain_step.submit) (simp add: genesis_def)
  moreover have "chain_step (?g\<lparr>ch_inbox := ?ib\<rparr>) (?g\<lparr>ch_inbox := ?ib\<rparr>\<lparr>ch_clock := 700000\<rparr>)"
    by (rule chain_step.tick) (simp add: genesis_def)
  then have "timely_step (?g\<lparr>ch_inbox := ?ib\<rparr>) (overdue_chain i t)"
    by (simp add: timely_step_def overdue_chain_def) (simp add: genesis_def)
  ultimately show ?thesis by (rule rtranclp.rtrancl_into_rtrancl [OF r_into_rtranclp])
qed

lemma overdue_reachable: "chain_step\<^sup>*\<^sup>* (genesis i t 0) (overdue_chain i t)"
  using overdue_timely by (rule rtranclp_mono [THEN predicate2D, rotated]) (auto simp: timely_step_def)

lemma clock_id_not_fill: "barr_fill 1 \<noteq> SUI_CLOCK_ID"
proof
  assume "barr_fill 1 = SUI_CLOCK_ID"
  then have "hd (to_vec (barr_fill 1 :: address)) = hd (to_vec SUI_CLOCK_ID)" by simp
  then show False by (simp add: SUI_CLOCK_ID_def)
qed

interpretation sample: chain_history sample_history "barr_fill 1" margin for margin
  by unfold_locales (auto simp: sample_history_def overdue_reachable clock_id_not_fill,
      auto simp: genesis_def)

text \<open>
  C1: a halt verdict is linearizable. The monitor reads inbox, clock and oldest entry in separate
  round trips of a chain that keeps moving between them; whenever it asserts a halt (or a
  violation), some instant inside the poll has a chain state whose atomic classification is
  exactly that verdict, with its nonce, deadline and witness. No stale snapshot halts a node.
\<close>

theorem halt_verdict_linearizable:
  assumes "chain_inv (h 0)" "mi_id (ch_inbox (h 0)) = inbox" "inbox \<noteq> SUI_CLOCK_ID"
    and "\<And>n. chain_step\<^sup>*\<^sup>* (h n) (h (Suc n))"
    and "monitor_status ref_monitor_decoders (chain_monitor h inbox margin) n = Ok status"
    and "is_halted status"
  shows "\<exists>i \<in> {n..<n + 12}. atomic_status margin (h i) = status"
proof -
  have "chain_history h inbox" using assms(1-4) by unfold_locales
  from chain_history.halt_verdict [OF this assms(5,6)] show ?thesis
    by (simp add: chain_monitor_def CONFIRM_LIMIT_def)
qed

lemma sample_history_status:
  "monitor_status ref_monitor_decoders (chain_monitor sample_history (barr_fill 1) 1000) 1 = Ok (Halted 0 600000)"
proof -
  let ?o = "overdue_chain (barr_fill 1) (barr_fill 2)"
  have e: "bcs_to_bytes c_inbox x = Ok (inbox_layout x)" for x
    by (simp add: inbox_obj.canonical [symmetric])
  obtain cb where cb: "bcs_to_bytes c_clock \<lparr>ck_id = SUI_CLOCK_ID, ck_timestamp_ms = 700000\<rparr> = Ok cb"
    by (simp add: bcs_to_bytes_def c_clock_def codec_simps)
  obtain pb where pb: "bcs_to_bytes (c_field c_pending_tx) (pending_mirror 0 \<lparr>deadline_ms = 600000, tx_bytes = [1]\<rparr>) = Ok pb"
    by (simp add: bcs_to_bytes_def c_field_def c_pending_tx_def pending_mirror_def codec_simps)
  have pc: "parse_clock (bcs_from_bytes c_clock) cb = Ok 700000"
    using cb [folded clock_obj.canonical] by (simp add: parse_clock_def)
  have pp: "parse_pending_tx (bcs_from_bytes (c_field c_pending_tx)) pb = Ok \<lparr>deadline_ms = 600000, tx_bytes = [1]\<rparr>"
    using parse_pending_mirror [OF pb] by simp
  have pi: "parse_inbox_status (bcs_from_bytes c_inbox) (inbox_layout (inbox_mirror ?o)) = Ok (status_of ?o)"
    by (rule parse_inbox_mirror) (rule e)
  have h: "sample_history (Suc k) = ?o" "sample_history 4 = ?o" for k
    by (simp_all add: sample_history_def)
  have o: "ch_clock ?o = 700000" "mi_id (ch_inbox ?o) = barr_fill 1" "mi_table (ch_inbox ?o) = barr_fill 2"
    "mi_pending (ch_inbox ?o) 0 = Some \<lparr>deadline_ms = 600000, tx_bytes = [1]\<rparr>"
    "included_count (status_of ?o) = 0" "pending_table_uid (status_of ?o) = barr_fill 2"
    "last_settled_ts (status_of ?o) = 0"
    by (simp_all add: overdue_chain_def genesis_def status_of_def)
  let ?m = "chain_monitor sample_history (barr_fill 1) 1000"
  have "read_snapshot ref_monitor_decoders ?m 1 = Ok (status_of ?o, 700000, Some \<lparr>deadline_ms = 600000, tx_bytes = [1]\<rparr>)"
    using clock_id_not_fill h o e cb pb pc pp pi
    by (simp add: read_snapshot_def chain_monitor_def chain_transport_def ref_monitor_decoders_def
        ref_decoders_def serve_def)
  moreover have "confirm_unchanged ref_monitor_decoders ?m (Suc (Suc (Suc (Suc 0)))) (status_of ?o) = Ok True"
    using clock_id_not_fill h o e pi
    by (simp add: confirm_unchanged_def chain_monitor_def chain_transport_def
        ref_monitor_decoders_def ref_decoders_def serve_def)
  moreover have "classify 700000 1000 (status_of ?o) (Some \<lparr>deadline_ms = 600000, tx_bytes = [1]\<rparr>) = Halted 0 600000"
    using o by (simp add: classify_def saturating_add_def u64_max_def word_le_nat_alt)
  moreover have "mon_margin_ms ?m = 1000" by (simp add: chain_monitor_def)
  ultimately show ?thesis
    by (simp add: monitor_status_def CONFIRM_LIMIT_def numeral_3_eq_3 Let_def)
qed

theorem halt_verdict_linearizable_witness:
  "\<exists>i \<in> {1..<1 + 12}. atomic_status 1000 (sample_history i) = Halted 0 600000"
proof (rule halt_verdict_linearizable [where inbox = "barr_fill 1"])
  show "monitor_status ref_monitor_decoders (chain_monitor sample_history (barr_fill 1) 1000) 1 = Ok (Halted 0 600000)"
    by (rule sample_history_status)
qed (use sample.start sample.steps in auto)

definition witness_inv :: "chain \<Rightarrow> bool" where
  "witness_inv c \<longleftrightarrow> chain_inv c \<and> mi_last_settled_ts (ch_inbox c) \<le> ch_clock c \<and>
     (\<forall>p. mi_pending (ch_inbox c) (mi_included_count (ch_inbox c)) = Some p \<longrightarrow>
        mi_last_settled_ts (ch_inbox c) \<le> deadline_ms p)"

lemma timely_step_inv:
  assumes step: "chain_step c c'" and t: "mi_last_settled_ts (ch_inbox c') \<le> ch_clock c'" and inv: "witness_inv c"
  shows "witness_inv c'"
proof -
  have ci: "chain_inv c'" using chain_step_inv [OF step] inv by (simp add: witness_inv_def)
  have "mi_last_settled_ts (ch_inbox c') \<le> deadline_ms p"
    if p: "mi_pending (ch_inbox c') (mi_included_count (ch_inbox c')) = Some p" for p
    using step
  proof cases
    case (submit bytes ib)
    let ?i = "ch_inbox c"
    have n: "unat (ch_clock c) + unat (move_effective_window ?i (ch_clock c)) < 2 ^ 64"
      using submit(2) by (simp add: move_submit_Ok)
    have "ch_clock c \<le> ch_clock c + move_effective_window ?i (ch_clock c)"
      unfolding word_le_nat_alt using n by (simp add: unat_word_ariths)
    then have "mi_last_settled_ts ?i \<le> ch_clock c + move_effective_window ?i (ch_clock c)"
      using inv by (auto simp: witness_inv_def)
    with submit p inv show ?thesis
      by (auto simp: move_submit_Ok witness_inv_def split: if_splits)
  next
    case (settle blob h ts cur reg ib)
    with p inv show ?thesis unfolding do_settle_Ok
      by (auto simp: witness_inv_def enforce_settle_Ok)
  next
    case (stage w d ib)
    with move_window_Ok(1) [OF stage(2)] p inv show ?thesis by (auto simp: witness_inv_def)
  next
    case (cancel ib)
    with move_window_Ok(2) [OF cancel(2)] p inv show ?thesis by (auto simp: witness_inv_def)
  qed (use p inv in \<open>auto simp: witness_inv_def\<close>)
  with ci t show ?thesis by (simp add: witness_inv_def)
qed

text \<open>
  C22: under the settle gate the violation alarm stays silent: as long as settled blocks are not stamped
  ahead of the consensus clock, no reachable chain state is classified \<open>Violated\<close>, whatever
  transactions users, the steering authority and the sequencer submit.
\<close>

theorem timely_chain_never_violated:
  assumes "timely_step\<^sup>*\<^sup>* (genesis i t k) c"
  shows "atomic_status margin c \<noteq> Violated n dl s"
proof -
  have "witness_inv c" using assms
  proof (induction rule: rtranclp_induct)
    case base
    show ?case by (simp add: witness_inv_def, simp add: genesis_def)
  next
    case (step y z)
    then show ?case by (auto simp: timely_step_def intro: timely_step_inv)
  qed
  then show ?thesis
    by (auto simp: atomic_status_def classify_def status_of_def witness_inv_def split: option.splits if_splits)
qed

theorem timely_chain_never_violated_witness:
  "atomic_status 1000 (overdue_chain (barr_fill 1) (barr_fill 2)) \<noteq> Violated 0 600000 0"
  by (rule timely_chain_never_violated [OF overdue_timely])

text \<open>A run that settles a block stamped far ahead of the clock and then submits.\<close>

definition future_inbox :: "address \<Rightarrow> address \<Rightarrow> move_inbox" where
  "future_inbox i t = (ch_inbox (genesis i t 0))\<lparr>mi_last_settled_ts := 1000000\<rparr>"

definition future_registry :: move_registry where
  "future_registry = \<lparr>mr_latest_height = 1, mr_commitments = [1 \<mapsto> [7]], mr_state_roots = Map.empty\<rparr>"

definition future_chain :: "address \<Rightarrow> address \<Rightarrow> chain" where
  "future_chain i t =
     \<lparr>ch_clock = 700000,
      ch_inbox = (future_inbox i t)\<lparr>mi_next_nonce := 1,
        mi_pending := [0 \<mapsto> \<lparr>deadline_ms = 600000, tx_bytes = [1]\<rparr>]\<rparr>,
      ch_registry = future_registry\<rparr>"

lemma future_settle:
  "do_settle (ch_registry (genesis i t 0)) (ch_inbox (genesis i t 0)) [7] 1 1000000 0 =
     Ok (future_registry, future_inbox i t)"
  by (simp add: do_settle_def genesis_def move_add_def enforce_settle_def prune.simps Let_def
      table_add_def future_inbox_def future_registry_def)

lemma future_submit:
  "move_submit (future_inbox i t) 0 [1] =
     Ok ((future_inbox i t)\<lparr>mi_next_nonce := 1, mi_pending := [0 \<mapsto> \<lparr>deadline_ms = 600000, tx_bytes = [1]\<rparr>]\<rparr>)"
  by (simp add: future_inbox_def genesis_def move_submit_def move_effective_window_def
      DEFAULT_WINDOW_MS_def move_add_def table_add_def)

lemma future_reachable: "chain_step\<^sup>*\<^sup>* (genesis i t 0) (future_chain i t)"
proof -
  let ?g = "genesis i t 0"
  let ?s = "?g\<lparr>ch_registry := future_registry, ch_inbox := future_inbox i t\<rparr>"
  have c: "ch_clock ?g = 0" by (simp add: genesis_def)
  have "chain_step ?g ?s" by (rule chain_step.settle [OF future_settle])
  moreover have "chain_step ?s (future_chain i t\<lparr>ch_clock := 0\<rparr>)"
  proof -
    have "move_submit (ch_inbox ?s) (ch_clock ?s) [1] = Ok (ch_inbox (future_chain i t))"
      by (simp add: future_submit c future_chain_def)
    from chain_step.submit [OF this] show ?thesis by (simp add: future_chain_def genesis_def)
  qed
  moreover have "chain_step (future_chain i t\<lparr>ch_clock := 0\<rparr>) (future_chain i t)"
    using chain_step.tick [of "future_chain i t\<lparr>ch_clock := 0\<rparr>" 700000] by (simp add: future_chain_def)
  ultimately show ?thesis by (meson converse_rtranclp_into_rtranclp r_into_rtranclp)
qed

text \<open>
  the contract alone does not rule the violation alarm out. The gate bounds a block timestamp from
  below only, so a block stamped ahead of the clock can settle first; a transaction submitted
  afterwards is then older than the witness, and once its deadline passes a full node reports
  \<open>Violated\<close> although no settle happened while the entry was pending.
\<close>

lemma violated_reachable_by_future_timestamp:
  "\<exists>c. chain_step\<^sup>*\<^sup>* (genesis i t 0) c \<and> atomic_status 1000 c = Violated 0 600000 1000000"
proof (intro exI conjI)
  show "chain_step\<^sup>*\<^sup>* (genesis i t 0) (future_chain i t)" by (rule future_reachable)
  show "atomic_status 1000 (future_chain i t) = Violated 0 600000 1000000"
    by (simp add: atomic_status_def future_chain_def future_inbox_def genesis_def status_of_def
        classify_def saturating_add_def u64_max_def word_le_nat_alt)
qed

end
