(* ===== verification/Rotation.thy ===== *)
theory Rotation
  imports Deadline
begin

text \<open>
  Cap rotation: the on-chain authority record (\<open>move/sources/rotation.move\<close>), and the node's
  chain-derived roles, plans and transactions (\<open>crates/sui/src/rotation.rs\<close>).
\<close>

section \<open>Authority record\<close>

definition MIN_DELAY_MS :: u64 where "MIN_DELAY_MS = 600000"
definition MAX_DELAY_MS :: u64 where "MAX_DELAY_MS = 604800000"
definition DEFAULT_DELAY_MS :: u64 where "DEFAULT_DELAY_MS = 86400000"
definition CLAIM_WINDOW_MS :: u64 where "CLAIM_WINDOW_MS = 604800000"
definition PREV_GRACE_MS :: u64 where "PREV_GRACE_MS = 600000"
definition STATE_KEY_BCS :: "byte list" where "STATE_KEY_BCS = []"

record previous_authority =
  prev_addr :: address
  until_ms :: u64

record pending_rotation =
  rot_to :: address
  eligible_at_ms :: u64

record rotation_state =
  authority :: address
  rs_prev :: "previous_authority option"
  rs_pending :: "pending_rotation option"

subsection \<open>Contract\<close>

datatype rot_abort =
    E_NOT_AUTHORIZED
  | E_NO_PENDING
  | E_NOT_CLAIM_TARGET
  | E_CLAIM_TOO_EARLY
  | E_CLAIM_WINDOW_EXPIRED
  | E_ROT_DELAY_OUT_OF_BOUNDS
  | E_NO_PREVIOUS
  | ROT_ARITHMETIC_ERROR

definition rot_add :: "u64 \<Rightarrow> u64 \<Rightarrow> (rot_abort, u64) result" where
  "rot_add a b = (if unat a + unat b < 2 ^ 64 then Ok (a + b) else Err ROT_ARITHMETIC_ERROR)"

definition can_act :: "rotation_state \<Rightarrow> u64 \<Rightarrow> address \<Rightarrow> bool" where
  "can_act st clock sender \<longleftrightarrow>
     sender = authority st \<or>
     (case rs_prev st of None \<Rightarrow> False | Some p \<Rightarrow> prev_addr p = sender \<and> clock \<le> until_ms p)"

definition move_request_rotation ::
    "rotation_state \<Rightarrow> address \<Rightarrow> u64 \<Rightarrow> u64 \<Rightarrow> (rot_abort, rotation_state) result" where
  "move_request_rotation st target delay clock =
     (if \<not> (MIN_DELAY_MS \<le> delay \<and> delay \<le> MAX_DELAY_MS) then Err E_ROT_DELAY_OUT_OF_BOUNDS
      else and_then (rot_add clock delay) (\<lambda>at.
        Ok (st\<lparr>rs_pending := Some \<lparr>rot_to = target, eligible_at_ms = at\<rparr>\<rparr>)))"

definition move_cancel_rotation :: "rotation_state \<Rightarrow> address \<Rightarrow> (rot_abort, rotation_state) result" where
  "move_cancel_rotation st sender =
     (if sender \<noteq> authority st then Err E_NOT_AUTHORIZED
      else if rs_pending st = None then Err E_NO_PENDING
      else Ok (st\<lparr>rs_pending := None\<rparr>))"

definition move_claim_rotation :: "rotation_state \<Rightarrow> u64 \<Rightarrow> address \<Rightarrow> (rot_abort, rotation_state) result" where
  "move_claim_rotation st now sender =
     (case rs_pending st of
        None \<Rightarrow> Err E_NO_PENDING
      | Some p \<Rightarrow>
          if sender \<noteq> rot_to p then Err E_NOT_CLAIM_TARGET
          else if \<not> eligible_at_ms p \<le> now then Err E_CLAIM_TOO_EARLY
          else and_then (rot_add (eligible_at_ms p) CLAIM_WINDOW_MS) (\<lambda>close.
            if \<not> now \<le> close then Err E_CLAIM_WINDOW_EXPIRED
            else and_then (rot_add now PREV_GRACE_MS) (\<lambda>until.
              Ok \<lparr>authority = sender, rs_prev = Some \<lparr>prev_addr = authority st, until_ms = until\<rparr>,
                  rs_pending = None\<rparr>)))"

definition move_retire_previous :: "rotation_state \<Rightarrow> address \<Rightarrow> (rot_abort, rotation_state) result" where
  "move_retire_previous st sender =
     (if sender \<noteq> authority st then Err E_NOT_AUTHORIZED
      else if rs_prev st = None then Err E_NO_PREVIOUS
      else Ok (st\<lparr>rs_prev := None\<rparr>))"

section \<open>Read model\<close>

definition rotation_state_field_id :: "rpc_env \<Rightarrow> address \<Rightarrow> address \<Rightarrow> address" where
  "rotation_state_field_id env parent package =
     derive_dynamic_child_id env parent (TagStruct package ''rotation'' ''StateKey'') STATE_KEY_BCS"

definition parse_rotation_state ::
    "(byte list \<Rightarrow> (string, rotation_state unit_field_bcs) result) \<Rightarrow> byte list \<Rightarrow>
     (settlement_error, rotation_state) result" where
  "parse_rotation_state from_bytes bs =
     (case from_bytes bs of
        Inl e \<Rightarrow> Err (SParse (''rotation state BCS: '' @ e))
      | Inr field \<Rightarrow> Ok (uf_value field))"

section \<open>Roles and plans\<close>

datatype role =
    RoleActive
  | WaitingClaim u64
  | ClaimReady
  | RoleAdopt u64
  | StagedIsAuthority
  | RoleMisconfigured

definition derive_role :: "rotation_state \<Rightarrow> u64 \<Rightarrow> address \<Rightarrow> address \<Rightarrow> role" where
  "derive_role st now_ms active staged =
     (if authority st = staged then
        (case rs_prev st of
           Some p \<Rightarrow> if prev_addr p = active \<and> now_ms \<le> until_ms p then RoleAdopt (until_ms p)
                     else StagedIsAuthority
         | None \<Rightarrow> StagedIsAuthority)
      else if authority st = active then
        (case rs_pending st of
           Some p \<Rightarrow>
             if rot_to p = staged then
               if now_ms < eligible_at_ms p then WaitingClaim (eligible_at_ms p)
               else if now_ms \<le> saturating_add (eligible_at_ms p) CLAIM_WINDOW_MS then ClaimReady
               else RoleActive
             else RoleActive
         | None \<Rightarrow> RoleActive)
      else RoleMisconfigured)"

datatype plan = PlanIdle | PlanClaim | PlanAdopt | PlanRetire | PlanMisconfigured

fun fold_roles :: "bool \<Rightarrow> role \<Rightarrow> role \<Rightarrow> plan" where
  "fold_roles has_prev RoleMisconfigured _ = PlanMisconfigured"
| "fold_roles has_prev _ RoleMisconfigured = PlanMisconfigured"
| "fold_roles has_prev ClaimReady ClaimReady = PlanClaim"
| "fold_roles has_prev (RoleAdopt _) (RoleAdopt _) = PlanAdopt"
| "fold_roles has_prev StagedIsAuthority StagedIsAuthority = (if has_prev then PlanRetire else PlanIdle)"
| "fold_roles has_prev RoleActive RoleActive = PlanIdle"
| "fold_roles has_prev (WaitingClaim _) (WaitingClaim _) = PlanIdle"
| "fold_roles has_prev _ _ = PlanMisconfigured"

definition plan_of :: "rotation_state \<Rightarrow> rotation_state \<Rightarrow> u64 \<Rightarrow> address \<Rightarrow> address \<Rightarrow> plan" where
  "plan_of settlement vault now_ms active staged =
     fold_roles (rs_prev settlement \<noteq> None \<or> rs_prev vault \<noteq> None)
       (derive_role settlement now_ms active staged) (derive_role vault now_ms active staged)"

section \<open>Executing a plan\<close>

text \<open>An executor acts on a world \<open>'w\<close>: the chain and the node's signers.\<close>

record ('key, 'w) executor =
  ex_claim :: "'key \<Rightarrow> 'w \<Rightarrow> (settlement_error, unit) result \<times> 'w"
  ex_adopt :: "'key \<Rightarrow> 'w \<Rightarrow> (settlement_error, unit) result \<times> 'w"
  ex_retire_previous :: "'key \<Rightarrow> 'w \<Rightarrow> (settlement_error, unit) result \<times> 'w"

text \<open>\<open>AdoptedKey\<close>: the holder of the adopted key.\<close>

definition adopted_key_set :: "'key \<Rightarrow> 'key option \<Rightarrow> 'key option" where
  "adopted_key_set key _ = Some key"

text \<open>Instants are milliseconds of the node's monotonic clock.\<close>

record adoption_guard =
  adopted_at :: "nat option"
  retire_quiet :: nat

definition guard_new :: "nat \<Rightarrow> adoption_guard" where
  "guard_new quiet = \<lparr>adopted_at = None, retire_quiet = quiet\<rparr>"

definition mark_adopted :: "nat \<Rightarrow> adoption_guard \<Rightarrow> adoption_guard" where
  "mark_adopted instant g = g\<lparr>adopted_at := Some instant\<rparr>"

definition adopted :: "adoption_guard \<Rightarrow> bool" where
  "adopted g \<longleftrightarrow> adopted_at g \<noteq> None"

definition retire_ready :: "nat \<Rightarrow> adoption_guard \<Rightarrow> bool" where
  "retire_ready instant g =
     (case adopted_at g of Some at \<Rightarrow> instant - at \<ge> retire_quiet g | None \<Rightarrow> False)"

datatype action = ActIdle | ActClaimed | ActAdopted | ActRetired | ActRefused

definition adopt_step ::
    "('key, 'w) executor \<Rightarrow> 'key option \<Rightarrow> nat \<Rightarrow> adoption_guard \<Rightarrow> 'w \<Rightarrow>
     (settlement_error, action) result \<times> adoption_guard \<times> 'w" where
  "adopt_step ex staged_key instant g w =
     (case staged_key of
        None \<Rightarrow> (Ok ActRefused, g, w)
      | Some key \<Rightarrow>
          (case ex_adopt ex key w of
             (Inl e, w') \<Rightarrow> (Err e, g, w')
           | (Inr _, w') \<Rightarrow> (Ok ActAdopted, mark_adopted instant g, w')))"

definition retire_step ::
    "('key, 'w) executor \<Rightarrow> 'key option \<Rightarrow> adoption_guard \<Rightarrow> 'w \<Rightarrow>
     (settlement_error, action) result \<times> adoption_guard \<times> 'w" where
  "retire_step ex staged_key g w =
     (case staged_key of
        None \<Rightarrow> (Ok ActRefused, g, w)
      | Some key \<Rightarrow>
          (case ex_retire_previous ex key w of
             (Inl e, w') \<Rightarrow> (Err e, g, w')
           | (Inr _, w') \<Rightarrow> (Ok ActRetired, g, w')))"

fun apply_plan ::
    "('key, 'w) executor \<Rightarrow> plan \<Rightarrow> 'key option \<Rightarrow> nat \<Rightarrow> adoption_guard \<Rightarrow> 'w \<Rightarrow>
     (settlement_error, action) result \<times> adoption_guard \<times> 'w" where
  "apply_plan ex PlanIdle staged_key instant g w = (Ok ActIdle, g, w)"
| "apply_plan ex PlanMisconfigured staged_key instant g w = (Ok ActRefused, g, w)"
| "apply_plan ex PlanClaim staged_key instant g w =
     (case staged_key of
        None \<Rightarrow> (Ok ActRefused, g, w)
      | Some key \<Rightarrow>
          (case ex_claim ex key w of
             (Inl e, w') \<Rightarrow> (Err e, g, w')
           | (Inr _, w') \<Rightarrow> (Ok ActClaimed, g, w')))"
| "apply_plan ex PlanAdopt staged_key instant g w =
     (if adopted g then
        if retire_ready instant g then retire_step ex staged_key g w else (Ok ActIdle, g, w)
      else adopt_step ex staged_key instant g w)"
| "apply_plan ex PlanRetire staged_key instant g w =
     (if adopted g then retire_step ex staged_key g w
      else adopt_step ex staged_key instant g w)"

section \<open>Watcher\<close>

record watcher =
  w_transport :: transport
  w_package :: address
  w_registry :: address
  w_vault :: address
  w_active :: address
  w_staged :: "address option"

record rotation_decoders =
  rd_state :: "byte list \<Rightarrow> (string, rotation_state unit_field_bcs) result"
  rd_clock :: "byte list \<Rightarrow> (string, clock_bcs) result"

record rotation_status =
  st_settlement :: rotation_state
  st_vault :: rotation_state
  st_now_ms :: u64

definition watcher_status ::
    "rpc_env \<Rightarrow> rotation_decoders \<Rightarrow> watcher \<Rightarrow> nat \<Rightarrow> (inbox_error, rotation_status) result" where
  "watcher_status env d w n =
     and_then (t_object (w_transport w) n (rotation_state_field_id env (w_registry w) (w_package w))) (\<lambda>sb.
     and_then (t_object (w_transport w) (n + 1) (rotation_state_field_id env (w_vault w) (w_package w))) (\<lambda>vb.
     and_then (t_object (w_transport w) (n + 2) SUI_CLOCK_ID) (\<lambda>cb.
     and_then (map_err (\<lambda>e. InboxParse (settlement_error_display e)) (parse_rotation_state (rd_state d) sb)) (\<lambda>s.
     and_then (map_err (\<lambda>e. InboxParse (settlement_error_display e)) (parse_rotation_state (rd_state d) vb)) (\<lambda>v.
     and_then (parse_clock (rd_clock d) cb) (\<lambda>now.
       Ok \<lparr>st_settlement = s, st_vault = v, st_now_ms = now\<rparr>))))))"

definition watcher_roles :: "watcher \<Rightarrow> rotation_status \<Rightarrow> role \<times> role" where
  "watcher_roles w st =
     (case w_staged w of
        None \<Rightarrow> (RoleMisconfigured, RoleMisconfigured)
      | Some staged \<Rightarrow>
          (derive_role (st_settlement st) (st_now_ms st) (w_active w) staged,
           derive_role (st_vault st) (st_now_ms st) (w_active w) staged))"

definition watcher_plan ::
    "rpc_env \<Rightarrow> rotation_decoders \<Rightarrow> watcher \<Rightarrow> nat \<Rightarrow> (inbox_error, plan) result" where
  "watcher_plan env d w n =
     (case w_staged w of
        None \<Rightarrow> Ok PlanIdle
      | Some staged \<Rightarrow>
          and_then (watcher_status env d w n) (\<lambda>st.
            Ok (plan_of (st_settlement st) (st_vault st) (st_now_ms st) (w_active w) staged)))"

definition entombment_needed ::
    "rpc_env \<Rightarrow> watcher \<Rightarrow> nat \<Rightarrow> address \<Rightarrow> (inbox_error, bool) result" where
  "entombment_needed env w n parent =
     (case t_object (w_transport w) n (rotation_state_field_id env parent (w_package w)) of
        Inl (InboxNotFound _) \<Rightarrow> Ok True
      | Inl e \<Rightarrow> Err e
      | Inr _ \<Rightarrow> Ok False)"

section \<open>Transactions\<close>

record rotation_targets =
  rt_package :: address
  rt_registry :: address
  rt_vault :: address

record ops_caps =
  settler_cap :: address
  bridge_cap :: address

definition claim_calls :: "rotation_targets \<Rightarrow> move_call list" where
  "claim_calls targets =
     [\<lparr>mc_package = rt_package targets, mc_module = ''settlement'', mc_function = ''claim_rotation'',
       mc_args = [ArgObject (rt_registry targets), ArgObject SUI_CLOCK_ID]\<rparr>,
      \<lparr>mc_package = rt_package targets, mc_module = ''bridge'', mc_function = ''claim_rotation'',
       mc_args = [ArgObject (rt_vault targets), ArgObject SUI_CLOCK_ID]\<rparr>]"

definition submit_claim ::
    "('key, 'tx, 'sg) tx_env \<Rightarrow> string \<Rightarrow> 'key \<Rightarrow> rotation_targets \<Rightarrow> (settlement_error, unit) result" where
  "submit_claim te rpc_url key targets =
     submit_rotation_tx te rpc_url key ''rotation claim'' (claim_calls targets)"

definition retire_calls :: "rotation_targets \<Rightarrow> move_call list" where
  "retire_calls targets =
     [\<lparr>mc_package = rt_package targets, mc_module = ''settlement'', mc_function = ''retire_previous'',
       mc_args = [ArgObject (rt_registry targets)]\<rparr>,
      \<lparr>mc_package = rt_package targets, mc_module = ''bridge'', mc_function = ''retire_previous'',
       mc_args = [ArgObject (rt_vault targets)]\<rparr>]"

definition submit_retire_previous ::
    "('key, 'tx, 'sg) tx_env \<Rightarrow> string \<Rightarrow> 'key \<Rightarrow> rotation_targets \<Rightarrow> (settlement_error, unit) result" where
  "submit_retire_previous te rpc_url key targets =
     submit_rotation_tx te rpc_url key ''rotation retire'' (retire_calls targets)"

definition validate_request_delay :: "u64 \<Rightarrow> (settlement_error, unit) result" where
  "validate_request_delay delay_ms =
     (if \<not> (MIN_DELAY_MS \<le> delay_ms \<and> delay_ms \<le> MAX_DELAY_MS) then
        Err (SParse (''rotation delay '' @ show_u64 delay_ms @ '' ms outside ['' @
               show_u64 MIN_DELAY_MS @ '', '' @ show_u64 MAX_DELAY_MS @ '']''))
      else Ok ())"

definition submit_request ::
    "('key, 'tx, 'sg) tx_env \<Rightarrow> string \<Rightarrow> 'key \<Rightarrow> rotation_targets \<Rightarrow> ops_caps \<Rightarrow> address \<Rightarrow> u64 \<Rightarrow>
     (settlement_error, unit) result" where
  "submit_request te rpc_url key targets ops target delay_ms =
     and_then (validate_request_delay delay_ms) (\<lambda>_.
       submit_rotation_tx te rpc_url key ''rotation request''
         [\<lparr>mc_package = rt_package targets, mc_module = ''settlement'', mc_function = ''request_rotation_ops'',
           mc_args = [ArgObject (rt_registry targets), ArgObject SUI_CLOCK_ID, ArgAddress target,
                      ArgU64 delay_ms, ArgObject (settler_cap ops)]\<rparr>,
          \<lparr>mc_package = rt_package targets, mc_module = ''bridge'', mc_function = ''request_rotation_ops'',
           mc_args = [ArgObject (rt_vault targets), ArgObject SUI_CLOCK_ID, ArgAddress target,
                      ArgU64 delay_ms, ArgObject (bridge_cap ops)]\<rparr>])"

definition submit_entomb_settler ::
    "('key, 'tx, 'sg) tx_env \<Rightarrow> string \<Rightarrow> 'key \<Rightarrow> address \<Rightarrow> address \<Rightarrow> address \<Rightarrow> (settlement_error, unit) result" where
  "submit_entomb_settler te rpc_url key package registry cap =
     submit_rotation_tx te rpc_url key ''entomb settler cap''
       [\<lparr>mc_package = package, mc_module = ''settlement'', mc_function = ''entomb_settler_cap_ops'',
         mc_args = [ArgObject cap, ArgObject registry]\<rparr>]"

definition submit_entomb_bridge ::
    "('key, 'tx, 'sg) tx_env \<Rightarrow> string \<Rightarrow> 'key \<Rightarrow> address \<Rightarrow> address \<Rightarrow> address \<Rightarrow> (settlement_error, unit) result" where
  "submit_entomb_bridge te rpc_url key package vault cap =
     submit_rotation_tx te rpc_url key ''entomb bridge cap''
       [\<lparr>mc_package = package, mc_module = ''bridge'', mc_function = ''entomb_bridge_cap_ops'',
         mc_args = [ArgObject cap, ArgObject vault]\<rparr>]"

section \<open>Properties\<close>

lemma rot_add_Ok: "rot_add a b = Ok s \<longleftrightarrow> s = a + b \<and> unat a + unat b < 2 ^ 64"
  by (auto simp: rot_add_def)

lemma saturating_add_no_overflow:
  "unat (a :: u64) + unat b < 2 ^ 64 \<Longrightarrow> saturating_add a b = a + b"
  by (simp add: word_unat_eq_iff unat_saturating_add unat_word_ariths min_def)

lemma claim_succeeds:
  assumes "rs_pending st = Some p" "rot_to p = staged" "eligible_at_ms p \<le> now"
    and "now \<le> eligible_at_ms p + CLAIM_WINDOW_MS"
    and "unat (eligible_at_ms p) + unat CLAIM_WINDOW_MS < 2 ^ 64" "unat now + unat PREV_GRACE_MS < 2 ^ 64"
  shows "move_claim_rotation st now staged =
    Ok \<lparr>authority = staged, rs_prev = Some \<lparr>prev_addr = authority st, until_ms = now + PREV_GRACE_MS\<rparr>,
        rs_pending = None\<rparr>"
  using assms by (simp add: move_claim_rotation_def rot_add_def)



end
