(* ===== verification/Sui_Bridge.thy ===== *)
theory Sui_Bridge
  imports Settlement Rotation
begin

text \<open>
  The Sui side of the enshrined bridge: the client (\<open>crates/sui/src/bridge.rs\<close>) that creates the Vault,
  releases coins and reads the Vault and its deposits.
\<close>

section \<open>Errors\<close>

datatype bridge_error =
    BIo string
  | BKey string
  | BRpc string
  | BBuild string
  | BExecution string
  | BParse string

fun bridge_error_display :: "bridge_error \<Rightarrow> string" where
  "bridge_error_display (BIo e) = ''io error: '' @ e"
| "bridge_error_display (BKey e) = ''key error: '' @ e"
| "bridge_error_display (BRpc e) = ''rpc error: '' @ e"
| "bridge_error_display (BBuild e) = ''transaction build error: '' @ e"
| "bridge_error_display (BExecution e) = ''transaction execution failed: '' @ e"
| "bridge_error_display (BParse e) = ''parse error: '' @ e"

fun bridge_error_of :: "settlement_error \<Rightarrow> bridge_error" where
  "bridge_error_of (SIo e) = BIo e"
| "bridge_error_of (SKey s) = BKey s"
| "bridge_error_of (SRpc s) = BRpc s"
| "bridge_error_of (SBuild s) = BBuild s"
| "bridge_error_of (SExecution s) = BExecution s"
| "bridge_error_of (SParse s) = BParse s"

definition core_of_bridge_error :: "bridge_error \<Rightarrow> core_error" where
  "core_of_bridge_error e = Network (bridge_error_display e)"

section \<open>Client\<close>

record deposit_record =
  dr_amount :: u64
  dr_recipient_l2 :: "byte list"
  dr_coin_type :: "byte list"

record 'key bridge_client =
  bc_key :: 'key
  bc_sender :: address
  bc_package :: address
  bc_cap :: address
  bc_vault :: address

definition bridge_from_parts ::
    "('key, 'tx, 'sg) tx_env \<Rightarrow> (string \<Rightarrow> (string, address) result) \<Rightarrow> 'key \<Rightarrow> address \<Rightarrow> string \<Rightarrow> string \<Rightarrow> string \<Rightarrow>
     string \<Rightarrow> (bridge_error, 'key bridge_client) result" where
  "bridge_from_parts te parse key sender package_id cap_id vault_id rpc_url =
     and_then (map_err BRpc (te_client te rpc_url)) (\<lambda>_.
     and_then (map_err bridge_error_of (parse_address parse package_id ''package id'')) (\<lambda>package.
     and_then (map_err bridge_error_of (parse_address parse cap_id ''cap id'')) (\<lambda>cap.
     and_then (map_err bridge_error_of (parse_address parse vault_id ''vault id'')) (\<lambda>vault.
       Ok \<lparr>bc_key = key, bc_sender = sender, bc_package = package, bc_cap = cap, bc_vault = vault\<rparr>))))"

definition bridge_new ::
    "('key, 'tx, 'sg) tx_env \<Rightarrow> (string \<Rightarrow> (string, string) result) \<Rightarrow> (string \<Rightarrow> (string, 'key) result) \<Rightarrow>
     (string \<Rightarrow> (string, address) result) \<Rightarrow> string \<Rightarrow> string \<Rightarrow> string \<Rightarrow> string \<Rightarrow> string \<Rightarrow>
     (bridge_error, 'key bridge_client) result" where
  "bridge_new te read parse_key parse key_path package_id cap_id vault_id rpc_url =
     and_then (map_err bridge_error_of (load_signer te read parse_key key_path)) (\<lambda>(key, sender).
       bridge_from_parts te parse key sender package_id cap_id vault_id rpc_url)"

text \<open>The key the rotation watcher adopted wins over the key file.\<close>

definition bridge_new_or_adopted ::
    "('key, 'tx, 'sg) tx_env \<Rightarrow> (string \<Rightarrow> (string, string) result) \<Rightarrow> (string \<Rightarrow> (string, 'key) result) \<Rightarrow>
     (string \<Rightarrow> (string, address) result) \<Rightarrow> 'key option \<Rightarrow> string \<Rightarrow> string \<Rightarrow> string \<Rightarrow> string \<Rightarrow> string \<Rightarrow>
     (bridge_error, 'key bridge_client) result" where
  "bridge_new_or_adopted te read parse_key parse adopted_key key_path package_id cap_id vault_id rpc_url =
     and_then (case adopted_key of
                 Some key \<Rightarrow> Ok (key, te_derive te key)
               | None \<Rightarrow> map_err bridge_error_of (load_signer te read parse_key key_path)) (\<lambda>(key, sender).
       bridge_from_parts te parse key sender package_id cap_id vault_id rpc_url)"

definition bridge_swap_key :: "('key, 'tx, 'sg) tx_env \<Rightarrow> 'key \<Rightarrow> 'key bridge_client \<Rightarrow> 'key bridge_client" where
  "bridge_swap_key te key c = c\<lparr>bc_sender := te_derive te key, bc_key := key\<rparr>"

text \<open>\<open>bridge_function\<close> with its arguments as one call.\<close>

definition bridge_call :: "address \<Rightarrow> string \<Rightarrow> ptb_arg list \<Rightarrow> move_call" where
  "bridge_call package name args =
     \<lparr>mc_package = package, mc_module = ''bridge'', mc_function = name, mc_args = args\<rparr>"

definition bridge_build_tx ::
    "('key, 'tx, 'sg) tx_env \<Rightarrow> ptb \<Rightarrow> (bridge_error, 'tx) result" where
  "bridge_build_tx te b = map_err BBuild (te_build te b)"

definition bridge_submit ::
    "('key, 'tx, 'sg) tx_env \<Rightarrow> 'key bridge_client \<Rightarrow> 'tx \<Rightarrow> string \<Rightarrow> (bridge_error, unit) result" where
  "bridge_submit te c tx label =
     and_then (map_err bridge_error_of (sign_and_execute te (bc_key c) tx label DEPLOY_TX_WAIT)) (\<lambda>_. Ok ())"

definition withdraw_commands :: "'key bridge_client \<Rightarrow> string \<Rightarrow> address \<Rightarrow> u64 \<Rightarrow> u64 \<Rightarrow> command list" where
  "withdraw_commands c coin_type recipient amount l2_nonce =
     [MoveCallT [coin_type] (bridge_call (bc_package c) ''withdraw_as''
        [ArgObject (bc_vault c), ArgObject SUI_CLOCK_ID, ArgAddress recipient, ArgU64 amount, ArgU64 l2_nonce])]"

text \<open>\<open>coin_type\<close> is a type tag, by its text.\<close>

definition bridge_withdraw ::
    "('key, 'tx, 'sg) tx_env \<Rightarrow> 'key bridge_client \<Rightarrow> string \<Rightarrow> address \<Rightarrow> u64 \<Rightarrow> u64 \<Rightarrow> (bridge_error, unit) result" where
  "bridge_withdraw te c coin_type recipient amount l2_nonce =
     and_then (bridge_build_tx te \<lparr>ptb_sender = bc_sender c,
                                   ptb_calls = withdraw_commands c coin_type recipient amount l2_nonce\<rparr>) (\<lambda>tx.
       bridge_submit te c tx ''bridge withdraw'')"

record deployed_bridge =
  db_vault_id :: string
  db_cap_id :: string

definition initialize_with_key ::
    "('key, 'tx, 'sg) tx_env \<Rightarrow> (string \<Rightarrow> (string, address) result) \<Rightarrow> 'key \<Rightarrow> string \<Rightarrow> string \<Rightarrow>
     (bridge_error, deployed_bridge) result" where
  "initialize_with_key te parse key rpc_url package_id =
     (let sender = te_derive te key in
      and_then (map_err BRpc (te_client te rpc_url)) (\<lambda>_.
      and_then (map_err bridge_error_of (parse_address parse package_id ''package id'')) (\<lambda>package.
      and_then (map_err BBuild (te_build te
                 \<lparr>ptb_sender = sender, ptb_calls = [MoveCall (bridge_call package ''initialize'' [])]\<rparr>)) (\<lambda>tx.
      and_then (map_err bridge_error_of (sign_and_execute te key tx ''bridge initialize'' DEPLOY_TX_WAIT)) (\<lambda>r.
      and_then (ok_or (BExecution ''Vault not found in bridge initialize response'')
                 (find_created_object (tr_changed r) OwnerShared)) (\<lambda>vault_id.
      and_then (ok_or (BExecution ''BridgeCap not found in bridge initialize response'')
                 (find_created_object (tr_changed r) OwnerAddress)) (\<lambda>cap_id.
      and_then (map_err bridge_error_of (parse_address parse cap_id ''bridge cap id'')) (\<lambda>cap.
      and_then (map_err bridge_error_of (parse_address parse vault_id ''vault id'')) (\<lambda>vault.
      and_then (map_err (\<lambda>e. BBuild (''entomb bridge cap: '' @ e)) (te_build te
                 \<lparr>ptb_sender = sender,
                  ptb_calls = [MoveCall (bridge_call package ''entomb_bridge_cap_ops'' [ArgObject cap, ArgObject vault])]\<rparr>)) (\<lambda>tx2.
      and_then (map_err bridge_error_of (sign_and_execute te key tx2 ''entomb bridge cap'' DEPLOY_TX_WAIT)) (\<lambda>_.
        Ok \<lparr>db_vault_id = vault_id, db_cap_id = cap_id\<rparr>)))))))))))"

definition bridge_initialize ::
    "('key, 'tx, 'sg) tx_env \<Rightarrow> (string \<Rightarrow> (string, string) result) \<Rightarrow> (string \<Rightarrow> (string, 'key) result) \<Rightarrow>
     (string \<Rightarrow> (string, address) result) \<Rightarrow> string \<Rightarrow> string \<Rightarrow> string \<Rightarrow> (bridge_error, deployed_bridge) result" where
  "bridge_initialize te read parse_key parse key_path rpc_url package_id =
     and_then (map_err bridge_error_of (load_signer te read parse_key key_path)) (\<lambda>(key, _).
       initialize_with_key te parse key rpc_url package_id)"

section \<open>Reads\<close>

record vault_view =
  vs_deposit_nonce :: u64
  vs_withdraw_nonce :: u64
  vs_deposits_table_uid :: address

text \<open>\<open>BagBcs\<close> and \<open>TableBcs\<close> have one layout.\<close>

record vault_bcs =
  vb_id :: address
  vb_deposit_nonce :: u64
  vb_withdraw_nonce :: u64
  vb_reserves :: table_bcs
  vb_deposits :: table_bcs
  vb_processed_withdrawals :: table_bcs

record vault_decoders =
  vd_vault :: "byte list \<Rightarrow> (string, vault_bcs) result"
  vd_deposit :: "byte list \<Rightarrow> (string, deposit_record field_bcs) result"

definition parse_vault_status :: "vault_decoders \<Rightarrow> byte list \<Rightarrow> (bridge_error, vault_view) result" where
  "parse_vault_status dc contents =
     and_then (map_err (\<lambda>e. BParse (''vault BCS: '' @ e)) (vd_vault dc contents)) (\<lambda>v.
       Ok \<lparr>vs_deposit_nonce = vb_deposit_nonce v, vs_withdraw_nonce = vb_withdraw_nonce v,
           vs_deposits_table_uid = tb_id (vb_deposits v)\<rparr>)"

definition vault_contents ::
    "rpc_env \<Rightarrow> (string \<Rightarrow> (string, address) result) \<Rightarrow> nat \<Rightarrow> string \<Rightarrow> string \<Rightarrow> (bridge_error, byte list) result" where
  "vault_contents env parse n rpc_url vault_id =
     and_then (map_err bridge_error_of (parse_address parse vault_id ''vault id'')) (\<lambda>vault.
       map_err bridge_error_of (object_contents env n rpc_url vault ''vault''))"

definition vault_status ::
    "rpc_env \<Rightarrow> vault_decoders \<Rightarrow> (string \<Rightarrow> (string, address) result) \<Rightarrow> nat \<Rightarrow> string \<Rightarrow> string \<Rightarrow>
     (bridge_error, vault_view) result" where
  "vault_status env dc parse n rpc_url vault_id =
     and_then (vault_contents env parse n rpc_url vault_id) (parse_vault_status dc)"

definition parse_field_deposit :: "vault_decoders \<Rightarrow> byte list \<Rightarrow> (bridge_error, deposit_record) result" where
  "parse_field_deposit dc bytes =
     and_then (map_err (\<lambda>e. BParse (''field BCS: '' @ e)) (vd_deposit dc bytes)) (\<lambda>field.
       if length (dr_recipient_l2 (fb_value field)) \<noteq> 20 then
         Err (BParse (''recipient_l2 must be 20 bytes, got '' @ show_nat (length (dr_recipient_l2 (fb_value field)))))
       else Ok (fb_value field))"

definition deposit_at ::
    "rpc_env \<Rightarrow> vault_decoders \<Rightarrow> nat \<Rightarrow> string \<Rightarrow> address \<Rightarrow> u64 \<Rightarrow> (bridge_error, deposit_record option) result" where
  "deposit_at env dc n rpc_url tbl nonce =
     (case map_err bridge_error_of (field_contents env n rpc_url tbl nonce) of
        Inl e \<Rightarrow> Err e
      | Inr None \<Rightarrow> Ok None
      | Inr (Some bytes) \<Rightarrow> and_then (parse_field_deposit dc bytes) (\<lambda>d. Ok (Some d)))"

section \<open>Reading the Vault back\<close>

definition c_vault :: "vault_bcs codec" where
  "c_vault =
     c_iso (\<lambda>(i, d, w, r, t, p). \<lparr>vb_id = i, vb_deposit_nonce = d, vb_withdraw_nonce = w, vb_reserves = r,
                                    vb_deposits = t, vb_processed_withdrawals = p\<rparr>)
           (\<lambda>v. (vb_id v, vb_deposit_nonce v, vb_withdraw_nonce v, vb_reserves v, vb_deposits v, vb_processed_withdrawals v))
       (c_pair c_array (c_pair c_u64 (c_pair c_u64 (c_pair c_table (c_pair c_table c_table)))))"

definition c_deposit :: "deposit_record codec" where
  "c_deposit = c_iso (\<lambda>(a, r, c). \<lparr>dr_amount = a, dr_recipient_l2 = r, dr_coin_type = c\<rparr>)
     (\<lambda>d. (dr_amount d, dr_recipient_l2 d, dr_coin_type d)) (c_pair c_u64 (c_pair (c_list c_byte) (c_list c_byte)))"

lemma codec_ok_vault [codec_oks]: "codec_ok c_vault"
  unfolding c_vault_def by (rule codec_ok_iso) (auto intro!: codec_oks)

lemma codec_ok_deposit [codec_oks]: "codec_ok c_deposit"
  unfolding c_deposit_def by (rule codec_ok_iso) (auto intro!: codec_oks)

interpretation vault_obj: bcs_codec "bcs_to_bytes c_vault" "bcs_from_bytes c_vault"
  by (intro bcs_codec_ref codec_oks)

interpretation deposit_field: bcs_codec "bcs_to_bytes (c_field c_deposit)" "bcs_from_bytes (c_field c_deposit)"
  by (intro bcs_codec_ref codec_oks)

definition bcs_vault_decoders :: vault_decoders where
  "bcs_vault_decoders = \<lparr>vd_vault = bcs_from_bytes c_vault, vd_deposit = bcs_from_bytes (c_field c_deposit)\<rparr>"

end
