(* ===== verification/Stores.thy ===== *)
theory Stores
  imports Disk Bcs
begin

text \<open>
  The node's stores (\<open>crates/node/src/store\<close>): pending heights, inbox nonce markers, chain state
  and blocks. \<open>BTreeMap\<close> is a strictly sorted association list.
\<close>

section \<open>Ordered maps\<close>

type_synonym 'v btree = "(u64 \<times> 'v) list"

definition btree_ok :: "('k::linorder \<times> 'v) list \<Rightarrow> bool" where
  "btree_ok t \<longleftrightarrow> sorted_wrt (<) (map fst t)"

primrec btree_insert :: "'k::linorder \<Rightarrow> 'v \<Rightarrow> ('k \<times> 'v) list \<Rightarrow> ('k \<times> 'v) list" where
  "btree_insert k v [] = [(k, v)]"
| "btree_insert k v (e # t) =
     (if k < fst e then (k, v) # e # t
      else if k = fst e then (k, v) # t
      else e # btree_insert k v t)"

lemma set_fst_btree_insert: "fst ` set (btree_insert k v t) = insert k (fst ` set t)"
  by (induction t) auto

lemma btree_ok_Cons: "btree_ok (e # t) \<longleftrightarrow> (\<forall>x \<in> fst ` set t. fst e < x) \<and> btree_ok t"
  by (simp add: btree_ok_def)

lemma btree_ok_insert [simp]: "btree_ok t \<Longrightarrow> btree_ok (btree_insert k v t)"
proof (induction t)
  case Nil
  show ?case by (simp add: btree_ok_def)
next
  case (Cons e t)
  then show ?case
    by (auto simp: btree_ok_Cons set_fst_btree_insert not_less_iff_gr_or_eq simp del: image_iff ball_simps
        intro: less_trans)
qed

lemma map_of_btree_insert [simp]: "btree_ok t \<Longrightarrow> map_of (btree_insert k v t) = (map_of t)(k \<mapsto> v)"
proof (induction t)
  case (Cons e t)
  have "map_of t (fst e) = None"
    using Cons.prems by (auto simp: btree_ok_def map_of_eq_None_iff)
  with Cons show ?case by (auto simp: btree_ok_def fun_eq_iff)
qed simp

lemma btree_ok_distinct: "btree_ok t \<Longrightarrow> distinct (map fst t)"
  by (simp add: btree_ok_def strict_sorted_iff)

section \<open>Pending heights\<close>

text \<open>\<open>slice::binary_search\<close> on a sorted slice: the position of the value, or where to insert it.\<close>

definition binary_search :: "u64 list \<Rightarrow> u64 \<Rightarrow> nat + nat" where
  "binary_search xs x =
     (let i = length (takeWhile (\<lambda>y. y < x) xs) in
      if i < length xs \<and> xs ! i = x then Inr i else Inl i)"

definition pending_mark :: "u64 \<Rightarrow> u64 list \<Rightarrow> u64 list" where
  "pending_mark h hs =
     (case binary_search hs h of Inl i \<Rightarrow> take i hs @ h # drop i hs | Inr _ \<Rightarrow> hs)"

definition pending_clear :: "u64 \<Rightarrow> u64 list \<Rightarrow> u64 list" where
  "pending_clear h hs =
     (case binary_search hs h of Inr i \<Rightarrow> take i hs @ drop (Suc i) hs | Inl _ \<Rightarrow> hs)"

definition pending_path :: "path \<Rightarrow> path" where "pending_path dir = dir @ ''/pending.json''"
definition pending_tmp :: "path \<Rightarrow> path" where "pending_tmp dir = dir @ ''/pending.json.tmp''"

definition pending_load_raw :: "io \<Rightarrow> u64 list json \<Rightarrow> path \<Rightarrow> disk \<Rightarrow> (store_error, u64 list) result \<times> disk" where
  "pending_load_raw io j dir =
     sbind (load_json io j [] (pending_path dir)) (\<lambda>hs. sreturn (remdups_adj (sort hs)))"

definition pending_save_raw :: "io \<Rightarrow> u64 list json \<Rightarrow> path \<Rightarrow> u64 list \<Rightarrow> disk \<Rightarrow> (store_error, unit) result \<times> disk" where
  "pending_save_raw io j dir = save_json io j (pending_tmp dir) (pending_path dir)"

definition pending_mutate ::
    "io \<Rightarrow> u64 list json \<Rightarrow> path \<Rightarrow> (u64 list \<Rightarrow> u64 list) \<Rightarrow> disk \<Rightarrow> (store_error, unit) result \<times> disk" where
  "pending_mutate io j dir f = sbind (pending_load_raw io j dir) (\<lambda>hs. pending_save_raw io j dir (f hs))"

definition store_mark :: "io \<Rightarrow> u64 list json \<Rightarrow> path \<Rightarrow> u64 \<Rightarrow> disk \<Rightarrow> (store_error, unit) result \<times> disk" where
  "store_mark io j dir h = pending_mutate io j dir (pending_mark h)"

definition store_clear :: "io \<Rightarrow> u64 list json \<Rightarrow> path \<Rightarrow> u64 \<Rightarrow> disk \<Rightarrow> (store_error, unit) result \<times> disk" where
  "store_clear io j dir h = pending_mutate io j dir (pending_clear h)"

definition store_pending :: "io \<Rightarrow> u64 list json \<Rightarrow> path \<Rightarrow> disk \<Rightarrow> (store_error, u64 list) result \<times> disk" where
  "store_pending io j dir = pending_load_raw io j dir"

definition store_is_empty :: "io \<Rightarrow> u64 list json \<Rightarrow> path \<Rightarrow> disk \<Rightarrow> (store_error, bool) result \<times> disk" where
  "store_is_empty io j dir = sbind (pending_load_raw io j dir) (\<lambda>hs. sreturn (hs = []))"

section \<open>Inbox nonce markers\<close>

datatype nonce_record =
    Submitted (nr_deadline_height: u64) (nr_deadline_ms: u64) (nr_first_seen_height: u64)
      (nr_tx_hash: string) (nr_tx_bytes: string)
  | Included (nr_height: u64) (nr_tx_hash: string)

fun is_submitted :: "nonce_record \<Rightarrow> bool" where
  "is_submitted (Submitted _ _ _ _ _) = True"
| "is_submitted (Included _ _) = False"

type_synonym nonces = "nonce_record btree"

definition inbox_path :: "path \<Rightarrow> path" where "inbox_path dir = dir @ ''/inbox.json''"
definition inbox_tmp :: "path \<Rightarrow> path" where "inbox_tmp dir = dir @ ''/inbox.json.tmp''"

definition inbox_load_raw :: "io \<Rightarrow> nonces json \<Rightarrow> path \<Rightarrow> disk \<Rightarrow> (store_error, nonces) result \<times> disk" where
  "inbox_load_raw io j dir = load_json io j [] (inbox_path dir)"

definition inbox_save_raw :: "io \<Rightarrow> nonces json \<Rightarrow> path \<Rightarrow> nonces \<Rightarrow> disk \<Rightarrow> (store_error, unit) result \<times> disk" where
  "inbox_save_raw io j dir = save_json io j (inbox_tmp dir) (inbox_path dir)"

definition inbox_mutate ::
    "io \<Rightarrow> nonces json \<Rightarrow> path \<Rightarrow> (nonces \<Rightarrow> (store_error, nonces) result) \<Rightarrow>
     disk \<Rightarrow> (store_error, unit) result \<times> disk" where
  "inbox_mutate io j dir f =
     sbind (inbox_load_raw io j dir) (\<lambda>ns. sbind (slift (f ns)) (inbox_save_raw io j dir))"

definition insert_submitted :: "u64 \<Rightarrow> nonce_record \<Rightarrow> nonces \<Rightarrow> (store_error, nonces) result" where
  "insert_submitted nonce r ns =
     (if map_of ns nonce \<noteq> None then
        Err (Conflict (''inbox nonce '' @ show_u64 nonce @ '' is already tracked''))
      else Ok (btree_insert nonce r ns))"

definition record_submitted ::
    "io \<Rightarrow> nonces json \<Rightarrow> path \<Rightarrow> u64 \<Rightarrow> u64 \<Rightarrow> u64 \<Rightarrow> u64 \<Rightarrow> string \<Rightarrow> string \<Rightarrow> disk \<Rightarrow>
     (store_error, unit) result \<times> disk" where
  "record_submitted io j dir nonce dl_height dl_ms first_seen txh txb =
     inbox_mutate io j dir (insert_submitted nonce (Submitted dl_height dl_ms first_seen txh txb))"

definition include_nonce :: "u64 \<Rightarrow> u64 \<Rightarrow> nonces \<Rightarrow> (store_error, nonces) result" where
  "include_nonce nonce ht ns =
     (case map_of ns nonce of
        None \<Rightarrow> Err (Conflict (''inbox nonce '' @ show_u64 nonce @ '' was never tracked as submitted''))
      | Some (Included existing _) \<Rightarrow>
          if existing = ht then Ok ns
          else Err (Conflict (''inbox nonce '' @ show_u64 nonce @ '' already included at height '' @
                 show_u64 existing @ '', refusing second inclusion at height '' @ show_u64 ht))
      | Some (Submitted _ _ _ txh _) \<Rightarrow> Ok (btree_insert nonce (Included ht txh) ns))"

definition mark_included ::
    "io \<Rightarrow> nonces json \<Rightarrow> path \<Rightarrow> u64 \<Rightarrow> u64 \<Rightarrow> disk \<Rightarrow> (store_error, unit) result \<times> disk" where
  "mark_included io j dir nonce ht = inbox_mutate io j dir (include_nonce nonce ht)"

definition inbox_snapshot :: "io \<Rightarrow> nonces json \<Rightarrow> path \<Rightarrow> disk \<Rightarrow> (store_error, nonces) result \<times> disk" where
  "inbox_snapshot io j dir = inbox_load_raw io j dir"

definition inbox_get ::
    "io \<Rightarrow> nonces json \<Rightarrow> path \<Rightarrow> u64 \<Rightarrow> disk \<Rightarrow> (store_error, nonce_record option) result \<times> disk" where
  "inbox_get io j dir nonce = sbind (inbox_load_raw io j dir) (\<lambda>ns. sreturn (map_of ns nonce))"

definition inbox_submitted :: "io \<Rightarrow> nonces json \<Rightarrow> path \<Rightarrow> disk \<Rightarrow> (store_error, nonces) result \<times> disk" where
  "inbox_submitted io j dir =
     sbind (inbox_load_raw io j dir) (\<lambda>ns. sreturn (filter (\<lambda>(_, r). is_submitted r) ns))"

definition included_total :: "nonces \<Rightarrow> u64" where
  "included_total ns = of_nat (length (filter (\<lambda>(_, r). \<not> is_submitted r) ns))"

definition inbox_included_count :: "io \<Rightarrow> nonces json \<Rightarrow> path \<Rightarrow> disk \<Rightarrow> (store_error, u64) result \<times> disk" where
  "inbox_included_count io j dir =
     sbind (inbox_load_raw io j dir) (\<lambda>ns. sreturn (included_total ns))"

section \<open>Chain state\<close>

record chain_state =
  cs_head :: string
  cs_safe :: string
  cs_finalized :: string
  cs_height :: u64
  cs_timestamp :: u64

definition state_path :: "path \<Rightarrow> path" where "state_path dir = dir @ ''/state.json''"
definition state_tmp :: "path \<Rightarrow> path" where "state_tmp dir = dir @ ''/state.json.tmp''"

definition state_load ::
    "io \<Rightarrow> chain_state json \<Rightarrow> path \<Rightarrow> disk \<Rightarrow> (store_error, chain_state option) result \<times> disk" where
  "state_load io j dir d =
     (if \<not> fs_exists (state_path dir) d then (Ok None, d)
      else sbind (fs_read_to_string io (state_path dir)) (\<lambda>text.
             slift (and_then (map_err StoreSerde (from_json j text)) (\<lambda>s. Ok (Some s)))) d)"

definition state_save ::
    "io \<Rightarrow> chain_state json \<Rightarrow> path \<Rightarrow> chain_state \<Rightarrow> disk \<Rightarrow> (store_error, unit) result \<times> disk" where
  "state_save io j dir = save_json io j (state_tmp dir) (state_path dir)"

section \<open>Blocks\<close>

definition block_path :: "path \<Rightarrow> u64 \<Rightarrow> path" where
  "block_path dir ht = dir @ ''/blocks/'' @ show_u64 ht"

definition block_put ::
    "io \<Rightarrow> (block \<Rightarrow> (string, byte list) result) \<Rightarrow> path \<Rightarrow> block \<Rightarrow> disk \<Rightarrow> (store_error, unit) result \<times> disk" where
  "block_put io to_bytes dir b =
     sbind (slift (map_err StoreSerde (to_bytes b))) (\<lambda>bytes.
       fs_write io (block_path dir (height (header b))) (Bytes bytes))"

definition block_get ::
    "io \<Rightarrow> (byte list \<Rightarrow> (string, block) result) \<Rightarrow> path \<Rightarrow> u64 \<Rightarrow> disk \<Rightarrow> (store_error, block) result \<times> disk" where
  "block_get io from_bytes dir ht d =
     (if \<not> fs_exists (block_path dir ht) d then (Err (BlockNotFound ht), d)
      else sbind (fs_read io (block_path dir ht)) (\<lambda>f.
             slift (case f of
                 Bytes bytes \<Rightarrow> map_err StoreSerde (from_bytes bytes)
               | Text t \<Rightarrow> map_err StoreSerde (from_bytes (map (\<lambda>c. of_char c) t)))) d)"

definition block_has :: "path \<Rightarrow> u64 \<Rightarrow> disk \<Rightarrow> bool" where
  "block_has dir ht d = fs_exists (block_path dir ht) d"

text \<open>\<open>names\<close> is the directory listing, \<open>None\<close> when it cannot be read.\<close>

definition block_latest_height :: "string list option \<Rightarrow> u64 option" where
  "block_latest_height names =
     (case names of
        None \<Rightarrow> None
      | Some ns \<Rightarrow>
          (case List.map_filter parse_u64 ns of
             [] \<Rightarrow> None
           | hs \<Rightarrow> Some (Max (set hs))))"

text \<open>\<open>store::init\<close>.\<close>

definition store_init :: "io \<Rightarrow> path \<Rightarrow> disk \<Rightarrow> (store_error, unit) result \<times> disk" where
  "store_init io dir = fs_create_dir_all io (dir @ ''/blocks'')"

section \<open>Reads\<close>

lemma state_load_files: "state_load io j dir d = (r, d') \<Longrightarrow> files d' = files d"
  using fs_read_to_string_files [of io "state_path dir" d]
  by (auto simp: state_load_def sbind_def slift_def simp del: fs_read_to_string_files split: if_splits prod.splits sum.splits)

section \<open>The pending heights are a set\<close>

locale height_set =
  fixes inv :: "'s \<Rightarrow> bool" and elems :: "'s \<Rightarrow> u64 set"
    and mark :: "u64 \<Rightarrow> 's \<Rightarrow> 's" and clear :: "u64 \<Rightarrow> 's \<Rightarrow> 's" and listing :: "'s \<Rightarrow> u64 list"
  assumes inv_mark: "inv s \<Longrightarrow> inv (mark h s)"
    and inv_clear: "inv s \<Longrightarrow> inv (clear h s)"
    and elems_mark: "inv s \<Longrightarrow> elems (mark h s) = insert h (elems s)"
    and elems_clear: "inv s \<Longrightarrow> elems (clear h s) = elems s - {h}"
    and listing_sorted: "inv s \<Longrightarrow> sorted_wrt (<) (listing s)"
    and listing_set: "inv s \<Longrightarrow> set (listing s) = elems s"
begin

lemma mark_idem: "inv s \<Longrightarrow> elems (mark h (mark h s)) = elems (mark h s)"
  by (simp add: elems_mark inv_mark)

lemma marked_until_cleared:
  assumes "inv s" "h \<in> elems s" "h \<notin> set hs"
  shows "h \<in> elems (fold clear hs s)"
  using assms by (induction hs arbitrary: s) (auto simp: inv_clear elems_clear)

lemma inv_fold_mark: "inv s \<Longrightarrow> inv (fold mark hs s)"
  by (induction hs arbitrary: s) (auto simp: inv_mark)

lemma elems_fold_mark: "inv s \<Longrightarrow> elems (fold mark hs s) = set hs \<union> elems s"
  by (induction hs arbitrary: s) (auto simp: inv_mark elems_mark)

lemma inv_fold_clear: "inv s \<Longrightarrow> inv (fold clear hs s)"
  by (induction hs arbitrary: s) (auto simp: inv_clear)

lemma elems_fold_clear: "inv s \<Longrightarrow> elems (fold clear hs s) = elems s - set hs"
  by (induction hs arbitrary: s) (auto simp: inv_clear elems_clear)

lemma unsettled_listing:
  assumes "inv s"
  shows "set (listing (fold clear done (fold mark produced s))) = (set produced \<union> elems s) - set done"
  using assms by (simp add: listing_set inv_fold_mark inv_fold_clear elems_fold_clear elems_fold_mark)

end

lemma sorted_split:
  assumes "sorted_wrt (<) (xs :: u64 list)"
  shows "xs = takeWhile (\<lambda>y. y < x) xs @ (if x \<in> set xs then [x] else []) @ filter (\<lambda>y. x < y) xs"
  using assms
proof (induction xs)
  case (Cons a xs)
  consider "a < x" | "a = x" | "x < a" by (rule linorder_cases)
  then show ?case
  proof cases
    case 3
    with Cons have "\<forall>y \<in> set xs. x < y" by auto
    then have "filter (\<lambda>y. x < y) xs = xs" "x \<notin> set xs" by (auto intro: filter_True)
    with 3 show ?thesis by auto
  next
    case 2
    with Cons have "\<forall>y \<in> set xs. x < y" by auto
    then have "filter (\<lambda>y. x < y) xs = xs" by (auto intro: filter_True)
    with 2 show ?thesis by auto
  qed (use Cons in auto)
qed simp

lemma split_at:
  "xs = a @ r \<Longrightarrow> take (length a) xs = a" "xs = a @ r \<Longrightarrow> drop (length a) xs = r"
  "xs = a @ x # r \<Longrightarrow> drop (Suc (length a)) xs = r"
  "xs = a @ x # r \<Longrightarrow> length a < length xs \<and> xs ! length a = x"
  by auto

lemma binary_search_split:
  assumes "sorted_wrt (<) hs"
  obtains "h \<in> set hs" "hs = takeWhile (\<lambda>y. y < h) hs @ h # filter (\<lambda>y. h < y) hs"
      "binary_search hs h = Inr (length (takeWhile (\<lambda>y. y < h) hs))"
    | "h \<notin> set hs" "hs = takeWhile (\<lambda>y. y < h) hs @ filter (\<lambda>y. h < y) hs"
      "binary_search hs h = Inl (length (takeWhile (\<lambda>y. y < h) hs))"
proof (cases "h \<in> set hs")
  case True
  let ?a = "takeWhile (\<lambda>y. y < h) hs"
  have e: "hs = ?a @ h # filter (\<lambda>y. h < y) hs" using sorted_split [OF assms, of h] True by simp
  have "binary_search hs h = Inr (length ?a)"
    unfolding binary_search_def Let_def using split_at(4) [OF e] by (rule if_P)
  with True e show ?thesis by (rule that(1))
next
  case False
  let ?a = "takeWhile (\<lambda>y. y < h) hs"
  have e: "hs = ?a @ filter (\<lambda>y. h < y) hs" using sorted_split [OF assms, of h] False by simp
  have n: "\<not> (length ?a < length hs \<and> hs ! length ?a = h)" using False nth_mem by metis
  have "binary_search hs h = Inl (length ?a)"
    unfolding binary_search_def Let_def using n by (rule if_not_P)
  with False e show ?thesis by (rule that(2))
qed

lemma pending_mark_eq:
  assumes "sorted_wrt (<) hs"
  shows "pending_mark h hs = takeWhile (\<lambda>y. y < h) hs @ h # filter (\<lambda>y. h < y) hs"
proof (rule binary_search_split [OF assms, of h])
  let ?a = "takeWhile (\<lambda>y. y < h) hs"
  assume e: "hs = ?a @ filter (\<lambda>y. h < y) hs" and "binary_search hs h = Inl (length ?a)"
  then have "pending_mark h hs = take (length ?a) hs @ h # drop (length ?a) hs"
    by (simp add: pending_mark_def)
  then show ?thesis unfolding split_at(1,2) [OF e] .
next
  let ?a = "takeWhile (\<lambda>y. y < h) hs"
  assume e: "hs = ?a @ h # filter (\<lambda>y. h < y) hs" and "binary_search hs h = Inr (length ?a)"
  then have "pending_mark h hs = hs" by (simp add: pending_mark_def)
  then show ?thesis using e by (rule trans)
qed

lemma pending_clear_eq:
  assumes "sorted_wrt (<) hs"
  shows "pending_clear h hs = takeWhile (\<lambda>y. y < h) hs @ filter (\<lambda>y. h < y) hs"
proof (rule binary_search_split [OF assms, of h])
  let ?a = "takeWhile (\<lambda>y. y < h) hs"
  assume e: "hs = ?a @ h # filter (\<lambda>y. h < y) hs" and "binary_search hs h = Inr (length ?a)"
  then have "pending_clear h hs = take (length ?a) hs @ drop (Suc (length ?a)) hs"
    by (simp add: pending_clear_def)
  then show ?thesis unfolding split_at(1) [OF e] split_at(3) [OF e] .
next
  let ?a = "takeWhile (\<lambda>y. y < h) hs"
  assume e: "hs = ?a @ filter (\<lambda>y. h < y) hs" and "binary_search hs h = Inl (length ?a)"
  then have "pending_clear h hs = hs" by (simp add: pending_clear_def)
  then show ?thesis using e by (rule trans)
qed

lemma sorted_wrt_takeWhile: "sorted_wrt P xs \<Longrightarrow> sorted_wrt P (takeWhile Q xs)"
  by (metis sorted_wrt_append takeWhile_dropWhile_id)

interpretation pending: height_set "sorted_wrt (<)" set pending_mark pending_clear "\<lambda>hs. hs"
proof unfold_locales
  fix s :: "u64 list" and h
  assume s: "sorted_wrt (<) s"
  have sets: "insert h (set s) = insert h (set (takeWhile (\<lambda>y. y < h) s) \<union> set (filter (\<lambda>y. h < y) s))"
    by (rule binary_search_split [OF s, of h]; drule arg_cong [of s _ set]; unfold set_append list.set; blast)
  have lt: "\<forall>x \<in> set (takeWhile (\<lambda>y. y < h) s). x < h" by (auto dest: set_takeWhileD)
  show "sorted_wrt (<) (pending_mark h s)"
    unfolding pending_mark_eq [OF s] using s lt
    by (auto simp: sorted_wrt_append sorted_wrt_takeWhile sorted_wrt_filter)
  show "sorted_wrt (<) (pending_clear h s)"
    unfolding pending_clear_eq [OF s] using s lt
    by (auto simp: sorted_wrt_append sorted_wrt_takeWhile sorted_wrt_filter)
  show "set (pending_mark h s) = insert h (set s)"
    unfolding pending_mark_eq [OF s] sets by simp
  have "set s - {h} = insert h (set s) - {h}" by simp
  also have "\<dots> = set (takeWhile (\<lambda>y. y < h) s) \<union> set (filter (\<lambda>y. h < y) s)"
    unfolding sets using lt by auto
  finally show "set (pending_clear h s) = set s - {h}"
    unfolding pending_clear_eq [OF s] by simp
qed auto

section \<open>Crash-safe refinement\<close>

lemma paths_neq [simp]:
  "pending_tmp dir \<noteq> pending_path dir" "inbox_tmp dir \<noteq> inbox_path dir" "state_tmp dir \<noteq> state_path dir"
  by (simp_all add: pending_tmp_def pending_path_def inbox_tmp_def inbox_path_def state_tmp_def state_path_def)

lemma sbind_cases:
  assumes "sbind m f d = (r, d')"
  obtains e where "m d = (Inl e, d')" "r = Inl e" | x d1 where "m d = (Inr x, d1)" "f x d1 = (r, d')"
  using assms by (auto simp: sbind_def split: prod.splits sum.splits)

text \<open>The set of heights a pending store holds.\<close>

definition pending_set :: "u64 list json \<Rightarrow> path \<Rightarrow> disk \<Rightarrow> u64 set \<Rightarrow> bool" where
  "pending_set j dir d S \<longleftrightarrow> (\<exists>hs. holds j [] (pending_path dir) d hs \<and> set hs = S)"

lemma sorted_dedup: "sorted_wrt (<) (remdups_adj (sort xs))"
  by (simp add: strict_sorted_iff distinct_remdups_adj_sort)

lemma pending_load_raw_Ok:
  assumes "pending_load_raw io j dir d = (Ok hs, d')" "pending_set j dir d S"
  shows "sorted_wrt (<) hs" "set hs = S" "files d' = files d"
proof -
  from assms(1) obtain hs0 where l: "load_json io j [] (pending_path dir) d = (Ok hs0, d')"
    and hs: "hs = remdups_adj (sort hs0)"
    by (auto simp: pending_load_raw_def sreturn_def elim: sbind_cases)
  from load_json_Ok [OF l] have "holds j [] (pending_path dir) d hs0" "files d' = files d" by auto
  with assms(2) hs show "sorted_wrt (<) hs" "set hs = S" "files d' = files d"
    using holds_unique by (fastforce simp: pending_set_def sorted_dedup)+
qed

lemma pending_mutate_set:
  assumes j: "json_ok j" and m: "pending_mutate io j dir f d = (r, d')" and S: "pending_set j dir d S"
    and f: "\<And>hs. sorted_wrt (<) hs \<Longrightarrow> set hs = S \<Longrightarrow> set (f hs) = S'"
  shows "pending_set j dir d' (case r of Inl _ \<Rightarrow> S | Inr _ \<Rightarrow> S')"
  using m unfolding pending_mutate_def
proof (rule sbind_cases)
  fix e assume l: "pending_load_raw io j dir d = (Inl e, d')" and r: "r = Inl e"
  have "files d' = files d"
    using l by (auto simp: pending_load_raw_def sreturn_def dest: load_json_same elim!: sbind_cases)
  with S r show ?thesis by (simp add: pending_set_def holds_def)
next
  fix hs d1 assume l: "pending_load_raw io j dir d = (Inr hs, d1)" and s: "pending_save_raw io j dir (f hs) d1 = (r, d')"
  note hs = pending_load_raw_Ok [OF l S]
  from S obtain old where old: "holds j [] (pending_path dir) d1 old" "set old = S"
    using hs(3) by (auto simp: pending_set_def holds_def)
  from save_json_holds [OF j s [unfolded pending_save_raw_def] paths_neq(1) old(1)] old(2) f [OF hs(1,2)]
  show ?thesis by (cases r) (auto simp: pending_set_def)
qed

text \<open>Operations of the store, as a client issues them.\<close>

datatype height_op = MarkOp u64 | ClearOp u64

fun run_op :: "io \<Rightarrow> u64 list json \<Rightarrow> path \<Rightarrow> height_op \<Rightarrow> disk \<Rightarrow> (store_error, unit) result \<times> disk" where
  "run_op io j dir (MarkOp h) = store_mark io j dir h"
| "run_op io j dir (ClearOp h) = store_clear io j dir h"

fun run_ops :: "io \<Rightarrow> u64 list json \<Rightarrow> path \<Rightarrow> height_op list \<Rightarrow> disk \<Rightarrow> height_op list \<times> disk" where
  "run_ops io j dir [] d = ([], d)"
| "run_ops io j dir (x # xs) d =
     (case run_op io j dir x d of
        (Inl _, d') \<Rightarrow> run_ops io j dir xs d'
      | (Inr _, d') \<Rightarrow> (case run_ops io j dir xs d' of (ok, d'') \<Rightarrow> (x # ok, d'')))"

fun set_op :: "height_op \<Rightarrow> u64 set \<Rightarrow> u64 set" where
  "set_op (MarkOp h) S = insert h S"
| "set_op (ClearOp h) S = S - {h}"

lemma run_op_set:
  assumes "json_ok j" "run_op io j dir x d = (r, d')" "pending_set j dir d S"
  shows "pending_set j dir d' (case r of Inl _ \<Rightarrow> S | Inr _ \<Rightarrow> set_op x S)"
proof (cases x)
  case (MarkOp h)
  with assms(2) have "pending_mutate io j dir (pending_mark h) d = (r, d')" by (simp add: store_mark_def)
  from pending_mutate_set [OF assms(1) this assms(3), of "set_op x S"] MarkOp show ?thesis
    by (simp add: pending.elems_mark)
next
  case (ClearOp h)
  with assms(2) have "pending_mutate io j dir (pending_clear h) d = (r, d')" by (simp add: store_clear_def)
  from pending_mutate_set [OF assms(1) this assms(3), of "set_op x S"] ClearOp show ?thesis
    by (simp add: pending.elems_clear)
qed

lemma run_ops_set:
  assumes "json_ok j" "run_ops io j dir xs d = (ok, d')" "pending_set j dir d S"
  shows "pending_set j dir d' (fold set_op ok S)"
  using assms(2,3)
proof (induction xs arbitrary: d S ok)
  case (Cons x xs)
  obtain r d1 where r: "run_op io j dir x d = (r, d1)" by (cases "run_op io j dir x d")
  note s = run_op_set [OF assms(1) r Cons.prems(2)]
  from Cons r s show ?case by (cases r) (auto split: prod.splits)
qed auto

text \<open>
  C5: crash-safe pending store. Under any fault plan (failing reads, failing or half-done writes, failing
  renames) any sequence of mark and clear operations leaves the store holding exactly the set
  given by the operations that reported success, and a successful \<open>pending\<close> lists that set in
  strictly ascending order: no height is lost or duplicated by a crash.
\<close>

theorem pending_store_refines_set:
  assumes "json_ok j" "pending_set j dir d S"
    and "run_ops io j dir xs d = (ok, d')"
    and "store_pending io' j dir d' = (Ok hs, d'')"
  shows "set hs = fold set_op ok S \<and> sorted_wrt (<) hs"
  using pending_load_raw_Ok [OF assms(4) [unfolded store_pending_def] run_ops_set [OF assms(1,3,2)]] by blast

section \<open>Inbox markers only move forward\<close>

fun nonce_le :: "nonce_record option \<Rightarrow> nonce_record option \<Rightarrow> bool" where
  "nonce_le None _ = True"
| "nonce_le (Some (Submitted a b c h t)) (Some (Submitted a' b' c' h' t')) =
     (a = a' \<and> b = b' \<and> c = c' \<and> h = h' \<and> t = t')"
| "nonce_le (Some (Submitted _ _ _ h _)) (Some (Included _ h')) = (h = h')"
| "nonce_le (Some (Included x h)) (Some (Included x' h')) = (x = x' \<and> h = h')"
| "nonce_le (Some _) _ = False"

lemma nonce_le_refl [simp]: "nonce_le x x"
  by (cases x; cases "the x") auto

lemma nonce_le_trans: "nonce_le x y \<Longrightarrow> nonce_le y z \<Longrightarrow> nonce_le x z"
  by (elim nonce_le.elims) auto

lemma insert_submitted_le:
  assumes "insert_submitted k (Submitted a b c h t) ns = Ok ns'" "btree_ok ns"
  shows "btree_ok ns' \<and> (\<forall>n. nonce_le (map_of ns n) (map_of ns' n))"
  using assms by (auto simp: insert_submitted_def split: if_splits)

lemma include_nonce_le:
  assumes "include_nonce k ht ns = Ok ns'" "btree_ok ns"
  shows "btree_ok ns' \<and> (\<forall>n. nonce_le (map_of ns n) (map_of ns' n))"
  using assms by (auto simp: include_nonce_def split: option.splits nonce_record.splits if_splits)

definition nonces_hold :: "nonces json \<Rightarrow> path \<Rightarrow> disk \<Rightarrow> nonces \<Rightarrow> bool" where
  "nonces_hold j dir d ns \<longleftrightarrow> holds j [] (inbox_path dir) d ns \<and> btree_ok ns"

lemma inbox_mutate_cases:
  assumes j: "json_ok j" and m: "inbox_mutate io j dir f d = (r, d')" and h: "nonces_hold j dir d ns"
    and ok: "\<And>ns'. f ns = Ok ns' \<Longrightarrow> btree_ok ns'"
  shows "(\<exists>e. r = Err e) \<and> nonces_hold j dir d' ns \<or> r = Ok () \<and> (\<exists>ns'. f ns = Ok ns' \<and> nonces_hold j dir d' ns')"
  using m unfolding inbox_mutate_def
proof (rule sbind_cases)
  fix e assume l: "inbox_load_raw io j dir d = (Inl e, d')" and "r = Inl e"
  have "files d' = files d" using l by (auto simp: inbox_load_raw_def dest: load_json_same)
  with h \<open>r = Inl e\<close> show ?thesis by (simp add: nonces_hold_def holds_def)
next
  fix n0 d1 assume l: "inbox_load_raw io j dir d = (Inr n0, d1)"
    and s: "sbind (slift (f n0)) (inbox_save_raw io j dir) d1 = (r, d')"
  from load_json_Ok [OF l [unfolded inbox_load_raw_def]] h have n0: "n0 = ns" and f1: "files d1 = files d"
    using holds_unique by (auto simp: nonces_hold_def)
  have h1: "holds j [] (inbox_path dir) d1 ns" using h f1 by (simp add: nonces_hold_def holds_def)
  show ?thesis
  proof (cases "f ns")
    case (Inl e)
    with s n0 h1 h show ?thesis by (auto simp: nonces_hold_def)
  next
    case (Inr ns')
    with s n0 have "save_json io j (inbox_tmp dir) (inbox_path dir) ns' d1 = (r, d')"
      by (simp add: inbox_save_raw_def)
    from save_json_holds [OF j this paths_neq(2) h1] ok [OF Inr] Inr h show ?thesis
      by (cases r) (auto simp: nonces_hold_def)
  qed
qed

text \<open>
  C6: inclusion markers are terminal, whatever fails. Recording and marking, under any fault plan, keep
  every existing marker: a submitted nonce stays as recorded until it becomes included with
  the same transaction hash, and an included nonce keeps its height forever; marking a
  nonce at a second height is refused.
\<close>

theorem inbox_markers_only_advance:
  assumes "json_ok j" "nonces_hold j dir d ns"
    and "record_submitted io j dir k a b c h t d = (r, d') \<or> mark_included io j dir k ht d = (r, d')"
  shows "(\<exists>ns'. nonces_hold j dir d' ns' \<and> (\<forall>n. nonce_le (map_of ns n) (map_of ns' n))) \<and>
    (\<forall>x h0. mark_included io j dir k ht d = (r, d') \<longrightarrow> map_of ns k = Some (Included x h0) \<longrightarrow> x \<noteq> ht \<longrightarrow>
       (\<exists>e. r = Err e))"
proof -
  have bt: "btree_ok ns" using assms(2) by (simp add: nonces_hold_def)
  have sub: "\<exists>ns'. nonces_hold j dir d' ns' \<and> (\<forall>n. nonce_le (map_of ns n) (map_of ns' n))"
    if "record_submitted io j dir k a b c h t d = (r, d')"
    using inbox_mutate_cases [OF assms(1) that [unfolded record_submitted_def] assms(2)]
      insert_submitted_le [OF _ bt] nonce_le_refl by metis
  have inc: "\<exists>ns'. nonces_hold j dir d' ns' \<and> (\<forall>n. nonce_le (map_of ns n) (map_of ns' n))"
    if "mark_included io j dir k ht d = (r, d')"
    using inbox_mutate_cases [OF assms(1) that [unfolded mark_included_def] assms(2)]
      include_nonce_le [OF _ bt] nonce_le_refl by metis
  have "\<exists>e. r = Err e" if "map_of ns k = Some (Included x h0)" "x \<noteq> ht" "mark_included io j dir k ht d = (r, d')" for x h0
    using inbox_mutate_cases [OF assms(1) that(3) [unfolded mark_included_def] assms(2)]
      include_nonce_le [OF _ bt] that(1,2) by (auto simp: include_nonce_def)
  with sub inc assms(3) show ?thesis by blast
qed

section \<open>A reference JSON codec\<close>

text \<open>Any codec gives a text codec with the round-trip law: an opening bracket and the bytes as
  characters.\<close>

definition codec_json :: "'a codec \<Rightarrow> 'a json" where
  "codec_json c =
     \<lparr>to_json = (\<lambda>x. map_err id (and_then (bcs_to_bytes c x) (\<lambda>bs. Ok (CHR ''['' # map (\<lambda>b. char_of (unat b)) bs)))),
      from_json = (\<lambda>t. case t of [] \<Rightarrow> Err ''eof'' | _ # cs \<Rightarrow> bcs_from_bytes c (map (\<lambda>ch. of_char ch) cs))\<rparr>"

lemma trim_bracket: "trim (CHR ''['' # t) \<noteq> []"
proof -
  have w: "\<not> is_ws (CHR ''['')" by (simp add: is_ws_def)
  then have "trim (CHR ''['' # t) = rev (dropWhile is_ws (rev t @ [CHR ''[''])) " by (simp add: trim_def)
  with w show ?thesis by (auto simp: dropWhile_eq_Nil_conv)
qed

lemma json_ok_codec:
  assumes "codec_ok c"
  shows "json_ok (codec_json c)"
proof -
  from bcs_codec_ref [OF assms] have "bcs_from_bytes c bs = Ok x" if "bcs_to_bytes c x = Ok bs" for x bs
    using that by (simp add: bcs_codec.canonical)
  then show ?thesis
    by (auto simp: json_ok_def codec_json_def and_then_eq_Inr trim_bracket comp_def byte_char_byte)
qed

text \<open>Fault-free operations succeed.\<close>

lemma load_json_no_fault:
  assumes "\<And>n. io n = None" "holds j dflt p d x"
  obtains d' where "load_json io j dflt p d = (Ok x, d')" "files d' = files d"
  using load_json_holds [where io = io and d = d, OF assms(1) assms(2)] by blast

lemma pending_mutate_no_fault:
  assumes "\<And>n. io n = None" "json_ok j" "holds j [] (pending_path dir) d hs" "sorted_wrt (<) hs"
    and "to_json j (f hs) = Ok t"
  obtains d' where "pending_mutate io j dir f d = (Ok (), d')" "holds j [] (pending_path dir) d' (f hs)"
proof -
  obtain d1 where d1: "load_json io j [] (pending_path dir) d = (Ok hs, d1)" "files d1 = files d"
    using load_json_no_fault [where io = io, OF assms(1,3)] .
  have "remdups_adj (sort hs) = hs"
    using assms(4) by (simp add: strict_sorted_iff sorted_sort_id remdups_adj_distinct)
  with d1(1) have l: "pending_load_raw io j dir d = (Ok hs, d1)"
    by (simp add: pending_load_raw_def sreturn_def)
  obtain d' where s: "save_json io j (pending_tmp dir) (pending_path dir) (f hs) d1 = (Ok (), d')"
    using save_json_no_fault [where io = io, OF assms(1,5)] by blast
  have "holds j [] (pending_path dir) d1 hs" using assms(3) d1(2) by (simp add: holds_def)
  from save_json_holds [OF assms(2) s paths_neq(1) this] l s that show ?thesis
    by (simp add: pending_mutate_def pending_save_raw_def)
qed

definition heights_json :: "u64 list json" where
  "heights_json = codec_json (c_list c_u64)"

lemma heights_json_ok: "json_ok heights_json"
  unfolding heights_json_def by (intro json_ok_codec codec_oks)

lemma heights_json_small: "length hs < 100 \<Longrightarrow> \<exists>t. to_json heights_json hs = Ok t"
proof -
  assume "length hs < 100"
  moreover have "\<exists>p. enc_all c_u64 hs = Some p" by (induction hs) (auto simp: codec_simps)
  ultimately show ?thesis by (auto simp: heights_json_def codec_json_def bcs_to_bytes_def codec_simps)
qed

definition no_faults :: io where "no_faults = (\<lambda>_. None)"
definition blank_disk :: disk where "blank_disk = \<lparr>files = Map.empty, ops = 0\<rparr>"

lemma blank_holds [simp]: "holds j dflt p blank_disk dflt"
  by (simp add: holds_def blank_disk_def)

theorem pending_store_refines_set_witness:
  "\<exists>d' hs d''. run_ops no_faults heights_json ''data'' [MarkOp 5, MarkOp 3, ClearOp 5] blank_disk =
       ([MarkOp 5, MarkOp 3, ClearOp 5], d') \<and>
     store_pending no_faults heights_json ''data'' d' = (Ok hs, d'') \<and> set hs = {3}"
proof -
  let ?j = heights_json and ?p = "pending_path ''data''"
  have io: "no_faults n = None" for n by (simp add: no_faults_def)
  note step = pending_mutate_no_fault [where io = no_faults, OF io heights_json_ok]
  obtain t1 t2 t3 where t: "to_json ?j [5] = Ok t1" "to_json ?j [3, 5] = Ok t2" "to_json ?j [3] = Ok t3"
    using heights_json_small [of "[5]"] heights_json_small [of "[3, 5]"] heights_json_small [of "[3]"] by auto
  have m: "pending_mark 5 [] = [5]" "pending_mark 3 [5] = [3, 5]" "pending_clear 5 [3, 5] = [3]"
    by (simp_all add: pending_mark_def pending_clear_def binary_search_def Let_def)
  obtain d1 where d1: "pending_mutate no_faults ?j ''data'' (pending_mark 5) blank_disk = (Ok (), d1)" "holds ?j [] ?p d1 [5]"
    by (rule step [where hs = "[]" and f = "pending_mark 5" and d = blank_disk and dir = "''data''"]) (auto simp: m t)
  obtain d2 where d2: "pending_mutate no_faults ?j ''data'' (pending_mark 3) d1 = (Ok (), d2)" "holds ?j [] ?p d2 [3, 5]"
    by (rule step [where hs = "[5]" and f = "pending_mark 3", OF d1(2)]) (auto simp: m t)
  obtain d3 where d3: "pending_mutate no_faults ?j ''data'' (pending_clear 5) d2 = (Ok (), d3)" "holds ?j [] ?p d3 [3]"
    by (rule step [where hs = "[3, 5]" and f = "pending_clear 5", OF d2(2)]) (auto simp: m t)
  have run: "run_ops no_faults ?j ''data'' [MarkOp 5, MarkOp 3, ClearOp 5] blank_disk = ([MarkOp 5, MarkOp 3, ClearOp 5], d3)"
    using d1(1) d2(1) d3(1) by (simp add: store_mark_def store_clear_def)
  obtain d4 where d4: "load_json no_faults ?j [] ?p d3 = (Ok [3], d4)"
    using load_json_no_fault [where io = no_faults, OF io d3(2)] by blast
  then have p: "store_pending no_faults ?j ''data'' d3 = (Ok [3], d4)"
    by (simp add: store_pending_def pending_load_raw_def sreturn_def)
  have "pending_set ?j ''data'' blank_disk {}" by (auto simp: pending_set_def intro!: exI [of _ "[]"])
  from pending_store_refines_set [OF heights_json_ok this run p]
  have c: "set [3 :: u64] = fold set_op [MarkOp 5, MarkOp 3, ClearOp 5] {}" by (rule conjunct1)
  have "set [3 :: u64] = {3}" by (rule trans [OF c]) auto
  with run p show ?thesis by blast
qed

definition c_nonce :: "nonce_record codec" where
  "c_nonce =
     c_iso (\<lambda>x. case x of Inl (a, b, c, h, t) \<Rightarrow> Submitted a b c h t | Inr (ht, h) \<Rightarrow> Included ht h)
           (\<lambda>r. case r of Submitted a b c h t \<Rightarrow> Inl (a, b, c, h, t) | Included ht h \<Rightarrow> Inr (ht, h))
           (c_sum (c_pair c_u64 (c_pair c_u64 (c_pair c_u64 (c_pair c_string c_string)))) (c_pair c_u64 c_string))"

lemma codec_ok_nonce [codec_oks]: "codec_ok c_nonce"
  unfolding c_nonce_def
  by (rule codec_ok_iso) (auto intro!: codec_oks split: sum.splits nonce_record.splits)

definition nonces_json :: "nonces json" where
  "nonces_json = codec_json (c_list (c_pair c_u64 c_nonce))"

lemma nonces_json_ok: "json_ok nonces_json"
  unfolding nonces_json_def by (intro json_ok_codec codec_oks)

lemma blank_nonces [simp]: "nonces_hold j dir blank_disk []"
  by (simp add: nonces_hold_def btree_ok_def)

theorem inbox_markers_only_advance_witness:
  "\<exists>d' ns'. record_submitted no_faults nonces_json ''data'' 0 610 600000 10 ''aa'' ''bb'' blank_disk = (Ok (), d') \<and>
     nonces_hold nonces_json ''data'' d' ns'"
proof -
  let ?f = "insert_submitted 0 (Submitted 610 600000 10 ''aa'' ''bb'')"
  have io: "no_faults n = None" for n by (simp add: no_faults_def)
  obtain t where t: "to_json nonces_json [(0, Submitted 610 600000 10 ''aa'' ''bb'')] = Ok t"
    unfolding nonces_json_def codec_json_def bcs_to_bytes_def c_nonce_def c_string_def
    by (simp add: codec_simps)
  obtain d1 where "load_json no_faults nonces_json [] (inbox_path ''data'') blank_disk = (Ok [], d1)"
    by (rule load_json_no_fault [where io = no_faults, OF io blank_holds])
  moreover obtain d' where "save_json no_faults nonces_json (inbox_tmp ''data'') (inbox_path ''data'')
      [(0, Submitted 610 600000 10 ''aa'' ''bb'')] d1 = (Ok (), d')"
    by (rule exE [OF save_json_no_fault [where io = no_faults, OF io t]])
  ultimately have r: "record_submitted no_faults nonces_json ''data'' 0 610 600000 10 ''aa'' ''bb'' blank_disk = (Ok (), d')"
    unfolding record_submitted_def inbox_mutate_def inbox_load_raw_def inbox_save_raw_def
    by (simp add: insert_submitted_def)
  have "\<exists>ns'. nonces_hold nonces_json ''data'' d' ns'"
    using inbox_markers_only_advance [where ht = 0, OF nonces_json_ok blank_nonces disjI1 [OF r]] by (elim conjE exE) (rule exI)
  with r show ?thesis by (elim exE) (intro exI conjI)
qed

text \<open>Concrete encodings of the chain state file and of hashes as text.\<close>

definition c_chain_state :: "chain_state codec" where
  "c_chain_state =
     c_iso (\<lambda>(a, b, c, h, t). \<lparr>cs_head = a, cs_safe = b, cs_finalized = c, cs_height = h, cs_timestamp = t\<rparr>)
       (\<lambda>s. (cs_head s, cs_safe s, cs_finalized s, cs_height s, cs_timestamp s))
       (c_pair c_string (c_pair c_string (c_pair c_string (c_pair c_u64 c_u64))))"

lemma codec_ok_chain_state [codec_oks]: "codec_ok c_chain_state"
  unfolding c_chain_state_def by (intro codec_ok_iso codec_oks) auto

definition chain_state_json :: "chain_state json" where
  "chain_state_json = codec_json c_chain_state"

lemma chain_state_json_ok: "json_ok chain_state_json"
  unfolding chain_state_json_def by (intro json_ok_codec codec_oks)

definition hash_text :: "hash \<Rightarrow> string" where
  "hash_text h = CHR ''['' # map (\<lambda>b. char_of (unat b)) (to_vec h) @ [CHR '']'']"

definition parse_hash_text :: "string \<Rightarrow> (string, hash) result" where
  "parse_hash_text t = ok_or ''invalid hash'' (try_into (map (\<lambda>c. of_char c) (butlast (tl t))))"

lemma hash_text_roundtrip [simp]:
  "hash_text h \<noteq> []" "trim (hash_text h) = hash_text h" "parse_hash_text (hash_text h) = Ok h"
proof -
  show "hash_text h \<noteq> []" by (simp add: hash_text_def)
  show "trim (hash_text h) = hash_text h" by (rule trim_ws_free) (simp_all add: hash_text_def is_ws_def)
  show "parse_hash_text (hash_text h) = Ok h"
    by (simp add: parse_hash_text_def hash_text_def butlast_append comp_def byte_char_byte)
qed

lemma chain_state_json_encodes:
  "\<exists>t. to_json chain_state_json \<lparr>cs_head = hash_text a, cs_safe = hash_text b, cs_finalized = hash_text c,
     cs_height = h, cs_timestamp = ts\<rparr> = Ok t"
proof -
  have e: "\<exists>p. c_enc c_string (hash_text x) = Some p" for x
  proof -
    have "enc_all c_byte bs = Some bs" for bs by (induction bs) (auto simp: codec_simps)
    then show ?thesis by (simp add: c_string_def hash_text_def codec_simps)
  qed
  obtain pa pb pc where "c_enc c_string (hash_text a) = Some pa" "c_enc c_string (hash_text b) = Some pb"
    "c_enc c_string (hash_text c) = Some pc" using e by meson
  then show ?thesis
    by (simp add: chain_state_json_def codec_json_def bcs_to_bytes_def c_chain_state_def codec_simps)
qed

lemma state_save_load:
  assumes "\<And>n. io n = None" "json_ok j" "to_json j st = Ok t"
  shows "\<exists>d'. state_load io j dir (snd (state_save io j dir st d)) = (Ok (Some st), d')"
  using assms
  by (simp add: state_load_def state_save_def save_json_def fs_write_def fs_rename_def fs_exists_def
      fs_read_to_string_def fs_read_def json_ok_def sbind_def slift_def state_path_def state_tmp_def)

end
