(* ===== verification/Config.thy ===== *)
theory Config
  imports Stores Wire
begin

text \<open>
  The node configuration (\<open>crates/node/src/config.rs\<close>): the tables of the TOML file with their
  defaults, and loading and saving the file. TOML itself is a library: its
  encoder and decoder of one \<open>Config\<close> are an argument.
\<close>

section \<open>Tables\<close>

record reth_config =
  rc_engine_url :: string
  rc_rpc_url :: string
  rc_jwt_path :: path

record walrus_table =
  wc_publisher_url :: string
  wc_aggregator_url :: string
  wc_epochs :: u64
  wc_batch_size_bytes :: u64
  wc_batch_flush_ms :: u64
  wc_publisher_auth_token :: "string option"

record sui_config =
  sc_rpc_url :: string
  sc_move_dir :: path
  sc_settlement_package_id :: "string option"
  sc_settler_cap_id :: "string option"
  sc_registry_id :: "string option"
  sc_inbox_id :: "string option"
  sc_rotation_key_path :: "path option"
  sc_commit_state_roots :: bool

record signer_config =
  gc_key_path :: "path option"
  gc_sequencer_pubkey :: "string option"

record p2p_table =
  pn_key_path :: "string option"
  pn_listen_addr :: string
  pn_dialable_addr :: "string option"
  pn_bootstrap_peers :: "string list"
  pn_no_p2p :: bool
  pn_registry_admission :: bool
  pn_advertise :: bool

record bridge_config =
  bc_enabled :: bool
  bc_cap_id :: "string option"
  bc_vault_id :: "string option"
  bc_l2_relayer_key_path :: "path option"
  bc_poll_interval_ms :: u64

record metrics_config =
  mc_enabled :: bool
  mc_listen_addr :: string

record sequencer_config =
  qc_block_time_ms :: u64
  qc_fee_recipient :: string
  qc_genesis_hash :: "string option"

record config =
  cf_reth :: reth_config
  cf_walrus :: walrus_table
  cf_sui :: sui_config
  cf_signer :: signer_config
  cf_sequencer :: sequencer_config
  cf_bridge :: bridge_config
  cf_p2p :: p2p_table
  cf_metrics :: metrics_config
  cf_data_dir :: path
  cf_mode :: string

section \<open>Defaults\<close>

definition TESTNET_AGGREGATOR :: string where
  "TESTNET_AGGREGATOR = ''https://aggregator.walrus-testnet.walrus.space''"

definition TESTNET_PUBLISHER :: string where
  "TESTNET_PUBLISHER = ''https://publisher.walrus-testnet.walrus.space''"

definition default_walrus_table :: walrus_table where
  "default_walrus_table =
     \<lparr>wc_publisher_url = TESTNET_PUBLISHER, wc_aggregator_url = TESTNET_AGGREGATOR, wc_epochs = MAX_EPOCHS,
      wc_batch_size_bytes = 64 * 1024, wc_batch_flush_ms = 120000, wc_publisher_auth_token = None\<rparr>"

definition default_sui_config :: sui_config where
  "default_sui_config =
     \<lparr>sc_rpc_url = ''https://fullnode.testnet.sui.io:443'', sc_move_dir = ''./move'', sc_settlement_package_id = None,
      sc_settler_cap_id = None, sc_registry_id = None, sc_inbox_id = None, sc_rotation_key_path = None,
      sc_commit_state_roots = True\<rparr>"

definition default_signer_config :: signer_config where
  "default_signer_config = \<lparr>gc_key_path = Some ''sequencer.key'', gc_sequencer_pubkey = None\<rparr>"

definition default_bridge_config :: bridge_config where
  "default_bridge_config =
     \<lparr>bc_enabled = False, bc_cap_id = None, bc_vault_id = None, bc_l2_relayer_key_path = Some ''relayer.key'',
      bc_poll_interval_ms = 2000\<rparr>"

definition default_p2p_table :: p2p_table where
  "default_p2p_table =
     \<lparr>pn_key_path = Some ''p2p.key'', pn_listen_addr = ''0.0.0.0:9000'', pn_dialable_addr = None,
      pn_bootstrap_peers = [], pn_no_p2p = False, pn_registry_admission = False, pn_advertise = True\<rparr>"

definition default_metrics_config :: metrics_config where
  "default_metrics_config = \<lparr>mc_enabled = False, mc_listen_addr = ''0.0.0.0:9090''\<rparr>"

definition default_sequencer_config :: sequencer_config where
  "default_sequencer_config =
     \<lparr>qc_block_time_ms = 2000, qc_fee_recipient = ''0x0000000000000000000000000000000000000000'',
      qc_genesis_hash = None\<rparr>"

text \<open>\<open>Config::testnet\<close>.\<close>

definition testnet_config :: config where
  "testnet_config =
     \<lparr>cf_reth = \<lparr>rc_engine_url = ''http://localhost:8551'', rc_rpc_url = ''http://localhost:8545'', rc_jwt_path = ''jwt.hex''\<rparr>,
      cf_walrus = default_walrus_table, cf_sui = default_sui_config,
      cf_signer = default_signer_config, cf_sequencer = default_sequencer_config, cf_bridge = default_bridge_config,
      cf_p2p = default_p2p_table, cf_metrics = default_metrics_config, cf_data_dir = ''./data'', cf_mode = ''sequencer''\<rparr>"

section \<open>Loading and saving\<close>

definition fs_copy :: "io \<Rightarrow> path \<Rightarrow> path \<Rightarrow> disk \<Rightarrow> (store_error, unit) result \<times> disk" where
  "fs_copy io p q d =
     (case files d p of
        None \<Rightarrow> (Err (StoreIo ''No such file or directory''), call d)
      | Some t \<Rightarrow> fs_write io q t d)"

definition fs_remove_file :: "io \<Rightarrow> path \<Rightarrow> disk \<Rightarrow> (store_error, unit) result \<times> disk" where
  "fs_remove_file io p d =
     (case io (ops d) of
        Some (e, _) \<Rightarrow> (Err (StoreIo e), call d)
      | None \<Rightarrow> (case files d p of
            None \<Rightarrow> (Err (StoreIo ''No such file or directory''), call d)
          | Some _ \<Rightarrow> (Ok (), (call d)\<lparr>files := (files d)(p := None)\<rparr>)))"

text \<open>\<open>Path::with_extension\<close>: what follows the last dot of the file name is replaced. A name that
  only starts with a dot has no extension.\<close>

definition file_name :: "path \<Rightarrow> string" where
  "file_name p = rev (takeWhile (\<lambda>c. c \<noteq> CHR ''/'') (rev p))"

definition parent_prefix :: "path \<Rightarrow> string" where
  "parent_prefix p = rev (dropWhile (\<lambda>c. c \<noteq> CHR ''/'') (rev p))"

definition file_stem :: "string \<Rightarrow> string" where
  "file_stem n =
     (let stem = rev (drop 1 (dropWhile (\<lambda>c. c \<noteq> CHR ''.'') (rev n)))
      in if CHR ''.'' \<notin> set n \<or> stem = [] \<or> n = ''..'' then n else stem)"

definition with_extension :: "path \<Rightarrow> string \<Rightarrow> path" where
  "with_extension p ext =
     (if file_name p = [] \<or> file_name p = ''..'' then p
      else parent_prefix p @ file_stem (file_name p) @ ''.'' @ ext)"

definition config_from_str :: "config json \<Rightarrow> string \<Rightarrow> (string, config) result" where
  "config_from_str j text = map_err (\<lambda>_. ''parsing config TOML'') (from_json j text)"

definition config_load :: "io \<Rightarrow> config json \<Rightarrow> path \<Rightarrow> disk \<Rightarrow> (string, config) result \<times> disk" where
  "config_load io j p =
     sbind (st_map_err (\<lambda>_. ''reading config from '' @ p) (fs_read_to_string io p)) (\<lambda>text. slift (config_from_str j text))"

definition config_to_toml :: "config json \<Rightarrow> config \<Rightarrow> (string, string) result" where
  "config_to_toml j c = map_err (\<lambda>_. ''serializing config'') (to_json j c)"

text \<open>\<open>save\<close>: write a temporary file and rename it into place; when the rename fails, copy.\<close>

definition config_save :: "io \<Rightarrow> config json \<Rightarrow> path \<Rightarrow> config \<Rightarrow> disk \<Rightarrow> (string, unit) result \<times> disk" where
  "config_save io j p c =
     (let tmp = with_extension p ''toml.tmp'' in
      sbind (slift (config_to_toml j c)) (\<lambda>text.
      sbind (st_map_err (\<lambda>_. ''writing config to '' @ tmp) (fs_write io tmp (Text text))) (\<lambda>_ d.
        case fs_rename io tmp p d of
          (Inr _, d1) \<Rightarrow> (Ok (), d1)
        | (Inl e, d1) \<Rightarrow>
            sbind (st_map_err (\<lambda>_. ''copying config into place at '' @ p @ '' (rename failed: '' @ store_error_display e @ '')'')
                     (fs_copy io tmp p)) (\<lambda>_ d2.
              (Ok (), snd (fs_remove_file io tmp d2))) d1)))"

end
