(* ===== verification/Relayer.thy ===== *)
theory Relayer
  imports L2_Rpc Sui_Bridge Config "HOL-Library.Char_ord" "HOL-Library.AList"
begin

text \<open>
  The bridge relayer (\<open>crates/node/src/bridge.rs\<close>): the token registry, the persisted cursors, both
  relay directions and the construction of the relayer.
\<close>

section \<open>Token registry\<close>

text \<open>A \<open>HashMap\<close> is an association list with distinct keys; its iteration order is not
  specified, and nothing here depends on it.\<close>

record token_registry =
  tr_by_coin_type :: "(byte list \<times> evm_address) list"
  tr_by_address :: "(evm_address \<times> byte list) list"

definition registry_empty :: token_registry where
  "registry_empty = \<lparr>tr_by_coin_type = [], tr_by_address = []\<rparr>"

definition registry_token_for :: "byte list \<Rightarrow> token_registry \<Rightarrow> evm_address option" where
  "registry_token_for coin_type r = map_of (tr_by_coin_type r) coin_type"

definition registry_coin_for :: "evm_address \<Rightarrow> token_registry \<Rightarrow> byte list option" where
  "registry_coin_for token r = map_of (tr_by_address r) token"

definition registry_insert :: "byte list \<Rightarrow> evm_address \<Rightarrow> token_registry \<Rightarrow> bool \<times> token_registry" where
  "registry_insert coin_type token r =
     (case registry_token_for coin_type r of
        Some existing \<Rightarrow>
          if existing \<noteq> token then (False, r)
          else (True, \<lparr>tr_by_coin_type = AList.update coin_type token (tr_by_coin_type r),
                       tr_by_address = AList.update token coin_type (tr_by_address r)\<rparr>)
      | None \<Rightarrow> (True, \<lparr>tr_by_coin_type = AList.update coin_type token (tr_by_coin_type r),
                       tr_by_address = AList.update token coin_type (tr_by_address r)\<rparr>))"

definition registry_addresses :: "token_registry \<Rightarrow> evm_address list" where
  "registry_addresses r = map fst (tr_by_address r)"

definition registry_len :: "token_registry \<Rightarrow> nat" where
  "registry_len r = length (tr_by_coin_type r)"

definition registry_snapshot :: "evm_lib \<Rightarrow> token_registry \<Rightarrow> (string \<times> string) list" where
  "registry_snapshot l r =
     fold (\<lambda>(coin, token). btree_insert (el_hex l coin) (el_show_address l token)) (tr_by_coin_type r) []"

fun snapshot_entries :: "evm_lib \<Rightarrow> (string \<times> string) list \<Rightarrow> token_registry \<Rightarrow> (string, token_registry) result" where
  "snapshot_entries l [] r = Ok r"
| "snapshot_entries l ((coin_hex, token_hex) # es) r =
     and_then (map_err (\<lambda>_. ''corrupt token registry entry '' @ coin_hex) (el_unhex l coin_hex)) (\<lambda>coin.
     and_then (map_err (\<lambda>_. ''corrupt token registry entry '' @ token_hex) (el_parse_address l token_hex)) (\<lambda>token.
       snapshot_entries l es (snd (registry_insert coin token r))))"

definition registry_from_snapshot :: "evm_lib \<Rightarrow> (string \<times> string) list \<Rightarrow> (string, token_registry) result" where
  "registry_from_snapshot l snapshot = snapshot_entries l snapshot registry_empty"

section \<open>Cursors\<close>

record cursors =
  cu_next_deposit_nonce :: u64
  cu_next_l2_block :: u64
  cu_tokens :: "(string \<times> string) list"

definition cursors_default :: cursors where
  "cursors_default = \<lparr>cu_next_deposit_nonce = 0, cu_next_l2_block = 0, cu_tokens = []\<rparr>"

definition load_cursors :: "io \<Rightarrow> cursors json \<Rightarrow> path \<Rightarrow> disk \<Rightarrow> cursors \<times> disk" where
  "load_cursors io j p d =
     (case fs_read_to_string io p d of
        (Inl _, d') \<Rightarrow> (cursors_default, d')
      | (Inr text, d') \<Rightarrow> (case from_json j text of Inl _ \<Rightarrow> (cursors_default, d') | Inr c \<Rightarrow> (c, d')))"

definition persist_cursors :: "io \<Rightarrow> cursors json \<Rightarrow> path \<Rightarrow> cursors \<Rightarrow> disk \<Rightarrow> disk" where
  "persist_cursors io j p c d =
     (case to_json j c of Inl _ \<Rightarrow> d | Inr text \<Rightarrow> snd (fs_write io p (Text text) d))"

section \<open>Indexing the factory's history\<close>

definition absorb_log :: "evm_lib \<Rightarrow> rpc_log \<Rightarrow> token_registry \<Rightarrow> token_registry" where
  "absorb_log l lg r =
     (case parse_bridge_created_log l lg of
        Inl _ \<Rightarrow> r
      | Inr (coin_str, token) \<Rightarrow>
          (case normalize_coin_type l coin_str of Inl _ \<Rightarrow> r | Inr coin \<Rightarrow> snd (registry_insert coin token r)))"

definition absorb_creations ::
    "'w l2_port \<Rightarrow> evm_address \<Rightarrow> token_registry \<Rightarrow> u64 \<Rightarrow> u64 \<Rightarrow> 'w \<Rightarrow> (string, nat \<times> token_registry) result \<times> 'w" where
  "absorb_creations p factory tokens from_block to_block =
     sbind (eth_get_logs p [factory] (BRIDGE_CREATED_TOPIC (lp_lib p)) from_block to_block) (\<lambda>logs.
       sreturn (length logs, fold (absorb_log (lp_lib p)) logs tokens))"

definition CREATION_SCAN_CHUNK :: u64 where "CREATION_SCAN_CHUNK = 2500"
definition MIN_CREATION_SCAN_CHUNK :: u64 where "MIN_CREATION_SCAN_CHUNK = 64"
definition CREATION_SCAN_HALVE_AFTER :: nat where "CREATION_SCAN_HALVE_AFTER = 500"

text \<open>The chunked scan; the first number bounds its rounds, \<open>None\<close> means it is still scanning
  after them.\<close>

fun scan_loop ::
    "'w l2_port \<Rightarrow> evm_address \<Rightarrow> u64 \<Rightarrow> nat \<Rightarrow> u64 \<Rightarrow> u64 \<Rightarrow> token_registry \<Rightarrow> 'w \<Rightarrow>
     ((string, token_registry) result \<times> 'w) option" where
  "scan_loop p factory hd_block 0 chunk from_block r w = None"
| "scan_loop p factory hd_block (Suc k) chunk from_block r w =
     (if from_block > hd_block then Some (Ok r, w)
      else let to_block = min (saturating_add from_block (chunk - 1)) hd_block in
        case absorb_creations p factory r from_block to_block w of
          (Inr (found, r1), w1) \<Rightarrow>
            scan_loop p factory hd_block k
              (if found \<ge> CREATION_SCAN_HALVE_AFTER \<and> chunk > MIN_CREATION_SCAN_CHUNK then chunk div 2 else chunk)
              (to_block + 1) r1 w1
        | (Inl _, w1) \<Rightarrow>
            if chunk > MIN_CREATION_SCAN_CHUNK then scan_loop p factory hd_block k (chunk div 2) from_block r w1
            else Some (Err ''indexing BridgeCreated history'', w1))"

section \<open>The relayer\<close>

text \<open>What the relayer calls besides the L2 node: the Sui reads and the release of
  \<open>crates/sui/src/bridge.rs\<close>, the EVM signer and the cursor file.\<close>

record 'w relay_port = "'w l2_port" +
  lp_vault_status :: "'w \<Rightarrow> (bridge_error, vault_view) result \<times> 'w"
  lp_deposit_at :: "address \<Rightarrow> u64 \<Rightarrow> 'w \<Rightarrow> (bridge_error, deposit_record option) result \<times> 'w"
  lp_withdraw :: "string \<Rightarrow> address \<Rightarrow> u64 \<Rightarrow> u64 \<Rightarrow> 'w \<Rightarrow> (bridge_error, unit) result \<times> 'w"
  lp_signer :: evm_address
  lp_factory :: evm_address
  lp_poll :: nat
  lp_io :: io
  lp_cursors_path :: path
  lp_cursors_json :: "cursors json"

definition l2_of :: "'w relay_port \<Rightarrow> 'w l2_port" where "l2_of p = l2_port.truncate p"

record 'w relayer =
  re_world :: 'w
  re_disk :: disk
  re_cursors :: cursors
  re_tokens :: token_registry
  re_chain_id :: u64
  re_deposits_table :: address

definition on_net :: "('w \<Rightarrow> ('e, 'a) result \<times> 'w) \<Rightarrow> 'w relayer \<Rightarrow> ('e, 'a) result \<times> 'w relayer" where
  "on_net m s = (case m (re_world s) of (r, w) \<Rightarrow> (r, s\<lparr>re_world := w\<rparr>))"

text \<open>The cursors and the registry are written together.\<close>

definition save_progress :: "'w relay_port \<Rightarrow> 'w relayer \<Rightarrow> 'w relayer" where
  "save_progress p s =
     (let c = (re_cursors s)\<lparr>cu_tokens := registry_snapshot (lp_lib p) (re_tokens s)\<rparr>
      in s\<lparr>re_cursors := c, re_disk := persist_cursors (lp_io p) (lp_cursors_json p) (lp_cursors_path p) c (re_disk s)\<rparr>)"

definition MINT_GAS_LIMIT :: u64 where "MINT_GAS_LIMIT = 120000"
definition CREATE_BRIDGE_GAS_LIMIT :: u64 where "CREATE_BRIDGE_GAS_LIMIT = 3000000"

definition send_l2_tx ::
    "'w relay_port \<Rightarrow> evm_address \<Rightarrow> byte list \<Rightarrow> u64 \<Rightarrow> 'w relayer \<Rightarrow> (string, string) result \<times> 'w relayer" where
  "send_l2_tx p to_address calldata gas_limit s =
     on_net (sbind (eth_get_transaction_count (l2_of p) (lp_signer p)) (\<lambda>nonce_tx.
             sbind (eth_gas_price (l2_of p)) (\<lambda>price.
             sbind (slift (map_err (\<lambda>_. ''signing bridge tx'') (el_sign_tx (lp_lib p)
                     \<lparr>tx_chain_id = re_chain_id s, tx_nonce = nonce_tx, tx_gas_limit = gas_limit,
                      tx_max_fee_per_gas = price, tx_max_priority_fee = min price 2000000000,
                      tx_to = to_address, tx_input = calldata\<rparr>))) (\<lambda>raw.
               eth_send_raw_transaction (l2_of p) raw)))) s"

text \<open>The receipt wait returns after one poll, so one round of fuel is
  the whole wait.\<close>

definition await_receipt :: "'w relay_port \<Rightarrow> string \<Rightarrow> 'w relayer \<Rightarrow> (string, receipt) result \<times> 'w relayer" where
  "await_receipt p tx_hash s =
     (case wait_for_receipt (l2_of p) 1 tx_hash (lp_poll p) (re_world s) of
        Some (r, w) \<Rightarrow> (r, s\<lparr>re_world := w\<rparr>)
      | None \<Rightarrow> (Err ''still waiting'', s))"

definition ensure_token :: "'w relay_port \<Rightarrow> byte list \<Rightarrow> 'w relayer \<Rightarrow> (string, evm_address) result \<times> 'w relayer" where
  "ensure_token p coin_type s =
     (case registry_token_for coin_type (re_tokens s) of
        Some token \<Rightarrow> (Ok token, s)
      | None \<Rightarrow>
          sbind (slift (from_utf8 ''deposit coin_type bytes are not utf-8'' coin_type)) (\<lambda>coin_str.
            let (name, symbol) = derive_token_metadata coin_str in
          sbind (st_map_err (\<lambda>_. ''sending createBridge tx'')
                   (send_l2_tx p (lp_factory p) (create_bridge_calldata (lp_lib p) name symbol coin_str)
                      CREATE_BRIDGE_GAS_LIMIT)) (\<lambda>tx_hash.
          sbind (await_receipt p tx_hash) (\<lambda>rcpt.
          sbind (slift (ensure_receipt_success rcpt)) (\<lambda>_.
          sbind (slift (ok_or ''createBridge receipt has no BridgeCreated log''
                   (List.find (\<lambda>lg. \<not> isl (parse_bridge_created_log (lp_lib p) lg)) (rc_logs rcpt)))) (\<lambda>lg t.
            case parse_bridge_created_log (lp_lib p) lg of
              Inl e \<Rightarrow> (Err e, t)
            | Inr (_, token) \<Rightarrow>
                (case registry_insert coin_type token (re_tokens t) of
                   (True, tokens) \<Rightarrow> (Ok token, t\<lparr>re_tokens := tokens\<rparr>)
                 | (False, tokens) \<Rightarrow>
                     (ok_or ''canonical token missing after twin rejection'' (registry_token_for coin_type tokens),
                      t\<lparr>re_tokens := tokens\<rparr>))))))) s)"

definition mint_on_l2 ::
    "'w relay_port \<Rightarrow> evm_address \<Rightarrow> u64 \<Rightarrow> byte list \<Rightarrow> u64 \<Rightarrow> 'w relayer \<Rightarrow> (string, unit) result \<times> 'w relayer" where
  "mint_on_l2 p token nonce recipient amount =
     sbind (slift (ok_or ''deposit recipient_l2 is not 20 bytes'' (try_into recipient))) (\<lambda>recip.
     sbind (st_map_err (\<lambda>_. ''sending mint tx'')
              (send_l2_tx p token (mint_calldata (lp_lib p) recip amount nonce) MINT_GAS_LIMIT)) (\<lambda>tx_hash.
     sbind (await_receipt p tx_hash) (\<lambda>rcpt. slift (ensure_receipt_success rcpt))))"

text \<open>One turn of the loop of \<open>relay_deposits\<close>: whether it goes on, and the state.\<close>

definition relay_deposit :: "'w relay_port \<Rightarrow> u64 \<Rightarrow> 'w relayer \<Rightarrow> bool \<times> 'w relayer" where
  "relay_deposit p latest s =
     (let nonce = cu_next_deposit_nonce (re_cursors s) in
      if nonce \<ge> latest then (False, s)
      else case on_net (lp_deposit_at p (re_deposits_table s) nonce) s of
        (Inl _, s1) \<Rightarrow> (False, s1)
      | (Inr None, s1) \<Rightarrow> (False, s1)
      | (Inr (Some d), s1) \<Rightarrow>
          (case ensure_token p (dr_coin_type d) s1 of
             (Inl _, s2) \<Rightarrow> (False, s2)
           | (Inr token, s2) \<Rightarrow>
               (case unwrap_or (False, 0) (on_net (eth_mint_cursor (l2_of p) token)) s2 of
                  ((minted_any, last_minted), s3) \<Rightarrow>
                    (case (if minted_any \<and> last_minted \<ge> nonce then (Ok (), s3)
                           else mint_on_l2 p token nonce (dr_recipient_l2 d) (dr_amount d) s3) of
                       (Inl _, s4) \<Rightarrow> (False, s4)
                     | (Inr _, s4) \<Rightarrow>
                         (True, save_progress p
                                  (s4\<lparr>re_cursors := (re_cursors s4)\<lparr>cu_next_deposit_nonce := nonce + 1\<rparr>\<rparr>))))))"

text \<open>\<open>relay_deposits\<close> always returns \<open>Ok\<close>; the first number bounds the deposits of one pass.\<close>

fun deposit_loop :: "'w relay_port \<Rightarrow> u64 \<Rightarrow> nat \<Rightarrow> 'w relayer \<Rightarrow> 'w relayer option" where
  "deposit_loop p latest 0 s = None"
| "deposit_loop p latest (Suc k) s =
     (case relay_deposit p latest s of (go_on, t) \<Rightarrow> if go_on then deposit_loop p latest k t else Some t)"

definition relay_deposits :: "'w relay_port \<Rightarrow> 'w relayer \<Rightarrow> 'w relayer option" where
  "relay_deposits p s =
     (case on_net (lp_vault_status p) s of
        (Inl _, s1) \<Rightarrow> Some s1
      | (Inr status, s1) \<Rightarrow>
          deposit_loop p (vs_deposit_nonce status)
            (Suc (unat (vs_deposit_nonce status) - unat (cu_next_deposit_nonce (re_cursors s1)))) s1)"

definition process_withdrawal_log :: "'w relay_port \<Rightarrow> rpc_log \<Rightarrow> 'w relayer \<Rightarrow> (string, unit) result \<times> 'w relayer" where
  "process_withdrawal_log p lg s =
     sbind (slift (map_err (\<lambda>_. ''log address not valid hex'') (parse_log_address (lp_lib p) (rl_address lg)))) (\<lambda>emitter.
     sbind (slift (ok_or (''withdrawal log from unknown token '' @ el_checksum (lp_lib p) emitter)
                     (registry_coin_for emitter (re_tokens s)))) (\<lambda>coin_bytes.
     sbind (slift (from_utf8 ''token coin_type not utf-8'' coin_bytes)) (\<lambda>coin_str.
     sbind (slift (coin_type_tag (lp_lib p) coin_str)) (\<lambda>coin_tag.
     sbind (slift (parse_withdrawal_log (lp_lib p) lg)) (\<lambda>w.
       st_map_err (\<lambda>e. ''Sui withdraw failed (nonce '' @ show_u64 (pw_nonce w) @ ''): '' @ bridge_error_display e)
         (on_net (lp_withdraw p coin_tag (pw_sui_recipient w) (pw_amount w) (pw_nonce w)))))))) s"

fun process_logs :: "'w relay_port \<Rightarrow> rpc_log list \<Rightarrow> 'w relayer \<Rightarrow> (string, unit) result \<times> 'w relayer" where
  "process_logs p [] s = (Ok (), s)"
| "process_logs p (lg # lgs) s = sbind (process_withdrawal_log p lg) (\<lambda>_. process_logs p lgs) s"

definition relay_withdrawals :: "'w relay_port \<Rightarrow> 'w relayer \<Rightarrow> (string, unit) result \<times> 'w relayer" where
  "relay_withdrawals p s =
     (let from_block = cu_next_l2_block (re_cursors s) in
      sbind (on_net (eth_block_number (l2_of p))) (\<lambda>latest s1.
        if latest < from_block then (Ok (), s1)
        else
      sbind (on_net (absorb_creations (l2_of p) (lp_factory p) (re_tokens s1) from_block latest)) (\<lambda>(_, tokens) t.
        (let s2 = t\<lparr>re_tokens := tokens\<rparr>; addresses = registry_addresses tokens in
         sbind (if addresses = [] then sreturn ()
                else sbind (on_net (eth_get_logs (l2_of p) addresses (WITHDRAWAL_TOPIC (lp_lib p)) from_block latest))
                       (process_logs p)) (\<lambda>_ s3.
           (Ok (), save_progress p (s3\<lparr>re_cursors := (re_cursors s3)\<lparr>cu_next_l2_block := latest + 1\<rparr>\<rparr>))) s2)) s1) s)"

section \<open>Start-up\<close>

text \<open>The registry from the cursor file, or from the factory's history.\<close>

definition restore_token_registry :: "'w relay_port \<Rightarrow> nat \<Rightarrow> 'w relayer \<Rightarrow> ((string, unit) result \<times> 'w relayer) option" where
  "restore_token_registry p fuel s =
     (if cu_tokens (re_cursors s) \<noteq> [] \<and> cu_next_l2_block (re_cursors s) > 0 then
        Some (case registry_from_snapshot (lp_lib p) (cu_tokens (re_cursors s)) of
                Inl e \<Rightarrow> (Err e, s)
              | Inr r \<Rightarrow> (Ok (), s\<lparr>re_tokens := r\<rparr>))
      else case on_net (eth_block_number (l2_of p)) s of
        (Inl e, s1) \<Rightarrow> Some (Err e, s1)
      | (Inr hd_block, s1) \<Rightarrow>
          (case scan_loop (l2_of p) (lp_factory p) hd_block fuel CREATION_SCAN_CHUNK 0 registry_empty (re_world s1) of
             None \<Rightarrow> None
           | Some (Inl e, w) \<Rightarrow> Some (Err e, s1\<lparr>re_world := w\<rparr>)
           | Some (Inr r, w) \<Rightarrow>
               Some (Ok (), save_progress p (s1\<lparr>re_world := w, re_tokens := r,
                 re_cursors := (re_cursors s1)\<lparr>cu_next_l2_block := hd_block + 1\<rparr>\<rparr>))))"

definition loaded_relayer :: "'w relay_port \<Rightarrow> u64 \<Rightarrow> address \<Rightarrow> disk \<Rightarrow> 'w \<Rightarrow> 'w relayer" where
  "loaded_relayer p chain_id table d w =
     (case load_cursors (lp_io p) (lp_cursors_json p) (lp_cursors_path p) d of
        (c, d') \<Rightarrow> \<lparr>re_world = w, re_disk = d', re_cursors = c, re_tokens = registry_empty,
                    re_chain_id = chain_id, re_deposits_table = table\<rparr>)"

text \<open>The first half of \<open>new\<close>, once the relayer key is loaded: the factory and the chain id of the L2.\<close>

definition l2_preflight :: "'w l2_port \<Rightarrow> evm_address \<Rightarrow> evm_address \<Rightarrow> 'w \<Rightarrow> (string, u64) result \<times> 'w" where
  "l2_preflight l2 factory signer =
     sbind (verify_l2_bridge_factory l2 factory signer) (\<lambda>_.
       st_map_err (\<lambda>_. ''reading chain id from Reth via eth_chainId'') (eth_chain_id l2))"

text \<open>The second half, once the Sui client is built: the deposits table, the cursors, the registry.\<close>

definition relayer_open :: "'w relay_port \<Rightarrow> nat \<Rightarrow> u64 \<Rightarrow> disk \<Rightarrow> 'w \<Rightarrow> ((string, 'w relayer) result \<times> 'w) option" where
  "relayer_open p fuel chain_id d w =
     (case lp_vault_status p w of
        (Inl _, w1) \<Rightarrow> Some (Err ''reading vault status'', w1)
      | (Inr status, w1) \<Rightarrow>
          map_option (\<lambda>(r, s). (and_then r (\<lambda>_. Ok s), re_world s))
            (restore_token_registry p fuel (loaded_relayer p chain_id (vs_deposits_table_uid status) d w1)))"

text \<open>Both, for a client that can be built.\<close>

definition relayer_new :: "'w relay_port \<Rightarrow> nat \<Rightarrow> disk \<Rightarrow> 'w \<Rightarrow> ((string, 'w relayer) result \<times> 'w) option" where
  "relayer_new p fuel d w =
     (case l2_preflight (l2_of p) (lp_factory p) (lp_signer p) w of
        (Inl e, w1) \<Rightarrow> Some (Err e, w1)
      | (Inr chain_id, w1) \<Rightarrow> relayer_open p fuel chain_id d w1)"

lemma relayer_new_steps:
  "relayer_new p fuel d w =
     (case verify_l2_bridge_factory (l2_of p) (lp_factory p) (lp_signer p) w of
        (Inl e, w1) \<Rightarrow> Some (Err e, w1)
      | (Inr _, w1) \<Rightarrow>
     (case eth_chain_id (l2_of p) w1 of
        (Inl _, w2) \<Rightarrow> Some (Err ''reading chain id from Reth via eth_chainId'', w2)
      | (Inr chain_id, w2) \<Rightarrow> relayer_open p fuel chain_id d w2))"
  by (simp add: relayer_new_def l2_preflight_def sbind_def st_map_err_def split: prod.splits sum.splits)

text \<open>The relayer key of \<open>new\<close>: the key file holds the hex of a secp256k1 scalar; \<open>from_slice\<close> is
  \<open>PrivateKeySigner::from_slice\<close>.\<close>

definition relayer_signer ::
    "evm_lib \<Rightarrow> (byte list \<Rightarrow> (string, 'key) result) \<Rightarrow> (string \<Rightarrow> (string, string) result) \<Rightarrow> path option \<Rightarrow>
     (string, 'key) result" where
  "relayer_signer l from_slice read key_path =
     and_then (ok_or ''bridge.l2_relayer_key_path is required'' key_path) (\<lambda>p.
     and_then (map_err (\<lambda>_. ''reading relayer key '' @ p) (read p)) (\<lambda>text.
     and_then (map_err (\<lambda>_. ''relayer key is not valid hex'') (el_unhex l (trim_start_0x (trim text)))) (\<lambda>bytes.
       map_err (\<lambda>_. ''invalid relayer private key (need 32-byte secp256k1 scalar)'') (from_slice bytes))))"

text \<open>One round of \<open>run\<close>: both directions, each pass with its error logged and dropped.\<close>

definition relay_round :: "'w relay_port \<Rightarrow> 'w relayer \<Rightarrow> 'w relayer option" where
  "relay_round p s =
     map_option (\<lambda>t. (snd (relay_withdrawals p t))) (relay_deposits p s)"

end
