(* ===== verification/Bridge_Task.thy ===== *)
theory Bridge_Task
  imports Relayer
begin

text \<open>
  The task around the bridge relayer (\<open>crates/node/src/bridge.rs\<close>): resolving or creating the Vault,
  building the relayer, the retries until the L2 factory is usable, and the relay loop. The task owns
  its copy of the configuration, which it changes in place.
\<close>

section \<open>Environment and state\<close>

text \<open>\<open>be_te n\<close>, \<open>be_adopted n\<close>: the Sui transactions and the key the rotation watcher recorded, at
  the \<open>n\<close>-th attempt. \<open>be_l2\<close> is the L2 node at an URL and \<open>be_port\<close> adds the Sui side: the reads of
  the Vault, the releases of the client, the relayer's key.\<close>

record ('key, 'tx, 'sg, 'ekey, 'w) bridge_env =
  be_io :: io
  be_toml :: "config json"
  be_lib :: evm_lib
  be_te :: "nat \<Rightarrow> ('key, 'tx, 'sg) tx_env"
  be_adopted :: "nat \<Rightarrow> 'key option"
  be_parse :: "string \<Rightarrow> (string, address) result"
  be_parse_key :: "string \<Rightarrow> (string, 'key) result"
  be_from_slice :: "byte list \<Rightarrow> (string, 'ekey) result"
  be_signer :: "'ekey \<Rightarrow> evm_address"
  be_factory :: evm_address
  be_l2 :: "config \<Rightarrow> 'w l2_port"
  be_port :: "config \<Rightarrow> 'ekey \<Rightarrow> string \<Rightarrow> 'key bridge_client \<Rightarrow> 'w relay_port"
  be_fuel :: nat

text \<open>\<open>bt_shared\<close> is the cell through which the rotation watcher finds the Sui signer.\<close>

record ('key, 'w) bridge_task =
  bt_config :: config
  bt_disk :: disk
  bt_world :: 'w
  bt_shared :: "'key bridge_client option"

definition on_task_disk :: "(disk \<Rightarrow> 'a \<times> disk) \<Rightarrow> ('key, 'w) bridge_task \<Rightarrow> 'a \<times> ('key, 'w) bridge_task" where
  "on_task_disk f s = (case f (bt_disk s) of (r, d) \<Rightarrow> (r, s\<lparr>bt_disk := d\<rparr>))"

definition read_text :: "io \<Rightarrow> path \<Rightarrow> disk \<Rightarrow> (string, string) result \<times> disk" where
  "read_text io p = st_map_err store_error_display (fs_read_to_string io p)"

section \<open>The Vault\<close>

definition create_vault ::
    "('key, 'tx, 'sg, 'ekey, 'w) bridge_env \<Rightarrow> nat \<Rightarrow> config \<Rightarrow> path \<Rightarrow> string \<Rightarrow> disk \<Rightarrow>
     (bridge_error, deployed_bridge) result \<times> disk" where
  "create_vault e n c key_path package_id d =
     (case be_adopted e n of
        Some key \<Rightarrow> (initialize_with_key (be_te e n) (be_parse e) key (sc_rpc_url (cf_sui c)) package_id, d)
      | None \<Rightarrow>
          (case read_text (be_io e) key_path d of
             (contents, d1) \<Rightarrow>
               (bridge_initialize (be_te e n) (\<lambda>_. contents) (be_parse_key e) (be_parse e) key_path
                  (sc_rpc_url (cf_sui c)) package_id, d1)))"

definition with_bridge_ids :: "deployed_bridge \<Rightarrow> config \<Rightarrow> config" where
  "with_bridge_ids b c =
     c\<lparr>cf_bridge := (cf_bridge c)\<lparr>bc_cap_id := Some (db_cap_id b), bc_vault_id := Some (db_vault_id b)\<rparr>\<rparr>"

text \<open>The package, the cap and the Vault; those of a fresh Vault are in the configuration before it
  is saved.\<close>

definition bridge_ids ::
    "('key, 'tx, 'sg, 'ekey, 'w) bridge_env \<Rightarrow> nat \<Rightarrow> path \<Rightarrow> path \<Rightarrow> ('key, 'w) bridge_task \<Rightarrow>
     (string, string \<times> string \<times> string) result \<times> ('key, 'w) bridge_task" where
  "bridge_ids e n config_path key_path s =
     (case sc_settlement_package_id (cf_sui (bt_config s)) of
        None \<Rightarrow> (Err ''settlement must be deployed before the bridge can start'', s)
      | Some package_id \<Rightarrow>
          (case (bc_cap_id (cf_bridge (bt_config s)), bc_vault_id (cf_bridge (bt_config s))) of
             (Some cap, Some vlt) \<Rightarrow> (Ok (package_id, cap, vlt), s)
           | (None, None) \<Rightarrow>
               sbind (st_map_err (\<lambda>_. ''initializing bridge Vault on Sui'')
                        (on_task_disk (create_vault e n (bt_config s) key_path package_id))) (\<lambda>b t.
                 (let t1 = t\<lparr>bt_config := with_bridge_ids b (bt_config t)\<rparr> in
                  sbind (on_task_disk (config_save (be_io e) (be_toml e) config_path (bt_config t1))) (\<lambda>_.
                    sreturn (package_id, db_cap_id b, db_vault_id b)) t1)) s
           | _ \<Rightarrow> (Err ''bridge.cap_id and bridge.vault_id must both be set or both unset'', s)))"

section \<open>The relayer\<close>

definition relayer_key ::
    "('key, 'tx, 'sg, 'ekey, 'w) bridge_env \<Rightarrow> config \<Rightarrow> disk \<Rightarrow> (string, 'ekey) result \<times> disk" where
  "relayer_key e c d =
     (case bc_l2_relayer_key_path (cf_bridge c) of
        None \<Rightarrow> (relayer_signer (be_lib e) (be_from_slice e) Err None, d)
      | Some p \<Rightarrow>
          (case read_text (be_io e) p d of
             (contents, d1) \<Rightarrow> (relayer_signer (be_lib e) (be_from_slice e) (\<lambda>_. contents) (Some p), d1)))"

definition bridge_client_of ::
    "('key, 'tx, 'sg, 'ekey, 'w) bridge_env \<Rightarrow> nat \<Rightarrow> config \<Rightarrow> path \<Rightarrow> string \<times> string \<times> string \<Rightarrow> disk \<Rightarrow>
     (bridge_error, 'key bridge_client) result \<times> disk" where
  "bridge_client_of e n c key_path ids d =
     (case ids of (package_id, cap_id, vault_id) \<Rightarrow>
      let build = (\<lambda>contents. bridge_new_or_adopted (be_te e n) (\<lambda>_. contents) (be_parse_key e) (be_parse e)
            (be_adopted e n) key_path package_id cap_id vault_id (sc_rpc_url (cf_sui c)))
      in case be_adopted e n of
           Some key \<Rightarrow> (build (Err []), d)
         | None \<Rightarrow> (case read_text (be_io e) key_path d of (contents, d1) \<Rightarrow> (build contents, d1)))"

text \<open>\<open>new\<close>: the relayer key, the L2, the Sui client, the rest.\<close>

definition build_relayer ::
    "('key, 'tx, 'sg, 'ekey, 'w) bridge_env \<Rightarrow> nat \<Rightarrow> path \<Rightarrow> string \<times> string \<times> string \<Rightarrow> ('key, 'w) bridge_task \<Rightarrow>
     ((string, 'key bridge_client \<times> 'w relay_port \<times> 'w relayer) result \<times> ('key, 'w) bridge_task) option" where
  "build_relayer e n key_path ids s =
     (case relayer_key e (bt_config s) (bt_disk s) of
        (Inl m, d1) \<Rightarrow> Some (Err m, s\<lparr>bt_disk := d1\<rparr>)
      | (Inr ekey, d1) \<Rightarrow>
     (case l2_preflight (be_l2 e (bt_config s)) (be_factory e) (be_signer e ekey) (bt_world s) of
        (Inl m, w1) \<Rightarrow> Some (Err m, s\<lparr>bt_disk := d1, bt_world := w1\<rparr>)
      | (Inr chain_id, w1) \<Rightarrow>
     (case bridge_client_of e n (bt_config s) key_path ids d1 of
        (Inl _, d2) \<Rightarrow> Some (Err ''building Sui bridge client'', s\<lparr>bt_disk := d2, bt_world := w1\<rparr>)
      | (Inr client, d2) \<Rightarrow>
          (let p = be_port e (bt_config s) ekey (snd (snd ids)) client in
           case relayer_open p (be_fuel e) chain_id d2 w1 of
             None \<Rightarrow> None
           | Some (Inl m, w2) \<Rightarrow> Some (Err m, s\<lparr>bt_disk := d2, bt_world := w2\<rparr>)
           | Some (Inr r, w2) \<Rightarrow> Some (Ok (client, p, r), s\<lparr>bt_disk := re_disk r, bt_world := re_world r\<rparr>)))))"

definition setup_relayer ::
    "('key, 'tx, 'sg, 'ekey, 'w) bridge_env \<Rightarrow> nat \<Rightarrow> path \<Rightarrow> path \<Rightarrow> ('key, 'w) bridge_task \<Rightarrow>
     ((string, 'w relay_port \<times> 'w relayer) result \<times> ('key, 'w) bridge_task) option" where
  "setup_relayer e n config_path key_path s =
     (case bridge_ids e n config_path key_path s of
        (Inl m, s1) \<Rightarrow> Some (Err m, s1)
      | (Inr ids, s1) \<Rightarrow>
          map_option (\<lambda>(r, s2). case r of
              Inl m \<Rightarrow> (Err m, s2)
            | Inr (client, p, rel) \<Rightarrow>
                (Ok (p, rel), s2\<lparr>bt_shared := (case bt_shared s2 of None \<Rightarrow> Some client | Some c \<Rightarrow> Some c)\<rparr>))
            (build_relayer e n key_path ids s1))"

section \<open>The task\<close>

text \<open>\<open>run\<close>: the list has what each round finds in the shutdown flag; an exhausted list is a relayer
  that is still running.\<close>

primrec relay_run :: "'w relay_port \<Rightarrow> bool list \<Rightarrow> 'w relayer \<Rightarrow> (bool \<times> 'w relayer) option" where
  "relay_run p [] s = Some (False, s)"
| "relay_run p (down # downs) s =
     (if down then Some (True, s)
      else case relay_round p s of None \<Rightarrow> None | Some t \<Rightarrow> relay_run p downs t)"

datatype 'w task_end = Returned | Retrying | Relaying "'w relay_port" "'w relayer"

definition left_by :: "'w relayer \<Rightarrow> ('key, 'w) bridge_task \<Rightarrow> ('key, 'w) bridge_task" where
  "left_by r s = s\<lparr>bt_disk := re_disk r, bt_world := re_world r\<rparr>"

text \<open>\<open>run\<close> only returns when the flag is set, which the loop then finds set as well.\<close>

primrec relay_until_ready ::
    "('key, 'tx, 'sg, 'ekey, 'w) bridge_env \<Rightarrow> path \<Rightarrow> path \<Rightarrow> bool list \<Rightarrow> nat \<Rightarrow> ('key, 'w) bridge_task \<Rightarrow>
     ('w task_end \<times> ('key, 'w) bridge_task) option" where
  "relay_until_ready e config_path key_path [] n s = Some (Retrying, s)"
| "relay_until_ready e config_path key_path (down # downs) n s =
     (if down then Some (Returned, s)
      else case setup_relayer e n config_path key_path s of
          None \<Rightarrow> None
        | Some (Inl _, s1) \<Rightarrow> relay_until_ready e config_path key_path downs (Suc n) s1
        | Some (Inr (p, r), s1) \<Rightarrow>
            map_option (\<lambda>(ended, r1). (if ended then Returned else Relaying p r1, left_by r1 s1)) (relay_run p downs r))"

definition spawn_bridge ::
    "('key, 'tx, 'sg, 'ekey, 'w) bridge_env \<Rightarrow> path \<Rightarrow> path \<Rightarrow> bool list \<Rightarrow> ('key, 'w) bridge_task \<Rightarrow>
     ('w task_end \<times> ('key, 'w) bridge_task) option option" where
  "spawn_bridge e config_path key_path downs s =
     (if \<not> bc_enabled (cf_bridge (bt_config s)) then None
      else Some (relay_until_ready e config_path key_path downs 0 s))"

end
