(* ===== verification/Relayer_Registry.thy ===== *)
theory Relayer_Registry
  imports Relayer
begin

text \<open>
  Properties of the relayer that hold whatever its environment answers: the token registry stays
  consistent, its snapshot reads back, the history scan and the deposit pass return, and the wait
  for a receipt is a single request.
\<close>

section \<open>A consistent registry\<close>

text \<open>The token a withdrawal comes from is the canonical token of the coin it is paid in.\<close>

definition registry_wf :: "token_registry \<Rightarrow> bool" where
  "registry_wf r \<longleftrightarrow> (\<forall>token coin. registry_coin_for token r = Some coin \<longrightarrow> registry_token_for coin r = Some token)"

named_theorems registry_intros \<open>operations that keep the registry consistent\<close>

lemma registry_wf_empty [registry_intros]: "registry_wf registry_empty"
  by (simp add: registry_wf_def registry_empty_def registry_coin_for_def)

lemma registry_insert_lookup:
  "registry_token_for c (snd (registry_insert coin token r)) =
     (if c = coin \<and> registry_token_for coin r = None then Some token else registry_token_for c r)"
  by (auto simp: registry_insert_def registry_token_for_def update_conv' fun_upd_def split: option.splits)

lemma registry_insert_coin:
  "registry_coin_for t (snd (registry_insert coin token r)) =
     (if t = token \<and> registry_token_for coin r \<in> {None, Some token} then Some coin else registry_coin_for t r)"
  by (auto simp: registry_insert_def registry_coin_for_def update_conv' fun_upd_def split: option.splits)

lemma registry_wf_insert [registry_intros]: "registry_wf r \<Longrightarrow> registry_wf (snd (registry_insert coin token r))"
  unfolding registry_wf_def registry_insert_lookup registry_insert_coin by auto

lemma registry_wf_absorb_log [registry_intros]: "registry_wf r \<Longrightarrow> registry_wf (absorb_log l lg r)"
  by (auto simp: absorb_log_def intro: registry_wf_insert split: sum.splits prod.splits)

lemma registry_wf_fold [registry_intros]: "registry_wf r \<Longrightarrow> registry_wf (fold (absorb_log l) lgs r)"
  by (induction lgs arbitrary: r) (auto intro: registry_wf_absorb_log)

lemma registry_wf_snapshot: "snapshot_entries l es r = Ok r' \<Longrightarrow> registry_wf r \<Longrightarrow> registry_wf r'"
proof (induction es arbitrary: r)
  case (Cons e es)
  then show ?case by (cases e) (auto simp: and_then_eq_Inr dest: Cons.IH [OF _ registry_wf_insert])
qed simp

lemma registry_wf_absorb:
  "absorb_creations p factory r a b w = (Ok (n, r'), w') \<Longrightarrow> registry_wf r \<Longrightarrow> registry_wf r'"
  by (auto simp: absorb_creations_def sbind_Ok_iff intro: registry_wf_fold)

lemma registry_wf_scan:
  "scan_loop p factory hd_block k chunk from_block r w = Some (Ok r', w') \<Longrightarrow> registry_wf r \<Longrightarrow> registry_wf r'"
  by (induction p factory hd_block k chunk from_block r w rule: scan_loop.induct)
     (auto simp: Let_def split: if_splits prod.splits sum.splits dest: registry_wf_absorb)

text \<open>The registry of a relayer state is changed by two operations only.\<close>

definition keeps_registry :: "'w relayer \<Rightarrow> 'w relayer \<Rightarrow> bool" where
  "keeps_registry s t \<longleftrightarrow> (registry_wf (re_tokens s) \<longrightarrow> registry_wf (re_tokens t))"

interpretation reg: run_order keeps_registry
  by unfold_locales (auto simp: keeps_registry_def)

lemma keeps_on_net: "preserves keeps_registry (on_net m)"
  by (simp add: preserves_def keeps_registry_def on_net_def split: prod.splits)

lemma re_tokens_on_net [simp]: "re_tokens (snd (on_net m s)) = re_tokens s"
  by (simp add: on_net_def split: prod.splits)

lemma keeps_save_progress: "keeps_registry s (save_progress p s)"
  by (simp add: keeps_registry_def save_progress_def Let_def)

lemma keeps_send: "preserves keeps_registry (send_l2_tx p a cd gas)"
  unfolding preserves_def send_l2_tx_def keeps_registry_def by simp

lemma keeps_await: "preserves keeps_registry (await_receipt p h)"
  by (simp add: preserves_def await_receipt_def keeps_registry_def split: option.splits prod.splits)

lemma keeps_insert: "keeps_registry s (s\<lparr>re_tokens := snd (registry_insert coin token (re_tokens s))\<rparr>)"
  by (simp add: keeps_registry_def registry_wf_insert)

lemma keeps_ensure_token: "preserves keeps_registry (ensure_token p coin)"
proof (rule reg.preservesI)
  fix s :: "'a relayer"
  show "keeps_registry s (snd (ensure_token p coin s))"
  proof (cases "registry_token_for coin (re_tokens s)")
    case (Some token)
    then show ?thesis by (simp add: ensure_token_def reg.refl)
  next
    case None
    show ?thesis
      unfolding ensure_token_def None option.case
      by (rule reg.preserves_sbind' [THEN reg.preservesD, OF reg.preserves_slift _ surjective_pairing],
          unfold Let_def case_prod_beta,
          intro reg.preserves_sbind' reg.preserves_slift reg.preserves_st_map_err keeps_send keeps_await,
          rule reg.preservesI)
         (auto simp: reg.refl keeps_insert split: sum.splits prod.splits bool.splits)
  qed
qed

lemma keeps_mint: "preserves keeps_registry (mint_on_l2 p token n rc a)"
  unfolding mint_on_l2_def
  by (intro reg.preserves_sbind' reg.preserves_slift reg.preserves_st_map_err keeps_send keeps_await)

lemma keeps_process_log: "preserves keeps_registry (process_withdrawal_log p lg)"
proof (rule reg.preservesI)
  fix s

  show "keeps_registry s (snd (process_withdrawal_log p lg s))"
    unfolding process_withdrawal_log_def
    by (rule reg.preserves_sbind' [THEN reg.preservesD, OF reg.preserves_slift _ surjective_pairing],
        intro reg.preserves_sbind' reg.preserves_slift reg.preserves_st_map_err keeps_on_net)
qed

lemma keeps_process_logs: "preserves keeps_registry (process_logs p lgs)"
proof (induction lgs)
  case Nil
  then show ?case by (simp add: preserves_def reg.refl)
next
  case (Cons lg lgs)
  show ?case
  proof (rule reg.preservesI)
    fix s
    show "keeps_registry s (snd (process_logs p (lg # lgs) s))"
      unfolding process_logs.simps
      by (rule reg.preserves_sbind' [THEN reg.preservesD, OF keeps_process_log _ surjective_pairing]) (rule Cons)
  qed
qed

lemma keeps_absorbed:
  assumes "on_net (absorb_creations q fa (re_tokens s) a b) s = (Ok (n, tokens), t)"
  shows "keeps_registry s (t\<lparr>re_tokens := tokens\<rparr>)"
  using assms registry_wf_absorb [of q fa "re_tokens s" a b]
  by (fastforce simp: on_net_def keeps_registry_def split: prod.splits)

lemma keeps_cursors [simp]: "keeps_registry s (t\<lparr>re_cursors := c\<rparr>) \<longleftrightarrow> keeps_registry s t"
  by (simp add: keeps_registry_def)

lemma keeps_withdrawals: "keeps_registry s (snd (relay_withdrawals p s))"
proof -
  let ?logs = "\<lambda>latest tokens. if registry_addresses tokens = [] then sreturn ()
     else sbind (on_net (eth_get_logs (l2_of p) (registry_addresses tokens) (WITHDRAWAL_TOPIC (lp_lib p))
            (cu_next_l2_block (re_cursors s)) latest)) (process_logs p)"
  obtain r s' where rw: "relay_withdrawals p s = (r, s')" by fastforce
  have logs: "preserves keeps_registry (?logs latest tokens)" for latest tokens
    by (intro reg.preserves_if reg.preserves_sbind' keeps_process_logs keeps_on_net reg.preserves_sreturn)
  from rw [unfolded relay_withdrawals_def Let_def] show ?thesis
  proof (cases rule: sbindE)
    case (err e)
    from reg.preservesD [OF keeps_on_net err(1)] rw show ?thesis by simp
  next
    case (ok latest s1)
    note s1 = reg.preservesD [OF keeps_on_net ok(1)]
    show ?thesis
    proof (cases "latest < cu_next_l2_block (re_cursors s)")
      case True
      with ok(2) rw s1 show ?thesis by simp
    next
      case False
      with ok(2) have "sbind (on_net (absorb_creations (l2_of p) (lp_factory p) (re_tokens s1)
            (cu_next_l2_block (re_cursors s)) latest)) (\<lambda>(_, tokens) t. sbind (?logs latest tokens)
            (\<lambda>_ s3. (Ok (), save_progress p (s3\<lparr>re_cursors := (re_cursors s3)\<lparr>cu_next_l2_block := latest + 1\<rparr>\<rparr>)))
            (t\<lparr>re_tokens := tokens\<rparr>)) s1 = (r, s')" by simp
      then show ?thesis
      proof (cases rule: sbindE)
        case (err e)
        from reg.preservesD [OF keeps_on_net err(1)] s1 rw show ?thesis by (auto intro: reg.trans)
      next
        case (ok x t)
        obtain n tokens where x: "x = (n, tokens)" by (cases x)
        from ok(2) [unfolded x prod.case] have "keeps_registry (t\<lparr>re_tokens := tokens\<rparr>) s'"
          by (rule sbindE)
             (auto dest!: reg.preservesD [OF logs] intro: reg.trans keeps_save_progress [THEN reg.trans [rotated]])
        with keeps_absorbed [OF ok(1) [unfolded x]] s1 rw show ?thesis by (auto intro: reg.trans)
      qed
    qed
  qed
qed

text \<open>The ways one turn of the deposit loop ends.\<close>

lemma relay_depositE:
  assumes "relay_deposit p latest s = (go_on, s')"
  obtains (caught_up) "cu_next_deposit_nonce (re_cursors s) \<ge> latest" "\<not> go_on" "s' = s"
    | (unread) r where "on_net (lp_deposit_at p (re_deposits_table s) (cu_next_deposit_nonce (re_cursors s))) s = (r, s')"
        "\<not> go_on"
    | (no_token) d s1 e where
        "on_net (lp_deposit_at p (re_deposits_table s) (cu_next_deposit_nonce (re_cursors s))) s = (Ok (Some d), s1)"
        "ensure_token p (dr_coin_type d) s1 = (Err e, s')" "\<not> go_on"
    | (minting) d s1 token s2 any lst s3 r s4 where
        "cu_next_deposit_nonce (re_cursors s) < latest"
        "on_net (lp_deposit_at p (re_deposits_table s) (cu_next_deposit_nonce (re_cursors s))) s = (Ok (Some d), s1)"
        "ensure_token p (dr_coin_type d) s1 = (Ok token, s2)"
        "unwrap_or (False, 0) (on_net (eth_mint_cursor (l2_of p) token)) s2 = ((any, lst), s3)"
        "(if any \<and> lst \<ge> cu_next_deposit_nonce (re_cursors s) then (Ok (), s3)
          else mint_on_l2 p token (cu_next_deposit_nonce (re_cursors s)) (dr_recipient_l2 d) (dr_amount d) s3) = (r, s4)"
        "go_on \<longleftrightarrow> r = Ok ()"
        "s' = (if go_on then save_progress p
                 (s4\<lparr>re_cursors := (re_cursors s4)\<lparr>cu_next_deposit_nonce := cu_next_deposit_nonce (re_cursors s) + 1\<rparr>\<rparr>)
               else s4)"
proof (cases "cu_next_deposit_nonce (re_cursors s) \<ge> latest")
  case True
  then have "relay_deposit p latest s = (False, s)" by (simp add: relay_deposit_def Let_def)
  with assms have "\<not> go_on" "s' = s" by auto
  with True show ?thesis by (rule caught_up)
next
  case False
  let ?n = "cu_next_deposit_nonce (re_cursors s)"
  obtain r1 s1 where d: "on_net (lp_deposit_at p (re_deposits_table s) ?n) s = (r1, s1)" by fastforce
  consider (stop) "(\<exists>e. r1 = Err e) \<or> r1 = Ok None" | (some) dep where "r1 = Ok (Some dep)"
    by (metis option.exhaust sumE)
  then show ?thesis
  proof cases
    case stop
    with False d have "relay_deposit p latest s = (False, s1)"
      by (elim disjE exE) (simp_all add: relay_deposit_def Let_def)
    with assms have "\<not> go_on" "s' = s1" by auto
    with d show ?thesis by (intro unread) auto
  next
    case some
    note d = d [unfolded some]
    obtain r2 s2 where t: "ensure_token p (dr_coin_type dep) s1 = (r2, s2)" by fastforce
    show ?thesis
    proof (cases r2)
      case (Inl e)
      with False d t have "relay_deposit p latest s = (False, s2)" by (simp add: relay_deposit_def Let_def)
      with assms have "\<not> go_on" "s' = s2" by auto
      with d t Inl show ?thesis by (intro no_token) auto
    next
      case (Inr token)
      obtain any lst s3 where c: "unwrap_or (False, 0) (on_net (eth_mint_cursor (l2_of p) token)) s2 = ((any, lst), s3)"
        by (metis prod.exhaust)
      obtain r4 s4 where m: "(if any \<and> lst \<ge> ?n then (Ok (), s3)
           else mint_on_l2 p token ?n (dr_recipient_l2 dep) (dr_amount dep) s3) = (r4, s4)" by fastforce
      have "?n < latest" using False by simp
      moreover have "relay_deposit p latest s = (case r4 of Inl _ \<Rightarrow> (False, s4)
          | Inr _ \<Rightarrow> (True, save_progress p (s4\<lparr>re_cursors := (re_cursors s4)\<lparr>cu_next_deposit_nonce := ?n + 1\<rparr>\<rparr>)))"
        by (simp only: relay_deposit_def Let_def False if_False d t Inr c m prod.case sum.case option.case)
      then have "(go_on \<longleftrightarrow> r4 = Ok ()) \<and> s' = (if go_on then save_progress p
                 (s4\<lparr>re_cursors := (re_cursors s4)\<lparr>cu_next_deposit_nonce := ?n + 1\<rparr>\<rparr>) else s4)"
        using assms by (cases r4) auto
      ultimately show ?thesis using minting d t Inr c m by blast
    qed
  qed
qed

lemma keeps_unwrap_or: "preserves keeps_registry m \<Longrightarrow> preserves keeps_registry (unwrap_or d m)"
  unfolding preserves_def unwrap_or_def by (auto split: prod.splits sum.splits) (metis snd_conv)+

lemma keeps_relay_deposit: "preserves keeps_registry (relay_deposit p latest)"
proof (rule reg.preservesI)
  fix s
  obtain go_on s' where step: "relay_deposit p latest s = (go_on, s')" by fastforce
  from step have "keeps_registry s s'"
  proof (cases rule: relay_depositE)
    case (minting d s1 token s2 any lst s3 r s4)
    have "keeps_registry s3 s4" using minting(5) reg.preservesD [OF keeps_mint] by (auto simp: reg.refl split: if_splits)
    moreover have "keeps_registry s4 s'"
      using minting(7) keeps_save_progress [of "s4\<lparr>re_cursors := c\<rparr>" p for c]
      by (auto simp: reg.refl keeps_registry_def split: if_splits)
    ultimately show ?thesis
      using reg.preservesD [OF keeps_on_net minting(2)] reg.preservesD [OF keeps_ensure_token minting(3)]
        reg.preservesD [OF keeps_unwrap_or [OF keeps_on_net] minting(4)]
      by (meson reg.trans)
  qed (auto simp: reg.refl dest!: reg.preservesD [OF keeps_on_net] reg.preservesD [OF keeps_ensure_token] intro: reg.trans)
  with step show "keeps_registry s (snd (relay_deposit p latest s))" by simp
qed

lemma keeps_deposit_loop: "deposit_loop p latest k s = Some s' \<Longrightarrow> keeps_registry s s'"
proof (induction k arbitrary: s)
  case (Suc k)
  obtain go_on t where step: "relay_deposit p latest s = (go_on, t)" by fastforce
  note k = reg.preservesD [OF keeps_relay_deposit step]
  from Suc.prems step have "if go_on then deposit_loop p latest k t = Some s' else t = s'"
    by (auto split: if_splits)
  with k Suc.IH show ?case by (auto intro: reg.trans split: if_splits)
qed simp

lemma keeps_relay_deposits: "relay_deposits p s = Some s' \<Longrightarrow> keeps_registry s s'"
proof -
  assume rd: "relay_deposits p s = Some s'"
  obtain r s1 where v: "on_net (lp_vault_status p) s = (r, s1)" by fastforce
  note k = reg.preservesD [OF keeps_on_net v]
  from rd v have "s' = s1 \<or> (\<exists>latest k. deposit_loop p latest k s1 = Some s')"
    unfolding relay_deposits_def by (cases r) (auto simp del: deposit_loop.simps)
  with k show ?thesis by (auto intro: reg.trans keeps_deposit_loop)
qed

lemma keeps_relay_round: "relay_round p s = Some s' \<Longrightarrow> keeps_registry s s'"
  by (auto simp: relay_round_def intro: reg.trans dest!: keeps_relay_deposits intro: keeps_withdrawals)

lemma registry_wf_restored:
  assumes "restore_token_registry p fuel s = Some (Ok (), s')" "registry_wf (re_tokens s)"
  shows "registry_wf (re_tokens s')"
proof (cases "cu_tokens (re_cursors s) \<noteq> [] \<and> cu_next_l2_block (re_cursors s) > 0")
  case True
  with assms show ?thesis
    by (auto simp: restore_token_registry_def registry_from_snapshot_def split: sum.splits
        intro: registry_wf_snapshot registry_wf_empty)
next
  case False
  obtain b s1 where n: "on_net (eth_block_number (l2_of p)) s = (b, s1)" by fastforce
  from assms(1) False n obtain hd_block where b: "b = Ok hd_block"
    by (cases b) (auto simp: restore_token_registry_def)
  obtain res w where sc: "scan_loop (l2_of p) (lp_factory p) hd_block fuel CREATION_SCAN_CHUNK 0 registry_empty
      (re_world s1) = Some (res, w)"
    using assms(1) False n b
    by (cases "scan_loop (l2_of p) (lp_factory p) hd_block fuel CREATION_SCAN_CHUNK 0 registry_empty (re_world s1)")
       (auto simp: restore_token_registry_def)
  from assms(1) False n b sc have "res = Ok (re_tokens s')"
    by (cases res) (auto simp: restore_token_registry_def save_progress_def Let_def)
  from registry_wf_scan [OF sc [unfolded this] registry_wf_empty] show ?thesis .
qed

lemma registry_wf_new:
  assumes "relayer_new p fuel d w = Some (Ok s, w')"
  shows "registry_wf (re_tokens s)"
proof -
  from assms have "\<exists>chain_id table w3.
      restore_token_registry p fuel (loaded_relayer p chain_id table d w3) = Some (Ok (), s)"
    by (auto simp: relayer_new_steps relayer_open_def and_then_eq_Inr split: prod.splits sum.splits)
  then obtain chain_id table w3 where
    "restore_token_registry p fuel (loaded_relayer p chain_id table d w3) = Some (Ok (), s)"
    by blast
  then show ?thesis
    by (rule registry_wf_restored) (simp add: loaded_relayer_def registry_wf_empty split: prod.splits)
qed

text \<open>A relayer from its start on.\<close>

inductive relayer_run :: "'w relay_port \<Rightarrow> 'w relayer \<Rightarrow> bool" for p where
  start: "relayer_new p fuel d w = Some (Ok s, w') \<Longrightarrow> relayer_run p s"
| round: "relayer_run p s \<Longrightarrow> relay_round p s = Some s' \<Longrightarrow> relayer_run p s'"
| elsewhere: "relayer_run p s \<Longrightarrow> relayer_run p (s\<lparr>re_world := w\<rparr>)"

lemma relayer_run_wf: "relayer_run p s \<Longrightarrow> registry_wf (re_tokens s)"
proof (induction rule: relayer_run.induct)
  case (start fuel d w s w')
  then show ?case by (rule registry_wf_new)
next
  case (round s s')
  then show ?case using keeps_relay_round keeps_registry_def by blast
qed simp

text \<open>
  C37: Whatever the L2 node answers and however often the relayer is restarted, the coin that a
  withdrawal of a token is paid in has that token as its canonical token: a twin never gets paid
  from the reserve of the coin it imitates, and two tokens never share a coin.
\<close>

theorem withdrawals_pay_canonical_coin:
  assumes "relayer_run p s" "registry_coin_for token (re_tokens s) = Some coin"
  shows "registry_token_for coin (re_tokens s) = Some token"
  using relayer_run_wf [OF assms(1)] assms(2) by (simp add: registry_wf_def)

section \<open>The snapshot\<close>

definition hex_ok :: "evm_lib \<Rightarrow> bool" where
  "hex_ok l \<longleftrightarrow> (\<forall>bs. el_unhex l (el_hex l bs) = Ok bs) \<and>
     (\<forall>a. el_parse_address l (el_show_address l a) = Ok a)"

text \<open>Both directions of the registry are one bijection.\<close>

definition registry_bij :: "token_registry \<Rightarrow> bool" where
  "registry_bij r \<longleftrightarrow> distinct (map fst (tr_by_coin_type r)) \<and>
     (\<forall>token coin. registry_coin_for token r = Some coin \<longleftrightarrow> registry_token_for coin r = Some token)"

definition snapshot_of :: "evm_lib \<Rightarrow> (byte list \<times> evm_address) list \<Rightarrow> (string \<times> string) list" where
  "snapshot_of l ps = fold (\<lambda>(coin, token). btree_insert (el_hex l coin) (el_show_address l token)) ps []"

lemma btree_ok_fold: "btree_ok t \<Longrightarrow> btree_ok (fold (\<lambda>(c, a). btree_insert (f c) (g a)) ps t)"
  by (induction ps arbitrary: t) auto

lemma btree_insert_map:
  assumes "inj f"
  shows "\<exists>q'. btree_insert (f c) (g a) (map (\<lambda>(c, a). (f c, g a)) q) = map (\<lambda>(c, a). (f c, g a)) q' \<and>
    ((c \<notin> fst ` set q) \<longrightarrow> set q' = insert (c, a) (set q))"
proof (induction q)
  case Nil
  show ?case by (rule exI [of _ "[(c, a)]"]) simp
next
  case (Cons e q)
  obtain d b where e: "e = (d, b)" by (cases e)
  from Cons obtain q' where q': "btree_insert (f c) (g a) (map (\<lambda>(c, a). (f c, g a)) q) = map (\<lambda>(c, a). (f c, g a)) q'"
    "(c \<notin> fst ` set q) \<longrightarrow> set q' = insert (c, a) (set q)" by blast
  consider "f c < f d" | "f c = f d" | "f d < f c" using less_linear by blast
  then show ?case
  proof cases
    case 1
    with e show ?thesis by (intro exI [of _ "(c, a) # e # q"]) simp
  next
    case 2
    then have "c = d" using assms by (simp add: inj_eq)
    with e show ?thesis by (intro exI [of _ "(c, a) # q"]) auto
  next
    case 3
    then have "f c \<noteq> f d" "\<not> f c < f d" by auto
    with e q' show ?thesis by (intro exI [of _ "e # q'"]) auto
  qed
qed

lemma snapshot_as_map:
  assumes "inj f"
  shows "distinct (map fst ps) \<Longrightarrow> (\<And>c. c \<in> fst ` set ps \<Longrightarrow> c \<notin> fst ` set q) \<Longrightarrow>
    \<exists>q'. fold (\<lambda>(c, a). btree_insert (f c) (g a)) ps (map (\<lambda>(c, a). (f c, g a)) q) = map (\<lambda>(c, a). (f c, g a)) q' \<and>
      set q' = set ps \<union> set q"
proof (induction ps arbitrary: q)
  case (Cons e ps)
  obtain d b where e: "e = (d, b)" by (cases e)
  have "d \<notin> fst ` set q" using Cons.prems(2) [of d] e by simp
  then obtain q1 where q1: "btree_insert (f d) (g b) (map (\<lambda>(c, a). (f c, g a)) q) = map (\<lambda>(c, a). (f c, g a)) q1"
    "set q1 = insert (d, b) (set q)" using btree_insert_map [OF assms] by metis
  have "c \<notin> fst ` set q1" if "c \<in> fst ` set ps" for c
    using Cons.prems e q1(2) that by auto
  with Cons.IH [of q1] Cons.prems(1) e obtain q' where
    "fold (\<lambda>(c, a). btree_insert (f c) (g a)) ps (map (\<lambda>(c, a). (f c, g a)) q1) = map (\<lambda>(c, a). (f c, g a)) q'"
    "set q' = set ps \<union> set q1" by auto
  with q1 e show ?case by (intro exI [of _ q']) auto
qed auto

lemma snapshot_entries_map:
  assumes "hex_ok l"
  shows "snapshot_entries l (map (\<lambda>(c, a). (el_hex l c, el_show_address l a)) ps) r =
    Ok (fold (\<lambda>(c, a) r. snd (registry_insert c a r)) ps r)"
  using assms by (induction ps arbitrary: r) (auto simp: hex_ok_def)

lemma insert_fold_lookup:
  "distinct (map fst ps) \<Longrightarrow> (\<And>c. c \<in> fst ` set ps \<Longrightarrow> registry_token_for c r = None) \<Longrightarrow>
   registry_token_for c (fold (\<lambda>(c, a) r. snd (registry_insert c a r)) ps r) =
     (case map_of ps c of Some a \<Rightarrow> Some a | None \<Rightarrow> registry_token_for c r)"
proof (induction ps arbitrary: r)
  case (Cons e ps)
  obtain d a where e: "e = (d, a)" by (cases e)
  let ?r = "snd (registry_insert d a r)"
  have "registry_token_for c' ?r = None" if "c' \<in> fst ` set ps" for c'
    using that Cons.prems e by (auto simp: registry_insert_lookup)
  with Cons.IH [of ?r] Cons.prems(1) e
  have "registry_token_for c (fold (\<lambda>(c, a) r. snd (registry_insert c a r)) ps ?r) =
     (case map_of ps c of Some a \<Rightarrow> Some a | None \<Rightarrow> registry_token_for c ?r)" by simp
  moreover have "map_of ps d = None" using Cons.prems(1) e by (auto simp: map_of_eq_None_iff)
  moreover have "registry_token_for d r = None" using Cons.prems(2) e by simp
  ultimately show ?case using e by (auto simp: registry_insert_lookup split: option.splits)
qed simp

lemma insert_fold_coin:
  "distinct (map fst ps) \<Longrightarrow> distinct (map snd ps) \<Longrightarrow> (\<And>c. c \<in> fst ` set ps \<Longrightarrow> registry_token_for c r = None) \<Longrightarrow>
   registry_coin_for t (fold (\<lambda>(c, a) r. snd (registry_insert c a r)) ps r) =
     (case map_of (map prod.swap ps) t of Some c \<Rightarrow> Some c | None \<Rightarrow> registry_coin_for t r)"
proof (induction ps arbitrary: r)
  case (Cons e ps)
  obtain d a where e: "e = (d, a)" by (cases e)
  let ?r = "snd (registry_insert d a r)"
  have "registry_token_for c' ?r = None" if "c' \<in> fst ` set ps" for c'
    using that Cons.prems e by (auto simp: registry_insert_lookup)
  with Cons.IH [of ?r] Cons.prems(1,2) e
  have "registry_coin_for t (fold (\<lambda>(c, a) r. snd (registry_insert c a r)) ps ?r) =
     (case map_of (map prod.swap ps) t of Some c \<Rightarrow> Some c | None \<Rightarrow> registry_coin_for t ?r)" by simp
  moreover have "map_of (map prod.swap ps) a = None"
    using Cons.prems(2) e by (auto simp: map_of_eq_None_iff image_iff comp_def)
  moreover have "registry_token_for d r = None" using Cons.prems(3) e by simp
  ultimately show ?case using e by (auto simp: registry_insert_coin split: option.splits)
qed simp

lemma hex_ok_inj: "hex_ok l \<Longrightarrow> inj (el_hex l)"
  by (rule injI) (metis Inr_inject hex_ok_def)

text \<open>
  The token registry survives a restart: its snapshot in the cursor file, a sorted map of hex
  texts, is read back to a registry with the same coin of every token and the same token of every
  coin.
\<close>

theorem registry_snapshot_roundtrip:
  assumes "hex_ok l" "registry_bij r"
  shows "\<exists>r'. registry_from_snapshot l (registry_snapshot l r) = Ok r' \<and>
    (\<forall>coin. registry_token_for coin r' = registry_token_for coin r) \<and>
    (\<forall>token. registry_coin_for token r' = registry_coin_for token r)"
proof -
  let ?ps = "tr_by_coin_type r" and ?h = "\<lambda>(c, a). (el_hex l c, el_show_address l a)"
  have ps: "distinct (map fst ?ps)" using assms(2) by (simp add: registry_bij_def)
  obtain q where q: "registry_snapshot l r = map ?h q" "set q = set ?ps"
    using snapshot_as_map [OF hex_ok_inj [OF assms(1)], of ?ps "[]" "el_show_address l"] ps
    by (auto simp: registry_snapshot_def)
  have "distinct (map fst (map ?h q))"
    unfolding q(1) [symmetric] registry_snapshot_def by (rule btree_ok_distinct [OF btree_ok_fold]) (simp add: btree_ok_def)
  then have dq: "distinct (map fst q)" by (auto simp: comp_def case_prod_beta distinct_map inj_on_def)
  then have m: "map_of q = map_of ?ps" using map_of_inject_set ps q(2) by blast
  have bij: "registry_coin_for t r = Some c \<longleftrightarrow> map_of q c = Some t" for t c
    using assms(2) m by (simp add: registry_bij_def registry_token_for_def)
  have "inj_on snd (set q)"
  proof (rule inj_onI)
    fix x y assume xy: "x \<in> set q" "y \<in> set q" "snd x = snd y"
    then have "(fst x, snd x) \<in> set q" "(fst y, snd x) \<in> set q"
      using prod.collapse [of x] prod.collapse [of y] by metis+
    then have "registry_coin_for (snd x) r = Some (fst x)" "registry_coin_for (snd x) r = Some (fst y)"
      using dq bij by simp_all
    with xy(3) show "x = y" by (simp add: prod_eq_iff)
  qed
  then have ds: "distinct (map snd q)" using dq by (auto simp: distinct_map)
  let ?r = "fold (\<lambda>(c, a) r. snd (registry_insert c a r)) q registry_empty"
  have "registry_token_for c ?r = registry_token_for c r" for c
    using insert_fold_lookup [OF dq, of registry_empty c] m
    by (simp add: registry_token_for_def registry_empty_def split: option.splits)
  moreover have "registry_coin_for t ?r = registry_coin_for t r" for t
  proof -
    have "distinct (map fst (map prod.swap q))" using ds by (simp add: comp_def)
    then have "map_of (map prod.swap q) t = Some c \<longleftrightarrow> registry_coin_for t r = Some c" for c
      unfolding bij map_of_eq_Some_iff [OF \<open>distinct (map fst (map prod.swap q))\<close>] map_of_eq_Some_iff [OF dq]
      by force
    then show ?thesis
      using insert_fold_coin [OF dq ds, of registry_empty t]
      by (cases "registry_coin_for t r")
         (auto simp: registry_token_for_def registry_coin_for_def registry_empty_def split: option.splits)
  qed
  moreover have "registry_from_snapshot l (registry_snapshot l r) = Ok ?r"
    unfolding registry_from_snapshot_def q(1) by (rule snapshot_entries_map [OF assms(1)])
  ultimately show ?thesis by blast
qed

section \<open>Waiting for a receipt\<close>

lemma option_of_not_null: "x \<noteq> JNull \<Longrightarrow> option_of dec x = and_then (dec x) (\<lambda>y. Ok (Some y))"
  by (simp add: option_of_def)

lemma rpc_call_optional:
  "rpc_call p (option_of dec) req w =
     (case rpc_call p dec req w of (Inl e, w1) \<Rightarrow> (Inl e, w1) | (Inr y, w1) \<Rightarrow> (Inr (Some y), w1))"
proof -
  have field: "optional_field (option_of dec) k v = and_then (optional_field dec k v) (\<lambda>r. Ok (map_option Some r))" for k v
    by (auto simp: optional_field_def option_of_not_null and_then_def split: option.splits sum.splits)
  show ?thesis
    by (cases "lp_post p req w")
       (auto simp: rpc_call_def sbind_def st_map_err_def slift_def field and_then_def map_err_def ok_or_def
         split: sum.splits option.splits)
qed

lemma wait_for_receipt_once:
  "wait_for_receipt p (Suc k) tx_hash poll w =
     Some (rpc_call p receipt_of (l2_request ''eth_getTransactionReceipt'' [JStr tx_hash]) w)"
  by (cases "rpc_call p receipt_of (l2_request ''eth_getTransactionReceipt'' [JStr tx_hash]) w")
     (auto simp: wait_for_receipt_def rpc_call_optional split: sum.splits)

text \<open>
  The wait for a receipt, documented to poll until the transaction is mined and for at most a
  minute, is one request: whatever the node answers, the first answer ends it, and \<open>null\<close>, the
  answer for a transaction that is not mined yet, is an error.
\<close>

theorem receipt_wait_is_one_poll:
  "wait_for_receipt p (Suc k) tx_hash poll w =
     Some (rpc_call p receipt_of (l2_request ''eth_getTransactionReceipt'' [JStr tx_hash]) w)"
  by (rule wait_for_receipt_once)

lemma pending_receipt_is_error:
  assumes "lp_post p (l2_request ''eth_getTransactionReceipt'' [JStr tx_hash]) w = (Ok (JObj kvs), w1)"
    "map_of kvs ''result'' = Some JNull" "map_of kvs ''error'' = None"
  shows "wait_for_receipt p (Suc k) tx_hash poll w = Some (Err ''L2 rpc returned no result'', w1)"
  unfolding wait_for_receipt_once using assms
  by (simp add: rpc_call_def sbind_def st_map_err_def slift_def is_object_def optional_field_def jget_def)

section \<open>The scan of the factory's history\<close>

lemma unat_div2: "unat (c div 2 :: u64) = unat c div 2"
  by (simp add: unat_div)

lemma scan_to_block:
  assumes "from_block \<le> hd_block" "hd_block \<noteq> u64_max"
  shows "from_block \<le> min (saturating_add from_block (chunk - 1)) hd_block"
    and "unat (min (saturating_add from_block (chunk - 1)) hd_block + 1) =
         Suc (unat (min (saturating_add from_block (chunk - 1)) hd_block))"
proof -
  let ?to = "min (saturating_add from_block (chunk - 1)) hd_block"
  show "from_block \<le> ?to" using assms(1) saturating_add_ge by simp
  have "unat ?to \<le> unat hd_block" by (simp add: word_le_nat_alt [symmetric])
  moreover have "unat hd_block \<noteq> 2 ^ 64 - 1" using assms(2) unat_u64_max by (metis word_unat_eq_iff)
  ultimately have "unat ?to + 1 < 2 ^ 64" using unat_u64_less [of hd_block] by linarith
  then show "unat (?to + 1) = Suc (unat ?to)" by (simp add: unat_word_ariths)
qed

text \<open>A round either moves on by a block or halves the chunk.\<close>

lemma scan_loop_returns:
  assumes "hd_block \<noteq> u64_max"
  shows "unat hd_block + 1 - unat from_block + unat chunk < k \<Longrightarrow>
    scan_loop p factory hd_block k chunk from_block r w \<noteq> None"
proof (induction k arbitrary: chunk from_block r w)
  case (Suc k)
  let ?to = "min (saturating_add from_block (chunk - 1)) hd_block"
  show ?case
  proof (cases "from_block > hd_block")
    case False
    then have le: "from_block \<le> hd_block" by simp
    note to = scan_to_block [OF le assms, of chunk]
    have mono: "unat from_block < unat (?to + 1)" using to by (simp add: word_le_nat_alt)
    have hdl: "unat from_block \<le> unat hd_block" using le by (simp add: word_le_nat_alt)
    obtain res w1 where a: "absorb_creations p factory r from_block ?to w = (res, w1)" by fastforce
    show ?thesis
    proof (cases res)
      case (Inl e)
      show ?thesis
      proof (cases "chunk > MIN_CREATION_SCAN_CHUNK")
        case True
        then have "unat (chunk div 2) < unat chunk"
          by (simp add: unat_div2 word_less_nat_alt MIN_CREATION_SCAN_CHUNK_def)
        with Suc.prems have "scan_loop p factory hd_block k (chunk div 2) from_block r w1 \<noteq> None"
          by (intro Suc.IH) linarith
        with le True a Inl show ?thesis by (simp add: Let_def)
      next
        case no: False
        with le a Inl show ?thesis by (simp add: Let_def)
      qed
    next
      case (Inr x)
      obtain found r1 where x: "x = (found, r1)" by (cases x)
      let ?c = "if found \<ge> CREATION_SCAN_HALVE_AFTER \<and> chunk > MIN_CREATION_SCAN_CHUNK then chunk div 2 else chunk"
      have "unat ?c \<le> unat chunk" by (simp add: unat_div2)
      with Suc.prems mono hdl have "scan_loop p factory hd_block k ?c (?to + 1) r1 w1 \<noteq> None"
        by (intro Suc.IH) linarith
      with le a Inr x show ?thesis by (simp add: Let_def)
    qed
  qed simp
qed simp

text \<open>
  Indexing the factory's history ends, whatever the node answers and however often it fails:
  2502 rounds more than the number of the head block are enough.
\<close>

theorem creation_scan_returns:
  assumes "hd_block \<noteq> u64_max" "unat hd_block + 2502 \<le> k"
  shows "\<exists>res w'. scan_loop p factory hd_block k CREATION_SCAN_CHUNK 0 registry_empty w = Some (res, w')"
proof -
  have "unat CREATION_SCAN_CHUNK = 2500" by (simp add: CREATION_SCAN_CHUNK_def)
  with assms have "scan_loop p factory hd_block k CREATION_SCAN_CHUNK 0 registry_empty w \<noteq> None"
    by (intro scan_loop_returns) simp_all
  then show ?thesis by auto
qed

section \<open>The deposit pass\<close>

lemma relay_deposit_advances:
  assumes "relay_deposit p latest s = (True, s')"
  shows "cu_next_deposit_nonce (re_cursors s) < latest" "cu_next_deposit_nonce (re_cursors s') = cu_next_deposit_nonce (re_cursors s) + 1"
  using assms by (auto elim!: relay_depositE simp: save_progress_def Let_def)

lemma unat_successor_less: "a < (b :: u64) \<Longrightarrow> unat (a + 1) = Suc (unat a)"
  using unat_u64_less [of b] by (simp add: word_less_nat_alt unat_word_ariths)

lemma deposit_loop_returns:
  "unat latest - unat (cu_next_deposit_nonce (re_cursors s)) < k \<Longrightarrow> deposit_loop p latest k s \<noteq> None"
proof (induction k arbitrary: s)
  case (Suc k)
  obtain go_on t where step: "relay_deposit p latest s = (go_on, t)" by fastforce
  show ?case
  proof (cases go_on)
    case True
    with step have "relay_deposit p latest s = (True, t)" by simp
    note adv = relay_deposit_advances [OF this]
    have "unat (cu_next_deposit_nonce (re_cursors s) + 1) = Suc (unat (cu_next_deposit_nonce (re_cursors s)))"
      using adv(1) by (rule unat_successor_less)
    moreover have "unat (cu_next_deposit_nonce (re_cursors s)) < unat latest" using adv(1) by (simp add: word_less_nat_alt)
    ultimately have "deposit_loop p latest k t \<noteq> None" using Suc.prems adv(2) by (intro Suc.IH) simp
    with step True show ?thesis by simp
  qed (use step in simp)
qed simp

text \<open>
  A relay round returns, whatever both chains answer: the deposit pass handles at most the
  deposits it saw when it started.
\<close>

lemma relay_round_returns: "\<exists>s'. relay_round p s = Some s'"
proof -
  obtain r s1 where v: "on_net (lp_vault_status p) s = (r, s1)" by fastforce
  have "relay_deposits p s \<noteq> None"
  proof (cases r)
    case (Inr status)
    then show ?thesis
      using v deposit_loop_returns [of "vs_deposit_nonce status" s1
          "Suc (unat (vs_deposit_nonce status) - unat (cu_next_deposit_nonce (re_cursors s1)))" p]
      by (simp add: relay_deposits_def del: deposit_loop.simps)
  qed (simp add: relay_deposits_def v)
  then show ?thesis by (auto simp: relay_round_def)
qed

end
