(* ===== verification/Node_Setup.thy ===== *)
theory Node_Setup
  imports Config Settlement
begin

text \<open>
  Settlement wiring of the sequencer (\<open>crates/node/src/settlement.rs\<close>) and the key commands
  (\<open>crates/node/src/keyring.rs\<close>): the start-up checks, attaching to a configured deployment or making
  one and saving its IDs, generating keys and deriving their addresses.
\<close>

section \<open>Environment\<close>

text \<open>\<open>ne_te n\<close> is the transaction environment of the \<open>n\<close>-th deploy attempt; directory listings have
  one result per entry, which is the entry's path.\<close>

record ('key, 'tx, 'sg) node_env =
  ne_io :: io
  ne_te :: "nat \<Rightarrow> ('key, 'tx, 'sg) tx_env"
  ne_parse :: "string \<Rightarrow> (string, address) result"
  ne_parse_key :: "string \<Rightarrow> (string, 'key) result"
  ne_rpc :: rpc_env
  ne_get_epoch :: "string \<Rightarrow> (string, unit) result"
  ne_toml :: "config json"
  ne_is_dir :: "path \<Rightarrow> disk \<Rightarrow> bool"
  ne_list :: "path \<Rightarrow> disk \<Rightarrow> (string, (string, path) result list) result"

type_synonym contract_ids = "string option \<times> string option \<times> string option \<times> string option"

definition ids_of :: "config \<Rightarrow> contract_ids" where
  "ids_of c = (sc_settlement_package_id (cf_sui c), sc_settler_cap_id (cf_sui c), sc_registry_id (cf_sui c),
     sc_inbox_id (cf_sui c))"

definition partial_ids_error :: string where
  "partial_ids_error = ''settlement IDs are partially configured; either set all four (settlement_package_id, settler_cap_id, registry_id, inbox_id) or none''"

text \<open>\<open>Path::join\<close> of a relative path, \<open>Path::extension\<close>, \<open>Path::is_file\<close>.\<close>

definition path_join :: "path \<Rightarrow> path \<Rightarrow> path" where
  "path_join p q = (if p = [] \<or> last p = CHR ''/'' then p @ q else p @ ''/'' @ q)"

definition extension :: "path \<Rightarrow> string option" where
  "extension p =
     (let n = file_name p in
      if CHR ''.'' \<notin> set n \<or> file_stem n = n then None
      else Some (rev (takeWhile (\<lambda>c. c \<noteq> CHR ''.'') (rev n))))"

definition is_file :: "path \<Rightarrow> disk \<Rightarrow> bool" where
  "is_file p d = fs_exists p d"

section \<open>Preflight\<close>

definition ping_rpc :: "('key, 'tx, 'sg) node_env \<Rightarrow> string \<Rightarrow> (settlement_error, unit) result" where
  "ping_rpc e rpc_url =
     and_then (map_err SRpc (rpc_new (ne_rpc e) rpc_url)) (\<lambda>_.
       map_err (\<lambda>m. SRpc (''get_epoch: '' @ m)) (ne_get_epoch e rpc_url))"

definition bytecode_dir :: "sui_config \<Rightarrow> path" where
  "bytecode_dir sui = path_join (sc_move_dir sui) ''build/podseq_settlement/bytecode_modules''"

definition package_built :: "('key, 'tx, 'sg) node_env \<Rightarrow> path \<Rightarrow> disk \<Rightarrow> bool" where
  "package_built e dir d \<longleftrightarrow> ne_is_dir e dir d \<and>
     (case ne_list e dir d of
        Inl _ \<Rightarrow> False
      | Inr entries \<Rightarrow> list_ex (\<lambda>r. case r of Inl _ \<Rightarrow> False | Inr p \<Rightarrow> extension p = Some ''mv'') entries)"

definition preflight ::
    "('key, 'tx, 'sg) node_env \<Rightarrow> sui_config \<Rightarrow> contract_ids \<Rightarrow> path \<Rightarrow> disk \<Rightarrow> (string, unit) result" where
  "preflight e sui ids signer_key_path d =
     (case ping_rpc e (sc_rpc_url sui) of
        Inl m \<Rightarrow> Err (''Sui RPC unreachable at '' @ sc_rpc_url sui @
                   ''; is the node running and the URL correct? (error: '' @ settlement_error_display m @ '')'')
      | Inr _ \<Rightarrow>
          (case ids of
             (Some _, Some _, Some registry_id, Some _) \<Rightarrow>
               (case latest_height (ne_rpc e) (ne_parse e) 0 (sc_rpc_url sui) registry_id of
                  Inl m \<Rightarrow> Err (''cannot read settlement Registry '' @ registry_id @ '' on '' @ sc_rpc_url sui @
                     ''; verify sui.registry_id and that the contract is deployed (error: '' @
                     settlement_error_display m @ '')'')
                | Inr _ \<Rightarrow> Ok ())
           | (None, None, None, None) \<Rightarrow>
               if \<not> package_built e (bytecode_dir sui) d then
                 Err (''settlement contract is not deployed and the Move package is not built: no .mv modules in '' @
                   bytecode_dir sui @ ''. Run `sui move build` in '' @ sc_move_dir sui @ '' first.'')
               else if \<not> is_file signer_key_path d then
                 Err (''signer key not found at '' @ signer_key_path @
                   ''; settlement deploy needs a suiprivkey (fund its address with SUI for gas)'')
               else Ok ()
           | _ \<Rightarrow> Err partial_ids_error))"

section \<open>The signer\<close>

text \<open>\<open>SettlementSigner::new\<close> and \<open>deploy\<close> read the key file from the disk.\<close>

definition key_text :: "('key, 'tx, 'sg) node_env \<Rightarrow> path \<Rightarrow> disk \<Rightarrow> (string, string) result \<times> disk" where
  "key_text e p = st_map_err store_error_display (fs_read_to_string (ne_io e) p)"

definition signer_new ::
    "('key, 'tx, 'sg) node_env \<Rightarrow> path \<Rightarrow> string \<Rightarrow> string \<Rightarrow> string \<Rightarrow> string \<Rightarrow> string \<Rightarrow> disk \<Rightarrow>
     (settlement_error, 'key settlement) result \<times> disk" where
  "signer_new e key_path package_id cap_id registry_id inbox_id rpc_url d =
     (case key_text e key_path d of
        (contents, d1) \<Rightarrow>
          (settlement_new (ne_te e 0) (\<lambda>_. contents) (ne_parse_key e) (ne_parse e) key_path package_id cap_id
             registry_id inbox_id rpc_url, d1))"

definition deploy_attempt ::
    "('key, 'tx, 'sg) node_env \<Rightarrow> path \<Rightarrow> string \<Rightarrow> byte list list \<Rightarrow> nat \<Rightarrow> disk \<Rightarrow>
     (settlement_error, deployed_contract) result \<times> disk" where
  "deploy_attempt e key_path rpc_url modules n d =
     (case key_text e key_path d of
        (contents, d1) \<Rightarrow>
          (deploy (ne_te e n) (ne_parse e) (load_signer (ne_te e n) (\<lambda>_. contents) (ne_parse_key e) key_path)
             rpc_url modules, d1))"

text \<open>The retry loop has no bound; \<open>None\<close> is a run that never returns.\<close>

partial_function (option) deploy_with_retry ::
    "('key, 'tx, 'sg) node_env \<Rightarrow> path \<Rightarrow> string \<Rightarrow> byte list list \<Rightarrow> nat \<Rightarrow> disk \<Rightarrow> (deployed_contract \<times> disk) option" where
  "deploy_with_retry e key_path rpc_url modules n d =
     (case deploy_attempt e key_path rpc_url modules n d of
        (Inr deployed, d1) \<Rightarrow> Some (deployed, d1)
      | (Inl _, d1) \<Rightarrow> deploy_with_retry e key_path rpc_url modules (Suc n) d1)"

primrec read_modules ::
    "('key, 'tx, 'sg) node_env \<Rightarrow> (string, path) result list \<Rightarrow> disk \<Rightarrow> (string, byte list list) result \<times> disk" where
  "read_modules e [] d = (Ok [], d)"
| "read_modules e (entry # entries) d =
     (case entry of
        Inl m \<Rightarrow> (Err m, d)
      | Inr p \<Rightarrow>
          if is_file p d \<and> extension p = Some ''mv'' then
            sbind (st_map_err store_error_display (fs_read (ne_io e) p)) (\<lambda>f.
            sbind (read_modules e entries) (\<lambda>ms.
              sreturn ((case f of Bytes bs \<Rightarrow> bs | Text t \<Rightarrow> map (\<lambda>c. of_char c) t) # ms))) d
          else read_modules e entries d)"

definition with_ids :: "deployed_contract \<Rightarrow> config \<Rightarrow> config" where
  "with_ids dep c = c\<lparr>cf_sui := (cf_sui c)\<lparr>sc_settlement_package_id := Some (dc_package_id dep),
     sc_settler_cap_id := Some (dc_settler_cap_id dep), sc_registry_id := Some (dc_registry_id dep),
     sc_inbox_id := Some (dc_inbox_id dep)\<rparr>\<rparr>"

definition attach_signer ::
    "('key, 'tx, 'sg) node_env \<Rightarrow> config \<Rightarrow> path \<Rightarrow> string \<Rightarrow> string \<Rightarrow> string \<Rightarrow> string \<Rightarrow> disk \<Rightarrow>
     (string, 'key settlement) result \<times> disk" where
  "attach_signer e c key_path package_id cap_id registry_id inbox_id =
     sbind (st_map_err (\<lambda>_. ''building settlement signer'')
              (signer_new e key_path package_id cap_id registry_id inbox_id (sc_rpc_url (cf_sui c)))) (\<lambda>s.
       sreturn (with_commit_state_roots (sc_commit_state_roots (cf_sui c)) s))"

text \<open>A first start. The configuration is changed in memory before it is saved.\<close>

definition deploy_and_save ::
    "('key, 'tx, 'sg) node_env \<Rightarrow> config \<Rightarrow> path \<Rightarrow> path \<Rightarrow> disk \<Rightarrow>
     ((string, 'key settlement) result \<times> config \<times> disk) option" where
  "deploy_and_save e c config_path key_path d =
     (case ne_list e (bytecode_dir (cf_sui c)) d of
        Inl _ \<Rightarrow> Some (Err (''reading '' @ bytecode_dir (cf_sui c) @ '' (run `sui move build` in '' @
                          sc_move_dir (cf_sui c) @ '' first)''), c, d)
      | Inr entries \<Rightarrow>
          (case read_modules e entries d of
             (Inl m, d1) \<Rightarrow> Some (Err m, c, d1)
           | (Inr modules, d1) \<Rightarrow>
               (case deploy_with_retry e key_path (sc_rpc_url (cf_sui c)) modules 0 d1 of
                  None \<Rightarrow> None
                | Some (dep, d2) \<Rightarrow>
                    (case config_save (ne_io e) (ne_toml e) config_path (with_ids dep c) d2 of
                       (Inl m, d3) \<Rightarrow> Some (Err m, with_ids dep c, d3)
                     | (Inr _, d3) \<Rightarrow>
                         (case st_map_err (\<lambda>_. ''building settlement signer after deploy'')
                                 (signer_new e key_path (dc_package_id dep) (dc_settler_cap_id dep) (dc_registry_id dep)
                                    (dc_inbox_id dep) (sc_rpc_url (cf_sui c))) d3 of
                            (r, d4) \<Rightarrow> Some (r, with_ids dep c, d4))))))"

definition setup_signer ::
    "('key, 'tx, 'sg) node_env \<Rightarrow> config \<Rightarrow> path \<Rightarrow> path \<Rightarrow> disk \<Rightarrow>
     ((string, 'key settlement) result \<times> config \<times> disk) option" where
  "setup_signer e c config_path key_path d =
     (case ids_of c of
        (Some pkg, Some cap, Some reg, Some inbox) \<Rightarrow>
          (case attach_signer e c key_path pkg cap reg inbox d of (r, d1) \<Rightarrow> Some (r, c, d1))
      | (None, None, None, None) \<Rightarrow> deploy_and_save e c config_path key_path d
      | _ \<Rightarrow> Some (Err partial_ids_error, c, d))"

section \<open>Keys\<close>

text \<open>The Sui and EVM key libraries. Derived addresses are texts.\<close>

record ('key, 'ekey) key_lib =
  kl_to_suiprivkey :: "'key \<Rightarrow> (string, string) result"
  kl_parse_signer_key :: "string \<Rightarrow> (string, 'key) result"
  kl_sui_address :: "'key \<Rightarrow> string"
  kl_evm_bytes :: "'ekey \<Rightarrow> byte list"
  kl_evm_of_bytes :: "byte list \<Rightarrow> (string, 'ekey) result"
  kl_evm_address :: "'ekey \<Rightarrow> string"
  kl_hex :: "byte list \<Rightarrow> string"
  kl_unhex :: "string \<Rightarrow> (string, byte list) result"

text \<open>\<open>key\<close> is the freshly generated key; the output lines are the result.\<close>

definition generate_key ::
    "io \<Rightarrow> ('key, 'ekey) key_lib \<Rightarrow> 'key \<Rightarrow> path \<Rightarrow> string \<Rightarrow> disk \<Rightarrow> (string, string list) result \<times> disk" where
  "generate_key io l key out label =
     sbind (slift (map_err (\<lambda>e. ''encoding key: '' @ e) (kl_to_suiprivkey l key))) (\<lambda>suiprivkey.
     sbind (st_map_err (\<lambda>_. ''writing '' @ label @ '' key to '' @ out) (fs_write io out (Text suiprivkey))) (\<lambda>_.
       sreturn [label @ '' key written to: '' @ out, ''Address: '' @ kl_sui_address l key]))"

definition generate_signer ::
    "io \<Rightarrow> ('key, 'ekey) key_lib \<Rightarrow> 'key \<Rightarrow> path \<Rightarrow> disk \<Rightarrow> (string, string list) result \<times> disk" where
  "generate_signer io l key out =
     sbind (generate_key io l key out ''Signer'') (\<lambda>lines.
       sreturn (lines @ [[], ''Fund this address with SUI (for gas) on the target network.'']))"

definition generate_evm_key ::
    "io \<Rightarrow> ('key, 'ekey) key_lib \<Rightarrow> 'ekey \<Rightarrow> path \<Rightarrow> disk \<Rightarrow> (string, string list) result \<times> disk" where
  "generate_evm_key io l key out =
     sbind (st_map_err (\<lambda>_. ''writing EVM key to '' @ out)
              (fs_write io out (Text (kl_hex l (kl_evm_bytes l key))))) (\<lambda>_.
       sreturn [''EVM relayer key written to: '' @ out, ''L2 address: '' @ kl_evm_address l key, [],
         ''Set this address as the `relayer` on Bridge.sol at predeploy,'', ''and fund it with L2 gas.''])"

definition sui_address :: "io \<Rightarrow> ('key, 'ekey) key_lib \<Rightarrow> path \<Rightarrow> disk \<Rightarrow> (string, string) result \<times> disk" where
  "sui_address io l p =
     sbind (st_map_err (\<lambda>_. ''reading signer key '' @ p) (fs_read_to_string io p)) (\<lambda>raw.
     sbind (slift (map_err (\<lambda>e. ''parsing signer key: '' @ e) (kl_parse_signer_key l (trim raw)))) (\<lambda>key.
       sreturn (kl_sui_address l key)))"

definition evm_key_address :: "io \<Rightarrow> ('key, 'ekey) key_lib \<Rightarrow> path \<Rightarrow> disk \<Rightarrow> (string, string) result \<times> disk" where
  "evm_key_address io l p =
     sbind (st_map_err (\<lambda>_. ''reading EVM key '' @ p) (fs_read_to_string io p)) (\<lambda>raw.
     sbind (slift (map_err (\<lambda>_. ''decoding EVM key hex'') (kl_unhex l (trim raw)))) (\<lambda>bytes.
     sbind (slift (map_err (\<lambda>_. ''invalid EVM key'') (kl_evm_of_bytes l bytes))) (\<lambda>signer.
       sreturn (kl_evm_address l signer))))"

definition print_derived :: "string \<Rightarrow> (string, string) result \<Rightarrow> string" where
  "print_derived label derived =
     (case derived of
        Inr v \<Rightarrow> ''    '' @ label @ '': '' @ v
      | Inl e \<Rightarrow> ''    '' @ label @ '': unavailable ('' @ e @ '')'')"

text \<open>\<open>keyring list\<close>; \<open>pubkey\<close> is \<open>podseq_p2p::read_pubkey_hex\<close>.\<close>

definition key_list ::
    "io \<Rightarrow> ('key, 'ekey) key_lib \<Rightarrow> (path \<Rightarrow> disk \<Rightarrow> (string, string) result \<times> disk) \<Rightarrow> config \<Rightarrow> disk \<Rightarrow> string list \<times> disk" where
  "key_list io l pubkey c d =
     (case (case gc_key_path (cf_signer c) of
              Some p \<Rightarrow> (case sui_address io l p d of (r, d1) \<Rightarrow>
                  ([''  signer (Sui, ed25519): '' @ p, print_derived ''address'' r], d1))
            | None \<Rightarrow> ([''  signer (Sui, ed25519): (not configured)''], d)) of (signer, d1) \<Rightarrow>
      case (case pn_key_path (cf_p2p c) of
              Some p \<Rightarrow> (case pubkey p d1 of (r, d2) \<Rightarrow>
                  ([''  p2p:                   '' @ p, print_derived ''pubkey'' r], d2))
            | None \<Rightarrow> ([''  p2p:                   (not configured)''], d1)) of (p2p, d2) \<Rightarrow>
      case (case bc_l2_relayer_key_path (cf_bridge c) of
              Some p \<Rightarrow> (case evm_key_address io l p d2 of (r, d3) \<Rightarrow>
                  ([''  bridge relayer (EVM):  '' @ p @ (if bc_enabled (cf_bridge c) then [] else '' (bridge disabled)''),
                    print_derived ''address'' r], d3))
            | None \<Rightarrow> (if bc_enabled (cf_bridge c) then
                         ([''  bridge relayer (EVM):  MISSING (bridge.enabled but no key)''], d2)
                       else ([], d2))) of (relayer, d3) \<Rightarrow>
        ([''Configured keys:''] @ signer @ p2p @ relayer, d3))"

end
