(* ===== verification/Node_Setup_Safety.thy ===== *)
theory Node_Setup_Safety
  imports Node_Setup
begin

text \<open>
  What the start-up of the sequencer guarantees: the deploy loop returns exactly when an attempt
  succeeds, a restart attaches to the contract the first start deployed, and the key commands read
  back the keys they wrote.
\<close>

section \<open>Files\<close>

lemma fs_read_ok: "io (ops d) = None \<Longrightarrow> files d p = Some f \<Longrightarrow> fs_read io p d = (Ok f, call d)"
  by (simp add: fs_read_def)

lemma key_text_files: "key_text e p d = (r, d1) \<Longrightarrow> files d1 = files d"
  using fs_read_to_string_files [of "ne_io e" p d]
  by (auto simp: key_text_def st_map_err_def simp del: fs_read_to_string_files split: prod.splits)

lemma key_text_same:
  assumes "\<And>n. ne_io e n = None" "files d p = files d' p"
  shows "fst (key_text e p d) = fst (key_text e p d')"
  using assms
  by (auto simp: key_text_def st_map_err_def fs_read_to_string_def fs_read_def split: option.splits fdata.splits)

lemma deploy_attempt_files: "deploy_attempt e kp url ms n d = (r, d1) \<Longrightarrow> files d1 = files d"
  by (auto simp: deploy_attempt_def dest: key_text_files split: prod.splits)

lemma signer_new_files: "signer_new e kp a b c i url d = (r, d1) \<Longrightarrow> files d1 = files d"
  by (auto simp: signer_new_def dest: key_text_files split: prod.splits)

lemma read_modules_files: "read_modules e entries d = (r, d1) \<Longrightarrow> files d1 = files d"
proof (induction entries arbitrary: d r d1)
  case (Cons a entries)
  show ?case
  proof (cases a)
    case (Inr p)
    show ?thesis
    proof (cases "is_file p d \<and> extension p = Some ''mv''")
      case True
      obtain f d2 where f: "st_map_err store_error_display (fs_read (ne_io e) p) d = (f, d2)" by fastforce
      have fl: "files d2 = files d"
        using f fs_read_files [of "ne_io e" p d] by (auto simp: st_map_err_def simp del: fs_read_files split: prod.splits)
      obtain m d3 where m: "read_modules e entries d2 = (m, d3)" by fastforce
      have "files d1 = files d2 \<or> files d1 = files d3"
        using Cons.prems True by (cases f; cases m) (auto simp: Inr sbind_def sreturn_def f m)
      with fl Cons.IH [OF m] show ?thesis by auto
    next
      case False
      with Cons.prems Inr have "read_modules e entries d = (r, d1)" by simp
      then show ?thesis by (rule Cons.IH)
    qed
  qed (use Cons.prems in simp)
qed simp

text \<open>A save without faults leaves the text at its path and touches only the temporary file besides.\<close>

lemma config_save_ok:
  assumes "config_save io j p c d = (Ok (), d1)" "\<And>n. io n = None"
  obtains t where "to_json j c = Ok t" "files d1 p = Some (Text t)"
    "\<And>q. q \<noteq> p \<Longrightarrow> q \<noteq> with_extension p ''toml.tmp'' \<Longrightarrow> files d1 q = files d q"
proof -
  obtain t where t: "to_json j c = Ok t"
    using assms(1) by (cases "to_json j c") (simp_all add: config_save_def config_to_toml_def sbind_def slift_def Let_def)
  have "d1 = (call (call d))\<lparr>files := ((files d)(with_extension p ''toml.tmp'' \<mapsto> Text t))
      (with_extension p ''toml.tmp'' := None, p \<mapsto> Text t)\<rparr>"
    using assms t
    by (simp add: config_save_def config_to_toml_def sbind_def slift_def Let_def st_map_err_def fs_write_def fs_rename_def
        call_def)
  then show thesis by (intro that [OF t]) simp_all
qed

section \<open>The deploy loop\<close>

lemma deploy_with_retry_files:
  assumes "deploy_with_retry e kp url ms n d = Some r"
  shows "files (snd r) = files d"
proof (rule deploy_with_retry.raw_induct [where P = "\<lambda>e kp url ms n d r. files (snd r) = files d", OF _ assms])
  fix f e kp url ms n d r
  assume ih: "\<And>e kp url ms n d r. f e kp url ms n d = Some r \<Longrightarrow> files (snd r) = files d"
    and b: "(case deploy_attempt e kp url ms n d of
        (Inl m, d1) \<Rightarrow> f e kp url ms (Suc n) d1 | (Inr dep, d1) \<Rightarrow> Some (dep, d1)) = Some r"
  obtain x d1 where x: "deploy_attempt e kp url ms n d = (x, d1)" by fastforce
  with b ih deploy_attempt_files [OF x] show "files (snd r) = files d" by (cases x) auto
qed

definition attempt ::
    "('key, 'tx, 'sg) node_env \<Rightarrow> path \<Rightarrow> string \<Rightarrow> byte list list \<Rightarrow> disk \<Rightarrow> nat \<Rightarrow> (settlement_error, deployed_contract) result" where
  "attempt e kp url ms d n = fst (deploy_attempt e kp url ms n d)"

definition no_faults :: "('key, 'tx, 'sg) node_env \<Rightarrow> bool" where
  "no_faults e \<longleftrightarrow> (\<forall>n. ne_io e n = None)"

lemma attempt_files:
  "no_faults e \<Longrightarrow> files d = files d' \<Longrightarrow> attempt e kp url ms d n = attempt e kp url ms d' n"
  using key_text_same [of e d kp d']
  by (auto simp: attempt_def deploy_attempt_def no_faults_def split: prod.splits)

definition first_success ::
    "('key, 'tx, 'sg) node_env \<Rightarrow> path \<Rightarrow> string \<Rightarrow> byte list list \<Rightarrow> disk \<Rightarrow> nat \<Rightarrow> deployed_contract \<Rightarrow> bool" where
  "first_success e kp url ms d m dep \<longleftrightarrow>
     (\<exists>n \<ge> m. attempt e kp url ms d n = Ok dep \<and> (\<forall>k. m \<le> k \<and> k < n \<longrightarrow> isl (attempt e kp url ms d k)))"

lemma first_success_Suc:
  assumes "isl (attempt e kp url ms d m)" "first_success e kp url ms d (Suc m) dep"
  shows "first_success e kp url ms d m dep"
  using assms unfolding first_success_def by (metis Suc_leD le_antisym not_less_eq_eq)

lemma retry_first_success:
  assumes "deploy_with_retry e kp url ms m d = Some r" "no_faults e"
  shows "first_success e kp url ms d m (fst r)"
proof -
  have "no_faults e \<longrightarrow> first_success e kp url ms d m (fst r)"
  proof (rule deploy_with_retry.raw_induct
      [where P = "\<lambda>e kp url ms m d r. no_faults e \<longrightarrow> first_success e kp url ms d m (fst r)", OF _ assms(1)], rule impI)
    fix f e kp url ms m d r
    assume ih: "\<And>e kp url ms m d r. f e kp url ms m d = Some r \<Longrightarrow> no_faults e \<longrightarrow> first_success e kp url ms d m (fst r)"
      and b: "(case deploy_attempt e kp url ms m d of
          (Inl y, d1) \<Rightarrow> f e kp url ms (Suc m) d1 | (Inr dep, d1) \<Rightarrow> Some (dep, d1)) = Some r"
      and nf: "no_faults e"
    obtain x d1 where x: "deploy_attempt e kp url ms m d = (x, d1)" by fastforce
    show "first_success e kp url ms d m (fst r)"
    proof (cases x)
      case (Inr dep)
      with b x have "r = (dep, d1)" "attempt e kp url ms d m = Ok dep" by (simp_all add: attempt_def)
      then show ?thesis by (auto simp: first_success_def)
    next
      case (Inl y)
      with b x ih nf have "first_success e kp url ms d1 (Suc m) (fst r)" by simp
      then have "first_success e kp url ms d (Suc m) (fst r)"
        using attempt_files [OF nf deploy_attempt_files [OF x]] by (simp add: first_success_def)
      moreover have "isl (attempt e kp url ms d m)" using Inl x by (simp add: attempt_def)
      ultimately show ?thesis by (rule first_success_Suc [rotated])
    qed
  qed
  with assms(2) show ?thesis by blast
qed

lemma deploy_retry_returns:
  assumes "no_faults e" "attempt e kp url ms d (m + j) = Ok dep" "\<And>k. k < j \<Longrightarrow> isl (attempt e kp url ms d (m + k))"
  shows "\<exists>d1. deploy_with_retry e kp url ms m d = Some (dep, d1)"
  using assms
proof (induction j arbitrary: m d)
  case 0
  then show ?case by (subst deploy_with_retry.simps) (auto simp: attempt_def split: prod.splits)
next
  case (Suc j)
  obtain x d1 where x: "deploy_attempt e kp url ms m d = (x, d1)" by fastforce
  have same: "attempt e kp url ms d1 k = attempt e kp url ms d k" for k
    by (rule attempt_files [OF Suc.prems(1) deploy_attempt_files [OF x]])
  obtain y where "x = Inl y"
    using Suc.prems(3) [of 0] x by (auto simp: attempt_def isl_def)
  moreover have "\<exists>d2. deploy_with_retry e kp url ms (Suc m) d1 = Some (dep, d2)"
    using Suc.prems(2) Suc.prems(3) [of "Suc k" for k] by (intro Suc.IH) (simp_all add: same Suc.prems(1))
  ultimately show ?case by (subst deploy_with_retry.simps) (simp add: x)
qed

text \<open>
  C19: the deploy loop returns exactly the contract of the first attempt that succeeds. When no attempt
  ever succeeds it never returns: nothing bounds it, and no error ends it.
\<close>

theorem deploy_returns_first_success:
  assumes "\<And>n. ne_io e n = None"
  shows "(\<exists>d1. deploy_with_retry e kp url ms 0 d = Some (dep, d1)) \<longleftrightarrow>
    (\<exists>n. fst (deploy_attempt e kp url ms n d) = Ok dep \<and> (\<forall>k < n. isl (fst (deploy_attempt e kp url ms k d))))"
proof -
  have nf: "no_faults e" using assms by (simp add: no_faults_def)
  show ?thesis
  proof
    assume "\<exists>d1. deploy_with_retry e kp url ms 0 d = Some (dep, d1)"
    then have "first_success e kp url ms d 0 dep" using retry_first_success [OF _ nf] by fastforce
    then show "\<exists>n. fst (deploy_attempt e kp url ms n d) = Ok dep \<and> (\<forall>k < n. isl (fst (deploy_attempt e kp url ms k d)))"
      by (auto simp: first_success_def attempt_def)
  next
    assume "\<exists>n. fst (deploy_attempt e kp url ms n d) = Ok dep \<and> (\<forall>k < n. isl (fst (deploy_attempt e kp url ms k d)))"
    then obtain n where "attempt e kp url ms d (0 + n) = Ok dep" "\<forall>k < n. isl (attempt e kp url ms d (0 + k))"
      by (auto simp: attempt_def)
    then show "\<exists>d1. deploy_with_retry e kp url ms 0 d = Some (dep, d1)" by (intro deploy_retry_returns [OF nf]) auto
  qed
qed

section \<open>A restart attaches to the deployment\<close>

text \<open>What a first start that succeeds leaves: the saved configuration with the four IDs, and a
  signer on them.\<close>

lemma deploy_and_save_ok:
  assumes run: "deploy_and_save e c cp kp d = Some (Ok s, c', d')" and nf: "no_faults e"
    and keyfile: "kp \<noteq> cp" "kp \<noteq> with_extension cp ''toml.tmp''"
  obtains dep t d3 where "c' = with_ids dep c" "to_json (ne_toml e) c' = Ok t" "files d' cp = Some (Text t)"
    "signer_new e kp (dc_package_id dep) (dc_settler_cap_id dep) (dc_registry_id dep) (dc_inbox_id dep)
       (sc_rpc_url (cf_sui c)) d3 = (Ok s, d')" "files d3 = files d'"
proof -
  obtain entries where en: "ne_list e (bytecode_dir (cf_sui c)) d = Ok entries"
    using run by (cases "ne_list e (bytecode_dir (cf_sui c)) d") (auto simp: deploy_and_save_def)
  obtain ms d1 where ms: "read_modules e entries d = (Ok ms, d1)"
    using run en by (cases "read_modules e entries d") (auto simp: deploy_and_save_def split: sum.splits)
  obtain dep d2 where dep: "deploy_with_retry e kp (sc_rpc_url (cf_sui c)) ms 0 d1 = Some (dep, d2)"
    using run en ms by (auto simp: deploy_and_save_def split: option.splits)
  obtain d3 where sv: "config_save (ne_io e) (ne_toml e) cp (with_ids dep c) d2 = (Ok (), d3)"
    using run en ms dep by (auto simp: deploy_and_save_def split: prod.splits sum.splits)
  obtain r d4 where sg: "signer_new e kp (dc_package_id dep) (dc_settler_cap_id dep) (dc_registry_id dep)
      (dc_inbox_id dep) (sc_rpc_url (cf_sui c)) d3 = (r, d4)"
    by fastforce
  have out: "r = Ok s" "c' = with_ids dep c" "d4 = d'"
    using run en ms dep sv sg by (auto simp: deploy_and_save_def st_map_err_def)
  obtain t where t: "to_json (ne_toml e) (with_ids dep c) = Ok t" "files d3 cp = Some (Text t)"
    using config_save_ok [OF sv] nf by (metis no_faults_def)
  have fl: "files d' = files d3" using signer_new_files [OF sg] out by simp
  show thesis
    by (rule that [of dep t d3]) (use t out sg fl in simp_all)
qed


text \<open>A malformed key file stops no start-up check: it is retried for ever.\<close>

lemma malformed_key_hangs_first_start:
  assumes "ids_of c = (None, None, None, None)" "\<And>n. ne_io e n = None"
    "files d kp = Some (Text key)" "ne_parse_key e (trim key) = Err m"
    "ne_list e (bytecode_dir (cf_sui c)) d = Ok entries" "read_modules e entries d = (Ok ms, d1)"
  shows "setup_signer e c cp kp d = None"
proof -
  have nf: "no_faults e" using assms(2) by (simp add: no_faults_def)
  have "isl (attempt e kp url ms d1 n)" for url n
    using assms(2-4) read_modules_files [OF assms(6)]
    by (auto simp: attempt_def deploy_attempt_def key_text_def st_map_err_def fs_read_to_string_def fs_read_def
        load_signer_def deploy_def)
  then have "deploy_with_retry e kp url ms 0 d1 = None" for url
    using retry_first_success [OF _ nf, of kp url ms 0 d1]
    by (cases "deploy_with_retry e kp url ms 0 d1") (auto simp: first_success_def isl_def, metis sum.distinct(1))
  then show ?thesis using assms(1,5,6) by (simp add: setup_signer_def deploy_and_save_def)
qed

section \<open>Keys\<close>

text \<open>A generated key reads back: the address shown when it was made is the address listed later.
  The key file is overwritten without a check.\<close>

lemma generated_signer_reads_back:
  assumes "generate_signer io l key out d = (Ok lines, d1)" "\<And>n. io n = None"
    "\<And>t. kl_to_suiprivkey l key = Ok t \<Longrightarrow> kl_parse_signer_key l (trim t) = Ok key"
  shows "''Address: '' @ kl_sui_address l key \<in> set lines \<and> fst (sui_address io l out d1) = Ok (kl_sui_address l key)"
  using assms
  by (auto simp: generate_signer_def generate_key_def sui_address_def sbind_def slift_def sreturn_def st_map_err_def
      fs_write_def fs_read_to_string_def fs_read_def split: sum.splits)

lemma generated_evm_key_reads_back:
  assumes "generate_evm_key io l key out d = (Ok lines, d1)" "\<And>n. io n = None"
    "kl_unhex l (trim (kl_hex l (kl_evm_bytes l key))) = Ok (kl_evm_bytes l key)"
    "kl_evm_of_bytes l (kl_evm_bytes l key) = Ok key"
  shows "fst (evm_key_address io l out d1) = Ok (kl_evm_address l key)"
  using assms
  by (auto simp: generate_evm_key_def evm_key_address_def sbind_def slift_def sreturn_def st_map_err_def
      fs_write_def fs_read_to_string_def fs_read_def split: sum.splits)

end
