(* ===== verification/Bridge_Task_Safety.thy ===== *)
theory Bridge_Task_Safety
  imports Bridge_Task Relayer_Registry Node_Setup_Safety
begin

text \<open>
  What the bridge task guarantees around the relayer: the Vault is created once and found again, by the
  same process and by the next one, and the task ends at shutdown.
\<close>

section \<open>The configuration of the task\<close>

definition vault_ids :: "config \<Rightarrow> (string \<times> string \<times> string) option" where
  "vault_ids c =
     (case (sc_settlement_package_id (cf_sui c), bc_cap_id (cf_bridge c), bc_vault_id (cf_bridge c)) of
        (Some pkg, Some cap, Some vlt) \<Rightarrow> Some (pkg, cap, vlt)
      | _ \<Rightarrow> None)"

lemma bridge_ids_known: "vault_ids (bt_config s) = Some ids \<Longrightarrow> bridge_ids e n cp kp s = (Ok ids, s)"
  by (auto simp: vault_ids_def bridge_ids_def split: option.splits)

lemma create_vault_files: "create_vault e n c kp pkg d = (r, d1) \<Longrightarrow> files d1 = files d"
  using fs_read_to_string_files [of "be_io e" kp d]
  by (auto simp: create_vault_def read_text_def st_map_err_def simp del: fs_read_to_string_files
      split: option.splits prod.splits)

lemma build_relayer_config: "build_relayer e n kp ids s = Some (r, s1) \<Longrightarrow> bt_config s1 = bt_config s"
  by (auto simp: build_relayer_def Let_def split: prod.splits sum.splits option.splits)

text \<open>Building the relayer executes no Sui transaction.\<close>

definition barred :: "('tx \<Rightarrow> 'sg \<Rightarrow> nat \<Rightarrow> (string, tx_response) result) \<Rightarrow> ('key, 'tx, 'sg, 'ekey, 'w) bridge_env \<Rightarrow> ('key, 'tx, 'sg, 'ekey, 'w) bridge_env" where
  "barred ex e = e\<lparr>be_te := \<lambda>n. (be_te e n)\<lparr>te_execute := ex\<rparr>\<rparr>"

lemma barred_simps [simp]:
  "be_io (barred ex e) = be_io e" "be_lib (barred ex e) = be_lib e" "be_from_slice (barred ex e) = be_from_slice e"
  "be_l2 (barred ex e) = be_l2 e" "be_factory (barred ex e) = be_factory e" "be_signer (barred ex e) = be_signer e"
  "be_port (barred ex e) = be_port e" "be_fuel (barred ex e) = be_fuel e" "be_adopted (barred ex e) = be_adopted e"
  "be_parse (barred ex e) = be_parse e" "be_parse_key (barred ex e) = be_parse_key e"
  "be_te (barred ex e) n = (be_te e n)\<lparr>te_execute := ex\<rparr>"
  by (simp_all add: barred_def)

lemma client_barred:
  "bridge_new_or_adopted (te\<lparr>te_execute := ex\<rparr>) rd pk ps ak kp a b c url = bridge_new_or_adopted te rd pk ps ak kp a b c url"
  by (cases ak) (simp_all add: bridge_new_or_adopted_def bridge_from_parts_def load_signer_def)

lemma build_relayer_barred: "build_relayer (barred ex e) n kp ids s = build_relayer e n kp ids s"
proof -
  have c: "bridge_client_of (barred ex e) = bridge_client_of e"
    by (intro ext) (unfold bridge_client_of_def barred_simps client_barred, rule refl)
  have k: "relayer_key (barred ex e) = relayer_key e"
    by (intro ext) (unfold relayer_key_def barred_simps, rule refl)
  show ?thesis unfolding build_relayer_def barred_simps c k ..
qed

lemma setup_relayer_config:
  assumes "vault_ids (bt_config s) = Some ids" "setup_relayer e n cp kp s = Some (r, s1)"
  shows "bt_config s1 = bt_config s"
proof -
  have "setup_relayer e n cp kp s = map_option (\<lambda>(r, s2). case r of
              Inl m \<Rightarrow> (Err m, s2)
            | Inr (client, p, rel) \<Rightarrow>
                (Ok (p, rel), s2\<lparr>bt_shared := (case bt_shared s2 of None \<Rightarrow> Some client | Some c \<Rightarrow> Some c)\<rparr>))
            (build_relayer e n kp ids s)"
    by (simp add: setup_relayer_def bridge_ids_known [OF assms(1)])
  with assms(2) obtain x s2 where x: "build_relayer e n kp ids s = Some (x, s2)"
    "(case x of
              Inl m \<Rightarrow> (Err m, s2)
            | Inr (client, p, rel) \<Rightarrow>
                (Ok (p, rel), s2\<lparr>bt_shared := (case bt_shared s2 of None \<Rightarrow> Some client | Some c \<Rightarrow> Some c)\<rparr>)) = (r, s1)"
    by (cases "build_relayer e n kp ids s") (simp, fastforce)
  from x(2) have "bt_config s1 = bt_config s2" by (cases x) auto
  with build_relayer_config [OF x(1)] show ?thesis by simp
qed

lemma setup_relayer_barred:
  "vault_ids (bt_config s) = Some ids \<Longrightarrow> setup_relayer (barred ex e) n cp kp s = setup_relayer e n cp kp s"
  by (simp add: setup_relayer_def bridge_ids_known build_relayer_barred)

lemma relay_until_ready_barred:
  assumes "vault_ids (bt_config s) = Some ids"
  shows "relay_until_ready (barred ex e) cp kp downs n s = relay_until_ready e cp kp downs n s"
  using assms
proof (induction downs arbitrary: n s)
  case (Cons down downs)
  note same = setup_relayer_barred [OF Cons.prems]
  have "relay_until_ready (barred ex e) cp kp downs (Suc n) s1 = relay_until_ready e cp kp downs (Suc n) s1"
    if "setup_relayer e n cp kp s = Some (r, s1)" for r s1
    using setup_relayer_config [OF Cons.prems that] Cons.prems by (intro Cons.IH) simp
  then show ?case by (auto simp: same split: option.splits sum.splits prod.splits)
qed simp

text \<open>
  C10: the bridge creates one Vault. Once it is created and saved, the configuration file loads with its
  IDs, and from that configuration on, in the same process or after a restart and whatever goes wrong
  later, the task executes no transaction to set itself up: it runs the same way when the network
  would execute none.
\<close>

theorem bridge_vault_created_once:
  assumes made: "bridge_ids e n cp kp s = (Ok (pkg, cap, vlt), s1)" and fresh: "bc_vault_id (cf_bridge (bt_config s)) = None"
    and disk: "\<And>k. be_io e k = None" and toml: "json_ok (be_toml e)"
  shows "(\<exists>d1. config_load (be_io e) (be_toml e) cp (bt_disk s1) = (Ok (bt_config s1), d1)) \<and>
    bc_cap_id (cf_bridge (bt_config s1)) = Some cap \<and> bc_vault_id (cf_bridge (bt_config s1)) = Some vlt \<and>
    (\<forall>ex downs m s2. bt_config s2 = bt_config s1 \<longrightarrow>
       relay_until_ready (e\<lparr>be_te := \<lambda>k. (be_te e k)\<lparr>te_execute := ex\<rparr>\<rparr>) cp kp downs m s2 =
       relay_until_ready e cp kp downs m s2)"
proof -
  obtain b t where b: "sc_settlement_package_id (cf_sui (bt_config s)) = Some pkg" "bc_cap_id (cf_bridge (bt_config s)) = None"
    "on_task_disk (create_vault e n (bt_config s) kp pkg) s = (Ok b, t)" "cap = db_cap_id b" "vlt = db_vault_id b"
    "on_task_disk (config_save (be_io e) (be_toml e) cp (with_bridge_ids b (bt_config t)))
       (t\<lparr>bt_config := with_bridge_ids b (bt_config t)\<rparr>) = (Ok (), s1)"
    using made fresh by (auto simp: bridge_ids_def Let_def sbind_Ok_iff split: option.splits)
  obtain d2 where sv: "config_save (be_io e) (be_toml e) cp (with_bridge_ids b (bt_config t)) (bt_disk t) = (Ok (), d2)"
    and s1: "s1 = t\<lparr>bt_config := with_bridge_ids b (bt_config t), bt_disk := d2\<rparr>"
    using b(6) by (auto simp: on_task_disk_def split: prod.splits)
  have "bt_config t = bt_config s" using b(3) by (auto simp: on_task_disk_def split: prod.splits)
  then have c: "bt_config s1 = with_bridge_ids b (bt_config s)" by (simp add: s1)
  obtain x where "to_json (be_toml e) (with_bridge_ids b (bt_config t)) = Ok x" "files d2 cp = Some (Text x)"
    by (rule config_save_ok [OF sv disk])
  then have ld: "\<exists>d1. config_load (be_io e) (be_toml e) cp (bt_disk s1) = (Ok (bt_config s1), d1)"
    using toml disk
    by (auto simp: s1 config_load_def st_map_err_def fs_read_to_string_def fs_read_def config_from_str_def json_ok_def
        sbind_def slift_def)
  have "vault_ids (bt_config s1) = Some (pkg, cap, vlt)"
    by (simp add: c vault_ids_def with_bridge_ids_def b(1,4,5))
  then have "relay_until_ready (barred ex e) cp kp downs m s2 = relay_until_ready e cp kp downs m s2"
    if "bt_config s2 = bt_config s1" for ex downs m s2
    using that by (intro relay_until_ready_barred) simp
  moreover have "bc_cap_id (cf_bridge (bt_config s1)) = Some cap" "bc_vault_id (cf_bridge (bt_config s1)) = Some vlt"
    by (simp_all add: c with_bridge_ids_def b(4,5))
  ultimately show ?thesis using ld by (simp add: barred_def)
qed

text \<open>When the save fails, the Vault is in memory only: the process goes on with it, and the file
  still holds a configuration without it, from which the next process creates another.\<close>

lemma unsaved_vault_stays_in_memory:
  assumes "bridge_ids e n cp kp s = (Err m, s1)" "bc_vault_id (cf_bridge (bt_config s1)) = Some vlt"
    "bc_vault_id (cf_bridge (bt_config s)) = None" "sc_settlement_package_id (cf_sui (bt_config s)) = Some pkg"
  shows "\<exists>cap. bridge_ids e k cp kp s1 = (Ok (pkg, cap, vlt), s1)"
proof -
  have none: "bc_cap_id (cf_bridge (bt_config s)) = None"
    using assms by (auto simp: bridge_ids_def split: option.splits)
  obtain r t where cv: "on_task_disk (create_vault e n (bt_config s) kp pkg) s = (r, t)" by fastforce
  have tc: "bt_config t = bt_config s" using cv by (auto simp: on_task_disk_def split: prod.splits)
  show ?thesis
  proof (cases r)
    case (Inl y)
    with assms none cv have "s1 = t" by (simp add: bridge_ids_def sbind_def st_map_err_def)
    with tc assms(2,3) show ?thesis by simp
  next
    case (Inr b)
    obtain d2 x where "config_save (be_io e) (be_toml e) cp (with_bridge_ids b (bt_config t)) (bt_disk t) = (x, d2)"
      by fastforce
    with assms(1,3,4) none cv Inr have "bt_config s1 = with_bridge_ids b (bt_config s)"
      by (cases x) (auto simp: bridge_ids_def sbind_def st_map_err_def on_task_disk_def Let_def tc)
    with assms(2,4) have "vault_ids (bt_config s1) = Some (pkg, db_cap_id b, vlt)"
      by (auto simp: vault_ids_def with_bridge_ids_def)
    then show ?thesis by (auto intro: bridge_ids_known)
  qed
qed

section \<open>Shutdown\<close>

definition heads_bounded :: "'w l2_port \<Rightarrow> bool" where
  "heads_bounded l2 \<longleftrightarrow> (\<forall>w h w1. eth_block_number l2 w = (Ok h, w1) \<longrightarrow> h \<noteq> u64_max)"

lemma restore_returns:
  assumes "heads_bounded (l2_of p)" "2 ^ 64 + 2502 \<le> fuel"
  shows "restore_token_registry p fuel s \<noteq> None"
proof -
  obtain r s1 where h: "on_net (eth_block_number (l2_of p)) s = (r, s1)" by fastforce
  have "scan_loop (l2_of p) (lp_factory p) hd_block fuel CREATION_SCAN_CHUNK 0 registry_empty w \<noteq> None"
    if "r = Inr hd_block" for hd_block w
  proof -
    have "hd_block \<noteq> u64_max" using h that assms(1) by (auto simp: on_net_def heads_bounded_def split: prod.splits)
    moreover have "unat hd_block + 2502 \<le> fuel" using unat_u64_less [of hd_block] assms(2) by linarith
    moreover have "unat CREATION_SCAN_CHUNK = 2500" by (simp add: CREATION_SCAN_CHUNK_def)
    ultimately show ?thesis by (intro scan_loop_returns) simp_all
  qed
  note scans = this
  show ?thesis
  proof (cases r)
    case (Inr hd_block)
    then obtain x w where "scan_loop (l2_of p) (lp_factory p) hd_block fuel CREATION_SCAN_CHUNK 0 registry_empty (re_world s1) = Some (x, w)"
      using scans [of hd_block "re_world s1"] by auto
    with Inr h show ?thesis by (cases x) (simp_all add: restore_token_registry_def)
  qed (simp add: restore_token_registry_def h)
qed

lemma setup_relayer_returns:
  assumes "\<And>c k v cl. heads_bounded (l2_of (be_port e c k v cl))" "2 ^ 64 + 2502 \<le> be_fuel e"
  shows "setup_relayer e n cp kp s \<noteq> None"
proof -
  have "relayer_open (be_port e c k v cl) (be_fuel e) i d w \<noteq> None" for c k v cl i d w
    using restore_returns [OF assms(1) assms(2)] by (auto simp: relayer_open_def split: prod.splits sum.splits)
  then have "build_relayer e n kp ids t \<noteq> None" for ids t
    by (auto simp: build_relayer_def Let_def simp del: not_None_eq split: prod.splits sum.splits option.splits)
  then show ?thesis
    by (cases "bridge_ids e n cp kp s") (auto simp: setup_relayer_def simp del: not_None_eq split: sum.splits)
qed

lemma relay_run_returns: "\<exists>b t. relay_run p downs s = Some (b, t) \<and> (True \<in> set downs \<longrightarrow> b)"
proof (induction downs arbitrary: s)
  case (Cons down downs)
  obtain t where "relay_round p s = Some t" using relay_round_returns by blast
  with Cons [of t] show ?case by auto
qed auto


end
