(* ===== verification/P2p.thy ===== *)
theory P2p
  imports Disk
begin

text \<open>
  The peer-to-peer layer (\<open>crates/p2p/src\<close>): the block message and its digest, block
  announcements, the admission set and its handle, the startup of a node and its identity
  key file. The commonware network itself (transport, discovery, broadcast cache), SHA-256,
  hex and the key types are arguments.
\<close>

section \<open>Messages\<close>

datatype block_message = BlockMessage block

definition block_digest :: "(byte list \<Rightarrow> hash) \<Rightarrow> block_message \<Rightarrow> hash" where
  "block_digest sha256 m =
     (case m of BlockMessage b \<Rightarrow>
        sha256 (to_vec (sha256 (data b)) @ signing_message (header b)))"

text \<open>\<open>serde_json\<close> and the length-prefixed \<open>Vec<u8>\<close> codec of commonware.\<close>

record message_codec =
  mg_to_json :: "block \<Rightarrow> byte list"
  mg_from_json :: "byte list \<Rightarrow> (string, block) result"
  mg_write_vec :: "byte list \<Rightarrow> byte list"
  mg_read_vec :: "byte list \<Rightarrow> (string, byte list) result"

definition message_write :: "message_codec \<Rightarrow> block_message \<Rightarrow> byte list" where
  "message_write c m = (case m of BlockMessage b \<Rightarrow> mg_write_vec c (mg_to_json c b))"

definition message_encode_size :: "message_codec \<Rightarrow> block_message \<Rightarrow> nat" where
  "message_encode_size c m = length (message_write c m)"

definition message_read :: "message_codec \<Rightarrow> byte list \<Rightarrow> (string, block_message) result" where
  "message_read c buf =
     and_then (mg_read_vec c buf) (\<lambda>bytes.
       map_err (\<lambda>e. ''block json: '' @ e)
         (and_then (mg_from_json c bytes) (\<lambda>b. Ok (BlockMessage b))))"

record block_announce =
  an_height :: u64
  an_digest :: hash

definition announce_encode :: "block_announce \<Rightarrow> byte list" where
  "announce_encode a = to_le_bytes (an_height a) @ to_vec (an_digest a)"

definition announce_decode :: "byte list \<Rightarrow> block_announce option" where
  "announce_decode buf =
     (if length buf \<noteq> 40 then None
      else Option.bind (try_into (drop 8 buf)) (\<lambda>digest.
             Some \<lparr>an_height = from_le_bytes (take 8 buf), an_digest = digest\<rparr>))"

text \<open>What the broadcaster hands to the network: a block under its digest on the block channel,
  an encoded announcement on the announce channel.\<close>

datatype p2p_out = OutBlock hash block | OutAnnounce "byte list"

definition p2p_broadcast :: "(byte list \<Rightarrow> hash) \<Rightarrow> block \<Rightarrow> p2p_out" where
  "p2p_broadcast sha256 b = OutBlock (block_digest sha256 (BlockMessage b)) b"

definition p2p_announce :: "u64 \<Rightarrow> hash \<Rightarrow> p2p_out" where
  "p2p_announce ht digest = OutAnnounce (announce_encode \<lparr>an_height = ht, an_digest = digest\<rparr>)"

text \<open>\<open>poll_next\<close>: what arrived on the announce channel within the timeout, if anything.\<close>

definition poll_next :: "byte list option \<Rightarrow> block_announce option" where
  "poll_next arrived =
     (case arrived of
        None \<Rightarrow> None
      | Some buf \<Rightarrow> if length buf = 40 then announce_decode buf else None)"

section \<open>Admission\<close>

definition admission_set :: "hash list \<Rightarrow> nat \<Rightarrow> hash list" where
  "admission_set ps max_peers = take max_peers (remdups_adj (sort ps))"

text \<open>The handle: the bound, the sets registered with the discovery oracle (newest first) and
  the last registered index.\<close>

record 'pk admission_handle =
  ah_max_peers :: nat
  ah_oracle :: "(u64 \<times> 'pk set) list"
  ah_epoch :: u64

definition admit ::
    "(hash \<Rightarrow> (string, 'pk) result) \<Rightarrow> u64 \<Rightarrow> hash list \<Rightarrow> 'pk admission_handle \<Rightarrow> 'pk admission_handle" where
  "admit load_pubkey epoch ps h =
     (case collect_results (map load_pubkey (admission_set ps (ah_max_peers h))) of
        Inl _ \<Rightarrow> h
      | Inr tracked \<Rightarrow> h\<lparr>ah_oracle := (epoch, set tracked) # ah_oracle h, ah_epoch := epoch\<rparr>)"

section \<open>Identity keys\<close>

text \<open>\<open>hex\<close> and the key codec; \<open>kc_random\<close> is the fresh key of a generation.\<close>

record ('sk, 'pk) key_codec =
  kc_hex_encode :: "byte list \<Rightarrow> string"
  kc_hex_decode :: "string \<Rightarrow> (string, byte list) result"
  kc_from_seed :: "byte list \<Rightarrow> (string, 'sk) result"
  kc_seed :: "'sk \<Rightarrow> byte list"
  kc_public :: "'sk \<Rightarrow> 'pk"
  kc_encode_public :: "'pk \<Rightarrow> byte list"

definition read_key ::
    "io \<Rightarrow> ('sk, 'pk) key_codec \<Rightarrow> path \<Rightarrow> disk \<Rightarrow> (string, 'sk) result \<times> disk" where
  "read_key io kc p d =
     (case fs_read_to_string io p d of
        (Inl _, d') \<Rightarrow> (Err (''reading p2p key from '' @ p), d')
      | (Inr text, d') \<Rightarrow>
          (let hex = trim text in
           if length hex \<noteq> 64 then
             (Err (''p2p key file must contain exactly 64 hex chars, got '' @ show_nat (length hex)), d')
           else
             (case kc_hex_decode kc hex of
                Inl _ \<Rightarrow> (Err ''decoding p2p key hex'', d')
              | Inr seed \<Rightarrow>
                  (map_err (\<lambda>_. ''decoding p2p key seed (must be 32 raw bytes)'') (kc_from_seed kc seed), d'))))"

definition path_parent :: "path \<Rightarrow> path" where
  "path_parent p = rev (drop 1 (dropWhile (\<lambda>c. c \<noteq> CHR ''/'') (rev p)))"

definition load_or_generate_key ::
    "io \<Rightarrow> ('sk, 'pk) key_codec \<Rightarrow> 'sk \<Rightarrow> path \<Rightarrow> disk \<Rightarrow> (string, 'sk) result \<times> disk" where
  "load_or_generate_key io kc fresh p d =
     (if fs_exists p d then read_key io kc p d
      else
        sbind (\<lambda>d. if path_parent p = [] then (Ok (), d)
                  else st_map_err (\<lambda>_. ''creating parent dir for p2p key at '' @ p)
                         (fs_create_dir_all io (path_parent p)) d) (\<lambda>_.
        sbind (st_map_err (\<lambda>_. ''writing p2p key to '' @ p)
                 (fs_write io p (Text (kc_hex_encode kc (kc_seed kc fresh))))) (\<lambda>_.
          sreturn fresh)) d)"

definition read_pubkey_hex ::
    "io \<Rightarrow> ('sk, 'pk) key_codec \<Rightarrow> path \<Rightarrow> disk \<Rightarrow> (string, string) result \<times> disk" where
  "read_pubkey_hex io kc p =
     sbind (read_key io kc p) (\<lambda>key. sreturn (kc_hex_encode kc (kc_encode_public kc (kc_public kc key))))"

section \<open>Startup\<close>

record p2p_config =
  pc_key_path :: "path option"
  pc_bootstrap_peers :: "(string \<times> string) list"
  pc_registry_admission :: bool
  pc_max_peers_per_set :: nat

definition initial_tracked_set ::
    "(hash \<Rightarrow> (string, 'pk) result) \<Rightarrow> p2p_config \<Rightarrow> hash \<Rightarrow> hash list \<Rightarrow> (string, 'pk set option) result" where
  "initial_tracked_set load_pubkey cfg own bootstrapper_keys =
     (if pc_registry_admission cfg then Ok None
      else and_then (collect_results (map load_pubkey
                       (admission_set (own # bootstrapper_keys) (pc_max_peers_per_set cfg)))) (\<lambda>tracked.
             Ok (Some (set tracked))))"

text \<open>The fallible part of \<open>P2pNode::new\<close>: identity, bootstrappers with their addresses, and the
  oracle with the startup set. The handle starts at index 0.\<close>

definition decode_bootstrap ::
    "('sk, 'pk) key_codec \<Rightarrow> string \<Rightarrow> (string, hash) result" where
  "decode_bootstrap kc hex_key =
     (case kc_hex_decode kc hex_key of
        Inl _ \<Rightarrow> Err (''bootstrap peer pubkey must be valid 64-char hex, got '' @ hex_key)
      | Inr bytes \<Rightarrow>
          ok_or (''bootstrap peer pubkey must be valid 64-char hex, got '' @ hex_key) (try_into bytes))"

definition p2p_new ::
    "io \<Rightarrow> ('sk, 'pk) key_codec \<Rightarrow> (hash \<Rightarrow> (string, 'pk) result) \<Rightarrow> 'sk \<Rightarrow> p2p_config \<Rightarrow> disk \<Rightarrow>
     (string, 'sk \<times> ('pk \<times> string) list \<times> 'pk admission_handle) result \<times> disk" where
  "p2p_new io kc load_pubkey fresh cfg =
     (case pc_key_path cfg of
        None \<Rightarrow> sthrow ''p2p key path is required; set key_path in config''
      | Some p \<Rightarrow>
          sbind (load_or_generate_key io kc fresh p) (\<lambda>signer.
          sbind (slift (ok_or ''ed25519 public key is 32 bytes'' (try_into (kc_encode_public kc (kc_public kc signer))))) (\<lambda>own.
          sbind (slift (collect_results (map (\<lambda>(hex_key, _). decode_bootstrap kc hex_key) (pc_bootstrap_peers cfg)))) (\<lambda>keys.
          sbind (slift (collect_results (map (\<lambda>(bytes, addr). and_then (load_pubkey bytes) (\<lambda>pk. Ok (pk, addr)))
                          (zip keys (map snd (pc_bootstrap_peers cfg)))))) (\<lambda>bootstrappers.
          sbind (slift (initial_tracked_set load_pubkey cfg own keys)) (\<lambda>initial_set.
            sreturn (signer, bootstrappers,
              \<lparr>ah_max_peers = pc_max_peers_per_set cfg,
               ah_oracle = (case initial_set of None \<Rightarrow> [] | Some s \<Rightarrow> [(0, s)]),
               ah_epoch = 0\<rparr>)))))))"

section \<open>Properties\<close>

lemma remdups_adj_sort: "remdups_adj (sort xs) = sorted_list_of_set (set (xs :: 'a::linorder list))"
  by (rule sorted_distinct_set_unique) (simp_all add: sorted_remdups_adj)

text \<open>
  the admission set is canonical. It is the ascending list of the distinct identities, cut to
  the bound; so it depends only on which identities the peer book names, not on their order or
  repetition, and two nodes with the same book and bound register the same set.
\<close>

lemma admission_set_canonical:
  "admission_set ps n = take n (sorted_list_of_set (set ps)) \<and>
   set (admission_set ps n) \<subseteq> set ps \<and> distinct (admission_set ps n) \<and> sorted (admission_set ps n) \<and>
   length (admission_set ps n) = min n (card (set ps))"
proof -
  have eq: "admission_set ps n = take n (sorted_list_of_set (set ps))"
    by (simp add: admission_set_def remdups_adj_sort)
  then show ?thesis
    using set_take_subset [of n "sorted_list_of_set (set ps)"]
    by (simp add: min.commute sorted_wrt_take)
qed

text \<open>
  Announcements round-trip. A received frame is decoded to an announcement exactly when it is the
  40-byte encoding of that announcement; anything else is dropped.
\<close>

theorem announce_roundtrip:
  "poll_next (Some buf) = Some a \<longleftrightarrow> buf = announce_encode a"
proof
  assume "poll_next (Some buf) = Some a"
  then have len: "length buf = 40" and dec: "announce_decode buf = Some a"
    by (auto simp: poll_next_def split: if_splits)
  then have "to_vec (an_digest a) = drop 8 buf" "an_height a = from_le_bytes (take 8 buf)"
    by (auto simp: announce_decode_def try_into_eq_Some bind_eq_Some_conv)
  with len show "buf = announce_encode a"
    by (simp add: announce_encode_def to_from_le_bytes)
next
  assume "buf = announce_encode a"
  then show "poll_next (Some buf) = Some a"
    by (simp add: poll_next_def announce_decode_def announce_encode_def)
qed

text \<open>
  a digest pins the header and the data of a block, and nothing else. As long as SHA-256 does not
  collide on the four strings involved, two messages have the same digest exactly when their
  headers and data agree; the signature does not enter, so a copy of a block with another or
  no signature has the digest of the original.
\<close>

lemma digest_pins_header_and_data:
  assumes "inj_on sha256 {data b, data b',
     to_vec (sha256 (data b)) @ signing_message (header b),
     to_vec (sha256 (data b')) @ signing_message (header b')}"
  shows "block_digest sha256 (BlockMessage b) = block_digest sha256 (BlockMessage b') \<longleftrightarrow>
     header b = header b' \<and> data b = data b'"
proof -
  have "block_digest sha256 (BlockMessage b) = block_digest sha256 (BlockMessage b') \<longleftrightarrow>
      to_vec (sha256 (data b)) @ signing_message (header b) = to_vec (sha256 (data b')) @ signing_message (header b')"
    unfolding block_digest_def block_message.case by (rule inj_on_eq_iff [OF assms]) simp_all
  also have "\<dots> \<longleftrightarrow> sha256 (data b) = sha256 (data b') \<and> header b = header b'"
    by (simp add: to_vec_eq_iff)
  also have "sha256 (data b) = sha256 (data b') \<longleftrightarrow> data b = data b'"
    by (rule inj_on_eq_iff [OF assms]) simp_all
  finally show ?thesis by auto
qed

definition toy_hash :: "byte list \<Rightarrow> hash" where
  "toy_hash bs = barr_fill (of_nat (length bs) + (case bs of [] \<Rightarrow> 0 | b # _ \<Rightarrow> b))"

definition toy_block :: "byte \<Rightarrow> sig_bytes option \<Rightarrow> block" where
  "toy_block x sig = \<lparr>header = \<lparr>height = 1, parent_hash = barr_fill 0, state_root = barr_fill 0, timestamp = 5\<rparr>,
     data = [x], signature = sig\<rparr>"

lemma replicate_32: "replicate 32 x = x # replicate 31 x"
  by (simp add: numeral_eq_Suc)

lemma digest_pins_header_and_data_witness:
  "block_digest toy_hash (BlockMessage (toy_block 1 None)) = block_digest toy_hash (BlockMessage (toy_block 1 (Some (barr_fill 7)))) \<and>
   block_digest toy_hash (BlockMessage (toy_block 1 None)) \<noteq> block_digest toy_hash (BlockMessage (toy_block 2 None))"
proof
  show "block_digest toy_hash (BlockMessage (toy_block 1 None)) = block_digest toy_hash (BlockMessage (toy_block 1 (Some (barr_fill 7))))"
    by (subst digest_pins_header_and_data) (simp_all add: toy_block_def toy_hash_def replicate_32 inj_on_def)
  show "block_digest toy_hash (BlockMessage (toy_block 1 None)) \<noteq> block_digest toy_hash (BlockMessage (toy_block 2 None))"
    by (subst digest_pins_header_and_data) (simp_all add: toy_block_def toy_hash_def replicate_32 inj_on_def)
qed

text \<open>What the hex and key codecs promise: encoding is 64 characters without surrounding white
  space, and both steps decode.\<close>

definition key_codec_ok :: "('sk, 'pk) key_codec \<Rightarrow> bool" where
  "key_codec_ok kc \<longleftrightarrow>
     (\<forall>k. kc_from_seed kc (kc_seed kc k) = Ok k) \<and>
     (\<forall>bs. kc_hex_decode kc (kc_hex_encode kc bs) = Ok bs) \<and>
     (\<forall>k. length (kc_hex_encode kc (kc_seed kc k)) = 64) \<and>
     (\<forall>bs. trim (kc_hex_encode kc bs) = kc_hex_encode kc bs)"

text \<open>A generated identity survives: once the key file is written, every later start that can read it
  has the same identity.\<close>

lemma generated_key_reads_back:
  assumes "key_codec_ok kc" "\<not> fs_exists p d" "load_or_generate_key io kc fresh p d = (Ok k, d')" "io (ops d') = None"
  shows "k = fresh \<and> fst (load_or_generate_key io kc other p d') = Ok fresh"
proof -
  have stored: "k = fresh \<and> files d' p = Some (Text (kc_hex_encode kc (kc_seed kc fresh)))"
    using assms(2,3)
    by (auto simp: load_or_generate_key_def sbind_def st_map_err_def fs_create_dir_all_def fs_write_def sreturn_def
        split: if_splits option.splits prod.splits sum.splits)
  then have "fs_exists p d'" by (simp add: fs_exists_def)
  with stored assms(1,4) show ?thesis
    by (simp add: load_or_generate_key_def read_key_def fs_read_to_string_def fs_read_def key_codec_ok_def)
qed

end
