(* ===== verification/Peers.thy ===== *)
theory Peers
  imports Contract
begin

text \<open>
  Registry-published committee peers (\<open>crates/sui/src/peers.rs\<close>): the versioned peer book, its
  decoder and reader, and the publish transaction.
\<close>

section \<open>Operations\<close>

record published_peer =
  pubkey :: hash
  addr :: string

record peer_book_snapshot =
  version :: u64
  peers :: "published_peer list"

definition PEER_KEY_BCS :: "byte list" where "PEER_KEY_BCS = []"

definition peer_book_field_id :: "rpc_env \<Rightarrow> address \<Rightarrow> address \<Rightarrow> address" where
  "peer_book_field_id env parent package =
     derive_dynamic_child_id env parent (TagStruct package ''settlement'' ''PeerKey'') PEER_KEY_BCS"

text \<open>The BCS mirrors \<open>EntryBcs\<close> and \<open>BookBcs\<close>.\<close>

record entry_bcs =
  eb_key :: "byte list"
  eb_value :: string

record book_bcs =
  bb_version :: u64
  bb_peers :: "entry_bcs list"

definition parse_entry :: "entry_bcs \<Rightarrow> (settlement_error, published_peer) result" where
  "parse_entry e =
     (case try_into (eb_key e) of
        None \<Rightarrow> Err (SParse (''peer identity must be 32 bytes, got '' @ show_nat (length (eb_key e))))
      | Some key \<Rightarrow> Ok \<lparr>pubkey = key, addr = eb_value e\<rparr>)"

definition parse_peer_book ::
    "(byte list \<Rightarrow> (string, book_bcs unit_field_bcs) result) \<Rightarrow> byte list \<Rightarrow>
     (settlement_error, peer_book_snapshot) result" where
  "parse_peer_book from_bytes bs =
     (case from_bytes bs of
        Inl e \<Rightarrow> Err (SParse (''peer book BCS: '' @ e))
      | Inr field \<Rightarrow>
          and_then (collect_results (map parse_entry (bb_peers (uf_value field)))) (\<lambda>ps.
            Ok \<lparr>version = bb_version (uf_value field), peers = ps\<rparr>))"

text \<open>\<open>PeerBookReader::snapshot\<close>.\<close>

definition peer_snapshot ::
    "rpc_env \<Rightarrow> (byte list \<Rightarrow> (string, book_bcs unit_field_bcs) result) \<Rightarrow> transport \<Rightarrow> address \<Rightarrow> address \<Rightarrow>
     nat \<Rightarrow> (inbox_error, peer_book_snapshot) result" where
  "peer_snapshot env from_bytes tr registry package n =
     (case t_object tr n (peer_book_field_id env registry package) of
        Inl (InboxNotFound _) \<Rightarrow> Ok \<lparr>version = 0, peers = []\<rparr>
      | Inl e \<Rightarrow> Err e
      | Inr bytes \<Rightarrow> map_err (\<lambda>e. InboxParse (settlement_error_display e)) (parse_peer_book from_bytes bytes))"

record peer_targets =
  pt_package :: address
  pt_registry :: address

definition submit_publish_peer ::
    "('key, 'tx, 'sg) tx_env \<Rightarrow> string \<Rightarrow> 'key \<Rightarrow> peer_targets \<Rightarrow> hash \<Rightarrow> byte list \<Rightarrow> (settlement_error, unit) result" where
  "submit_publish_peer te rpc_url key targets pk dial =
     submit_rotation_tx te rpc_url key ''publish peer''
       [\<lparr>mc_package = pt_package targets, mc_module = ''settlement'', mc_function = ''publish_peer'',
         mc_args = [ArgObject (pt_registry targets), ArgObject SUI_CLOCK_ID,
                    ArgBytes (to_vec pk), ArgBytes dial]\<rparr>]"

section \<open>Properties\<close>

lemma parse_entry_Ok:
  "parse_entry e = Ok p \<longleftrightarrow> eb_key e = to_vec (pubkey p) \<and> p = \<lparr>pubkey = pubkey p, addr = eb_value e\<rparr>"
  by (cases p) (auto simp: parse_entry_def try_into_eq_Some to_vec_eq_iff split: option.splits)

definition book_of :: "peer_book_snapshot \<Rightarrow> book_bcs" where
  "book_of s = \<lparr>bb_version = version s,
     bb_peers = map (\<lambda>p. \<lparr>eb_key = to_vec (pubkey p), eb_value = addr p\<rparr>) (peers s)\<rparr>"

lemma parse_entries_of:
  "collect_results (map parse_entry (map (\<lambda>p. \<lparr>eb_key = to_vec (pubkey p), eb_value = addr p\<rparr>) ps)) = Ok ps"
  by (induction ps) (auto simp: parse_entry_def)

text \<open>
  A published peer book is read back exactly, or the read fails; a partition never reads as an empty
  committee. Decoding the serialized book of any snapshot gives that snapshot, and a version-0
  empty book is only ever produced by an absent field or by a stored empty book.
\<close>

theorem peer_book_read_back:
  assumes canon: "bcs_codec to_bytes from_bytes"
    and served: "to_bytes \<lparr>uf_id = fid, uf_value = book_of s\<rparr> = Ok bs"
      "t_object tr n (peer_book_field_id env registry package) = Ok bs"
  shows "peer_snapshot env from_bytes tr registry package n = Ok s \<and>
    (\<forall>m. peer_snapshot env from_bytes tr registry package m = Ok \<lparr>version = 0, peers = []\<rparr> \<longrightarrow>
       (\<exists>e. t_object tr m (peer_book_field_id env registry package) = Err (InboxNotFound e)) \<or>
       (\<exists>bs i. t_object tr m (peer_book_field_id env registry package) = Ok bs \<and>
          to_bytes \<lparr>uf_id = i, uf_value = book_of \<lparr>version = 0, peers = []\<rparr>\<rparr> = Ok bs))"
proof
  have "from_bytes bs = Ok \<lparr>uf_id = fid, uf_value = book_of s\<rparr>"
    using served(1) by (simp add: bcs_codec.canonical [OF canon])
  then show "peer_snapshot env from_bytes tr registry package n = Ok s"
    using served(2) parse_entries_of [of "peers s"]
    by (simp add: peer_snapshot_def parse_peer_book_def book_of_def)
next
  have "\<exists>i. to_bytes \<lparr>uf_id = i, uf_value = book_of \<lparr>version = 0, peers = []\<rparr>\<rparr> = Ok bs"
    if "parse_peer_book from_bytes bs = Ok \<lparr>version = 0, peers = []\<rparr>" for bs
  proof -
    from that obtain f where f: "from_bytes bs = Ok f" "bb_version (uf_value f) = 0" "bb_peers (uf_value f) = []"
      by (auto simp: parse_peer_book_def and_then_eq_Inr collect_results_eq_Inr split: sum.splits)
    then have "f = \<lparr>uf_id = uf_id f, uf_value = book_of \<lparr>version = 0, peers = []\<rparr>\<rparr>"
      by (cases f) (simp add: book_of_def)
    with f(1) show ?thesis using bcs_codec.canonical [OF canon] by metis
  qed
  then show "\<forall>m. peer_snapshot env from_bytes tr registry package m = Ok \<lparr>version = 0, peers = []\<rparr> \<longrightarrow>
       (\<exists>e. t_object tr m (peer_book_field_id env registry package) = Err (InboxNotFound e)) \<or>
       (\<exists>bs i. t_object tr m (peer_book_field_id env registry package) = Ok bs \<and>
          to_bytes \<lparr>uf_id = i, uf_value = book_of \<lparr>version = 0, peers = []\<rparr>\<rparr> = Ok bs)"
    by (auto simp: peer_snapshot_def split: sum.splits inbox_error.splits)
qed

text \<open>Reference codec of the book.\<close>

definition c_entry :: "entry_bcs codec" where
  "c_entry = c_iso (\<lambda>(k, v). \<lparr>eb_key = k, eb_value = v\<rparr>) (\<lambda>e. (eb_key e, eb_value e)) (c_pair c_bytes c_string)"

definition c_book_field :: "book_bcs unit_field_bcs codec" where
  "c_book_field = c_unit_field (c_iso (\<lambda>(v, ps). \<lparr>bb_version = v, bb_peers = ps\<rparr>)
     (\<lambda>b. (bb_version b, bb_peers b)) (c_pair c_u64 (c_list c_entry)))"

lemma codec_ok_entry [codec_oks]: "codec_ok c_entry"
  unfolding c_entry_def by (rule codec_ok_iso) (auto intro!: codec_oks)

lemma codec_ok_book_field [codec_oks]: "codec_ok c_book_field"
  unfolding c_book_field_def
  by (rule codec_ok_unit_field, rule codec_ok_iso) (auto intro!: codec_oks)

interpretation book_field: bcs_codec "bcs_to_bytes c_book_field" "bcs_from_bytes c_book_field"
  by (intro bcs_codec_ref codec_oks)


definition sample_book :: peer_book_snapshot where
  "sample_book = \<lparr>version = 4, peers = [\<lparr>pubkey = barr_fill 3, addr = ''h:1''\<rparr>]\<rparr>"

definition sample_book_transport :: transport where
  "sample_book_transport = \<lparr>t_object = (\<lambda>_ _. map_err InboxParse (bcs_to_bytes c_book_field
      \<lparr>uf_id = barr_fill 9, uf_value = book_of sample_book\<rparr>)), t_field = (\<lambda>_ _ _. Ok None)\<rparr>"

theorem peer_book_read_back_witness:
  "peer_snapshot \<lparr>rpc_new = (\<lambda>_. Ok ()), get_object = (\<lambda>_ _. Ok None),
       derive_dynamic_child_id = (\<lambda>_ _ _. barr_fill 9)\<rparr>
     (bcs_from_bytes c_book_field) sample_book_transport (barr_fill 1) (barr_fill 2) 0 = Ok sample_book"
proof -
  obtain bs where bs: "bcs_to_bytes c_book_field \<lparr>uf_id = barr_fill 9, uf_value = book_of sample_book\<rparr> = Ok bs"
    by (simp add: bcs_to_bytes_def c_book_field_def c_unit_field_def c_entry_def c_string_def codec_simps
        book_of_def sample_book_def)
  show ?thesis
    using peer_book_read_back [OF book_field.bcs_codec_axioms, where fid = "barr_fill 9" and
      s = sample_book and bs = bs and tr = sample_book_transport] bs
    by (simp add: sample_book_transport_def)
qed

end
