(* ===== verification/Full_Node.thy ===== *)
theory Full_Node
  imports Engine P2p Peers Wire Deadline Stores
begin

text \<open>
  The full node (\<open>crates/node/src/full_node.rs\<close>): resuming from storage, the sync loop that follows
  the settlement registry through the data availability layer, optimistic blocks over p2p, the
  halt gate in front of both, and committee admission. The node state extends the engine client
  state, so the engine calls apply to it directly.
\<close>

section \<open>Port and state\<close>

text \<open>What waiting for a block of the broadcast cache comes to: the block, a closed mailbox, or no
  answer at all.\<close>

datatype subscription = Arrived block | MailboxClosed | NeverArrives

text \<open>\<open>np_rpc\<close> and \<open>np_get\<close> hand out the answers of Sui and of the Walrus aggregator to the next
  read, and the world after it; \<open>np_monitor\<close> the deadline monitor and the number of its next
  read.\<close>

record ('w, 'pk) node_port =
  np_engine :: "'w engine_port"
  np_rpc :: "'w \<Rightarrow> rpc_env \<times> 'w"
  np_get :: "'w \<Rightarrow> http_get \<times> 'w"
  np_monitor :: "('w \<Rightarrow> (monitor \<times> nat) \<times> 'w) option"
  np_announce :: "('w \<Rightarrow> byte list option \<times> 'w) option"
  np_subscribe :: "hash \<Rightarrow> 'w \<Rightarrow> subscription \<times> 'w"
  np_pubkey :: "'pk option"
  np_verify :: "'pk \<Rightarrow> byte list \<Rightarrow> sig_bytes \<Rightarrow> (string, unit) result"
  np_parse_address :: "string \<Rightarrow> (string, address) result"
  np_dec_registry :: "byte list \<Rightarrow> (string, registry_bcs) result"
  np_dec_field :: "byte list \<Rightarrow> (string, byte list field_bcs) result"
  np_dec_batch :: "byte list \<Rightarrow> (string, wire_block list) result"
  np_dec_payload :: "byte list \<Rightarrow> (string, payload) result"
  np_dec_monitor :: monitor_decoders
  np_b64url_encode :: "byte list \<Rightarrow> string"
  np_walrus :: walrus_config
  np_rpc_url :: string
  np_registry_id :: string
  np_show_hash :: "hash \<Rightarrow> string"
  np_parse_hash :: "string \<Rightarrow> (string, hash) result"
  np_io :: io
  np_state_json :: "chain_state json"
  np_dir :: path

record 'w full_node = "'w eng_state" +
  fn_synced_height :: u64
  fn_head :: hash
  fn_head_height :: u64
  fn_safe :: hash
  fn_finalized :: hash
  fn_persisted :: "(hash \<times> hash \<times> hash) option"
  fn_table_uid :: "address option"
  fn_halt :: "deadline_status option"
  fn_disk :: disk

definition with_rpc ::
    "('w, 'pk) node_port \<Rightarrow> (rpc_env \<Rightarrow> 'a) \<Rightarrow> 'w full_node \<Rightarrow> 'a \<times> 'w full_node" where
  "with_rpc p f s = (case np_rpc p (es_world s) of (env, w) \<Rightarrow> (f env, s\<lparr>es_world := w\<rparr>))"

section \<open>Construction and start\<close>

text \<open>The checks of \<open>FullNode::new\<close>; \<open>parse_pubkey\<close> parses and prepares the verifying key.\<close>

definition check_config ::
    "(string \<Rightarrow> (string, 'pk) result) \<Rightarrow> string option \<Rightarrow> string option \<Rightarrow> (string, 'pk \<times> string) result" where
  "check_config parse_pubkey sequencer_pubkey registry_id =
     and_then (ok_or (''sequencer_pubkey is required in full node mode (set signer.sequencer_pubkey to the sequencer'' @
                 [CHR 0x27] @ ''s ed25519 public key)'') sequencer_pubkey) (\<lambda>pubkey_hex.
     and_then (map_err (\<lambda>_. ''invalid sequencer_pubkey: '' @ pubkey_hex) (parse_pubkey pubkey_hex)) (\<lambda>pk.
     and_then (ok_or ''sui.registry_id is required in full node mode (the shared Registry object ID)''
                (case registry_id of Some r \<Rightarrow> if trim r \<noteq> [] then Some r else None | None \<Rightarrow> None)) (\<lambda>r.
       Ok (pk, r))))"

definition parse_forkchoice ::
    "(string \<Rightarrow> (string, hash) result) \<Rightarrow> chain_state \<Rightarrow> (hash \<times> hash \<times> hash) option" where
  "parse_forkchoice parse_hash st =
     (let parse = (\<lambda>s. let t = trim s in
            if t = [] then None
            else (case parse_hash t of Inl _ \<Rightarrow> None | Inr h \<Rightarrow> Some h)) in
      Option.bind (parse (cs_head st)) (\<lambda>a.
      Option.bind (parse (cs_safe st)) (\<lambda>b.
      Option.bind (parse (cs_finalized st)) (\<lambda>c. Some (a, b, c)))))"

text \<open>Resuming from storage: an absent and an unreadable state file both start from zero.\<close>

definition full_node_new :: "('w, 'pk) node_port \<Rightarrow> u64 \<Rightarrow> 'w \<Rightarrow> disk \<Rightarrow> 'w full_node" where
  "full_node_new p next_id w d =
     (case state_load (np_io p) (np_state_json p) (np_dir p) d of
        (r, d') \<Rightarrow>
          (let (synced, fc) = (case r of
                 Inr (Some st) \<Rightarrow> (cs_height st, parse_forkchoice (np_parse_hash p) st)
               | _ \<Rightarrow> (0, None))
           in \<lparr>es_next_id = next_id, es_world = w, fn_synced_height = synced, fn_head = barr_fill 0,
               fn_head_height = synced, fn_safe = barr_fill 0, fn_finalized = barr_fill 0,
               fn_persisted = fc, fn_table_uid = None, fn_halt = None, fn_disk = d'\<rparr>))"

text \<open>The start of \<open>run\<close>; the first number bounds the head discovery attempts.\<close>

definition full_node_start ::
    "('w, 'pk) node_port \<Rightarrow> nat \<Rightarrow> 'w full_node \<Rightarrow> ((string, unit) result \<times> 'w full_node) option" where
  "full_node_start p fuel s =
     (case fn_persisted s of
        Some (hd_hash, safe, finalized) \<Rightarrow>
          Some (Ok (), s\<lparr>fn_persisted := None, fn_head := hd_hash, fn_head_height := fn_synced_height s,
                         fn_safe := safe, fn_finalized := finalized\<rparr>)
      | None \<Rightarrow>
          (case current_head (np_engine p) fuel s of
             None \<Rightarrow> None
           | Some (Inl _, s1) \<Rightarrow> Some (Err ''discovering chain head'', s1)
           | Some (Inr h, s1) \<Rightarrow>
               (case block_number (np_engine p) (s1\<lparr>fn_head := h\<rparr>) of
                  (Inl _, s2) \<Rightarrow> Some (Err ''querying head height from Reth'', s2)
                | (Inr n, s2) \<Rightarrow>
                    Some (Ok (), s2\<lparr>fn_head_height := n, fn_safe := h, fn_finalized := h, fn_synced_height := n\<rparr>))))"

section \<open>Applying and finalizing blocks\<close>

definition verify_signature :: "('w, 'pk) node_port \<Rightarrow> block \<Rightarrow> (string, unit) result" where
  "verify_signature p b =
     (case np_pubkey p of
        None \<Rightarrow> Err ''cannot verify blocks: no sequencer public key configured''
      | Some pk \<Rightarrow> map_err core_error_display (verify_block_signature (np_verify p) b pk))"

definition node_forkchoice :: "'w full_node \<Rightarrow> forkchoice" where
  "node_forkchoice s = \<lparr>fc_head = fn_head s, fc_safe = fn_safe s, fc_finalized = fn_finalized s\<rparr>"

definition apply_block ::
    "('w, 'pk) node_port \<Rightarrow> block \<Rightarrow> 'w full_node \<Rightarrow> (string, unit) result \<times> 'w full_node" where
  "apply_block p b =
     sbind (slift (map_err (\<lambda>_. ''decoding execution payload'') (np_dec_payload p (data b)))) (\<lambda>pl.
     sbind (st_map_err (\<lambda>_. ''submitting block to Reth via engine_newPayloadV4'')
              (new_payload_v4 (np_engine p) pl [] PARENT_BEACON_BLOCK_ROOT)) (\<lambda>_ s.
       let s1 = s\<lparr>fn_head := pl_block_hash pl, fn_head_height := height (header b)\<rparr> in
       sbind (st_map_err (\<lambda>_. ''advancing forkchoice via engine_forkchoiceUpdatedV3'')
                (fork_choice_updated_v3 (np_engine p) (node_forkchoice s1) None)) (\<lambda>_. sreturn ()) s1))"

definition saved_state :: "('w, 'pk) node_port \<Rightarrow> u64 \<Rightarrow> 'w full_node \<Rightarrow> chain_state" where
  "saved_state p ts s =
     \<lparr>cs_head = np_show_hash p (fn_head s), cs_safe = np_show_hash p (fn_safe s),
      cs_finalized = np_show_hash p (fn_finalized s), cs_height = fn_synced_height s, cs_timestamp = ts\<rparr>"

definition save_cursor :: "('w, 'pk) node_port \<Rightarrow> u64 \<Rightarrow> 'w full_node \<Rightarrow> 'w full_node" where
  "save_cursor p ts s =
     s\<lparr>fn_disk := snd (state_save (np_io p) (np_state_json p) (np_dir p) (saved_state p ts s) (fn_disk s))\<rparr>"

definition mark_finalized ::
    "('w, 'pk) node_port \<Rightarrow> block \<Rightarrow> 'w full_node \<Rightarrow> (string, unit) result \<times> 'w full_node" where
  "mark_finalized p b =
     sbind (slift (map_err (\<lambda>_. ''decoding execution payload'') (np_dec_payload p (data b)))) (\<lambda>pl s.
       let s1 = s\<lparr>fn_safe := pl_block_hash pl, fn_finalized := pl_block_hash pl,
                  fn_synced_height := height (header b)\<rparr> in
       sbind (st_map_err (\<lambda>_. ''advancing finalized via engine_forkchoiceUpdatedV3'')
                (fork_choice_updated_v3 (np_engine p) (node_forkchoice s1) None)) (\<lambda>_ s2.
         (Ok (), save_cursor p (timestamp (header b)) s2)) s1)"

definition apply_and_finalize ::
    "('w, 'pk) node_port \<Rightarrow> block \<Rightarrow> 'w full_node \<Rightarrow> (string, unit) result \<times> 'w full_node" where
  "apply_and_finalize p b =
     sbind (slift (map_err (\<lambda>_. ''decoding execution payload'') (np_dec_payload p (data b)))) (\<lambda>pl s.
     sbind (if fn_head_height s \<ge> height (header b) then
              sbind (st_map_err (\<lambda>_. ''querying Reth block for DA verification'')
                       (block_by_number (np_engine p) (height (header b)))) (\<lambda>found.
                sreturn (found = Some (pl_block_hash pl)))
            else sreturn False) (\<lambda>already_applied.
     sbind (if already_applied then sreturn () else apply_block p b) (\<lambda>_.
       mark_finalized p b)) s)"

section \<open>Following the registry\<close>

definition height_range :: "u64 \<Rightarrow> u64 \<Rightarrow> u64 list" where
  "height_range synced latest = map of_nat [Suc (unat synced)..<Suc (unat latest)]"

definition node_fetch ::
    "('w, 'pk) node_port \<Rightarrow> blob_id \<Rightarrow> 'w full_node \<Rightarrow> (string, block list) result \<times> 'w full_node" where
  "node_fetch p blob s =
     (case np_get p (es_world s) of (get, w) \<Rightarrow>
        (map_err core_error_display (fetch (np_dec_batch p) get (np_b64url_encode p) (np_walrus p) blob),
         s\<lparr>es_world := w\<rparr>))"

definition fetch_cached ::
    "('w, 'pk) node_port \<Rightarrow> (blob_id \<times> block list) option \<Rightarrow> blob_id \<Rightarrow> 'w full_node \<Rightarrow>
     (string, block list) result \<times> 'w full_node" where
  "fetch_cached p cached blob =
     (case cached of
        Some (i, blocks) \<Rightarrow> if i = blob then sreturn blocks else node_fetch p blob
      | None \<Rightarrow> node_fetch p blob)"

fun sync_heights ::
    "('w, 'pk) node_port \<Rightarrow> address \<Rightarrow> (blob_id \<times> block list) option \<Rightarrow> u64 list \<Rightarrow>
     'w full_node \<Rightarrow> (string, unit) result \<times> 'w full_node" where
  "sync_heights p tbl cached [] s = (Ok (), s)"
| "sync_heights p tbl cached (h # hs) s =
     sbind (st_map_err (\<lambda>_. ''reading settlement for height '' @ show_u64 h)
              (with_rpc p (\<lambda>env. commitment_at env (np_dec_field p) 0 (np_rpc_url p) tbl h))) (\<lambda>found.
     sbind (slift (ok_or (''height '' @ show_u64 h @ '' not settled'') found)) (\<lambda>blob.
     sbind (fetch_cached p cached blob) (\<lambda>blocks.
     sbind (slift (ok_or (''height '' @ show_u64 h @ '' not found in DA batch'')
                     (find (\<lambda>b. height (header b) = h) blocks))) (\<lambda>b.
     sbind (slift (verify_signature p b)) (\<lambda>_.
     sbind (apply_and_finalize p b) (\<lambda>_.
       sync_heights p tbl (Some (blob, blocks)) hs)))))) s"

definition cached_table_uid ::
    "('w, 'pk) node_port \<Rightarrow> 'w full_node \<Rightarrow> (string, address) result \<times> 'w full_node" where
  "cached_table_uid p s =
     (case fn_table_uid s of
        Some uid \<Rightarrow> (Ok uid, s)
      | None \<Rightarrow>
          (case with_rpc p (\<lambda>env. table_uid env (np_parse_address p) (np_dec_registry p) 0 (np_rpc_url p) (np_registry_id p)) s of
             (Inl _, s1) \<Rightarrow> (Err ''reading commitments table UID from registry'', s1)
           | (Inr uid, s1) \<Rightarrow> (Ok uid, s1\<lparr>fn_table_uid := Some uid\<rparr>)))"

definition sync_from_settlement ::
    "('w, 'pk) node_port \<Rightarrow> 'w full_node \<Rightarrow> (string, unit) result \<times> 'w full_node" where
  "sync_from_settlement p =
     sbind (st_map_err settlement_error_display
              (with_rpc p (\<lambda>env. latest_height env (np_parse_address p) 0 (np_rpc_url p) (np_registry_id p)))) (\<lambda>latest s.
       if latest \<le> fn_synced_height s then (Ok (), s)
       else sbind (cached_table_uid p) (\<lambda>tbl.
              sync_heights p tbl None (height_range (fn_synced_height s) latest)) s)"

section \<open>Optimistic blocks over p2p\<close>

text \<open>\<open>poll_p2p\<close>; \<open>None\<close> when the wait for the announced block never ends.\<close>

definition poll_p2p ::
    "('w, 'pk) node_port \<Rightarrow> 'w full_node \<Rightarrow> ((string, unit) result \<times> 'w full_node) option" where
  "poll_p2p p s =
     (case np_announce p of
        None \<Rightarrow> Some (Ok (), s)
      | Some arrive \<Rightarrow>
          (case arrive (es_world s) of (frame, w) \<Rightarrow>
             (let s1 = s\<lparr>es_world := w\<rparr> in
              case poll_next frame of
                None \<Rightarrow> Some (Ok (), s1)
              | Some a \<Rightarrow>
                  if an_height a \<le> fn_synced_height s1 then Some (Ok (), s1)
                  else
                    (case np_subscribe p (an_digest a) (es_world s1) of
                       (NeverArrives, _) \<Rightarrow> None
                     | (MailboxClosed, w') \<Rightarrow> Some (Ok (), s1\<lparr>es_world := w'\<rparr>)
                     | (Arrived b, w') \<Rightarrow>
                         Some (sbind (slift (verify_signature p b)) (\<lambda>_. apply_block p b) (s1\<lparr>es_world := w'\<rparr>))))))"

section \<open>The halt gate and the loop\<close>

definition gate_update ::
    "(deadline_error, deadline_status) result \<Rightarrow> deadline_status option \<Rightarrow> bool \<times> deadline_status option" where
  "gate_update read seen =
     (case read of
        Inr status \<Rightarrow> if is_halted status then (True, Some status) else (False, None)
      | Inl _ \<Rightarrow> (False, seen))"

definition check_halt :: "('w, 'pk) node_port \<Rightarrow> 'w full_node \<Rightarrow> bool \<times> 'w full_node" where
  "check_halt p s =
     (case np_monitor p of
        None \<Rightarrow> (False, s)
      | Some mon \<Rightarrow>
          (case mon (es_world s) of ((m, n), w) \<Rightarrow>
             (case gate_update (monitor_status (np_dec_monitor p) m n) (fn_halt s) of
                (paused, seen) \<Rightarrow> (paused, s\<lparr>es_world := w, fn_halt := seen\<rparr>))))"

text \<open>One tick of the loop; sync and poll errors are logged and dropped.\<close>

definition full_node_tick :: "('w, 'pk) node_port \<Rightarrow> 'w full_node \<Rightarrow> 'w full_node option" where
  "full_node_tick p s =
     (case check_halt p s of
        (paused, s1) \<Rightarrow>
          if paused then Some s1
          else map_option snd (poll_p2p p (snd (sync_from_settlement p s1))))"

section \<open>Committee admission\<close>

definition build_deadline_monitor ::
    "rpc_env \<Rightarrow> (string \<Rightarrow> address option) \<Rightarrow> string \<Rightarrow> string option \<Rightarrow> monitor option" where
  "build_deadline_monitor env from_str rpc_url inbox_id =
     (let i = trim (case inbox_id of Some t \<Rightarrow> t | None \<Rightarrow> []) in
      if i = [] then None
      else (case monitor_from_config env from_str rpc_url i DEFAULT_MARGIN_MS of
              Inl _ \<Rightarrow> None | Inr m \<Rightarrow> Some m))"

definition poll_admission ::
    "(hash \<Rightarrow> (string, 'k) result) \<Rightarrow> (inbox_error, peer_book_snapshot) result \<Rightarrow> u64 option \<Rightarrow> 'k admission_handle \<Rightarrow>
     (inbox_error, u64) result \<times> u64 option \<times> 'k admission_handle" where
  "poll_admission load_pubkey snapshot applied h =
     (case snapshot of
        Inl e \<Rightarrow> (Err e, applied, h)
      | Inr sn \<Rightarrow>
          if applied \<noteq> Some (version sn) then
            (Ok (version sn), Some (version sn), admit load_pubkey (version sn) (map pubkey (peers sn)) h)
          else (Ok (version sn), applied, h))"

definition configured_id :: "(string \<Rightarrow> (string, address) result) \<Rightarrow> string option \<Rightarrow> string \<Rightarrow> address option" where
  "configured_id parse raw label =
     (case raw of
        None \<Rightarrow> None
      | Some s \<Rightarrow> if trim s = [] then None
                  else (case parse_address parse s label of Inl _ \<Rightarrow> None | Inr a \<Rightarrow> Some a))"

text \<open>\<open>build_admission\<close>: the reader's registry and package, when admission is on.\<close>

definition build_admission ::
    "(string \<Rightarrow> (string, address) result) \<Rightarrow> string option \<Rightarrow> string option \<Rightarrow> 'k admission_handle option \<Rightarrow>
     ('k admission_handle \<times> address \<times> address) option" where
  "build_admission parse registry_id package_id handle =
     (case (handle, configured_id parse registry_id ''sui.registry_id'',
            configured_id parse package_id ''sui.settlement_package_id'') of
        (Some h, Some r, Some pkg) \<Rightarrow> Some (h, r, pkg)
      | _ \<Rightarrow> None)"

end
