(* ===== verification/Inbox_Tracker.thy ===== *)
theory Inbox_Tracker
  imports Settlement Deadline Stores
begin

text \<open>
  The sequencer-side force-inclusion integration (\<open>crates/node/src/inbox.rs\<close>): the tracker that
  follows inbox nonces from the chain to their inclusion in a block, the settlement gate and
  the cursor it contributes to a settle.
\<close>

section \<open>Tracker\<close>

definition INCLUSION_WINDOW_MS :: u64 where "INCLUSION_WINDOW_MS = DEFAULT_WINDOW_MS"

definition deadline_blocks_for :: "u64 \<Rightarrow> u64 \<Rightarrow> u64" where
  "deadline_blocks_for window_ms block_time_ms = div_ceil window_ms (max block_time_ms 1)"

datatype tracker_error =
    TTransport inbox_error
  | TStore store_error
  | TCorrupt string

fun tracker_error_display :: "tracker_error \<Rightarrow> string" where
  "tracker_error_display (TTransport e) = ''inbox transport: '' @ inbox_error_display e"
| "tracker_error_display (TStore e) = ''inbox store: '' @ store_error_display e"
| "tracker_error_display (TCorrupt e) = ''corrupt inbox record: '' @ e"

datatype halt_check = GateClear | GateHalt u64 u64 u64

record tracked_submission =
  ts_nonce :: u64
  ts_tx_bytes :: "byte list"
  ts_tx_hash :: hash
  ts_deadline_ms :: u64
  ts_deadline_height :: u64
  ts_first_seen_height :: u64

text \<open>The configuration of a tracker. Hashing and hex come from \<open>alloy\<close> and \<open>hex\<close>.\<close>

record tracker =
  tk_transport :: transport
  tk_inbox_id :: address
  tk_dir :: path
  tk_json :: "nonces json"
  tk_block_time_ms :: u64
  tk_window_package :: "address option"
  tk_decoders :: monitor_decoders
  tk_rpc :: rpc_env
  tk_io :: io
  tk_keccak256 :: "byte list \<Rightarrow> hash"
  tk_show_hash :: "hash \<Rightarrow> string"
  tk_hex_encode :: "byte list \<Rightarrow> string"
  tk_hex_decode :: "string \<Rightarrow> (string, byte list) result"

definition tk_snapshot :: "tracker \<Rightarrow> disk \<Rightarrow> (tracker_error, nonces) result \<times> disk" where
  "tk_snapshot tk = st_map_err TStore (inbox_snapshot (tk_io tk) (tk_json tk) (tk_dir tk))"

text \<open>\<open>refresh_window\<close>: the new block budget, the previous one on any read error. Its reads are
  \<open>n\<close> (clock), \<open>n + 1\<close> and \<open>n + 2\<close> (window fields).\<close>

definition refresh_window :: "tracker \<Rightarrow> nat \<Rightarrow> u64 \<Rightarrow> u64" where
  "refresh_window tk n previous =
     (case tk_window_package tk of
        None \<Rightarrow> previous
      | Some package \<Rightarrow>
          (case t_object (tk_transport tk) n SUI_CLOCK_ID of
             Inl _ \<Rightarrow> previous
           | Inr bytes \<Rightarrow>
               (case parse_clock (md_clock (tk_decoders tk)) bytes of
                  Inl _ \<Rightarrow> previous
                | Inr now_ms \<Rightarrow>
                    (case reader_window (tk_rpc tk) (md_inbox (tk_decoders tk)) (tk_transport tk) (tk_inbox_id tk)
                            (n + 1) package now_ms of
                       Inl _ \<Rightarrow> previous
                     | Inr view \<Rightarrow> deadline_blocks_for (effective_ms view) (tk_block_time_ms tk)))))"

definition nonce_range :: "u64 \<Rightarrow> u64 \<Rightarrow> u64 list" where
  "nonce_range a b = map of_nat [unat a..<unat b]"

fun sync_loop ::
    "tracker \<Rightarrow> nonces \<Rightarrow> address \<Rightarrow> u64 \<Rightarrow> u64 \<Rightarrow> nat \<Rightarrow> u64 list \<Rightarrow> disk \<Rightarrow>
     (tracker_error, tracked_submission list) result \<times> disk" where
  "sync_loop tk tracked tbl at_height dl n [] d = (Ok [], d)"
| "sync_loop tk tracked tbl at_height dl n (nonce # rest) d =
     (if map_of tracked nonce \<noteq> None then sync_loop tk tracked tbl at_height dl n rest d
      else case t_field (tk_transport tk) n tbl nonce of
        Inl e \<Rightarrow> (Err (TTransport e), d)
      | Inr None \<Rightarrow> sync_loop tk tracked tbl at_height dl (n + 1) rest d
      | Inr (Some entry) \<Rightarrow>
          (case parse_pending_tx (dec_pending (md_inbox (tk_decoders tk))) entry of
             Inl e \<Rightarrow> (Err (TTransport e), d)
           | Inr pending \<Rightarrow>
               (let txh = tk_keccak256 tk (tx_bytes pending) in
                sbind (st_map_err TStore (record_submitted (tk_io tk) (tk_json tk) (tk_dir tk) nonce dl
                         (deadline_ms pending) at_height (tk_show_hash tk txh) (tk_hex_encode tk (tx_bytes pending)))) (\<lambda>_.
                sbind (sync_loop tk tracked tbl at_height dl (n + 1) rest) (\<lambda>fresh.
                  sreturn (\<lparr>ts_nonce = nonce, ts_tx_bytes = tx_bytes pending, ts_tx_hash = txh,
                            ts_deadline_ms = deadline_ms pending, ts_deadline_height = dl,
                            ts_first_seen_height = at_height\<rparr> # fresh))) d)))"

text \<open>\<open>sync\<close> returns the result, the new block budget and the disk.\<close>

definition tracker_sync ::
    "tracker \<Rightarrow> nat \<Rightarrow> u64 \<Rightarrow> u64 \<Rightarrow> disk \<Rightarrow>
     (tracker_error, tracked_submission list) result \<times> u64 \<times> disk" where
  "tracker_sync tk n at_height budget d =
     (case and_then (t_object (tk_transport tk) n (tk_inbox_id tk))
             (parse_inbox_status (dec_inbox (md_inbox (tk_decoders tk)))) of
        Inl e \<Rightarrow> (Err (TTransport e), budget, d)
      | Inr status \<Rightarrow>
          (let budget' = refresh_window tk (n + 1) budget in
           case tk_snapshot tk d of
             (Inl e, d') \<Rightarrow> (Err e, budget', d')
           | (Inr tracked, d') \<Rightarrow>
               (case sync_loop tk tracked (pending_table_uid status) at_height
                       (saturating_add at_height budget') (n + 4)
                       (nonce_range (included_count status) (next_nonce status)) d' of
                  (r, d'') \<Rightarrow> (r, budget', d''))))"

definition decode_tx_bytes :: "tracker \<Rightarrow> string \<Rightarrow> (tracker_error, byte list) result" where
  "decode_tx_bytes tk hex =
     map_err (\<lambda>e. TCorrupt (''invalid hex tx payload: '' @ e)) (tk_hex_decode tk (trim_start_0x hex))"

definition parse_tx_hash :: "tracker \<Rightarrow> string \<Rightarrow> (tracker_error, hash) result" where
  "parse_tx_hash tk hex =
     and_then (decode_tx_bytes tk hex) (\<lambda>bytes.
       if length bytes \<noteq> 32 then
         Err (TCorrupt (''tx hash must be 32 bytes, got '' @ show_nat (length bytes) @ '': '' @ hex))
       else Ok (Abs_barray bytes))"

fun observe_loop ::
    "tracker \<Rightarrow> u64 \<Rightarrow> hash list \<Rightarrow> nonces \<Rightarrow> disk \<Rightarrow> (tracker_error, u64 list) result \<times> disk" where
  "observe_loop tk ht hashes [] d = (Ok [], d)"
| "observe_loop tk ht hashes ((nonce, r) # rest) d =
     (case parse_tx_hash tk (nr_tx_hash r) of
        Inl e \<Rightarrow> (Err e, d)
      | Inr txh \<Rightarrow>
          if txh \<notin> set hashes then observe_loop tk ht hashes rest d
          else
            sbind (st_map_err TStore (mark_included (tk_io tk) (tk_json tk) (tk_dir tk) nonce ht)) (\<lambda>_.
            sbind (observe_loop tk ht hashes rest) (\<lambda>marked.
              sreturn (if is_submitted r then nonce # marked else marked))) d)"

definition observe_transactions ::
    "tracker \<Rightarrow> u64 \<Rightarrow> byte list list \<Rightarrow> disk \<Rightarrow> (tracker_error, u64 list) result \<times> disk" where
  "observe_transactions tk ht raw_txs =
     sbind (tk_snapshot tk) (observe_loop tk ht (map (tk_keccak256 tk) raw_txs))"

definition observe_inclusion :: "tracker \<Rightarrow> u64 \<Rightarrow> u64 \<Rightarrow> disk \<Rightarrow> (tracker_error, unit) result \<times> disk" where
  "observe_inclusion tk nonce ht =
     sbind (st_map_err TStore (inbox_get (tk_io tk) (tk_json tk) (tk_dir tk) nonce)) (\<lambda>r.
       case r of
         Some (Included existing _) \<Rightarrow>
           if existing = ht then sreturn ()
           else sthrow (TStore (Conflict (''inbox nonce '' @ show_u64 nonce @ '' already included at height '' @
                  show_u64 existing @ '', refusing second inclusion at height '' @ show_u64 ht)))
       | Some (Submitted _ _ _ _ _) \<Rightarrow>
           st_map_err TStore (mark_included (tk_io tk) (tk_json tk) (tk_dir tk) nonce ht)
       | None \<Rightarrow> sthrow (TCorrupt (''cannot mark untracked inbox nonce '' @ show_u64 nonce @ '' included'')))"

definition submission_of :: "tracker \<Rightarrow> u64 \<times> nonce_record \<Rightarrow> (tracker_error, tracked_submission) result" where
  "submission_of tk e =
     (case e of
        (nonce, Submitted dlh dlm first txh txb) \<Rightarrow>
          and_then (parse_tx_hash tk txh) (\<lambda>h.
          and_then (decode_tx_bytes tk txb) (\<lambda>bytes.
            Ok \<lparr>ts_nonce = nonce, ts_tx_bytes = bytes, ts_tx_hash = h, ts_deadline_ms = dlm,
                ts_deadline_height = dlh, ts_first_seen_height = first\<rparr>))
      | (nonce, Included ht txh) \<Rightarrow>
          Err (TCorrupt (''submitted() returned a Included { height: '' @ show_u64 ht @ '', tx_hash: '' @
                 [CHR 0x22] @ txh @ [CHR 0x22] @ '' } record for nonce '' @ show_u64 nonce)))"

definition pending_submissions :: "tracker \<Rightarrow> disk \<Rightarrow> (tracker_error, tracked_submission list) result \<times> disk" where
  "pending_submissions tk =
     sbind (st_map_err TStore (inbox_submitted (tk_io tk) (tk_json tk) (tk_dir tk))) (\<lambda>ns.
       slift (collect_results (map (submission_of tk) ns)))"

definition settle_cursor :: "tracker \<Rightarrow> disk \<Rightarrow> (tracker_error, u64) result \<times> disk" where
  "settle_cursor tk = st_map_err TStore (inbox_included_count (tk_io tk) (tk_json tk) (tk_dir tk))"

text \<open>The loop of \<open>halt_check\<close>: included nonces are skipped, the first submitted one decides.\<close>

fun gate_of :: "u64 \<Rightarrow> nonces \<Rightarrow> halt_check" where
  "gate_of next_height [] = GateClear"
| "gate_of next_height ((nonce, Submitted dlh _ _ _ _) # rest) =
     (if dlh < next_height then GateHalt nonce dlh next_height else GateClear)"
| "gate_of next_height ((nonce, Included _ _) # rest) = gate_of next_height rest"

definition tracker_halt_check :: "tracker \<Rightarrow> u64 \<Rightarrow> disk \<Rightarrow> (tracker_error, halt_check) result \<times> disk" where
  "tracker_halt_check tk next_height = sbind (tk_snapshot tk) (\<lambda>ns. sreturn (gate_of next_height ns))"

definition build_tracker ::
    "(string \<Rightarrow> (string, address) result) \<Rightarrow> (string \<Rightarrow> transport) \<Rightarrow> tracker \<Rightarrow> string \<Rightarrow> string \<Rightarrow> string option \<Rightarrow> path \<Rightarrow> u64 \<Rightarrow>
     (tracker_error, tracker \<times> u64) result" where
  "build_tracker parse new_transport base rpc_url inbox_id package_id data_dir block_time_ms =
     and_then (map_err (\<lambda>e. TCorrupt (''parsing sui.inbox_id '' @ inbox_id @ '': '' @ e)) (parse inbox_id)) (\<lambda>i.
     and_then (case package_id of
                 None \<Rightarrow> Ok None
               | Some p \<Rightarrow> and_then (map_err (\<lambda>e. TCorrupt (''parsing sui.settlement_package_id: '' @ e)) (parse p)) (\<lambda>a. Ok (Some a))) (\<lambda>package.
       Ok (base\<lparr>tk_transport := new_transport rpc_url, tk_inbox_id := i, tk_dir := data_dir,
                tk_block_time_ms := block_time_ms, tk_window_package := package\<rparr>,
           deadline_blocks_for INCLUSION_WINDOW_MS block_time_ms)))"

section \<open>Poller\<close>

text \<open>The L2 node's JSON-RPC: the receipt of a transaction (\<open>None\<close> when not mined, otherwise its
  \<open>blockNumber\<close> field) and raw submission to the pool.\<close>

record l2_rpc =
  l2_receipt :: "nat \<Rightarrow> hash \<Rightarrow> (string, string option option) result"
  l2_send_raw :: "nat \<Rightarrow> byte list \<Rightarrow> (string, unit) result"

definition receipt_height :: "l2_rpc \<Rightarrow> nat \<Rightarrow> hash \<Rightarrow> (string, u64 option) result" where
  "receipt_height l2 n h =
     and_then (l2_receipt l2 n h) (\<lambda>result.
       case result of
         None \<Rightarrow> Ok None
       | Some None \<Rightarrow> Err ''receipt missing blockNumber''
       | Some (Some number) \<Rightarrow>
           (case from_str_radix_16 (trim_start_0x number) of
              None \<Rightarrow> Err ''receipt blockNumber is not hex''
            | Some v \<Rightarrow> Ok (Some v)))"

text \<open>The submission half of \<open>poll_pass\<close>; the first component is the list of transactions sent
  to the pool.\<close>

fun submit_loop ::
    "tracker \<Rightarrow> l2_rpc \<Rightarrow> nat \<Rightarrow> tracked_submission list \<Rightarrow> disk \<Rightarrow> byte list list \<times> (string, unit) result \<times> disk" where
  "submit_loop tk l2 n [] d = ([], Ok (), d)"
| "submit_loop tk l2 n (s # rest) d =
     (case receipt_height l2 n (ts_tx_hash s) of
        Inl e \<Rightarrow> ([], Err e, d)
      | Inr (Some ht) \<Rightarrow>
          (case observe_inclusion tk (ts_nonce s) ht d of
             (Inl e, d') \<Rightarrow> ([], Err (tracker_error_display e), d')
           | (Inr _, d') \<Rightarrow> submit_loop tk l2 (n + 1) rest d')
      | Inr None \<Rightarrow>
          (case l2_send_raw l2 n (ts_tx_bytes s) of
             Inl e \<Rightarrow> ([ts_tx_bytes s], Err e, d)
           | Inr _ \<Rightarrow> (case submit_loop tk l2 (n + 1) rest d of
                (sent, r, d') \<Rightarrow> (ts_tx_bytes s # sent, r, d'))))"

definition poll_pass ::
    "tracker \<Rightarrow> l2_rpc \<Rightarrow> nat \<Rightarrow> int \<Rightarrow> u64 \<Rightarrow> disk \<Rightarrow> byte list list \<times> (string, unit) result \<times> u64 \<times> disk" where
  "poll_pass tk l2 n block_height_gauge budget d =
     (let at_height = word_of_int (max block_height_gauge 0) in
      case tracker_sync tk n at_height budget d of
        (Inl e, budget', d') \<Rightarrow> ([], Err (tracker_error_display e), budget', d')
      | (Inr _, budget', d') \<Rightarrow>
          (case pending_submissions tk d' of
             (Inl e, d'') \<Rightarrow> ([], Err (tracker_error_display e), budget', d'')
           | (Inr subs, d'') \<Rightarrow>
               (case submit_loop tk l2 0 subs d'' of
                  (sent, r, d''') \<Rightarrow> (sent, r, budget', d'''))))"

section \<open>Settlement gate\<close>

text \<open>\<open>commit_with_inbox\<close>; without a tracker, or when the local cursor is unreadable, the client
  reads the on-chain cursor.\<close>

definition commit_with_inbox ::
    "('key, 'tx, 'sg) tx_env \<Rightarrow> rpc_env \<Rightarrow> nat \<Rightarrow> 'key settlement option \<Rightarrow> tracker option \<Rightarrow> block \<Rightarrow> blob_id \<Rightarrow> disk \<Rightarrow>
     (core_error, unit) result" where
  "commit_with_inbox te env n settlement inbox b blob d =
     (case inbox of
        None \<Rightarrow> client_commit te env n settlement b blob
      | Some tk \<Rightarrow>
          (case fst (settle_cursor tk d) of
             Inr cursor \<Rightarrow> client_commit_with_cursor te env n settlement b blob cursor
           | Inl _ \<Rightarrow> client_commit te env n settlement b blob))"

text \<open>\<open>observe_block_inclusions\<close> drops the result.\<close>

definition observe_block_inclusions :: "tracker option \<Rightarrow> byte list list \<Rightarrow> u64 \<Rightarrow> disk \<Rightarrow> disk" where
  "observe_block_inclusions inbox raw_txs ht d =
     (case inbox of None \<Rightarrow> d | Some tk \<Rightarrow> snd (observe_transactions tk ht raw_txs d))"

section \<open>Markers through the tracker\<close>

text \<open>\<open>d\<close> evolves to \<open>d'\<close> with every marker kept or advanced.\<close>

definition advances :: "tracker \<Rightarrow> disk \<Rightarrow> nonces \<Rightarrow> disk \<Rightarrow> nonces \<Rightarrow> bool" where
  "advances tk d ns d' ns' \<longleftrightarrow>
     nonces_hold (tk_json tk) (tk_dir tk) d ns \<and> nonces_hold (tk_json tk) (tk_dir tk) d' ns' \<and>
     (\<forall>n. nonce_le (map_of ns n) (map_of ns' n))"

lemma advances_refl: "nonces_hold (tk_json tk) (tk_dir tk) d ns \<Longrightarrow> advances tk d ns d ns"
  by (simp add: advances_def)

lemma advances_trans: "advances tk d ns d' ns' \<Longrightarrow> advances tk d' ns' d'' ns'' \<Longrightarrow> advances tk d ns d'' ns''"
  by (auto simp: advances_def intro: nonce_le_trans)

lemma st_map_err_cases:
  "st_map_err f m d = (r, d') \<longleftrightarrow> (\<exists>q. m d = (q, d') \<and> r = map_err f q)"
  by (auto simp: st_map_err_def split: prod.splits)

lemma snapshot_Ok:
  assumes "tk_snapshot tk d = (Ok ns', d')" "nonces_hold (tk_json tk) (tk_dir tk) d ns"
  shows "ns' = ns \<and> nonces_hold (tk_json tk) (tk_dir tk) d' ns"
proof -
  from assms(1) have "load_json (tk_io tk) (tk_json tk) [] (inbox_path (tk_dir tk)) d = (Ok ns', d')"
    by (auto simp: tk_snapshot_def st_map_err_cases inbox_snapshot_def inbox_load_raw_def)
  from load_json_Ok [OF this] have l: "holds (tk_json tk) [] (inbox_path (tk_dir tk)) d ns'" "files d' = files d"
    by auto
  have "ns' = ns" using holds_unique [OF l(1)] assms(2) by (simp add: nonces_hold_def)
  with assms(2) l(2) show ?thesis by (simp add: nonces_hold_def holds_def)
qed

lemma snapshot_keeps:
  assumes "tk_snapshot tk d = (r, d')" "nonces_hold (tk_json tk) (tk_dir tk) d ns"
  shows "nonces_hold (tk_json tk) (tk_dir tk) d' ns"
proof -
  have "files d' = files d" using assms(1)
    by (auto simp: tk_snapshot_def st_map_err_cases inbox_snapshot_def inbox_load_raw_def dest: load_json_same)
  with assms(2) show ?thesis by (simp add: nonces_hold_def holds_def)
qed

lemma record_advances:
  assumes j: "json_ok (tk_json tk)" and h: "nonces_hold (tk_json tk) (tk_dir tk) d ns"
    and r: "record_submitted (tk_io tk) (tk_json tk) (tk_dir tk) k a b c x t d = (r, d')"
  obtains ns' where "advances tk d ns d' ns'" "r = Ok () \<Longrightarrow> map_of ns' k = Some (Submitted a b c x t)"
proof -
  have bt: "btree_ok ns" using h by (simp add: nonces_hold_def)
  note le = insert_submitted_le [OF _ bt]
  from inbox_mutate_cases [OF j r [unfolded record_submitted_def] h] le
  consider e where "r = Err e" "nonces_hold (tk_json tk) (tk_dir tk) d' ns"
    | ns' where "r = Ok ()" "insert_submitted k (Submitted a b c x t) ns = Ok ns'"
        "nonces_hold (tk_json tk) (tk_dir tk) d' ns'" by blast
  then show ?thesis
  proof cases
    case 1
    then show ?thesis using h by (intro that [of ns]) (auto simp: advances_def)
  next
    case (2 ns')
    then show ?thesis using h bt le [OF 2(2)]
      by (intro that [of ns']) (auto simp: advances_def insert_submitted_def split: if_splits)
  qed
qed

lemma mark_advances:
  assumes j: "json_ok (tk_json tk)" and h: "nonces_hold (tk_json tk) (tk_dir tk) d ns"
    and r: "mark_included (tk_io tk) (tk_json tk) (tk_dir tk) k ht d = (r, d')"
  obtains ns' where "advances tk d ns d' ns'" "r = Ok () \<Longrightarrow> \<exists>x. map_of ns' k = Some (Included ht x)"
proof -
  have bt: "btree_ok ns" using h by (simp add: nonces_hold_def)
  note le = include_nonce_le [OF _ bt]
  from inbox_mutate_cases [OF j r [unfolded mark_included_def] h] le
  consider e where "r = Err e" "nonces_hold (tk_json tk) (tk_dir tk) d' ns"
    | ns' where "r = Ok ()" "include_nonce k ht ns = Ok ns'"
        "nonces_hold (tk_json tk) (tk_dir tk) d' ns'" by blast
  then show ?thesis
  proof cases
    case 1
    then show ?thesis using h by (intro that [of ns]) (auto simp: advances_def)
  next
    case (2 ns')
    then show ?thesis using h bt le [OF 2(2)]
      by (intro that [of ns'])
         (auto simp: advances_def include_nonce_def split: option.splits nonce_record.splits if_splits)
  qed
qed

text \<open>A submission has its marker on disk (and, later, possibly an inclusion of the same hash).\<close>

definition persisted :: "tracker \<Rightarrow> nonces \<Rightarrow> tracked_submission \<Rightarrow> bool" where
  "persisted tk ns s \<longleftrightarrow>
     ts_tx_hash s = tk_keccak256 tk (ts_tx_bytes s) \<and>
     nonce_le (Some (Submitted (ts_deadline_height s) (ts_deadline_ms s) (ts_first_seen_height s)
               (tk_show_hash tk (ts_tx_hash s)) (tk_hex_encode tk (ts_tx_bytes s)))) (map_of ns (ts_nonce s))"

lemma persisted_mono: "persisted tk ns s \<Longrightarrow> advances tk d ns d' ns' \<Longrightarrow> persisted tk ns' s"
  unfolding persisted_def advances_def by (blast intro: nonce_le_trans)

lemma nonce_le_some: "nonce_le (Some x) y \<Longrightarrow> y \<noteq> None"
  by (cases x; cases y) auto

definition covered :: "tracker \<Rightarrow> nonces \<Rightarrow> address \<Rightarrow> nonces \<Rightarrow> u64 \<Rightarrow> bool" where
  "covered tk tracked tbl ns k \<longleftrightarrow>
     map_of tracked k \<noteq> None \<or> map_of ns k \<noteq> None \<or> (\<exists>m. t_field (tk_transport tk) m tbl k = Ok None)"

lemma covered_mono: "covered tk tracked tbl ns k \<Longrightarrow> advances tk d ns d' ns' \<Longrightarrow> covered tk tracked tbl ns' k"
  unfolding covered_def advances_def by (metis nonce_le_some option.exhaust)

lemma sync_loop_entry:
  assumes j: "json_ok (tk_json tk)" and h: "nonces_hold (tk_json tk) (tk_dir tk) d ns"
    and u: "map_of tracked k = None" and f: "t_field (tk_transport tk) n tbl k = Ok (Some entry)"
    and r: "sync_loop tk tracked tbl ah dl n (k # ks) d = (r, d')"
    and IH: "\<And>d ns r n. nonces_hold (tk_json tk) (tk_dir tk) d ns \<Longrightarrow> sync_loop tk tracked tbl ah dl n ks d = (r, d') \<Longrightarrow>
      \<exists>ns'. advances tk d ns d' ns' \<and> (\<forall>fresh. r = Ok fresh \<longrightarrow>
        (\<forall>s \<in> set fresh. persisted tk ns' s) \<and> (\<forall>k \<in> set ks. covered tk tracked tbl ns' k))"
  shows "\<exists>ns'. advances tk d ns d' ns' \<and> (\<forall>fresh. r = Ok fresh \<longrightarrow>
        (\<forall>s \<in> set fresh. persisted tk ns' s) \<and> (\<forall>k \<in> set (k # ks). covered tk tracked tbl ns' k))"
proof (cases "parse_pending_tx (dec_pending (md_inbox (tk_decoders tk))) entry")
  case (Inl e)
  with r u f h show ?thesis by (auto intro: advances_refl)
next
  case (Inr p)
  let ?h = "tk_keccak256 tk (tx_bytes p)"
  let ?rec = "record_submitted (tk_io tk) (tk_json tk) (tk_dir tk) k dl (deadline_ms p) ah (tk_show_hash tk ?h) (tk_hex_encode tk (tx_bytes p))"
  let ?s = "\<lparr>ts_nonce = k, ts_tx_bytes = tx_bytes p, ts_tx_hash = ?h, ts_deadline_ms = deadline_ms p,
              ts_deadline_height = dl, ts_first_seen_height = ah\<rparr>"
  obtain q d1 where rec: "?rec d = (q, d1)" by (cases "?rec d")
  obtain ns1 where a1: "advances tk d ns d1 ns1"
    and m1: "q = Ok () \<Longrightarrow> map_of ns1 k = Some (Submitted dl (deadline_ms p) ah (tk_show_hash tk ?h) (tk_hex_encode tk (tx_bytes p)))"
    using record_advances [OF j h rec] by blast
  have unfolded: "sbind (st_map_err TStore ?rec) (\<lambda>_. sbind (sync_loop tk tracked tbl ah dl (n + 1) ks) (\<lambda>fresh. sreturn (?s # fresh))) d = (r, d')"
    using r u f Inr by (simp add: Let_def)
  show ?thesis
  proof (cases q)
    case (Inl e)
    then have "st_map_err TStore ?rec d = (Err (TStore e), d1)" using rec by (simp add: st_map_err_def)
    with unfolded have "r = Err (TStore e)" "d' = d1" by simp_all
    with a1 show ?thesis by auto
  next
    case q: (Inr x)
    then have "st_map_err TStore ?rec d = (Ok (), d1)" using rec by (simp add: st_map_err_def)
    with unfolded have "sbind (sync_loop tk tracked tbl ah dl (n + 1) ks) (\<lambda>fresh. sreturn (?s # fresh)) d1 = (r, d')" by simp
    then obtain r2 where r2: "sync_loop tk tracked tbl ah dl (n + 1) ks d1 = (r2, d')"
      and rr: "r = (case r2 of Inl e \<Rightarrow> Inl e | Inr fr \<Rightarrow> Inr (?s # fr))"
      by (auto simp: sbind_def sreturn_def split: prod.splits sum.splits)
    have h1: "nonces_hold (tk_json tk) (tk_dir tk) d1 ns1" using a1 by (simp add: advances_def)
    from IH [OF h1 r2] obtain ns2 where a2: "advances tk d1 ns1 d' ns2"
      and ok: "\<And>fr. r2 = Ok fr \<Longrightarrow> (\<forall>s \<in> set fr. persisted tk ns2 s) \<and> (\<forall>k \<in> set ks. covered tk tracked tbl ns2 k)" by blast
    have "persisted tk ns1 ?s" using m1 q by (simp add: persisted_def)
    then have p2: "persisted tk ns2 ?s" using a2 by (rule persisted_mono)
    have "covered tk tracked tbl ns1 k" using m1 q by (simp add: covered_def)
    then have c2: "covered tk tracked tbl ns2 k" using a2 by (rule covered_mono)
    from advances_trans [OF a1 a2] p2 c2 ok rr show ?thesis by (cases r2) auto
  qed
qed

lemma sync_loop_advances:
  assumes j: "json_ok (tk_json tk)" and h: "nonces_hold (tk_json tk) (tk_dir tk) d ns"
    and r: "sync_loop tk tracked tbl ah dl n ks d = (r, d')"
  shows "\<exists>ns'. advances tk d ns d' ns' \<and>
    (\<forall>fresh. r = Ok fresh \<longrightarrow>
       (\<forall>s \<in> set fresh. persisted tk ns' s) \<and> (\<forall>k \<in> set ks. covered tk tracked tbl ns' k))"
  using h r
proof (induction ks arbitrary: d ns r n)
  case Nil
  then show ?case by (auto intro: advances_refl)
next
  case (Cons k ks)
  show ?case
  proof (cases "map_of tracked k")
    case (Some x)
    with Cons.prems(2) have "sync_loop tk tracked tbl ah dl n ks d = (r, d')" by simp
    note IH = Cons.IH [OF Cons.prems(1) this]
    have "covered tk tracked tbl ns' k" for ns' using Some by (simp add: covered_def)
    with IH show ?thesis by fastforce
  next
    case untracked: None
    show ?thesis
    proof (cases "t_field (tk_transport tk) n tbl k")
      case (Inl e)
      with Cons.prems untracked show ?thesis by (auto intro: advances_refl)
    next
      case field: (Inr f)
      show ?thesis
      proof (cases f)
        case None
        with Cons.prems(2) untracked field have "sync_loop tk tracked tbl ah dl (n + 1) ks d = (r, d')" by simp
        note IH = Cons.IH [OF Cons.prems(1) this]
        have "covered tk tracked tbl ns' k" for ns' using field None by (auto simp: covered_def)
        with IH show ?thesis by fastforce
      next
        case (Some entry)
        with field have "t_field (tk_transport tk) n tbl k = Ok (Some entry)" by simp
        then show ?thesis
          by (rule sync_loop_entry [OF j Cons.prems(1) untracked _ Cons.prems(2)]) (rule Cons.IH)
      qed
    qed
  qed
qed

section \<open>Properties\<close>

text \<open>
  C7: persist before submit. When a sync succeeds, every transaction it hands out for pool submission
  already has its marker on disk, with the deadline, the hash and the re-sendable bytes of
  exactly that transaction; every nonce of the polled range is tracked unless the chain had no
  entry for it any more; and no marker that existed before was lost or weakened. The last part
  also holds when the sync fails half-way, under any disk fault.
\<close>

theorem sync_persists_before_submit:
  assumes "json_ok (tk_json tk)" "nonces_hold (tk_json tk) (tk_dir tk) d ns"
    and "tracker_sync tk n at_height budget d = (r, budget', d')"
  shows "\<exists>ns'. advances tk d ns d' ns' \<and>
    (\<forall>fresh. r = Ok fresh \<longrightarrow> (\<forall>s \<in> set fresh. persisted tk ns' s) \<and>
       (\<exists>st. and_then (t_object (tk_transport tk) n (tk_inbox_id tk))
                 (parse_inbox_status (dec_inbox (md_inbox (tk_decoders tk)))) = Ok st \<and>
          (\<forall>k \<in> set (nonce_range (included_count st) (next_nonce st)). covered tk ns (pending_table_uid st) ns' k)))"
proof (cases "and_then (t_object (tk_transport tk) n (tk_inbox_id tk))
                 (parse_inbox_status (dec_inbox (md_inbox (tk_decoders tk))))")
  case (Inl e)
  with assms show ?thesis by (auto simp: tracker_sync_def intro: advances_refl)
next
  case (Inr st)
  obtain q d1 where s: "tk_snapshot tk d = (q, d1)" by (cases "tk_snapshot tk d")
  show ?thesis
  proof (cases q)
    case (Inl e)
    with assms(3) Inr s have "r = Err e" "d' = d1" by (auto simp: tracker_sync_def Let_def)
    with snapshot_keeps [OF s assms(2)] assms(2) show ?thesis
      by (intro exI [of _ ns]) (auto simp: advances_def)
  next
    case q: (Inr ns0)
    from snapshot_Ok [OF s [unfolded q] assms(2)] have ns0: "ns0 = ns" and h1: "nonces_hold (tk_json tk) (tk_dir tk) d1 ns"
      by auto
    from assms(3) Inr s q ns0 have l: "sync_loop tk ns (pending_table_uid st) at_height
        (saturating_add at_height (refresh_window tk (n + 1) budget)) (n + 4)
        (nonce_range (included_count st) (next_nonce st)) d1 = (r, d')"
      by (auto simp: tracker_sync_def Let_def split: prod.splits)
    have "advances tk d ns d1 ns" using assms(2) h1 by (simp add: advances_def)
    moreover obtain ns' where a: "advances tk d1 ns d' ns'"
      and f: "\<And>fresh. r = Ok fresh \<Longrightarrow> (\<forall>s \<in> set fresh. persisted tk ns' s) \<and>
        (\<forall>k \<in> set (nonce_range (included_count st) (next_nonce st)). covered tk ns (pending_table_uid st) ns' k)"
      using sync_loop_advances [OF assms(1) h1 l] by (elim exE conjE) presburger
    ultimately have "advances tk d ns d' ns'" by (blast intro: advances_trans)
    then show ?thesis
    proof (intro exI [of _ ns'] conjI allI impI)
      fix fresh assume "r = Ok fresh"
      note ok = f [OF this]
      show "\<forall>s \<in> set fresh. persisted tk ns' s" using ok by (rule conjunct1)
      show "\<exists>st. and_then (t_object (tk_transport tk) n (tk_inbox_id tk))
                 (parse_inbox_status (dec_inbox (md_inbox (tk_decoders tk)))) = Ok st \<and>
          (\<forall>k \<in> set (nonce_range (included_count st) (next_nonce st)). covered tk ns (pending_table_uid st) ns' k)"
        using Inr conjunct2 [OF ok] by (intro exI [of _ st] conjI)
    qed
  qed
qed

text \<open>The block budget covers the on-chain window, with less than one block of slack.\<close>

lemma deadline_blocks_cover_window:
  "unat w \<le> unat (deadline_blocks_for w t) * unat (max t 1)"
  "unat (deadline_blocks_for w t) * unat (max t 1) < unat w + unat (max t 1)"
proof -
  have "(0 :: u64) < 1" by simp
  then have "max t 1 > 0" by (rule less_le_trans) simp
  from div_ceil_bound [OF this, of w] show
    "unat w \<le> unat (deadline_blocks_for w t) * unat (max t 1)"
    "unat (deadline_blocks_for w t) * unat (max t 1) < unat w + unat (max t 1)"
    by (simp_all add: deadline_blocks_for_def)
qed

lemma refresh_keeps_on_error:
  "(\<forall>e. t_object (tk_transport tk) n SUI_CLOCK_ID \<noteq> Ok e) \<Longrightarrow> refresh_window tk n b = b"
  by (auto simp: refresh_window_def split: option.splits sum.splits)

text \<open>\<open>halt_check\<close> against its intent.\<close>

definition overdue :: "u64 \<Rightarrow> nonces \<Rightarrow> u64 \<Rightarrow> bool" where
  "overdue next_height ns k \<longleftrightarrow>
     (\<exists>a b c h t. map_of ns k = Some (Submitted a b c h t) \<and> a < next_height)"

definition deadlines_sorted :: "nonces \<Rightarrow> bool" where
  "deadlines_sorted ns \<longleftrightarrow>
     sorted (map (\<lambda>(_, r). nr_deadline_height r) (filter (\<lambda>(_, r). is_submitted r) ns))"

lemma gate_of_halt_overdue: "btree_ok ns \<Longrightarrow> gate_of nh ns = GateHalt k dl nh' \<Longrightarrow> overdue nh ns k"
proof (induction nh ns rule: gate_of.induct)
  case (3 nh nonce h t rest)
  then have "overdue nh rest k" by (simp add: btree_ok_Cons)
  then obtain a b c h' t' where m: "map_of rest k = Some (Submitted a b c h' t')" "a < nh" by (auto simp: overdue_def)
  then have "k \<in> fst ` set rest" by (force dest: map_of_SomeD)
  with 3 have "k \<noteq> nonce" by (auto simp: btree_ok_Cons)
  with m show ?case by (auto simp: overdue_def)
qed (auto simp: overdue_def split: if_splits)

lemma gate_of_clear_sorted:
  "deadlines_sorted ns \<Longrightarrow> btree_ok ns \<Longrightarrow> gate_of nh ns = GateClear \<Longrightarrow> \<not> overdue nh ns k"
proof (induction nh ns rule: gate_of.induct)
  case (2 nh nonce dl a b c d rest)
  have "\<not> x < nh" if "map_of rest k = Some (Submitted x y z h t)" for x y z h t
  proof -
    have "(k, Submitted x y z h t) \<in> set rest" using that by (rule map_of_SomeD)
    then have "dl \<le> x" using 2(1) by (force simp: deadlines_sorted_def)
    moreover have "\<not> dl < nh" using 2(3) by (simp split: if_splits)
    ultimately show ?thesis by simp
  qed
  with 2 show ?case by (auto simp: overdue_def split: if_splits)
next
  case (3 nh nonce h t rest)
  then show ?case by (auto simp: overdue_def deadlines_sorted_def btree_ok_Cons split: if_splits)
qed (auto simp: overdue_def)

text \<open>
  C31: the settlement gate is exact when deadlines are ordered. On a store whose submitted nonces carry
  non-decreasing block deadlines, \<open>halt_check\<close> halts if and only if some tracked nonce is past
  its block deadline without inclusion, and the nonce it names is one of those.
\<close>

theorem gate_exact_for_ordered_deadlines:
  assumes "nonces_hold (tk_json tk) (tk_dir tk) d ns" "deadlines_sorted ns"
    and "tracker_halt_check tk next_height d = (Ok check, d')"
  shows "(check = GateClear \<longleftrightarrow> (\<forall>k. \<not> overdue next_height ns k)) \<and>
    (\<forall>k dl nh. check = GateHalt k dl nh \<longrightarrow> overdue next_height ns k)"
proof -
  from assms(3) obtain ns0 d1 where s: "tk_snapshot tk d = (Ok ns0, d1)" and c: "check = gate_of next_height ns0"
    unfolding tracker_halt_check_def by (auto simp: sreturn_def elim: sbind_cases)
  from snapshot_Ok [OF s assms(1)] have c: "check = gate_of next_height ns" using c by simp
  have bt: "btree_ok ns" using assms(1) by (simp add: nonces_hold_def)
  note cl = gate_of_clear_sorted [OF assms(2) bt]
  note ha = gate_of_halt_overdue [OF bt]
  show ?thesis unfolding c
  proof (intro conjI)
    show "(gate_of next_height ns = GateClear) = (\<forall>k. \<not> overdue next_height ns k)"
      using cl ha by (cases "gate_of next_height ns") blast+
    show "\<forall>k dl nh. gate_of next_height ns = GateHalt k dl nh \<longrightarrow> overdue next_height ns k"
      using ha by blast
  qed
qed

text \<open>
  A narrowed window defeats the gate. A nonce tracked under the default window keeps its long
  deadline; after the operator narrows the window to one minute, a later nonce gets an earlier
  deadline. Once the later nonce is overdue and the earlier is not, the gate reports \<open>Clear\<close>,
  because it looks at the first submitted nonce only.
\<close>

theorem gate_misses_narrowed_deadline:
  "let early = saturating_add 10 (deadline_blocks_for 600000 1000);
       late = saturating_add 20 (deadline_blocks_for 60000 1000);
       ns = [(0, Submitted early 600000 10 ''aa'' ''01''), (1, Submitted late 80000 20 ''bb'' ''02'')]
   in overdue 100 ns 1 \<and> gate_of 100 ns = GateClear"
  by (simp add: overdue_def Let_def deadline_blocks_for_def div_ceil_def saturating_add_def u64_max_def
      word_less_nat_alt word_le_nat_alt)

text \<open>The settle cursor counts inclusions.\<close>

definition included_nonces :: "nonces \<Rightarrow> u64 set" where
  "included_nonces ns = {k. \<exists>h t. map_of ns k = Some (Included h t)}"

lemma included_total_card:
  assumes "btree_ok ns"
  shows "included_total ns = of_nat (card (included_nonces ns))"
proof -
  let ?f = "filter (\<lambda>(_, r). \<not> is_submitted r) ns"
  have d: "distinct (map fst ns)" using assms by (rule btree_ok_distinct)
  then have df: "distinct (map fst ?f)" by (rule distinct_map_filter)
  have "included_nonces ns = fst ` set ?f"
  proof (intro set_eqI iffI)
    fix k assume "k \<in> included_nonces ns"
    then obtain h t where "map_of ns k = Some (Included h t)" by (auto simp: included_nonces_def)
    then have "(k, Included h t) \<in> set ?f" by (auto dest: map_of_SomeD)
    then show "k \<in> fst ` set ?f" by force
  next
    fix k assume "k \<in> fst ` set ?f"
    then obtain r where r: "(k, r) \<in> set ns" "\<not> is_submitted r" by auto
    with d have "map_of ns k = Some r" by simp
    with r(2) show "k \<in> included_nonces ns" by (cases r) (auto simp: included_nonces_def)
  qed
  then have "card (included_nonces ns) = length ?f"
    using df by (metis distinct_card length_map set_map)
  then show ?thesis by (simp add: included_total_def)
qed

lemma settle_cursor_Ok:
  assumes "settle_cursor tk d = (Ok c, d')" "nonces_hold (tk_json tk) (tk_dir tk) d ns"
  shows "c = of_nat (card (included_nonces ns))"
proof -
  from assms(1) have "inbox_included_count (tk_io tk) (tk_json tk) (tk_dir tk) d = (Ok c, d')"
    by (auto simp: settle_cursor_def st_map_err_cases)
  then obtain ns0 d1 where l: "load_json (tk_io tk) (tk_json tk) [] (inbox_path (tk_dir tk)) d = (Ok ns0, d1)"
    and c: "c = included_total ns0"
    unfolding inbox_included_count_def inbox_load_raw_def by (auto simp: sreturn_def elim: sbind_cases)
  from load_json_Ok [OF l] have "holds (tk_json tk) [] (inbox_path (tk_dir tk)) d ns0" by simp
  with assms(2) have "ns0 = ns" using holds_unique by (auto simp: nonces_hold_def)
  with c assms(2) show ?thesis by (simp add: included_total_card nonces_hold_def)
qed

text \<open>
  C32: the settle cursor is right for a gap-free history from nonce zero. If the nonces marked included
  are exactly those below \<open>k\<close>, the tracker contributes \<open>k\<close>, and a settle with that cursor
  that the contract accepts prunes exactly included nonces.
\<close>

theorem settle_cursor_prunes_only_included:
  assumes "nonces_hold (tk_json tk) (tk_dir tk) d ns" "included_nonces ns = {..<k}"
    and "settle_cursor tk d = (Ok cursor, d')"
    and "enforce_settle ib block_ts (max cursor (mi_included_count ib)) = Ok ib'"
    and "mi_included_count ib \<le> k"
  shows "cursor = k \<and> (\<forall>n. mi_pending ib n \<noteq> None \<longrightarrow> mi_pending ib' n = None \<longrightarrow> n \<in> included_nonces ns)"
proof -
  have "card {..<k} = unat k"
  proof -
    have "bij_betw unat {..<k} {..<unat k}"
    proof (rule bij_betw_imageI)
      show "inj_on unat {..<k}" by (simp add: inj_on_def word_unat_eq_iff)
      show "unat ` {..<k} = {..<unat k}"
      proof (intro set_eqI iffI)
        fix n assume "n \<in> {..<unat k}"
        then have n: "n < unat k" by simp
        then have u: "unat (of_nat n :: u64) = n"
          using unat_u64_less [of k] by (simp add: unat_of_nat take_bit_nat_eq_self)
        then have "(of_nat n :: u64) \<in> {..<k}" using n by (simp add: word_less_nat_alt)
        with u show "n \<in> unat ` {..<k}" by (metis image_eqI)
      qed (auto simp: word_less_nat_alt)
    qed
    then show ?thesis by (simp add: bij_betw_same_card)
  qed
  with settle_cursor_Ok [OF assms(3,1)] assms(2) have c: "cursor = k" by simp
  have "max cursor (mi_included_count ib) = k" using c assms(5) by (simp add: max_def)
  with assms(4) have p: "mi_pending ib' = (\<lambda>n. if n \<in> {mi_included_count ib..<k} then None else mi_pending ib n)"
    by (simp add: enforce_settle_Ok)
  have "n \<in> included_nonces ns" if "mi_pending ib n \<noteq> None" "mi_pending ib' n = None" for n
    using that unfolding p assms(2) by (auto split: if_splits)
  with c show ?thesis by blast
qed

text \<open>
  The cursor counts, it does not track a prefix. With nonce 1 included and nonce 0 not, the tracker
  contributes cursor 1; the settle gate accepts it and prunes the entry of nonce 0, so a
  forced transaction leaves the inbox without ever having been included.
\<close>

theorem cursor_gap_prunes_unincluded_nonce:
  "let ns = [(0, Submitted 700 600000 10 ''aa'' ''01''), (1, Included 20 ''bb'')];
       ib = (ch_inbox (genesis i t 0))\<lparr>mi_next_nonce := 2,
              mi_pending := [0 \<mapsto> \<lparr>deadline_ms = 600000, tx_bytes = [1]\<rparr>, 1 \<mapsto> \<lparr>deadline_ms = 600000, tx_bytes = [2]\<rparr>]\<rparr>
   in 0 \<notin> included_nonces ns \<and>
      (\<exists>ib'. enforce_settle ib 50000 (max (included_total ns) (mi_included_count ib)) = Ok ib' \<and> mi_pending ib' 0 = None)"
proof -
  have "{0..<1 :: u64} = {0}" by (auto simp: word_le_nat_alt word_less_nat_alt word_unat_eq_iff)
  then show ?thesis
    by (auto simp: Let_def included_nonces_def included_total_def genesis_def enforce_settle_Ok)
qed

text \<open>
  A tracker that starts late never advances the on-chain cursor in time. Its store only holds nonces from
  the on-chain cursor on, so its count stays below that cursor; the settle of a block past the
  oldest deadline then aborts although that nonce is marked included locally.
\<close>

theorem late_tracker_stalls_included_nonce:
  assumes "btree_ok ns" "card (included_nonces ns) \<le> unat (mi_included_count ib)"
    and "mi_included_count ib \<in> included_nonces ns"
    and "mi_included_count ib \<le> mi_next_nonce ib" "mi_last_settled_ts ib \<le> block_ts"
    and "mi_pending ib (mi_included_count ib) = Some p" "deadline_ms p < block_ts"
  shows "enforce_settle ib block_ts (max (included_total ns) (mi_included_count ib)) = Err E_DEADLINE_EXCEEDED"
proof -
  have "unat (of_nat (card (included_nonces ns)) :: u64) \<le> card (included_nonces ns)"
    by (simp add: unat_of_nat)
  then have "included_total ns \<le> mi_included_count ib"
    using assms(2) by (simp add: included_total_card [OF assms(1)] word_le_nat_alt)
  then have m: "max (included_total ns) (mi_included_count ib) = mi_included_count ib" by (simp add: max_def)
  show ?thesis unfolding m using assms(4-7)
    by (simp add: enforce_settle_def prune.simps Let_def)
qed

section \<open>Witnesses\<close>

definition sample_tracker :: tracker where
  "sample_tracker =
     \<lparr>tk_transport = chain_transport sample_history, tk_inbox_id = barr_fill 1, tk_dir = ''data'',
      tk_json = nonces_json, tk_block_time_ms = 1000, tk_window_package = None,
      tk_decoders = ref_monitor_decoders,
      tk_rpc = \<lparr>rpc_new = (\<lambda>_. Ok ()), get_object = (\<lambda>_ _. Ok None), derive_dynamic_child_id = (\<lambda>_ _ _. barr_fill 9)\<rparr>,
      tk_io = no_faults, tk_keccak256 = (\<lambda>_. barr_fill 3), tk_show_hash = (\<lambda>_. ''aa''),
      tk_hex_encode = (\<lambda>_. ''01''), tk_hex_decode = (\<lambda>_. Ok [1])\<rparr>"

lemma sample_tracker_simps [simp]:
  "tk_json sample_tracker = nonces_json" "tk_dir sample_tracker = ''data''" "tk_io sample_tracker = no_faults"
  by (simp_all add: sample_tracker_def)

definition disk_with :: "path \<Rightarrow> string \<Rightarrow> disk" where
  "disk_with p t = \<lparr>files = [p \<mapsto> Text t], ops = 0\<rparr>"

lemma holds_disk_with:
  "json_ok j \<Longrightarrow> to_json j x = Ok t \<Longrightarrow> holds j dflt p (disk_with p t) x"
  by (simp add: holds_def disk_with_def json_ok_def)

lemma sample_nonces_disk:
  obtains t where "nonces_hold nonces_json ''data'' (disk_with (inbox_path ''data'') t) [(0, Included 7 ''aa''), (1, Submitted 50 600000 10 ''bb'' ''01'')]"
proof -
  obtain t where "to_json nonces_json [(0, Included 7 ''aa''), (1, Submitted 50 600000 10 ''bb'' ''01'')] = Ok t"
    unfolding nonces_json_def codec_json_def bcs_to_bytes_def c_nonce_def c_string_def
    by (simp add: codec_simps)
  from holds_disk_with [OF nonces_json_ok this] show ?thesis
    by (intro that) (simp add: nonces_hold_def btree_ok_def)
qed

lemma sample_snapshot:
  assumes "nonces_hold nonces_json ''data'' d ns"
  obtains d' where "tk_snapshot sample_tracker d = (Ok ns, d')" "files d' = files d"
proof -
  have io: "no_faults n = None" for n by (simp add: no_faults_def)
  from assms have "holds nonces_json [] (inbox_path ''data'') d ns" by (simp add: nonces_hold_def)
  from load_json_no_fault [where io = no_faults, OF io this] obtain d'
    where "load_json no_faults nonces_json [] (inbox_path ''data'') d = (Ok ns, d')" "files d' = files d" by blast
  then show ?thesis
    by (intro that [of d']) (simp_all add: tk_snapshot_def st_map_err_def inbox_snapshot_def inbox_load_raw_def)
qed

definition two_pending :: move_inbox where
  "two_pending = (ch_inbox (genesis (barr_fill 1) (barr_fill 2) 0))\<lparr>mi_next_nonce := 2,
      mi_pending := [0 \<mapsto> \<lparr>deadline_ms = 600000, tx_bytes = [1]\<rparr>, 1 \<mapsto> \<lparr>deadline_ms = 600000, tx_bytes = [2]\<rparr>]\<rparr>"

theorem sync_persists_before_submit_witness:
  "\<exists>ns'. advances sample_tracker blank_disk [] (snd (snd (tracker_sync sample_tracker 1 10 600 blank_disk))) ns'"
proof -
  obtain r b d' where r: "tracker_sync sample_tracker 1 10 600 blank_disk = (r, b, d')"
    by (cases "tracker_sync sample_tracker 1 10 600 blank_disk") auto
  have "json_ok (tk_json sample_tracker)" "nonces_hold (tk_json sample_tracker) (tk_dir sample_tracker) blank_disk []"
    by (simp_all add: nonces_json_ok)
  from sync_persists_before_submit [OF this r] obtain ns' where "advances sample_tracker blank_disk [] d' ns'"
    by (elim exE conjE)
  with r show ?thesis by auto
qed

theorem gate_exact_for_ordered_deadlines_witness:
  "\<exists>d d'. tracker_halt_check sample_tracker 100 d = (Ok (GateHalt 1 50 100), d') \<and>
     overdue 100 [(0, Included 7 ''aa''), (1, Submitted 50 600000 10 ''bb'' ''01'')] 1"
proof -
  let ?ns = "[(0, Included 7 ''aa''), (1, Submitted 50 600000 10 ''bb'' ''01'')]"
  obtain t where h: "nonces_hold nonces_json ''data'' (disk_with (inbox_path ''data'') t) ?ns"
    by (rule sample_nonces_disk)
  obtain d' where "tk_snapshot sample_tracker (disk_with (inbox_path ''data'') t) = (Ok ?ns, d')"
    by (rule sample_snapshot [OF h])
  then have c: "tracker_halt_check sample_tracker 100 (disk_with (inbox_path ''data'') t) = (Ok (GateHalt 1 50 100), d')"
    by (simp add: tracker_halt_check_def sreturn_def)
  have "nonces_hold (tk_json sample_tracker) (tk_dir sample_tracker) (disk_with (inbox_path ''data'') t) ?ns"
    using h by simp
  from gate_exact_for_ordered_deadlines [OF this _ c] have "overdue 100 ?ns 1" by (simp add: deadlines_sorted_def)
  with c show ?thesis by blast
qed

theorem settle_cursor_prunes_only_included_witness:
  "\<exists>d d' ib'. settle_cursor sample_tracker d = (Ok 1, d') \<and> enforce_settle two_pending 1000 1 = Ok ib' \<and>
     (\<forall>n. mi_pending two_pending n \<noteq> None \<longrightarrow> mi_pending ib' n = None \<longrightarrow>
        n \<in> included_nonces [(0, Included 7 ''aa''), (1, Submitted 50 600000 10 ''bb'' ''01'')])"
proof -
  let ?ns = "[(0, Included 7 ''aa''), (1, Submitted 50 600000 10 ''bb'' ''01'')]"
  obtain t where h: "nonces_hold nonces_json ''data'' (disk_with (inbox_path ''data'') t) ?ns"
    by (rule sample_nonces_disk)
  obtain d' where s: "tk_snapshot sample_tracker (disk_with (inbox_path ''data'') t) = (Ok ?ns, d')"
    by (rule sample_snapshot [OF h])
  then have "inbox_load_raw no_faults nonces_json ''data'' (disk_with (inbox_path ''data'') t) = (Ok ?ns, d')"
    by (auto simp: tk_snapshot_def st_map_err_cases inbox_snapshot_def)
  then have c: "settle_cursor sample_tracker (disk_with (inbox_path ''data'') t) = (Ok 1, d')"
    by (simp add: settle_cursor_def st_map_err_def inbox_included_count_def sreturn_def included_total_def)
  have "{..<1 :: u64} = {0}" by (auto simp: word_less_nat_alt word_unat_eq_iff)
  moreover have "included_nonces ?ns = {0}" by (auto simp: included_nonces_def split: if_splits)
  ultimately have inc: "included_nonces ?ns = {..<1}" by (rule trans [OF _ sym, rotated])
  have hold: "nonces_hold (tk_json sample_tracker) (tk_dir sample_tracker) (disk_with (inbox_path ''data'') t) ?ns"
    using h by simp
  have z: "{0..<1 :: u64} = {0}" by (auto simp: word_le_nat_alt word_less_nat_alt word_unat_eq_iff)
  have mi: "mi_included_count two_pending = 0" by (simp add: two_pending_def genesis_def)
  obtain ib' where e: "enforce_settle two_pending 1000 1 = Ok ib'"
    using z by (auto simp: two_pending_def genesis_def enforce_settle_Ok)
  then have "enforce_settle two_pending 1000 (max 1 (mi_included_count two_pending)) = Ok ib'" by (simp add: mi)
  from settle_cursor_prunes_only_included [OF hold inc c this] mi
  have "\<forall>n. mi_pending two_pending n \<noteq> None \<longrightarrow> mi_pending ib' n = None \<longrightarrow> n \<in> included_nonces ?ns"
    by simp
  with c e show ?thesis by blast
qed

theorem late_tracker_stalls_included_nonce_witness:
  "enforce_settle \<lparr>mi_id = barr_fill 1, mi_next_nonce = 6, mi_included_count = 5, mi_last_settled_ts = 0,
       mi_table = barr_fill 2, mi_pending = [5 \<mapsto> \<lparr>deadline_ms = 600000, tx_bytes = [1]\<rparr>],
       mi_window = None, mi_pending_window = None\<rparr>
     700000 (max (included_total [(5, Included 20 ''aa'')]) 5) = Err E_DEADLINE_EXCEEDED"
proof -
  have inc: "included_nonces [(5, Included 20 ''aa'')] = {5}" by (auto simp: included_nonces_def split: if_splits)
  show ?thesis
    using late_tracker_stalls_included_nonce [of "[(5, Included 20 ''aa'')]"
      "\<lparr>mi_id = barr_fill 1, mi_next_nonce = 6, mi_included_count = 5, mi_last_settled_ts = 0,
       mi_table = barr_fill 2, mi_pending = [5 \<mapsto> \<lparr>deadline_ms = 600000, tx_bytes = [1]\<rparr>],
       mi_window = None, mi_pending_window = None\<rparr>" 700000 "\<lparr>deadline_ms = 600000, tx_bytes = [1]\<rparr>"]
    by (simp add: inc btree_ok_def)
qed

end
