(* ===== verification/Mcp_Http.thy ===== *)
theory Mcp_Http
  imports L2_Rpc
begin

text \<open>
  The HTTP layer of the MCP endpoint (\<open>crates/node/src/mcp.rs\<close>): reading a request line and its headers
  from a connection, and writing one response. A connection is the bytes the peer still sends,
  how its stream ends, what was written to it and how much more the peer accepts. A string is
  the list of its UTF-8 bytes.
\<close>

section \<open>White space\<close>

text \<open>\<open>char::is_whitespace\<close> beyond ASCII: the white space characters of two and three bytes.\<close>

definition ws2 :: "char \<Rightarrow> char \<Rightarrow> bool" where
  "ws2 a b \<longleftrightarrow> (of_char a :: nat) = 0xC2 \<and> (of_char b :: nat) \<in> {0x85, 0xA0}"

definition ws3 :: "char \<Rightarrow> char \<Rightarrow> char \<Rightarrow> bool" where
  "ws3 a b c \<longleftrightarrow>
     (let x = (of_char a :: nat); y = (of_char b :: nat); z = (of_char c :: nat) in
        (x = 0xE1 \<and> y = 0x9A \<and> z = 0x80) \<or>
        (x = 0xE2 \<and> y = 0x80 \<and> (0x80 \<le> z \<and> z \<le> 0x8A \<or> z \<in> {0xA8, 0xA9, 0xAF})) \<or>
        (x = 0xE2 \<and> y = 0x81 \<and> z = 0x9F) \<or>
        (x = 0xE3 \<and> y = 0x80 \<and> z = 0x80))"

fun drop_ws :: "(char \<Rightarrow> char \<Rightarrow> bool) \<Rightarrow> (char \<Rightarrow> char \<Rightarrow> char \<Rightarrow> bool) \<Rightarrow> string \<Rightarrow> string" where
  "drop_ws w2 w3 [] = []"
| "drop_ws w2 w3 [a] = (if is_ws a then [] else [a])"
| "drop_ws w2 w3 [a, b] =
     (if is_ws a then drop_ws w2 w3 [b] else if w2 a b then [] else [a, b])"
| "drop_ws w2 w3 (a # b # c # s) =
     (if is_ws a then drop_ws w2 w3 (b # c # s)
      else if w2 a b then drop_ws w2 w3 (c # s)
      else if w3 a b c then drop_ws w2 w3 s
      else a # b # c # s)"

definition trim_start_u :: "string \<Rightarrow> string" where
  "trim_start_u s = drop_ws ws2 ws3 s"

definition trim_end_u :: "string \<Rightarrow> string" where
  "trim_end_u s = rev (drop_ws (\<lambda>z y. ws2 y z) (\<lambda>z y x. ws3 x y z) (rev s))"

definition trim_u :: "string \<Rightarrow> string" where
  "trim_u s = trim_end_u (trim_start_u s)"

text \<open>\<open>split_whitespace\<close>: the first word of a string without leading white space, and the rest.\<close>

fun take_word :: "string \<Rightarrow> string \<times> string" where
  "take_word [] = ([], [])"
| "take_word (a # s) =
     (if trim_start_u (a # s) \<noteq> a # s then ([], a # s)
      else case take_word s of (w, r) \<Rightarrow> (a # w, r))"

definition next_word :: "string \<Rightarrow> string \<times> string" where
  "next_word s = take_word (trim_start_u s)"

section \<open>Connections\<close>

text \<open>\<open>cn_end\<close> is \<open>None\<close> when the peer closes after \<open>cn_in\<close>, or the error the stream ends with;
  \<open>cn_room\<close> is the number of bytes the peer takes before its side is gone, \<open>None\<close> without a limit.\<close>

record conn =
  cn_in :: "byte list"
  cn_end :: "string option"
  cn_out :: "byte list"
  cn_room :: "nat option"

definition read_line :: "conn \<Rightarrow> (string, nat \<times> string) result \<times> conn" where
  "read_line c =
     (let bs = cn_in c;
          line = takeWhile (\<lambda>b. b \<noteq> 10) bs @ (if 10 \<in> set bs then [10] else []);
          c1 = c\<lparr>cn_in := drop (length line) bs\<rparr>;
          got = and_then (from_utf8 ''stream did not contain valid UTF-8'' line) (\<lambda>s. Ok (length line, s))
      in if 10 \<in> set bs then (got, c1)
         else case cn_end c of Some e \<Rightarrow> (Err e, c1) | None \<Rightarrow> (got, c1))"

text \<open>\<open>take(n).read_to_end\<close>.\<close>

definition read_body :: "nat \<Rightarrow> conn \<Rightarrow> (string, byte list) result \<times> conn" where
  "read_body n c =
     (let c1 = c\<lparr>cn_in := drop n (cn_in c)\<rparr> in
      if n \<le> length (cn_in c) then (Ok (take n (cn_in c)), c1)
      else case cn_end c of Some e \<Rightarrow> (Err e, c1) | None \<Rightarrow> (Ok (cn_in c), c1))"

definition write_all :: "byte list \<Rightarrow> conn \<Rightarrow> (string, unit) result \<times> conn" where
  "write_all bs c =
     (case cn_room c of
        None \<Rightarrow> (Ok (), c\<lparr>cn_out := cn_out c @ bs\<rparr>)
      | Some k \<Rightarrow>
          if length bs \<le> k then (Ok (), c\<lparr>cn_out := cn_out c @ bs, cn_room := Some (k - length bs)\<rparr>)
          else (Err ''Broken pipe'', c\<lparr>cn_out := cn_out c @ take k bs, cn_room := Some 0\<rparr>))"

section \<open>Requests\<close>

definition MAX_HEADER_BYTES :: nat where
  "MAX_HEADER_BYTES = 16 * 1024"

record http_request =
  hq_method :: string
  hq_path :: string
  hq_headers :: "(string \<times> string) list"
  hq_content_length :: "u64 option"

definition hq_header :: "http_request \<Rightarrow> string \<Rightarrow> string option" where
  "hq_header r name = map_of (hq_headers r) name"

lemma from_utf8_Ok_length: "from_utf8 e bs = Ok s \<Longrightarrow> length s = length bs"
  by (auto simp: from_utf8_def split: if_splits)

text \<open>The bytes a line takes off the stream are the bytes it counts.\<close>

lemma read_line_shrinks:
  assumes "read_line c = (Ok (n, line), c1)"
  shows "length (cn_in c1) + n = length (cn_in c)"
proof -
  let ?l = "takeWhile (\<lambda>b. b \<noteq> 10) (cn_in c) @ (if 10 \<in> set (cn_in c) then [10] else [])"
  have le: "length ?l \<le> length (cn_in c)"
  proof (cases "10 \<in> set (cn_in c)")
    case True
    then obtain xs ys where "cn_in c = xs @ 10 # ys" "10 \<notin> set xs" by (auto dest: split_list_first)
    then have "takeWhile (\<lambda>b. b \<noteq> 10) (cn_in c) = xs" by (auto simp: takeWhile_append intro!: takeWhile_eq_all_conv [THEN iffD2])
    with \<open>cn_in c = xs @ 10 # ys\<close> show ?thesis by simp
  qed (simp add: length_takeWhile_le)
  from assms have "n = length ?l" "cn_in c1 = drop (length ?l) (cn_in c)"
    by (auto simp: read_line_def Let_def and_then_eq_Inr split: if_splits option.splits)
  with le show ?thesis by simp
qed

function read_headers ::
    "nat \<Rightarrow> (string \<times> string) list \<Rightarrow> u64 option \<Rightarrow> conn \<Rightarrow>
     (string, (string \<times> string) list \<times> u64 option) result \<times> conn" where
  "read_headers header_bytes headers content_length c =
     (case read_line c of
        (Inl e, c1) \<Rightarrow> (Err e, c1)
      | (Inr (n, line), c1) \<Rightarrow>
          if n = 0 then (Err ''connection closed mid-headers'', c1)
          else if header_bytes + n > MAX_HEADER_BYTES then (Err ''header block too large'', c1)
          else if trim_end_u line = [] then (Ok (headers, content_length), c1)
          else case split_once CHR '':'' (trim_end_u line) of
              None \<Rightarrow> read_headers (header_bytes + n) headers content_length c1
            | Some (name, value) \<Rightarrow>
                read_headers (header_bytes + n)
                  (headers @ [(to_lowercase (trim_u name), trim_u value)])
                  (if to_lowercase (trim_u name) = ''content-length'' then parse_u64 (trim_u value)
                   else content_length) c1)"
  by pat_completeness auto
termination
  by (relation "measure (\<lambda>(_, _, _, c). length (cn_in c))") (auto dest!: read_line_shrinks [OF sym])

declare read_headers.simps [simp del]

definition read_request :: "conn \<Rightarrow> (string, http_request option) result \<times> conn" where
  "read_request c =
     (case read_line c of
        (Inl e, c1) \<Rightarrow> (Err e, c1)
      | (Inr (n, request_line), c1) \<Rightarrow>
          if n = 0 then (Ok None, c1)
          else (case next_word request_line of (meth, rest) \<Rightarrow>
                case next_word rest of (path, _) \<Rightarrow>
                  sbind (read_headers 0 [] None) (\<lambda>(headers, content_length).
                    sreturn (Some \<lparr>hq_method = meth, hq_path = path, hq_headers = headers,
                                   hq_content_length = content_length\<rparr>)) c1))"

section \<open>Responses\<close>

definition crlf :: string where
  "crlf = [CHR 0x0D, CHR 0x0A]"

definition header_line :: "string \<Rightarrow> string \<Rightarrow> string" where
  "header_line name value = name @ '': '' @ value @ crlf"

definition response_head :: "string \<Rightarrow> string \<Rightarrow> string option \<Rightarrow> (string \<times> string) list \<Rightarrow> nat \<Rightarrow> string" where
  "response_head status content_type protocol_version extra_headers len =
     ''HTTP/1.1 '' @ status @ crlf @ header_line ''Content-Type'' content_type @
     header_line ''Content-Length'' (show_nat len) @
     (case protocol_version of Some v \<Rightarrow> header_line ''MCP-Protocol-Version'' v | None \<Rightarrow> []) @
     concat (map (\<lambda>(n, v). header_line n v) extra_headers) @
     header_line ''Connection'' ''close'' @ crlf"

definition write_response ::
    "string \<Rightarrow> string \<Rightarrow> string option \<Rightarrow> (string \<times> string) list \<Rightarrow> byte list \<Rightarrow> conn \<Rightarrow>
     (string, unit) result \<times> conn" where
  "write_response status content_type protocol_version extra_headers body =
     sbind (write_all (as_bytes (response_head status content_type protocol_version extra_headers (length body))))
       (\<lambda>_. write_all body)"

end
