(* ===== verification/Mcp.thy ===== *)
theory Mcp
  imports Mcp_Http Config Sui_Bridge
begin

text \<open>
  The read-only MCP server (\<open>crates/node/src/mcp.rs\<close>): the five tools over the node's data directory, the
  Sui registry, the Walrus aggregator and the bridge Vault, the JSON-RPC dispatch, and the
  handler of one connection. The texts of JSON values, HTTP, hex, base64 and BCS are foreign.
\<close>

section \<open>Server and environment\<close>

definition LATEST_PROTOCOL_VERSION :: string where
  "LATEST_PROTOCOL_VERSION = ''2025-06-18''"

definition SUPPORTED_PROTOCOL_VERSIONS :: "string list" where
  "SUPPORTED_PROTOCOL_VERSIONS = [''2025-06-18'', ''2025-03-26'']"

definition MAX_BODY_BYTES :: u64 where
  "MAX_BODY_BYTES = 2 ^ 20"

definition SUI_READ_TIMEOUT_SECS :: nat where
  "SUI_READ_TIMEOUT_SECS = 10"

record tool_outcome =
  to_text :: string
  to_is_error :: bool

record mcp_server =
  mv_mode :: string
  mv_data_dir :: path
  mv_registry_id :: "string option"
  mv_settlement_package_id :: "string option"
  mv_bridge_vault_id :: "string option"
  mv_sui :: walrus_config
  mv_rpc_url :: string

text \<open>\<open>mp_timed_out n\<close>: the \<open>n\<close>-th Sui read does not answer in time. \<open>mp_others n\<close>: what the running
  node does to the disk before the \<open>n\<close>-th access of the server. \<open>mp_list\<close> lists a directory.\<close>

record mcp_env =
  mp_rpc :: rpc_env
  mp_timed_out :: "nat \<Rightarrow> bool"
  mp_parse_address :: "string \<Rightarrow> (string, address) result"
  mp_registry :: "byte list \<Rightarrow> (string, registry_bcs) result"
  mp_field :: "byte list \<Rightarrow> (string, byte list field_bcs) result"
  mp_vault :: vault_decoders
  mp_get :: "nat \<Rightarrow> http_get"
  mp_b64_encode :: "byte list \<Rightarrow> string"
  mp_b64_decode :: "string \<Rightarrow> (string, byte list) result"
  mp_wire :: "byte list \<Rightarrow> (string, wire_block list) result"
  mp_io :: io
  mp_others :: "nat \<Rightarrow> disk \<Rightarrow> disk"
  mp_list :: "path \<Rightarrow> disk \<Rightarrow> string list option"
  mp_pending_json :: "u64 list json"
  mp_state_json :: "chain_state json"
  mp_block :: "byte list \<Rightarrow> (string, block) result"
  mp_hex :: "byte list \<Rightarrow> string"
  mp_to_string :: "jv \<Rightarrow> string"
  mp_pretty :: "jv \<Rightarrow> (string, string) result"
  mp_from_slice :: "byte list \<Rightarrow> (string, jv) result"

text \<open>The cached table UID, the disk, and the counts of disk and network reads.\<close>

record mcp_state =
  mt_uid :: "address option"
  mt_disk :: disk
  mt_ops :: nat
  mt_reads :: nat

definition mcp_from_config :: "config \<Rightarrow> mcp_server" where
  "mcp_from_config c =
     \<lparr>mv_mode = cf_mode c, mv_data_dir = cf_data_dir c, mv_registry_id = sc_registry_id (cf_sui c),
      mv_settlement_package_id = sc_settlement_package_id (cf_sui c),
      mv_bridge_vault_id = bc_vault_id (cf_bridge c),
      mv_sui = \<lparr>publisher_url = wc_publisher_url (cf_walrus c), aggregator_url = wc_aggregator_url (cf_walrus c),
                epochs = wc_epochs (cf_walrus c), publisher_auth_token = wc_publisher_auth_token (cf_walrus c)\<rparr>,
      mv_rpc_url = sc_rpc_url (cf_sui c)\<rparr>"

definition mcp_on_disk :: "mcp_env \<Rightarrow> (disk \<Rightarrow> 'a \<times> disk) \<Rightarrow> mcp_state \<Rightarrow> 'a \<times> mcp_state" where
  "mcp_on_disk p f s =
     (case f (mp_others p (mt_ops s) (mt_disk s)) of
        (r, d) \<Rightarrow> (r, s\<lparr>mt_disk := d, mt_ops := Suc (mt_ops s)\<rparr>))"

text \<open>The \<open>n\<close>-th network read.\<close>

definition on_net :: "(nat \<Rightarrow> 'a) \<Rightarrow> mcp_state \<Rightarrow> 'a \<times> mcp_state" where
  "on_net f s = (f (mt_reads s), s\<lparr>mt_reads := Suc (mt_reads s)\<rparr>)"

definition timeout_ok :: "mcp_env \<Rightarrow> ('e \<Rightarrow> string) \<Rightarrow> (nat \<Rightarrow> ('e, 'a) result) \<Rightarrow> nat \<Rightarrow> (string, 'a) result" where
  "timeout_ok p show_err fut n =
     (if mp_timed_out p n then Err (''sui rpc timed out after '' @ show_nat SUI_READ_TIMEOUT_SECS @ ''s'')
      else map_err show_err (fut n))"

section \<open>JSON texts\<close>

definition j_u64 :: "u64 \<Rightarrow> jv" where "j_u64 w = JNum (uint w)"
definition j_len :: "'a list \<Rightarrow> jv" where "j_len xs = JNum (int (length xs))"

definition j_option :: "('a \<Rightarrow> jv) \<Rightarrow> 'a option \<Rightarrow> jv" where
  "j_option f x = (case x of None \<Rightarrow> JNull | Some y \<Rightarrow> f y)"

definition as_u64 :: "jv \<Rightarrow> u64 option" where
  "as_u64 v = (case v of JNum i \<Rightarrow> if 0 \<le> i \<and> i < 2 ^ 64 then Some (word_of_int i) else None | _ \<Rightarrow> None)"

text \<open>\<open>result["key"] = value\<close> on an object without that key.\<close>

definition j_set :: "string \<Rightarrow> jv \<Rightarrow> jv \<Rightarrow> jv" where
  "j_set k x v = (case v of JObj kvs \<Rightarrow> JObj (kvs @ [(k, x)]) | _ \<Rightarrow> v)"

definition pretty :: "mcp_env \<Rightarrow> jv \<Rightarrow> string" where
  "pretty p v = (case mp_pretty p v of Inr t \<Rightarrow> t | Inl _ \<Rightarrow> [])"

definition error_outcome :: "string \<Rightarrow> tool_outcome" where
  "error_outcome message = \<lparr>to_text = message, to_is_error = True\<rparr>"

definition text_outcome :: "string \<Rightarrow> tool_outcome" where
  "text_outcome t = \<lparr>to_text = t, to_is_error = False\<rparr>"

definition hex0x :: "mcp_env \<Rightarrow> hash \<Rightarrow> string" where
  "hex0x p h = ''0x'' @ mp_hex p (to_vec h)"

definition chain_json :: "chain_state \<Rightarrow> jv" where
  "chain_json s = JObj [(''height'', j_u64 (cs_height s)), (''head'', JStr (cs_head s)), (''safe'', JStr (cs_safe s)),
     (''finalized'', JStr (cs_finalized s)), (''timestamp'', j_u64 (cs_timestamp s))]"

definition block_brief :: "block \<Rightarrow> jv" where
  "block_brief b = JObj [(''height'', j_u64 (height (header b))), (''timestamp'', j_u64 (timestamp (header b))),
     (''data_len'', j_len (data b)), (''signed'', JBool (signature b \<noteq> None))]"

definition stored_block_count :: "string list option \<Rightarrow> nat" where
  "stored_block_count names =
     (case names of None \<Rightarrow> 0 | Some ns \<Rightarrow> length (filter (\<lambda>n. parse_u64 n \<noteq> None) ns))"

section \<open>Tools\<close>

definition commitments_table_uid :: "mcp_env \<Rightarrow> mcp_server \<Rightarrow> mcp_state \<Rightarrow> (string, address) result \<times> mcp_state" where
  "commitments_table_uid p v s =
     (case mt_uid s of
        Some uid \<Rightarrow> (Ok uid, s)
      | None \<Rightarrow>
          (case mv_registry_id v of
             None \<Rightarrow> (Err ''settlement not configured'', s)
           | Some registry \<Rightarrow>
               (case on_net (timeout_ok p settlement_error_display
                        (\<lambda>n. table_uid (mp_rpc p) (mp_parse_address p) (mp_registry p) n (mv_rpc_url v) registry)) s of
                  (Inl e, s1) \<Rightarrow> (Err e, s1)
                | (Inr uid, s1) \<Rightarrow> (Ok uid, s1\<lparr>mt_uid := Some uid\<rparr>))))"

definition blob_id_for_height ::
    "mcp_env \<Rightarrow> mcp_server \<Rightarrow> u64 \<Rightarrow> mcp_state \<Rightarrow> (jv \<times> string option) \<times> mcp_state" where
  "blob_id_for_height p v ht s =
     (if mv_registry_id v = None then ((JNull, None), s)
      else case commitments_table_uid p v s of
          (Inl e, s1) \<Rightarrow> ((JNull, Some e), s1)
        | (Inr uid, s1) \<Rightarrow>
            (case on_net (timeout_ok p settlement_error_display
                     (\<lambda>n. commitment_at (mp_rpc p) (mp_field p) n (mv_rpc_url v) uid ht)) s1 of
               (Inr (Some blob), s2) \<Rightarrow> ((JStr (blob_id_encode (mp_b64_encode p) blob), None), s2)
             | (Inr None, s2) \<Rightarrow> ((JNull, None), s2)
             | (Inl e, s2) \<Rightarrow> ((JNull, Some e), s2)))"

definition settled_height_read :: "mcp_env \<Rightarrow> mcp_server \<Rightarrow> string \<Rightarrow> mcp_state \<Rightarrow> (string, u64) result \<times> mcp_state" where
  "settled_height_read p v registry =
     on_net (timeout_ok p settlement_error_display
       (\<lambda>n. latest_height (mp_rpc p) (mp_parse_address p) n (mv_rpc_url v) registry))"

definition settlement_section ::
    "mcp_env \<Rightarrow> mcp_server \<Rightarrow> u64 option \<Rightarrow> mcp_state \<Rightarrow> jv \<times> mcp_state" where
  "settlement_section p v latest_block s =
     (case mv_registry_id v of
        None \<Rightarrow> (JObj [(''configured'', JBool False)], s)
      | Some registry \<Rightarrow>
          (let sect = JObj [(''configured'', JBool True), (''registry_id'', JStr registry),
                            (''package_id'', j_option JStr (mv_settlement_package_id v))]
           in case settled_height_read p v registry s of
                (Inr settled, s1) \<Rightarrow>
                  (j_set ''lag'' (j_option (\<lambda>latest. j_u64 (if settled \<le> latest then latest - settled else 0)) latest_block)
                     (j_set ''settled_height'' (j_u64 settled) sect), s1)
              | (Inl e, s1) \<Rightarrow> (j_set ''error'' (JStr e) sect, s1)))"

definition tool_status :: "mcp_env \<Rightarrow> mcp_server \<Rightarrow> mcp_state \<Rightarrow> tool_outcome \<times> mcp_state" where
  "tool_status p v s =
     (case mcp_on_disk p (state_load (mp_io p) (mp_state_json p) (mv_data_dir v)) s of (state, s1) \<Rightarrow>
      case mcp_on_disk p (store_pending (mp_io p) (mp_pending_json p) (mv_data_dir v)) s1 of (pending, s2) \<Rightarrow>
      case (state, pending) of
        (Inl e, _) \<Rightarrow> (error_outcome (''reading store: '' @ store_error_display e), s2)
      | (Inr _, Inl e) \<Rightarrow> (error_outcome (''reading pending markers: '' @ store_error_display e), s2)
      | (Inr chain, Inr pending_heights) \<Rightarrow>
          (case mcp_on_disk p (\<lambda>d. (block_latest_height (mp_list p (mv_data_dir v @ ''/blocks'') d), d)) s2 of (latest_block, s3) \<Rightarrow>
           case mcp_on_disk p (\<lambda>d. (stored_block_count (mp_list p (mv_data_dir v @ ''/blocks'') d), d)) s3 of (stored_blocks, s4) \<Rightarrow>
           case settlement_section p v latest_block s4 of (settlement, s5) \<Rightarrow>
             (text_outcome (pretty p (JObj
                [(''mode'', JStr (mv_mode v)),
                 (''data_dir'', JStr (mv_data_dir v)),
                 (''chain'', j_option chain_json chain),
                 (''latest_block'', j_option j_u64 latest_block),
                 (''stored_blocks'', JNum (int stored_blocks)),
                 (''pending_heights'', JArr (map j_u64 pending_heights)),
                 (''settlement'', settlement),
                 (''bridge'', JObj [(''configured'', JBool (mv_bridge_vault_id v \<noteq> None)),
                                    (''vault_id'', j_option JStr (mv_bridge_vault_id v))])])), s5)))"

definition tool_get_block :: "mcp_env \<Rightarrow> mcp_server \<Rightarrow> jv \<Rightarrow> mcp_state \<Rightarrow> tool_outcome \<times> mcp_state" where
  "tool_get_block p v args s =
     (case Option.bind (jget ''height'' args) as_u64 of
        None \<Rightarrow> (error_outcome ''missing required argument: height (integer)'', s)
      | Some ht \<Rightarrow>
          (case mcp_on_disk p (block_get (mp_io p) (mp_block p) (mv_data_dir v) ht) s of
             (Inl (BlockNotFound _), s1) \<Rightarrow>
               (text_outcome (''Block '' @ show_u64 ht @ '' not found in the local store''), s1)
           | (Inl e, s1) \<Rightarrow> (error_outcome (''reading block: '' @ store_error_display e), s1)
           | (Inr b, s1) \<Rightarrow>
               (case mcp_on_disk p (store_pending (mp_io p) (mp_pending_json p) (mv_data_dir v)) s1 of (pending, s2) \<Rightarrow>
                case blob_id_for_height p v ht s2 of ((settled_blob_id, settlement_error), s3) \<Rightarrow>
                let pending_finalization = (case pending of Inr hs \<Rightarrow> ht \<in> set hs | Inl _ \<Rightarrow> False);
                    res = JObj [(''height'', j_u64 (height (header b))),
                                (''parent_hash'', JStr (hex0x p (parent_hash (header b)))),
                                (''state_root'', JStr (hex0x p (state_root (header b)))),
                                (''timestamp'', j_u64 (timestamp (header b))),
                                (''data_len'', j_len (data b)),
                                (''signed'', JBool (signature b \<noteq> None)),
                                (''pending_finalization'', JBool pending_finalization),
                                (''settled_blob_id'', settled_blob_id)]
                in (text_outcome (pretty p
                      (case settlement_error of Some e \<Rightarrow> j_set ''settlement_error'' (JStr e) res | None \<Rightarrow> res)), s3))))"

definition tool_get_blob :: "mcp_env \<Rightarrow> mcp_server \<Rightarrow> jv \<Rightarrow> mcp_state \<Rightarrow> tool_outcome \<times> mcp_state" where
  "tool_get_blob p v args s =
     (case Option.bind (jget ''blob_id'' args) as_str of
        None \<Rightarrow> (error_outcome ''missing required argument: blob_id (base64url)'', s)
      | Some blob \<Rightarrow>
          (case blob_id_decode (mp_b64_decode p) blob of
             Inl e \<Rightarrow> (error_outcome (''invalid blob_id: '' @ sui_error_display e), s)
           | Inr i \<Rightarrow>
               (case on_net (\<lambda>n. fetch_blob (mp_get p n) (mp_b64_encode p) (mv_sui v) i) s of
                  (Inl e, s1) \<Rightarrow> (error_outcome (''fetching blob from Walrus: '' @ sui_error_display e), s1)
                | (Inr bytes, s1) \<Rightarrow>
                    (case decode (mp_wire p) bytes of
                       Inr blocks \<Rightarrow>
                         (text_outcome (pretty p (JObj
                            [(''blob_id'', JStr blob), (''size'', j_len bytes), (''block_count'', j_len blocks),
                             (''blocks'', JArr (map block_brief blocks))])), s1)
                     | Inl _ \<Rightarrow>
                         (text_outcome (pretty p (JObj
                            [(''blob_id'', JStr blob), (''size'', j_len bytes), (''decoded'', JBool False)])), s1)))))"

definition tool_settlement :: "mcp_env \<Rightarrow> mcp_server \<Rightarrow> jv \<Rightarrow> mcp_state \<Rightarrow> tool_outcome \<times> mcp_state" where
  "tool_settlement p v args s =
     (case mv_registry_id v of
        None \<Rightarrow> (error_outcome ''settlement not configured (set sui.registry_id in the config)'', s)
      | Some registry \<Rightarrow>
          (case settled_height_read p v registry s of
             (Inl e, s1) \<Rightarrow> (error_outcome (''reading settlement registry: '' @ e), s1)
           | (Inr latest, s1) \<Rightarrow>
               (let res = JObj [(''registry_id'', JStr registry),
                                (''package_id'', j_option JStr (mv_settlement_package_id v)),
                                (''latest_settled_height'', j_u64 latest)]
                in case Option.bind (jget ''height'' args) as_u64 of
                     None \<Rightarrow> (text_outcome (pretty p res), s1)
                   | Some ht \<Rightarrow>
                       (case blob_id_for_height p v ht s1 of
                          ((JNull, None), s2) \<Rightarrow>
                            (text_outcome (pretty p (j_set ''commitment''
                               (JObj [(''height'', j_u64 ht), (''blob_id'', JNull)]) res)), s2)
                        | ((blob, _), s2) \<Rightarrow>
                            (text_outcome (pretty p (j_set ''commitment''
                               (JObj [(''height'', j_u64 ht), (''blob_id'', blob)]) res)), s2)))))"

definition tool_bridge :: "mcp_env \<Rightarrow> mcp_server \<Rightarrow> mcp_state \<Rightarrow> tool_outcome \<times> mcp_state" where
  "tool_bridge p v s =
     (case mv_bridge_vault_id v of
        None \<Rightarrow> (error_outcome ''bridge not configured (set bridge.vault_id in the config)'', s)
      | Some vault \<Rightarrow>
          (case on_net (timeout_ok p bridge_error_display
                   (\<lambda>n. vault_status (mp_rpc p) (mp_vault p) (mp_parse_address p) n (mv_rpc_url v) vault)) s of
             (Inr status, s1) \<Rightarrow>
               (text_outcome (pretty p (JObj
                  [(''vault_id'', JStr vault), (''next_deposit_nonce'', j_u64 (vs_deposit_nonce status)),
                   (''next_withdraw_nonce'', j_u64 (vs_withdraw_nonce status))])), s1)
           | (Inl e, s1) \<Rightarrow> (error_outcome (''reading bridge vault: '' @ e), s1)))"

definition call_tool ::
    "mcp_env \<Rightarrow> mcp_server \<Rightarrow> string \<Rightarrow> jv \<Rightarrow> mcp_state \<Rightarrow> tool_outcome option \<times> mcp_state" where
  "call_tool p v name args s =
     (if name = ''status'' then map_prod Some id (tool_status p v s)
      else if name = ''get_block'' then map_prod Some id (tool_get_block p v args s)
      else if name = ''get_blob'' then map_prod Some id (tool_get_blob p v args s)
      else if name = ''settlement'' then map_prod Some id (tool_settlement p v args s)
      else if name = ''bridge'' then map_prod Some id (tool_bridge p v s)
      else (None, s))"

section \<open>JSON-RPC\<close>

definition ok_response :: "jv \<Rightarrow> jv \<Rightarrow> jv" where
  "ok_response i res = JObj [(''jsonrpc'', JStr ''2.0''), (''id'', i), (''result'', res)]"

definition err_response :: "jv \<Rightarrow> int \<Rightarrow> string \<Rightarrow> jv" where
  "err_response i code message =
     JObj [(''jsonrpc'', JStr ''2.0''), (''id'', i),
           (''error'', JObj [(''code'', JNum code), (''message'', JStr message)])]"

definition tool_entry :: "string \<Rightarrow> string \<Rightarrow> jv \<Rightarrow> jv" where
  "tool_entry name description schema =
     JObj [(''name'', JStr name), (''description'', JStr description), (''inputSchema'', schema)]"

definition argument :: "string \<Rightarrow> string \<Rightarrow> string \<Rightarrow> jv" where
  "argument name description ty =
     JObj [(name, JObj [(''description'', JStr description), (''type'', JStr ty)])]"

definition object_schema :: "jv \<Rightarrow> (string \<times> jv) list \<Rightarrow> jv" where
  "object_schema properties rest = JObj ([(''type'', JStr ''object''), (''properties'', properties)] @ rest)"

definition tools_metadata :: jv where
  "tools_metadata = JArr
     [tool_entry ''status''
        ''Podseq node status: mode, chain head from the local store, stored block count, heights pending finalization, and settlement progress (settled height, lag).''
        (object_schema (JObj []) []),
      tool_entry ''get_block''
        ''Fetch a podseq block from the local store by height: header hashes, timestamp, payload size, signature presence, whether it is still pending finalization, and the Walrus blob id it settled into (when configured).''
        (object_schema (argument ''height'' ''Block height.'' ''integer'') [(''required'', JArr [JStr ''height''])]),
      tool_entry ''get_blob''
        ''Fetch a Walrus blob by id from the aggregator and decode the podseq block batch it carries.''
        (object_schema
          (argument ''blob_id'' ''Walrus blob id, base64url (as logged by the node and reported by get_block).'' ''string'')
          [(''required'', JArr [JStr ''blob_id''])]),
      tool_entry ''settlement''
        ''Sui settlement registry: latest settled height, and optionally the Walrus blob commitment for one height.''
        (object_schema (argument ''height'' ''Height to look up the settled blob id for. Optional.'' ''integer'') []),
      tool_entry ''bridge''
        ''Bridge vault state on Sui: next deposit and withdraw nonce.''
        (object_schema (JObj []) [])]"

text \<open>\<open>pointer("/params/<key>")\<close>.\<close>

definition param :: "string \<Rightarrow> jv \<Rightarrow> jv option" where
  "param k message = Option.bind (jget ''params'' message) (jget k)"

definition initialize_result :: "jv \<Rightarrow> jv" where
  "initialize_result message =
     (let requested = Option.bind (param ''protocolVersion'' message) as_str;
          negotiated = (case requested of
              Some r \<Rightarrow> if r \<in> set SUPPORTED_PROTOCOL_VERSIONS then r else LATEST_PROTOCOL_VERSION
            | None \<Rightarrow> LATEST_PROTOCOL_VERSION)
      in JObj [(''protocolVersion'', JStr negotiated),
               (''capabilities'', JObj [(''tools'', JObj [(''listChanged'', JBool False)])]),
               (''serverInfo'', JObj [(''name'', JStr ''podseq''), (''version'', JStr ''0.1.0'')]),
               (''instructions'', JStr ''Read-only inspection of a podseq node: local store, Sui settlement, Walrus data availability, and the bridge. Nothing is signed or sent.'')])"

definition dispatch :: "mcp_env \<Rightarrow> mcp_server \<Rightarrow> jv \<Rightarrow> mcp_state \<Rightarrow> jv option \<times> mcp_state" where
  "dispatch p v message s =
     (case jget ''id'' message of
        None \<Rightarrow> (None, s)
      | Some i \<Rightarrow>
          (case Option.bind (jget ''method'' message) as_str of
             None \<Rightarrow> (Some (err_response i (-32600) ''missing method''), s)
           | Some meth \<Rightarrow>
               if meth = ''initialize'' then (Some (ok_response i (initialize_result message)), s)
               else if meth = ''ping'' then (Some (ok_response i (JObj [])), s)
               else if meth = ''tools/list'' then (Some (ok_response i (JObj [(''tools'', tools_metadata)])), s)
               else if meth = ''tools/call'' then
                 (let name = (case Option.bind (param ''name'' message) as_str of Some n \<Rightarrow> n | None \<Rightarrow> []);
                      arguments = (case param ''arguments'' message of Some a \<Rightarrow> a | None \<Rightarrow> JObj [])
                  in case call_tool p v name arguments s of
                       (Some outcome, s1) \<Rightarrow>
                         (Some (ok_response i (JObj
                            [(''content'', JArr [JObj [(''type'', JStr ''text''), (''text'', JStr (to_text outcome))]]),
                             (''isError'', JBool (to_is_error outcome))])), s1)
                     | (None, s1) \<Rightarrow> (Some (err_response i (-32602) (''unknown tool: '' @ name)), s1))
               else (Some (err_response i (-32601) (''method not found: '' @ meth)), s)))"

text \<open>The entries of a batch, one after the other.\<close>

definition is_obj :: "jv \<Rightarrow> bool" where
  "is_obj v = (case v of JObj _ \<Rightarrow> True | _ \<Rightarrow> False)"

primrec dispatch_batch :: "mcp_env \<Rightarrow> mcp_server \<Rightarrow> jv list \<Rightarrow> mcp_state \<Rightarrow> jv list \<times> mcp_state" where
  "dispatch_batch p v [] s = ([], s)"
| "dispatch_batch p v (entry # entries) s =
     (case (if is_obj entry then dispatch p v entry s
            else (Some (err_response JNull (-32600) ''invalid request''), s)) of
        (response, s1) \<Rightarrow>
          (case dispatch_batch p v entries s1 of (responses, s2) \<Rightarrow>
             ((case response of Some r \<Rightarrow> r # responses | None \<Rightarrow> responses), s2)))"

section \<open>Connections\<close>

text \<open>The answers given before the body is read.\<close>

datatype http_reply = Reply string string "string option" "(string \<times> string) list" "byte list"

fun send :: "http_reply \<Rightarrow> conn \<Rightarrow> (string, unit) result \<times> conn" where
  "send (Reply status ctype version extra body) = write_response status ctype version extra body"

definition plain :: "string \<Rightarrow> string \<Rightarrow> http_reply" where
  "plain status msg = Reply status ''text/plain'' None [] (as_bytes msg)"

definition body_length :: "http_request \<Rightarrow> http_reply + u64" where
  "body_length r =
     (if hq_header r ''transfer-encoding'' \<noteq> None then
        Inl (plain ''400 Bad Request'' ''chunked bodies are not supported'')
      else case hq_content_length r of
          None \<Rightarrow> Inl (plain ''400 Bad Request'' ''content-length required'')
        | Some n \<Rightarrow>
            if n > MAX_BODY_BYTES then Inl (plain ''413 Content Too Large'' ''body too large'') else Inr n)"

definition refuse_request :: "http_request \<Rightarrow> http_reply + u64" where
  "refuse_request r =
     (if hq_path r \<noteq> ''/mcp'' then Inl (plain ''404 Not Found'' ''not found'')
      else if hq_method r \<noteq> ''POST'' then
        Inl (Reply ''405 Method Not Allowed'' ''text/plain'' None [(''Allow'', ''POST'')]
               (as_bytes ''POST JSON-RPC messages only''))
      else case hq_header r ''mcp-protocol-version'' of
          Some version \<Rightarrow>
            if version \<notin> set SUPPORTED_PROTOCOL_VERSIONS then
              Inl (plain ''400 Bad Request'' (''unsupported MCP-Protocol-Version: '' @ version))
            else body_length r
        | None \<Rightarrow> body_length r)"

definition version_header :: "http_request \<Rightarrow> string" where
  "version_header r =
     (case hq_header r ''mcp-protocol-version'' of
        Some v \<Rightarrow> if v \<in> set SUPPORTED_PROTOCOL_VERSIONS then v else LATEST_PROTOCOL_VERSION
      | None \<Rightarrow> LATEST_PROTOCOL_VERSION)"

text \<open>What a body is answered with.\<close>

definition answer_body ::
    "mcp_env \<Rightarrow> mcp_server \<Rightarrow> http_request \<Rightarrow> byte list \<Rightarrow> mcp_state \<Rightarrow> http_reply \<times> mcp_state" where
  "answer_body p v r body s =
     (let accepted = Reply ''202 Accepted'' ''text/plain'' (Some (version_header r)) [] [];
          ok = (\<lambda>response. Reply ''200 OK'' ''application/json'' (Some (version_header r)) []
                             (as_bytes (mp_to_string p response)))
      in case mp_from_slice p body of
           Inl _ \<Rightarrow> (plain ''400 Bad Request'' ''invalid JSON'', s)
         | Inr (JArr entries) \<Rightarrow>
             (case dispatch_batch p v entries s of (responses, s1) \<Rightarrow>
                (if responses = [] then accepted else ok (JArr responses), s1))
         | Inr (JObj kvs) \<Rightarrow>
             (case dispatch p v (JObj kvs) s of
                (None, s1) \<Rightarrow> (accepted, s1)
              | (Some response, s1) \<Rightarrow> (ok response, s1))
         | Inr _ \<Rightarrow> (plain ''400 Bad Request'' ''expected a JSON object or array'', s))"

definition handle_connection ::
    "mcp_env \<Rightarrow> mcp_server \<Rightarrow> conn \<Rightarrow> mcp_state \<Rightarrow> (string, unit) result \<times> conn \<times> mcp_state" where
  "handle_connection p v c s =
     (case read_request c of
        (Inl e, c1) \<Rightarrow> (Err e, c1, s)
      | (Inr None, c1) \<Rightarrow> (Ok (), c1, s)
      | (Inr (Some r), c1) \<Rightarrow>
          (case refuse_request r of
             Inl reply \<Rightarrow> (case send reply c1 of (x, c2) \<Rightarrow> (x, c2, s))
           | Inr content_length \<Rightarrow>
               (case read_body (unat content_length) c1 of
                  (Inl e, c2) \<Rightarrow> (Err e, c2, s)
                | (Inr body, c2) \<Rightarrow>
                    if length body < unat content_length then
                      (Err ''client closed the connection mid-body'', c2, s)
                    else (case answer_body p v r body s of (reply, s1) \<Rightarrow>
                          case send reply c2 of (x, c3) \<Rightarrow> (x, c3, s1)))))"

text \<open>The accept loop: what it hands to a handler task until the shutdown signal.\<close>

datatype accept_event = Accepted conn | AcceptFailed string | ShutdownSignal

fun serve_on :: "accept_event list \<Rightarrow> conn list" where
  "serve_on [] = []"
| "serve_on (Accepted c # es) = c # serve_on es"
| "serve_on (AcceptFailed _ # es) = serve_on es"
| "serve_on (ShutdownSignal # es) = []"

end
