(* ===== verification/Node_Main.thy ===== *)
theory Node_Main
  imports Node_Setup_Safety Full_Node Inbox_Tracker Mcp
begin

text \<open>
  The program itself (\<open>crates/node/src/main.rs\<close>): the command dispatch, and what starting a
  sequencer or a full node resolves from the configuration, in the order the code does it, up to the
  point where the node's loop runs. Tasks are what is handed to them.
\<close>

section \<open>Environment\<close>

text \<open>\<open>ma_socket\<close> parses a socket address, which is kept by its text; \<open>ma_auth\<close> reads the engine's
  JWT secret and \<open>ma_engine\<close>, \<open>ma_client\<close> build the HTTP clients.\<close>

record ('key, 'tx, 'sg, 'sk, 'pk, 'auth) main_env =
  ma_node :: "('key, 'tx, 'sg) node_env"
  ma_suiprivkey :: "string \<Rightarrow> (string, 'key) result"
  ma_base64 :: "string \<Rightarrow> (string, byte list) result"
  ma_new_key :: "hash \<Rightarrow> 'key"
  ma_socket :: "string \<Rightarrow> (string, string) result"
  ma_kc :: "('sk, 'pk) key_codec"
  ma_load_pubkey :: "hash \<Rightarrow> (string, 'pk) result"
  ma_fresh :: 'sk
  ma_auth :: "path \<Rightarrow> disk \<Rightarrow> (string, 'auth) result"
  ma_engine :: "string \<Rightarrow> 'auth \<Rightarrow> (string, unit) result"
  ma_client :: "(string, unit) result"
  ma_hash :: "string \<Rightarrow> (string, hash) result"
  ma_fee :: "string \<Rightarrow> (string, 20 barray) result"
  ma_transport :: "string \<Rightarrow> transport"
  ma_tracker :: tracker
  ma_verifying_key :: "string \<Rightarrow> (string, 'pk) result"

text \<open>Both readers of the signer key file go through \<open>parse_signer_key\<close>.\<close>

definition signer_key_of :: "('key, 'tx, 'sg, 'sk, 'pk, 'auth) main_env \<Rightarrow> string \<Rightarrow> (string, 'key) result" where
  "signer_key_of m = parse_signer_key (ma_suiprivkey m) (ma_base64 m) (ma_new_key m)"

definition setup_env :: "('key, 'tx, 'sg, 'sk, 'pk, 'auth) main_env \<Rightarrow> ('key, 'tx, 'sg) node_env" where
  "setup_env m = (ma_node m)\<lparr>ne_parse_key := signer_key_of m\<rparr>"

definition ma_io :: "('key, 'tx, 'sg, 'sk, 'pk, 'auth) main_env \<Rightarrow> io" where
  "ma_io m = ne_io (ma_node m)"

section \<open>Configuration and metrics\<close>

definition load_config ::
    "('key, 'tx, 'sg, 'sk, 'pk, 'auth) main_env \<Rightarrow> path option \<Rightarrow> disk \<Rightarrow> (string, config) result \<times> disk" where
  "load_config m config_path =
     sbind (slift (ok_or ''no config file provided (use --config or PODSEQ_CONFIG)'' config_path)) (\<lambda>p.
       config_load (ma_io m) (ne_toml (ma_node m)) p)"

text \<open>The address of the metrics endpoint that is started.\<close>

definition start_metrics_endpoint ::
    "('key, 'tx, 'sg, 'sk, 'pk, 'auth) main_env \<Rightarrow> config \<Rightarrow> (string, string option) result" where
  "start_metrics_endpoint m c =
     (if \<not> mc_enabled (cf_metrics c) then Ok None
      else and_then (map_err (\<lambda>_. ''invalid metrics.listen_addr'') (ma_socket m (mc_listen_addr (cf_metrics c)))) (\<lambda>a.
        Ok (Some a)))"

text \<open>The SUI balance gauge (an \<open>i64\<close>) over the answers of \<open>sui_balance\<close>; the loop ends without a
  signer, or with the answers at shutdown.\<close>

fun refresh_sui_gas_balance :: "(sui_error, u64 option) result list \<Rightarrow> int \<Rightarrow> int" where
  "refresh_sui_gas_balance [] gauge = gauge"
| "refresh_sui_gas_balance (Inr (Some mist) # rest) gauge = refresh_sui_gas_balance rest (sint mist)"
| "refresh_sui_gas_balance (Inr None # rest) gauge = gauge"
| "refresh_sui_gas_balance (Inl _ # rest) gauge = refresh_sui_gas_balance rest gauge"

section \<open>Advertising\<close>

definition require_text :: "string option \<Rightarrow> string option" where
  "require_text x = (case x of Some v \<Rightarrow> if trim v \<noteq> [] then Some (trim v) else None | None \<Rightarrow> None)"

definition p2p_identity ::
    "('key, 'tx, 'sg, 'sk, 'pk, 'auth) main_env \<Rightarrow> config \<Rightarrow> disk \<Rightarrow> hash option \<times> disk" where
  "p2p_identity m c d =
     (case read_pubkey_hex (ma_io m) (ma_kc m) (case pn_key_path (cf_p2p c) of Some p \<Rightarrow> p | None \<Rightarrow> []) d of
        (Inl _, d1) \<Rightarrow> (None, d1)
      | (Inr hex, d1) \<Rightarrow>
          (case kc_hex_decode (ma_kc m) hex of Inl _ \<Rightarrow> (None, d1) | Inr bytes \<Rightarrow> (try_into bytes, d1)))"

definition advertise_targets ::
    "('key, 'tx, 'sg, 'sk, 'pk, 'auth) main_env \<Rightarrow> config \<Rightarrow> disk \<Rightarrow> (peer_targets \<times> hash \<times> string) option \<times> disk" where
  "advertise_targets m c d =
     (case (require_text (sc_settlement_package_id (cf_sui c)), require_text (sc_registry_id (cf_sui c)),
            require_text (pn_dialable_addr (cf_p2p c))) of
        (Some package, Some registry, Some dialable) \<Rightarrow>
          (case (parse_address (ne_parse (ma_node m)) package ''sui.settlement_package_id'',
                 parse_address (ne_parse (ma_node m)) registry ''sui.registry_id'') of
             (Inr pkg, Inr reg) \<Rightarrow>
               (case p2p_identity m c d of
                  (None, d1) \<Rightarrow> (None, d1)
                | (Some pk, d1) \<Rightarrow> (Some (\<lparr>pt_package = pkg, pt_registry = reg\<rparr>, pk, dialable), d1))
           | _ \<Rightarrow> (None, d))
      | _ \<Rightarrow> (None, d))"

text \<open>The publish task: \<open>te n\<close> and \<open>key n\<close> are the environment and the key in the shared signer at
  attempt \<open>n\<close>. The result is the attempt that succeeded.\<close>

primrec publish_attempts ::
    "(nat \<Rightarrow> ('key, 'tx, 'sg) tx_env) \<Rightarrow> (nat \<Rightarrow> 'key) \<Rightarrow> string \<Rightarrow> peer_targets \<Rightarrow> hash \<Rightarrow> string \<Rightarrow> nat list \<Rightarrow> nat option" where
  "publish_attempts te key rpc_url targets pk dial [] = None"
| "publish_attempts te key rpc_url targets pk dial (n # ns) =
     (case submit_publish_peer (te n) rpc_url (key n) targets pk (as_bytes dial) of
        Inr _ \<Rightarrow> Some n
      | Inl _ \<Rightarrow> publish_attempts te key rpc_url targets pk dial ns)"

definition spawn_advertise ::
    "(nat \<Rightarrow> ('key, 'tx, 'sg) tx_env) \<Rightarrow> (nat \<Rightarrow> 'key) \<Rightarrow> string \<Rightarrow> peer_targets \<Rightarrow> hash \<Rightarrow> string \<Rightarrow> nat option" where
  "spawn_advertise te key rpc_url targets pk dial = publish_attempts te key rpc_url targets pk dial [1..<6]"

definition maybe_spawn_advertise ::
    "('key, 'tx, 'sg, 'sk, 'pk, 'auth) main_env \<Rightarrow> config \<Rightarrow> disk \<Rightarrow> (peer_targets \<times> hash \<times> string) option \<times> disk" where
  "maybe_spawn_advertise m c d = (if \<not> pn_advertise (cf_p2p c) then (None, d) else advertise_targets m c d)"

section \<open>Peer-to-peer\<close>

definition parse_bootstrap :: "(string \<Rightarrow> (string, string) result) \<Rightarrow> string \<Rightarrow> (string, string \<times> string) result" where
  "parse_bootstrap socket s =
     and_then (ok_or (''bootstrap peer missing '' @ [CHR 0x27, CHR ''@'', CHR 0x27] @ '' separator: '' @ s)
                (split_once CHR ''@'' s)) (\<lambda>(hex, a).
     and_then (map_err (\<lambda>_. ''bootstrap peer addr invalid for '' @ s) (socket a)) (\<lambda>dial. Ok (hex, dial)))"

definition MAX_PEERS_PER_SET :: nat where
  "MAX_PEERS_PER_SET = 128"

definition build_p2p ::
    "('key, 'tx, 'sg, 'sk, 'pk, 'auth) main_env \<Rightarrow> p2p_table \<Rightarrow> disk \<Rightarrow>
     (string, ('sk \<times> ('pk \<times> string) list \<times> 'pk admission_handle) option) result \<times> disk" where
  "build_p2p m cfg =
     (if pn_no_p2p cfg then sreturn None
      else
        sbind (slift (ok_or ''p2p key path is required (set p2p.key_path in config)'' (pn_key_path cfg))) (\<lambda>key_path.
        sbind (slift (ma_socket m (pn_listen_addr cfg))) (\<lambda>_.
        sbind (slift (case pn_dialable_addr cfg of
                        None \<Rightarrow> Ok None | Some a \<Rightarrow> and_then (ma_socket m a) (\<lambda>x. Ok (Some x)))) (\<lambda>_.
        sbind (slift (collect_results (map (parse_bootstrap (ma_socket m)) (pn_bootstrap_peers cfg)))) (\<lambda>bootstrap.
        sbind (p2p_new (ma_io m) (ma_kc m) (ma_load_pubkey m) (ma_fresh m)
                 \<lparr>pc_key_path = Some key_path, pc_bootstrap_peers = bootstrap,
                  pc_registry_admission = pn_registry_admission cfg, pc_max_peers_per_set = MAX_PEERS_PER_SET\<rparr>) (\<lambda>node.
          sreturn (Some node)))))))"

text \<open>Whether there is a receiver, and the admission handle.\<close>

definition full_node_p2p_parts ::
    "('key, 'tx, 'sg, 'sk, 'pk, 'auth) main_env \<Rightarrow> config \<Rightarrow> disk \<Rightarrow>
     (string, bool \<times> 'pk admission_handle option) result \<times> disk" where
  "full_node_p2p_parts m c =
     sbind (build_p2p m (cf_p2p c)) (\<lambda>r. sreturn
       (case r of
          Some (_, _, h) \<Rightarrow> (True, if pn_registry_admission (cf_p2p c) then Some h else None)
        | None \<Rightarrow> (False, None)))"

section \<open>Starting a node\<close>

definition engine_of ::
    "('key, 'tx, 'sg, 'sk, 'pk, 'auth) main_env \<Rightarrow> config \<Rightarrow> disk \<Rightarrow> (string, unit) result" where
  "engine_of m c d =
     and_then (map_err (\<lambda>_. ''loading JWT from '' @ rc_jwt_path (cf_reth c)) (ma_auth m (rc_jwt_path (cf_reth c)) d)) (\<lambda>auth.
       map_err (\<lambda>_. ''building Reth Engine API client'') (ma_engine m (rc_engine_url (cf_reth c)) auth))"

definition inbox_from_config ::
    "('key, 'tx, 'sg, 'sk, 'pk, 'auth) main_env \<Rightarrow> config \<Rightarrow> (string, (tracker \<times> u64) option) result" where
  "inbox_from_config m c =
     (case sc_inbox_id (cf_sui c) of
        None \<Rightarrow> Ok None
      | Some inbox_id \<Rightarrow>
          and_then (map_err (\<lambda>_. ''building force-inclusion inbox integration'')
              (build_tracker (ne_parse (ma_node m)) (ma_transport m) (ma_tracker m) (sc_rpc_url (cf_sui c)) inbox_id
                 (sc_settlement_package_id (cf_sui c)) (cf_data_dir c) (qc_block_time_ms (cf_sequencer c)))) (\<lambda>t.
            Ok (Some t)))"

text \<open>What a sequencer runs with. \<open>la_bridge\<close> is the configuration of the bridge task.\<close>

record ('key, 'sk, 'pk) launch =
  la_config :: config
  la_p2p :: "('sk \<times> ('pk \<times> string) list \<times> 'pk admission_handle) option"
  la_metrics :: "string option"
  la_settlement :: "'key settlement"
  la_genesis :: "hash option"
  la_inbox :: "(tracker \<times> u64) option"
  la_block_signer :: "'key block_signer"
  la_block_time_ms :: u64
  la_fee_recipient :: "20 barray"
  la_flush_after_ms :: "nat option"
  la_bridge :: "config option"
  la_advertise :: "(peer_targets \<times> hash \<times> string) option"

text \<open>The part after the settlement signer is attached: \<open>runner_of\<close> is \<open>Runner::new\<close>.\<close>

definition block_signer_of ::
    "('key, 'tx, 'sg, 'sk, 'pk, 'auth) main_env \<Rightarrow> path \<Rightarrow> disk \<Rightarrow> (string, 'key block_signer) result \<times> disk" where
  "block_signer_of m key_path d =
     (case st_map_err store_error_display (fs_read_to_string (ma_io m) key_path) d of
        (contents, d1) \<Rightarrow>
          (map_err (\<lambda>_. ''loading signer key for block signing'')
             (from_suiprivkey_file (ma_suiprivkey m) (ma_base64 m) (ma_new_key m) (\<lambda>_. contents) key_path), d1))"

definition genesis_of ::
    "('key, 'tx, 'sg, 'sk, 'pk, 'auth) main_env \<Rightarrow> config \<Rightarrow> (string, hash option) result" where
  "genesis_of m c =
     (case qc_genesis_hash (cf_sequencer c) of
        None \<Rightarrow> Ok None
      | Some h \<Rightarrow> and_then (map_err (\<lambda>_. ''invalid genesis_hash'') (ma_hash m h)) (\<lambda>g. Ok (Some g)))"

definition launch_with ::
    "('key, 'tx, 'sg, 'sk, 'pk, 'auth) main_env \<Rightarrow> path \<Rightarrow> ('sk \<times> ('pk \<times> string) list \<times> 'pk admission_handle) option \<Rightarrow>
     string option \<Rightarrow> config \<Rightarrow> 'key settlement \<Rightarrow> disk \<Rightarrow> (string, ('key, 'sk, 'pk) launch) result \<times> disk" where
  "launch_with m key_path p2p metrics c settlement =
     sbind (slift (genesis_of m c)) (\<lambda>genesis.
     sbind (slift (inbox_from_config m c)) (\<lambda>inbox.
     sbind (block_signer_of m key_path) (\<lambda>signer.
     sbind (st_map_err (\<lambda>_. ''initializing storage under data_dir'') (store_init (ma_io m) (cf_data_dir c))) (\<lambda>_ d.
       case maybe_spawn_advertise m c d of
         (advertise, d1) \<Rightarrow>
           (Ok \<lparr>la_config = c, la_p2p = p2p, la_metrics = metrics, la_settlement = settlement, la_genesis = genesis,
                la_inbox = inbox, la_block_signer = signer,
                la_block_time_ms = max (qc_block_time_ms (cf_sequencer c)) 100,
                la_fee_recipient = (case ma_fee m (qc_fee_recipient (cf_sequencer c)) of Inr a \<Rightarrow> a | Inl _ \<Rightarrow> barr_fill 0),
                la_flush_after_ms = (if wc_batch_flush_ms (cf_walrus c) = 0 then None
                                     else Some (unat (wc_batch_flush_ms (cf_walrus c)))),
                la_bridge = (if bc_enabled (cf_bridge c) then Some c else None),
                la_advertise = advertise\<rparr>, d1)))))"

text \<open>\<open>None\<close> is a deploy that never succeeds.\<close>

definition start_sequencer ::
    "('key, 'tx, 'sg, 'sk, 'pk, 'auth) main_env \<Rightarrow> config \<Rightarrow> path \<Rightarrow> disk \<Rightarrow>
     ((string, ('key, 'sk, 'pk) launch) result \<times> disk) option" where
  "start_sequencer m c config_path d =
     (case sbind (build_p2p m (cf_p2p c)) (\<lambda>p2p.
           sbind (slift (start_metrics_endpoint m c)) (\<lambda>metrics.
           sbind (slift (ok_or ''signer key path is required (set signer.key_path in config)'' (gc_key_path (cf_signer c)))) (\<lambda>key_path d1.
           sbind (slift (engine_of m c d1)) (\<lambda>_.
           sbind (slift (map_err (\<lambda>_. ''building Sui-layer client'') (ma_client m))) (\<lambda>_ d2.
           sbind (slift (map_err (\<lambda>_. ''settlement preflight failed'')
                    (preflight (setup_env m) (cf_sui c) (ids_of c) key_path d2))) (\<lambda>_.
             sreturn (p2p, metrics, key_path)) d2)) d1))) d of
        (Inl e, d1) \<Rightarrow> Some (Err e, d1)
      | (Inr (p2p, metrics, key_path), d1) \<Rightarrow>
          (case setup_signer (setup_env m) c config_path key_path d1 of
             None \<Rightarrow> None
           | Some (Inl e, _, d2) \<Rightarrow> Some (Err e, d2)
           | Some (Inr settlement, c', d2) \<Rightarrow> Some (launch_with m key_path p2p metrics c' settlement d2)))"

record 'pk full_launch =
  fl_metrics :: "string option"
  fl_receiver :: bool
  fl_admission :: "'pk admission_handle option"
  fl_sequencer_key :: 'pk
  fl_registry_id :: string

definition start_full_node ::
    "('key, 'tx, 'sg, 'sk, 'pk, 'auth) main_env \<Rightarrow> config \<Rightarrow> disk \<Rightarrow> (string, 'pk full_launch) result \<times> disk" where
  "start_full_node m c =
     sbind (slift (start_metrics_endpoint m c)) (\<lambda>metrics.
     sbind (full_node_p2p_parts m c) (\<lambda>(receiver, admission) d1.
     sbind (slift (engine_of m c d1)) (\<lambda>_.
     sbind (slift (map_err (\<lambda>_. ''building Sui-layer client'') (ma_client m))) (\<lambda>_.
     sbind (st_map_err (\<lambda>_. ''initializing storage under '' @ cf_data_dir c) (store_init (ma_io m) (cf_data_dir c))) (\<lambda>_.
     sbind (slift (check_config (ma_verifying_key m) (gc_sequencer_pubkey (cf_signer c)) (sc_registry_id (cf_sui c)))) (\<lambda>(key, registry).
       sreturn \<lparr>fl_metrics = metrics, fl_receiver = receiver, fl_admission = admission, fl_sequencer_key = key,
                fl_registry_id = registry\<rparr>)))) d1))"

section \<open>Commands\<close>

datatype cli_command =
    InitConfig "path option"
  | GenerateKey path
  | GenerateEvmKey path
  | KeyringList
  | StatusCmd
  | McpCmd string
  | Start

text \<open>What a command does: lines it prints, or the server or node it runs.\<close>

datatype ('key, 'sk, 'pk) outcome =
    Printed "string list"
  | RunsMcp mcp_server string
  | RunsSequencer "('key, 'sk, 'pk) launch"
  | RunsFullNode "'pk full_launch"

text \<open>\<open>reth_height\<close> is the answer of the execution layer to the status command; the two keys are the
  freshly generated ones.\<close>

definition run_command ::
    "('key, 'tx, 'sg, 'sk, 'pk, 'auth) main_env \<Rightarrow> ('key, 'ekey) key_lib \<Rightarrow> 'key \<Rightarrow> 'ekey \<Rightarrow> (string, u64) result \<Rightarrow>
     path option \<Rightarrow> cli_command \<Rightarrow> disk \<Rightarrow> ((string, ('key, 'sk, 'pk) outcome) result \<times> disk) option" where
  "run_command m l key ekey reth_height cli_config cmd d =
     (case cmd of
        InitConfig (Some p) \<Rightarrow>
          Some (sbind (config_save (ma_io m) (ne_toml (ma_node m)) p testnet_config) (\<lambda>_. sreturn (Printed [])) d)
      | InitConfig None \<Rightarrow>
          Some (sbind (slift (config_to_toml (ne_toml (ma_node m)) testnet_config)) (\<lambda>t. sreturn (Printed [t])) d)
      | GenerateKey out \<Rightarrow> Some (sbind (generate_signer (ma_io m) l key out) (\<lambda>ls. sreturn (Printed ls)) d)
      | GenerateEvmKey out \<Rightarrow> Some (sbind (generate_evm_key (ma_io m) l ekey out) (\<lambda>ls. sreturn (Printed ls)) d)
      | KeyringList \<Rightarrow>
          Some (sbind (load_config m cli_config) (\<lambda>c d1.
            case key_list (ma_io m) l (read_pubkey_hex (ma_io m) (ma_kc m)) c d1 of (ls, d2) \<Rightarrow> (Ok (Printed ls), d2)) d)
      | StatusCmd \<Rightarrow>
          Some (sbind (load_config m cli_config) (\<lambda>c d1.
            sbind (slift (engine_of m c d1)) (\<lambda>_. sreturn (Printed
              [case reth_height of Inr h \<Rightarrow> ''Reth block height: '' @ show_u64 h
                                  | Inl e \<Rightarrow> ''Reth: unreachable ('' @ e @ '')'',
               case sc_settlement_package_id (cf_sui c) of Some pkg \<Rightarrow> ''Settlement package: '' @ pkg
                                                         | None \<Rightarrow> ''Settlement: not configured''])) d1) d)
      | McpCmd listen \<Rightarrow>
          Some (sbind (load_config m cli_config) (\<lambda>c.
            sbind (slift (map_err (\<lambda>_. ''building mcp server from config'') (ma_client m))) (\<lambda>_.
              sreturn (RunsMcp (mcp_from_config c) listen))) d)
      | Start \<Rightarrow>
          (case sbind (slift (ok_or ''no config file provided (use --config or PODSEQ_CONFIG)'' cli_config)) (\<lambda>p.
                sbind (config_load (ma_io m) (ne_toml (ma_node m)) p) (\<lambda>c. sreturn (p, c))) d of
             (Inl e, d1) \<Rightarrow> Some (Err e, d1)
           | (Inr (p, c), d1) \<Rightarrow>
               if cf_mode c = ''full'' then Some (sbind (start_full_node m c) (\<lambda>x. sreturn (RunsFullNode x)) d1)
               else map_option (\<lambda>(r, d2). (and_then r (\<lambda>x. Ok (RunsSequencer x)), d2)) (start_sequencer m c p d1)))"

end
