(* ===== verification/Node_Main_Safety.thy ===== *)
theory Node_Main_Safety
  imports Node_Main Effects
begin

text \<open>
  What a started node runs with: one key for signing blocks and for settling, the contract of its
  configuration everywhere, and a published identity signed by the key of the moment.
\<close>

section \<open>The signer of a running sequencer\<close>

lemma key_text_eq: "no_faults e \<Longrightarrow> files d = files d' \<Longrightarrow> fst (key_text e p d) = fst (key_text e p d')"
  by (rule key_text_same) (simp_all add: no_faults_def)

text \<open>A signer that was built holds the key of the file and the parsed IDs.\<close>

definition signer_from ::
    "('key, 'tx, 'sg) node_env \<Rightarrow> path \<Rightarrow> (path \<rightharpoonup> fdata) \<Rightarrow> contract_ids \<Rightarrow> 'key settlement \<Rightarrow> bool" where
  "signer_from e kp f ids s \<longleftrightarrow>
     (\<exists>t pkg cap reg inbox. f kp = Some (Text t) \<and> ne_parse_key e (trim t) = Ok (s_key s) \<and>
        s_sender s = te_derive (ne_te e 0) (s_key s) \<and> ids = (Some pkg, Some cap, Some reg, Some inbox) \<and>
        ne_parse e pkg = Ok (s_package s) \<and> ne_parse e cap = Ok (s_cap s) \<and> ne_parse e reg = Ok (s_registry s) \<and>
        ne_parse e inbox = Ok (s_inbox s))"

lemma key_text_Ok:
  "no_faults e \<Longrightarrow> fst (key_text e p d) = Ok t \<longleftrightarrow> files d p = Some (Text t)"
  by (auto simp: key_text_def st_map_err_def fs_read_to_string_def fs_read_def no_faults_def
      split: option.splits fdata.splits)

lemma parse_address_Ok [simp]: "parse_address parse s lb = Ok a \<longleftrightarrow> parse s = Ok a"
  by (simp add: parse_address_def)

lemma signer_new_from:
  assumes "signer_new e kp pkg cap reg inbox url d = (Ok s, d1)" "no_faults e"
  shows "signer_from e kp (files d) (Some pkg, Some cap, Some reg, Some inbox) s"
proof -
  obtain contents d2 where k: "key_text e kp d = (contents, d2)" by fastforce
  then have "settlement_new (ne_te e 0) (\<lambda>_. contents) (ne_parse_key e) (ne_parse e) kp pkg cap reg inbox url = Ok s"
    using assms(1) by (simp add: signer_new_def)
  then obtain t where "contents = Ok t" "ne_parse_key e (trim t) = Ok (s_key s)"
    "s_sender s = te_derive (ne_te e 0) (s_key s)" "ne_parse e pkg = Ok (s_package s)" "ne_parse e cap = Ok (s_cap s)"
    "ne_parse e reg = Ok (s_registry s)" "ne_parse e inbox = Ok (s_inbox s)"
    by (auto simp: settlement_new_def load_signer_def parse_contract_ids_def and_then_eq_Inr)
  moreover have "files d kp = Some (Text t)"
    using key_text_Ok [OF assms(2), of kp d t] k \<open>contents = Ok t\<close> by simp
  ultimately show ?thesis unfolding signer_from_def by blast
qed

lemma signer_from_roots [simp]: "signer_from e kp f ids (with_commit_state_roots b s) = signer_from e kp f ids s"
  by (simp add: signer_from_def with_commit_state_roots_def)

lemma setup_signer_from:
  assumes "setup_signer e c cp kp d = Some (Ok s, c', d')" "no_faults e"
  shows "signer_from e kp (files d') (ids_of c') s"
proof -
  consider (attach) pkg cap reg inbox where "ids_of c = (Some pkg, Some cap, Some reg, Some inbox)"
    | (deploy) "ids_of c = (None, None, None, None)"
    using assms(1) by (cases "ids_of c") (auto simp: setup_signer_def split: option.splits)
  then show ?thesis
  proof cases
    case attach
    then have a: "attach_signer e c kp pkg cap reg inbox d = (Ok s, d')" "c' = c"
      using assms(1) by (auto simp: setup_signer_def split: prod.splits)
    then obtain s0 where n: "signer_new e kp pkg cap reg inbox (sc_rpc_url (cf_sui c)) d = (Ok s0, d')" "c' = c"
      "s = with_commit_state_roots (sc_commit_state_roots (cf_sui c)) s0"
      by (auto simp: attach_signer_def sbind_Ok_iff)
    from signer_new_from [OF n(1) assms(2)] signer_new_files [OF n(1)] n(2,3) attach show ?thesis by simp
  next
    case deploy
    then have run: "deploy_and_save e c cp kp d = Some (Ok s, c', d')" using assms(1) by (simp add: setup_signer_def)
    then obtain dep d3 where n: "c' = with_ids dep c"
      "signer_new e kp (dc_package_id dep) (dc_settler_cap_id dep) (dc_registry_id dep) (dc_inbox_id dep)
         (sc_rpc_url (cf_sui c)) d3 = (Ok s, d')"
      by (auto simp: deploy_and_save_def st_map_err_def split: sum.splits prod.splits option.splits)
    have "ids_of c' = (Some (dc_package_id dep), Some (dc_settler_cap_id dep), Some (dc_registry_id dep), Some (dc_inbox_id dep))"
      by (simp add: n(1) with_ids_def ids_of_def)
    with signer_new_from [OF n(2) assms(2)] signer_new_files [OF n(2)] show ?thesis by simp
  qed
qed

lemma block_signer_key:
  assumes "block_signer_of m kp d = (Ok b, d1)" "no_faults (ma_node m)"
  shows "\<exists>t. files d kp = Some (Text t) \<and> signer_key_of m (trim t) = Ok (bs_key b)" "files d1 = files d"
proof -
  have k: "st_map_err store_error_display (fs_read_to_string (ma_io m) kp) d = key_text (ma_node m) kp d"
    by (simp add: key_text_def ma_io_def)
  obtain contents d2 where kt: "key_text (ma_node m) kp d = (contents, d2)" by fastforce
  then have "d1 = d2" using assms(1) by (simp add: block_signer_of_def k)
  with key_text_files [OF kt] show "files d1 = files d" by simp
  have "from_suiprivkey_file (ma_suiprivkey m) (ma_base64 m) (ma_new_key m) (\<lambda>_. contents) kp = Ok b"
    using assms(1) by (simp add: block_signer_of_def k kt)
  then obtain t where t: "contents = Ok t" "signer_key_of m (trim t) = Ok (bs_key b)"
    by (auto simp: from_suiprivkey_file_def signer_key_of_def split: sum.splits)
  moreover have "files d kp = Some (Text t)" using key_text_Ok [OF assms(2), of kp d t] kt t(1) by simp
  ultimately show "\<exists>t. files d kp = Some (Text t) \<and> signer_key_of m (trim t) = Ok (bs_key b)" by blast
qed

lemma inbox_from_config_matches:
  assumes "inbox_from_config m c = Ok x" "signer_from e kp f (ids_of c) s" "ne_parse e = ne_parse (ma_node m)"
  shows "\<exists>tk blocks. x = Some (tk, blocks) \<and> tk_inbox_id tk = s_inbox s \<and> tk_window_package tk = Some (s_package s)"
proof -
  obtain pkg inbox where "sc_settlement_package_id (cf_sui c) = Some pkg" "sc_inbox_id (cf_sui c) = Some inbox"
    "ne_parse (ma_node m) pkg = Ok (s_package s)" "ne_parse (ma_node m) inbox = Ok (s_inbox s)"
    using assms(2,3) by (auto simp: signer_from_def ids_of_def)
  with assms(1) show ?thesis
    by (auto simp: inbox_from_config_def build_tracker_def and_then_eq_Inr)
qed

lemma setup_env_simps [simp]:
  "ne_parse (setup_env m) = ne_parse (ma_node m)" "ne_parse_key (setup_env m) = signer_key_of m"
  "ne_te (setup_env m) = ne_te (ma_node m)" "no_faults (setup_env m) = no_faults (ma_node m)"
  by (simp_all add: setup_env_def no_faults_def)

text \<open>
  C15: a sequencer that starts is wired to one key and one contract. The key that signs its blocks is
  the key that signs its settle transactions, read from the configured key file; the settle
  transactions name the objects whose IDs its configuration holds, all four of them, and the inbox its
  tracker follows is the inbox its settle transactions pass to the contract.
\<close>

theorem sequencer_starts_on_one_key_and_contract:
  assumes start: "start_sequencer m c cp d = Some (Ok la, d')" and disk: "\<And>n. ne_io (ma_node m) n = None"
  shows "bs_key (la_block_signer la) = s_key (la_settlement la) \<and>
    s_sender (la_settlement la) = te_derive (ne_te (ma_node m) 0) (s_key (la_settlement la)) \<and>
    (\<exists>pkg cap reg inbox tk blocks. ids_of (la_config la) = (Some pkg, Some cap, Some reg, Some inbox) \<and>
       ne_parse (ma_node m) pkg = Ok (s_package (la_settlement la)) \<and>
       ne_parse (ma_node m) cap = Ok (s_cap (la_settlement la)) \<and>
       ne_parse (ma_node m) reg = Ok (s_registry (la_settlement la)) \<and>
       ne_parse (ma_node m) inbox = Ok (s_inbox (la_settlement la)) \<and>
       la_inbox la = Some (tk, blocks) \<and> tk_inbox_id tk = s_inbox (la_settlement la) \<and>
       tk_window_package tk = Some (s_package (la_settlement la)))"
proof -
  have nf: "no_faults (ma_node m)" using disk by (simp add: no_faults_def)
  obtain p2p metrics kp d1 s c' d2 where st: "setup_signer (setup_env m) c cp kp d1 = Some (Ok s, c', d2)"
    and ln: "launch_with m kp p2p metrics c' s d2 = (Ok la, d')"
    using start by (auto simp: start_sequencer_def split: prod.splits sum.splits option.splits)
  have sf: "signer_from (setup_env m) kp (files d2) (ids_of c') s"
    by (rule setup_signer_from [OF st]) (simp add: nf)
  obtain g x b d3 where parts: "genesis_of m c' = Ok g" "inbox_from_config m c' = Ok x" "block_signer_of m kp d2 = (Ok b, d3)"
    and la: "la_config la = c'" "la_settlement la = s" "la_inbox la = x" "la_block_signer la = b"
    using ln
    by (auto simp: launch_with_def sbind_def slift_def st_map_err_def split: sum.splits prod.splits)
  have "bs_key b = s_key s"
    using block_signer_key(1) [OF parts(3) nf] sf by (auto simp: signer_from_def)
  moreover have "\<exists>tk blocks. x = Some (tk, blocks) \<and> tk_inbox_id tk = s_inbox s \<and> tk_window_package tk = Some (s_package s)"
    by (rule inbox_from_config_matches [OF parts(2) sf]) simp
  ultimately show ?thesis using sf by (auto simp: la signer_from_def)
qed

section \<open>Advertising\<close>

text \<open>The identity is published by the key that is in the shared signer at the attempt that
  succeeds, after every earlier attempt failed; after five failures the task gives up.\<close>

lemma publish_attempts_first:
  "publish_attempts te key url targets pk dial ns = Some n \<Longrightarrow>
    \<exists>before after. ns = before @ n # after \<and>
      submit_publish_peer (te n) url (key n) targets pk (as_bytes dial) = Ok () \<and>
      (\<forall>k \<in> set before. isl (submit_publish_peer (te k) url (key k) targets pk (as_bytes dial)))"
proof (induction ns)
  case (Cons k ns)
  show ?case
  proof (cases "submit_publish_peer (te k) url (key k) targets pk (as_bytes dial)")
    case (Inl e)
    with Cons obtain before after where "ns = before @ n # after"
      "submit_publish_peer (te n) url (key n) targets pk (as_bytes dial) = Ok ()"
      "\<forall>k \<in> set before. isl (submit_publish_peer (te k) url (key k) targets pk (as_bytes dial))"
      by auto
    with Inl show ?thesis by (intro exI [of _ "k # before"] exI [of _ after]) simp
  next
    case (Inr u)
    with Cons.prems show ?thesis by (intro exI [of _ "[]"] exI [of _ ns]) simp
  qed
qed simp

lemma published_by_current_key:
  assumes "spawn_advertise te key url targets pk dial = Some n"
  shows "1 \<le> n \<and> n \<le> 5 \<and> (\<exists>tx sg r. te_build (te n) \<lparr>ptb_sender = te_derive (te n) (key n),
      ptb_calls = [MoveCall \<lparr>mc_package = pt_package targets, mc_module = ''settlement'', mc_function = ''publish_peer'',
        mc_args = [ArgObject (pt_registry targets), ArgObject SUI_CLOCK_ID, ArgBytes (to_vec pk), ArgBytes (as_bytes dial)]\<rparr>]\<rparr> = Ok tx \<and>
      te_sign (te n) (key n) tx = Ok sg \<and> te_execute (te n) tx sg DEPLOY_TX_WAIT = Ok r \<and> tr_success r)"
proof -
  from publish_attempts_first [OF assms [unfolded spawn_advertise_def]]
  obtain before after where s: "[1..<6] = before @ n # after"
    "submit_publish_peer (te n) url (key n) targets pk (as_bytes dial) = Ok ()" by blast
  have n: "n \<in> set [1..<6]" unfolding s(1) by simp
  let ?call = "\<lparr>mc_package = pt_package targets, mc_module = ''settlement'', mc_function = ''publish_peer'',
      mc_args = [ArgObject (pt_registry targets), ArgObject SUI_CLOCK_ID, ArgBytes (to_vec pk), ArgBytes (as_bytes dial)]\<rparr>"
  obtain tx sg r where
    "te_build (te n) \<lparr>ptb_sender = te_derive (te n) (key n), ptb_calls = map MoveCall [?call]\<rparr> = Ok tx"
    "te_sign (te n) (key n) tx = Ok sg" "te_execute (te n) tx sg DEPLOY_TX_WAIT = Ok r" "tr_success r"
    by (rule submit_rotation_tx_Ok [OF s(2) [unfolded submit_publish_peer_def]])
  with n show ?thesis by fastforce
qed

section \<open>Commands\<close>

text \<open>The default configuration that \<open>init config\<close> writes is what loading it gives.\<close>

lemma init_config_loads:
  assumes "run_command m l key ekey h cli (InitConfig (Some p)) d = Some (Ok out, d1)" "json_ok (ne_toml (ma_node m))"
    "\<And>n. ne_io (ma_node m) n = None"
  shows "fst (load_config m (Some p) d1) = Ok testnet_config"
proof -
  have "config_save (ma_io m) (ne_toml (ma_node m)) p testnet_config d = (Ok (), d1)"
    using assms(1) by (auto simp: run_command_def sbind_def sreturn_def split: prod.splits sum.splits)
  then obtain t where "to_json (ne_toml (ma_node m)) testnet_config = Ok t" "files d1 p = Some (Text t)"
    by (rule config_save_ok) (simp_all add: ma_io_def assms(3))
  with assms(2,3) show ?thesis
    by (auto simp: load_config_def config_load_def ma_io_def st_map_err_def fs_read_to_string_def fs_read_def
        config_from_str_def json_ok_def sbind_def slift_def)
qed

text \<open>A mode that is not exactly \<open>full\<close> starts a sequencer.\<close>

lemma unknown_mode_starts_sequencer:
  assumes "config_load (ma_io m) (ne_toml (ma_node m)) p d = (Ok c, d1)" "cf_mode c \<noteq> ''full''"
  shows "run_command m l key ekey h (Some p) Start d =
    map_option (\<lambda>(r, d2). (and_then r (\<lambda>x. Ok (RunsSequencer x)), d2)) (start_sequencer m c p d1)"
  using assms by (simp add: run_command_def sbind_def slift_def sreturn_def)

end
