(* ===== verification/Node_Main_Examples.thy ===== *)
theory Node_Main_Examples
  imports Node_Main_Safety
begin

text \<open>
  A first start at concrete inputs: a disk with a signer key and one compiled Move module, a network on
  which every transaction creates a package, a cap and a shared object, the default configuration
  without the peer-to-peer layer.
\<close>

section \<open>Environment\<close>

definition demo_te :: "(unit, unit, unit) tx_env" where
  "demo_te = \<lparr>te_derive = \<lambda>_. barr_fill 1, te_client = \<lambda>_. Ok (), te_build = \<lambda>_. Ok (), te_sign = \<lambda>_ _. Ok (),
     te_execute = \<lambda>_ _ _. Ok \<lparr>tr_success = True, tr_error = None, tr_changed =
       [\<lparr>co_object_id = Some ''pkg'', co_id_operation = IdOther, co_owner = OwnerOther, co_output = PackageWrite\<rparr>,
        \<lparr>co_object_id = Some ''cap'', co_id_operation = IdCreated, co_owner = OwnerAddress, co_output = OutputOther\<rparr>,
        \<lparr>co_object_id = Some ''shared'', co_id_operation = IdCreated, co_owner = OwnerShared, co_output = OutputOther\<rparr>]\<rparr>\<rparr>"

definition demo_dep :: deployed_contract where
  "demo_dep = \<lparr>dc_package_id = ''pkg'', dc_settler_cap_id = ''cap'', dc_registry_id = ''shared'', dc_inbox_id = ''shared'',
     dc_upgrade_cap_id = ''cap'', dc_ops_cap_id = ''cap''\<rparr>"

definition demo_cfg :: config where
  "demo_cfg = testnet_config\<lparr>cf_p2p := default_p2p_table\<lparr>pn_no_p2p := True, pn_advertise := False\<rparr>\<rparr>"

definition demo_saved :: config where
  "demo_saved = with_ids demo_dep demo_cfg"

definition demo_toml :: "config json" where
  "demo_toml = \<lparr>to_json = \<lambda>c. if c = demo_saved then Ok ''cfg'' else Err ''unsupported'',
     from_json = \<lambda>t. if t = ''cfg'' then Ok demo_saved else Err ''unsupported''\<rparr>"

text \<open>The first \<open>k\<close> deploy attempts find no RPC client.\<close>

definition demo_node :: "nat \<Rightarrow> (unit, unit, unit) node_env" where
  "demo_node k =
     \<lparr>ne_io = \<lambda>_. None,
      ne_te = \<lambda>n. if n < k then demo_te\<lparr>te_client := \<lambda>_. Err ''offline''\<rparr> else demo_te,
      ne_parse = \<lambda>_. Ok (barr_fill 2), ne_parse_key = \<lambda>_. Ok (),
      ne_rpc = \<lparr>rpc_new = \<lambda>_. Ok (), get_object = \<lambda>_ _. Ok None, derive_dynamic_child_id = \<lambda>a _ _. a\<rparr>,
      ne_get_epoch = \<lambda>_. Ok (), ne_toml = demo_toml, ne_is_dir = \<lambda>_ _. True, ne_list = \<lambda>_ _. Ok [Ok ''m.mv'']\<rparr>"

definition demo_files :: disk where
  "demo_files = \<lparr>files = [''sequencer.key'' \<mapsto> Text ''suiprivkey1'', ''m.mv'' \<mapsto> Bytes [1]], ops = 0\<rparr>"

lemma json_ok_demo: "json_ok demo_toml"
  by (auto simp: json_ok_def demo_toml_def trim_def is_ws_def split: if_splits)

lemma demo_paths: "extension ''m.mv'' = Some ''mv''" "with_extension ''config.toml'' ''toml.tmp'' = ''config.toml.tmp''"
  by code_simp+

lemma demo_attempt:
  assumes "files d = files demo_files" "ne_te e n = demo_te" "ne_parse e = (\<lambda>_. Ok (barr_fill 2))"
    "ne_io e = (\<lambda>_. None)" "ne_parse_key e (trim ''suiprivkey1'') = Ok ()"
  shows "deploy_attempt e ''sequencer.key'' url ms n d = (Ok demo_dep, call d)"
  using assms
  by (simp add: deploy_attempt_def key_text_def st_map_err_def fs_read_to_string_def fs_read_def demo_files_def
      load_signer_def deploy_def demo_te_def build_and_execute_def sign_and_execute_def into_checked_def find_package_def
      find_created_object_def parse_address_def call_initialize_def run_entomb_settler_cap_def run_entomb_upgrade_cap_def
      demo_dep_def)

definition demo_signer :: "unit settlement" where
  "demo_signer = \<lparr>s_key = (), s_sender = barr_fill 1, s_package = barr_fill 2, s_cap = barr_fill 2,
     s_registry = barr_fill 2, s_inbox = barr_fill 2, s_commit_state_roots = True\<rparr>"

text \<open>The first start, with the key parser of the program or the one of the node environment.\<close>

lemma demo_setup:
  assumes "ne_te e = (\<lambda>_. demo_te)" "ne_parse e = (\<lambda>_. Ok (barr_fill 2))" "ne_io e = (\<lambda>_. None)"
    "ne_parse_key e (trim ''suiprivkey1'') = Ok ()" "ne_list e = (\<lambda>_ _. Ok [Ok ''m.mv''])" "ne_toml e = demo_toml"
    "files d = files demo_files"
  obtains d' where "setup_signer e demo_cfg ''config.toml'' ''sequencer.key'' d = Some (Ok demo_signer, demo_saved, d')"
    "files d' ''sequencer.key'' = Some (Text ''suiprivkey1'')"
proof -
  have ids: "ids_of demo_cfg = (None, None, None, None)"
    by (simp add: ids_of_def demo_cfg_def testnet_config_def default_sui_config_def)
  have ms: "read_modules e [Ok ''m.mv''] d = (Ok [[1]], call d)"
    using assms(3,7)
    by (simp add: is_file_def fs_exists_def demo_files_def demo_paths sbind_def st_map_err_def fs_read_def sreturn_def)
  have dep: "deploy_with_retry e ''sequencer.key'' url [[1]] 0 (call d) = Some (demo_dep, call (call d))" for url
    by (subst deploy_with_retry.simps, subst demo_attempt) (simp_all add: assms)
  have sig: "signer_new e ''sequencer.key'' p a r i url x = (Ok demo_signer, call x)"
    if "files x ''sequencer.key'' = Some (Text ''suiprivkey1'')" for x p a r i url
  proof -
    have k: "key_text e ''sequencer.key'' x = (Ok ''suiprivkey1'', call x)"
      using that assms(3) by (simp add: key_text_def st_map_err_def fs_read_to_string_def fs_read_def)
    have l: "load_signer demo_te (\<lambda>_. Ok ''suiprivkey1'') (ne_parse_key e) ''sequencer.key'' = Ok ((), barr_fill 1)"
      using assms(4) by (simp add: load_signer_def demo_te_def)
    have c: "te_client demo_te url = Ok ()" by (simp add: demo_te_def)
    show ?thesis
      by (simp add: signer_new_def k settlement_new_def assms(1,2) l c parse_contract_ids_def parse_address_def
          demo_signer_def)
  qed
  define d3 where "d3 = snd (config_save (ne_io e) (ne_toml e) ''config.toml'' demo_saved (call (call d)))"
  have sv: "config_save (ne_io e) (ne_toml e) ''config.toml'' demo_saved (call (call d)) = (Ok (), d3)"
    by (simp add: d3_def config_save_def assms demo_toml_def config_to_toml_def demo_paths sbind_def slift_def
        st_map_err_def fs_write_def fs_rename_def Let_def)
  have "files d3 ''sequencer.key'' = files (call (call d)) ''sequencer.key''"
  proof (rule config_save_ok [OF sv])
    assume q: "\<And>q. q \<noteq> ''config.toml'' \<Longrightarrow> q \<noteq> with_extension ''config.toml'' ''toml.tmp'' \<Longrightarrow> files d3 q = files (call (call d)) q"
    show ?thesis by (rule q) (simp_all add: demo_paths)
  qed (simp add: assms(3))
  then have "files d3 ''sequencer.key'' = Some (Text ''suiprivkey1'')" using assms(7) by (simp add: demo_files_def)
  then have s4: "signer_new e ''sequencer.key'' p a r i url d3 = (Ok demo_signer, call d3)"
    and k4: "files (call d3) ''sequencer.key'' = Some (Text ''suiprivkey1'')" for p a r i url
    using sig by simp_all
  have "setup_signer e demo_cfg ''config.toml'' ''sequencer.key'' d = Some (Ok demo_signer, demo_saved, call d3)"
    unfolding setup_signer_def ids deploy_and_save_def assms(5)
    by (simp add: ms dep sv s4 demo_saved_def [symmetric] st_map_err_def del: read_modules.simps)
  then show thesis using k4 by (rule that)
qed


section \<open>Starts\<close>

lemma demo_node_simps [simp]:
  "ne_io (demo_node k) = (\<lambda>_. None)" "ne_parse (demo_node k) = (\<lambda>_. Ok (barr_fill 2))"
  "ne_parse_key (demo_node k) = (\<lambda>_. Ok ())" "ne_list (demo_node k) = (\<lambda>_ _. Ok [Ok ''m.mv''])"
  "ne_toml (demo_node k) = demo_toml" "ne_te (demo_node 0) = (\<lambda>_. demo_te)"
  "ne_te (demo_node (Suc 0)) 0 = demo_te\<lparr>te_client := \<lambda>_. Err ''offline''\<rparr>" "ne_te (demo_node (Suc 0)) (Suc 0) = demo_te"
  by (simp_all add: demo_node_def)

text \<open>The first attempt finds no client, the second deploys.\<close>

lemma deploy_returns_first_success_witness:
  "\<exists>d1. deploy_with_retry (demo_node 1) ''sequencer.key'' ''http'' [[1]] 0 demo_files = Some (demo_dep, d1)"
proof (rule iffD2 [OF deploy_returns_first_success])
  have "isl (fst (deploy_attempt (demo_node 1) ''sequencer.key'' ''http'' [[1]] 0 demo_files))"
    by (simp add: deploy_attempt_def key_text_def st_map_err_def fs_read_to_string_def fs_read_def demo_files_def
        load_signer_def deploy_def demo_te_def)
  moreover have "fst (deploy_attempt (demo_node 1) ''sequencer.key'' ''http'' [[1]] 1 demo_files) = Ok demo_dep"
    by (subst demo_attempt) simp_all
  ultimately show "\<exists>n. fst (deploy_attempt (demo_node 1) ''sequencer.key'' ''http'' [[1]] n demo_files) = Ok demo_dep \<and>
      (\<forall>k < n. isl (fst (deploy_attempt (demo_node 1) ''sequencer.key'' ''http'' [[1]] k demo_files)))"
    by (intro exI [of _ 1]) simp
qed simp


definition demo_tracker :: tracker where
  "demo_tracker =
     \<lparr>tk_transport = \<lparr>t_object = \<lambda>_ _. Ok [], t_field = \<lambda>_ _ _. Ok None\<rparr>, tk_inbox_id = barr_fill 0, tk_dir = ''d'',
      tk_json = \<lparr>to_json = \<lambda>_. Ok [], from_json = \<lambda>_. Err ''unsupported''\<rparr>, tk_block_time_ms = 0, tk_window_package = None,
      tk_decoders = \<lparr>md_inbox = \<lparr>dec_inbox = \<lambda>_. Err ''short'', dec_pending = \<lambda>_. Err ''short'',
        dec_window = \<lambda>_. Err ''short'', dec_pending_window = \<lambda>_. Err ''short''\<rparr>, md_clock = \<lambda>_. Err ''short''\<rparr>,
      tk_rpc = ne_rpc (demo_node 0), tk_io = \<lambda>_. None, tk_keccak256 = \<lambda>_. barr_fill 0, tk_show_hash = \<lambda>_. [],
      tk_hex_encode = \<lambda>_. [], tk_hex_decode = \<lambda>_. Ok []\<rparr>"

definition demo_main :: "(unit, unit, unit, unit, unit, unit) main_env" where
  "demo_main =
     \<lparr>ma_node = demo_node 0, ma_suiprivkey = \<lambda>_. Ok (), ma_base64 = \<lambda>_. Ok [], ma_new_key = \<lambda>_. (), ma_socket = \<lambda>s. Ok s,
      ma_kc = \<lparr>kc_hex_encode = \<lambda>_. [], kc_hex_decode = \<lambda>_. Ok [], kc_from_seed = \<lambda>_. Ok (), kc_seed = \<lambda>_. [],
        kc_public = \<lambda>_. (), kc_encode_public = \<lambda>_. []\<rparr>,
      ma_load_pubkey = \<lambda>_. Ok (), ma_fresh = (), ma_auth = \<lambda>_ _. Ok (), ma_engine = \<lambda>_ _. Ok (), ma_client = Ok (),
      ma_hash = \<lambda>_. Err ''hash'', ma_fee = \<lambda>_. Err ''fee'', ma_transport = \<lambda>_. tk_transport demo_tracker,
      ma_tracker = demo_tracker, ma_verifying_key = \<lambda>_. Ok ()\<rparr>"

lemma demo_cfg_simps:
  "cf_p2p demo_cfg = default_p2p_table\<lparr>pn_no_p2p := True, pn_advertise := False\<rparr>"
  "cf_metrics demo_cfg = default_metrics_config" "cf_sui demo_cfg = default_sui_config"
  "cf_signer demo_cfg = default_signer_config" "cf_sequencer demo_cfg = default_sequencer_config"
  by (simp_all add: demo_cfg_def testnet_config_def)

lemma demo_saved_simps:
  "cf_p2p demo_saved = cf_p2p demo_cfg" "cf_sequencer demo_saved = default_sequencer_config"
  "sc_inbox_id (cf_sui demo_saved) = Some ''shared''" "sc_settlement_package_id (cf_sui demo_saved) = Some ''pkg''"
  "pn_advertise (cf_p2p demo_cfg) = False"
  by (simp_all add: demo_saved_def with_ids_def demo_dep_def demo_cfg_simps)

lemma demo_main_client: "ma_client demo_main = Ok ()"
  by (simp add: demo_main_def)

lemma demo_key: "signer_key_of demo_main (trim ''suiprivkey1'') = Ok ()"
  by (simp add: signer_key_of_def demo_main_def parse_signer_key_def trim_def is_ws_def starts_with_def)

lemma demo_preflight:
  "preflight (setup_env demo_main) (cf_sui demo_cfg) (ids_of demo_cfg) ''sequencer.key'' d = Ok ()"
  if "files d = files demo_files"
proof -
  have ids: "ids_of demo_cfg = (None, None, None, None)"
    by (simp add: ids_of_def demo_cfg_simps default_sui_config_def)
  have b: "package_built (setup_env demo_main) dir d" for dir
    by (simp add: package_built_def setup_env_def demo_main_def demo_node_def demo_paths)
  show ?thesis
    using that
    by (simp add: preflight_def ids b is_file_def fs_exists_def demo_files_def)
      (simp add: ping_rpc_def setup_env_def demo_main_def demo_node_def)
qed

lemma demo_launch:
  assumes "files d ''sequencer.key'' = Some (Text ''suiprivkey1'')"
  shows "\<exists>la d'. launch_with demo_main ''sequencer.key'' p2p metrics demo_saved demo_signer d = (Ok la, d')"
proof -
  have b: "block_signer_of demo_main ''sequencer.key'' x = (Ok \<lparr>bs_key = ()\<rparr>, call x)"
    if "files x ''sequencer.key'' = Some (Text ''suiprivkey1'')" for x
    using that demo_key
    by (simp add: block_signer_of_def st_map_err_def fs_read_to_string_def fs_read_def ma_io_def from_suiprivkey_file_def
        demo_main_def signer_key_of_def)
  have g: "genesis_of demo_main demo_saved = Ok None"
    by (simp add: genesis_of_def demo_saved_simps default_sequencer_config_def)
  have i: "\<exists>x. inbox_from_config demo_main demo_saved = Ok x"
    by (simp add: inbox_from_config_def demo_saved_simps build_tracker_def demo_main_def)
  have a: "maybe_spawn_advertise demo_main demo_saved x = (None, x)" for x
    by (simp add: maybe_spawn_advertise_def demo_saved_simps)
  have st: "store_init (ma_io demo_main) p x = (Ok (), call x)" for p x
    by (simp add: store_init_def fs_create_dir_all_def ma_io_def demo_main_def)
  obtain x where "inbox_from_config demo_main demo_saved = Ok x" using i by blast
  then show ?thesis
    by (simp add: launch_with_def sbind_def slift_def g b [OF assms] st st_map_err_def a)
qed

lemma sequencer_starts_on_one_key_and_contract_witness:
  "\<exists>la d'. start_sequencer demo_main demo_cfg ''config.toml'' demo_files = Some (Ok la, d') \<and>
    (\<exists>tk blocks. la_inbox la = Some (tk, blocks) \<and> tk_inbox_id tk = s_inbox (la_settlement la))"
proof -
  obtain d1 where s: "setup_signer (setup_env demo_main) demo_cfg ''config.toml'' ''sequencer.key'' demo_files =
      Some (Ok demo_signer, demo_saved, d1)" and k: "files d1 ''sequencer.key'' = Some (Text ''suiprivkey1'')"
    by (rule demo_setup [of "setup_env demo_main" demo_files])
      (simp_all add: demo_key, simp_all add: setup_env_def demo_main_def)
  obtain la d' where l: "launch_with demo_main ''sequencer.key'' None None demo_saved demo_signer d1 = (Ok la, d')"
    using demo_launch [OF k] by blast
  have e: "engine_of demo_main demo_cfg x = Ok ()" for x by (simp add: engine_of_def demo_main_def)
  have start: "start_sequencer demo_main demo_cfg ''config.toml'' demo_files = Some (Ok la, d')"
    using s l
    by (simp add: start_sequencer_def sbind_def slift_def sreturn_def build_p2p_def start_metrics_endpoint_def demo_cfg_simps
        default_p2p_table_def default_metrics_config_def default_signer_config_def e demo_preflight [simplified demo_cfg_simps]
        demo_main_client)
  have "\<And>n. ne_io (ma_node demo_main) n = None" by (simp add: demo_main_def)
  from sequencer_starts_on_one_key_and_contract [OF start this] start show ?thesis by blast
qed

end
