(* ===== verification/Bridge_Task_Examples.thy ===== *)
theory Bridge_Task_Examples
  imports Bridge_Task_Safety Node_Main_Examples
begin

text \<open>
  The bridge task at a concrete input: the settlement contract of the first start, a Vault created with an
  adopted key, an L2 node that is offline.
\<close>

definition offline_lib :: evm_lib where
  "offline_lib = \<lparr>el_hex = \<lambda>_. [], el_unhex = \<lambda>_. Ok [], el_keccak = \<lambda>_. barr_fill 0, el_show_address = \<lambda>_. [],
     el_parse_address = \<lambda>_. Ok (barr_fill 0), el_checksum = \<lambda>_. [], el_struct_tag = Ok,
     el_mint_call = \<lambda>_ _ _. [], el_create_call = \<lambda>_ _ _. [], el_sign_tx = \<lambda>_. Ok []\<rparr>"

definition offline_l2 :: "unit l2_port" where
  "offline_l2 = \<lparr>lp_lib = offline_lib, lp_post = \<lambda>_ w. (Err ''offline'', w), lp_now = \<lambda>_. 0, lp_sleep = \<lambda>_ w. w\<rparr>"

definition offline_port :: "unit relay_port" where
  "offline_port = \<lparr>lp_lib = offline_lib, lp_post = \<lambda>_ w. (Err ''offline'', w), lp_now = \<lambda>_. 0, lp_sleep = \<lambda>_ w. w,
     lp_vault_status = \<lambda>w. (Err (BRpc ''offline''), w), lp_deposit_at = \<lambda>_ _ w. (Err (BRpc ''offline''), w),
     lp_withdraw = \<lambda>_ _ _ _ w. (Err (BRpc ''offline''), w), lp_signer = barr_fill 5, lp_factory = barr_fill 6, lp_poll = 2,
     lp_io = \<lambda>_. None, lp_cursors_path = ''bridge_cursors.json'',
     lp_cursors_json = \<lparr>to_json = \<lambda>_. Ok ''cursors'', from_json = \<lambda>_. Err ''unsupported''\<rparr>\<rparr>"

definition demo_vault :: deployed_bridge where
  "demo_vault = \<lparr>db_vault_id = ''shared'', db_cap_id = ''cap''\<rparr>"

definition demo_bridge_toml :: "config json" where
  "demo_bridge_toml =
     \<lparr>to_json = \<lambda>c. if c = with_bridge_ids demo_vault demo_saved then Ok ''cfg'' else Err ''unsupported'',
      from_json = \<lambda>t. if t = ''cfg'' then Ok (with_bridge_ids demo_vault demo_saved) else Err ''unsupported''\<rparr>"

definition demo_bridge :: "(unit, unit, unit, unit, unit) bridge_env" where
  "demo_bridge =
     \<lparr>be_io = \<lambda>_. None, be_toml = demo_bridge_toml, be_lib = offline_lib, be_te = \<lambda>_. demo_te, be_adopted = \<lambda>_. Some (),
      be_parse = \<lambda>_. Ok (barr_fill 2), be_parse_key = \<lambda>_. Ok (), be_from_slice = \<lambda>_. Ok (), be_signer = \<lambda>_. barr_fill 5,
      be_factory = barr_fill 6, be_l2 = \<lambda>_. offline_l2, be_port = \<lambda>_ _ _ _. offline_port, be_fuel = 2 ^ 64 + 2502\<rparr>"

definition demo_task :: "(unit, unit) bridge_task" where
  "demo_task = \<lparr>bt_config = demo_saved, bt_disk = demo_files, bt_world = (), bt_shared = None\<rparr>"

lemma demo_bridge_simps [simp]:
  "be_io demo_bridge = (\<lambda>_. None)" "be_toml demo_bridge = demo_bridge_toml" "be_te demo_bridge n = demo_te"
  "be_adopted demo_bridge n = Some ()" "be_parse demo_bridge = (\<lambda>_. Ok (barr_fill 2))"
  "be_port demo_bridge c k v cl = offline_port" "be_fuel demo_bridge = 2 ^ 64 + 2502"
  by (simp_all add: demo_bridge_def)

lemma json_ok_demo_bridge: "json_ok demo_bridge_toml"
  by (auto simp: json_ok_def demo_bridge_toml_def trim_def is_ws_def split: if_splits)

lemma demo_vault_made: "initialize_with_key demo_te (\<lambda>_. Ok (barr_fill 2)) () url pkg = Ok demo_vault"
  by (simp add: initialize_with_key_def demo_te_def parse_address_def bridge_call_def sign_and_execute_def
      find_created_object_def demo_vault_def into_checked_def)

lemma demo_saved_bridge:
  "bc_cap_id (cf_bridge demo_saved) = None" "bc_vault_id (cf_bridge demo_saved) = None"
  by (simp_all add: demo_saved_def with_ids_def demo_cfg_def testnet_config_def default_bridge_config_def)

lemma demo_bridge_ids:
  "\<exists>s1. bridge_ids demo_bridge 0 ''config.toml'' ''sequencer.key'' demo_task = (Ok (''pkg'', ''cap'', ''shared''), s1)"
proof -
  have "\<exists>d1. config_save (\<lambda>_. None) demo_bridge_toml ''config.toml'' (with_bridge_ids demo_vault demo_saved) demo_files = (Ok (), d1)"
    by (simp add: config_save_def demo_bridge_toml_def config_to_toml_def demo_paths sbind_def slift_def
        st_map_err_def fs_write_def fs_rename_def Let_def)
  then obtain d1 where "config_save (\<lambda>_. None) demo_bridge_toml ''config.toml'' (with_bridge_ids demo_vault demo_saved) demo_files = (Ok (), d1)" ..
  then show ?thesis
    by (simp add: bridge_ids_def demo_task_def demo_saved_simps demo_saved_bridge on_task_disk_def create_vault_def
        demo_vault_made sbind_def st_map_err_def sreturn_def Let_def)
      (simp add: demo_vault_def)
qed

text \<open>The Vault is created with the adopted key and found by the next process.\<close>

lemma bridge_vault_created_once_witness:
  "\<exists>s1 d1. bridge_ids demo_bridge 0 ''config.toml'' ''sequencer.key'' demo_task = (Ok (''pkg'', ''cap'', ''shared''), s1) \<and>
    config_load (\<lambda>_. None) demo_bridge_toml ''config.toml'' (bt_disk s1) = (Ok (bt_config s1), d1) \<and>
    bc_vault_id (cf_bridge (bt_config s1)) = Some ''shared''"
proof -
  obtain s1 where made: "bridge_ids demo_bridge 0 ''config.toml'' ''sequencer.key'' demo_task = (Ok (''pkg'', ''cap'', ''shared''), s1)"
    using demo_bridge_ids by blast
  have "bc_vault_id (cf_bridge (bt_config demo_task)) = None" by (simp add: demo_task_def demo_saved_bridge)
  from bridge_vault_created_once [OF made this] made show ?thesis by (auto simp: json_ok_demo_bridge)
qed


end
