(* ===== verification/Node_Rotation.thy ===== *)
theory Node_Rotation
  imports Rotation
begin

text \<open>
  The node's rotation watcher (\<open>crates/node/src/rotation.rs\<close>): the entombment migration, the
  signer swap, one poll of the watcher task, and the runs of polls, clock ticks and restarts
  against the rotation contract.
\<close>

section \<open>Entombment migration\<close>

record entomb_caps =
  ec_settler :: "address option"
  ec_bridge :: "address option"

datatype entomb_step = EntombPresent | Entombed | EntombUnconfigured

record migration_report =
  rep_settler :: entomb_step
  rep_bridge :: entomb_step

definition healed :: "migration_report \<Rightarrow> bool" where
  "healed r \<longleftrightarrow> rep_settler r = Entombed \<or> rep_bridge r = Entombed"

definition blocked :: "migration_report \<Rightarrow> bool" where
  "blocked r \<longleftrightarrow> rep_settler r = EntombUnconfigured \<or> rep_bridge r = EntombUnconfigured"

record 'w entomb_executor =
  en_settler :: "address \<Rightarrow> 'w \<Rightarrow> (settlement_error, unit) result \<times> 'w"
  en_bridge :: "address \<Rightarrow> 'w \<Rightarrow> (settlement_error, unit) result \<times> 'w"

definition entomb_one ::
    "(inbox_error, bool) result \<Rightarrow> address option \<Rightarrow> string \<Rightarrow>
     (address \<Rightarrow> 'w \<Rightarrow> (settlement_error, unit) result \<times> 'w) \<Rightarrow> 'w \<Rightarrow>
     (inbox_error, entomb_step) result \<times> 'w" where
  "entomb_one needed cap label entomb w =
     (case needed of
        Inl e \<Rightarrow> (Err e, w)
      | Inr False \<Rightarrow> (Ok EntombPresent, w)
      | Inr True \<Rightarrow>
          (case cap of
             None \<Rightarrow> (Ok EntombUnconfigured, w)
           | Some c \<Rightarrow>
               (case entomb c w of
                  (Inl e, w') \<Rightarrow> (Err (InboxRpc (label @ settlement_error_display e)), w')
                | (Inr _, w') \<Rightarrow> (Ok Entombed, w'))))"

definition ensure_entombed ::
    "rpc_env \<Rightarrow> watcher \<Rightarrow> nat \<Rightarrow> rotation_targets \<Rightarrow> entomb_caps \<Rightarrow> 'w entomb_executor \<Rightarrow> 'w \<Rightarrow>
     (inbox_error, migration_report) result \<times> 'w" where
  "ensure_entombed env wt n targets caps ex w =
     (case entomb_one (entombment_needed env wt n (rt_registry targets)) (ec_settler caps)
             ''entomb settler cap ptb: '' (en_settler ex) w of
        (Inl e, w') \<Rightarrow> (Err e, w')
      | (Inr settler, w') \<Rightarrow>
          (case entomb_one (entombment_needed env wt (n + 1) (rt_vault targets)) (ec_bridge caps)
                  ''entomb bridge cap ptb: '' (en_bridge ex) w' of
             (Inl e, w'') \<Rightarrow> (Err e, w'')
           | (Inr bridge, w'') \<Rightarrow> (Ok \<lparr>rep_settler = settler, rep_bridge = bridge\<rparr>, w'')))"

datatype migration_log = LogMigrationReadFailed | LogBlocked | LogHealed | LogStatusReadFailed | LogNothing

definition log_migration :: "(inbox_error, migration_report) result \<Rightarrow> inbox_error option \<Rightarrow> migration_log" where
  "log_migration outcome read_error =
     (case outcome of
        Inl _ \<Rightarrow> LogMigrationReadFailed
      | Inr report \<Rightarrow>
          if blocked report then LogBlocked
          else if healed report then LogHealed
          else case read_error of Some _ \<Rightarrow> LogStatusReadFailed | None \<Rightarrow> LogNothing)"

definition parse_optional_id ::
    "(string \<Rightarrow> (string, address) result) \<Rightarrow> string option \<Rightarrow> string \<Rightarrow> address option" where
  "parse_optional_id parse raw field =
     (case raw of
        None \<Rightarrow> None
      | Some i \<Rightarrow> (case parse_address parse i field of Inr a \<Rightarrow> Some a | Inl _ \<Rightarrow> None))"

section \<open>Signer swap\<close>

text \<open>\<open>SwapSinks\<close>: the settlement signer's key, the address snapshot, the relayer's key (once
  the relayer is up) and the adopted-key holder.\<close>

record 'key swap_sinks =
  sk_settlement :: 'key
  sk_snapshot :: address
  sk_bridge :: "'key option"
  sk_adopted :: "'key option"

definition swap_signers :: "('key \<Rightarrow> address) \<Rightarrow> 'key \<Rightarrow> 'key swap_sinks \<Rightarrow> 'key swap_sinks" where
  "swap_signers derive key s =
     s\<lparr>sk_adopted := adopted_key_set key (sk_adopted s), sk_settlement := key,
       sk_snapshot := derive key, sk_bridge := map_option (\<lambda>_. key) (sk_bridge s)\<rparr>"

definition sinks_executor ::
    "('key, 'tx, 'sg) tx_env \<Rightarrow> string \<Rightarrow> rotation_targets \<Rightarrow> ('key, 'key swap_sinks) executor" where
  "sinks_executor te rpc_url targets =
     \<lparr>ex_claim = (\<lambda>key s. (submit_claim te rpc_url key targets, s)),
      ex_adopt = (\<lambda>key s. (Ok (), swap_signers (te_derive te) key s)),
      ex_retire_previous = (\<lambda>key s. (submit_retire_previous te rpc_url key targets, s))\<rparr>"

definition sinks_entomb_executor ::
    "('key, 'tx, 'sg) tx_env \<Rightarrow> string \<Rightarrow> rotation_targets \<Rightarrow> 'key swap_sinks entomb_executor" where
  "sinks_entomb_executor te rpc_url targets =
     \<lparr>en_settler = (\<lambda>cap s. (submit_entomb_settler te rpc_url (sk_settlement s) (rt_package targets)
                               (rt_registry targets) cap, s)),
      en_bridge = (\<lambda>cap s. (submit_entomb_bridge te rpc_url (sk_settlement s) (rt_package targets)
                               (rt_vault targets) cap, s))\<rparr>"

section \<open>Watcher task\<close>

definition POLL_INTERVAL :: nat where "POLL_INTERVAL = 30000"
definition RETIRE_QUIET :: nat where "RETIRE_QUIET = POLL_INTERVAL"

definition resolve_contract_ids ::
    "string option \<Rightarrow> string option \<Rightarrow> string option \<Rightarrow> (string \<times> string \<times> string) option" where
  "resolve_contract_ids settlement_package_id registry_id vault_id =
     (case (settlement_package_id, registry_id, vault_id) of
        (Some p, Some r, Some v) \<Rightarrow> Some (p, r, v)
      | _ \<Rightarrow> None)"

text \<open>\<open>read\<close> is \<open>std::fs::read_to_string\<close>; \<open>parse\<close> is \<open>parse_signer_key\<close>.\<close>

definition load_staged_key ::
    "(string \<Rightarrow> (string, string) result) \<Rightarrow> (string \<Rightarrow> (string, 'key) result) \<Rightarrow> string \<Rightarrow> (string, 'key) result" where
  "load_staged_key read parse path =
     and_then (map_err (\<lambda>e. ''reading staged rotation key '' @ path @ '': '' @ e) (read path)) (\<lambda>raw.
       map_err (\<lambda>e. ''parsing staged rotation key: '' @ e) (parse (trim raw)))"

definition resolve_staged_key ::
    "(string \<Rightarrow> (string, string) result) \<Rightarrow> (string \<Rightarrow> (string, 'key) result) \<Rightarrow> string option \<Rightarrow>
     (string, 'key option) result" where
  "resolve_staged_key read parse rotation_key_path =
     (case rotation_key_path of
        None \<Rightarrow> Ok None
      | Some path \<Rightarrow> and_then (load_staged_key read parse path) (\<lambda>k. Ok (Some k)))"

definition parse_targets ::
    "(string \<Rightarrow> (string, address) result) \<Rightarrow> string \<Rightarrow> string \<Rightarrow> string \<Rightarrow> address \<Rightarrow>
     (settlement_error, address \<times> address \<times> address \<times> address) result" where
  "parse_targets parse package_id registry_id vault_id sender =
     and_then (parse_address parse package_id ''package id'') (\<lambda>p.
     and_then (parse_address parse registry_id ''registry id'') (\<lambda>r.
     and_then (parse_address parse vault_id ''vault id'') (\<lambda>v.
       Ok (p, r, v, sender))))"

datatype poll_outcome =
    PolledMigration migration_log
  | PolledStep plan "(settlement_error, action) result"

text \<open>One iteration of the loop of \<open>spawn\<close>.\<close>

definition watcher_poll ::
    "rpc_env \<Rightarrow> rotation_decoders \<Rightarrow> watcher \<Rightarrow> rotation_targets \<Rightarrow> entomb_caps \<Rightarrow>
     ('key, 'w) executor \<Rightarrow> 'w entomb_executor \<Rightarrow> 'key option \<Rightarrow> nat \<Rightarrow> nat \<Rightarrow> adoption_guard \<Rightarrow> 'w \<Rightarrow>
     poll_outcome \<times> adoption_guard \<times> 'w" where
  "watcher_poll env d wt targets caps ex en staged_key n instant g w =
     (case staged_key of
        None \<Rightarrow>
          (case ensure_entombed env wt n targets caps en w of
             (outcome, w') \<Rightarrow> (PolledMigration (log_migration outcome None), g, w'))
      | Some key \<Rightarrow>
          (case watcher_plan env d wt n of
             Inr plan \<Rightarrow>
               (case apply_plan ex plan (Some key) instant g w of
                  (action, g', w') \<Rightarrow> (PolledStep plan action, g', w'))
           | Inl e \<Rightarrow>
               (case ensure_entombed env wt (n + 3) targets caps en w of
                  (outcome, w') \<Rightarrow> (PolledMigration (log_migration outcome (Some e)), g, w'))))"

section \<open>Runs against the contract\<close>

text \<open>The chain's two authority records and clock, and the execution of the rotation calls of a
  programmable transaction block: all of them or none.\<close>

record rot_chain =
  rc_settlement :: rotation_state
  rc_vault :: rotation_state
  rc_clock :: u64

definition exec_call :: "address \<Rightarrow> move_call \<Rightarrow> rot_chain \<Rightarrow> (string, rot_chain) result" where
  "exec_call sender call c =
     (let f = (if mc_function call = ''claim_rotation'' then (\<lambda>st. move_claim_rotation st (rc_clock c) sender)
               else if mc_function call = ''retire_previous'' then (\<lambda>st. move_retire_previous st sender)
               else (\<lambda>_. Err E_NOT_AUTHORIZED)) in
      if mc_module call = ''settlement'' then
        (case f (rc_settlement c) of Inl _ \<Rightarrow> Err ''abort'' | Inr st \<Rightarrow> Ok (c\<lparr>rc_settlement := st\<rparr>))
      else
        (case f (rc_vault c) of Inl _ \<Rightarrow> Err ''abort'' | Inr st \<Rightarrow> Ok (c\<lparr>rc_vault := st\<rparr>)))"

primrec exec_ptb :: "address \<Rightarrow> move_call list \<Rightarrow> rot_chain \<Rightarrow> (string, rot_chain) result" where
  "exec_ptb sender [] c = Ok c"
| "exec_ptb sender (m # ms) c = and_then (exec_call sender m c) (exec_ptb sender ms)"

record 'key rot_world =
  rw_chain :: rot_chain
  rw_sinks :: "'key swap_sinks"

definition submit_to_chain ::
    "address \<Rightarrow> move_call list \<Rightarrow> 'key rot_world \<Rightarrow> (settlement_error, unit) result \<times> 'key rot_world" where
  "submit_to_chain sender calls w =
     (case exec_ptb sender calls (rw_chain w) of
        Inl e \<Rightarrow> (Err (SExecution e), w)
      | Inr c \<Rightarrow> (Ok (), w\<lparr>rw_chain := c\<rparr>))"

text \<open>The executor of the node with every submit landing on this chain.\<close>

definition chain_executor :: "('key \<Rightarrow> address) \<Rightarrow> rotation_targets \<Rightarrow> ('key, 'key rot_world) executor" where
  "chain_executor derive targets =
     \<lparr>ex_claim = (\<lambda>key. submit_to_chain (derive key) (claim_calls targets)),
      ex_adopt = (\<lambda>key w. (Ok (), w\<lparr>rw_sinks := swap_signers derive key (rw_sinks w)\<rparr>)),
      ex_retire_previous = (\<lambda>key. submit_to_chain (derive key) (retire_calls targets))\<rparr>"

definition chain_poll ::
    "('key \<Rightarrow> address) \<Rightarrow> rotation_targets \<Rightarrow> address \<Rightarrow> 'key \<Rightarrow> nat \<Rightarrow> adoption_guard \<Rightarrow> 'key rot_world \<Rightarrow>
     (settlement_error, action) result \<times> adoption_guard \<times> 'key rot_world" where
  "chain_poll derive targets active staged_key instant g w =
     apply_plan (chain_executor derive targets)
       (plan_of (rc_settlement (rw_chain w)) (rc_vault (rw_chain w)) (rc_clock (rw_chain w)) active (derive staged_key))
       (Some staged_key) instant g w"

text \<open>Polls, clock ticks, an operator's request, and restarts that reload the configured key.\<close>

inductive rot_run ::
    "('key \<Rightarrow> address) \<Rightarrow> rotation_targets \<Rightarrow> 'key \<Rightarrow> 'key \<Rightarrow>
     adoption_guard \<times> 'key rot_world \<Rightarrow> adoption_guard \<times> 'key rot_world \<Rightarrow> bool"
  for derive targets active_key staged_key where
  poll: "chain_poll derive targets (derive active_key) staged_key instant g w = (r, g', w') \<Longrightarrow>
     rot_run derive targets active_key staged_key (g, w) (g', w')"
| clock: "rc_clock (rw_chain w) \<le> t \<Longrightarrow>
     rot_run derive targets active_key staged_key (g, w) (g, w\<lparr>rw_chain := (rw_chain w)\<lparr>rc_clock := t\<rparr>\<rparr>)"
| request: "move_request_rotation (rc_settlement (rw_chain w)) target delay (rc_clock (rw_chain w)) = Ok s \<Longrightarrow>
     move_request_rotation (rc_vault (rw_chain w)) target delay (rc_clock (rw_chain w)) = Ok v \<Longrightarrow>
     rot_run derive targets active_key staged_key (g, w)
       (g, w\<lparr>rw_chain := (rw_chain w)\<lparr>rc_settlement := s, rc_vault := v\<rparr>\<rparr>)"
| restart: "rot_run derive targets active_key staged_key (g, w)
     (guard_new RETIRE_QUIET,
      w\<lparr>rw_sinks := \<lparr>sk_settlement = active_key, sk_snapshot = derive active_key, sk_bridge = None, sk_adopted = None\<rparr>\<rparr>)"

section \<open>Properties\<close>

lemma exec_claim_calls:
  "exec_ptb sender (claim_calls targets) c =
     (case move_claim_rotation (rc_settlement c) (rc_clock c) sender of
        Inl _ \<Rightarrow> Err ''abort''
      | Inr s \<Rightarrow> (case move_claim_rotation (rc_vault c) (rc_clock c) sender of
           Inl _ \<Rightarrow> Err ''abort''
         | Inr v \<Rightarrow> Ok (c\<lparr>rc_settlement := s, rc_vault := v\<rparr>)))"
  by (auto simp: claim_calls_def exec_call_def Let_def split: sum.splits)

lemma exec_retire_calls:
  "exec_ptb sender (retire_calls targets) c =
     (case move_retire_previous (rc_settlement c) sender of
        Inl _ \<Rightarrow> Err ''abort''
      | Inr s \<Rightarrow> (case move_retire_previous (rc_vault c) sender of
           Inl _ \<Rightarrow> Err ''abort''
         | Inr v \<Rightarrow> Ok (c\<lparr>rc_settlement := s, rc_vault := v\<rparr>)))"
  by (auto simp: retire_calls_def exec_call_def Let_def split: sum.splits)

lemma submit_to_chain_sinks [simp]: "submit_to_chain a cs w = (r, w') \<Longrightarrow> rw_sinks w' = rw_sinks w"
  by (auto simp: submit_to_chain_def split: sum.splits)

text \<open>The in-memory adoption marker is only set together with the swap.\<close>

definition swap_inv :: "('key \<Rightarrow> address) \<Rightarrow> 'key \<Rightarrow> adoption_guard \<times> 'key rot_world \<Rightarrow> bool" where
  "swap_inv derive staged_key gw \<longleftrightarrow>
     (adopted (fst gw) \<longrightarrow> sk_settlement (rw_sinks (snd gw)) = staged_key \<and>
        sk_snapshot (rw_sinks (snd gw)) = derive staged_key \<and>
        sk_adopted (rw_sinks (snd gw)) = Some staged_key)"

lemma adopt_step_chain:
  "adopt_step (chain_executor derive targets) (Some k) instant g w =
     (Ok ActAdopted, mark_adopted instant g, w\<lparr>rw_sinks := swap_signers derive k (rw_sinks w)\<rparr>)"
  by (simp add: adopt_step_def chain_executor_def)

lemma retire_step_chain:
  "retire_step (chain_executor derive targets) (Some k) g w =
     (case submit_to_chain (derive k) (retire_calls targets) w of
        (Inl e, w') \<Rightarrow> (Err e, g, w') | (Inr _, w') \<Rightarrow> (Ok ActRetired, g, w'))"
  by (simp add: retire_step_def chain_executor_def)

lemma claim_chain:
  "ex_claim (chain_executor derive targets) k = submit_to_chain (derive k) (claim_calls targets)"
  by (simp add: chain_executor_def)

lemma chain_poll_cases:
  assumes "chain_poll derive targets a k instant g w = (r, g', w')"
  shows "(g' = mark_adopted instant g \<and> w' = w\<lparr>rw_sinks := swap_signers derive k (rw_sinks w)\<rparr> \<and> r = Ok ActAdopted) \<or>
    (g' = g \<and> rw_sinks w' = rw_sinks w \<and> (r = Ok ActRetired \<longrightarrow> adopted g))"
proof -
  let ?p = "plan_of (rc_settlement (rw_chain w)) (rc_vault (rw_chain w)) (rc_clock (rw_chain w)) a (derive k)"
  show ?thesis using assms unfolding chain_poll_def
    by (cases ?p)
      (auto simp: adopt_step_chain retire_step_chain claim_chain
        split: prod.splits sum.splits if_splits)
qed

lemma rot_run_swap_inv:
  assumes "rot_run derive targets active_key staged_key x y" "swap_inv derive staged_key x"
  shows "swap_inv derive staged_key y"
  using assms
proof cases
  case (poll instant g w r g' w')
  from chain_poll_cases [OF poll(3)] assms(2) poll(1,2) show ?thesis
    by (auto simp: swap_inv_def swap_signers_def adopted_key_set_def mark_adopted_def adopted_def)
qed (auto simp: swap_inv_def guard_new_def adopted_def)


text \<open>A claimable pair of records, the starting point of a rotation.\<close>

definition claimable :: "address \<Rightarrow> address \<Rightarrow> rot_chain \<Rightarrow> bool" where
  "claimable active staged c \<longleftrightarrow>
     active \<noteq> staged \<and> unat (rc_clock c) + unat PREV_GRACE_MS < 2 ^ 64 \<and>
     (\<forall>st \<in> {rc_settlement c, rc_vault c}. authority st = active \<and>
        (case rs_pending st of
           None \<Rightarrow> False
         | Some p \<Rightarrow> rot_to p = staged \<and> eligible_at_ms p \<le> rc_clock c \<and>
             unat (eligible_at_ms p) + unat CLAIM_WINDOW_MS < 2 ^ 64 \<and>
             rc_clock c \<le> eligible_at_ms p + CLAIM_WINDOW_MS))"

definition claimed :: "address \<Rightarrow> address \<Rightarrow> rot_chain \<Rightarrow> bool" where
  "claimed active staged c \<longleftrightarrow>
     (\<exists>u. \<forall>st \<in> {rc_settlement c, rc_vault c}.
        st = \<lparr>authority = staged, rs_prev = Some \<lparr>prev_addr = active, until_ms = u\<rparr>, rs_pending = None\<rparr>)"

lemma claimedE:
  assumes "claimed active staged c"
  obtains u where
    "rc_settlement c = \<lparr>authority = staged, rs_prev = Some \<lparr>prev_addr = active, until_ms = u\<rparr>, rs_pending = None\<rparr>"
    "rc_vault c = \<lparr>authority = staged, rs_prev = Some \<lparr>prev_addr = active, until_ms = u\<rparr>, rs_pending = None\<rparr>"
  using assms unfolding claimed_def by blast

lemma claimable_role:
  assumes "claimable active staged c" "st \<in> {rc_settlement c, rc_vault c}"
  shows "derive_role st (rc_clock c) active staged = ClaimReady"
    and "move_claim_rotation st (rc_clock c) staged =
      Ok \<lparr>authority = staged, rs_prev = Some \<lparr>prev_addr = active, until_ms = rc_clock c + PREV_GRACE_MS\<rparr>,
          rs_pending = None\<rparr>"
proof -
  from assms have a: "authority st = active" "active \<noteq> staged" "unat (rc_clock c) + unat PREV_GRACE_MS < 2 ^ 64"
    unfolding claimable_def by blast+
  from assms have "case rs_pending st of
           None \<Rightarrow> False
         | Some p \<Rightarrow> rot_to p = staged \<and> eligible_at_ms p \<le> rc_clock c \<and>
             unat (eligible_at_ms p) + unat CLAIM_WINDOW_MS < 2 ^ 64 \<and>
             rc_clock c \<le> eligible_at_ms p + CLAIM_WINDOW_MS"
    unfolding claimable_def by blast
  then obtain p where p: "rs_pending st = Some p" "rot_to p = staged" "eligible_at_ms p \<le> rc_clock c"
    "unat (eligible_at_ms p) + unat CLAIM_WINDOW_MS < 2 ^ 64" "rc_clock c \<le> eligible_at_ms p + CLAIM_WINDOW_MS"
    by (cases "rs_pending st") auto
  show "derive_role st (rc_clock c) active staged = ClaimReady"
    using a p by (simp add: derive_role_def saturating_add_no_overflow)
  show "move_claim_rotation st (rc_clock c) staged =
      Ok \<lparr>authority = staged, rs_prev = Some \<lparr>prev_addr = active, until_ms = rc_clock c + PREV_GRACE_MS\<rparr>,
          rs_pending = None\<rparr>"
    using claim_succeeds [OF p(1-3,5,4) a(3)] a(1) by simp
qed

lemma poll_claims:
  assumes "claimable active (derive k) (rw_chain w)"
  obtains w' where "chain_poll derive targets active k instant g w = (Ok ActClaimed, g, w')"
    "claimed active (derive k) (rw_chain w')" "rw_sinks w' = rw_sinks w"
proof -
  let ?c = "rw_chain w"
  let ?n = "\<lparr>authority = derive k, rs_prev = Some \<lparr>prev_addr = active, until_ms = rc_clock ?c + PREV_GRACE_MS\<rparr>,
          rs_pending = None\<rparr>"
  note r = claimable_role [OF assms]
  have "plan_of (rc_settlement ?c) (rc_vault ?c) (rc_clock ?c) active (derive k) = PlanClaim"
    using r(1) by (simp add: plan_of_def)
  moreover have "exec_ptb (derive k) (claim_calls targets) ?c = Ok (?c\<lparr>rc_settlement := ?n, rc_vault := ?n\<rparr>)"
    using r(2) by (simp add: exec_claim_calls)
  ultimately have "chain_poll derive targets active k instant g w =
      (Ok ActClaimed, g, w\<lparr>rw_chain := ?c\<lparr>rc_settlement := ?n, rc_vault := ?n\<rparr>\<rparr>)"
    by (simp add: chain_poll_def claim_chain submit_to_chain_def)
  then show ?thesis by (rule that) (simp_all add: claimed_def)
qed

lemma claimed_plan:
  assumes "claimed active staged c"
  shows "plan_of (rc_settlement c) (rc_vault c) t active staged \<in> {PlanAdopt, PlanRetire}"
  by (rule claimedE [OF assms]) (simp add: plan_of_def derive_role_def)

lemma poll_adopts:
  assumes "claimed active (derive k) (rw_chain w)" "\<not> adopted g"
  shows "chain_poll derive targets active k instant g w =
    (Ok ActAdopted, mark_adopted instant g, w\<lparr>rw_sinks := swap_signers derive k (rw_sinks w)\<rparr>)"
  using claimed_plan [OF assms(1), of "rc_clock (rw_chain w)"] assms(2)
  by (auto simp: chain_poll_def adopt_step_chain)

lemma poll_retires:
  assumes "claimed active (derive k) (rw_chain w)" "adopted g" "retire_ready instant g"
  obtains w' where "chain_poll derive targets active k instant g w = (Ok ActRetired, g, w')"
    "rw_sinks w' = rw_sinks w"
    "rc_settlement (rw_chain w') = \<lparr>authority = derive k, rs_prev = None, rs_pending = None\<rparr>"
    "rc_vault (rw_chain w') = \<lparr>authority = derive k, rs_prev = None, rs_pending = None\<rparr>"
proof -
  let ?c = "rw_chain w"
  let ?n = "\<lparr>authority = derive k, rs_prev = None, rs_pending = None\<rparr>"
  have "exec_ptb (derive k) (retire_calls targets) ?c = Ok (?c\<lparr>rc_settlement := ?n, rc_vault := ?n\<rparr>)"
    by (rule claimedE [OF assms(1)]) (simp add: exec_retire_calls move_retire_previous_def)
  then have "chain_poll derive targets active k instant g w =
      (Ok ActRetired, g, w\<lparr>rw_chain := ?c\<lparr>rc_settlement := ?n, rc_vault := ?n\<rparr>\<rparr>)"
    using claimed_plan [OF assms(1), of "rc_clock ?c"] assms(2,3)
    by (auto simp: chain_poll_def retire_step_chain submit_to_chain_def)
  then show ?thesis by (rule that) simp_all
qed

definition advance_clock :: "u64 \<Rightarrow> 'key rot_world \<Rightarrow> 'key rot_world" where
  "advance_clock t w = w\<lparr>rw_chain := (rw_chain w)\<lparr>rc_clock := t\<rparr>\<rparr>"

lemma advance_clock_simps [simp]:
  "claimed a s (rw_chain (advance_clock t w)) = claimed a s (rw_chain w)"
  "rw_sinks (advance_clock t w) = rw_sinks w"
  by (simp_all add: advance_clock_def claimed_def)


definition sample_targets :: rotation_targets where
  "sample_targets = \<lparr>rt_package = barr_fill 7, rt_registry = barr_fill 8, rt_vault = barr_fill 9\<rparr>"

definition sample_claimable :: "address rot_world" where
  "sample_claimable =
     \<lparr>rw_chain = \<lparr>rc_settlement = \<lparr>authority = barr_fill 1, rs_prev = None,
                    rs_pending = Some \<lparr>rot_to = barr_fill 2, eligible_at_ms = 600000\<rparr>\<rparr>,
                  rc_vault = \<lparr>authority = barr_fill 1, rs_prev = None,
                    rs_pending = Some \<lparr>rot_to = barr_fill 2, eligible_at_ms = 600000\<rparr>\<rparr>,
                  rc_clock = 600000\<rparr>,
      rw_sinks = \<lparr>sk_settlement = barr_fill 1, sk_snapshot = barr_fill 1, sk_bridge = Some (barr_fill 1),
                  sk_adopted = None\<rparr>\<rparr>"

lemma sample_claimable: "claimable (barr_fill 1) (id (barr_fill 2)) (rw_chain sample_claimable)"
  by (simp add: claimable_def sample_claimable_def CLAIM_WINDOW_MS_def PREV_GRACE_MS_def)



text \<open>A node restarted after a completed rotation, on its unchanged configuration.\<close>

definition finished_world :: "address \<Rightarrow> address rot_world" where
  "finished_world staged =
     \<lparr>rw_chain = \<lparr>rc_settlement = \<lparr>authority = staged, rs_prev = None, rs_pending = None\<rparr>,
                  rc_vault = \<lparr>authority = staged, rs_prev = None, rs_pending = None\<rparr>, rc_clock = 0\<rparr>,
      rw_sinks = \<lparr>sk_settlement = barr_fill 1, sk_snapshot = barr_fill 1, sk_bridge = None, sk_adopted = None\<rparr>\<rparr>"



end
