(* ===== verification/Node_Tasks.thy ===== *)
theory Node_Tasks
  imports Node_Rotation Full_Node Inbox_Tracker
begin

text \<open>
  The background tasks and the shared client of a node: the client with its settlement signer and the
  snapshot of the signer's address (\<open>crates/sui/src/lib.rs\<close>), the poller of the force-inclusion inbox
  (\<open>crates/node/src/inbox.rs\<close>) and the admission poll of a full node (\<open>crates/node/src/full_node.rs\<close>).
\<close>

section \<open>The client\<close>

text \<open>Clones share the signer and the snapshot, so one record stands for all of them.\<close>

record 'key sui_client =
  sl_config :: walrus_config
  sl_rpc_url :: string
  sl_settlement :: "'key settlement option"
  sl_sender :: "address option"

text \<open>The argument is the outcome of building the HTTP client.\<close>

definition client_new ::
    "(sui_error, unit) result \<Rightarrow> walrus_config \<Rightarrow> string \<Rightarrow> (sui_error, 'key sui_client) result" where
  "client_new http c rpc_url =
     and_then http (\<lambda>_. Ok \<lparr>sl_config = c, sl_rpc_url = rpc_url, sl_settlement = None, sl_sender = None\<rparr>)"

definition with_settlement :: "'key settlement \<Rightarrow> 'key sui_client \<Rightarrow> 'key sui_client" where
  "with_settlement s c = c\<lparr>sl_sender := Some (s_sender s), sl_settlement := Some s\<rparr>"

definition has_settlement :: "'key sui_client \<Rightarrow> bool" where
  "has_settlement c \<longleftrightarrow> sl_settlement c \<noteq> None"

definition settlement_sender :: "'key sui_client \<Rightarrow> address option" where
  "settlement_sender c = sl_sender c"

text \<open>A Move struct tag: address, module, name and type arguments.\<close>

datatype struct_tag = StructTag (st_address: address) (st_module: string) (st_name: string) (st_params: "struct_tag list")

fun sui_tag :: "struct_tag \<Rightarrow> bool" where
  "sui_tag (StructTag a m n params) \<longleftrightarrow> to_vec a = replicate 31 0 @ [2] \<and> m = ''sui'' \<and> n = ''SUI'' \<and> params = []"

definition is_sui_coin_type :: "(string \<Rightarrow> (string, struct_tag) result) \<Rightarrow> string \<Rightarrow> bool" where
  "is_sui_coin_type parse_tag coin_type = (case parse_tag coin_type of Inl _ \<Rightarrow> False | Inr tag \<Rightarrow> sui_tag tag)"

text \<open>\<open>list_balances\<close> is the stream of the RPC for an owner.\<close>

definition sui_balance ::
    "rpc_env \<Rightarrow> (string \<Rightarrow> (string, struct_tag) result) \<Rightarrow> (string \<Rightarrow> (string, string option \<times> u64 option) result list) \<Rightarrow>
     string \<Rightarrow> string \<Rightarrow> (settlement_error, u64) result" where
  "sui_balance env parse_tag list_balances rpc_url owner =
     and_then (map_err SRpc (rpc_new env rpc_url)) (\<lambda>_.
       sui_balance_of (is_sui_coin_type parse_tag) (list_balances owner))"

definition client_sui_balance ::
    "rpc_env \<Rightarrow> (string \<Rightarrow> (string, struct_tag) result) \<Rightarrow> (string \<Rightarrow> (string, string option \<times> u64 option) result list) \<Rightarrow>
     (address \<Rightarrow> string) \<Rightarrow> 'key sui_client \<Rightarrow> (sui_error, u64 option) result" where
  "client_sui_balance env parse_tag list_balances to_hex c =
     (case settlement_sender c of
        None \<Rightarrow> Ok None
      | Some owner \<Rightarrow>
          map_err (\<lambda>e. SettlementFailure (settlement_error_display e))
            (and_then (sui_balance env parse_tag list_balances (sl_rpc_url c) (to_hex owner)) (\<lambda>b. Ok (Some b))))"

text \<open>What the rotation watcher's swap does to the client.\<close>

definition client_swap :: "('key \<Rightarrow> address) \<Rightarrow> 'key \<Rightarrow> 'key sui_client \<Rightarrow> 'key sui_client" where
  "client_swap derive key c =
     c\<lparr>sl_settlement := map_option (\<lambda>s. s\<lparr>s_key := key, s_sender := derive key\<rparr>) (sl_settlement c),
       sl_sender := map_option (\<lambda>_. derive key) (sl_sender c)\<rparr>"

text \<open>The snapshot is the address of the signer, through any swaps: the balance gauge and the inbox
  transactions never follow a key the signer has left.\<close>

lemma snapshot_follows_signer:
  assumes "client_new http c url = Ok cl" "s_sender s = derive (s_key s)"
  shows "sl_sender (fold (client_swap derive) keys (with_settlement s cl)) =
    map_option (\<lambda>t. derive (s_key t)) (sl_settlement (fold (client_swap derive) keys (with_settlement s cl)))"
proof -
  have "sl_sender x = map_option (\<lambda>t. derive (s_key t)) (sl_settlement x) \<Longrightarrow>
      sl_sender (fold (client_swap derive) keys x) =
        map_option (\<lambda>t. derive (s_key t)) (sl_settlement (fold (client_swap derive) keys x))" for x :: "'a sui_client"
    by (induction keys arbitrary: x) (simp_all add: client_swap_def option.map_comp comp_def)
  then show ?thesis using assms(2) by (simp add: with_settlement_def)
qed

section \<open>The inbox poller\<close>

text \<open>One entry per round: the shutdown flag, the L2 node, the first chain read of the pass and the
  block height gauge. The result tells whether the task has ended, what it sent to the pool, the
  block budget and the disk.\<close>

type_synonym poll_round = "bool \<times> l2_rpc \<times> nat \<times> int"

fun run_poller ::
    "tracker \<Rightarrow> poll_round list \<Rightarrow> u64 \<Rightarrow> disk \<Rightarrow> bool \<times> byte list list \<times> u64 \<times> disk" where
  "run_poller tk [] budget d = (False, [], budget, d)"
| "run_poller tk ((down, l2, n, gauge) # rounds) budget d =
     (if down then (True, [], budget, d)
      else case poll_pass tk l2 n gauge budget d of
        (txs, _, budget1, d1) \<Rightarrow>
          (case run_poller tk rounds budget1 d1 of (ended, txs2, budget2, d2) \<Rightarrow> (ended, txs @ txs2, budget2, d2)))"

definition spawn_poller ::
    "tracker option \<Rightarrow> poll_round list \<Rightarrow> u64 \<Rightarrow> disk \<Rightarrow> bool \<times> byte list list \<times> u64 \<times> disk" where
  "spawn_poller integration rounds budget d =
     (case integration of None \<Rightarrow> (True, [], budget, d) | Some tk \<Rightarrow> run_poller tk rounds budget d)"

text \<open>The task ends at the first round that finds the flag set, whatever its passes return, and runs
  no pass after it.\<close>

lemma poller_ends_at_shutdown:
  "run_poller tk (rounds @ (True, l2, n, gauge) # later) budget d =
   (case run_poller tk rounds budget d of (ended, txs, budget1, d1) \<Rightarrow> (True, txs, budget1, d1))"
proof (induction rounds arbitrary: budget d)
  case (Cons r rounds)
  obtain down l2' n' gauge' where "r = (down, l2', n', gauge')" by (cases r) auto
  with Cons show ?case by (auto split: prod.splits)
qed simp

section \<open>The admission poll\<close>

text \<open>One snapshot per tick; the applied version starts unknown.\<close>

definition admission_task ::
    "(hash \<Rightarrow> (string, 'k) result) \<Rightarrow> (inbox_error, peer_book_snapshot) result list \<Rightarrow> 'k admission_handle \<Rightarrow>
     u64 option \<times> 'k admission_handle" where
  "admission_task load_pubkey snapshots h =
     fold (\<lambda>sn (applied, h). snd (poll_admission load_pubkey sn applied h)) snapshots (None, h)"

definition spawn_admission_poll ::
    "(hash \<Rightarrow> (string, 'k) result) \<Rightarrow> ('k admission_handle \<times> address \<times> address) option \<Rightarrow>
     (inbox_error, peer_book_snapshot) result list \<Rightarrow> (u64 option \<times> 'k admission_handle) option" where
  "spawn_admission_poll load_pubkey admission snapshots =
     map_option (\<lambda>(h, _, _). admission_task load_pubkey snapshots h) admission"

text \<open>The applied version is the one of the last poll that was answered; failed polls change nothing.\<close>

lemma admission_version:
  "fst (admission_task load_pubkey snapshots h) =
   (if \<exists>r \<in> set snapshots. \<not> isl r then Some (version (projr (last (filter (\<lambda>r. \<not> isl r) snapshots)))) else None)"
proof (induction snapshots rule: rev_induct)
  case (snoc r rs)
  obtain applied h1 where t: "admission_task load_pubkey rs h = (applied, h1)" by fastforce
  have step: "admission_task load_pubkey (rs @ [r]) h = snd (poll_admission load_pubkey r applied h1)"
    using t by (simp add: admission_task_def)
  show ?case
  proof (cases r)
    case (Inl e)
    with snoc step t show ?thesis by (simp add: poll_admission_def)
  next
    case (Inr sn)
    then have "fst (snd (poll_admission load_pubkey r applied h1)) = Some (version sn)"
      by (simp add: poll_admission_def)
    with Inr step show ?thesis by simp
  qed
qed (simp add: admission_task_def)

end
