(* ===== verification/Metrics.thy ===== *)
theory Metrics
  imports Mcp_Http
begin

text \<open>
  The Prometheus endpoint (\<open>crates/node/src/metrics.rs\<close>): the instruments it registers and the handler
  of one connection. The text of the exposition format is the metrics library's.
\<close>

section \<open>Instruments\<close>

text \<open>A histogram's buckets by their first bound in hundredths of a second, their factor and number.\<close>

datatype instrument = Gauge | Counter | Histogram nat nat nat

definition DURATION_BUCKETS :: instrument where
  "DURATION_BUCKETS = Histogram 1 2 13"

definition INSTRUMENTS :: "(string \<times> string \<times> instrument) list" where
  "INSTRUMENTS =
     [(''podseq_block_height'', ''Current chain head height'', Gauge),
      (''podseq_blocks_built_total'', ''Total blocks produced since startup'', Counter),
      (''podseq_da_publish_duration_seconds'', ''Walrus DA publish latency per attempt (success and failure)'', DURATION_BUCKETS),
      (''podseq_da_publish_errors_total'', ''Total Walrus DA publish attempts that failed'', Counter),
      (''podseq_da_time_flushes_total'', ''DA batches flushed by batch_flush_ms age before the size threshold'', Counter),
      (''podseq_settlement_duration_seconds'', ''Latency of the successful Sui settlement RPC for each block'', DURATION_BUCKETS),
      (''podseq_pending_blocks'', ''Blocks buffered in the finalizer channel'', Gauge),
      (''podseq_sui_gas_balance_mist'', ''Settlement key SUI balance in mistos'', Gauge),
      (''podseq_bridge_deposits_total'', ''Bridge deposits minted on L2'', Counter),
      (''podseq_bridge_withdrawals_total'', ''Bridge withdrawals released on Sui'', Counter),
      (''podseq_bridge_tokens_created_total'', ''Canonical L2 bridge tokens created through the factory'', Counter)]"

text \<open>Values: a gauge is an \<open>i64\<close>, a counter a \<open>u64\<close>, a histogram its observations.\<close>

datatype 'f metric_value = GaugeValue int | CounterValue u64 | Observations "'f list"

fun fresh_value :: "instrument \<Rightarrow> 'f metric_value" where
  "fresh_value Gauge = GaugeValue 0"
| "fresh_value Counter = CounterValue 0"
| "fresh_value (Histogram a b c) = Observations []"

type_synonym 'f registry = "(string \<times> string \<times> instrument \<times> 'f metric_value) list"

definition metrics_new :: "'f registry" where
  "metrics_new = map (\<lambda>(name, help_text, k). (name, help_text, k, fresh_value k)) INSTRUMENTS"

text \<open>No name is registered twice, and the names follow the convention of the module.\<close>

definition ends_with :: "string \<Rightarrow> string \<Rightarrow> bool" where
  "ends_with s p \<longleftrightarrow> starts_with (rev s) (rev p)"

fun name_ok :: "string \<times> string \<times> instrument \<Rightarrow> bool" where
  "name_ok (name, _, Counter) \<longleftrightarrow> ends_with name ''_total''"
| "name_ok (name, _, Histogram a b c) \<longleftrightarrow> ends_with name ''_duration_seconds''"
| "name_ok (name, _, Gauge) \<longleftrightarrow> \<not> ends_with name ''_total'' \<and> \<not> ends_with name ''_seconds''"

lemma registered_once: "distinct (map fst INSTRUMENTS)"
  by code_simp

lemma names_follow_convention: "list_all name_ok INSTRUMENTS"
  by code_simp

section \<open>The endpoint\<close>

definition request_path :: "string \<Rightarrow> string" where
  "request_path line = (case fst (next_word (snd (next_word line))) of [] \<Rightarrow> ''/'' | c # cs \<Rightarrow> c # cs)"

definition metrics_head :: "string \<Rightarrow> string \<Rightarrow> nat \<Rightarrow> string" where
  "metrics_head status content_type len =
     ''HTTP/1.1 '' @ status @ crlf @ ''Content-Type: '' @ content_type @ crlf @ ''Content-Length: '' @ show_nat len @ crlf @
     ''Connection: close'' @ crlf @ crlf"

text \<open>Every path but \<open>/healthz\<close> is answered with the metrics.\<close>

definition metrics_connection ::
    "('f registry \<Rightarrow> (string, string) result) \<Rightarrow> 'f registry \<Rightarrow> conn \<Rightarrow> (string, unit) result \<times> conn" where
  "metrics_connection encode_text m =
     sbind read_line (\<lambda>(n, line).
       let path = request_path line in
       sbind (slift (if path = ''/healthz'' then Ok [] else and_then (encode_text m) (\<lambda>t. Ok (as_bytes t)))) (\<lambda>body.
       let content_type = (if path = ''/healthz'' then ''text/plain'' else ''text/plain; version=0.0.4; charset=utf-8'') in
       sbind (write_all (as_bytes (metrics_head ''200 OK'' content_type (length body)))) (\<lambda>_. write_all body)))"

text \<open>The head is the one of the MCP endpoint without extra headers.\<close>

lemma metrics_head_eq: "metrics_head status ctype n = response_head status ctype None [] n"
  by (simp add: metrics_head_def response_head_def header_line_def)

text \<open>The liveness probe does not depend on the registry.\<close>

lemma health_probe_ignores_registry:
  assumes "read_line c = (Ok (n, line), c1)" "request_path line = ''/healthz''" "cn_room c1 = None"
  shows "metrics_connection enc m c =
    (Ok (), c1\<lparr>cn_out := cn_out c1 @ as_bytes (response_head ''200 OK'' ''text/plain'' None [] 0)\<rparr>)"
  using assms
  by (simp add: metrics_connection_def sbind_def slift_def write_all_def metrics_head_eq Let_def)

text \<open>A scrape that cannot be encoded is not answered at all.\<close>

lemma failed_encoding_writes_nothing:
  assumes "read_line c = (Ok (n, line), c1)" "request_path line \<noteq> ''/healthz''" "enc m = Err e"
  shows "metrics_connection enc m c = (Err e, c1)"
  using assms by (simp add: metrics_connection_def sbind_def slift_def Let_def)

end
