(* ===== verification/Mcp_Answers.thy ===== *)
theory Mcp_Answers
  imports Mcp
begin

text \<open>
  The bytes the MCP endpoint writes: a response head reads back, through the reader the endpoint
  applies to requests, to its status and headers, with the body as what is left.
\<close>

section \<open>ASCII texts\<close>

definition ascii :: "string \<Rightarrow> bool" where
  "ascii s \<longleftrightarrow> (\<forall>c \<in> set s. (of_char c :: nat) < 128)"

lemma ascii_simps [simp]:
  "ascii []" "ascii (c # s) \<longleftrightarrow> (of_char c :: nat) < 128 \<and> ascii s" "ascii (s @ t) \<longleftrightarrow> ascii s \<and> ascii t"
  "ascii (rev s) = ascii s"
  by (auto simp: ascii_def)

lemma as_bytes_simps [simp]:
  "as_bytes [] = []" "as_bytes (c # s) = of_char c # as_bytes s" "as_bytes (s @ t) = as_bytes s @ as_bytes t"
  "length (as_bytes s) = length s"
  by (simp_all add: as_bytes_def)

lemma unat_of_char: "unat (of_char c :: byte) = of_char c"
proof -
  have w: "(of_char c :: byte) = of_nat (of_char c)" by (simp add: of_nat_of_char)
  show ?thesis by (simp add: w unat_of_nat)
qed

lemma from_utf8_ascii [simp]: "ascii s \<Longrightarrow> from_utf8 e (as_bytes s) = Ok s"
  by (simp add: from_utf8_as_bytes as_bytes_ascii ascii_def)

lemma drop_ws_ascii:
  assumes "ascii s" "\<And>a b. (of_char a :: nat) < 128 \<Longrightarrow> (of_char b :: nat) < 128 \<Longrightarrow> \<not> w2 a b"
    "\<And>a b c. (of_char a :: nat) < 128 \<Longrightarrow> (of_char b :: nat) < 128 \<Longrightarrow> (of_char c :: nat) < 128 \<Longrightarrow> \<not> w3 a b c"
  shows "drop_ws w2 w3 s = dropWhile is_ws s"
  using assms by (induction w2 w3 s rule: drop_ws.induct) simp_all

lemma trim_start_ascii: "ascii s \<Longrightarrow> trim_start_u s = dropWhile is_ws s"
  unfolding trim_start_u_def by (rule drop_ws_ascii) (auto simp: ws2_def ws3_def Let_def)

lemma trim_end_ascii: "ascii s \<Longrightarrow> trim_end_u s = rev (dropWhile is_ws (rev s))"
  unfolding trim_end_u_def by (subst drop_ws_ascii) (auto simp: ws2_def ws3_def Let_def)

lemma ascii_dropWhile: "ascii s \<Longrightarrow> ascii (dropWhile P s)"
  by (auto simp: ascii_def dest: set_dropWhileD)

lemma trim_ascii: "ascii s \<Longrightarrow> trim_u s = trim s"
  by (simp add: trim_u_def trim_def trim_start_ascii trim_end_ascii ascii_dropWhile)

text \<open>A header text: not empty, on one line, no white space at its ends.\<close>

definition line_text :: "string \<Rightarrow> bool" where
  "line_text s \<longleftrightarrow> s \<noteq> [] \<and> ascii s \<and> CHR 0x0A \<notin> set s \<and> \<not> is_ws (hd s) \<and> \<not> is_ws (last s)"

lemma trim_line_text [simp]: "line_text s \<Longrightarrow> trim_u s = s"
  by (simp add: line_text_def trim_ascii trim_ws_free)

lemma is_ws_crlf [simp]: "is_ws (CHR 0x0D)" "is_ws (CHR 0x0A)" "is_ws (CHR '' '')"
  by (simp_all add: is_ws_def)

lemma trim_end_crlf:
  assumes "ascii l" "l = [] \<or> \<not> is_ws (last l)"
  shows "trim_end_u (l @ crlf) = l"
  using assms by (cases l rule: rev_cases) (auto simp: trim_end_ascii crlf_def)

section \<open>Reading lines back\<close>

lemma read_line_text:
  assumes "cn_in c = as_bytes (l @ crlf) @ rest" "ascii l" "CHR 0x0A \<notin> set l"
  shows "read_line c = (Ok (length l + 2, l @ crlf), c\<lparr>cn_in := rest\<rparr>)"
proof -
  have no: "(10 :: byte) \<notin> set (as_bytes l)"
  proof
    assume "(10 :: byte) \<in> set (as_bytes l)"
    then obtain x where x: "x \<in> set l" "(10 :: byte) = of_char x" by (auto simp: as_bytes_def)
    then have "unat (10 :: byte) = of_char x" by (metis unat_of_char)
    then have "(of_char x :: nat) = of_char (CHR 0x0A)" by simp
    then have "x = CHR 0x0A" by (simp only: of_char_eq_iff)
    with x(1) assms(3) show False by blast
  qed
  let ?b = "as_bytes (l @ [CHR 0x0D])"
  have no': "(10 :: byte) \<notin> set ?b" using no by simp
  have e: "cn_in c = ?b @ 10 # rest" using assms(1) by (simp add: crlf_def)
  have t: "takeWhile (\<lambda>b. b \<noteq> 10) (cn_in c) = ?b"
    unfolding e using no' by (subst takeWhile_append2) auto
  have m: "10 \<in> set (cn_in c)" using e by simp
  have u: "from_utf8 err (?b @ [10]) = Ok (l @ crlf)" for err
    using from_utf8_ascii [of "l @ crlf" err] assms(2) by (simp add: crlf_def)
  have "drop (length (?b @ [10])) (cn_in c) = rest" by (simp add: e)
  with t m u show ?thesis
    by (simp add: read_line_def Let_def)
qed

lemma split_once_header:
  "CHR '':'' \<notin> set name \<Longrightarrow> split_once CHR '':'' (name @ '': '' @ value) = Some (name, '' '' @ value)"
  by (simp add: split_once_def takeWhile_append dropWhile_append)

lemma read_headers_line:
  assumes "cn_in c = as_bytes (header_line name value) @ rest"
    and name: "line_text name" "CHR '':'' \<notin> set name" and "value": "line_text value"
    and room: "hb + length (header_line name value) \<le> MAX_HEADER_BYTES"
  shows "read_headers hb hs cl c =
    read_headers (hb + length (header_line name value)) (hs @ [(to_lowercase name, value)])
      (if to_lowercase name = ''content-length'' then parse_u64 value else cl) (c\<lparr>cn_in := rest\<rparr>)"
proof -
  let ?l = "name @ '': '' @ value"
  have a: "ascii ?l" "CHR 0x0A \<notin> set ?l" "last ?l = last value" "?l \<noteq> []"
    using name(1) "value" by (auto simp: line_text_def)
  have "read_line c = (Ok (length ?l + 2, ?l @ crlf), c\<lparr>cn_in := rest\<rparr>)"
    by (rule read_line_text) (use assms(1) a in \<open>simp_all add: header_line_def\<close>)
  moreover have "trim_end_u (?l @ crlf) = ?l"
    by (rule trim_end_crlf) (use a "value" in \<open>auto simp: line_text_def\<close>)
  moreover have "trim_u ('' '' @ value) = value"
    using "value" trim_ws_free [of "value"] by (simp add: trim_ascii line_text_def trim_def)
  moreover have "length (header_line name value) = length ?l + 2" by (simp add: header_line_def crlf_def)
  ultimately show ?thesis
    using room a(4) name split_once_header [OF name(2), of "value"]
    by (subst read_headers.simps) (simp del: append.simps append_Cons)
qed

lemma read_headers_end:
  assumes "cn_in c = as_bytes crlf @ rest" "hb + 2 \<le> MAX_HEADER_BYTES"
  shows "read_headers hb hs cl c = (Ok (hs, cl), c\<lparr>cn_in := rest\<rparr>)"
proof -
  have "read_line c = (Ok (2, crlf), c\<lparr>cn_in := rest\<rparr>)"
    using read_line_text [of c "[]" rest] assms(1) by simp
  moreover have "trim_end_u crlf = []" using trim_end_crlf [of "[]"] by simp
  ultimately show ?thesis using assms(2) by (subst read_headers.simps) simp
qed

text \<open>A block of header lines.\<close>

definition header_lines :: "(string \<times> string) list \<Rightarrow> string" where
  "header_lines hs = concat (map (\<lambda>(n, v). header_line n v) hs)"

definition header_ok :: "string \<times> string \<Rightarrow> bool" where
  "header_ok h \<longleftrightarrow> line_text (fst h) \<and> CHR '':'' \<notin> set (fst h) \<and> line_text (snd h)"

definition length_of :: "(string \<times> string) list \<Rightarrow> u64 option \<Rightarrow> u64 option" where
  "length_of hs cl = fold (\<lambda>(n, v) cl. if to_lowercase n = ''content-length'' then parse_u64 v else cl) hs cl"

lemma read_headers_lines:
  assumes "list_all header_ok hs" "cn_in c = as_bytes (header_lines hs @ crlf) @ rest"
    "hb + length (header_lines hs) + 2 \<le> MAX_HEADER_BYTES"
  shows "read_headers hb acc cl c =
    (Ok (acc @ map (apfst to_lowercase) hs, length_of hs cl), c\<lparr>cn_in := rest\<rparr>)"
  using assms
proof (induction hs arbitrary: hb acc cl c)
  case Nil
  then show ?case by (simp add: header_lines_def length_of_def read_headers_end)
next
  case (Cons h hs)
  obtain n v where h: "h = (n, v)" by (cases h)
  let ?r = "as_bytes (header_lines hs @ crlf) @ rest"
  have c: "cn_in c = as_bytes (header_line n v) @ ?r" using Cons.prems(2) by (simp add: h header_lines_def)
  have len: "length (header_lines (h # hs)) = length (header_line n v) + length (header_lines hs)"
    by (simp add: h header_lines_def)
  have "read_headers hb acc cl c =
      read_headers (hb + length (header_line n v)) (acc @ [(to_lowercase n, v)])
        (if to_lowercase n = ''content-length'' then parse_u64 v else cl) (c\<lparr>cn_in := ?r\<rparr>)"
    by (rule read_headers_line [OF c]) (use Cons.prems(1,3) len in \<open>simp_all add: h header_ok_def\<close>)
  also have "\<dots> = (Ok ((acc @ [(to_lowercase n, v)]) @ map (apfst to_lowercase) hs,
      length_of hs (if to_lowercase n = ''content-length'' then parse_u64 v else cl)), c\<lparr>cn_in := rest\<rparr>)"
    by (subst Cons.IH) (use Cons.prems(1,3) len in simp_all)
  finally show ?case by (simp add: h length_of_def)
qed

lemma read_request_lines:
  assumes "cn_in c = as_bytes (first @ crlf @ header_lines hs @ crlf) @ body"
    "ascii first" "CHR 0x0A \<notin> set first" "list_all header_ok hs" "length (header_lines hs) + 2 \<le> MAX_HEADER_BYTES"
    "next_word (first @ crlf) = (meth, r)" "next_word r = (pth, r')"
  shows "read_request c =
    (Ok (Some \<lparr>hq_method = meth, hq_path = pth, hq_headers = map (apfst to_lowercase) hs,
               hq_content_length = length_of hs None\<rparr>), c\<lparr>cn_in := body\<rparr>)"
proof -
  let ?rest = "as_bytes (header_lines hs) @ as_bytes crlf @ body"
  have l: "read_line c = (Ok (length first + 2, first @ crlf), c\<lparr>cn_in := ?rest\<rparr>)"
    by (rule read_line_text) (use assms(1-3) in simp_all)
  have h: "read_headers 0 [] None (c\<lparr>cn_in := ?rest\<rparr>) =
      (Ok (map (apfst to_lowercase) hs, length_of hs None), c\<lparr>cn_in := body\<rparr>)"
    using read_headers_lines [OF assms(4), of "c\<lparr>cn_in := ?rest\<rparr>" body 0 "[]" None] assms(5) by simp
  show ?thesis by (simp add: read_request_def l h assms(6,7) sbind_def sreturn_def)
qed

section \<open>The content length\<close>

lemma show_nat_digits: "c \<in> set (show_nat n) \<Longrightarrow> \<exists>d < 10. c = digit_char d"
proof (induction n rule: show_nat.induct)
  case (1 n)
  show ?case
  proof (cases "n < 10")
    case True
    with 1(2) have "c = digit_char n" by (subst (asm) show_nat.simps) simp
    with True show ?thesis by blast
  next
    case False
    with 1(2) have "c \<in> set (show_nat (n div 10)) \<or> c = digit_char (n mod 10)"
      by (subst (asm) show_nat.simps) auto
    moreover have "n mod 10 < 10" by simp
    ultimately show ?thesis using 1(1) [OF False] by blast
  qed
qed

lemma of_char_digit_char: "d < 10 \<Longrightarrow> (of_char (digit_char d) :: nat) = 48 + d"
  by (simp add: digit_char_def)

lemma digit_char_text:
  assumes "d < 10"
  shows "(of_char (digit_char d) :: nat) < 128" "\<not> is_ws (digit_char d)" "digit_char d \<noteq> CHR 0x0A"
proof -
  show "(of_char (digit_char d) :: nat) < 128" "\<not> is_ws (digit_char d)"
    using assms of_char_digit_char [OF assms] by (simp_all add: is_ws_def)
  then show "digit_char d \<noteq> CHR 0x0A" by auto
qed

lemma line_text_show_nat: "line_text (show_nat n)"
proof -
  have "\<exists>d < 10. c = digit_char d" if "c \<in> set (show_nat n)" for c by (rule show_nat_digits [OF that])
  moreover have "hd (show_nat n) \<in> set (show_nat n)" "last (show_nat n) \<in> set (show_nat n)"
    by (simp_all add: show_nat_nonempty)
  ultimately show ?thesis
    unfolding line_text_def ascii_def using digit_char_text by (metis show_nat_nonempty)
qed

lemma length_show_nat: "n < 10 ^ Suc k \<Longrightarrow> length (show_nat n) \<le> Suc k"
proof (induction k arbitrary: n)
  case 0
  then show ?case by (subst show_nat.simps) simp
next
  case (Suc k)
  have "n div 10 < 10 ^ Suc k" using Suc.prems by (simp add: less_mult_imp_div_less)
  then have "length (show_nat (n div 10)) \<le> Suc k" by (rule Suc.IH)
  then show ?case by (subst show_nat.simps) simp
qed

lemma parse_show_nat: "n < 2 ^ 64 \<Longrightarrow> parse_u64 (show_nat n) = Some (of_nat n)"
  using parse_show_u64 [of "of_nat n"] by (simp add: show_u64_def unat_of_nat take_bit_nat_eq_self)

section \<open>Replies\<close>

definition STATUS_LINES :: "string list" where
  "STATUS_LINES = [''200 OK'', ''202 Accepted'', ''400 Bad Request'', ''404 Not Found'', ''405 Method Not Allowed'',
     ''413 Content Too Large'']"

text \<open>The replies the endpoint makes.\<close>

fun reply_ok :: "http_reply \<Rightarrow> bool" where
  "reply_ok (Reply status ctype version extra body) \<longleftrightarrow>
     status \<in> set STATUS_LINES \<and> ctype \<in> {''text/plain'', ''application/json''} \<and>
     version \<in> insert None (Some ` set SUPPORTED_PROTOCOL_VERSIONS) \<and>
     extra \<in> {[], [(''Allow'', ''POST'')]} \<and> length body < 2 ^ 64"

fun reply_headers :: "http_reply \<Rightarrow> (string \<times> string) list" where
  "reply_headers (Reply status ctype version extra body) =
     [(''Content-Type'', ctype), (''Content-Length'', show_nat (length body))] @
     (case version of Some v \<Rightarrow> [(''MCP-Protocol-Version'', v)] | None \<Rightarrow> []) @ extra @ [(''Connection'', ''close'')]"

fun reply_body :: "http_reply \<Rightarrow> byte list" where
  "reply_body (Reply status ctype version extra body) = body"

fun reply_first :: "http_reply \<Rightarrow> string" where
  "reply_first (Reply status ctype version extra body) = ''HTTP/1.1 '' @ status"

definition reply_bytes :: "http_reply \<Rightarrow> byte list" where
  "reply_bytes r = as_bytes (reply_first r @ crlf @ header_lines (reply_headers r) @ crlf) @ reply_body r"

lemma send_open:
  assumes "cn_room c = None"
  shows "send r c = (Ok (), c\<lparr>cn_out := cn_out c @ reply_bytes r\<rparr>)"
  using assms
  by (cases r) (simp add: write_response_def write_all_def reply_bytes_def response_head_def header_lines_def
      sbind_def split: option.splits)

lemma line_texts:
  "line_text ''text/plain''" "line_text ''application/json''" "line_text ''2025-06-18''" "line_text ''2025-03-26''"
  "line_text ''POST''" "line_text ''close''" "line_text ''Content-Type''" "line_text ''Content-Length''"
  "line_text ''MCP-Protocol-Version''" "line_text ''Allow''" "line_text ''Connection''"
  by code_simp+

lemma reply_headers_ok: "reply_ok r \<Longrightarrow> list_all header_ok (reply_headers r)"
  by (cases r) (auto simp: header_ok_def line_texts line_text_show_nat SUPPORTED_PROTOCOL_VERSIONS_def)

lemma reply_headers_short:
  assumes "reply_ok r"
  shows "length (header_lines (reply_headers r)) + 2 \<le> MAX_HEADER_BYTES"
proof (cases r)
  case (Reply status ctype version extra body)
  have "length body < 10 ^ Suc 19" using assms by (simp add: Reply)
  then have "length (show_nat (length body)) \<le> 20" using length_show_nat [of _ 19] by simp
  then show ?thesis using assms
    by (auto simp: Reply header_lines_def header_line_def crlf_def MAX_HEADER_BYTES_def SUPPORTED_PROTOCOL_VERSIONS_def)
qed

lemma lower_names:
  "to_lowercase ''Content-Type'' = ''content-type''" "to_lowercase ''Content-Length'' = ''content-length''"
  "to_lowercase ''MCP-Protocol-Version'' = ''mcp-protocol-version''" "to_lowercase ''Allow'' = ''allow''"
  "to_lowercase ''Connection'' = ''connection''"
  by code_simp+

lemma reply_length: "reply_ok r \<Longrightarrow> length_of (reply_headers r) None = Some (of_nat (length (reply_body r)))"
  by (cases r) (auto simp: length_of_def lower_names parse_show_nat SUPPORTED_PROTOCOL_VERSIONS_def)

definition STATUS_CODES :: "string list" where
  "STATUS_CODES = [''200'', ''202'', ''400'', ''404'', ''405'', ''413'']"

lemma reply_first_words:
  assumes "reply_ok r"
  obtains rest code rest' where "next_word (reply_first r @ crlf) = (''HTTP/1.1'', rest)" "next_word rest = (code, rest')"
    "code \<in> set STATUS_CODES"
proof -
  have words: "list_all (\<lambda>st. case next_word ((''HTTP/1.1 '' @ st) @ crlf) of (m, rest) \<Rightarrow>
      m = ''HTTP/1.1'' \<and> fst (next_word rest) \<in> set STATUS_CODES) STATUS_LINES"
    by code_simp
  obtain st where st: "reply_first r = ''HTTP/1.1 '' @ st" "st \<in> set STATUS_LINES" using assms by (cases r) auto
  obtain m rest where n: "next_word ((''HTTP/1.1 '' @ st) @ crlf) = (m, rest)" by fastforce
  then have "m = ''HTTP/1.1''" "fst (next_word rest) \<in> set STATUS_CODES"
    using words st(2) by (auto simp: list_all_iff)
  with n st(1) that [of rest "fst (next_word rest)" "snd (next_word rest)"] show thesis by simp
qed

lemma reply_first_text: "reply_ok r \<Longrightarrow> ascii (reply_first r) \<and> CHR 0x0A \<notin> set (reply_first r)"
proof -
  assume r: "reply_ok r"
  have "list_all (\<lambda>st. ascii (''HTTP/1.1 '' @ st) \<and> CHR 0x0A \<notin> set (''HTTP/1.1 '' @ st)) STATUS_LINES"
    by code_simp
  with r show ?thesis by (cases r) (auto simp: list_all_iff)
qed

text \<open>A reply read by the reader of requests.\<close>

lemma reply_reads_back:
  assumes "reply_ok r" "cn_in c = reply_bytes r"
  obtains code where "code \<in> set STATUS_CODES"
    "read_request c =
      (Ok (Some \<lparr>hq_method = ''HTTP/1.1'', hq_path = code, hq_headers = map (apfst to_lowercase) (reply_headers r),
                 hq_content_length = Some (of_nat (length (reply_body r)))\<rparr>), c\<lparr>cn_in := reply_body r\<rparr>)"
proof -
  obtain rest code rest' where w: "next_word (reply_first r @ crlf) = (''HTTP/1.1'', rest)" "next_word rest = (code, rest')"
    "code \<in> set STATUS_CODES"
    by (rule reply_first_words [OF assms(1)])
  have "read_request c =
      (Ok (Some \<lparr>hq_method = ''HTTP/1.1'', hq_path = code, hq_headers = map (apfst to_lowercase) (reply_headers r),
                 hq_content_length = length_of (reply_headers r) None\<rparr>), c\<lparr>cn_in := reply_body r\<rparr>)"
    using reply_first_text [OF assms(1)]
    by (intro read_request_lines [OF _ _ _ reply_headers_ok [OF assms(1)] reply_headers_short [OF assms(1)] w(1,2)])
      (simp_all add: assms(2) reply_bytes_def)
  with w(3) reply_length [OF assms(1)] show thesis by (intro that) simp_all
qed

end
