(* ===== verification/Mcp_Safety.thy ===== *)
theory Mcp_Safety
  imports Mcp_Answers Effects
begin

text \<open>
  What the MCP endpoint guarantees whatever its peers send and its sources answer: it writes
  nothing or one well-formed response, runs tools only for a complete request within its bounds,
  answers a batch in order, and never changes a file.
\<close>

section \<open>Reading leaves the output alone\<close>

definition same_out :: "conn \<Rightarrow> conn \<Rightarrow> bool" where
  "same_out c d \<longleftrightarrow> cn_out d = cn_out c \<and> cn_room d = cn_room c"

lemma same_out_refl [simp]: "same_out c c"
  by (simp add: same_out_def)

lemma same_out_trans: "same_out c d \<Longrightarrow> same_out d e \<Longrightarrow> same_out c e"
  by (simp add: same_out_def)

lemma read_line_out: "read_line c = (x, c1) \<Longrightarrow> same_out c c1"
  by (auto simp: read_line_def same_out_def Let_def split: if_splits option.splits)

lemma read_body_out: "read_body n c = (x, c1) \<Longrightarrow> same_out c c1"
  by (auto simp: read_body_def same_out_def Let_def split: if_splits option.splits)

lemma drop_ws_length: "length (drop_ws w2 w3 s) \<le> length s"
  by (induction w2 w3 s rule: drop_ws.induct) auto

lemma trim_length: "length (trim_u s) \<le> length s" "length (trim_end_u s) \<le> length s"
proof -
  show e: "length (trim_end_u t) \<le> length t" for t
    using drop_ws_length [of _ _ "rev t"] by (simp add: trim_end_u_def)
  have "length (trim_end_u (trim_start_u s)) \<le> length (trim_start_u s)" by (rule e)
  also have "\<dots> \<le> length s" by (simp add: trim_start_u_def drop_ws_length)
  finally show "length (trim_u s) \<le> length s" by (simp add: trim_u_def)
qed

lemma split_once_length: "split_once c s = Some (a, b) \<Longrightarrow> length b \<le> length s"
  using length_dropWhile_le [of "\<lambda>x. x \<noteq> c" s] by (auto simp: split_once_def split: if_splits)

lemma read_line_length: "read_line c = (Ok (n, line), c1) \<Longrightarrow> length line = n"
  by (auto simp: read_line_def Let_def and_then_eq_Inr dest!: from_utf8_Ok_length split: if_splits option.splits)

definition short_values :: "(string \<times> string) list \<Rightarrow> bool" where
  "short_values hs \<longleftrightarrow> (\<forall>h \<in> set hs. length (snd h) \<le> MAX_HEADER_BYTES)"

text \<open>The header loop: output untouched, and every value within the header bound.\<close>

lemma read_headers_inv:
  "read_headers hb hs cl c = (x, c1) \<Longrightarrow> short_values hs \<Longrightarrow>
    same_out c c1 \<and> (\<forall>hs' cl'. x = Ok (hs', cl') \<longrightarrow> short_values hs')"
proof (induction hb hs cl c arbitrary: x c1 rule: read_headers.induct)
  case (1 hb hs cl c)
  obtain r c0 where l: "read_line c = (r, c0)" by fastforce
  note out = read_line_out [OF l]
  show ?case
  proof (cases r)
    case (Inl e)
    with l out 1(3) show ?thesis by (subst (asm) read_headers.simps) auto
  next
    case (Inr nl)
    obtain n line where nl: "nl = (n, line)" by (cases nl)
    consider "n = 0" | "n \<noteq> 0" "hb + n > MAX_HEADER_BYTES" | "n \<noteq> 0" "\<not> hb + n > MAX_HEADER_BYTES" "trim_end_u line = []"
      | (none) "n \<noteq> 0" "\<not> hb + n > MAX_HEADER_BYTES" "trim_end_u line \<noteq> []" "split_once CHR '':'' (trim_end_u line) = None"
      | (some) name val where "n \<noteq> 0" "\<not> hb + n > MAX_HEADER_BYTES" "trim_end_u line \<noteq> []"
          "split_once CHR '':'' (trim_end_u line) = Some (name, val)"
      by fastforce
    then show ?thesis
    proof cases
      case none
      have "read_headers (hb + n) hs cl c0 = (x, c1)"
        using 1(3) none by (subst (asm) read_headers.simps) (simp add: l Inr nl)
      from 1(1) [OF l [symmetric] Inr nl [symmetric] none(1-4) this 1(4)] out show ?thesis
        by (blast intro: same_out_trans)
    next
      case some
      let ?hs = "hs @ [(to_lowercase (trim_u name), trim_u val)]"
      have step: "read_headers (hb + n) ?hs
          (if to_lowercase (trim_u name) = ''content-length'' then parse_u64 (trim_u val) else cl) c0 = (x, c1)"
        using 1(3) some by (subst (asm) read_headers.simps) (simp add: l Inr nl)
      have "length (trim_u val) \<le> length line"
        using trim_length(1) [of val] split_once_length [OF some(4)] trim_length(2) [of line] by linarith
      then have "short_values ?hs"
        using 1(4) some(2) read_line_length [of c n line c0] l Inr nl by (auto simp: short_values_def)
      from 1(2) [OF l [symmetric] Inr nl [symmetric] some(1-4) refl step this] out show ?thesis
        by (blast intro: same_out_trans)
    qed (use 1(3,4) l Inr nl out in \<open>subst (asm) read_headers.simps; auto\<close>)+
  qed
qed

lemma read_request_inv:
  assumes "read_request c = (x, c1)"
  shows "same_out c c1 \<and> (\<forall>r. x = Ok (Some r) \<longrightarrow> short_values (hq_headers r))"
proof -
  obtain l c0 where l: "read_line c = (l, c0)" by fastforce
  obtain y c2 where h: "read_headers 0 [] None c0 = (y, c2)" by fastforce
  have "same_out c c0" by (rule read_line_out [OF l])
  moreover have "same_out c0 c2 \<and> (\<forall>hs' cl'. y = Ok (hs', cl') \<longrightarrow> short_values hs')"
    by (rule read_headers_inv [OF h]) (simp add: short_values_def)
  ultimately show ?thesis
    using assms by (auto simp: read_request_def l h sbind_def sreturn_def split: sum.splits prod.splits if_splits
        intro: same_out_trans)
qed

section \<open>Every reply is well formed\<close>

lemma plain_ok: "status \<in> set STATUS_LINES \<Longrightarrow> length msg < 2 ^ 64 \<Longrightarrow> reply_ok (plain status msg)"
  by (simp add: plain_def)

lemma status_lines:
  "''200 OK'' \<in> set STATUS_LINES" "''202 Accepted'' \<in> set STATUS_LINES" "''400 Bad Request'' \<in> set STATUS_LINES"
  "''404 Not Found'' \<in> set STATUS_LINES" "''405 Method Not Allowed'' \<in> set STATUS_LINES"
  "''413 Content Too Large'' \<in> set STATUS_LINES"
  by (simp_all add: STATUS_LINES_def)

lemma hq_header_short: "short_values (hq_headers r) \<Longrightarrow> hq_header r k = Some v \<Longrightarrow> length v \<le> MAX_HEADER_BYTES"
  by (auto simp: hq_header_def short_values_def dest!: map_of_SomeD)

lemma refuse_ok:
  assumes "refuse_request r = Inl reply" "short_values (hq_headers r)"
  shows "reply_ok reply"
proof -
  have big: "length (''unsupported MCP-Protocol-Version: '' @ v) < 2 ^ 64"
    if "hq_header r ''mcp-protocol-version'' = Some v" for v
    using hq_header_short [OF assms(2) that] by (simp add: MAX_HEADER_BYTES_def)
  have b: "reply_ok reply" if "body_length r = Inl reply"
    using that by (auto simp: body_length_def intro!: plain_ok status_lines split: if_splits option.splits)
  show ?thesis
    using assms(1) b big
    by (auto simp: refuse_request_def status_lines intro!: plain_ok split: if_splits option.splits simp del: length_append)
qed

lemma version_header_supported: "version_header r \<in> set SUPPORTED_PROTOCOL_VERSIONS"
  by (auto simp: version_header_def SUPPORTED_PROTOCOL_VERSIONS_def LATEST_PROTOCOL_VERSION_def split: option.splits)

lemma answer_ok:
  assumes "\<And>j. length (mp_to_string p j) < 2 ^ 64"
  shows "reply_ok (fst (answer_body p v r body s))"
  using assms version_header_supported [of r]
  by (auto simp: answer_body_def Let_def status_lines intro!: plain_ok split: sum.splits jv.splits prod.splits option.splits)

section \<open>One connection\<close>

text \<open>The outcomes of a connection: nothing but an error or a closed peer, a refusal, an answer.\<close>

lemma handle_connection_cases:
  assumes "handle_connection p v c s = (x, c', s')"
  obtains (quiet) c1 where "same_out c c1" "c' = c1" "s' = s"
    | (refused) r reply c1 where "same_out c c1" "read_request c = (Ok (Some r), c1)" "short_values (hq_headers r)"
        "refuse_request r = Inl reply" "send reply c1 = (x, c')" "s' = s"
    | (answered) r n c1 c2 reply where "same_out c c2" "read_request c = (Ok (Some r), c1)"
        "refuse_request r = Inr n" "unat n \<le> length (cn_in c1)"
        "answer_body p v r (take (unat n) (cn_in c1)) s = (reply, s')" "send reply c2 = (x, c')"
proof -
  obtain q c1 where q: "read_request c = (q, c1)" by fastforce
  note inv = read_request_inv [OF q]
  show thesis
  proof (cases "\<exists>r. q = Ok (Some r)")
    case False
    then have "c' = c1 \<and> s' = s"
      using assms q by (auto simp: handle_connection_def split: sum.splits option.splits)
    with inv show thesis by (intro quiet) auto
  next
    case True
    then obtain r where r: "q = Ok (Some r)" ..
    show thesis
    proof (cases "refuse_request r")
      case (Inl reply)
      obtain y c2 where snt: "send reply c1 = (y, c2)" by fastforce
      then have "y = x" "c2 = c'" "s' = s" using assms by (simp_all add: handle_connection_def q r Inl)
      with inv r q Inl snt show thesis by (intro refused) auto
    next
      case (Inr n)
      obtain b c2 where b: "read_body (unat n) c1 = (b, c2)" by fastforce
      have o2: "same_out c c2" using inv read_body_out [OF b] by (blast intro: same_out_trans)
      show thesis
      proof (cases "b = Ok (take (unat n) (cn_in c1)) \<and> unat n \<le> length (cn_in c1)")
        case True
        obtain reply s1 where a: "answer_body p v r (take (unat n) (cn_in c1)) s = (reply, s1)" by fastforce
        obtain y c3 where snt: "send reply c2 = (y, c3)" by fastforce
        have "y = x" "c3 = c'" "s1 = s'"
          using assms True by (simp_all add: handle_connection_def q r Inr b a snt)
        with o2 q r Inr True a snt show thesis by (intro answered) auto
      next
        case False
        then have "c' = c2 \<and> s' = s"
          using assms b by (auto simp: handle_connection_def q r Inr read_body_def Let_def split: if_splits option.splits)
        with o2 show thesis by (intro quiet) auto
      qed
    qed
  qed
qed

definition incoming :: "byte list \<Rightarrow> conn" where
  "incoming bs = \<lparr>cn_in = bs, cn_end = None, cn_out = [], cn_room = None\<rparr>"

lemma refuse_request_Inr:
  "refuse_request r = Inr n \<Longrightarrow>
    hq_path r = ''/mcp'' \<and> hq_method r = ''POST'' \<and> hq_header r ''transfer-encoding'' = None \<and>
    hq_content_length r = Some n \<and> n \<le> MAX_BODY_BYTES"
  by (auto simp: refuse_request_def body_length_def split: if_splits option.splits)

text \<open>
  C24: every answer of the endpoint is one complete HTTP message. Whatever bytes a peer sends, a peer
  that takes the output gets nothing or a response that the endpoint's own request reader splits into
  a known status and headers, with a Content-Length that is exactly the length of the rest.
\<close>

theorem every_answer_reads_back:
  assumes run: "handle_connection p v c s = (x, c', s')"
    and peer: "cn_room c = None" "cn_out c = []" and short: "\<And>j. length (mp_to_string p j) < 2 ^ 64"
  shows "cn_out c' = [] \<or>
    (\<exists>r c1. read_request (incoming (cn_out c')) = (Ok (Some r), c1) \<and> hq_method r = ''HTTP/1.1'' \<and>
       hq_path r \<in> set STATUS_CODES \<and> hq_header r ''connection'' = Some ''close'' \<and>
       (\<exists>n. hq_content_length r = Some n \<and> unat n = length (cn_in c1)))"
proof -
  have sent: ?thesis if "reply_ok reply" "same_out c d" "send reply d = (x, c')" for reply d
  proof -
    note ok = that(1) and same = that(2) and snt = that(3)
    have "cn_out c' = reply_bytes reply"
      using snt send_open [of d reply] same peer by (auto simp: same_out_def)
    then obtain code where code: "code \<in> set STATUS_CODES"
      "read_request (incoming (cn_out c')) =
        (Ok (Some \<lparr>hq_method = ''HTTP/1.1'', hq_path = code, hq_headers = map (apfst to_lowercase) (reply_headers reply),
                   hq_content_length = Some (of_nat (length (reply_body reply)))\<rparr>),
         (incoming (cn_out c'))\<lparr>cn_in := reply_body reply\<rparr>)"
      using reply_reads_back [OF ok, of "incoming (cn_out c')"] by (auto simp: incoming_def)
    have "length (reply_body reply) < 2 ^ 64" using ok by (cases reply) simp
    moreover have "map_of (map (apfst to_lowercase) (reply_headers reply)) ''connection'' = Some ''close''"
      using ok by (cases reply) (auto simp: lower_names SUPPORTED_PROTOCOL_VERSIONS_def)
    ultimately show ?thesis using code by (simp add: hq_header_def unat_of_nat take_bit_nat_eq_self)
  qed
  from run show ?thesis
  proof (cases rule: handle_connection_cases)
    case (quiet c1)
    with peer show ?thesis by (simp add: same_out_def)
  next
    case (refused r reply c1)
    show ?thesis by (rule sent [OF refuse_ok [OF refused(4,3)] refused(1,5)])
  next
    case (answered r n c1 c2 reply)
    have "reply_ok reply"
      using answer_ok [of p v r "take (unat n) (cn_in c1)" s, OF short] answered(5) by simp
    then show ?thesis by (rule sent [OF _ answered(1,6)])
  qed
qed

text \<open>
  C25: a tool only runs for a complete request. When a connection changes anything of the server, it
  was a POST to /mcp without a transfer encoding, its Content-Length is at most one MiB and the peer
  sent all of it; exactly those bytes are what is dispatched.
\<close>

theorem tools_run_on_complete_requests:
  assumes "handle_connection p v c s = (x, c', s')" "s' \<noteq> s"
  shows "\<exists>r c1 n. read_request c = (Ok (Some r), c1) \<and> hq_path r = ''/mcp'' \<and> hq_method r = ''POST'' \<and>
    hq_header r ''transfer-encoding'' = None \<and> hq_content_length r = Some n \<and> n \<le> 2 ^ 20 \<and>
    unat n \<le> length (cn_in c1) \<and> s' = snd (answer_body p v r (take (unat n) (cn_in c1)) s)"
  using assms(1)
proof (cases rule: handle_connection_cases)
  case (answered r n c1 c2 reply)
  have "s' = snd (answer_body p v r (take (unat n) (cn_in c1)) s)" using answered(5) by simp
  with refuse_request_Inr [OF answered(3)] answered(2,4) show ?thesis
    by (auto simp: MAX_BODY_BYTES_def)
qed (use assms(2) in simp_all)

section \<open>Batches\<close>

text \<open>The id an entry is answered under, \<open>None\<close> for a notification.\<close>

definition answer_id :: "jv \<Rightarrow> jv option" where
  "answer_id entry = (if is_obj entry then jget ''id'' entry else Some JNull)"

lemma jget_response:
  "jget ''id'' (ok_response i res) = Some i" "jget ''id'' (err_response i code m) = Some i"
  "jget ''jsonrpc'' (ok_response i res) = Some (JStr ''2.0'')" "jget ''jsonrpc'' (err_response i code m) = Some (JStr ''2.0'')"
  "jget ''result'' (ok_response i res) = Some res" "jget ''error'' (ok_response i res) = None"
  "jget ''result'' (err_response i code m) = None" "jget ''error'' (err_response i code m) \<noteq> None"
  by (simp_all add: jget_def ok_response_def err_response_def)

definition rpc_reply :: "jv \<Rightarrow> bool" where
  "rpc_reply r \<longleftrightarrow> jget ''jsonrpc'' r = Some (JStr ''2.0'') \<and> (jget ''result'' r = None) \<noteq> (jget ''error'' r = None)"

lemma rpc_replies [simp]: "rpc_reply (ok_response i res)" "rpc_reply (err_response i code m)"
  by (simp_all add: rpc_reply_def jget_response)

lemma dispatch_id: "Option.bind (fst (dispatch p v m s)) (jget ''id'') = jget ''id'' m"
  by (auto simp: dispatch_def jget_response Let_def split: option.splits prod.splits)

lemma dispatch_none: "fst (dispatch p v m s) = None \<longleftrightarrow> jget ''id'' m = None"
  by (auto simp: dispatch_def Let_def split: option.splits prod.splits)

lemma dispatch_reply: "fst (dispatch p v m s) = Some r \<Longrightarrow> rpc_reply r"
  by (auto simp: dispatch_def Let_def split: option.splits prod.splits if_splits)

text \<open>
  A batch is answered in order: one JSON-RPC reply, a result or an error and never both, for each
  entry with an id and, under a null id, for each entry that is not an object; notifications get none.
\<close>

theorem batch_answered_in_order:
  "map (jget ''id'') (fst (dispatch_batch p v entries s)) = map Some (List.map_filter answer_id entries) \<and>
   list_all rpc_reply (fst (dispatch_batch p v entries s))"
proof (induction entries arbitrary: s)
  case Nil
  show ?case by (simp add: map_filter_simps)
next
  case (Cons e es)
  let ?m = "if is_obj e then dispatch p v e s else (Some (err_response JNull (-32600) ''invalid request''), s)"
  obtain resp s1 where m: "?m = (resp, s1)" by fastforce
  obtain rs s2 where rs: "dispatch_batch p v es s1 = (rs, s2)" by fastforce
  have i: "Option.bind resp (jget ''id'') = answer_id e" and n: "resp = None \<longleftrightarrow> answer_id e = None"
    using m dispatch_id [of p v e s] dispatch_none [of p v e s]
    by (auto simp: answer_id_def jget_response split: if_splits)
  have ok: "rpc_reply r" if "resp = Some r" for r
    using m that dispatch_reply [of p v e s] by (auto split: if_splits)
  show ?case
    using Cons.IH [of s1] i n ok by (cases resp) (auto simp: m rs map_filter_simps)
qed

section \<open>Files are only read\<close>

text \<open>What the files can be when only the other processes change them.\<close>

inductive drifts :: "mcp_env \<Rightarrow> (path \<rightharpoonup> fdata) \<Rightarrow> (path \<rightharpoonup> fdata) \<Rightarrow> bool" for p where
  stay: "drifts p f f"
| others: "drifts p f (files d) \<Longrightarrow> drifts p f (files (mp_others p n d))"

lemma drifts_trans: "drifts p g h \<Longrightarrow> drifts p f g \<Longrightarrow> drifts p f h"
  by (induction rule: drifts.induct) (auto intro: drifts.intros)

definition only_read :: "mcp_env \<Rightarrow> mcp_state \<Rightarrow> mcp_state \<Rightarrow> bool" where
  "only_read p s t \<longleftrightarrow> drifts p (files (mt_disk s)) (files (mt_disk t))"

interpretation reads: run_order "only_read p"
  by unfold_locales (auto simp: only_read_def intro: drifts.stay drifts_trans)

lemma on_disk_reads:
  assumes "\<And>d. files (snd (f d)) = files d"
  shows "preserves (only_read p) (mcp_on_disk p f)"
proof (rule reads.preservesI)
  fix s
  have "files (mt_disk (snd (mcp_on_disk p f s))) = files (mp_others p (mt_ops s) (mt_disk s))"
    by (simp add: mcp_on_disk_def case_prod_beta assms)
  then show "only_read p s (snd (mcp_on_disk p f s))"
    by (simp add: only_read_def drifts.others drifts.stay)
qed

lemma on_net_reads: "preserves (only_read p) (on_net f)"
  by (rule reads.preservesI) (simp add: on_net_def only_read_def drifts.stay)

lemma state_load_reads: "files (snd (state_load io j dir d)) = files d"
  using state_load_files [of io j dir d] by (metis prod.collapse)

lemma pending_reads: "files (snd (store_pending io j dir d)) = files d"
  by (simp add: store_pending_def pending_load_raw_def sbind_def sreturn_def split: prod.splits sum.splits)
    (metis load_json_files snd_conv)

lemma block_get_reads: "files (snd (block_get io fb dir h d)) = files d"
  by (simp add: block_get_def sbind_def slift_def split: prod.splits sum.splits) (metis fs_read_files snd_conv)

text \<open>The single reads, as steps.\<close>

lemma read_steps:
  "mcp_on_disk p (state_load io sj dir) s = (x1, s1) \<Longrightarrow> only_read p s s1"
  "mcp_on_disk p (store_pending io pj dir) s = (x2, s1) \<Longrightarrow> only_read p s s1"
  "mcp_on_disk p (block_get io fb dir h) s = (x3, s1) \<Longrightarrow> only_read p s s1"
  "mcp_on_disk p (\<lambda>d. (g d, d)) s = (x4, s1) \<Longrightarrow> only_read p s s1"
  "on_net f s = (x5, s1) \<Longrightarrow> only_read p s s1"
proof -
  have step: "only_read p s s1" if "mcp_on_disk p f s = (x, s1)" "\<And>d. files (snd (f d)) = files d"
    for f :: "disk \<Rightarrow> 'x \<times> disk" and x
    by (rule reads.preservesD [OF on_disk_reads that(1)]) (rule that(2))
  show "mcp_on_disk p (state_load io sj dir) s = (x1, s1) \<Longrightarrow> only_read p s s1"
    by (erule step) (rule state_load_reads)
  show "mcp_on_disk p (store_pending io pj dir) s = (x2, s1) \<Longrightarrow> only_read p s s1"
    by (erule step) (rule pending_reads)
  show "mcp_on_disk p (block_get io fb dir h) s = (x3, s1) \<Longrightarrow> only_read p s s1"
    by (erule step) (rule block_get_reads)
  show "mcp_on_disk p (\<lambda>d. (g d, d)) s = (x4, s1) \<Longrightarrow> only_read p s s1"
    by (erule step) simp
  show "on_net f s = (x5, s1) \<Longrightarrow> only_read p s s1"
    by (rule reads.preservesD [OF on_net_reads])
qed

lemma only_read_uid [simp]: "only_read p s (t\<lparr>mt_uid := u\<rparr>) = only_read p s t"
  by (simp add: only_read_def)

lemma table_uid_reads: "commitments_table_uid p v s = (x, s1) \<Longrightarrow> only_read p s s1"
  by (auto simp: commitments_table_uid_def reads.refl intro: read_steps split: option.splits prod.splits sum.splits)

lemma blob_id_reads: "blob_id_for_height p v h s = (x, s1) \<Longrightarrow> only_read p s s1"
  by (auto simp: blob_id_for_height_def reads.refl dest!: table_uid_reads read_steps(5) intro: reads.trans
      split: if_splits prod.splits sum.splits option.splits)

lemma settled_height_reads: "settled_height_read p v rg s = (x, s1) \<Longrightarrow> only_read p s s1"
  by (auto simp: settled_height_read_def intro: read_steps)

lemma settlement_section_reads: "settlement_section p v l s = (x, s1) \<Longrightarrow> only_read p s s1"
  by (auto simp: settlement_section_def reads.refl Let_def dest!: settled_height_reads
      split: option.splits prod.splits sum.splits)

lemma tool_status_reads: "tool_status p v s = (x, s') \<Longrightarrow> only_read p s s'"
  by (auto simp: tool_status_def dest!: read_steps settlement_section_reads split: prod.splits sum.splits)
    (meson reads.trans)+

lemma tool_get_block_reads: "tool_get_block p v a s = (x, s') \<Longrightarrow> only_read p s s'"
  by (auto simp: tool_get_block_def reads.refl Let_def dest!: read_steps blob_id_reads intro: reads.trans
      split: prod.splits sum.splits option.splits store_error.splits)

lemma tool_get_blob_reads: "tool_get_blob p v a s = (x, s') \<Longrightarrow> only_read p s s'"
  by (auto simp: tool_get_blob_def reads.refl dest!: read_steps(5) split: prod.splits sum.splits option.splits)

lemma tool_settlement_reads: "tool_settlement p v a s = (x, s') \<Longrightarrow> only_read p s s'"
  by (auto simp: tool_settlement_def reads.refl Let_def dest!: settled_height_reads blob_id_reads intro: reads.trans
      split: prod.splits sum.splits option.splits jv.splits)

lemma tool_bridge_reads: "tool_bridge p v s = (x, s') \<Longrightarrow> only_read p s s'"
  by (auto simp: tool_bridge_def reads.refl dest!: read_steps(5) split: prod.splits sum.splits option.splits)

lemmas tool_reads = tool_status_reads tool_get_block_reads tool_get_blob_reads tool_settlement_reads tool_bridge_reads

lemma call_tool_reads: "call_tool p v name a s = (x, s') \<Longrightarrow> only_read p s s'"
  by (auto simp: call_tool_def reads.refl map_prod_def dest: tool_reads split: if_splits prod.splits)

lemma dispatch_reads: "dispatch p v m s = (x, s') \<Longrightarrow> only_read p s s'"
  by (auto simp: dispatch_def reads.refl Let_def dest: call_tool_reads split: if_splits prod.splits option.splits)

lemma dispatch_batch_reads: "dispatch_batch p v es s = (x, s') \<Longrightarrow> only_read p s s'"
proof (induction es arbitrary: s x s')
  case (Cons e es)
  then show ?case
    by (auto simp: reads.refl dest!: dispatch_reads intro: reads.trans split: if_splits prod.splits)
qed (simp add: reads.refl)

lemma answer_body_reads: "answer_body p v r b s = (x, s') \<Longrightarrow> only_read p s s'"
  by (auto simp: answer_body_def reads.refl Let_def dest: dispatch_reads dispatch_batch_reads
      split: sum.splits jv.splits prod.splits option.splits)

primrec serve_all :: "mcp_env \<Rightarrow> mcp_server \<Rightarrow> conn list \<Rightarrow> mcp_state \<Rightarrow> mcp_state" where
  "serve_all p v [] s = s"
| "serve_all p v (c # cs) s = serve_all p v cs (snd (snd (handle_connection p v c s)))"

text \<open>
  C26: the endpoint is read-only. Over any sequence of connections, whatever they send and whichever
  disk call fails, the files only change by what the other processes do.
\<close>

theorem endpoint_only_reads_files:
  "drifts p (files (mt_disk s)) (files (mt_disk (serve_all p v (serve_on events) s)))"
proof -
  have one: "only_read p t (snd (snd (handle_connection p v c t)))" for c t
  proof -
    obtain x c' t' where h: "handle_connection p v c t = (x, c', t')" by (metis prod.exhaust)
    then show ?thesis
      by (cases rule: handle_connection_cases) (auto simp: h reads.refl dest: answer_body_reads)
  qed
  have "only_read p s (serve_all p v cs s)" for cs s
    by (induction cs arbitrary: s) (auto intro: reads.refl reads.trans one)
  then show ?thesis by (simp add: only_read_def)
qed

section \<open>What the tools report\<close>

text \<open>The cached table UID is one the registry was read with, and it stays.\<close>

definition uid_read :: "mcp_env \<Rightarrow> mcp_server \<Rightarrow> address \<Rightarrow> bool" where
  "uid_read p v u \<longleftrightarrow> (\<exists>n registry. mv_registry_id v = Some registry \<and>
     table_uid (mp_rpc p) (mp_parse_address p) (mp_registry p) n (mv_rpc_url v) registry = Ok u)"

lemma cached_uid_is_registrys:
  assumes "commitments_table_uid p v s = (x, s1)" "\<And>u. mt_uid s = Some u \<Longrightarrow> uid_read p v u"
  shows "(\<forall>u. mt_uid s1 = Some u \<longrightarrow> uid_read p v u) \<and> (mt_uid s \<noteq> None \<longrightarrow> s1 = s) \<and>
    (\<forall>u. x = Ok u \<longrightarrow> mt_uid s1 = Some u)"
proof (cases "mt_uid s")
  case (Some u)
  with assms show ?thesis by (auto simp: commitments_table_uid_def)
next
  case None
  with assms(1) show ?thesis
    by (auto simp: commitments_table_uid_def on_net_def timeout_ok_def uid_read_def
        split: option.splits sum.splits if_splits)
qed

text \<open>A lookup with the cached UID answers as the lookup that reads it first, one request later.\<close>

lemma cache_transparent:
  assumes "mt_uid s = None" "mv_registry_id v = Some registry" "\<not> mp_timed_out p (mt_reads s)"
    "table_uid (mp_rpc p) (mp_parse_address p) (mp_registry p) (mt_reads s) (mv_rpc_url v) registry = Ok u"
  shows "blob_id_for_height p v h s = blob_id_for_height p v h (s\<lparr>mt_uid := Some u, mt_reads := Suc (mt_reads s)\<rparr>)"
  using assms by (cases s) (simp add: blob_id_for_height_def commitments_table_uid_def on_net_def timeout_ok_def)

text \<open>The settlement tool reports a failed lookup as a height that is not settled.\<close>

lemma settlement_tool_hides_failure:
  assumes "mv_registry_id v = Some registry" "settled_height_read p v registry s = (Ok latest, s1)"
    "Option.bind (jget ''height'' args) as_u64 = Some h" "blob_id_for_height p v h s1 = ((JNull, e), s2)"
  shows "tool_settlement p v args s =
    (text_outcome (pretty p (j_set ''commitment'' (JObj [(''height'', j_u64 h), (''blob_id'', JNull)])
       (JObj [(''registry_id'', JStr registry), (''package_id'', j_option JStr (mv_settlement_package_id v)),
              (''latest_settled_height'', j_u64 latest)]))), s2)"
  using assms by (cases e) (simp_all add: tool_settlement_def)

text \<open>A batch that was encoded and stored is shown block by block.\<close>

lemma published_batch_shown:
  assumes "bcs_codec tb (mp_wire p)" "encode tb blocks = Ok bytes" "blocks \<noteq> []"
    "mp_b64_decode p (mp_b64_encode p (to_vec h)) = Ok (to_vec h)"
    "mp_get p (mt_reads s) (aggregator_url (mv_sui v) @ ''/v1/blobs/'' @ mp_b64_encode p (to_vec h)) = Ok resp"
    "http_is_success (hr_status resp)" "hr_bytes resp = Ok bytes"
  shows "fst (tool_get_blob p v (JObj [(''blob_id'', JStr (blob_id_encode (mp_b64_encode p) (BlobId h)))]) s) =
    text_outcome (pretty p (JObj
      [(''blob_id'', JStr (mp_b64_encode p (to_vec h))), (''size'', j_len bytes), (''block_count'', j_len blocks),
       (''blocks'', JArr (map block_brief blocks))]))"
proof -
  have "decode (mp_wire p) bytes = Ok blocks" using decode_encode_iff [OF assms(1)] assms(2,3) by simp
  moreover have "try_into (to_vec h) = Some h" by (simp add: try_into_def to_vec_inverse)
  ultimately show ?thesis
    using assms(4-7)
    by (simp add: tool_get_blob_def jget_def as_str_def blob_id_decode_def fetch_blob_def on_net_def Let_def)
qed

end
