(* ===== verification/Mcp_Examples.thy ===== *)
theory Mcp_Examples
  imports Mcp_Safety
begin

text \<open>
  The MCP endpoint at concrete inputs: a server without a registry over an empty disk, and a peer
  that posts one call of the status tool.
\<close>

definition demo_call :: jv where
  "demo_call = JObj [(''id'', JNum 7), (''method'', JStr ''tools/call''), (''params'', JObj [(''name'', JStr ''status'')])]"

text \<open>JSON texts of the example: the call has the text \<open>stat\<close>, every answer the text \<open>{}\<close>.\<close>

definition demo_mcp :: mcp_env where
  "demo_mcp =
     \<lparr>mp_rpc = \<lparr>rpc_new = \<lambda>_. Ok (), get_object = \<lambda>_ _. Ok None, derive_dynamic_child_id = \<lambda>a _ _. a\<rparr>,
      mp_timed_out = \<lambda>_. False, mp_parse_address = \<lambda>_. Err ''not an address'',
      mp_registry = \<lambda>_. Err ''no registry'', mp_field = \<lambda>_. Err ''no field'', mp_vault = bcs_vault_decoders,
      mp_get = \<lambda>_ _. Err ''offline'', mp_b64_encode = \<lambda>_. [], mp_b64_decode = \<lambda>_. Err ''not base64'',
      mp_wire = \<lambda>_. Err ''no batch'', mp_io = \<lambda>_. None, mp_others = \<lambda>_ d. d, mp_list = \<lambda>_ _. None,
      mp_pending_json = \<lparr>to_json = \<lambda>_. Ok ''[]'', from_json = \<lambda>_. Ok []\<rparr>,
      mp_state_json = \<lparr>to_json = \<lambda>_. Err ''none'', from_json = \<lambda>_. Err ''none''\<rparr>,
      mp_block = \<lambda>_. Err ''no block'', mp_hex = \<lambda>_. [], mp_to_string = \<lambda>_. ''{}'', mp_pretty = \<lambda>_. Ok ''{}'',
      mp_from_slice = \<lambda>bs. if bs = as_bytes ''stat'' then Ok demo_call else Err ''not JSON''\<rparr>"

definition demo_server :: mcp_server where
  "demo_server =
     \<lparr>mv_mode = ''sequencer'', mv_data_dir = ''data'', mv_registry_id = None, mv_settlement_package_id = None,
      mv_bridge_vault_id = None,
      mv_sui = \<lparr>publisher_url = [], aggregator_url = [], epochs = 1, publisher_auth_token = None\<rparr>, mv_rpc_url = []\<rparr>"

definition demo_mcp_state :: mcp_state where
  "demo_mcp_state = \<lparr>mt_uid = None, mt_disk = \<lparr>files = Map.empty, ops = 0\<rparr>, mt_ops = 0, mt_reads = 0\<rparr>"

definition demo_conn :: conn where
  "demo_conn = incoming (as_bytes (''POST /mcp HTTP/1.1'' @ crlf @ ''content-length: 4'' @ crlf @ crlf @ ''stat''))"

definition demo_request :: http_request where
  "demo_request = \<lparr>hq_method = ''POST'', hq_path = ''/mcp'', hq_headers = [(''content-length'', ''4'')], hq_content_length = Some 4\<rparr>"

lemma demo_request_read: "read_request demo_conn = (Ok (Some demo_request), incoming (as_bytes ''stat''))"
proof -
  have w: "next_word (''POST /mcp HTTP/1.1'' @ crlf) = (''POST'', '' /mcp HTTP/1.1'' @ crlf)"
    "next_word ('' /mcp HTTP/1.1'' @ crlf) = (''/mcp'', '' HTTP/1.1'' @ crlf)"
    by code_simp+
  have l: "to_lowercase ''content-length'' = ''content-length''" by code_simp
  have h: "list_all header_ok [(''content-length'', ''4'')]" "ascii ''POST /mcp HTTP/1.1''"
    "CHR 0x0A \<notin> set ''POST /mcp HTTP/1.1''"
    by code_simp+
  have n: "length_of [(''content-length'', ''4'')] None = Some 4"
    by (simp add: length_of_def l parse_u64_def char_digit_def)
  have m: "length (header_lines [(''content-length'', ''4'')]) + 2 \<le> MAX_HEADER_BYTES"
    by (simp add: header_lines_def header_line_def crlf_def MAX_HEADER_BYTES_def)
  have c: "cn_in demo_conn =
      as_bytes (''POST /mcp HTTP/1.1'' @ crlf @ header_lines [(''content-length'', ''4'')] @ crlf) @ as_bytes ''stat''"
    by (simp add: demo_conn_def incoming_def header_lines_def header_line_def)
  show ?thesis
    unfolding read_request_lines [OF c h(2,3,1) m w(1,2)]
    by (simp add: demo_request_def l n demo_conn_def incoming_def)
qed

lemma demo_refuse: "refuse_request demo_request = Inr 4"
  by (simp add: refuse_request_def body_length_def demo_request_def hq_header_def MAX_BODY_BYTES_def)

lemma demo_body: "read_body (unat (4 :: u64)) (incoming (as_bytes ''stat'')) = (Ok (as_bytes ''stat''), incoming [])"
  by (simp add: read_body_def incoming_def)

lemma demo_version: "version_header demo_request = ''2025-06-18''"
  by code_simp

text \<open>The answer: four disk accesses, and one 200 response.\<close>

lemma demo_answer:
  "answer_body demo_mcp demo_server demo_request (as_bytes ''stat'') demo_mcp_state =
    (Reply ''200 OK'' ''application/json'' (Some ''2025-06-18'') [] (as_bytes ''{}''), demo_mcp_state\<lparr>mt_ops := 4\<rparr>)"
proof -
  have st: "tool_status demo_mcp demo_server demo_mcp_state = (text_outcome ''{}'', demo_mcp_state\<lparr>mt_ops := 4\<rparr>)"
    by (simp add: tool_status_def mcp_on_disk_def demo_mcp_def demo_server_def demo_mcp_state_def state_load_def
        fs_exists_def store_pending_def pending_load_raw_def load_json_def sbind_def sreturn_def block_latest_height_def
        settlement_section_def pretty_def)
  have "dispatch demo_mcp demo_server demo_call demo_mcp_state =
      (Some (ok_response (JNum 7) (JObj
         [(''content'', JArr [JObj [(''type'', JStr ''text''), (''text'', JStr ''{}'')]]), (''isError'', JBool False)])),
       demo_mcp_state\<lparr>mt_ops := 4\<rparr>)"
    by (simp add: dispatch_def demo_call_def jget_def as_str_def param_def call_tool_def st text_outcome_def)
  then show ?thesis
    by (simp add: answer_body_def demo_version demo_call_def) (simp add: demo_mcp_def demo_call_def)
qed

definition demo_reply :: http_reply where
  "demo_reply = Reply ''200 OK'' ''application/json'' (Some ''2025-06-18'') [] (as_bytes ''{}'')"

lemma demo_handled:
  "handle_connection demo_mcp demo_server demo_conn demo_mcp_state =
    (Ok (), (incoming [])\<lparr>cn_out := reply_bytes demo_reply\<rparr>, demo_mcp_state\<lparr>mt_ops := 4\<rparr>)"
proof -
  have "send demo_reply (incoming []) = (Ok (), (incoming [])\<lparr>cn_out := reply_bytes demo_reply\<rparr>)"
    by (subst send_open) (simp_all add: incoming_def)
  then show ?thesis
    using demo_body demo_answer
    by (simp add: handle_connection_def demo_request_read demo_refuse demo_reply_def del: send.simps)
qed

theorem every_answer_reads_back_witness:
  "\<exists>r c1. read_request (incoming (reply_bytes demo_reply)) = (Ok (Some r), c1) \<and> hq_method r = ''HTTP/1.1'' \<and>
     hq_path r \<in> set STATUS_CODES \<and> hq_header r ''connection'' = Some ''close'' \<and>
     (\<exists>n. hq_content_length r = Some n \<and> unat n = length (cn_in c1))"
proof -
  have "length (mp_to_string demo_mcp j) < 2 ^ 64" for j by (simp add: demo_mcp_def)
  then have "cn_out ((incoming [])\<lparr>cn_out := reply_bytes demo_reply\<rparr>) = [] \<or> (\<exists>r c1.
      read_request (incoming (cn_out ((incoming [])\<lparr>cn_out := reply_bytes demo_reply\<rparr>))) = (Ok (Some r), c1) \<and>
      hq_method r = ''HTTP/1.1'' \<and> hq_path r \<in> set STATUS_CODES \<and> hq_header r ''connection'' = Some ''close'' \<and>
      (\<exists>n. hq_content_length r = Some n \<and> unat n = length (cn_in c1)))"
    by (intro every_answer_reads_back [OF demo_handled]) (simp_all add: demo_conn_def incoming_def)
  moreover have "reply_bytes demo_reply \<noteq> []" by (simp add: reply_bytes_def demo_reply_def)
  ultimately show ?thesis by simp
qed

theorem tools_run_on_complete_requests_witness:
  "\<exists>r c1 n. read_request demo_conn = (Ok (Some r), c1) \<and> hq_path r = ''/mcp'' \<and> hq_method r = ''POST'' \<and>
    hq_header r ''transfer-encoding'' = None \<and> hq_content_length r = Some n \<and> n \<le> 2 ^ 20 \<and>
    unat n \<le> length (cn_in c1) \<and>
    demo_mcp_state\<lparr>mt_ops := 4\<rparr> = snd (answer_body demo_mcp demo_server r (take (unat n) (cn_in c1)) demo_mcp_state)"
  by (rule tools_run_on_complete_requests [OF demo_handled]) (simp add: demo_mcp_state_def)

text \<open>A batch: a notification, an entry that is not an object, a ping and a call without a method.\<close>

lemma batch_example:
  "map (jget ''id'') (fst (dispatch_batch demo_mcp demo_server
     [JObj [(''method'', JStr ''ping'')], JNum 3, JObj [(''id'', JNum 1), (''method'', JStr ''ping'')], JObj [(''id'', JStr ''b'')]]
     demo_mcp_state)) = [Some JNull, Some (JNum 1), Some (JStr ''b'')]"
  by (simp add: is_obj_def dispatch_def jget_def as_str_def ok_response_def err_response_def)

end
