(* ===== verification/Full_Node_Safety.thy ===== *)
theory Full_Node_Safety
  imports Full_Node
begin

text \<open>
  What the full node guarantees: only signed blocks reach the execution layer, finality moves
  only with settled blocks, a confirmed halt stops everything; and where the optimistic path
  falls short of its comments.
\<close>

section \<open>Requests of a tick\<close>

text \<open>Any node port, with the engine requests recorded.\<close>

definition lift_log :: "('w \<Rightarrow> 'a \<times> 'w) \<Rightarrow> 'w \<times> 'l \<Rightarrow> 'a \<times> 'w \<times> 'l" where
  "lift_log f = (\<lambda>(w, l). case f w of (r, w') \<Rightarrow> (r, (w', l)))"

lemma lift_log_snd [simp]: "lift_log f wl = (r, wl') \<Longrightarrow> snd wl' = snd wl"
  by (auto simp: lift_log_def split: prod.splits)

definition traced :: "('w, 'pk) node_port \<Rightarrow> ('w \<times> jv list, 'pk) node_port" where
  "traced p =
     \<lparr>np_engine = traced_engine (np_engine p), np_rpc = lift_log (np_rpc p), np_get = lift_log (np_get p),
      np_monitor = map_option lift_log (np_monitor p), np_announce = map_option lift_log (np_announce p),
      np_subscribe = (\<lambda>d. lift_log (np_subscribe p d)), np_pubkey = np_pubkey p, np_verify = np_verify p,
      np_parse_address = np_parse_address p, np_dec_registry = np_dec_registry p, np_dec_field = np_dec_field p,
      np_dec_batch = np_dec_batch p, np_dec_payload = np_dec_payload p, np_dec_monitor = np_dec_monitor p,
      np_b64url_encode = np_b64url_encode p, np_walrus = np_walrus p, np_rpc_url = np_rpc_url p,
      np_registry_id = np_registry_id p, np_show_hash = np_show_hash p, np_parse_hash = np_parse_hash p,
      np_io = np_io p, np_state_json = np_state_json p, np_dir = np_dir p\<rparr>"

lemma traced_simps [simp]:
  "np_engine (traced p) = traced_engine (np_engine p)" "np_dec_payload (traced p) = np_dec_payload p"
  "np_rpc (traced p) = lift_log (np_rpc p)" "np_get (traced p) = lift_log (np_get p)"
  "np_monitor (traced p) = map_option lift_log (np_monitor p)"
  "np_announce (traced p) = map_option lift_log (np_announce p)"
  "np_subscribe (traced p) d = lift_log (np_subscribe p d)"
  "verify_signature (traced p) b = verify_signature p b"
  by (simp_all add: traced_def verify_signature_def split: option.split)

text \<open>A request body is fine when it submits no payload, or the payload of a block whose signature
  verifies under the configured sequencer key.\<close>

definition method_of :: "jv \<Rightarrow> string option" where
  "method_of body = Option.bind (jget ''method'' body) as_str"

definition params_of :: "jv \<Rightarrow> jv list" where
  "params_of body = (case jget ''params'' body of Some (JArr ps) \<Rightarrow> ps | _ \<Rightarrow> [])"

definition signed_submission :: "('w, 'pk) node_port \<Rightarrow> jv \<Rightarrow> bool" where
  "signed_submission p body \<longleftrightarrow>
     (method_of body = Some ''engine_newPayloadV4'' \<longrightarrow>
      (\<exists>b pl a rest. verify_signature p b = Ok () \<and> np_dec_payload p (data b) = Ok pl \<and>
         ep_enc_payload (np_engine p) pl = Ok a \<and> params_of body = a # rest))"

lemma method_of_request [simp]: "method_of (rpc_request i m ps) = Some m"
  by (simp add: method_of_def rpc_request_def jget_def as_str_def)

lemma params_of_request [simp]: "params_of (rpc_request i m ps) = ps"
  by (simp add: params_of_def rpc_request_def jget_def)

lemma signed_submission_other [simp]:
  "m \<noteq> ''engine_newPayloadV4'' \<Longrightarrow> signed_submission p (rpc_request i m ps)"
  by (simp add: signed_submission_def)

abbreviation signed_log :: "('w, 'pk) node_port \<Rightarrow> ('w \<times> jv list, 'm) eng_state_scheme \<Rightarrow> ('w \<times> jv list, 'm) eng_state_scheme \<Rightarrow> bool" where
  "signed_log p \<equiv> log_extends sent (signed_submission p)"

lemma sent_full_node [simp]:
  fixes s :: "('w \<times> jv list) full_node"
  shows "sent (s\<lparr>fn_head := a\<rparr>) = sent s" "sent (s\<lparr>fn_head_height := b\<rparr>) = sent s"
    "sent (s\<lparr>fn_safe := a\<rparr>) = sent s" "sent (s\<lparr>fn_finalized := a\<rparr>) = sent s"
    "sent (s\<lparr>fn_synced_height := b\<rparr>) = sent s" "sent (s\<lparr>fn_table_uid := c\<rparr>) = sent s"
    "sent (s\<lparr>fn_halt := e\<rparr>) = sent s" "sent (s\<lparr>fn_disk := d\<rparr>) = sent s"
  by (simp_all add: sent_def)

lemma fcu_signed: "preserves (signed_log p) (fork_choice_updated_v3 (traced_engine e) st attrs)"
  by (rule fork_choice_updated_preserves) simp

lemma apply_block_signed:
  assumes "verify_signature p b = Ok ()"
  shows "preserves (signed_log p) (apply_block (traced p) b)"
proof -
  have np: "preserves (signed_log p) (new_payload_v4 (traced_engine (np_engine p)) pl [] PARENT_BEACON_BLOCK_ROOT)"
    if "np_dec_payload p (data b) = Ok pl" for pl
    using assms that by (intro new_payload_preserves) (auto simp: signed_submission_def)
  have fcu: "preserves (signed_log p) (sbind (st_map_err g (fork_choice_updated_v3 (traced_engine e) st None)) (\<lambda>_. sreturn ()))"
    for g :: "engine_error \<Rightarrow> string" and e st
    by (intro log.preserves_sbind' log.preserves_rules fcu_signed)
  show ?thesis
    unfolding apply_block_def traced_simps
    by (intro log.preserves_sbind_slift log.preserves_sbind log.preserves_st_map_err np)
      (auto simp: Let_def intro!: log_preserves_after [OF fcu])
qed


lemma mark_finalized_signed: "preserves (signed_log p) (mark_finalized (traced p) b)"
proof -
  have fcu: "preserves (signed_log p) (sbind (st_map_err g (fork_choice_updated_v3 (traced_engine e) st None))
      (\<lambda>_ s2. (Ok (), save_cursor (traced p) ts s2)))"
    for g :: "engine_error \<Rightarrow> string" and e st ts
    by (intro log.preserves_sbind log.preserves_rules fcu_signed)
      (auto simp: save_cursor_def intro!: log_extends_same)
  show ?thesis
    unfolding mark_finalized_def traced_simps
    by (intro log.preserves_sbind log.preserves_rules) (auto simp: Let_def intro!: log_preserves_after [OF fcu])
qed

lemma apply_and_finalize_signed:
  assumes "verify_signature p b = Ok ()"
  shows "preserves (signed_log p) (apply_and_finalize (traced p) b)"
proof -
  note ap = apply_block_signed [OF assms] and mf = mark_finalized_signed [of p b]
  have by_number: "preserves (signed_log p) (block_by_number (traced_engine e) n)" for e n
    by (rule block_by_number_preserves) simp
  have fin: "preserves (signed_log p)
      (sbind (if c then sreturn () else apply_block (traced p) b) (\<lambda>_. mark_finalized (traced p) b))" for c
    using ap mf by (auto intro: log.preserves_sbind' log.preserves_sreturn)
  have check: "preserves (signed_log p) (if c then
        sbind (st_map_err g (block_by_number (traced_engine e) n)) (\<lambda>found. sreturn (found = y)) else sreturn False)"
    for c and g :: "engine_error \<Rightarrow> string" and e n y
    by (auto intro!: log.preserves_sbind' log.preserves_rules by_number)
  show ?thesis
    unfolding apply_and_finalize_def traced_simps
    by (rule log.preserves_sbind_slift, rule log.preservesI)
      (rule log_preserves_after [OF log.preserves_sbind' [OF check fin] HOL.refl])
qed

lemma with_rpc_signed: "preserves (signed_log p) (with_rpc (traced p) f)"
proof (rule log.preservesI)
  fix s :: "('a \<times> jv list) full_node"
  obtain w l env w' where "es_world s = (w, l)" "np_rpc p w = (env, w')" by fastforce
  then show "signed_log p s (snd (with_rpc (traced p) f s))"
    by (intro log_extends_same) (simp add: with_rpc_def lift_log_def sent_def)
qed

lemma node_fetch_signed: "preserves (signed_log p) (node_fetch (traced p) blob)"
proof (rule log.preservesI)
  fix s :: "('a \<times> jv list) full_node"
  obtain w l get w' where "es_world s = (w, l)" "np_get p w = (get, w')" by fastforce
  then show "signed_log p s (snd (node_fetch (traced p) blob s))"
    by (intro log_extends_same) (simp add: node_fetch_def lift_log_def sent_def)
qed

lemma fetch_cached_signed: "preserves (signed_log p) (fetch_cached (traced p) cached blob)"
  unfolding fetch_cached_def
  by (auto intro: log.preserves_sreturn node_fetch_signed split: option.split prod.split)

lemma sync_heights_signed: "preserves (signed_log p) (sync_heights (traced p) tbl cached hs)"
proof (induction hs arbitrary: cached)
  case Nil
  show ?case by (rule log.preservesI) (simp add: log_extends_same)
next
  case (Cons h hs)
  have "preserves (signed_log p)
     (sbind (st_map_err (\<lambda>_. ''reading settlement for height '' @ show_u64 h)
              (with_rpc (traced p) (\<lambda>env. commitment_at env (np_dec_field (traced p)) 0 (np_rpc_url (traced p)) tbl h))) (\<lambda>found.
     sbind (slift (ok_or (''height '' @ show_u64 h @ '' not settled'') found)) (\<lambda>blob.
     sbind (fetch_cached (traced p) cached blob) (\<lambda>blocks.
     sbind (slift (ok_or (''height '' @ show_u64 h @ '' not found in DA batch'')
                     (find (\<lambda>b. height (header b) = h) blocks))) (\<lambda>b.
     sbind (slift (verify_signature (traced p) b)) (\<lambda>_.
     sbind (apply_and_finalize (traced p) b) (\<lambda>_.
       sync_heights (traced p) tbl (Some (blob, blocks)) hs)))))))"
    by (intro log.preserves_sbind' log.preserves_sbind_slift log.preserves_st_map_err with_rpc_signed
        fetch_cached_signed apply_and_finalize_signed Cons.IH) auto
  then show ?case by (simp add: preserves_def)
qed

lemma cached_table_uid_signed: "preserves (signed_log p) (cached_table_uid (traced p))"
proof (rule log.preservesI)
  fix s :: "('a \<times> jv list) full_node"
  obtain r s1 where r: "with_rpc (traced p) (\<lambda>env. table_uid env (np_parse_address (traced p)) (np_dec_registry (traced p)) 0
      (np_rpc_url (traced p)) (np_registry_id (traced p))) s = (r, s1)" by fastforce
  from log.preservesD [OF with_rpc_signed r] have "signed_log p s s1" .
  moreover have "snd (cached_table_uid (traced p) s) = s \<or>
      sent (snd (cached_table_uid (traced p) s)) = sent s1"
    using r by (cases r) (auto simp: cached_table_uid_def split: option.split)
  ultimately show "signed_log p s (snd (cached_table_uid (traced p) s))"
    by (metis log.refl log.trans log_extends_same)
qed

lemma sync_from_settlement_signed: "preserves (signed_log p) (sync_from_settlement (traced p))"
proof -
  have body: "preserves (signed_log p) (sbind (cached_table_uid (traced p)) (\<lambda>tbl. sync_heights (traced p) tbl None hs))" for hs
    by (intro log.preserves_sbind' cached_table_uid_signed sync_heights_signed)
  show ?thesis
    unfolding sync_from_settlement_def
    by (intro log.preserves_sbind log.preserves_st_map_err with_rpc_signed)
      (auto intro!: log_preserves_after [OF body] log.refl)
qed

lemma poll_p2p_signed:
  assumes "poll_p2p (traced p) s = Some (r, s')"
  shows "signed_log p s s'"
proof (cases "np_announce p")
  case None
  with assms show ?thesis by (simp add: poll_p2p_def log_extends_same)
next
  case (Some arrive)
  obtain frame w1 where a: "lift_log arrive (es_world s) = (frame, w1)"
    by (cases "lift_log arrive (es_world s)")
  then have w1: "sent (s\<lparr>es_world := w1\<rparr>) = sent s"
    using lift_log_snd [OF a] by (simp add: sent_def)
  show ?thesis
  proof (cases "poll_next frame")
    case None
    with assms Some a w1 show ?thesis by (simp add: poll_p2p_def log_extends_same)
  next
    case (Some ann)
    show ?thesis
    proof (cases "an_height ann \<le> fn_synced_height s")
      case True
      with assms \<open>np_announce p = _\<close> a w1 Some show ?thesis by (simp add: poll_p2p_def log_extends_same)
    next
      case False
      obtain sub w2 where sub: "lift_log (np_subscribe p (an_digest ann)) w1 = (sub, w2)"
    by (cases "lift_log (np_subscribe p (an_digest ann)) w1")
      then have w2: "sent (s\<lparr>es_world := w2\<rparr>) = sent s"
        using lift_log_snd [OF sub] w1 by simp
      have step: "poll_p2p (traced p) s =
          (case sub of NeverArrives \<Rightarrow> None | MailboxClosed \<Rightarrow> Some (Ok (), s\<lparr>es_world := w2\<rparr>)
           | Arrived b \<Rightarrow> Some (sbind (slift (verify_signature p b)) (\<lambda>_. apply_block (traced p) b) (s\<lparr>es_world := w2\<rparr>)))"
        using \<open>np_announce p = _\<close> a Some False sub
        by (cases sub) (simp_all add: poll_p2p_def)
      show ?thesis
      proof (cases sub)
        case (Arrived b)
        have "preserves (signed_log p) (sbind (slift (verify_signature p b)) (\<lambda>_. apply_block (traced p) b))"
          by (rule log.preserves_sbind_slift) (auto intro: apply_block_signed)
        from log_preserves_after [OF this w2] assms step Arrived show ?thesis by simp
      qed (use assms step w2 in \<open>simp_all add: log_extends_same\<close>)
    qed
  qed
qed

lemma check_halt_sent:
  assumes "check_halt (traced p) s = (b, s')"
  shows "sent s' = sent s"
proof (cases "np_monitor p")
  case None
  with assms show ?thesis by (simp add: check_halt_def)
next
  case (Some mon)
  obtain m w where "lift_log mon (es_world s) = (m, w)"
    by (cases "lift_log mon (es_world s)")
  with assms Some lift_log_snd [OF this] show ?thesis
    by (auto simp: check_halt_def sent_def split: prod.splits)
qed

primrec full_node_run :: "('w, 'pk) node_port \<Rightarrow> nat \<Rightarrow> 'w full_node \<Rightarrow> 'w full_node option" where
  "full_node_run p 0 s = Some s"
| "full_node_run p (Suc n) s = Option.bind (full_node_tick p s) (full_node_run p n)"

lemma full_node_tick_signed:
  assumes "full_node_tick (traced p) s = Some s'"
  shows "signed_log p s s'"
proof -
  obtain paused s1 where c: "check_halt (traced p) s = (paused, s1)" by fastforce
  note s1 = check_halt_sent [OF c]
  show ?thesis
  proof (cases paused)
    case True
    with assms c s1 show ?thesis by (simp add: full_node_tick_def log_extends_same)
  next
    case False
    obtain r2 s2 where y: "sync_from_settlement (traced p) s1 = (r2, s2)" by fastforce
    obtain r3 where "poll_p2p (traced p) s2 = Some (r3, s')"
      using assms c False y by (auto simp: full_node_tick_def)
    from poll_p2p_signed [OF this] log.preservesD [OF sync_from_settlement_signed y] s1
    show ?thesis by (metis log.trans log_extends_same)
  qed
qed

lemma full_node_run_signed: "full_node_run (traced p) n s = Some s' \<Longrightarrow> signed_log p s s'"
proof (induction n arbitrary: s)
  case 0
  then show ?case by (simp add: log.refl)
next
  case (Suc n)
  then obtain t where "full_node_tick (traced p) s = Some t" "full_node_run (traced p) n t = Some s'"
    by (auto simp: bind_eq_Some_conv)
  with Suc.IH full_node_tick_signed show ?case by (blast intro: log.trans)
qed


section \<open>Finality follows settlement\<close>

text \<open>Engine calls leave the node's own fields alone.\<close>

abbreviation same_more :: "('w, 'm) eng_state_scheme \<Rightarrow> ('w, 'm) eng_state_scheme \<Rightarrow> bool" where
  "same_more \<equiv> same_view eng_state.more"

lemma engine_call_more: "preserves same_more (engine_call p dec method params)"
proof (rule view.preservesI)
  fix s
  obtain r w where t: "ep_token p (es_world s) = (r, w)" by fastforce
  show "same_more s (snd (engine_call p dec method params s))"
  proof (cases r)
    case Inl
    with t show ?thesis by (simp add: engine_call_def same_view_def Let_def)
  next
    case (Inr tk)
    obtain r2 w2 where q: "ep_post p (ep_endpoint p) tk (rpc_request (es_next_id s) method params) w = (r2, w2)"
      by fastforce
    with t Inr show ?thesis by (cases r2) (simp_all add: engine_call_def same_view_def Let_def)
  qed
qed

lemma fcu_more: "preserves same_more (fork_choice_updated_v3 p st attrs)"
  unfolding fork_choice_updated_v3_def
  by (intro view.preserves_sbind' view.preserves_slift engine_call_more)

lemma new_payload_more: "preserves same_more (new_payload_v4 p pl hs root)"
  unfolding new_payload_v4_def
  by (intro view.preserves_sbind' view.preserves_slift engine_call_more)

lemma block_by_number_more: "preserves same_more (block_by_number p n)"
  unfolding block_by_number_def
  by (intro view.preserves_sbind' view.preserves_slift engine_call_more)

lemma same_more_fields:
  fixes s :: "'w full_node"
  assumes "same_more s t"
  shows "fn_synced_height t = fn_synced_height s \<and> fn_head t = fn_head s \<and> fn_head_height t = fn_head_height s \<and>
    fn_safe t = fn_safe s \<and> fn_finalized t = fn_finalized s \<and> fn_persisted t = fn_persisted s \<and>
    fn_table_uid t = fn_table_uid s \<and> fn_halt t = fn_halt s \<and> fn_disk t = fn_disk s"
  using assms by (cases s; cases t) (simp add: same_view_def)

lemmas fcu_fields = same_more_fields [OF view.preservesD [OF fcu_more]]
lemmas new_payload_fields = same_more_fields [OF view.preservesD [OF new_payload_more]]
lemmas block_by_number_fields = same_more_fields [OF view.preservesD [OF block_by_number_more]]

text \<open>The finality a node stands for: its cursor, safe and finalized hashes, and what it persisted.\<close>

definition finality :: "'w full_node \<Rightarrow> u64 \<times> hash \<times> hash \<times> disk" where
  "finality s = (fn_synced_height s, fn_safe s, fn_finalized s, fn_disk s)"

lemma apply_block_finality: "apply_block p b s = (r, s') \<Longrightarrow> finality s' = finality s"
  unfolding apply_block_def finality_def
  by (auto simp: sbind_def slift_def st_map_err_def Let_def sreturn_def
      dest!: fcu_fields new_payload_fields split: prod.splits sum.splits)

text \<open>\<open>mark_finalized\<close> moves cursor, safe and finalized hash to the block, and does so whether or not
  the execution layer accepted the forkchoice.\<close>

lemma mark_finalized_finality:
  assumes "mark_finalized p b s = (r, s')" "np_dec_payload p (data b) = Ok pl"
  shows "fn_synced_height s' = height (header b) \<and> fn_finalized s' = pl_block_hash pl \<and> fn_safe s' = pl_block_hash pl"
  using assms unfolding mark_finalized_def
  by (auto simp: sbind_def slift_def st_map_err_def Let_def sreturn_def save_cursor_def
      dest!: fcu_fields split: prod.splits sum.splits)

text \<open>A block the registry and the data availability layer vouch for: the commitment of its height was
  read, the committed blob was fetched, the block is the one of that height in the batch, and
  it carries the sequencer's signature.\<close>

definition blob_of :: "('w, 'pk) node_port \<Rightarrow> address \<Rightarrow> u64 \<Rightarrow> blob_id \<Rightarrow> bool" where
  "blob_of p tbl h blob \<longleftrightarrow>
     (\<exists>w. commitment_at (fst (np_rpc p w)) (np_dec_field p) 0 (np_rpc_url p) tbl h = Ok (Some blob))"

definition batch_of :: "('w, 'pk) node_port \<Rightarrow> blob_id \<Rightarrow> block list \<Rightarrow> bool" where
  "batch_of p blob blocks \<longleftrightarrow>
     (\<exists>w. fetch (np_dec_batch p) (fst (np_get p w)) (np_b64url_encode p) (np_walrus p) blob = Ok blocks)"

definition settled_block :: "('w, 'pk) node_port \<Rightarrow> address \<Rightarrow> u64 \<Rightarrow> block \<Rightarrow> bool" where
  "settled_block p tbl h b \<longleftrightarrow>
     height (header b) = h \<and> verify_signature p b = Ok () \<and>
     (\<exists>blob blocks. blob_of p tbl h blob \<and> batch_of p blob blocks \<and>
        find (\<lambda>b. height (header b) = h) blocks = Some b)"

lemma with_rpc_finality: "with_rpc p f s = (r, s') \<Longrightarrow> finality s' = finality s \<and> (\<exists>w. r = f (fst (np_rpc p w)))"
  by (auto simp: with_rpc_def finality_def split: prod.splits) (metis fst_conv)

lemma node_fetch_finality: "node_fetch p blob s = (r, s') \<Longrightarrow> finality s' = finality s \<and> (\<forall>bs. r = Ok bs \<longrightarrow> batch_of p blob bs)"
  by (auto simp: node_fetch_def finality_def batch_of_def split: prod.splits) (metis fst_conv)+

lemma fetch_cached_finality:
  assumes "fetch_cached p cached blob s = (r, s')"
    and "\<And>i bs. cached = Some (i, bs) \<Longrightarrow> batch_of p i bs"
  shows "finality s' = finality s \<and> (\<forall>bs. r = Ok bs \<longrightarrow> batch_of p blob bs)"
  using assms by (auto simp: fetch_cached_def sreturn_def dest!: node_fetch_finality split: option.splits prod.splits if_splits)

lemma apply_and_finalize_cases:
  assumes "apply_and_finalize p b s = (r, s')"
  shows "(r \<noteq> Ok () \<and> finality s' = finality s) \<or>
    (\<exists>pl. np_dec_payload p (data b) = Ok pl \<and> fn_synced_height s' = height (header b) \<and>
       fn_finalized s' = pl_block_hash pl \<and> fn_safe s' = pl_block_hash pl)"
proof (cases "np_dec_payload p (data b)")
  case (Inl e)
  with assms show ?thesis by (auto simp: apply_and_finalize_def)
next
  case (Inr pl)
  let ?check = "if fn_head_height s \<ge> height (header b) then
              sbind (st_map_err (\<lambda>_. ''querying Reth block for DA verification'')
                       (block_by_number (np_engine p) (height (header b)))) (\<lambda>found.
                sreturn (found = Some (pl_block_hash pl)))
            else sreturn False"
  have check: "?check s = (c, s1) \<Longrightarrow> finality s1 = finality s" for c s1
    by (auto simp: sbind_def st_map_err_def finality_def dest!: block_by_number_fields
        split: prod.splits sum.splits if_splits)
  have "sbind ?check (\<lambda>already_applied.
      sbind (if already_applied then sreturn () else apply_block p b) (\<lambda>_. mark_finalized p b)) s = (r, s')"
    using assms Inr by (simp add: apply_and_finalize_def)
  then show ?thesis
  proof (cases rule: sbindE)
    case (err e)
    with check show ?thesis by blast
  next
    case (ok already s1)
    note f1 = check [OF ok(1)]
    from ok(2) show ?thesis
    proof (cases rule: sbindE)
      case (err e)
      then have "finality s' = finality s1" by (cases already) (auto dest: apply_block_finality)
      with f1 err(2) show ?thesis by simp
    next
      case (ok u s2)
      from mark_finalized_finality [OF ok(2) Inr] Inr show ?thesis by blast
    qed
  qed
qed

text \<open>The finality a node reaches by a settled block.\<close>

definition finalized_at :: "('w, 'pk) node_port \<Rightarrow> address \<Rightarrow> u64 \<Rightarrow> 'w full_node \<Rightarrow> bool" where
  "finalized_at p tbl h s \<longleftrightarrow>
     (\<exists>b pl. settled_block p tbl h b \<and> np_dec_payload p (data b) = Ok pl \<and>
        fn_synced_height s = h \<and> fn_finalized s = pl_block_hash pl \<and> fn_safe s = pl_block_hash pl)"

lemma finalized_at_cong: "finality s = finality t \<Longrightarrow> finalized_at p tbl h s = finalized_at p tbl h t"
  by (simp add: finalized_at_def finality_def)

lemma sync_heights_step:
  assumes "sync_heights p tbl cached (h # hs) s = (r, s')"
    and cache: "\<And>i bs. cached = Some (i, bs) \<Longrightarrow> batch_of p i bs"
  shows "(r \<noteq> Ok () \<and> (finality s' = finality s \<or> finalized_at p tbl h s')) \<or>
    (\<exists>blob blocks s3. batch_of p blob blocks \<and> finalized_at p tbl h s3 \<and>
       sync_heights p tbl (Some (blob, blocks)) hs s3 = (r, s'))"
  using assms(1) unfolding sync_heights.simps
proof (cases rule: sbindE)
  case (err e)
  then show ?thesis by (auto simp: st_map_err_Err_iff dest: with_rpc_finality)
next
  case (ok found s1)
  note wr = with_rpc_finality [OF ok(1) [unfolded st_map_err_Ok_iff]]
  have f1: "finality s1 = finality s" using wr by blast
  have found: "\<And>blob. found = Some blob \<Longrightarrow> blob_of p tbl h blob"
    using wr unfolding blob_of_def by metis
  from ok(2) show ?thesis
  proof (cases rule: sbindE)
    case (err e)
    with f1 show ?thesis by simp
  next
    case (ok blob s1a)
    then have s1a: "s1a = s1" and blob: "blob_of p tbl h blob" using found by auto
    from ok(2) show ?thesis
    proof (cases rule: sbindE)
      case (err e)
      with f1 s1a fetch_cached_finality [OF err(1) cache] show ?thesis by simp
    next
      case (ok blocks s2)
      with fetch_cached_finality [OF ok(1) cache] s1a f1
      have f2: "finality s2 = finality s" and batch: "batch_of p blob blocks" by auto
      from ok(2) show ?thesis
      proof (cases rule: sbindE)
        case (err e)
        with f2 show ?thesis by simp
      next
        case (ok b s2a)
        then have b: "find (\<lambda>b. height (header b) = h) blocks = Some b" and s2a: "s2a = s2" by auto
        from ok(2) show ?thesis
        proof (cases rule: sbindE)
          case (err e)
          then have "r = Err e" "s' = s2" using s2a by auto
          with f2 show ?thesis by simp
        next
          case (ok u s2b)
          then have v: "verify_signature p b = Ok ()" and s2b: "s2b = s2" using s2a by auto
          have sb: "settled_block p tbl h b"
            using v b blob batch unfolding settled_block_def by (auto simp: find_Some_iff)
          then have hb: "height (header b) = h" by (simp add: settled_block_def)
          from ok(2) show ?thesis
          proof (cases rule: sbindE)
            case (err e)
            with apply_and_finalize_cases [OF err(1)] sb hb f2 s2b show ?thesis
              unfolding finalized_at_def by auto
          next
            case (ok u' s3)
            with apply_and_finalize_cases [OF ok(1)] sb hb have "finalized_at p tbl h s3"
              unfolding finalized_at_def by auto
            with ok(2) batch show ?thesis by blast
          qed
        qed
      qed
    qed
  qed
qed

lemma sync_heights_finality:
  assumes "sync_heights p tbl cached hs s = (r, s')"
    and "\<And>i bs. cached = Some (i, bs) \<Longrightarrow> batch_of p i bs"
  shows "(finality s' = finality s \<or> (\<exists>h \<in> set hs. finalized_at p tbl h s')) \<and>
    (r = Ok () \<longrightarrow> (\<forall>h \<in> set hs. \<exists>b. settled_block p tbl h b) \<and> (hs \<noteq> [] \<longrightarrow> finalized_at p tbl (last hs) s'))"
  using assms
proof (induction hs arbitrary: cached s)
  case Nil
  then show ?case by simp
next
  case (Cons h hs)
  consider (fail) "r \<noteq> Ok ()" "finality s' = finality s \<or> finalized_at p tbl h s'"
    | (step) blob blocks s3 where "batch_of p blob blocks" "finalized_at p tbl h s3"
        "sync_heights p tbl (Some (blob, blocks)) hs s3 = (r, s')"
    using sync_heights_step [OF Cons.prems] by blast
  then show ?case
  proof cases
    case fail
    then show ?thesis by auto
  next
    case (step blob blocks s3)
    note batch = step(1) and here = step(2) and rest = step(3)
    have IH: "(finality s' = finality s3 \<or> (\<exists>h \<in> set hs. finalized_at p tbl h s')) \<and>
      (r = Ok () \<longrightarrow> (\<forall>h \<in> set hs. \<exists>b. settled_block p tbl h b) \<and> (hs \<noteq> [] \<longrightarrow> finalized_at p tbl (last hs) s'))"
      using Cons.IH [OF rest] batch by simp
    have keep: "finality s' = finality s3 \<Longrightarrow> finalized_at p tbl h s'"
      using here finalized_at_cong [of s' s3] by blast
    have ex: "\<exists>b. settled_block p tbl h b" using here by (auto simp: finalized_at_def)
    show ?thesis
    proof (cases "hs = []")
      case True
      with rest here ex show ?thesis by simp
    next
      case False
      have "\<exists>h' \<in> set (h # hs). finalized_at p tbl h' s'" using IH keep by (meson list.set_intros)
      moreover have "r = Ok () \<Longrightarrow> (\<forall>h' \<in> set (h # hs). \<exists>b. settled_block p tbl h' b) \<and> finalized_at p tbl (last (h # hs)) s'"
        using IH ex False by simp
      ultimately show ?thesis by blast
    qed
  qed
qed

lemma cached_table_uid_finality:
  assumes "cached_table_uid p s = (r, s')"
  shows "finality s' = finality s \<and>
    (\<forall>tbl. r = Ok tbl \<longrightarrow> fn_table_uid s = Some tbl \<or>
       (\<exists>w. table_uid (fst (np_rpc p w)) (np_parse_address p) (np_dec_registry p) 0 (np_rpc_url p) (np_registry_id p) = Ok tbl))"
proof (cases "fn_table_uid s")
  case (Some uid)
  with assms show ?thesis by (auto simp: cached_table_uid_def)
next
  case None
  obtain r1 s1 where c: "with_rpc p (\<lambda>env. table_uid env (np_parse_address p) (np_dec_registry p) 0 (np_rpc_url p) (np_registry_id p)) s = (r1, s1)"
    by fastforce
  from with_rpc_finality [OF this] obtain w where f: "finality s1 = finality s"
    and w: "r1 = table_uid (fst (np_rpc p w)) (np_parse_address p) (np_dec_registry p) 0 (np_rpc_url p) (np_registry_id p)"
    by blast
  show ?thesis
  proof (cases r1)
    case Inl
    with assms None c f show ?thesis by (auto simp: cached_table_uid_def)
  next
    case (Inr uid)
    with assms None c have "r = Ok uid" "s' = s1\<lparr>fn_table_uid := Some uid\<rparr>" by (simp_all add: cached_table_uid_def)
    moreover have "finality (s1\<lparr>fn_table_uid := Some uid\<rparr>) = finality s1" by (simp add: finality_def)
    ultimately show ?thesis using f w Inr by (metis sum.inject(2))
  qed
qed

definition registry_table :: "('w, 'pk) node_port \<Rightarrow> 'w full_node \<Rightarrow> address \<Rightarrow> bool" where
  "registry_table p s tbl \<longleftrightarrow> fn_table_uid s = Some tbl \<or>
     (\<exists>w. table_uid (fst (np_rpc p w)) (np_parse_address p) (np_dec_registry p) 0 (np_rpc_url p) (np_registry_id p) = Ok tbl)"

lemma height_range_mem: "h \<in> set (height_range a b) \<longleftrightarrow> a < h \<and> h \<le> b"
proof -
  have "h \<in> set (height_range a b) \<longleftrightarrow> unat h \<in> {Suc (unat a)..<Suc (unat b)}"
    unfolding height_range_def using unat_u64_less [of b]
    by (auto simp: image_iff unat_of_nat take_bit_nat_eq_self intro!: bexI [of _ "unat h"])
  also have "\<dots> \<longleftrightarrow> a < h \<and> h \<le> b"
    by (auto simp: word_less_nat_alt word_le_nat_alt)
  finally show ?thesis .
qed

lemma last_height_range: "a < b \<Longrightarrow> last (height_range a b) = b"
  by (simp add: height_range_def word_less_nat_alt last_map)

lemma with_rpc_uid: "with_rpc p f s = (r, s') \<Longrightarrow> fn_table_uid s' = fn_table_uid s \<and> fn_halt s' = fn_halt s"
  by (auto simp: with_rpc_def split: prod.splits)

lemma sync_from_settlement_finality:
  assumes "sync_from_settlement p s = (r, s')"
  shows "finality s' = finality s \<or>
    (\<exists>tbl h. registry_table p s tbl \<and> fn_synced_height s < h \<and> finalized_at p tbl h s')"
  using assms unfolding sync_from_settlement_def
proof (cases rule: sbindE)
  case (err e)
  then show ?thesis by (auto simp: st_map_err_Err_iff dest: with_rpc_finality)
next
  case (ok latest s1)
  note wr = with_rpc_finality [OF ok(1) [unfolded st_map_err_Ok_iff]]
  note uid = with_rpc_uid [OF ok(1) [unfolded st_map_err_Ok_iff]]
  have synced: "fn_synced_height s1 = fn_synced_height s" using wr by (simp add: finality_def)
  show ?thesis
  proof (cases "latest \<le> fn_synced_height s1")
    case True
    with ok(2) wr show ?thesis by auto
  next
    case False
    with ok(2) have "sbind (cached_table_uid p) (\<lambda>tbl. sync_heights p tbl None (height_range (fn_synced_height s1) latest)) s1 = (r, s')"
      by simp
    then show ?thesis
    proof (cases rule: sbindE)
      case (err e)
      with cached_table_uid_finality [OF err(1)] wr show ?thesis by simp
    next
      case (ok tbl s2)
      note cu = cached_table_uid_finality [OF ok(1)]
      have "registry_table p s tbl" using cu uid unfolding registry_table_def by simp
      with sync_heights_finality [OF ok(2)] cu wr synced show ?thesis
        by (auto simp: height_range_mem)
    qed
  qed
qed

lemma poll_p2p_finality:
  assumes "poll_p2p p s = Some (r, s')"
  shows "finality s' = finality s"
proof (cases "np_announce p")
  case None
  with assms show ?thesis by (simp add: poll_p2p_def)
next
  case (Some arrive)
  obtain frame w1 where a: "arrive (es_world s) = (frame, w1)" by fastforce
  have w: "finality (s\<lparr>es_world := w\<rparr>) = finality s" for w by (simp add: finality_def)
  show ?thesis
  proof (cases "poll_next frame")
    case None
    with assms Some a w show ?thesis by (auto simp: poll_p2p_def)
  next
    case (Some ann)
    obtain sub w2 where sub: "np_subscribe p (an_digest ann) w1 = (sub, w2)" by fastforce
    show ?thesis
    proof (cases "an_height ann \<le> fn_synced_height s")
      case True
      with assms \<open>np_announce p = _\<close> a Some w show ?thesis by (auto simp: poll_p2p_def)
    next
      case False
      have "sbind (slift (verify_signature p b)) (\<lambda>_. apply_block p b) s0 = (r, s') \<Longrightarrow> finality s' = finality s0" for b s0
        by (erule sbindE) (auto dest: apply_block_finality)
      with assms \<open>np_announce p = _\<close> a Some False sub w show ?thesis
        by (cases sub) (auto simp: poll_p2p_def)
    qed
  qed
qed

text \<open>
  C29: finality follows settlement. Whatever the network, the p2p peers and the execution layer do, a tick
  either leaves the node's cursor, safe and finalized hashes and state file alone, or moves the
  cursor forward to a height whose commitment was read from the registry's table, and both
  hashes to the block of that height in the committed batch, signed by the sequencer.
\<close>

theorem finality_follows_settlement:
  assumes "full_node_tick p s = Some s'"
  shows "finality s' = finality s \<or>
    (\<exists>tbl h b pl. registry_table p s tbl \<and> fn_synced_height s < h \<and> settled_block p tbl h b \<and>
       np_dec_payload p (data b) = Ok pl \<and> fn_synced_height s' = h \<and>
       fn_finalized s' = pl_block_hash pl \<and> fn_safe s' = pl_block_hash pl)"
proof -
  obtain paused s1 where c: "check_halt p s = (paused, s1)" by fastforce
  have s1: "finality s1 = finality s" "fn_table_uid s1 = fn_table_uid s"
    using c by (auto simp: check_halt_def finality_def split: option.splits prod.splits)
  show ?thesis
  proof (cases paused)
    case True
    with assms c s1 show ?thesis by (simp add: full_node_tick_def)
  next
    case False
    obtain r2 s2 where y: "sync_from_settlement p s1 = (r2, s2)" by fastforce
    obtain r3 where "poll_p2p p s2 = Some (r3, s')"
      using assms c False y by (auto simp: full_node_tick_def)
    then have s': "finality s' = finality s2" by (rule poll_p2p_finality)
    have "registry_table p s1 = registry_table p s" using s1 by (auto simp: registry_table_def fun_eq_iff)
    with sync_from_settlement_finality [OF y] s1 show ?thesis
      using s' finalized_at_cong [OF s'] unfolding finalized_at_def by (metis finality_def prod.inject)
  qed
qed

text \<open>
  C35: a successful sync reaches the settled tip without gaps. It read a latest height from the registry;
  if that is above the cursor, every height from the cursor to it has a committed, fetched and
  signed block, and the node ends with the tip finalized.
\<close>

theorem sync_reaches_settled_tip:
  assumes "sync_from_settlement p s = (Ok (), s')"
  shows "\<exists>w latest. latest_height (fst (np_rpc p w)) (np_parse_address p) 0 (np_rpc_url p) (np_registry_id p) = Ok latest \<and>
    (if latest \<le> fn_synced_height s then finality s' = finality s
     else \<exists>tbl. registry_table p s tbl \<and> finalized_at p tbl latest s' \<and>
            (\<forall>h. fn_synced_height s < h \<and> h \<le> latest \<longrightarrow> (\<exists>b. settled_block p tbl h b)))"
proof -
  from assms obtain latest s1 where l: "with_rpc p (\<lambda>env. latest_height env (np_parse_address p) 0 (np_rpc_url p) (np_registry_id p)) s = (Ok latest, s1)"
    and rest: "(if latest \<le> fn_synced_height s1 then (Ok (), s1)
       else sbind (cached_table_uid p) (\<lambda>tbl. sync_heights p tbl None (height_range (fn_synced_height s1) latest)) s1) = (Ok (), s')"
    unfolding sync_from_settlement_def by (auto elim!: sbindE)
  from with_rpc_finality [OF l] obtain w where f1: "finality s1 = finality s"
    and w: "latest_height (fst (np_rpc p w)) (np_parse_address p) 0 (np_rpc_url p) (np_registry_id p) = Ok latest" by metis
  have synced: "fn_synced_height s1 = fn_synced_height s" using f1 by (simp add: finality_def)
  show ?thesis
  proof (cases "latest \<le> fn_synced_height s")
    case True
    with rest synced f1 have "finality s' = finality s" by auto
    with w True show ?thesis by (intro exI [of _ w] exI [of _ latest]) simp
  next
    case False
    with rest synced obtain tbl s2 where t: "cached_table_uid p s1 = (Ok tbl, s2)"
      and hs: "sync_heights p tbl None (height_range (fn_synced_height s) latest) s2 = (Ok (), s')"
      by (auto elim!: sbindE)
    have "registry_table p s tbl"
      using cached_table_uid_finality [OF t] with_rpc_uid [OF l] unfolding registry_table_def by simp
    moreover have "height_range (fn_synced_height s) latest \<noteq> []"
      using height_range_mem [of latest "fn_synced_height s" latest] False by auto
    ultimately have "registry_table p s tbl \<and> finalized_at p tbl latest s' \<and>
            (\<forall>h. fn_synced_height s < h \<and> h \<le> latest \<longrightarrow> (\<exists>b. settled_block p tbl h b))"
      using sync_heights_finality [OF hs] False last_height_range [of "fn_synced_height s" latest]
      by (simp add: height_range_mem)
    with w False show ?thesis by (intro exI [of _ w] exI [of _ latest]) auto
  qed
qed

section \<open>The halt gate\<close>

text \<open>
  a confirmed halt, and nothing else, stops the node. With a deadline monitor configured, a tick is skipped
  exactly when the monitor's read succeeds with a halted or violated status; the skipped tick
  changes nothing but the remembered status. A failed or unconfirmed read never pauses the node.
\<close>

lemma halt_gate_exact:
  assumes "np_monitor p = Some mon" "mon (es_world s) = ((m, n), w)"
  shows "full_node_tick p s =
    (case monitor_status (np_dec_monitor p) m n of
       Inr st \<Rightarrow>
         if is_halted st then Some (s\<lparr>es_world := w, fn_halt := Some st\<rparr>)
         else map_option snd (poll_p2p p (snd (sync_from_settlement p (s\<lparr>es_world := w, fn_halt := None\<rparr>))))
     | Inl _ \<Rightarrow> map_option snd (poll_p2p p (snd (sync_from_settlement p (s\<lparr>es_world := w\<rparr>)))))"
  using assms by (auto simp: full_node_tick_def check_halt_def gate_update_def split: sum.split)

section \<open>Optimistic blocks\<close>

text \<open>The header signature says nothing about the data.\<close>

lemma verify_signature_data [simp]: "verify_signature p (b\<lparr>data := x\<rparr>) = verify_signature p b"
  by (simp add: verify_signature_def verify_block_signature_def split: option.split)

text \<open>
  C40: a peer can replace the payload of a signed block. From one honestly signed block, a block with the
  same header and signature but any other payload passes the check; announced for any
  height above the cursor, it is submitted and becomes the node's head, under the honest
  header's height, even when the execution layer answers that the payload is invalid.
\<close>

theorem forged_payload_becomes_head:
  assumes "verify_signature p b = Ok ()" "np_dec_payload p forged = Ok pl"
    and "np_announce p = Some arrive" "arrive (es_world s) = (frame, w)" "poll_next frame = Some ann"
    and "fn_synced_height s < an_height ann"
    and "np_subscribe p (an_digest ann) w = (Arrived (b\<lparr>data := forged\<rparr>), w')"
    and "new_payload_v4 (np_engine p) pl [] PARENT_BEACON_BLOCK_ROOT (s\<lparr>es_world := w'\<rparr>) = (Ok status, t)"
  shows "\<exists>r s'. poll_p2p p s = Some (r, s') \<and> fn_head s' = pl_block_hash pl \<and>
    fn_head_height s' = height (header b) \<and> finality s' = finality s"
proof -
  have n: "\<not> an_height ann \<le> fn_synced_height s" using assms(6) by simp
  obtain r s' where a: "apply_block p (b\<lparr>data := forged\<rparr>) (s\<lparr>es_world := w'\<rparr>) = (r, s')" by fastforce
  have poll: "poll_p2p p s = Some (r, s')"
    using assms(1,3-5,7) n a by (simp add: poll_p2p_def)
  obtain r3 s3 where f: "fork_choice_updated_v3 (np_engine p)
      (node_forkchoice (t\<lparr>fn_head := pl_block_hash pl, fn_head_height := height (header b)\<rparr>)) None
      (t\<lparr>fn_head := pl_block_hash pl, fn_head_height := height (header b)\<rparr>) = (r3, s3)" by fastforce
  have "fn_head s3 = pl_block_hash pl" "fn_head_height s3 = height (header b)"
    using fcu_fields [OF f] by simp_all
  moreover have "s' = s3"
    using a assms(2,8) f by (cases r3) (auto simp: apply_block_def sbind_def slift_def st_map_err_def Let_def sreturn_def)
  ultimately show ?thesis using poll poll_p2p_finality [OF poll] by blast
qed

section \<open>Restarts\<close>

text \<open>Hashes are written without white space and parse back.\<close>

definition hash_text_ok :: "('w, 'pk) node_port \<Rightarrow> bool" where
  "hash_text_ok p \<longleftrightarrow> (\<forall>h. np_show_hash p h \<noteq> [] \<and> trim (np_show_hash p h) = np_show_hash p h \<and>
     np_parse_hash p (np_show_hash p h) = Ok h)"

lemma parse_forkchoice_saved:
  "hash_text_ok p \<Longrightarrow>
    parse_forkchoice (np_parse_hash p) (saved_state p ts s) = Some (fn_head s, fn_safe s, fn_finalized s)"
  by (simp add: parse_forkchoice_def hash_text_ok_def saved_state_def Let_def)

text \<open>
  A restart resumes the persisted forkchoice, but not the height of its head. On a working disk, a node
  restarted after a finalization has the head, safe and finalized hashes and the cursor it had,
  without asking the execution layer; the recorded height of its head is the cursor, however
  far ahead the optimistic head was. So the next settled block is applied again, and made the
  head, without comparing it to what the execution layer already has.
\<close>

theorem restart_resumes_forkchoice:
  assumes "\<And>n. np_io p n = None" "json_ok (np_state_json p)" "to_json (np_state_json p) (saved_state p ts s) = Ok t"
    and "hash_text_ok p"
  shows "\<exists>s'. full_node_start p fuel (full_node_new p i w (fn_disk (save_cursor p ts s))) = Some (Ok (), s') \<and>
    fn_head s' = fn_head s \<and> fn_safe s' = fn_safe s \<and> fn_finalized s' = fn_finalized s \<and>
    fn_synced_height s' = fn_synced_height s \<and> fn_head_height s' = fn_synced_height s \<and>
    (\<forall>b pl. np_dec_payload p (data b) = Ok pl \<and> fn_synced_height s < height (header b) \<longrightarrow>
       apply_and_finalize p b s' = sbind (apply_block p b) (\<lambda>_. mark_finalized p b) s')"
proof -
  from state_save_load [where io = "np_io p" and dir = "np_dir p" and d = "fn_disk s", OF assms(1-3)] obtain d' where
    "state_load (np_io p) (np_state_json p) (np_dir p) (fn_disk (save_cursor p ts s)) = (Ok (Some (saved_state p ts s)), d')"
    by (auto simp: save_cursor_def)
  moreover have "cs_height (saved_state p ts s) = fn_synced_height s" by (simp add: saved_state_def)
  ultimately show ?thesis
    using parse_forkchoice_saved [OF assms(4), of ts s]
    by (auto simp: full_node_new_def full_node_start_def apply_and_finalize_def)
qed

section \<open>A concrete node\<close>

text \<open>A registry with one settled block, a peer that announces height 2 and delivers a forged copy of
  the settled block, and an execution layer that calls every payload invalid.\<close>

definition demo_block :: block where
  "demo_block = \<lparr>header = \<lparr>height = 1, parent_hash = barr_fill 0, state_root = barr_fill 3, timestamp = 100\<rparr>,
     data = [1], signature = Some (barr_fill 9)\<rparr>"

definition demo_payload :: "byte \<Rightarrow> payload" where
  "demo_payload x = \<lparr>pl_parent_hash = barr_fill 0, pl_state_root = barr_fill 3, pl_block_hash = barr_fill x,
     pl_block_number = 1, pl_timestamp = 100, pl_transactions = [], pl_rest = []\<rparr>"

definition demo_engine :: "unit engine_port" where
  "demo_engine = \<lparr>ep_endpoint = [], ep_token = (\<lambda>w. (Ok [], w)),
     ep_post = (\<lambda>url tk body w. (Ok (JObj [(''result'', JNull)]), w)),
     ep_now = (\<lambda>_. 0), ep_sleep = (\<lambda>_ w. w),
     ep_enc_state = (\<lambda>_. Ok JNull), ep_enc_attributes = (\<lambda>_. Ok JNull), ep_enc_payload_id = (\<lambda>_. Ok JNull),
     ep_enc_payload = (\<lambda>_. Ok JNull), ep_enc_hashes = (\<lambda>_. Ok JNull), ep_enc_hash = (\<lambda>_. Ok JNull),
     ep_dec_updated = (\<lambda>_. Ok \<lparr>fu_payload_status = \<lparr>ps_status = Valid, ps_latest_valid_hash = None\<rparr>, fu_payload_id = None\<rparr>),
     ep_dec_envelope = (\<lambda>_. Err []), ep_dec_status = (\<lambda>_. Ok \<lparr>ps_status = Invalid ''bad block'', ps_latest_valid_hash = None\<rparr>),
     ep_parse_hash = (\<lambda>_. Err []), ep_int_error = (\<lambda>_. []), ep_show_status = (\<lambda>_. [])\<rparr>"

definition demo_rpc :: rpc_env where
  "demo_rpc = \<lparr>rpc_new = (\<lambda>_. Ok ()),
     get_object = (\<lambda>_ _. Ok (Some (Some (replicate 32 0 @ to_le_bytes 1)))),
     derive_dynamic_child_id = (\<lambda>a _ _. a)\<rparr>"

definition demo_node :: "bool \<Rightarrow> (unit, unit) node_port" where
  "demo_node sui_up =
     \<lparr>np_engine = demo_engine,
      np_rpc = (\<lambda>w. (demo_rpc\<lparr>rpc_new := (\<lambda>_. if sui_up then Ok () else Err ''unreachable'')\<rparr>, w)),
      np_get = (\<lambda>w. ((\<lambda>_. Ok \<lparr>hr_status = 200, hr_text = None, hr_json = Err [], hr_bytes = Ok [7]\<rparr>), w)),
      np_monitor = None,
      np_announce = Some (\<lambda>w. (Some (announce_encode \<lparr>an_height = 2, an_digest = barr_fill 4\<rparr>), w)),
      np_subscribe = (\<lambda>d w. (Arrived (demo_block\<lparr>data := [2]\<rparr>), w)),
      np_pubkey = Some (), np_verify = (\<lambda>_ _ _. Ok ()),
      np_parse_address = (\<lambda>_. Ok (barr_fill 5)),
      np_dec_registry = (\<lambda>_. Ok \<lparr>rb_id = barr_fill 5, rb_latest_height = 1, rb_commitments = \<lparr>tb_id = barr_fill 6, tb_size = 1\<rparr>\<rparr>),
      np_dec_field = (\<lambda>_. Ok \<lparr>fb_id = barr_fill 6, fb_name = 1, fb_value = replicate 32 8\<rparr>),
      np_dec_batch = (\<lambda>_. Ok [wire_of_block demo_block]),
      np_dec_payload = (\<lambda>bs. Ok (demo_payload (case bs of [] \<Rightarrow> 0 | x # _ \<Rightarrow> x))),
      np_dec_monitor = ref_monitor_decoders, np_b64url_encode = (\<lambda>_. []),
      np_walrus = \<lparr>publisher_url = [], aggregator_url = [], epochs = 1, publisher_auth_token = None\<rparr>,
      np_rpc_url = [], np_registry_id = [], np_show_hash = hash_text, np_parse_hash = parse_hash_text,
      np_io = no_faults, np_state_json = chain_state_json, np_dir = ''data''\<rparr>"

definition demo_start :: "'w \<Rightarrow> 'w full_node" where
  "demo_start w = \<lparr>es_next_id = 1, es_world = w, fn_synced_height = 0, fn_head = barr_fill 0, fn_head_height = 0,
     fn_safe = barr_fill 0, fn_finalized = barr_fill 0, fn_persisted = None, fn_table_uid = None, fn_halt = None,
     fn_disk = blank_disk\<rparr>"

lemma demo_simps [simp]:
  "np_engine (demo_node b) = demo_engine" "np_monitor (demo_node b) = None"
  "np_subscribe (demo_node b) d w = (Arrived (demo_block\<lparr>data := [2]\<rparr>), w)"
  "np_dec_payload (demo_node b) bs = Ok (demo_payload (case bs of [] \<Rightarrow> 0 | x # _ \<Rightarrow> x))"
  "verify_signature (demo_node b) demo_block = Ok ()"
  "np_parse_address (demo_node b) u = Ok (barr_fill 5)"
  "np_dec_registry (demo_node b) bs = Ok \<lparr>rb_id = barr_fill 5, rb_latest_height = 1, rb_commitments = \<lparr>tb_id = barr_fill 6, tb_size = 1\<rparr>\<rparr>"
  by (simp_all add: demo_node_def verify_signature_def verify_block_signature_def demo_block_def)

lemma demo_announce:
  "np_announce (demo_node b) = Some (\<lambda>w. (Some (announce_encode \<lparr>an_height = 2, an_digest = barr_fill 4\<rparr>), w))"
  by (simp add: demo_node_def)

lemma demo_call:
  "engine_call demo_engine dec m ps s = (map_err EDecode (dec JNull), s\<lparr>es_next_id := es_next_id s + 1\<rparr>)"
  by (cases s) (simp add: engine_call_def demo_engine_def decode_response_def jget_def Let_def)

lemma demo_new_payload:
  "new_payload_v4 demo_engine pl hs root s =
     (Ok \<lparr>ps_status = Invalid ''bad block'', ps_latest_valid_hash = None\<rparr>, s\<lparr>es_next_id := es_next_id s + 1\<rparr>)"
proof -
  have e: "ep_enc_payload demo_engine x = Ok JNull" "ep_enc_hashes demo_engine y = Ok JNull"
    "ep_enc_hash demo_engine z = Ok JNull"
    "ep_dec_status demo_engine v = Ok \<lparr>ps_status = Invalid ''bad block'', ps_latest_valid_hash = None\<rparr>" for x y z v
    by (simp_all add: demo_engine_def)
  show ?thesis by (simp add: new_payload_v4_def e demo_call)
qed

theorem forged_payload_becomes_head_witness:
  "\<exists>r s'. poll_p2p (demo_node False) (demo_start ()) = Some (r, s') \<and> fn_head s' = barr_fill 2 \<and>
     fn_head_height s' = 1 \<and> finality s' = finality (demo_start ())"
proof -
  have "\<exists>r s'. poll_p2p (demo_node False) (demo_start ()) = Some (r, s') \<and> fn_head s' = pl_block_hash (demo_payload 2) \<and>
     fn_head_height s' = height (header demo_block) \<and> finality s' = finality (demo_start ())"
    by (rule forged_payload_becomes_head [where forged = "[2]" and pl = "demo_payload 2"
          and arrive = "\<lambda>w. (Some (announce_encode \<lparr>an_height = 2, an_digest = barr_fill 4\<rparr>), w)"
          and frame = "Some (announce_encode \<lparr>an_height = 2, an_digest = barr_fill 4\<rparr>)"
          and ann = "\<lparr>an_height = 2, an_digest = barr_fill 4\<rparr>" and w = "()" and w' = "()"
          and status = "\<lparr>ps_status = Invalid ''bad block'', ps_latest_valid_hash = None\<rparr>"
          and t = "(demo_start ())\<lparr>es_next_id := 2\<rparr>"])
      (simp_all add: announce_roundtrip demo_start_def demo_announce demo_new_payload)
  then show ?thesis by (simp add: demo_payload_def demo_block_def)
qed

lemma demo_fcu:
  "fork_choice_updated_v3 demo_engine st attrs s =
     (Ok \<lparr>fu_payload_status = \<lparr>ps_status = Valid, ps_latest_valid_hash = None\<rparr>, fu_payload_id = None\<rparr>,
      s\<lparr>es_next_id := es_next_id s + 1\<rparr>)"
proof -
  have e: "ep_enc_state demo_engine x = Ok JNull" "ep_enc_attributes demo_engine y = Ok JNull"
    "ep_dec_updated demo_engine v =
      Ok \<lparr>fu_payload_status = \<lparr>ps_status = Valid, ps_latest_valid_hash = None\<rparr>, fu_payload_id = None\<rparr>" for x y v
    by (simp_all add: demo_engine_def)
  show ?thesis by (simp add: fork_choice_updated_v3_def e demo_call)
qed

lemma demo_reads:
  "latest_height (fst (np_rpc (demo_node True) w)) (np_parse_address (demo_node True)) 0 u r = Ok 1"
  "table_uid (fst (np_rpc (demo_node True) w)) (np_parse_address (demo_node True)) (np_dec_registry (demo_node True)) 0 u r = Ok (barr_fill 6)"
  "commitment_at (fst (np_rpc (demo_node True) w)) (np_dec_field (demo_node True)) 0 u tbl h = Ok (Some (BlobId (barr_fill 8)))"
  "fetch (np_dec_batch (demo_node True)) (fst (np_get (demo_node True) w)) e (np_walrus (demo_node True)) blob = Ok [demo_block]"
proof -
  have o: "object_contents (fst (np_rpc (demo_node True) w)) 0 u a l = Ok (replicate 32 0 @ to_le_bytes 1)" for a l w
    by (simp add: object_contents_Ok demo_node_def demo_rpc_def)
  show "latest_height (fst (np_rpc (demo_node True) w)) (np_parse_address (demo_node True)) 0 u r = Ok 1"
    by (simp add: latest_height_def o parse_address_def parse_latest_height_def)
  show "table_uid (fst (np_rpc (demo_node True) w)) (np_parse_address (demo_node True)) (np_dec_registry (demo_node True)) 0 u r = Ok (barr_fill 6)"
    by (simp add: table_uid_def o parse_address_def parse_table_uid_def)
  show "commitment_at (fst (np_rpc (demo_node True) w)) (np_dec_field (demo_node True)) 0 u tbl h = Ok (Some (BlobId (barr_fill 8)))"
    by (simp add: commitment_at_def field_contents_def demo_node_def demo_rpc_def parse_field_blob_id_def
        parse_blob_id_def barr_fill_def)
  show "fetch (np_dec_batch (demo_node True)) (fst (np_get (demo_node True) w)) e (np_walrus (demo_node True)) blob = Ok [demo_block]"
    by (simp add: fetch_def fetch_blob_def demo_node_def http_is_success_def decode_def)
qed

lemma demo_apply:
  "\<exists>s'. apply_and_finalize (demo_node b) demo_block (s\<lparr>fn_head_height := 0\<rparr>) = (Ok (), s')"
  by (simp add: apply_and_finalize_def apply_block_def mark_finalized_def sbind_def slift_def st_map_err_def
      sreturn_def demo_block_def demo_new_payload demo_fcu Let_def)

text \<open>The node syncs to height 1; its tick then submits both blocks' payloads.\<close>

lemma demo_with_rpc: "with_rpc (demo_node True) f s = (f (fst (np_rpc (demo_node True) ())), s)"
  by (cases "np_rpc (demo_node True) ()") (simp add: with_rpc_def)

lemma demo_fetch: "fetch_cached (demo_node True) None blob s = (Ok [demo_block], s)"
proof -
  have get: "np_get (demo_node True) w = (fst (np_get (demo_node True) w), ())" for w
    by (cases "np_get (demo_node True) w") simp
  have s: "s\<lparr>es_world := ()\<rparr> = s" by simp
  show ?thesis
    unfolding fetch_cached_def option.case node_fetch_def
    by (subst get) (simp add: demo_reads s)
qed

lemma demo_start_fields:
  "fn_table_uid (demo_start w) = None" "fn_synced_height (demo_start w) = 0" "es_world (demo_start w) = w"
  by (simp_all add: demo_start_def)

lemma demo_sync: "\<exists>s'. sync_from_settlement (demo_node True) (demo_start ()) = (Ok (), s')"
proof -
  have hr: "height_range 0 1 = [1]" by (simp add: height_range_def)
  have st: "(demo_start ())\<lparr>fn_table_uid := Some (barr_fill 6)\<rparr> =
      ((demo_start ())\<lparr>fn_table_uid := Some (barr_fill 6)\<rparr>)\<lparr>fn_head_height := 0\<rparr>"
    by (simp add: demo_start_def)
  have b: "height (header demo_block) = 1" by (simp add: demo_block_def)
  obtain s' where "apply_and_finalize (demo_node True) demo_block ((demo_start ())\<lparr>fn_table_uid := Some (barr_fill 6)\<rparr>) = (Ok (), s')"
    using demo_apply [of True "(demo_start ())\<lparr>fn_table_uid := Some (barr_fill 6)\<rparr>"] st by metis
  then have "sync_from_settlement (demo_node True) (demo_start ()) = (Ok (), s')"
    by (simp add: sync_from_settlement_def sbind_def st_map_err_def demo_with_rpc demo_reads slift_def
        cached_table_uid_def hr demo_fetch b demo_start_fields)
  then show ?thesis ..
qed

lemma demo_poll: "\<exists>r s'. poll_p2p (demo_node b) s = Some (r, s')"
proof (cases "2 \<le> fn_synced_height s")
  case True
  then show ?thesis by (simp add: poll_p2p_def demo_announce announce_roundtrip [THEN iffD2, OF HOL.refl])
next
  case False
  obtain r s' where "sbind (slift (verify_signature (demo_node b) (demo_block\<lparr>data := [2]\<rparr>)))
      (\<lambda>_. apply_block (demo_node b) (demo_block\<lparr>data := [2]\<rparr>)) s = (r, s')" by fastforce
  with False show ?thesis
    by (simp add: poll_p2p_def demo_announce announce_roundtrip [THEN iffD2, OF HOL.refl])
qed

lemma demo_tick: "\<exists>s'. full_node_tick (demo_node b) s = Some s'"
  using demo_poll by (simp add: full_node_tick_def check_halt_def) (metis option.simps(9))

theorem sync_reaches_settled_tip_witness:
  "\<exists>s' tbl. sync_from_settlement (demo_node True) (demo_start ()) = (Ok (), s') \<and>
     registry_table (demo_node True) (demo_start ()) tbl \<and> finalized_at (demo_node True) tbl 1 s'"
proof -
  obtain s' where s': "sync_from_settlement (demo_node True) (demo_start ()) = (Ok (), s')" using demo_sync ..
  from sync_reaches_settled_tip [OF this] show ?thesis
    using s' by (auto simp: demo_reads demo_start_fields)
qed

theorem finality_follows_settlement_witness:
  "\<exists>s' tbl b pl. full_node_tick (demo_node True) (demo_start ()) = Some s' \<and>
     settled_block (demo_node True) tbl (fn_synced_height s') b \<and>
     np_dec_payload (demo_node True) (data b) = Ok pl \<and> fn_finalized s' = pl_block_hash pl"
proof -
  obtain s1 where y: "sync_from_settlement (demo_node True) (demo_start ()) = (Ok (), s1)" using demo_sync ..
  obtain r s' where q: "poll_p2p (demo_node True) s1 = Some (r, s')" using demo_poll by blast
  have t: "full_node_tick (demo_node True) (demo_start ()) = Some s'"
    using y q by (simp add: full_node_tick_def check_halt_def)
  obtain tbl where "finalized_at (demo_node True) tbl 1 s1"
    using sync_reaches_settled_tip [OF y] by (auto simp: demo_reads demo_start_fields)
  then have "fn_synced_height s1 = 1" by (auto simp: finalized_at_def)
  then have "finality s' \<noteq> finality (demo_start ())"
    using poll_p2p_finality [OF q] by (auto simp: finality_def demo_start_fields)
  with finality_follows_settlement [OF t] t show ?thesis by blast
qed

text \<open>A node whose monitor watches a chain that has halted.\<close>

definition halted_node :: "(unit, unit) node_port" where
  "halted_node = (demo_node True)\<lparr>np_monitor := Some (\<lambda>w. ((chain_monitor sample_history (barr_fill 1) 1000, 1), w))\<rparr>"

lemma halt_gate_exact_witness:
  "full_node_tick halted_node (demo_start ()) = Some ((demo_start ())\<lparr>fn_halt := Some (Halted 0 600000)\<rparr>)"
proof -
  have d: "np_dec_monitor halted_node = ref_monitor_decoders" by (simp add: halted_node_def demo_node_def)
  have w: "(demo_start ())\<lparr>es_world := (), fn_halt := h\<rparr> = (demo_start ())\<lparr>fn_halt := h\<rparr>" for h
    by (simp add: demo_start_def)
  have m: "np_monitor halted_node = Some (\<lambda>w. ((chain_monitor sample_history (barr_fill 1) 1000, 1), w))"
    by (simp add: halted_node_def)
  have e: "((chain_monitor sample_history (barr_fill 1) 1000, 1), es_world (demo_start ())) =
      ((chain_monitor sample_history (barr_fill 1) 1000, 1 :: nat), ())"
    by simp
  show ?thesis
    unfolding halt_gate_exact [OF m e] d sample_history_status by (simp add: w)
qed

lemma traced_demo_new_payload:
  "new_payload_v4 (traced_engine demo_engine) pl hs root s =
     (Ok \<lparr>ps_status = Invalid ''bad block'', ps_latest_valid_hash = None\<rparr>,
      s\<lparr>es_next_id := es_next_id s + 1,
        es_world := ((), sent s @ [rpc_request (es_next_id s) ''engine_newPayloadV4'' [JNull, JNull, JNull, JArr []]])\<rparr>)"
  by (cases "es_world s")
    (simp add: new_payload_v4_def engine_call_def traced_engine_def demo_engine_def decode_response_def jget_def Let_def sent_def)


theorem restart_resumes_forkchoice_witness:
  "\<exists>s'. full_node_start (demo_node True) 1 (full_node_new (demo_node True) 1 ()
        (fn_disk (save_cursor (demo_node True) 100 ((demo_start ())\<lparr>fn_synced_height := 3, fn_head_height := 5, fn_head := barr_fill 5\<rparr>)))) =
     Some (Ok (), s') \<and> fn_head s' = barr_fill 5 \<and> fn_head_height s' = 3"
proof -
  let ?s = "(demo_start ())\<lparr>fn_synced_height := 3, fn_head_height := 5, fn_head := barr_fill 5\<rparr>"
  have fields: "np_io (demo_node True) = no_faults" "np_state_json (demo_node True) = chain_state_json"
    "np_show_hash (demo_node True) = hash_text" "np_parse_hash (demo_node True) = parse_hash_text"
    by (simp_all add: demo_node_def)
  obtain t where "to_json chain_state_json (saved_state (demo_node True) 100 ?s) = Ok t"
    using chain_state_json_encodes [of "fn_head ?s" "fn_safe ?s" "fn_finalized ?s" "fn_synced_height ?s" 100]
    unfolding saved_state_def fields by blast
  then show ?thesis
    using restart_resumes_forkchoice [where p = "demo_node True" and ts = 100 and s = ?s and t = t and fuel = 1 and i = 1 and w = "()"]
    by (auto simp: fields no_faults_def chain_state_json_ok hash_text_ok_def)
qed

end
