(* ===== verification/Runner.thy ===== *)
theory Runner
  imports Engine P2p Inbox_Tracker
begin

text \<open>
  The sequencer (\<open>crates/node/src/runner.rs\<close>, and the settlement gate of \<open>crates/node/src/inbox.rs\<close>):
  block production, the batch and its flush timer, publishing, settling and finalizing, shutdown
  and crash recovery. The producer and the finalizer task share one state here; each producer
  tick and each turn of the finalizer loop is one operation on it. The data availability and
  settlement clients are the traits of \<open>crates/core/src/lib.rs\<close>, the operations of a port.
\<close>

section \<open>Port and state\<close>

record pending_block =
  pb_block :: block
  pb_block_hash :: hash
  pb_height :: u64

text \<open>Times are milliseconds of the clock \<open>ep_now\<close>.\<close>

record flush_timer =
  ft_flush_after :: "nat option"
  ft_at :: "nat option"

definition timer_new :: "nat option \<Rightarrow> flush_timer" where
  "timer_new after = \<lparr>ft_flush_after = after, ft_at = None\<rparr>"

definition timer_arm :: "nat \<Rightarrow> flush_timer \<Rightarrow> flush_timer" where
  "timer_arm now t = (if ft_at t = None then t\<lparr>ft_at := map_option (\<lambda>after. now + after) (ft_flush_after t)\<rparr> else t)"

definition timer_disarm :: "flush_timer \<Rightarrow> flush_timer" where
  "timer_disarm t = t\<lparr>ft_at := None\<rparr>"

definition timer_deadline :: "flush_timer \<Rightarrow> nat option" where
  "timer_deadline t = ft_at t"

text \<open>\<open>rp_commit\<close> is the settlement client: with a tracked cursor \<open>commit_with_cursor\<close>, without
  \<open>commit\<close>. \<open>rp_list_blocks\<close> lists the block directory.\<close>

record 'w runner_port =
  rp_engine :: "'w engine_port"
  rp_now_unix :: "'w \<Rightarrow> u64"
  rp_shutting_down :: "'w \<Rightarrow> bool"
  rp_publish :: "block list \<Rightarrow> 'w \<Rightarrow> (core_error, blob_id) result \<times> 'w"
  rp_commit :: "block \<Rightarrow> blob_id \<Rightarrow> u64 option \<Rightarrow> 'w \<Rightarrow> (core_error, unit) result \<times> 'w"
  rp_sign :: "header \<Rightarrow> (core_error, sig_bytes) result"
  rp_broadcast :: "(p2p_out list \<Rightarrow> 'w \<Rightarrow> 'w) option"
  rp_sha256 :: "byte list \<Rightarrow> hash"
  rp_inbox :: "tracker option"
  rp_fee_recipient :: "20 barray"
  rp_genesis_hash :: "hash option"
  rp_da_batch_size :: u64
  rp_flush_after :: "nat option"
  rp_enc_payload :: "payload \<Rightarrow> (string, byte list) result"
  rp_dec_payload :: "byte list \<Rightarrow> (string, payload) result"
  rp_show_hash :: "hash \<Rightarrow> string"
  rp_parse_hash :: "string \<Rightarrow> (string, hash) result"
  rp_io :: io
  rp_dir :: path
  rp_block_to_bytes :: "block \<Rightarrow> (string, byte list) result"
  rp_block_from_bytes :: "byte list \<Rightarrow> (string, block) result"
  rp_state_json :: "chain_state json"
  rp_heights_json :: "u64 list json"
  rp_list_blocks :: "disk \<Rightarrow> string list option"

text \<open>The shared \<open>ChainState\<close>, the channel between producer and finalizer with its two ends, and
  the finalizer's batch and timer.\<close>

record 'w runner = "'w eng_state" +
  rn_head :: hash
  rn_safe :: hash
  rn_finalized :: hash
  rn_timestamp :: u64
  rn_queue :: "pending_block list"
  rn_tx_open :: bool
  rn_rx_open :: bool
  rn_batch :: "pending_block list"
  rn_batch_bytes :: u64
  rn_timer :: flush_timer
  rn_disk :: disk

definition on_disk ::
    "(disk \<Rightarrow> ('e, 'a) result \<times> disk) \<Rightarrow> 'w runner \<Rightarrow> ('e, 'a) result \<times> 'w runner" where
  "on_disk m s = (case m (rn_disk s) of (r, d) \<Rightarrow> (r, s\<lparr>rn_disk := d\<rparr>))"

definition on_world ::
    "('w \<Rightarrow> ('e, 'a) result \<times> 'w) \<Rightarrow> 'w runner \<Rightarrow> ('e, 'a) result \<times> 'w runner" where
  "on_world m s = (case m (es_world s) of (r, w) \<Rightarrow> (r, s\<lparr>es_world := w\<rparr>))"

section \<open>Small parts\<close>

definition latest_or :: "'w runner_port \<Rightarrow> u64 \<Rightarrow> 'w runner \<Rightarrow> u64" where
  "latest_or p dflt s =
     (case block_latest_height (rp_list_blocks p (rn_disk s)) of Some h \<Rightarrow> h | None \<Rightarrow> dflt)"

definition persist_state :: "'w runner_port \<Rightarrow> u64 \<Rightarrow> 'w runner \<Rightarrow> (string, unit) result \<times> 'w runner" where
  "persist_state p h s =
     on_disk (st_map_err (\<lambda>_. ''saving chain state'')
       (state_save (rp_io p) (rp_state_json p) (rp_dir p)
         \<lparr>cs_head = rp_show_hash p (rn_head s), cs_safe = rp_show_hash p (rn_safe s),
          cs_finalized = rp_show_hash p (rn_finalized s), cs_height = h, cs_timestamp = rn_timestamp s\<rparr>)) s"

definition derive_prev_randao :: "u64 \<Rightarrow> hash" where
  "derive_prev_randao h = Abs_barray (replicate 24 0 @ to_be_bytes h)"

definition decode_block_hash :: "'w runner_port \<Rightarrow> byte list \<Rightarrow> (string, hash) result" where
  "decode_block_hash p bytes =
     and_then (map_err (\<lambda>_. ''decoding execution payload for block hash'') (rp_dec_payload p bytes)) (\<lambda>pl.
       Ok (pl_block_hash pl))"

definition advance_finalized ::
    "'w runner_port \<Rightarrow> u64 \<Rightarrow> hash \<Rightarrow> 'w runner \<Rightarrow> (string, unit) result \<times> 'w runner" where
  "advance_finalized p h block_hash s =
     sbind (st_map_err (\<lambda>_. ''advancing finalized to height '' @ show_u64 h)
              (engine_finalize (rp_engine p) (rn_head s) block_hash block_hash)) (\<lambda>_ t.
       (Ok (), t\<lparr>rn_safe := block_hash, rn_finalized := block_hash\<rparr>)) s"

section \<open>Producing a block\<close>

text \<open>A send on the channel; it fails once the receiver is gone.\<close>

definition tx_send :: "pending_block \<Rightarrow> 'w runner \<Rightarrow> 'w runner" where
  "tx_send b s = (if rn_rx_open s then s\<lparr>rn_queue := rn_queue s @ [b]\<rparr> else s)"

definition broadcast_block :: "'w runner_port \<Rightarrow> block \<Rightarrow> u64 \<Rightarrow> 'w runner \<Rightarrow> 'w runner" where
  "broadcast_block p b h s =
     (case rp_broadcast p of
        None \<Rightarrow> s
      | Some net \<Rightarrow>
          (let digest = block_digest (rp_sha256 p) (BlockMessage b) in
           s\<lparr>es_world := net [p2p_broadcast (rp_sha256 p) b, p2p_announce h digest] (es_world s)\<rparr>))"

definition next_timestamp :: "'w runner_port \<Rightarrow> 'w runner \<Rightarrow> u64" where
  "next_timestamp p s = max (rn_timestamp s) (rp_now_unix p (es_world s)) + 1"

definition next_attributes :: "'w runner_port \<Rightarrow> 'w runner \<Rightarrow> attributes" where
  "next_attributes p s =
     \<lparr>pa_timestamp = next_timestamp p s, pa_prev_randao = derive_prev_randao (latest_or p 0 s + 1),
      pa_fee_recipient = rp_fee_recipient p, pa_withdrawals = Some [],
      pa_beacon_root = Some PARENT_BEACON_BLOCK_ROOT\<rparr>"

text \<open>The part after the engine took the payload: sign, persist, mark, broadcast, queue.\<close>

definition publish_built :: "'w runner_port \<Rightarrow> built_payload \<Rightarrow> 'w runner \<Rightarrow> (string, unit) result \<times> 'w runner" where
  "publish_built p built =
     sbind (slift (map_err (\<lambda>_. ''converting payload to block'') (payload_into_block (rp_enc_payload p) built))) (\<lambda>b0.
     sbind (slift (map_err core_error_display (rp_sign p (header b0)))) (\<lambda>sg.
       let b = b0\<lparr>signature := Some sg\<rparr>; h = bp_height built in
     sbind (on_disk (st_map_err (\<lambda>_. ''persisting block'')
              (block_put (rp_io p) (rp_block_to_bytes p) (rp_dir p) b))) (\<lambda>_ s1.
     sbind (on_disk (st_map_err (\<lambda>_. ''marking height '' @ show_u64 h @ '' pending'')
              (store_mark (rp_io p) (rp_heights_json p) (rp_dir p) h))) (\<lambda>_ s2.
     sbind (persist_state p (latest_or p h s2)) (\<lambda>_ s3.
       (Ok (), tx_send \<lparr>pb_block = b, pb_block_hash = bp_block_hash built, pb_height = h\<rparr>
                 (broadcast_block p b h s3))) s2)
       (s1\<lparr>rn_disk := observe_block_inclusions (rp_inbox p) (pl_transactions (bp_payload built)) h (rn_disk s1)\<rparr>))))"

definition produce_block :: "'w runner_port \<Rightarrow> 'w runner \<Rightarrow> (string, unit) result \<times> 'w runner" where
  "produce_block p s =
     sbind (st_map_err engine_error_display
              (engine_build (rp_engine p)
                 \<lparr>fc_head = rn_head s, fc_safe = rn_safe s, fc_finalized = rn_finalized s\<rparr> (next_attributes p s))) (\<lambda>built.
     sbind (st_map_err (\<lambda>_. ''accepting payload'')
              (engine_accept (rp_engine p) (bp_payload built) (bp_block_hash built) (rn_safe s) (rn_finalized s))) (\<lambda>_ t.
       publish_built p built (t\<lparr>rn_head := bp_block_hash built, rn_timestamp := next_timestamp p s\<rparr>))) s"

section \<open>Publishing and settling\<close>

text \<open>The retry loops run until success or shutdown; the first number bounds their rounds, and
  \<open>None\<close> means they are still retrying after them.\<close>

fun publish_loop ::
    "'w runner_port \<Rightarrow> block list \<Rightarrow> nat \<Rightarrow> nat \<Rightarrow> 'w runner \<Rightarrow> (blob_id option \<times> 'w runner) option" where
  "publish_loop p blocks 0 backoff s = None"
| "publish_loop p blocks (Suc k) backoff s =
     (if rp_shutting_down p (es_world s) then Some (None, s)
      else case on_world (rp_publish p blocks) s of
        (Inr blob, s1) \<Rightarrow> Some (Some blob, s1)
      | (Inl _, s1) \<Rightarrow> publish_loop p blocks k (min (backoff * 2) 10000) (es_sleep (rp_engine p) backoff s1))"

fun retry_with_backoff ::
    "'w runner_port \<Rightarrow> ('w runner \<Rightarrow> (string, unit) result \<times> 'w runner) \<Rightarrow> nat \<Rightarrow> nat \<Rightarrow> nat \<Rightarrow> 'w runner \<Rightarrow>
     (unit option \<times> 'w runner) option" where
  "retry_with_backoff p op 0 backoff max_backoff s = None"
| "retry_with_backoff p op (Suc k) backoff max_backoff s =
     (if rp_shutting_down p (es_world s) then Some (None, s)
      else case op s of
        (Inr _, s1) \<Rightarrow> Some (Some (), s1)
      | (Inl _, s1) \<Rightarrow>
          retry_with_backoff p op k (min (backoff * 2) max_backoff) max_backoff (es_sleep (rp_engine p) backoff s1))"

fun wait_inclusion_gate ::
    "'w runner_port \<Rightarrow> tracker \<Rightarrow> u64 \<Rightarrow> nat \<Rightarrow> nat \<Rightarrow> 'w runner \<Rightarrow> (bool \<times> 'w runner) option" where
  "wait_inclusion_gate p tk h 0 backoff s = None"
| "wait_inclusion_gate p tk h (Suc k) backoff s =
     (if rp_shutting_down p (es_world s) then Some (False, s)
      else case on_disk (tracker_halt_check tk h) s of
        (Inr GateClear, s1) \<Rightarrow> Some (True, s1)
      | (Inr (GateHalt _ _ _), s1) \<Rightarrow> wait_inclusion_gate p tk h k backoff (es_sleep (rp_engine p) backoff s1)
      | (Inl _, s1) \<Rightarrow> Some (True, s1))"

text \<open>\<open>commit_with_inbox\<close> over the port.\<close>

definition settle_attempt ::
    "'w runner_port \<Rightarrow> block \<Rightarrow> blob_id \<Rightarrow> 'w runner \<Rightarrow> (string, unit) result \<times> 'w runner" where
  "settle_attempt p b blob =
     st_map_err core_error_display
       (case rp_inbox p of
          None \<Rightarrow> on_world (rp_commit p b blob None)
        | Some tk \<Rightarrow> (\<lambda>s.
            case on_disk (settle_cursor tk) s of
              (Inr cursor, s1) \<Rightarrow> on_world (rp_commit p b blob (Some cursor)) s1
            | (Inl _, s1) \<Rightarrow> on_world (rp_commit p b blob None) s1))"

definition settle_with_gate ::
    "'w runner_port \<Rightarrow> nat \<Rightarrow> block \<Rightarrow> blob_id \<Rightarrow> 'w runner \<Rightarrow> (bool \<times> 'w runner) option" where
  "settle_with_gate p fuel b blob s =
     (case (case rp_inbox p of
              None \<Rightarrow> Some (True, s)
            | Some tk \<Rightarrow> wait_inclusion_gate p tk (height (header b)) fuel 500 s) of
        None \<Rightarrow> None
      | Some (False, s1) \<Rightarrow> Some (False, s1)
      | Some (True, s1) \<Rightarrow>
          map_option (\<lambda>(r, s2). (r \<noteq> None, s2)) (retry_with_backoff p (settle_attempt p b blob) fuel 500 10000 s1))"

text \<open>Local finalization at shutdown; failures are logged and skipped.\<close>

fun finalize_buffered_locally :: "'w runner_port \<Rightarrow> pending_block list \<Rightarrow> 'w runner \<Rightarrow> 'w runner" where
  "finalize_buffered_locally p [] s = s"
| "finalize_buffered_locally p (b # bs) s =
     finalize_buffered_locally p bs (snd (advance_finalized p (pb_height b) (pb_block_hash b) s))"

text \<open>What follows a finalized block: clear its marker and save the state, both best effort.\<close>

definition clear_settled :: "'w runner_port \<Rightarrow> u64 \<Rightarrow> 'w runner \<Rightarrow> 'w runner" where
  "clear_settled p h s =
     (let s1 = snd (on_disk (store_clear (rp_io p) (rp_heights_json p) (rp_dir p) h) s)
      in snd (persist_state p (latest_or p h s1) s1))"

text \<open>The settle loop of \<open>flush_batch\<close>; the list is the batch. A failed finalization puts the front
  block back.\<close>

fun settle_loop ::
    "'w runner_port \<Rightarrow> nat \<Rightarrow> blob_id \<Rightarrow> pending_block list \<Rightarrow> 'w runner \<Rightarrow> 'w runner option" where
  "settle_loop p fuel blob [] s = Some (s\<lparr>rn_batch := [], rn_batch_bytes := 0\<rparr>)"
| "settle_loop p fuel blob (b # bs) s =
     (case settle_with_gate p fuel (pb_block b) blob s of
        None \<Rightarrow> None
      | Some (False, s1) \<Rightarrow>
          Some (finalize_buffered_locally p (b # bs) (s1\<lparr>rn_batch := []\<rparr>)\<lparr>rn_batch_bytes := 0\<rparr>)
      | Some (True, s1) \<Rightarrow>
          (case advance_finalized p (pb_height b) (pb_block_hash b) (s1\<lparr>rn_batch := bs\<rparr>) of
             (Inl _, s2) \<Rightarrow> Some (s2\<lparr>rn_batch := b # bs\<rparr>)
           | (Inr _, s2) \<Rightarrow> settle_loop p fuel blob bs (clear_settled p (pb_height b) s2)))"

definition flush_batch :: "'w runner_port \<Rightarrow> nat \<Rightarrow> 'w runner \<Rightarrow> 'w runner option" where
  "flush_batch p fuel s =
     (if rn_batch s = [] then Some s
      else case publish_loop p (map pb_block (rn_batch s)) fuel 500 s of
        None \<Rightarrow> None
      | Some (None, s1) \<Rightarrow> Some s1
      | Some (Some blob, s1) \<Rightarrow> settle_loop p fuel blob (rn_batch s1) s1)"

section \<open>The finalizer\<close>

definition disarm_if_flushed :: "'w runner \<Rightarrow> 'w runner" where
  "disarm_if_flushed s = (if rn_batch s = [] then s\<lparr>rn_timer := timer_disarm (rn_timer s)\<rparr> else s)"

text \<open>\<open>Vec::len\<close>; no vector is longer than a 64-bit word counts.\<close>

definition vec_len :: "'a list \<Rightarrow> u64" where
  "vec_len xs = of_nat (min (length xs) (2 ^ 64 - 1))"

definition take_batch :: "'w runner_port \<Rightarrow> 'w runner \<Rightarrow> 'w runner" where
  "take_batch p s = finalize_buffered_locally p (rn_batch s) (s\<lparr>rn_batch := []\<rparr>)"

definition receive_block :: "'w runner_port \<Rightarrow> nat \<Rightarrow> pending_block \<Rightarrow> 'w runner \<Rightarrow> 'w runner option" where
  "receive_block p fuel b s =
     (let s1 = (if rn_batch s = [] then s\<lparr>rn_timer := timer_arm (ep_now (rp_engine p) (es_world s)) (rn_timer s)\<rparr> else s);
          s2 = s1\<lparr>rn_batch_bytes := saturating_add (rn_batch_bytes s1) (vec_len (data (pb_block b))),
                  rn_batch := rn_batch s1 @ [b]\<rparr>
      in if rn_batch_bytes s2 \<ge> rp_da_batch_size p then map_option disarm_if_flushed (flush_batch p fuel s2)
         else Some s2)"

text \<open>One turn of the loop of \<open>finalize_blocks\<close>: the first branch of the biased \<open>select!\<close> that is
  ready. With none ready the task waits.\<close>

definition finalizer_turn :: "'w runner_port \<Rightarrow> nat \<Rightarrow> 'w runner \<Rightarrow> 'w runner option" where
  "finalizer_turn p fuel s =
     (if rn_batch s \<noteq> [] \<and> rp_shutting_down p (es_world s) then
        Some ((take_batch p s)\<lparr>rn_rx_open := False\<rparr>)
      else if (case timer_deadline (rn_timer s) of None \<Rightarrow> False | Some d \<Rightarrow> d \<le> ep_now (rp_engine p) (es_world s)) then
        map_option disarm_if_flushed (flush_batch p fuel s)
      else case rn_queue s of
        b # q \<Rightarrow> receive_block p fuel b (s\<lparr>rn_queue := q\<rparr>)
      | [] \<Rightarrow>
          if rn_tx_open s then Some s
          else map_option (\<lambda>t. (take_batch p t)\<lparr>rn_rx_open := False\<rparr>)
                 (flush_batch p fuel (s\<lparr>rn_timer := timer_disarm (rn_timer s)\<rparr>)))"

section \<open>Start and recovery\<close>

fun recover_heights :: "'w runner_port \<Rightarrow> u64 list \<Rightarrow> 'w runner \<Rightarrow> 'w runner" where
  "recover_heights p [] s = s"
| "recover_heights p (h # hs) s =
     (let drop = (\<lambda>t. snd (on_disk (store_clear (rp_io p) (rp_heights_json p) (rp_dir p) h) t)) in
      case on_disk (block_get (rp_io p) (rp_block_from_bytes p) (rp_dir p) h) s of
        (Inl _, s1) \<Rightarrow> recover_heights p hs (drop s1)
      | (Inr b, s1) \<Rightarrow>
          (case decode_block_hash p (data b) of
             Inl _ \<Rightarrow> recover_heights p hs (drop s1)
           | Inr block_hash \<Rightarrow>
               recover_heights p hs (tx_send \<lparr>pb_block = b, pb_block_hash = block_hash, pb_height = h\<rparr> s1)))"

definition recover_pending :: "'w runner_port \<Rightarrow> 'w runner \<Rightarrow> 'w runner" where
  "recover_pending p s =
     (case on_disk (store_pending (rp_io p) (rp_heights_json p) (rp_dir p)) s of
        (Inl _, s1) \<Rightarrow> s1
      | (Inr hs, s1) \<Rightarrow> recover_heights p hs s1)"

definition parse_or :: "(string \<Rightarrow> (string, hash) result) \<Rightarrow> hash \<Rightarrow> string \<Rightarrow> hash" where
  "parse_or parse dflt t = (case parse t of Inl _ \<Rightarrow> dflt | Inr h \<Rightarrow> h)"

text \<open>A process that starts over a disk and a world.\<close>

definition fresh_runner :: "'w runner_port \<Rightarrow> u64 \<Rightarrow> 'w \<Rightarrow> disk \<Rightarrow> 'w runner" where
  "fresh_runner p i w d =
     \<lparr>es_next_id = i, es_world = w, rn_head = barr_fill 0, rn_safe = barr_fill 0, rn_finalized = barr_fill 0,
      rn_timestamp = 0, rn_queue = [], rn_tx_open = True, rn_rx_open = True, rn_batch = [], rn_batch_bytes = 0,
      rn_timer = timer_new (rp_flush_after p), rn_disk = d\<rparr>"

definition with_pointers :: "hash \<Rightarrow> hash \<Rightarrow> hash \<Rightarrow> u64 \<Rightarrow> 'w runner \<Rightarrow> 'w runner" where
  "with_pointers h sf f ts s = s\<lparr>rn_head := h, rn_safe := sf, rn_finalized := f, rn_timestamp := ts\<rparr>"

text \<open>\<open>new\<close> and the start of \<open>run\<close>: the stored chain state, else the configured genesis hash,
  else the head of the execution layer.\<close>

definition runner_start ::
    "'w runner_port \<Rightarrow> nat \<Rightarrow> 'w runner \<Rightarrow> ((string, unit) result \<times> 'w runner) option" where
  "runner_start p fuel s =
     (case on_disk (store_init (rp_io p) (rp_dir p)) s of
        (Inl _, s1) \<Rightarrow> Some (Err ''initializing storage under data_dir'', s1)
      | (Inr _, s1) \<Rightarrow>
     (case on_disk (state_load (rp_io p) (rp_state_json p) (rp_dir p)) s1 of
        (Inl _, s2) \<Rightarrow> Some (Err ''loading stored state'', s2)
      | (Inr (Some st), s2) \<Rightarrow>
          (let h = parse_or (rp_parse_hash p) (barr_fill 0) (cs_head st)
           in Some (Ok (), recover_pending p
                (with_pointers h (parse_or (rp_parse_hash p) h (cs_safe st))
                   (parse_or (rp_parse_hash p) h (cs_finalized st)) (cs_timestamp st) s2)))
      | (Inr None, s2) \<Rightarrow>
          (case rp_genesis_hash p of
             Some g \<Rightarrow> Some (Ok (), recover_pending p (with_pointers g g g (rp_now_unix p (es_world s2)) s2))
           | None \<Rightarrow>
               (case current_head_with_height (rp_engine p) fuel s2 of
                  None \<Rightarrow> None
                | Some (Inl _, s3) \<Rightarrow> Some (Err ''discovering chain head from Reth'', s3)
                | Some (Inr (h, _), s3) \<Rightarrow>
                    Some (Ok (), recover_pending p (with_pointers h h h (rp_now_unix p (es_world s3)) s3))))))"

end
