(* ===== verification/Engine_Frame.thy ===== *)
theory Engine_Frame
  imports Engine
begin

text \<open>
  What the engine calls leave alone: they change only the request counter and the outside world,
  and move the world only along an order that the HTTP calls, the token mint and the sleeps of
  the port respect.
\<close>

definition eng_le ::
    "('w \<Rightarrow> 'w \<Rightarrow> bool) \<Rightarrow> ('w, 'm) eng_state_scheme \<Rightarrow> ('w, 'm) eng_state_scheme \<Rightarrow> bool" where
  "eng_le R s t \<longleftrightarrow> eng_state.more s = eng_state.more t \<and> R (es_world s) (es_world t)"

locale engine_world =
  fixes p :: "'w engine_port" and R :: "'w \<Rightarrow> 'w \<Rightarrow> bool"
  assumes R_refl: "R w w"
    and R_trans: "R u v \<Longrightarrow> R v w \<Longrightarrow> R u w"
    and R_token: "R w (snd (ep_token p w))"
    and R_post: "R w (snd (ep_post p url tk body w))"
    and R_sleep: "R w (ep_sleep p ms w)"
begin

sublocale frame: run_order "eng_le R"
  by unfold_locales (auto simp: eng_le_def R_refl intro: R_trans)

lemma sleep_le: "eng_le R s (es_sleep p ms s)"
  by (simp add: eng_le_def es_sleep_def R_sleep)

lemma engine_call_le: "preserves (eng_le R) (engine_call p dec method params)"
proof (rule frame.preservesI)
  fix s
  obtain r w where t: "ep_token p (es_world s) = (r, w)" by fastforce
  have w: "R (es_world s) w" using R_token [of "es_world s"] t by simp
  show "eng_le R s (snd (engine_call p dec method params s))"
  proof (cases r)
    case Inl
    with t w show ?thesis by (simp add: engine_call_def eng_le_def Let_def)
  next
    case (Inr tk)
    obtain r2 w2 where q: "ep_post p (ep_endpoint p) tk (rpc_request (es_next_id s) method params) w = (r2, w2)"
      by fastforce
    have "R w w2" using R_post [of w "ep_endpoint p" tk] q by (metis snd_conv)
    with w have "R (es_world s) w2" by (rule R_trans)
    with t Inr q show ?thesis by (cases r2) (simp_all add: engine_call_def eng_le_def Let_def)
  qed
qed

lemma fcu_le: "preserves (eng_le R) (fork_choice_updated_v3 p st attrs)"
  unfolding fork_choice_updated_v3_def
  by (intro frame.preserves_sbind' frame.preserves_slift engine_call_le)

lemma new_payload_le: "preserves (eng_le R) (new_payload_v4 p pl hs root)"
  unfolding new_payload_v4_def
  by (intro frame.preserves_sbind' frame.preserves_slift engine_call_le)

lemma get_payload_le: "preserves (eng_le R) (get_payload_v4 p i)"
  unfolding get_payload_v4_def
  by (intro frame.preserves_sbind' frame.preserves_slift engine_call_le)

lemma forkchoice_loop_le: "eng_le R s (snd (forkchoice_loop p st attrs k backoff s))"
proof (induction k arbitrary: backoff s)
  case 0
  show ?case by (simp add: frame.refl)
next
  case (Suc k)
  obtain r s1 where f: "fork_choice_updated_v3 p st attrs s = (r, s1)" by fastforce
  note le = frame.preservesD [OF fcu_le f]
  note rec = frame.trans [OF le frame.trans [OF sleep_le Suc.IH]]
  show ?case
    using f le rec by (cases r) (auto split: payload_validity.split)
qed

lemma wait_for_forkchoice_le: "preserves (eng_le R) (wait_for_forkchoice p st attrs)"
  unfolding wait_for_forkchoice_def by (rule frame.preservesI) (rule forkchoice_loop_le)

lemma engine_build_le: "preserves (eng_le R) (engine_build p st attrs)"
  unfolding engine_build_def
  by (intro frame.preserves_sbind' frame.preserves_slift frame.preserves_sreturn wait_for_forkchoice_le get_payload_le)

lemma engine_finalize_le: "preserves (eng_le R) (engine_finalize p h sf f)"
  unfolding engine_finalize_def
  by (intro frame.preserves_sbind' frame.preserves_sreturn wait_for_forkchoice_le)

lemma engine_accept_le: "preserves (eng_le R) (engine_accept p pl h sf f)"
  unfolding engine_accept_def
  by (intro frame.preserves_sbind' frame.preserves_sreturn frame.preserves_sthrow frame.preserves_if
      wait_for_forkchoice_le new_payload_le)

lemma block_number_le: "preserves (eng_le R) (block_number p)"
  unfolding block_number_def
  by (intro frame.preserves_sbind' frame.preserves_slift engine_call_le)

lemma block_by_number_le: "preserves (eng_le R) (block_by_number p n)"
  unfolding block_by_number_def
  by (intro frame.preserves_sbind' frame.preserves_slift engine_call_le)

lemma current_head_inner_le: "preserves (eng_le R) (current_head_inner p)"
  unfolding current_head_inner_def
  by (intro frame.preserves_sbind' frame.preserves_slift block_number_le block_by_number_le)

lemma current_head_loop_le:
  "current_head_loop p k backoff deadline s = Some (r, t) \<Longrightarrow> eng_le R s t"
proof (induction k arbitrary: backoff s)
  case (Suc k)
  obtain x s1 where i: "current_head_inner p s = (x, s1)" by fastforce
  note le = frame.preservesD [OF current_head_inner_le i]
  have rec: "eng_le R (es_sleep p backoff s1) t \<Longrightarrow> eng_le R s t"
    by (rule frame.trans [OF le frame.trans [OF sleep_le]])
  show ?case
    using Suc.prems i le rec Suc.IH [of "min (backoff * 2) 5000" "es_sleep p backoff s1"]
    by (auto split: sum.splits if_splits)
qed simp

end

text \<open>With the full relation only the frame remains: the fields of an extension never change.\<close>

interpretation any: engine_world p "\<lambda>_ _. True"
  by unfold_locales simp_all

lemmas engine_more =
  any.frame.preservesD [OF any.engine_build_le] any.frame.preservesD [OF any.engine_accept_le]
  any.frame.preservesD [OF any.engine_finalize_le]

end
