(* ===== verification/Runner_Safety.thy ===== *)
theory Runner_Safety
  imports Runner Engine_Frame
begin

text \<open>
  Pending markers and settlement: what the sequencer does to its marker file in terms of what the
  settlement layer has recorded. The two clients enter as a locale with the contract of their
  traits; \<open>Runner_Chain\<close> interprets it on the modelled contract.
\<close>

section \<open>Files the operations touch\<close>

lemma path_suffix_neq [simp]:
  "pending_path dir \<noteq> state_path dir" "pending_path dir \<noteq> state_tmp dir" "pending_path dir \<noteq> block_path dir h"
  "pending_path dir \<noteq> inbox_path dir" "pending_path dir \<noteq> inbox_tmp dir"
  by (simp_all add: pending_path_def state_path_def state_tmp_def block_path_def inbox_path_def inbox_tmp_def)

definition same_file :: "path \<Rightarrow> disk \<Rightarrow> disk \<Rightarrow> bool" where
  "same_file q d d' \<longleftrightarrow> files d' q = files d q"

interpretation same_file: run_order "same_file q"
  by unfold_locales (simp_all add: same_file_def)

lemma load_json_same_file: "preserves (same_file q) (load_json io j dflt p)"
  by (simp add: preserves_def same_file_def)

lemma save_json_same_file:
  assumes "q \<noteq> tmp" "q \<noteq> p" shows "preserves (same_file q) (save_json io j tmp p x)"
proof (rule same_file.preservesI)
  fix d
  obtain r d' where s: "save_json io j tmp p x d = (r, d')" by fastforce
  then show "same_file q d (snd (save_json io j tmp p x d))"
    using assms
    by (cases "to_json j x")
       (auto simp: save_json_def fs_write_def fs_rename_def sbind_def slift_def same_file_def
         split: option.splits prod.splits sum.splits if_splits)
qed

lemma block_put_same_file:
  assumes "q \<noteq> block_path dir (height (header b))" shows "preserves (same_file q) (block_put io to_bytes dir b)"
  using assms unfolding preserves_def
  by (auto simp: block_put_def fs_write_def sbind_def slift_def same_file_def split: sum.splits option.splits)

lemma state_save_same_file:
  "q \<noteq> state_tmp dir \<Longrightarrow> q \<noteq> state_path dir \<Longrightarrow> preserves (same_file q) (state_save io j dir st)"
  unfolding state_save_def by (rule save_json_same_file)

lemma tk_snapshot_same_file: "preserves (same_file q) (tk_snapshot tk)"
  unfolding tk_snapshot_def inbox_snapshot_def inbox_load_raw_def
  by (intro same_file.preserves_st_map_err load_json_same_file)

lemma halt_check_same_file: "preserves (same_file q) (tracker_halt_check tk h)"
  unfolding tracker_halt_check_def
  by (intro same_file.preserves_sbind' same_file.preserves_sreturn tk_snapshot_same_file)

lemma settle_cursor_same_file: "preserves (same_file q) (settle_cursor tk)"
  unfolding settle_cursor_def inbox_included_count_def inbox_load_raw_def
  by (intro same_file.preserves_st_map_err same_file.preserves_sbind' same_file.preserves_sreturn load_json_same_file)

lemma mark_included_same_file:
  assumes "q \<noteq> inbox_tmp dir" "q \<noteq> inbox_path dir" shows "preserves (same_file q) (mark_included io j dir n h)"
  unfolding mark_included_def inbox_mutate_def inbox_load_raw_def inbox_save_raw_def
  by (intro same_file.preserves_sbind' same_file.preserves_slift load_json_same_file save_json_same_file assms)

lemma observe_loop_same_file:
  assumes "q \<noteq> inbox_tmp (tk_dir tk)" "q \<noteq> inbox_path (tk_dir tk)"
  shows "preserves (same_file q) (observe_loop tk h hashes ns)"
proof (induction ns)
  case Nil
  show ?case by (simp add: preserves_def same_file_def)
next
  case (Cons e rest)
  obtain nonce r where e: "e = (nonce, r)" by fastforce
  have step: "preserves (same_file q)
      (sbind (st_map_err TStore (mark_included (tk_io tk) (tk_json tk) (tk_dir tk) nonce h)) (\<lambda>_.
       sbind (observe_loop tk h hashes rest) (\<lambda>marked. sreturn (if is_submitted r then nonce # marked else marked))))"
    by (intro same_file.preserves_sbind' same_file.preserves_st_map_err same_file.preserves_sreturn
        mark_included_same_file assms Cons.IH)
  show ?case
    using step Cons.IH by (auto simp: preserves_def e same_file_def split: sum.split)
qed

lemma observe_same_file:
  assumes "\<And>tk. inbox = Some tk \<Longrightarrow> q \<noteq> inbox_tmp (tk_dir tk) \<and> q \<noteq> inbox_path (tk_dir tk)"
  shows "same_file q d (observe_block_inclusions inbox txs h d)"
proof (cases inbox)
  case (Some tk)
  have "preserves (same_file q) (observe_transactions tk h txs)"
    unfolding observe_transactions_def
    by (intro same_file.preserves_sbind' tk_snapshot_same_file observe_loop_same_file)
      (use assms Some in auto)
  then show ?thesis by (simp add: Some observe_block_inclusions_def preserves_def)
qed (simp add: observe_block_inclusions_def same_file_def)

text \<open>The poller task of the force-inclusion integration writes only its own file.\<close>

lemma inbox_mutate_same_file:
  assumes "q \<noteq> inbox_tmp dir" "q \<noteq> inbox_path dir" shows "preserves (same_file q) (inbox_mutate io j dir f)"
  unfolding inbox_mutate_def inbox_load_raw_def inbox_save_raw_def
  by (intro same_file.preserves_sbind' same_file.preserves_slift load_json_same_file save_json_same_file assms)

lemma sync_loop_same_file:
  assumes "q \<noteq> inbox_tmp (tk_dir tk)" "q \<noteq> inbox_path (tk_dir tk)"
  shows "preserves (same_file q) (sync_loop tk tracked tbl at_height dl n ns)"
proof (induction ns arbitrary: n)
  case Nil
  show ?case by (simp add: preserves_def same_file_def)
next
  case (Cons nonce rest)
  have step: "preserves (same_file q)
      (sbind (st_map_err TStore (record_submitted (tk_io tk) (tk_json tk) (tk_dir tk) nonce dl x at_height y z)) (\<lambda>_.
       sbind (sync_loop tk tracked tbl at_height dl m rest) (\<lambda>fresh. sreturn (u # fresh))))" for x y z m u
    unfolding record_submitted_def
    by (intro same_file.preserves_sbind' same_file.preserves_st_map_err same_file.preserves_sreturn
        inbox_mutate_same_file assms Cons.IH)
  show ?case
    using step Cons.IH
    by (auto simp: preserves_def same_file_def Let_def split: sum.split option.split)
qed

lemma tracker_sync_same_file:
  assumes "q \<noteq> inbox_tmp (tk_dir tk)" "q \<noteq> inbox_path (tk_dir tk)" "tracker_sync tk n at budget d = (r, b, d')"
  shows "same_file q d d'"
proof (cases "and_then (t_object (tk_transport tk) n (tk_inbox_id tk)) (parse_inbox_status (dec_inbox (md_inbox (tk_decoders tk))))")
  case (Inl e)
  with assms(3) show ?thesis by (simp add: tracker_sync_def same_file_def)
next
  case (Inr st)
  obtain x d1 where sn: "tk_snapshot tk d = (x, d1)" by fastforce
  note q1 = same_file.preservesD [OF tk_snapshot_same_file sn]
  show ?thesis
  proof (cases x)
    case (Inl e)
    with assms(3) Inr sn q1 show ?thesis by (auto simp: tracker_sync_def Let_def)
  next
    case (Inr tracked)
    let ?ls = "sync_loop tk tracked (pending_table_uid st) at (saturating_add at (refresh_window tk (n + 1) budget)) (n + 4)
        (nonce_range (included_count st) (next_nonce st)) d1"
    have "d' = snd ?ls" using assms(3) \<open>_ = Ok st\<close> sn Inr by (auto simp: tracker_sync_def Let_def split: prod.splits)
    then show ?thesis using same_file.preserves_after [OF sync_loop_same_file [OF assms(1,2)] q1] by simp
  qed
qed

lemma observe_inclusion_same_file:
  assumes "q \<noteq> inbox_tmp (tk_dir tk)" "q \<noteq> inbox_path (tk_dir tk)"
  shows "preserves (same_file q) (observe_inclusion tk nonce h)"
  unfolding observe_inclusion_def inbox_get_def inbox_load_raw_def
  using assms
  by (intro same_file.preserves_sbind' same_file.preserves_st_map_err load_json_same_file same_file.preserves_sreturn)
    (auto intro!: same_file.preserves_rules mark_included_same_file split: option.split nonce_record.split)

lemma submit_loop_same_file:
  assumes "q \<noteq> inbox_tmp (tk_dir tk)" "q \<noteq> inbox_path (tk_dir tk)"
  shows "submit_loop tk l2 n ss d = (out, r, d') \<Longrightarrow> same_file q d d'"
proof (induction ss arbitrary: n d out)
  case (Cons s rest)
  show ?case
  proof (cases "receipt_height l2 n (ts_tx_hash s)")
    case (Inl e)
    with Cons.prems show ?thesis by (simp add: same_file.refl)
  next
    case (Inr found)
    show ?thesis
    proof (cases found)
      case None
      with Inr Cons show ?thesis by (auto simp: same_file.refl split: sum.splits prod.splits)
    next
      case (Some h)
      obtain x d1 where ob: "observe_inclusion tk (ts_nonce s) h d = (x, d1)" by fastforce
      note q1 = same_file.preservesD [OF observe_inclusion_same_file [OF assms] ob]
      show ?thesis
        using Cons.prems Inr Some ob q1 Cons.IH [of "n + 1" d1]
        by (cases x) (auto intro: same_file.trans)
    qed
  qed
qed (simp add: same_file.refl)

lemma poll_pass_same_file:
  assumes "q \<noteq> inbox_tmp (tk_dir tk)" "q \<noteq> inbox_path (tk_dir tk)" "poll_pass tk l2 n gauge budget d = (out, r, b, d')"
  shows "same_file q d d'"
proof -
  obtain x b1 d1 where sy: "tracker_sync tk n (word_of_int (max gauge 0)) budget d = (x, b1, d1)"
    by (cases "tracker_sync tk n (word_of_int (max gauge 0)) budget d")
  note q1 = tracker_sync_same_file [OF assms(1,2) sy]
  show ?thesis
  proof (cases x)
    case (Inl e)
    with assms(3) sy q1 show ?thesis by (auto simp: poll_pass_def Let_def)
  next
    case (Inr ys)
    obtain z d2 where pe: "pending_submissions tk d1 = (z, d2)" by fastforce
    have "preserves (same_file q) (pending_submissions tk)"
      unfolding pending_submissions_def inbox_submitted_def inbox_load_raw_def
      by (intro same_file.preserves_sbind' same_file.preserves_rules load_json_same_file)
    from same_file.trans [OF q1 same_file.preservesD [OF this pe]] have q2: "same_file q d d2" .
    show ?thesis
    proof (cases z)
      case (Inl e)
      with assms(3) sy Inr pe q2 show ?thesis by (auto simp: poll_pass_def Let_def)
    next
      case (Inr subs)
      obtain se re d3 where su: "submit_loop tk l2 0 subs d2 = (se, re, d3)" by (cases "submit_loop tk l2 0 subs d2")
      from same_file.trans [OF q2 submit_loop_same_file [OF assms(1,2) su]] have "same_file q d d3" .
      moreover have "d' = d3" using assms(3) sy \<open>x = _\<close> pe Inr su by (auto simp: poll_pass_def Let_def)
      ultimately show ?thesis by simp
    qed
  qed
qed

section \<open>The clients the sequencer relies on\<close>

text \<open>The heights marked pending.\<close>

definition marked :: "'w runner_port \<Rightarrow> disk \<Rightarrow> u64 set \<Rightarrow> bool" where
  "marked p d S \<longleftrightarrow> pending_set (rp_heights_json p) (rp_dir p) d S"

lemma marked_same_file: "same_file (pending_path (rp_dir p)) d d' \<Longrightarrow> marked p d S \<Longrightarrow> marked p d' S"
  by (simp add: marked_def pending_set_def holds_def same_file_def)

lemma store_clear_marked:
  assumes "json_ok (rp_heights_json p)" "marked p d S"
    and "store_clear io (rp_heights_json p) (rp_dir p) h d = (r, d')"
  shows "marked p d' S \<or> marked p d' (S - {h})"
proof -
  from assms(3) have "run_op io (rp_heights_json p) (rp_dir p) (ClearOp h) d = (r, d')" by simp
  from run_op_set [OF assms(1) this assms(2) [unfolded marked_def]] show ?thesis
    by (cases r) (auto simp: marked_def)
qed

lemma store_mark_marked:
  assumes "json_ok (rp_heights_json p)" "marked p d S"
    and "store_mark io (rp_heights_json p) (rp_dir p) h d = (r, d')"
  shows "marked p d' (if r = Ok () then insert h S else S)"
proof -
  from assms(3) have "run_op io (rp_heights_json p) (rp_dir p) (MarkOp h) d = (r, d')" by simp
  from run_op_set [OF assms(1) this assms(2) [unfolded marked_def]] show ?thesis
    by (cases r) (auto simp: marked_def)
qed

text \<open>The queued and batched blocks carry the height of their header.\<close>

definition heights_match :: "pending_block list \<Rightarrow> bool" where
  "heights_match bs \<longleftrightarrow> (\<forall>b \<in> set bs. height (header (pb_block b)) = pb_height b)"

lemma heights_match_simps [simp]:
  "heights_match []" "heights_match (b # bs) \<longleftrightarrow> height (header (pb_block b)) = pb_height b \<and> heights_match bs"
  "heights_match (xs @ ys) \<longleftrightarrow> heights_match xs \<and> heights_match ys"
  by (auto simp: heights_match_def)

definition well_queued :: "'w runner \<Rightarrow> bool" where
  "well_queued s \<longleftrightarrow> heights_match (rn_queue s) \<and> heights_match (rn_batch s)"

text \<open>The branches of a turn.\<close>

lemma finalizer_turn_cases:
  assumes "finalizer_turn p k s = Some t"
  obtains (stop) "t = (take_batch p s)\<lparr>rn_rx_open := False\<rparr>" "rp_shutting_down p (es_world s)"
    | (timer) u where "flush_batch p k s = Some u" "t = disarm_if_flushed u"
    | (receive) b q where "rn_queue s = b # q" "receive_block p k b (s\<lparr>rn_queue := q\<rparr>) = Some t"
    | (wait) "t = s"
    | (drain) u where "flush_batch p k (s\<lparr>rn_timer := timer_disarm (rn_timer s)\<rparr>) = Some u"
        "t = (take_batch p u)\<lparr>rn_rx_open := False\<rparr>"
proof (cases "rn_batch s \<noteq> [] \<and> rp_shutting_down p (es_world s)")
  case True
  with assms have "t = (take_batch p s)\<lparr>rn_rx_open := False\<rparr>" by (simp add: finalizer_turn_def)
  with True stop show ?thesis by blast
next
  case shutdown: False
  show ?thesis
  proof (cases "case timer_deadline (rn_timer s) of None \<Rightarrow> False | Some d \<Rightarrow> d \<le> ep_now (rp_engine p) (es_world s)")
    case True
    have "map_option disarm_if_flushed (flush_batch p k s) = Some t"
      using assms unfolding finalizer_turn_def if_not_P [OF shutdown] if_P [OF True] .
    with timer show ?thesis by blast
  next
    case False
    note rest = assms [unfolded finalizer_turn_def if_not_P [OF shutdown] if_not_P [OF False]]
    show ?thesis
    proof (cases "rn_queue s")
      case (Cons b q)
      with rest receive show ?thesis by simp
    next
      case Nil
      with rest wait drain show ?thesis by (cases "rn_tx_open s") auto
    qed
  qed
qed

text \<open>One lifetime of the sequencer process: producer ticks, turns of the finalizer, passes of the
  inbox poller, the shutdown signal, and the outside world moving along an order, interleaved in
  any way.\<close>

inductive runner_run :: "'w runner_port \<Rightarrow> ('w \<Rightarrow> 'w \<Rightarrow> bool) \<Rightarrow> 'w runner \<Rightarrow> 'w runner \<Rightarrow> bool" for p R s where
  start: "runner_run p R s s"
| produce: "runner_run p R s t \<Longrightarrow> rn_tx_open t \<Longrightarrow> runner_run p R s (snd (produce_block p t))"
| finalize: "runner_run p R s t \<Longrightarrow> rn_rx_open t \<Longrightarrow> finalizer_turn p k t = Some u \<Longrightarrow> runner_run p R s u"
| poll: "runner_run p R s t \<Longrightarrow> rp_inbox p = Some tk \<Longrightarrow>
    poll_pass tk l2 n gauge budget (rn_disk t) = (out, r, b, d) \<Longrightarrow> runner_run p R s (t\<lparr>rn_disk := d\<rparr>)"
| stop: "runner_run p R s t \<Longrightarrow> runner_run p R s (t\<lparr>rn_tx_open := False\<rparr>)"
| outside: "runner_run p R s t \<Longrightarrow> R (es_world t) w \<Longrightarrow> runner_run p R s (t\<lparr>es_world := w\<rparr>)"

text \<open>The batch bookkeeping of the finalizer: the byte count is never below the size of the batch, and
  with a flush interval configured the timer is armed exactly while blocks are buffered.\<close>

definition batch_size :: "pending_block list \<Rightarrow> nat" where
  "batch_size bs = (\<Sum>b\<leftarrow>bs. length (data (pb_block b)))"

definition batch_ok :: "'w runner \<Rightarrow> bool" where
  "batch_ok s \<longleftrightarrow>
     (rn_batch s \<noteq> [] \<longrightarrow> min (batch_size (rn_batch s)) (2 ^ 64 - 1) \<le> unat (rn_batch_bytes s)) \<and>
     (rn_rx_open s \<and> ft_flush_after (rn_timer s) \<noteq> None \<longrightarrow> (ft_at (rn_timer s) \<noteq> None \<longleftrightarrow> rn_batch s \<noteq> []))"

lemma batch_size_append [simp]: "batch_size (xs @ ys) = batch_size xs + batch_size ys"
  by (simp add: batch_size_def)

lemma batch_size_drop: "batch_size (drop n bs) \<le> batch_size bs"
  by (metis append_take_drop_id batch_size_append le_add2)

lemma unat_vec_len: "unat (vec_len xs) = min (length xs) (2 ^ 64 - 1)"
  by (simp add: vec_len_def unat_of_nat)

lemma saturating_count: "min x (m :: nat) \<le> u \<Longrightarrow> min (x + l) m \<le> min (u + min l m) m"
  by linarith

lemma append_batch_ok:
  assumes "batch_ok s" "s1 = (if rn_batch s = [] then s\<lparr>rn_timer := timer_arm now (rn_timer s)\<rparr> else s)"
  shows "batch_ok (s1\<lparr>rn_batch_bytes := saturating_add (rn_batch_bytes s1) (vec_len (data (pb_block b))),
    rn_batch := rn_batch s1 @ [b]\<rparr>)"
proof -
  have one: "batch_size [b] = length (data (pb_block b))" by (simp add: batch_size_def)
  have "min (batch_size (rn_batch s)) (2 ^ 64 - 1) \<le> unat (rn_batch_bytes s)"
    using assms(1) by (cases "rn_batch s = []") (simp_all add: batch_ok_def batch_size_def)
  from saturating_count [OF this] one
  have "min (batch_size (rn_batch s @ [b])) (2 ^ 64 - 1) \<le> unat (saturating_add (rn_batch_bytes s) (vec_len (data (pb_block b))))"
    unfolding unat_saturating_add unat_vec_len by simp
  moreover have "rn_rx_open s \<and> ft_flush_after (rn_timer s) \<noteq> None \<longrightarrow> ft_at (rn_timer s1) \<noteq> None"
    using assms by (auto simp: batch_ok_def timer_arm_def)
  ultimately show ?thesis
    using assms(2) by (cases "rn_batch s = []") (simp_all add: batch_ok_def timer_arm_def)
qed

lemma disarm_batch_ok:
  assumes "rn_timer u = rn_timer s \<and> rn_rx_open u = rn_rx_open s \<and>
    (\<exists>n. rn_batch u = drop n (rn_batch s)) \<and> (rn_batch u = [] \<or> rn_batch_bytes u = rn_batch_bytes s)"
    and "batch_ok s"
  shows "batch_ok (disarm_if_flushed u)"
proof (cases "rn_batch u = []")
  case True
  then show ?thesis by (simp add: disarm_if_flushed_def batch_ok_def timer_disarm_def)
next
  case False
  from assms(1) obtain n where n: "rn_batch u = drop n (rn_batch s)" by blast
  with False have "rn_batch s \<noteq> []" by auto
  with assms False n batch_size_drop [of n "rn_batch s"] show ?thesis
    by (auto simp: disarm_if_flushed_def batch_ok_def)
qed

lemma payload_block_height: "payload_into_block enc built = Ok b \<Longrightarrow> height (header b) = bp_height built"
  by (auto simp: payload_into_block_def Let_def and_then_eq_Inr)

text \<open>The contract of the two client traits: \<open>avail w i b\<close> says that blob \<open>i\<close> was published with
  block \<open>b\<close> in it, \<open>settled w h i\<close> that the settlement layer holds \<open>i\<close> for height \<open>h\<close>. The outside
  world moves along \<open>R\<close>, and neither is ever undone.\<close>

locale settlement_service = engine_world "rp_engine p" R
  for p :: "'w runner_port" and R :: "'w \<Rightarrow> 'w \<Rightarrow> bool" +
  fixes avail :: "'w \<Rightarrow> blob_id \<Rightarrow> block \<Rightarrow> bool"
    and settled :: "'w \<Rightarrow> u64 \<Rightarrow> blob_id \<Rightarrow> bool"
  assumes R_publish: "R w (snd (rp_publish p bs w))"
    and R_commit: "R w (snd (rp_commit p b i c w))"
    and R_broadcast: "rp_broadcast p = Some net \<Longrightarrow> R w (net out w)"
    and avail_mono: "R w w' \<Longrightarrow> avail w i b \<Longrightarrow> avail w' i b"
    and settled_mono: "R w w' \<Longrightarrow> settled w h i \<Longrightarrow> settled w' h i"
    and publish_avail: "rp_publish p bs w = (Ok i, w') \<Longrightarrow> b \<in> set bs \<Longrightarrow> avail w' i b"
    and commit_settled: "rp_commit p b i c w = (Ok (), w') \<Longrightarrow> settled w' (height (header b)) i"
    and tracker_dir: "rp_inbox p = Some tk \<Longrightarrow> tk_dir tk = rp_dir p"
    and heights_json: "json_ok (rp_heights_json p)"
begin

definition durable :: "'w \<Rightarrow> u64 \<Rightarrow> bool" where
  "durable w h \<longleftrightarrow> (\<exists>i b. height (header b) = h \<and> avail w i b \<and> settled w h i)"

lemma durable_mono: "R w w' \<Longrightarrow> durable w h \<Longrightarrow> durable w' h"
  unfolding durable_def by (blast intro: avail_mono settled_mono)

text \<open>How an operation may change the markers: it may add some, and remove those of durable
  blocks.\<close>

definition keeps :: "'w runner \<Rightarrow> 'w runner \<Rightarrow> bool" where
  "keeps s t \<longleftrightarrow> R (es_world s) (es_world t) \<and>
     (\<forall>S. marked p (rn_disk s) S \<longrightarrow> (\<exists>S'. marked p (rn_disk t) S' \<and> (\<forall>h \<in> S - S'. durable (es_world t) h)))"

sublocale keeps: run_order keeps
proof
  show "keeps s s" for s by (auto simp: keeps_def R_refl)
  show "keeps s u" if st: "keeps s t" and tu: "keeps t u" for s t u
    unfolding keeps_def
  proof (intro conjI allI impI)
    show "R (es_world s) (es_world u)" using that unfolding keeps_def by (blast intro: R_trans)
    fix S assume "marked p (rn_disk s) S"
    with st obtain T where T: "marked p (rn_disk t) T" "\<forall>h \<in> S - T. durable (es_world t) h" unfolding keeps_def by blast
    with tu obtain U where U: "marked p (rn_disk u) U" "\<forall>h \<in> T - U. durable (es_world u) h" unfolding keeps_def by blast
    have "R (es_world t) (es_world u)" using tu by (simp add: keeps_def)
    with T(2) U(2) have "\<forall>h \<in> S - U. durable (es_world u) h" by (blast intro: durable_mono)
    with U(1) show "\<exists>S'. marked p (rn_disk u) S' \<and> (\<forall>h \<in> S - S'. durable (es_world u) h)" by blast
  qed
qed

lemma keeps_fields: "es_world t = es_world s \<Longrightarrow> rn_disk t = rn_disk s \<Longrightarrow> keeps s t"
  by (auto simp: keeps_def R_refl)

lemma keeps_upd [simp]:
  "keeps s (s\<lparr>rn_batch := x\<rparr>)" "keeps s (s\<lparr>rn_batch_bytes := y\<rparr>)" "keeps s (s\<lparr>rn_queue := q\<rparr>)"
  "keeps s (s\<lparr>rn_timer := z\<rparr>)" "keeps s (s\<lparr>rn_tx_open := b1\<rparr>)" "keeps s (s\<lparr>rn_rx_open := b2\<rparr>)"
  "keeps s (s\<lparr>rn_safe := h1, rn_finalized := h2\<rparr>)" "keeps s (s\<lparr>rn_head := h3, rn_timestamp := u\<rparr>)"
  by (rule keeps_fields; simp)+

text \<open>An operation that also leaves the channel and the batch alone.\<close>

definition quiet :: "'w runner \<Rightarrow> 'w runner \<Rightarrow> bool" where
  "quiet s t \<longleftrightarrow> keeps s t \<and>
     same_view (\<lambda>s. (rn_queue s, rn_batch s, rn_batch_bytes s, rn_timer s, rn_tx_open s, rn_rx_open s)) s t"

sublocale quiet: run_order quiet
  by unfold_locales (auto simp: quiet_def keeps.refl same_view_def intro: keeps.trans)

lemma quietD: "quiet s t \<Longrightarrow> keeps s t"
  "quiet s t \<Longrightarrow> rn_queue t = rn_queue s \<and> rn_batch t = rn_batch s \<and> rn_batch_bytes t = rn_batch_bytes s \<and>
     rn_timer t = rn_timer s \<and> rn_tx_open t = rn_tx_open s \<and> rn_rx_open t = rn_rx_open s"
  by (simp_all add: quiet_def same_view_def)

lemma quiet_world: "R (es_world s) w \<Longrightarrow> quiet s (s\<lparr>es_world := w\<rparr>)"
  by (auto simp: quiet_def keeps_def same_view_def)

lemma quiet_sleep: "quiet s (es_sleep (rp_engine p) ms s)"
  by (simp add: es_sleep_def quiet_world R_sleep)

lemma quiet_engine: "eng_le R s t \<Longrightarrow> quiet s t" for s t :: "'w runner"
  by (cases s; cases t) (auto simp: eng_le_def quiet_def keeps_def same_view_def)

lemma quiet_on_world: "(\<And>w. R w (snd (m w))) \<Longrightarrow> preserves quiet (on_world m)"
  by (rule quiet.preservesI) (simp add: on_world_def quiet_world split: prod.split, metis quiet_world snd_conv)

lemma quiet_on_disk: "preserves (same_file (pending_path (rp_dir p))) m \<Longrightarrow> preserves quiet (on_disk m)"
proof (rule quiet.preservesI)
  fix s :: "'w runner" assume m: "preserves (same_file (pending_path (rp_dir p))) m"
  obtain r d where d: "m (rn_disk s) = (r, d)" by fastforce
  from marked_same_file [OF same_file.preservesD [OF m d]]
  show "quiet s (snd (on_disk m s))" by (auto simp: on_disk_def d quiet_def keeps_def same_view_def R_refl)
qed

lemma quiet_persist: "preserves quiet (persist_state p h)"
  unfolding persist_state_def
  by (rule quiet.preservesI, rule quiet.preserves_after [OF quiet_on_disk quiet.refl])
     (intro same_file.preserves_st_map_err state_save_same_file path_suffix_neq)

lemma quiet_mark: "preserves quiet (on_disk (st_map_err g (store_mark (rp_io p) (rp_heights_json p) (rp_dir p) h)))"
proof (rule quiet.preservesI)
  fix s :: "'w runner"
  obtain r d where d: "store_mark (rp_io p) (rp_heights_json p) (rp_dir p) h (rn_disk s) = (r, d)" by fastforce
  from store_mark_marked [OF heights_json _ d]
  show "quiet s (snd (on_disk (st_map_err g (store_mark (rp_io p) (rp_heights_json p) (rp_dir p) h)) s))"
    by (fastforce simp: on_disk_def st_map_err_def d quiet_def keeps_def same_view_def R_refl split: if_splits)
qed

lemma quiet_clear:
  assumes "durable (es_world s) h"
  shows "quiet s (clear_settled p h s)"
proof -
  obtain r d where d: "store_clear (rp_io p) (rp_heights_json p) (rp_dir p) h (rn_disk s) = (r, d)" by fastforce
  have "quiet s (s\<lparr>rn_disk := d\<rparr>)"
    using store_clear_marked [OF heights_json _ d] assms by (fastforce simp: quiet_def keeps_def same_view_def R_refl)
  then show ?thesis
    unfolding clear_settled_def Let_def
    by (intro quiet.preserves_after [OF quiet_persist]) (simp add: on_disk_def d)
qed

lemma quiet_advance: "preserves quiet (advance_finalized p h bh)"
proof (rule quiet.preservesI)
  fix s :: "'w runner"
  have f: "preserves quiet (st_map_err g (engine_finalize (rp_engine p) a b c))" for g :: "engine_error \<Rightarrow> string" and a b c
    by (intro quiet.preserves_st_map_err quiet.preservesI quiet_engine)
      (rule frame.preservesD [OF engine_finalize_le], rule prod.collapse [symmetric])
  have "preserves quiet (sbind (st_map_err g (engine_finalize (rp_engine p) a b c))
      (\<lambda>_ t. (Ok (), t\<lparr>rn_safe := bh, rn_finalized := bh\<rparr>)))" for g :: "engine_error \<Rightarrow> string" and a b c
    by (intro quiet.preserves_sbind' f quiet.preservesI) (simp add: quiet_def same_view_def)
  then show "quiet s (snd (advance_finalized p h bh s))"
    by (simp add: advance_finalized_def preserves_def)
qed

text \<open>The retry loops.\<close>

lemma quiet_publish_loop:
  "publish_loop p blocks k backoff s = Some (r, t) \<Longrightarrow>
    quiet s t \<and> (\<forall>i. r = Some i \<longrightarrow> (\<forall>b \<in> set blocks. avail (es_world t) i b))"
proof (induction k arbitrary: backoff s)
  case (Suc k)
  obtain x s1 where a: "on_world (rp_publish p blocks) s = (x, s1)" by fastforce
  have q: "quiet s s1" by (rule quiet.preservesD [OF quiet_on_world a]) (rule R_publish)
  show ?case
  proof (cases x)
    case (Inl e)
    have "quiet s (es_sleep (rp_engine p) backoff s1)" by (rule quiet.trans [OF q quiet_sleep])
    then show ?thesis
      using Suc.prems a Inl Suc.IH [of "min (backoff * 2) 10000" "es_sleep (rp_engine p) backoff s1"]
      by (auto intro: quiet.trans quiet.refl split: if_splits)
  next
    case (Inr i)
    have "rp_publish p blocks (es_world s) = (Ok i, es_world s1)"
      using a Inr by (auto simp: on_world_def split: prod.splits)
    then have "\<forall>b \<in> set blocks. avail (es_world s1) i b" by (blast intro: publish_avail)
    then show ?thesis using Suc.prems a Inr q by (auto intro: quiet.refl split: if_splits)
  qed
qed simp

lemma quiet_retry:
  assumes op: "preserves quiet op"
    and ok: "\<And>u u'. quiet s u \<Longrightarrow> op u = (Ok (), u') \<Longrightarrow> Q u'"
  shows "retry_with_backoff p op k backoff mx s = Some (r, t) \<Longrightarrow> quiet s t \<and> (r \<noteq> None \<longrightarrow> Q t)"
  using ok
proof (induction k arbitrary: backoff s)
  case (Suc k)
  obtain x s1 where a: "op s = (x, s1)" by fastforce
  note q = quiet.preservesD [OF op a]
  show ?case
  proof (cases x)
    case (Inl e)
    let ?u = "es_sleep (rp_engine p) backoff s1"
    have qu: "quiet s ?u" by (rule quiet.trans [OF q quiet_sleep])
    have "retry_with_backoff p op k (min (backoff * 2) mx) mx ?u = Some (r, t) \<Longrightarrow> quiet ?u t \<and> (r \<noteq> None \<longrightarrow> Q t)"
      by (rule Suc.IH) (blast intro: Suc.prems(2) quiet.trans [OF qu])+
    with qu show ?thesis
      using Suc.prems(1) a Inl by (auto intro: quiet.trans quiet.refl split: if_splits)
  next
    case (Inr y)
    then show ?thesis
      using Suc.prems(1) a q Suc.prems(2) [OF quiet.refl, of s1] by (auto intro: quiet.refl split: if_splits)
  qed
qed simp

lemma quiet_gate:
  "wait_inclusion_gate p tk h k backoff s = Some (r, t) \<Longrightarrow> quiet s t"
proof (induction k arbitrary: s)
  case (Suc k)
  obtain x s1 where a: "on_disk (tracker_halt_check tk h) s = (x, s1)" by fastforce
  have q: "quiet s s1" by (rule quiet.preservesD [OF quiet_on_disk a]) (rule halt_check_same_file)
  have "quiet s (es_sleep (rp_engine p) backoff s1)" by (rule quiet.trans [OF q quiet_sleep])
  with q show ?case
    using Suc.prems a Suc.IH [of "es_sleep (rp_engine p) backoff s1"]
    by (auto intro: quiet.trans quiet.refl split: if_splits sum.splits halt_check.splits)
qed simp

lemma quiet_attempt: "preserves quiet (settle_attempt p b i)"
proof -
  have w: "preserves quiet (on_world (rp_commit p b i c))" for c
    by (rule quiet_on_world) (rule R_commit)
  have "preserves quiet (\<lambda>s. case on_disk (settle_cursor tk) s of
      (Inr cursor, s1) \<Rightarrow> on_world (rp_commit p b i (Some cursor)) s1
    | (Inl _, s1) \<Rightarrow> on_world (rp_commit p b i None) s1)" for tk
  proof (rule quiet.preservesI)
    fix s :: "'w runner"
    obtain x s1 where a: "on_disk (settle_cursor tk) s = (x, s1)" by fastforce
    have "quiet s s1" by (rule quiet.preservesD [OF quiet_on_disk a]) (rule settle_cursor_same_file)
    with a show "quiet s (snd (case on_disk (settle_cursor tk) s of
      (Inr cursor, s1) \<Rightarrow> on_world (rp_commit p b i (Some cursor)) s1
    | (Inl _, s1) \<Rightarrow> on_world (rp_commit p b i None) s1))"
      by (cases x) (auto intro: quiet.preserves_after [OF w])
  qed
  with w show ?thesis
    unfolding settle_attempt_def by (intro quiet.preserves_st_map_err) (simp split: option.split)
qed

lemma attempt_settles:
  assumes "settle_attempt p b i s = (Ok (), t)"
  shows "settled (es_world t) (height (header b)) i"
proof -
  obtain u c where "on_world (rp_commit p b i c) u = (Ok (), t)"
    using assms by (auto simp: settle_attempt_def split: option.splits prod.splits sum.splits)
  then show ?thesis by (auto simp: on_world_def split: prod.splits intro: commit_settled)
qed

lemma quiet_settle_with_gate:
  assumes "settle_with_gate p k b i s = Some (r, t)"
  shows "quiet s t \<and> (r \<longrightarrow> settled (es_world t) (height (header b)) i)"
proof -
  let ?gate = "case rp_inbox p of None \<Rightarrow> Some (True, s)
    | Some tk \<Rightarrow> wait_inclusion_gate p tk (height (header b)) k 500 s"
  obtain g u where g: "?gate = Some (g, u)"
    using assms by (auto simp: settle_with_gate_def split: option.splits)
  have q: "quiet s u" using g by (auto intro: quiet.refl quiet_gate split: option.splits)
  show ?thesis
  proof (cases g)
    case False
    with assms g q show ?thesis by (simp add: settle_with_gate_def)
  next
    case True
    with assms g obtain x where x: "retry_with_backoff p (settle_attempt p b i) k 500 10000 u = Some (x, t)" and r: "r = (x \<noteq> None)"
      by (auto simp: settle_with_gate_def)
    have "quiet u t \<and> (x \<noteq> None \<longrightarrow> settled (es_world t) (height (header b)) i)"
      by (rule quiet_retry [OF quiet_attempt attempt_settles x])
    with q r show ?thesis by (blast intro: quiet.trans)
  qed
qed

lemma quiet_finalize_buffered: "quiet s (finalize_buffered_locally p bs s)"
proof (induction bs arbitrary: s)
  case (Cons b bs)
  have "quiet s (snd (advance_finalized p (pb_height b) (pb_block_hash b) s))"
    using quiet_advance by (simp add: preserves_def)
  with Cons show ?case by (auto intro: quiet.trans)
qed (simp add: quiet.refl)

text \<open>The settle loop: each marker is cleared after its block is durable, and what is left in the
  batch is a rest of it.\<close>

lemma keepsR: "keeps s t \<Longrightarrow> R (es_world s) (es_world t)"
  by (simp add: keeps_def)

lemma settle_loop_keeps:
  assumes "settle_loop p k i bs s = Some t" "heights_match bs"
    and "\<And>b. b \<in> set bs \<Longrightarrow> avail (es_world s) i (pb_block b)"
  shows "keeps s t \<and> rn_queue t = rn_queue s \<and> heights_match (rn_batch t)"
  using assms
proof (induction bs arbitrary: s)
  case Nil
  then show ?case
    by (auto intro: keeps.trans [OF keeps_upd(1) keeps_upd(2)])
next
  case (Cons b bs)
  obtain r s1 where g: "settle_with_gate p k (pb_block b) i s = Some (r, s1)"
    using Cons.prems(1) by (auto split: option.splits)
  from quiet_settle_with_gate [OF g] have q: "quiet s s1" and st: "r \<Longrightarrow> settled (es_world s1) (pb_height b) i"
    using Cons.prems(2) by auto
  have q1: "keeps s s1" "rn_queue s1 = rn_queue s" using quietD [OF q] by auto
  show ?case
  proof (cases r)
    case False
    let ?u = "s1\<lparr>rn_batch := []\<rparr>"
    have fb: "quiet ?u (finalize_buffered_locally p (b # bs) ?u)" by (rule quiet_finalize_buffered)
    have "t = finalize_buffered_locally p (b # bs) ?u\<lparr>rn_batch_bytes := 0\<rparr>"
      using Cons.prems(1) g False by (simp add: case_prod_beta)
    moreover have "keeps s (finalize_buffered_locally p (b # bs) ?u)"
      by (rule keeps.trans [OF q1(1) keeps.trans [OF keeps_upd(1) quietD(1) [OF fb]]])
    ultimately show ?thesis
      using quietD(2) [OF fb] q1(2) keeps.trans [OF _ keeps_upd(2)] by (simp add: heights_match_def)
  next
    case True
    let ?u = "s1\<lparr>rn_batch := bs\<rparr>"
    obtain x s2 where a: "advance_finalized p (pb_height b) (pb_block_hash b) ?u = (x, s2)" by fastforce
    note aq = quiet.preservesD [OF quiet_advance a]
    have k2: "keeps s s2" by (rule keeps.trans [OF q1(1) keeps.trans [OF keeps_upd(1) quietD(1) [OF aq]]])
    have R12: "R (es_world s1) (es_world s2)" using keepsR [OF quietD(1) [OF aq]] by simp
    show ?thesis
    proof (cases x)
      case (Inl e)
      then have "t = s2\<lparr>rn_batch := b # bs\<rparr>" using Cons.prems(1) g True a by simp
      then show ?thesis
        using keeps.trans [OF k2 keeps_upd(1)] quietD(2) [OF aq] q1(2) Cons.prems(2) by simp
    next
      case (Inr y)
      let ?v = "clear_settled p (pb_height b) s2"
      have rest: "settle_loop p k i bs ?v = Some t" using Cons.prems(1) g True a Inr by simp
      have "durable (es_world s2) (pb_height b)"
        unfolding durable_def
      proof (intro exI conjI)
        show "height (header (pb_block b)) = pb_height b" using Cons.prems(2) by simp
        show "avail (es_world s2) i (pb_block b)"
          by (rule avail_mono [OF keepsR [OF k2]]) (simp add: Cons.prems(3))
        show "settled (es_world s2) (pb_height b) i"
          by (rule settled_mono [OF R12]) (rule st [OF True])
      qed
      then have v: "quiet s2 ?v" by (rule quiet_clear)
      have kv: "keeps s ?v" by (rule keeps.trans [OF k2 quietD(1) [OF v]])
      have "keeps ?v t \<and> rn_queue t = rn_queue ?v \<and> heights_match (rn_batch t)"
        using Cons.prems(2) avail_mono [OF keepsR [OF kv]] Cons.prems(3)
        by (intro Cons.IH [OF rest]) auto
      then show ?thesis
        using keeps.trans [OF kv] quietD(2) [OF v] quietD(2) [OF aq] q1(2) by simp
    qed
  qed
qed

text \<open>The steps of the finalizer and of the producer.\<close>

definition safe :: "'w runner \<Rightarrow> 'w runner \<Rightarrow> bool" where
  "safe s t \<longleftrightarrow> keeps s t \<and> (well_queued s \<longrightarrow> well_queued t)"

lemma safe_quiet: "quiet s t \<Longrightarrow> safe s t"
  using quietD [of s t] by (simp add: safe_def well_queued_def)

lemma safe_trans: "safe s t \<Longrightarrow> safe t u \<Longrightarrow> safe s u"
  by (auto simp: safe_def intro: keeps.trans)

lemma safe_upd [simp]:
  "safe s (s\<lparr>rn_batch := []\<rparr>)" "safe s (s\<lparr>rn_timer := z\<rparr>)" "safe s (s\<lparr>rn_tx_open := b1\<rparr>)"
  "safe s (s\<lparr>rn_rx_open := b2\<rparr>)" "safe s (disarm_if_flushed s)"
  by (simp_all add: safe_def well_queued_def disarm_if_flushed_def keeps.refl)

lemma flush_safe:
  assumes "flush_batch p k s = Some t" "well_queued s"
  shows "safe s t"
proof (cases "rn_batch s = []")
  case True
  with assms show ?thesis by (simp add: flush_batch_def safe_def keeps.refl)
next
  case False
  then obtain r s1 where l: "publish_loop p (map pb_block (rn_batch s)) k 500 s = Some (r, s1)"
    using assms by (auto simp: flush_batch_def split: option.splits)
  from quiet_publish_loop [OF l] have q: "quiet s s1"
    and av: "\<And>i. r = Some i \<Longrightarrow> \<forall>b \<in> set (map pb_block (rn_batch s)). avail (es_world s1) i b" by auto
  note qd = quietD [OF q]
  show ?thesis
  proof (cases r)
    case None
    with assms l False q show ?thesis by (simp add: flush_batch_def safe_quiet)
  next
    case (Some i)
    have "settle_loop p k i (rn_batch s) s1 = Some t"
      using assms(1) l False Some qd(2) by (simp add: flush_batch_def)
    from settle_loop_keeps [OF this] assms(2) av [OF Some]
    have "keeps s1 t" "rn_queue t = rn_queue s1" "heights_match (rn_batch t)"
      by (auto simp: well_queued_def)
    with qd assms(2) show ?thesis by (auto simp: safe_def well_queued_def intro: keeps.trans)
  qed
qed

lemma receive_safe:
  assumes "receive_block p k b s = Some t" "well_queued s" "height (header (pb_block b)) = pb_height b"
  shows "safe s t"
proof -
  let ?s1 = "if rn_batch s = [] then s\<lparr>rn_timer := timer_arm (ep_now (rp_engine p) (es_world s)) (rn_timer s)\<rparr> else s"
  let ?s2 = "?s1\<lparr>rn_batch_bytes := saturating_add (rn_batch_bytes ?s1) (vec_len (data (pb_block b))),
                rn_batch := rn_batch ?s1 @ [b]\<rparr>"
  have "keeps s ?s2" by (rule keeps_fields) simp_all
  then have s2: "safe s ?s2" "well_queued ?s2"
    using assms(2,3) by (auto simp: safe_def well_queued_def)
  show ?thesis
  proof (cases "rn_batch_bytes ?s2 \<ge> rp_da_batch_size p")
    case True
    then obtain u where u: "flush_batch p k ?s2 = Some u" and t: "t = disarm_if_flushed u"
      using assms(1) unfolding receive_block_def Let_def by auto
    show ?thesis unfolding t by (rule safe_trans [OF safe_trans [OF s2(1) flush_safe [OF u s2(2)]] safe_upd(5)])
  next
    case False
    then have "t = ?s2" using assms(1) unfolding receive_block_def Let_def by auto
    with s2(1) show ?thesis by simp
  qed
qed

lemma take_batch_safe: "safe s ((take_batch p s)\<lparr>rn_rx_open := False\<rparr>)"
  unfolding take_batch_def
  by (rule safe_trans [OF safe_trans [OF safe_upd(1) safe_quiet [OF quiet_finalize_buffered]] safe_upd(4)])

lemma turn_safe:
  assumes "finalizer_turn p k s = Some t" "well_queued s"
  shows "safe s t"
  using assms(1)
proof (cases rule: finalizer_turn_cases)
    case stop
    then show ?thesis by (simp add: take_batch_safe)
  next
    case (timer u)
    show ?thesis unfolding timer(2) by (rule safe_trans [OF flush_safe [OF timer(1) assms(2)] safe_upd(5)])
  next
    case (receive b q)
    have k: "keeps s (s\<lparr>rn_queue := q\<rparr>)" by simp
    from receive(1) assms(2) have wq: "well_queued (s\<lparr>rn_queue := q\<rparr>)" and h: "height (header (pb_block b)) = pb_height b"
      by (auto simp: well_queued_def)
    from receive_safe [OF receive(2) wq h] wq show ?thesis
      unfolding safe_def by (blast intro: keeps.trans [OF k])
  next
    case wait
    then show ?thesis by (simp add: safe_def keeps.refl)
  next
    case (drain u)
    have "well_queued (s\<lparr>rn_timer := timer_disarm (rn_timer s)\<rparr>)" using assms(2) by (simp add: well_queued_def)
    from flush_safe [OF drain(1) this] show ?thesis
      unfolding drain(2) by (rule safe_trans [OF safe_trans [OF safe_upd(2)] take_batch_safe])
qed

lemma quiet_upd_head: "quiet s (s\<lparr>rn_head := h3, rn_timestamp := u\<rparr>)"
  by (simp add: quiet_def same_view_def)

lemma broadcast_quiet: "quiet s (broadcast_block p b h s)"
  unfolding broadcast_block_def Let_def
  by (cases "rp_broadcast p") (auto intro: quiet.refl quiet_world R_broadcast)

text \<open>The producer also leaves batch and timer alone.\<close>

definition steady :: "'w runner \<Rightarrow> 'w runner \<Rightarrow> bool" where
  "steady s t \<longleftrightarrow> safe s t \<and> same_view (\<lambda>s. (rn_batch s, rn_batch_bytes s, rn_timer s, rn_rx_open s)) s t"

lemma steady_quiet: "quiet s t \<Longrightarrow> steady s t"
  using quietD(2) [of s t] safe_quiet by (simp add: steady_def same_view_def)

lemma steady_trans: "steady s t \<Longrightarrow> steady t u \<Longrightarrow> steady s u"
  by (auto simp: steady_def same_view_def intro: safe_trans)

lemma steady_refl: "steady s s" by (rule steady_quiet [OF quiet.refl])

lemma tx_send_steady: "height (header (pb_block b)) = pb_height b \<Longrightarrow> steady s (tx_send b s)"
  by (auto simp: steady_def same_view_def safe_def tx_send_def well_queued_def keeps.refl)

lemma publish_built_steady:
  assumes "publish_built p built s = (r, t)"
  shows "steady s t"
  using assms unfolding publish_built_def
proof (cases rule: sbindE)
  case (err e)
  then show ?thesis by (auto simp: steady_refl)
next
  case (ok b0 s0)
  then have s0: "s0 = s" and b0: "payload_into_block (rp_enc_payload p) built = Ok b0" by auto
  from ok(2) show ?thesis
  proof (cases rule: sbindE)
    case (err e)
    then show ?thesis by (auto simp: s0 steady_refl)
  next
    case (ok sg s1)
    let ?b = "b0\<lparr>signature := Some sg\<rparr>"
    have s1: "s1 = s" using ok(1) s0 by simp
    have h: "height (header ?b) = bp_height built" using payload_block_height [OF b0] by simp
    from ok(2) show ?thesis unfolding Let_def s1
    proof (cases rule: sbindE)
      case (err e)
      then show ?thesis
        by (intro steady_quiet quiet.preservesD [OF quiet_on_disk])
          (auto intro!: same_file.preserves_st_map_err block_put_same_file)
    next
      case (ok x s2)
      have q2: "quiet s s2"
        by (rule quiet.preservesD [OF quiet_on_disk ok(1)])
          (auto intro!: same_file.preserves_st_map_err block_put_same_file)
      let ?obs = "observe_block_inclusions (rp_inbox p) (pl_transactions (bp_payload built)) (bp_height built) (rn_disk s2)"
      have "same_file (pending_path (rp_dir p)) (rn_disk s2) ?obs"
        by (rule observe_same_file) (simp add: tracker_dir)
      from marked_same_file [OF this] have q3: "quiet s2 (s2\<lparr>rn_disk := ?obs\<rparr>)"
        by (auto simp: quiet_def keeps_def same_view_def R_refl)
      note q23 = quiet.trans [OF q2 q3]
      from ok(2) show ?thesis
      proof (cases rule: sbindE)
        case (err e)
        show ?thesis by (rule steady_quiet [OF quiet.trans [OF q23 quiet.preservesD [OF quiet_mark err(1)]]])
      next
        case (ok y s4)
        note q4 = quiet.trans [OF q23 quiet.preservesD [OF quiet_mark ok(1)]]
        from ok(2) show ?thesis
        proof (cases rule: sbindE)
          case (err e)
          show ?thesis by (rule steady_quiet [OF quiet.trans [OF q4 quiet.preservesD [OF quiet_persist err(1)]]])
        next
          case (ok z s5)
          note q5 = quiet.trans [OF q4 quiet.preservesD [OF quiet_persist ok(1)]]
          from ok(2) have "t = tx_send \<lparr>pb_block = ?b, pb_block_hash = bp_block_hash built, pb_height = bp_height built\<rparr>
              (broadcast_block p ?b (bp_height built) s5)" by simp
          then show ?thesis
            using steady_trans [OF steady_quiet [OF quiet.trans [OF q5 broadcast_quiet]] tx_send_steady] h by simp
        qed
      qed
    qed
  qed
qed

lemma produce_steady:
  assumes "produce_block p s = (r, t)"
  shows "steady s t"
  using assms unfolding produce_block_def
proof (cases rule: sbindE)
  case (err e)
  then show ?thesis
    by (auto simp: st_map_err_Err_iff dest!: frame.preservesD [OF engine_build_le] intro!: steady_quiet quiet_engine)
next
  case (ok built s1)
  have q1: "quiet s s1" using ok(1) by (auto intro: quiet_engine frame.preservesD [OF engine_build_le])
  from ok(2) show ?thesis
  proof (cases rule: sbindE)
    case (err e)
    then have "quiet s1 t"
      by (auto simp: st_map_err_Err_iff dest!: frame.preservesD [OF engine_accept_le] intro!: quiet_engine)
    with q1 show ?thesis by (blast intro: steady_quiet quiet.trans)
  next
    case (ok x s2)
    then have "quiet s1 s2" by (auto intro: quiet_engine frame.preservesD [OF engine_accept_le])
    with q1 have "quiet s s2" by (rule quiet.trans)
    from quiet.trans [OF this quiet_upd_head] have "steady s (s2\<lparr>rn_head := bp_block_hash built, rn_timestamp := next_timestamp p s\<rparr>)"
      by (rule steady_quiet)
    with publish_built_steady [OF ok(2)] show ?thesis by (blast intro: steady_trans)
  qed
qed

lemma run_safe:
  assumes "runner_run p R s t" "well_queued s"
  shows "safe s t"
  using assms(1)
proof (induction rule: runner_run.induct)
  case start
  show ?case by (simp add: safe_def keeps.refl)
next
  case (produce t)
  from produce_steady [OF prod.collapse [symmetric], of t] have "safe t (snd (produce_block p t))" by (simp add: steady_def)
  from safe_trans [OF produce.IH this] show ?case .
next
  case (finalize t k u)
  then have "well_queued t" using assms(2) by (simp add: safe_def)
  from safe_trans [OF finalize.IH turn_safe [OF finalize.hyps(3) this]] show ?case .
next
  case (poll t tk l2 n gauge budget out r b d)
  have "same_file (pending_path (rp_dir p)) (rn_disk t) d"
    by (rule poll_pass_same_file [OF _ _ poll.hyps(3)]) (simp_all add: tracker_dir [OF poll.hyps(2)])
  from marked_same_file [OF this] have "quiet t (t\<lparr>rn_disk := d\<rparr>)"
    by (auto simp: quiet_def keeps_def same_view_def R_refl)
  from safe_trans [OF poll.IH safe_quiet [OF this]] show ?case .
next
  case (stop t)
  from safe_trans [OF stop.IH safe_upd(3)] show ?case .
next
  case (outside t w)
  from safe_trans [OF outside.IH safe_quiet [OF quiet_world [OF outside.hyps(2)]]] show ?case .
qed

text \<open>A marker that disappears belongs to a durable block.\<close>

lemma run_markers:
  assumes "runner_run p R s t" "well_queued s" "marked p (rn_disk s) S"
  shows "\<exists>S'. marked p (rn_disk t) S' \<and> (\<forall>h \<in> S - S'. durable (es_world t) h)"
  using run_safe [OF assms(1,2)] assms(3) unfolding safe_def keeps_def by blast

text \<open>What a flush leaves in the batch: a rest of it, with the byte count untouched or, when nothing is
  left, cleared.\<close>

lemma clear_settled_fields:
  "rn_queue (clear_settled p h s) = rn_queue s \<and> rn_batch (clear_settled p h s) = rn_batch s \<and>
   rn_batch_bytes (clear_settled p h s) = rn_batch_bytes s \<and> rn_timer (clear_settled p h s) = rn_timer s \<and>
   rn_tx_open (clear_settled p h s) = rn_tx_open s \<and> rn_rx_open (clear_settled p h s) = rn_rx_open s"
  by (simp add: clear_settled_def persist_state_def on_disk_def Let_def split: prod.split)

lemma settle_loop_batch:
  assumes "settle_loop p k i bs s = Some t"
  shows "rn_timer t = rn_timer s \<and> rn_rx_open t = rn_rx_open s \<and>
    (\<exists>n. rn_batch t = drop n bs) \<and> (rn_batch t = [] \<or> rn_batch_bytes t = rn_batch_bytes s)"
  using assms
proof (induction bs arbitrary: s)
  case (Cons b bs)
  obtain r s1 where g: "settle_with_gate p k (pb_block b) i s = Some (r, s1)"
    using Cons.prems by (auto split: option.splits)
  note q = quietD(2) [OF conjunct1 [OF quiet_settle_with_gate [OF g]]]
  show ?case
  proof (cases r)
    case False
    let ?u = "s1\<lparr>rn_batch := []\<rparr>"
    have "quiet ?u (finalize_buffered_locally p (b # bs) ?u)" by (rule quiet_finalize_buffered)
    moreover have "t = finalize_buffered_locally p (b # bs) ?u\<lparr>rn_batch_bytes := 0\<rparr>"
      using Cons.prems g False by (simp add: case_prod_beta)
    ultimately show ?thesis using q by (auto dest!: quietD(2) intro: exI [of _ "length (b # bs)"])
  next
    case True
    let ?u = "s1\<lparr>rn_batch := bs\<rparr>"
    obtain x s2 where a: "advance_finalized p (pb_height b) (pb_block_hash b) ?u = (x, s2)" by fastforce
    note aq = quietD(2) [OF quiet.preservesD [OF quiet_advance a]]
    show ?thesis
    proof (cases x)
      case (Inl e)
      then have "t = s2\<lparr>rn_batch := b # bs\<rparr>" using Cons.prems g True a by simp
      then show ?thesis using q aq by (auto intro: exI [of _ 0])
    next
      case (Inr y)
      have "settle_loop p k i bs (clear_settled p (pb_height b) s2) = Some t"
        using Cons.prems g True a Inr by simp
      from Cons.IH [OF this] obtain n where n: "rn_batch t = drop n bs" "rn_batch t = [] \<or> rn_batch_bytes t = rn_batch_bytes s"
        "rn_timer t = rn_timer s \<and> rn_rx_open t = rn_rx_open s"
        using q aq clear_settled_fields [of "pb_height b" s2] by auto
      have "rn_batch t = drop (Suc n) (b # bs)" by (simp add: n(1))
      with n(2,3) show ?thesis by blast
    qed
  qed
qed auto

lemma flush_batch_batch:
  assumes "flush_batch p k s = Some t"
  shows "rn_timer t = rn_timer s \<and> rn_rx_open t = rn_rx_open s \<and>
    (\<exists>n. rn_batch t = drop n (rn_batch s)) \<and> (rn_batch t = [] \<or> rn_batch_bytes t = rn_batch_bytes s)"
proof (cases "rn_batch s = []")
  case True
  with assms show ?thesis by (simp add: flush_batch_def)
next
  case False
  then obtain r s1 where l: "publish_loop p (map pb_block (rn_batch s)) k 500 s = Some (r, s1)"
    using assms by (auto simp: flush_batch_def split: option.splits)
  note q = quietD(2) [OF conjunct1 [OF quiet_publish_loop [OF l]]]
  show ?thesis
  proof (cases r)
    case None
    with assms l False q show ?thesis by (auto simp: flush_batch_def intro: exI [of _ 0])
  next
    case (Some i)
    then have "settle_loop p k i (rn_batch s1) s1 = Some t" using assms l False by (simp add: flush_batch_def)
    from settle_loop_batch [OF this] q show ?thesis by simp
  qed
qed

lemma turn_batch_ok:
  assumes "finalizer_turn p k s = Some t" "batch_ok s"
  shows "batch_ok t"
  using assms(1)
proof (cases rule: finalizer_turn_cases)
  case stop
  have "quiet (s\<lparr>rn_batch := []\<rparr>) (take_batch p s)" unfolding take_batch_def by (rule quiet_finalize_buffered)
  from quietD(2) [OF this] show ?thesis by (simp add: stop batch_ok_def)
next
  case (timer u)
  show ?thesis unfolding timer(2) by (rule disarm_batch_ok [OF flush_batch_batch [OF timer(1)] assms(2)])
next
  case (receive b q)
  let ?s = "s\<lparr>rn_queue := q\<rparr>"
  let ?s1 = "if rn_batch ?s = [] then ?s\<lparr>rn_timer := timer_arm (ep_now (rp_engine p) (es_world ?s)) (rn_timer ?s)\<rparr> else ?s"
  let ?s2 = "?s1\<lparr>rn_batch_bytes := saturating_add (rn_batch_bytes ?s1) (vec_len (data (pb_block b))),
                rn_batch := rn_batch ?s1 @ [b]\<rparr>"
  have ok: "batch_ok ?s2" by (rule append_batch_ok [OF _ HOL.refl]) (use assms(2) in \<open>simp add: batch_ok_def\<close>)
  have "(if rn_batch_bytes ?s2 \<ge> rp_da_batch_size p then map_option disarm_if_flushed (flush_batch p k ?s2) else Some ?s2) = Some t"
    using receive(2) unfolding receive_block_def Let_def .
  then consider u where "flush_batch p k ?s2 = Some u" "t = disarm_if_flushed u" | "t = ?s2"
    by (cases "rn_batch_bytes ?s2 \<ge> rp_da_batch_size p") (simp_all del: runner.simps, blast)
  then show ?thesis
  proof cases
    case (1 u)
    show ?thesis unfolding 1(2) by (rule disarm_batch_ok [OF flush_batch_batch [OF 1(1)] ok])
  next
    case 2
    with ok show ?thesis by simp
  qed
next
  case wait
  with assms(2) show ?thesis by simp
next
  case (drain u)
  have "quiet (u\<lparr>rn_batch := []\<rparr>) (take_batch p u)" unfolding take_batch_def by (rule quiet_finalize_buffered)
  from quietD(2) [OF this] show ?thesis by (simp add: drain batch_ok_def)
qed

lemma run_batch_ok:
  assumes "runner_run p R s t" "batch_ok s"
  shows "batch_ok t"
  using assms(1)
proof (induction rule: runner_run.induct)
  case (produce t)
  from produce_steady [OF prod.collapse [symmetric], of t] produce.IH show ?case
    by (simp add: steady_def same_view_def batch_ok_def)
next
  case (finalize t k u)
  from turn_batch_ok [OF finalize.hyps(3) finalize.IH] show ?case .
qed (use assms(2) in \<open>auto simp: batch_ok_def\<close>)

end

end
