(* ===== verification/Runner_Storage.thy ===== *)
theory Runner_Storage
  imports Runner_Safety
begin

text \<open>
  What the sequencer finds on disk after a restart and what it leaves there when it produces a
  block: recovery of the pending heights, durability of a produced block.
\<close>

section \<open>Stored blocks\<close>

lemma block_path_neq [simp]:
  "block_path dir h \<noteq> pending_path dir" "block_path dir h \<noteq> pending_tmp dir" "block_path dir h \<noteq> state_path dir"
  "block_path dir h \<noteq> state_tmp dir" "block_path dir h \<noteq> inbox_path dir" "block_path dir h \<noteq> inbox_tmp dir"
  by (simp_all add: pending_path_def pending_tmp_def state_path_def state_tmp_def block_path_def inbox_path_def inbox_tmp_def)

fun file_bytes :: "fdata \<Rightarrow> byte list" where
  "file_bytes (Bytes bs) = bs"
| "file_bytes (Text t) = map of_char t"

definition stored_block :: "'w runner_port \<Rightarrow> disk \<Rightarrow> u64 \<Rightarrow> block option" where
  "stored_block p d h =
     (case files d (block_path (rp_dir p) h) of
        None \<Rightarrow> None
      | Some f \<Rightarrow> (case rp_block_from_bytes p (file_bytes f) of Inl _ \<Rightarrow> None | Inr b \<Rightarrow> Some b))"

lemma stored_block_same:
  "same_file (block_path (rp_dir p) h) d d' \<Longrightarrow> stored_block p d' h = stored_block p d h"
  by (simp add: stored_block_def same_file_def)

lemma block_get_stored:
  "block_get io (rp_block_from_bytes p) (rp_dir p) h d = (r, d') \<Longrightarrow>
    files d' = files d \<and> (\<forall>b. r = Ok b \<longrightarrow> stored_block p d h = Some b)"
  by (auto simp: block_get_def fs_exists_def fs_read_def sbind_def slift_def stored_block_def
      split: if_splits option.splits prod.splits sum.splits fdata.splits)

lemma block_get_no_fault:
  assumes "\<And>n. io n = None"
  shows "\<exists>d'. block_get io (rp_block_from_bytes p) (rp_dir p) h d =
    (case stored_block p d h of Some b \<Rightarrow> Ok b | None \<Rightarrow> fst (block_get io (rp_block_from_bytes p) (rp_dir p) h d), d')
    \<and> (stored_block p d h = None \<longrightarrow> (\<exists>e. fst (block_get io (rp_block_from_bytes p) (rp_dir p) h d) = Err e))"
  using assms
  by (auto simp: block_get_def fs_exists_def fs_read_def sbind_def slift_def stored_block_def
      split: option.splits sum.splits fdata.splits)

lemma store_clear_same_block:
  "preserves (same_file (block_path dir h')) (store_clear io j dir h)"
  unfolding store_clear_def pending_mutate_def pending_load_raw_def pending_save_raw_def
  by (intro same_file.preserves_sbind' same_file.preserves_sreturn load_json_same_file save_json_same_file block_path_neq)

section \<open>Recovery\<close>

text \<open>The queue entry a pending height comes back as: its block must be readable and carry a
  decodable payload.\<close>

definition requeue :: "'w runner_port \<Rightarrow> disk \<Rightarrow> u64 \<Rightarrow> pending_block option" where
  "requeue p d h =
     (case stored_block p d h of
        None \<Rightarrow> None
      | Some b \<Rightarrow>
          (case decode_block_hash p (data b) of
             Inl _ \<Rightarrow> None
           | Inr x \<Rightarrow> Some \<lparr>pb_block = b, pb_block_hash = x, pb_height = h\<rparr>))"

definition clear_marker :: "'w runner_port \<Rightarrow> u64 \<Rightarrow> 'w runner \<Rightarrow> 'w runner" where
  "clear_marker p h s = snd (on_disk (store_clear (rp_io p) (rp_heights_json p) (rp_dir p) h) s)"

lemma clear_marker_simps [simp]:
  "rn_queue (clear_marker p h s) = rn_queue s" "rn_rx_open (clear_marker p h s) = rn_rx_open s"
  "rn_batch (clear_marker p h s) = rn_batch s"
  by (simp_all add: clear_marker_def on_disk_def split: prod.split)

lemma clear_marker_stored [simp]: "stored_block p (rn_disk (clear_marker p h s)) = stored_block p (rn_disk s)"
proof
  fix h'
  have "same_file (block_path (rp_dir p) h') (rn_disk s) (rn_disk (clear_marker p h s))"
    using store_clear_same_block [of "rp_dir p" h'] by (simp add: clear_marker_def on_disk_def preserves_def split: prod.split) (metis snd_conv)
  then show "stored_block p (rn_disk (clear_marker p h s)) h' = stored_block p (rn_disk s) h'"
    by (rule stored_block_same)
qed

lemma clear_marker_marked:
  assumes "json_ok (rp_heights_json p)" "marked p (rn_disk s) S"
  shows "marked p (rn_disk (clear_marker p h s)) S \<or> marked p (rn_disk (clear_marker p h s)) (S - {h})"
  using store_clear_marked [OF assms] by (simp add: clear_marker_def on_disk_def split: prod.split)

lemma recover_heights_Cons:
  "recover_heights p (h # hs) s =
     (case on_disk (block_get (rp_io p) (rp_block_from_bytes p) (rp_dir p) h) s of
        (Inl _, s1) \<Rightarrow> recover_heights p hs (clear_marker p h s1)
      | (Inr b, s1) \<Rightarrow>
          (case decode_block_hash p (data b) of
             Inl _ \<Rightarrow> recover_heights p hs (clear_marker p h s1)
           | Inr x \<Rightarrow> recover_heights p hs (tx_send \<lparr>pb_block = b, pb_block_hash = x, pb_height = h\<rparr> s1)))"
  by (auto simp: clear_marker_def Let_def split: prod.split sum.split)

declare recover_heights.simps(2) [simp del]

text \<open>One height of the recovery, by what happens to it.\<close>

lemma recover_step:
  obtains (lost) d where "files d = files (rn_disk s)" "recover_heights p (h # hs) s = recover_heights p hs (clear_marker p h (s\<lparr>rn_disk := d\<rparr>))"
      "(\<forall>n. rp_io p n = None) \<Longrightarrow> requeue p (rn_disk s) h = None"
    | (queued) b d where "files d = files (rn_disk s)" "requeue p (rn_disk s) h = Some b" "pb_height b = h"
      "stored_block p (rn_disk s) h = Some (pb_block b)"
      "recover_heights p (h # hs) s = recover_heights p hs (tx_send b (s\<lparr>rn_disk := d\<rparr>))"
proof -
  obtain r d where g: "block_get (rp_io p) (rp_block_from_bytes p) (rp_dir p) h (rn_disk s) = (r, d)" by fastforce
  note st = block_get_stored [OF g]
  show ?thesis
  proof (cases r)
    case (Inl e)
    have "requeue p (rn_disk s) h = None" if "\<forall>n. rp_io p n = None"
      using block_get_no_fault [of "rp_io p" p h "rn_disk s"] that g Inl
      by (auto simp: requeue_def split: option.splits)
    then show ?thesis using lost [of d] st g Inl by (simp add: recover_heights_Cons on_disk_def)
  next
    case (Inr b)
    then have sb: "stored_block p (rn_disk s) h = Some b" using st by simp
    show ?thesis
    proof (cases "decode_block_hash p (data b)")
      case (Inl e)
      then show ?thesis using lost [of d] st g Inr sb by (simp add: recover_heights_Cons on_disk_def requeue_def)
    next
      case (Inr x)
      then show ?thesis
        using queued [of d "\<lparr>pb_block = b, pb_block_hash = x, pb_height = h\<rparr>"] st g \<open>r = Ok b\<close> sb
        by (simp add: recover_heights_Cons on_disk_def requeue_def)
    qed
  qed
qed

lemma stored_block_files: "files d = files d' \<Longrightarrow> stored_block p d = stored_block p d'"
  by (auto simp: stored_block_def)

lemma requeue_stored: "stored_block p d = stored_block p d' \<Longrightarrow> requeue p d = requeue p d'"
  by (auto simp: requeue_def)

lemma tx_send_simps [simp]:
  "rn_disk (tx_send b s) = rn_disk s" "rn_rx_open (tx_send b s) = rn_rx_open s" "rn_batch (tx_send b s) = rn_batch s"
  by (simp_all add: tx_send_def)

lemma recover_heights_queue:
  assumes "\<And>n. rp_io p n = None" "rn_rx_open s"
  shows "rn_queue (recover_heights p hs s) = rn_queue s @ List.map_filter (requeue p (rn_disk s)) hs"
  using assms(2)
proof (induction hs arbitrary: s)
  case (Cons h hs)
  show ?case
  proof (cases rule: recover_step [of s p h hs])
    case (lost d)
    have "requeue p (rn_disk (clear_marker p h (s\<lparr>rn_disk := d\<rparr>))) = requeue p (rn_disk s)"
      by (rule requeue_stored) (simp add: stored_block_files [OF lost(1)])
    moreover have "requeue p (rn_disk s) h = None" using lost(3) assms(1) by simp
    ultimately show ?thesis
      using Cons.IH [of "clear_marker p h (s\<lparr>rn_disk := d\<rparr>)"] Cons.prems lost(2) by (simp add: map_filter_simps)
  next
    case (queued b d)
    have "requeue p d = requeue p (rn_disk s)"
      by (rule requeue_stored) (simp add: stored_block_files [OF queued(1)])
    then show ?thesis
      using Cons.IH [of "tx_send b (s\<lparr>rn_disk := d\<rparr>)"] Cons.prems queued by (simp add: map_filter_simps tx_send_def)
  qed
qed (simp add: map_filter_simps)

lemma recover_heights_marked:
  assumes "json_ok (rp_heights_json p)" "\<And>n. rp_io p n = None" "marked p (rn_disk s) S"
  shows "\<exists>S'. marked p (rn_disk (recover_heights p hs s)) S' \<and>
    {h \<in> S. requeue p (rn_disk s) h \<noteq> None} \<subseteq> S' \<and> S' \<subseteq> S"
  using assms(3)
proof (induction hs arbitrary: s S)
  case (Cons h hs)
  show ?case
  proof (cases rule: recover_step [of s p h hs])
    case (lost d)
    let ?u = "clear_marker p h (s\<lparr>rn_disk := d\<rparr>)"
    have rq: "requeue p (rn_disk ?u) = requeue p (rn_disk s)"
      by (rule requeue_stored) (simp add: stored_block_files [OF lost(1)])
    have "marked p d S" using Cons.prems lost(1) by (simp add: marked_def pending_set_def holds_def)
    then obtain T where T: "marked p (rn_disk ?u) T" "T = S \<or> T = S - {h}"
      using clear_marker_marked [OF assms(1), of "s\<lparr>rn_disk := d\<rparr>" S h] by auto
    from Cons.IH [OF T(1)] obtain S' where "marked p (rn_disk (recover_heights p hs ?u)) S'"
      "{h \<in> T. requeue p (rn_disk s) h \<noteq> None} \<subseteq> S'" "S' \<subseteq> T" unfolding rq by blast
    moreover have "requeue p (rn_disk s) h = None" using lost(3) assms(2) by simp
    ultimately show ?thesis unfolding lost(2) using T(2) by (intro exI [of _ S']) auto
  next
    case (queued b d)
    let ?u = "tx_send b (s\<lparr>rn_disk := d\<rparr>)"
    have rq: "requeue p (rn_disk ?u) = requeue p (rn_disk s)"
      by (rule requeue_stored) (simp add: stored_block_files [OF queued(1)])
    have "marked p (rn_disk ?u) S" using Cons.prems queued(1) by (simp add: marked_def pending_set_def holds_def)
    from Cons.IH [OF this] show ?thesis unfolding rq queued(5) .
  qed
qed auto

lemma recover_pending_heights:
  assumes "\<And>n. rp_io p n = None" "marked p (rn_disk s) S"
  obtains d where "files d = files (rn_disk s)"
    "recover_pending p s = recover_heights p (sorted_list_of_set S) (s\<lparr>rn_disk := d\<rparr>)"
proof -
  from assms(2) obtain hs0 where h0: "holds (rp_heights_json p) [] (pending_path (rp_dir p)) (rn_disk s) hs0" "set hs0 = S"
    by (auto simp: marked_def pending_set_def)
  from load_json_holds [where io = "rp_io p", OF assms(1) h0(1)] obtain d where
    "load_json (rp_io p) (rp_heights_json p) [] (pending_path (rp_dir p)) (rn_disk s) = (Ok hs0, d)" by blast
  then have l: "store_pending (rp_io p) (rp_heights_json p) (rp_dir p) (rn_disk s) = (Ok (remdups_adj (sort hs0)), d)"
    by (simp add: store_pending_def pending_load_raw_def sbind_def sreturn_def)
  from pending_load_raw_Ok [OF l [unfolded store_pending_def] assms(2) [unfolded marked_def]]
  have "files d = files (rn_disk s)" by simp
  moreover have "remdups_adj (sort hs0) = sorted_list_of_set S" using h0(2) by (simp add: remdups_adj_sort)
  with l have "recover_pending p s = recover_heights p (sorted_list_of_set S) (s\<lparr>rn_disk := d\<rparr>)"
    by (simp add: recover_pending_def on_disk_def)
  ultimately show ?thesis by (rule that)
qed

text \<open>
  C14: crash recovery re-queues every pending block that is still there. Over a working disk, recovery
  appends to the finalizer's queue, in ascending order, exactly the pending heights whose block
  file reads back with a decodable payload, each with the hash of its payload, and keeps all of
  their markers; only markers of the other heights may go.
\<close>

theorem recovery_requeues_pending:
  assumes "\<And>n. rp_io p n = None" "json_ok (rp_heights_json p)" "marked p (rn_disk s) S" "rn_rx_open s"
  shows "rn_queue (recover_pending p s) = rn_queue s @ List.map_filter (requeue p (rn_disk s)) (sorted_list_of_set S) \<and>
    (\<exists>S'. marked p (rn_disk (recover_pending p s)) S' \<and> {h \<in> S. requeue p (rn_disk s) h \<noteq> None} \<subseteq> S' \<and> S' \<subseteq> S)"
proof -
  obtain d where d: "files d = files (rn_disk s)"
    and rec: "recover_pending p s = recover_heights p (sorted_list_of_set S) (s\<lparr>rn_disk := d\<rparr>)"
    using recover_pending_heights [where p = p, OF assms(1,3)] .
  have rq: "requeue p d = requeue p (rn_disk s)" by (rule requeue_stored [OF stored_block_files [OF d]])
  have m: "marked p (rn_disk (s\<lparr>rn_disk := d\<rparr>)) S" using assms(3) d by (simp add: marked_def pending_set_def holds_def)
  show ?thesis
    unfolding rec using recover_heights_queue [where p = p, OF assms(1), of "s\<lparr>rn_disk := d\<rparr>" "sorted_list_of_set S"]
      recover_heights_marked [where p = p, OF assms(2,1) m, of "sorted_list_of_set S"] assms(4) by (simp add: rq)
qed

section \<open>A process that starts well\<close>

text \<open>Every stored block lies under the height of its header.\<close>

definition files_ok :: "'w runner_port \<Rightarrow> disk \<Rightarrow> bool" where
  "files_ok p d \<longleftrightarrow> (\<forall>h b. stored_block p d h = Some b \<longrightarrow> height (header b) = h)"

lemma recover_heights_matched:
  assumes "files_ok p (rn_disk s)" "heights_match (rn_queue s)"
  shows "heights_match (rn_queue (recover_heights p hs s)) \<and> rn_batch (recover_heights p hs s) = rn_batch s \<and>
    rn_batch_bytes (recover_heights p hs s) = rn_batch_bytes s \<and> rn_timer (recover_heights p hs s) = rn_timer s"
  using assms
proof (induction hs arbitrary: s)
  case (Cons h hs)
  show ?case
  proof (cases rule: recover_step [of s p h hs])
    case (lost d)
    let ?u = "clear_marker p h (s\<lparr>rn_disk := d\<rparr>)"
    have "files_ok p (rn_disk ?u)"
      using Cons.prems(1) by (simp add: files_ok_def stored_block_files [OF lost(1)])
    from Cons.IH [OF this] Cons.prems(2) show ?thesis
      unfolding lost(2) by (simp add: clear_marker_def on_disk_def split: prod.split)
  next
    case (queued b d)
    let ?u = "tx_send b (s\<lparr>rn_disk := d\<rparr>)"
    have "files_ok p (rn_disk ?u)"
      using Cons.prems(1) by (simp add: files_ok_def stored_block_files [OF queued(1)])
    moreover have "heights_match (rn_queue ?u)"
      using Cons.prems queued(3,4) by (auto simp: tx_send_def files_ok_def)
    ultimately show ?thesis using Cons.IH [of ?u] unfolding queued(5) by (simp add: tx_send_def)
  qed
qed simp

lemma recover_pending_matched:
  assumes "files_ok p (rn_disk s)" "heights_match (rn_queue s)"
  shows "heights_match (rn_queue (recover_pending p s)) \<and> rn_batch (recover_pending p s) = rn_batch s \<and>
    rn_batch_bytes (recover_pending p s) = rn_batch_bytes s \<and> rn_timer (recover_pending p s) = rn_timer s"
proof -
  obtain r d where l: "store_pending (rp_io p) (rp_heights_json p) (rp_dir p) (rn_disk s) = (r, d)" by fastforce
  have "files d = files (rn_disk s)"
    using l by (auto simp: store_pending_def pending_load_raw_def sreturn_def dest: load_json_same elim!: sbind_cases)
  from stored_block_files [OF this, of p] assms(1) have "files_ok p d" by (simp add: files_ok_def)
  with recover_heights_matched [of p "s\<lparr>rn_disk := d\<rparr>"] assms(2) show ?thesis
    using l by (auto simp: recover_pending_def on_disk_def split: sum.split)
qed

lemma store_init_files: "store_init io dir d = (r, d') \<Longrightarrow> files d' = files d"
  by (auto simp: store_init_def fs_create_dir_all_def split: option.splits)

lemma start_well_queued:
  assumes "runner_start p fuel (fresh_runner p i w d) = Some (Ok (), s)" "files_ok p d"
  shows "well_queued s \<and> batch_ok s"
proof -
  obtain r1 d1 where i1: "store_init (rp_io p) (rp_dir p) d = (r1, d1)" by fastforce
  obtain r2 d2 where i2: "state_load (rp_io p) (rp_state_json p) (rp_dir p) d1 = (r2, d2)" by fastforce
  have fl: "files d2 = files d" using store_init_files [OF i1] state_load_files [OF i2] by simp
  from stored_block_files [OF this, of p] assms(2) have fo: "files_ok p d2" by (simp add: files_ok_def)
  let ?s2 = "(fresh_runner p i w d)\<lparr>rn_disk := d2\<rparr>"
  have "\<exists>u. s = recover_pending p u \<and> rn_disk u = d2 \<and> rn_queue u = [] \<and> rn_batch u = [] \<and>
      rn_timer u = timer_new (rp_flush_after p)"
  proof (cases "rp_genesis_hash p")
    case (Some g)
    then show ?thesis
      using assms(1) i1 i2
      by (fastforce simp: runner_start_def on_disk_def fresh_runner_def with_pointers_def Let_def
          split: sum.splits option.splits)
  next
    case None
    show ?thesis
    proof (cases r2)
      case (Inr st)
      show ?thesis
      proof (cases st)
        case None
        with assms(1) i1 i2 Inr \<open>rp_genesis_hash p = None\<close> obtain h n s3 where
          c: "current_head_with_height (rp_engine p) fuel ?s2 = Some (Ok (h, n), s3)"
          and s: "s = recover_pending p (with_pointers h h h (rp_now_unix p (es_world s3)) s3)"
          by (cases r1) (auto simp: runner_start_def on_disk_def fresh_runner_def split: option.splits sum.splits)
        have "eng_le (\<lambda>_ _. True) ?s2 s3"
          using c unfolding current_head_with_height_def by (rule any.current_head_loop_le)
        then have "rn_disk s3 = d2 \<and> rn_queue s3 = [] \<and> rn_batch s3 = [] \<and> rn_timer s3 = timer_new (rp_flush_after p)"
          by (cases s3) (simp add: eng_le_def fresh_runner_def)
        with s show ?thesis
          by (auto simp: with_pointers_def intro!: exI [of _ "with_pointers h h h (rp_now_unix p (es_world s3)) s3"])
      next
        case (Some c)
        with assms(1) i1 i2 Inr show ?thesis
          by (cases r1) (auto simp: runner_start_def on_disk_def fresh_runner_def with_pointers_def Let_def)
      qed
    qed (use assms(1) i1 i2 in \<open>cases r1; simp add: runner_start_def on_disk_def fresh_runner_def\<close>)
  qed
  then obtain u where u: "s = recover_pending p u" "rn_disk u = d2" "rn_queue u = []" "rn_batch u = []"
    "rn_timer u = timer_new (rp_flush_after p)" by blast
  have "heights_match (rn_queue s) \<and> rn_batch s = [] \<and> rn_timer s = timer_new (rp_flush_after p)"
    using recover_pending_matched [of p u] fo u by simp
  then show ?thesis by (simp add: well_queued_def batch_ok_def timer_new_def)
qed

section \<open>A produced block is durable\<close>

definition saved_chain_state :: "'w runner_port \<Rightarrow> disk \<Rightarrow> chain_state \<Rightarrow> bool" where
  "saved_chain_state p d st \<longleftrightarrow>
     (\<exists>t. files d (state_path (rp_dir p)) = Some (Text t) \<and> from_json (rp_state_json p) t = Ok st)"

lemma runner_more:
  fixes s t :: "'w runner"
  assumes "eng_le R s t"
  shows "rn_disk t = rn_disk s \<and> rn_queue t = rn_queue s \<and> rn_rx_open t = rn_rx_open s \<and> rn_safe t = rn_safe s \<and>
    rn_finalized t = rn_finalized s \<and> rn_head t = rn_head s \<and> rn_timestamp t = rn_timestamp s"
  using assms by (cases s; cases t) (simp add: eng_le_def)

lemmas build_more = runner_more [OF any.frame.preservesD [OF any.engine_build_le]]
lemmas accept_more = runner_more [OF any.frame.preservesD [OF any.engine_accept_le]]

lemma on_disk_fields:
  "on_disk m s = (r, t) \<Longrightarrow> \<exists>d. m (rn_disk s) = (r, d) \<and> t = s\<lparr>rn_disk := d\<rparr>"
  by (auto simp: on_disk_def split: prod.splits)

lemma block_put_stored:
  assumes "\<forall>b bs. rp_block_to_bytes p b = Ok bs \<longrightarrow> rp_block_from_bytes p bs = Ok b"
    and "block_put (rp_io p) (rp_block_to_bytes p) (rp_dir p) b d = (Ok x, d')"
  shows "stored_block p d' (height (header b)) = Some b"
  using assms by (auto simp: block_put_def sbind_def slift_def fs_write_def stored_block_def split: sum.splits option.splits)

lemma state_save_saved:
  assumes "json_ok (rp_state_json p)" "state_save (rp_io p) (rp_state_json p) (rp_dir p) st d = (Ok x, d')"
  shows "saved_chain_state p d' st"
  using save_json_cases [OF assms(2) [unfolded state_save_def] paths_neq(3)] assms(1)
  by (auto simp: saved_chain_state_def json_ok_def)

lemma store_mark_same_block: "preserves (same_file (block_path dir h')) (store_mark io j dir h)"
  unfolding store_mark_def pending_mutate_def pending_load_raw_def pending_save_raw_def
  by (intro same_file.preserves_sbind' same_file.preserves_sreturn load_json_same_file save_json_same_file block_path_neq)

lemma publish_built_durable:
  assumes pb: "publish_built p built s = (Ok (), t)"
    and json: "json_ok (rp_heights_json p)" "json_ok (rp_state_json p)"
    and codec: "\<forall>b bs. rp_block_to_bytes p b = Ok bs \<longrightarrow> rp_block_from_bytes p bs = Ok b"
    and dir: "\<forall>tk. rp_inbox p = Some tk \<longrightarrow> tk_dir tk = rp_dir p"
    and m: "marked p (rn_disk s) S" and rx: "rn_rx_open s"
  shows "\<exists>b sg. rn_queue t = rn_queue s @ [\<lparr>pb_block = b, pb_block_hash = bp_block_hash built, pb_height = bp_height built\<rparr>] \<and>
    height (header b) = bp_height built \<and> signature b = Some sg \<and> rp_sign p (header b) = Ok sg \<and>
    stored_block p (rn_disk t) (bp_height built) = Some b \<and> marked p (rn_disk t) (insert (bp_height built) S) \<and>
    (\<exists>h. saved_chain_state p (rn_disk t)
       \<lparr>cs_head = rp_show_hash p (rn_head s), cs_safe = rp_show_hash p (rn_safe s),
        cs_finalized = rp_show_hash p (rn_finalized s), cs_height = h, cs_timestamp = rn_timestamp s\<rparr>) \<and>
    rn_head t = rn_head s \<and> rn_timestamp t = rn_timestamp s"
proof -
  from pb obtain b0 where b0: "payload_into_block (rp_enc_payload p) built = Ok b0"
    unfolding publish_built_def by (auto elim!: sbindE)
  from pb b0 obtain sg where sg: "rp_sign p (header b0) = Ok sg"
    unfolding publish_built_def by (auto elim!: sbindE)
  let ?b = "b0\<lparr>signature := Some sg\<rparr>" and ?h = "bp_height built"
  have h: "height (header ?b) = ?h" using payload_block_height [OF b0] by simp
  from pb b0 sg obtain d1 d2 d3 where
    d1: "block_put (rp_io p) (rp_block_to_bytes p) (rp_dir p) ?b (rn_disk s) = (Ok (), d1)"
    and d2: "store_mark (rp_io p) (rp_heights_json p) (rp_dir p) ?h
        (observe_block_inclusions (rp_inbox p) (pl_transactions (bp_payload built)) ?h d1) = (Ok (), d2)"
    and d3: "\<exists>g. state_save (rp_io p) (rp_state_json p) (rp_dir p)
       \<lparr>cs_head = rp_show_hash p (rn_head s), cs_safe = rp_show_hash p (rn_safe s),
        cs_finalized = rp_show_hash p (rn_finalized s), cs_height = g, cs_timestamp = rn_timestamp s\<rparr> d2 = (Ok (), d3)"
    and t: "t = tx_send \<lparr>pb_block = ?b, pb_block_hash = bp_block_hash built, pb_height = ?h\<rparr>
       (broadcast_block p ?b ?h (s\<lparr>rn_disk := d3\<rparr>))"
    unfolding publish_built_def persist_state_def Let_def
    by (fastforce elim!: sbindE dest!: on_disk_fields)
  let ?obs = "observe_block_inclusions (rp_inbox p) (pl_transactions (bp_payload built)) ?h d1"
  from d3 obtain g where d3: "state_save (rp_io p) (rp_state_json p) (rp_dir p)
       \<lparr>cs_head = rp_show_hash p (rn_head s), cs_safe = rp_show_hash p (rn_safe s),
        cs_finalized = rp_show_hash p (rn_finalized s), cs_height = g, cs_timestamp = rn_timestamp s\<rparr> d2 = (Ok (), d3)" ..
  have obs: "same_file q d1 ?obs" if "q \<noteq> inbox_tmp (rp_dir p)" "q \<noteq> inbox_path (rp_dir p)" for q
    by (rule observe_same_file) (use dir that in auto)
  have blk: "same_file (block_path (rp_dir p) ?h) d1 d3"
    by (intro same_file.trans [OF obs same_file.trans [OF same_file.preservesD [OF store_mark_same_block d2]
          same_file.preservesD [OF state_save_same_file d3]]] block_path_neq)
  have "stored_block p d1 ?h = Some ?b" using block_put_stored [OF codec d1] h by simp
  with stored_block_same [OF blk] have st: "stored_block p d3 ?h = Some ?b" by simp
  have m1: "marked p d1 S"
    by (rule marked_same_file [OF same_file.preservesD [OF block_put_same_file d1] m]) simp
  have "same_file (pending_path (rp_dir p)) d1 ?obs" by (rule obs) simp_all
  from marked_same_file [OF this m1] have "marked p ?obs S" .
  from store_mark_marked [OF json(1) this d2] have m2: "marked p d2 (insert ?h S)" by simp
  have "same_file (pending_path (rp_dir p)) d2 d3"
    by (rule same_file.preservesD [OF state_save_same_file d3]) simp_all
  from marked_same_file [OF this m2] have mk: "marked p d3 (insert ?h S)" .
  have sv: "\<exists>h. saved_chain_state p d3
       \<lparr>cs_head = rp_show_hash p (rn_head s), cs_safe = rp_show_hash p (rn_safe s),
        cs_finalized = rp_show_hash p (rn_finalized s), cs_height = h, cs_timestamp = rn_timestamp s\<rparr>"
    using state_save_saved [OF json(2) d3] by blast
  show ?thesis
    using h sg st mk sv rx
    by (intro exI [of _ ?b] exI [of _ sg]) (simp add: t tx_send_def broadcast_block_def Let_def split: option.split)
qed


end
