(* ===== verification/Runner_Chain.thy ===== *)
theory Runner_Chain
  imports Runner_Storage
begin

text \<open>
  The sequencer over the modelled contract: a Sui network that executes settle transactions on the
  contract state while other parties transact, loses requests and responses, and a Walrus
  publisher that remembers what it stored. The clients' contract of \<open>Runner_Safety\<close> is proved for
  it, and with it the properties of the sequencer on chain.
\<close>

section \<open>The network\<close>

datatype delivery = Delivered | RequestLost string | ResponseLost string

text \<open>Transactions of other parties; a failing one changes nothing.\<close>

datatype outside_tx =
    ClockTick u64
  | UserSubmit "byte list"
  | StageWindow u64 u64
  | CancelWindow

fun outside_exec :: "outside_tx \<Rightarrow> chain \<Rightarrow> chain" where
  "outside_exec (ClockTick t) c = (if ch_clock c \<le> t then c\<lparr>ch_clock := t\<rparr> else c)"
| "outside_exec (UserSubmit bytes) c =
     (case move_submit (ch_inbox c) (ch_clock c) bytes of Inl _ \<Rightarrow> c | Inr ib \<Rightarrow> c\<lparr>ch_inbox := ib\<rparr>)"
| "outside_exec (StageWindow w d) c =
     (case move_stage_window_change (ch_inbox c) w d (ch_clock c) of Inl _ \<Rightarrow> c | Inr ib \<Rightarrow> c\<lparr>ch_inbox := ib\<rparr>)"
| "outside_exec CancelWindow c =
     (case move_cancel_window_change (ch_inbox c) of Inl _ \<Rightarrow> c | Inr ib \<Rightarrow> c\<lparr>ch_inbox := ib\<rparr>)"

definition chain_tx_env :: "delivery \<Rightarrow> chain \<Rightarrow> ('key, ptb, unit) tx_env" where
  "chain_tx_env dv c =
     \<lparr>te_derive = (\<lambda>_. barr_fill 0), te_client = (\<lambda>_. Ok ()), te_build = (\<lambda>p. Ok p), te_sign = (\<lambda>_ _. Ok ()),
      te_execute = (\<lambda>tx _ _. case dv of
          RequestLost e \<Rightarrow> Err e
        | ResponseLost e \<Rightarrow> Err e
        | Delivered \<Rightarrow>
            (case exec_settle (ptb_calls tx) c of
               Inl _ \<Rightarrow> Ok \<lparr>tr_success = False, tr_error = Some ''MoveAbort'', tr_changed = []\<rparr>
             | Inr _ \<Rightarrow> Ok \<lparr>tr_success = True, tr_error = None, tr_changed = []\<rparr>))\<rparr>"

definition chain_rpc_env :: "string option \<Rightarrow> chain \<Rightarrow> rpc_env" where
  "chain_rpc_env outage c =
     \<lparr>rpc_new = (\<lambda>_. Ok ()),
      get_object = (\<lambda>_ a. case outage of
          Some e \<Rightarrow> Err e
        | None \<Rightarrow> if a = mi_id (ch_inbox c) then Ok (Some (Some (inbox_layout (inbox_mirror c)))) else Ok None),
      derive_dynamic_child_id = (\<lambda>_ _ _. barr_fill 0)\<rparr>"

definition commit_cursor :: "u64 option \<Rightarrow> chain \<Rightarrow> u64" where
  "commit_cursor tracked c =
     (case tracked of None \<Rightarrow> mi_included_count (ch_inbox c) | Some k \<Rightarrow> max k (mi_included_count (ch_inbox c)))"

text \<open>One commit of the client, and what it does to the contract.\<close>

definition contract_commit ::
    "'key settlement \<Rightarrow> delivery \<Rightarrow> string option \<Rightarrow> block \<Rightarrow> blob_id \<Rightarrow> u64 option \<Rightarrow> chain \<Rightarrow>
     (core_error, unit) result \<times> chain" where
  "contract_commit st dv outage b blob tracked c =
     ((case tracked of
         None \<Rightarrow> client_commit (chain_tx_env dv c) (chain_rpc_env outage c) 0 (Some st) b blob
       | Some k \<Rightarrow> client_commit_with_cursor (chain_tx_env dv c) (chain_rpc_env outage c) 0 (Some st) b blob k),
      if outage \<noteq> None \<or> s_inbox st \<noteq> mi_id (ch_inbox c) \<or> (\<exists>e. dv = RequestLost e) then c
      else (case exec_settle (settle_commands st (header b) blob (commit_cursor tracked c)) c of
              Inl _ \<Rightarrow> c | Inr c' \<Rightarrow> c'))"

record 'v sui_world =
  sw_rest :: 'v
  sw_chain :: chain
  sw_blobs :: "(blob_id \<times> block list) list"

text \<open>\<open>sn_plan\<close> is the fate of the next commit: delivery, an outage of the cursor read, and the
  transactions of others that land before it.\<close>

record ('v, 'key) sui_net =
  sn_settlement :: "'key settlement"
  sn_plan :: "'v \<Rightarrow> (delivery \<times> string option \<times> outside_tx list) \<times> 'v"

definition on_rest :: "('v \<Rightarrow> 'a \<times> 'v) \<Rightarrow> 'v sui_world \<Rightarrow> 'a \<times> 'v sui_world" where
  "on_rest f w = (case f (sw_rest w) of (r, v) \<Rightarrow> (r, w\<lparr>sw_rest := v\<rparr>))"

definition net_publish :: "'v runner_port \<Rightarrow> block list \<Rightarrow> 'v sui_world \<Rightarrow> (core_error, blob_id) result \<times> 'v sui_world" where
  "net_publish base bs w =
     (case on_rest (rp_publish base bs) w of
        (Inl e, w') \<Rightarrow> (Err e, w')
      | (Inr i, w') \<Rightarrow> (Ok i, w'\<lparr>sw_blobs := sw_blobs w' @ [(i, bs)]\<rparr>))"

definition net_commit ::
    "('v, 'key) sui_net \<Rightarrow> block \<Rightarrow> blob_id \<Rightarrow> u64 option \<Rightarrow> 'v sui_world \<Rightarrow> (core_error, unit) result \<times> 'v sui_world" where
  "net_commit net b blob tracked w =
     (case on_rest (sn_plan net) w of
        ((dv, outage, others), w') \<Rightarrow>
          (case contract_commit (sn_settlement net) dv outage b blob tracked (fold outside_exec others (sw_chain w')) of
             (r, c) \<Rightarrow> (r, w'\<lparr>sw_chain := c\<rparr>)))"

definition rest_engine :: "'v engine_port \<Rightarrow> 'v sui_world engine_port" where
  "rest_engine p =
     \<lparr>ep_endpoint = ep_endpoint p,
      ep_token = on_rest (ep_token p),
      ep_post = (\<lambda>url tk body. on_rest (ep_post p url tk body)),
      ep_now = (\<lambda>w. ep_now p (sw_rest w)),
      ep_sleep = (\<lambda>ms w. w\<lparr>sw_rest := ep_sleep p ms (sw_rest w)\<rparr>),
      ep_enc_state = ep_enc_state p, ep_enc_attributes = ep_enc_attributes p,
      ep_enc_payload_id = ep_enc_payload_id p, ep_enc_payload = ep_enc_payload p,
      ep_enc_hashes = ep_enc_hashes p, ep_enc_hash = ep_enc_hash p,
      ep_dec_updated = ep_dec_updated p, ep_dec_envelope = ep_dec_envelope p,
      ep_dec_status = ep_dec_status p, ep_parse_hash = ep_parse_hash p,
      ep_int_error = ep_int_error p, ep_show_status = ep_show_status p\<rparr>"

text \<open>The sequencer \<open>base\<close> with its settlement on the contract. As in \<open>build_tracker\<close>, the tracker
  lives in the same data directory.\<close>

definition contract_port :: "'v runner_port \<Rightarrow> ('v, 'key) sui_net \<Rightarrow> 'v sui_world runner_port" where
  "contract_port base net =
     \<lparr>rp_engine = rest_engine (rp_engine base),
      rp_now_unix = (\<lambda>w. rp_now_unix base (sw_rest w)),
      rp_shutting_down = (\<lambda>w. rp_shutting_down base (sw_rest w)),
      rp_publish = net_publish base,
      rp_commit = net_commit net,
      rp_sign = rp_sign base,
      rp_broadcast = map_option (\<lambda>f out w. w\<lparr>sw_rest := f out (sw_rest w)\<rparr>) (rp_broadcast base),
      rp_sha256 = rp_sha256 base,
      rp_inbox = map_option (\<lambda>tk. tk\<lparr>tk_dir := rp_dir base\<rparr>) (rp_inbox base),
      rp_fee_recipient = rp_fee_recipient base, rp_genesis_hash = rp_genesis_hash base,
      rp_da_batch_size = rp_da_batch_size base, rp_flush_after = rp_flush_after base,
      rp_enc_payload = rp_enc_payload base, rp_dec_payload = rp_dec_payload base,
      rp_show_hash = rp_show_hash base, rp_parse_hash = rp_parse_hash base,
      rp_io = rp_io base, rp_dir = rp_dir base,
      rp_block_to_bytes = rp_block_to_bytes base, rp_block_from_bytes = rp_block_from_bytes base,
      rp_state_json = rp_state_json base, rp_heights_json = heights_json,
      rp_list_blocks = rp_list_blocks base\<rparr>"

lemma contract_port_simps [simp]:
  "rp_engine (contract_port base net) = rest_engine (rp_engine base)"
  "rp_shutting_down (contract_port base net) w = rp_shutting_down base (sw_rest w)"
  "rp_publish (contract_port base net) = net_publish base"
  "rp_commit (contract_port base net) = net_commit net"
  "rp_broadcast (contract_port base net) = map_option (\<lambda>f out w. w\<lparr>sw_rest := f out (sw_rest w)\<rparr>) (rp_broadcast base)"
  "rp_inbox (contract_port base net) = map_option (\<lambda>tk. tk\<lparr>tk_dir := rp_dir base\<rparr>) (rp_inbox base)"
  "rp_dir (contract_port base net) = rp_dir base" "rp_io (contract_port base net) = rp_io base"
  "rp_block_from_bytes (contract_port base net) = rp_block_from_bytes base"
  "rp_heights_json (contract_port base net) = heights_json" "rp_state_json (contract_port base net) = rp_state_json base"
  "rp_dec_payload (contract_port base net) = rp_dec_payload base" "rp_genesis_hash (contract_port base net) = rp_genesis_hash base"
  "rp_now_unix (contract_port base net) w = rp_now_unix base (sw_rest w)"
  by (simp_all add: contract_port_def)

section \<open>The clients keep their contract\<close>

definition sui_le :: "'v sui_world \<Rightarrow> 'v sui_world \<Rightarrow> bool" where
  "sui_le w w' \<longleftrightarrow> chain_step\<^sup>*\<^sup>* (sw_chain w) (sw_chain w') \<and> (\<exists>new. sw_blobs w' = sw_blobs w @ new)"

definition published :: "'v sui_world \<Rightarrow> blob_id \<Rightarrow> block \<Rightarrow> bool" where
  "published w i b \<longleftrightarrow> (\<exists>bs. (i, bs) \<in> set (sw_blobs w) \<and> b \<in> set bs)"

definition committed :: "'v sui_world \<Rightarrow> u64 \<Rightarrow> blob_id \<Rightarrow> bool" where
  "committed w h i \<longleftrightarrow> (case i of BlobId x \<Rightarrow> mr_commitments (ch_registry (sw_chain w)) h = Some (to_vec x))"

lemma outside_step: "chain_step c (outside_exec x c)"
  by (cases x) (auto intro: chain_step.intros split: sum.split)

lemma outside_steps: "chain_step\<^sup>*\<^sup>* c (fold outside_exec xs c)"
proof (induction xs arbitrary: c)
  case (Cons x xs)
  show ?case using Cons [of "outside_exec x c"] outside_step [of c x] by (simp add: converse_rtranclp_into_rtranclp)
qed simp

lemma exec_settle_steps: "exec_settle (settle_commands st hdr (BlobId x) cur) c = Ok c' \<Longrightarrow>
    chain_step\<^sup>*\<^sup>* c c' \<and> mr_commitments (ch_registry c') (height hdr) = Some (to_vec x)"
proof -
  assume "exec_settle (settle_commands st hdr (BlobId x) cur) c = Ok c'"
  then obtain reg ib where d: "do_settle (ch_registry c) (ch_inbox c) (to_vec x) (height hdr) (settle_block_ts (timestamp hdr)) cur = Ok (reg, ib)"
    and rest: "if s_commit_state_roots st
       then \<exists>reg'. commit_state_root reg (height hdr) (to_vec (state_root hdr)) = Ok reg' \<and> c' = c\<lparr>ch_registry := reg', ch_inbox := ib\<rparr>
       else c' = c\<lparr>ch_registry := reg, ch_inbox := ib\<rparr>"
    by (auto simp: exec_settle_commands and_then_eq_Inr split: if_splits)
  let ?c1 = "c\<lparr>ch_registry := reg, ch_inbox := ib\<rparr>"
  have s1: "chain_step c ?c1" by (rule chain_step.settle [OF d])
  have m1: "mr_commitments reg (height hdr) = Some (to_vec x)"
    using d unfolding do_settle_Ok by auto
  show ?thesis
  proof (cases "s_commit_state_roots st")
    case False
    with rest s1 m1 show ?thesis by auto
  next
    case True
    with rest obtain reg' where r: "commit_state_root reg (height hdr) (to_vec (state_root hdr)) = Ok reg'"
      and c': "c' = c\<lparr>ch_registry := reg', ch_inbox := ib\<rparr>" by auto
    have "chain_step ?c1 (?c1\<lparr>ch_registry := reg'\<rparr>)" by (rule chain_step.root) (simp, rule r)
    moreover have "?c1\<lparr>ch_registry := reg'\<rparr> = c'" by (cases c) (simp add: c')
    ultimately have s2: "chain_step ?c1 c'" by (rule back_subst)
    have "mr_commitments reg' = mr_commitments reg"
      using r by (auto simp: commit_state_root_def split: if_splits option.splits)
    with s1 s2 m1 show ?thesis by (simp add: c' converse_rtranclp_into_rtranclp)
  qed
qed

lemma parse_inbox_cursor_layout [simp]: "parse_inbox_cursor (inbox_layout x) = Ok (ib_included_count x)"
  by (simp add: parse_inbox_cursor_def inbox_layout_def)

lemma inbox_cursor_chain:
  "inbox_cursor (chain_rpc_env outage c) n st = Ok k \<longleftrightarrow>
     outage = None \<and> s_inbox st = mi_id (ch_inbox c) \<and> k = mi_included_count (ch_inbox c)"
  by (auto simp: inbox_cursor_def chain_rpc_env_def inbox_mirror_def split: option.splits)

lemma contract_commit_Ok:
  "fst (contract_commit st dv outage b blob tracked c) = Ok () \<longleftrightarrow>
     outage = None \<and> s_inbox st = mi_id (ch_inbox c) \<and> dv = Delivered \<and>
     (\<exists>c'. exec_settle (settle_commands st (header b) blob (commit_cursor tracked c)) c = Ok c')"
  by (cases tracked; cases dv)
     (auto simp: contract_commit_def client_commit_def client_commit_with_cursor_def commit_def commit_with_cursor_def
       and_then_eq_Inr inbox_cursor_chain build_settle_tx_def chain_tx_env_def sign_and_execute_Ok commit_cursor_def
       split: sum.splits if_splits)

lemma contract_commit_steps: "chain_step\<^sup>*\<^sup>* c (snd (contract_commit st dv outage b blob tracked c))"
  by (cases blob) (auto simp: contract_commit_def split: sum.split dest: exec_settle_steps)

lemma contract_commit_records:
  assumes "fst (contract_commit st dv outage b (BlobId x) tracked c) = Ok ()"
  shows "mr_commitments (ch_registry (snd (contract_commit st dv outage b (BlobId x) tracked c))) (height (header b)) = Some (to_vec x)"
  using assms unfolding contract_commit_Ok by (auto simp: contract_commit_def dest: exec_settle_steps)

lemma contract_commit_records':
  "contract_commit st dv outage b (BlobId x) tracked c = (Ok (), c') \<Longrightarrow>
    mr_commitments (ch_registry c') (height (header b)) = Some (to_vec x)"
  using contract_commit_records [of st dv outage b x tracked c] by simp

lemma on_rest_le: "sui_le w (snd (on_rest f w))"
  by (auto simp: on_rest_def sui_le_def split: prod.split)

lemma sui_le_refl: "sui_le w w" by (auto simp: sui_le_def)

lemma sui_le_trans: "sui_le u v \<Longrightarrow> sui_le v w \<Longrightarrow> sui_le u w"
  by (auto simp: sui_le_def)

lemma net_commit_chain:
  assumes "net_commit net b blob tracked w = (r, w')"
  obtains dv outage c where "chain_step\<^sup>*\<^sup>* (sw_chain w) c" "sw_blobs w' = sw_blobs w"
    "contract_commit (sn_settlement net) dv outage b blob tracked c = (r, sw_chain w')"
proof -
  obtain dv outage others v where pl: "sn_plan net (sw_rest w) = ((dv, outage, others), v)"
    by (cases "sn_plan net (sw_rest w)") auto
  let ?c = "fold outside_exec others (sw_chain w)"
  obtain x c where cc: "contract_commit (sn_settlement net) dv outage b blob tracked ?c = (x, c)" by fastforce
  have "r = x" "w' = w\<lparr>sw_rest := v, sw_chain := c\<rparr>"
    using assms by (simp_all add: net_commit_def on_rest_def pl cc)
  with cc show ?thesis by (intro that [OF outside_steps [of "sw_chain w" others]]) simp_all
qed

interpretation contract: settlement_service "contract_port base net" sui_le published committed
proof
  fix w w' u v :: "'a sui_world" and url tk body ms bs b i c and out and h
  show "sui_le w w" by (rule sui_le_refl)
  show "sui_le u v \<Longrightarrow> sui_le v w \<Longrightarrow> sui_le u w" by (rule sui_le_trans)
  show "sui_le w (snd (ep_token (rp_engine (contract_port base net)) w))"
    by (simp add: rest_engine_def on_rest_le)
  show "sui_le w (snd (ep_post (rp_engine (contract_port base net)) url tk body w))"
    by (simp add: rest_engine_def on_rest_le)
  show "sui_le w (ep_sleep (rp_engine (contract_port base net)) ms w)"
    by (simp add: rest_engine_def sui_le_def)
  show "sui_le w (snd (rp_publish (contract_port base net) bs w))"
    by (auto simp: net_publish_def on_rest_def sui_le_def split: prod.split sum.split)
  show "sui_le w (snd (rp_commit (contract_port base net) b i c w))"
  proof -
    obtain r x where n: "net_commit net b i c w = (r, x)" by fastforce
    from n show ?thesis
    proof (rule net_commit_chain)
      fix dv outage k
      assume c: "chain_step\<^sup>*\<^sup>* (sw_chain w) k" "sw_blobs x = sw_blobs w"
        "contract_commit (sn_settlement net) dv outage b i c k = (r, sw_chain x)"
      have "chain_step\<^sup>*\<^sup>* k (sw_chain x)" using contract_commit_steps [of k] c(3) by (metis snd_conv)
      with c show ?thesis by (simp add: n sui_le_def)
    qed
  qed
  show "sui_le w w' \<Longrightarrow> published w i b \<Longrightarrow> published w' i b" by (auto simp: published_def sui_le_def)
  show "sui_le w w' \<Longrightarrow> committed w h i \<Longrightarrow> committed w' h i"
    by (auto simp: committed_def sui_le_def chain_le_def map_le_def dom_def dest!: chain_reachable_le split: blob_id.splits)
  show "rp_publish (contract_port base net) bs w = (Ok i, w') \<Longrightarrow> b \<in> set bs \<Longrightarrow> published w' i b"
    by (auto simp: net_publish_def published_def split: prod.splits sum.splits)
  show "rp_commit (contract_port base net) b i c w = (Ok (), w') \<Longrightarrow> committed w' (height (header b)) i"
    by (cases i) (auto elim!: net_commit_chain simp: committed_def dest: contract_commit_records')
qed (auto simp: sui_le_def heights_json_ok)

section \<open>Markers on chain\<close>


text \<open>
  C20: the flush triggers never lag behind the buffer. In every reachable state of the finalizer the byte
  count is at least the size of the buffered blocks (saturating at \<open>usize::MAX\<close>), so the size
  threshold fires in time; and while the finalizer runs with a flush interval the timer is armed
  exactly when blocks are buffered, so no block waits without a deadline.
\<close>

theorem flush_triggers_cover_batch:
  assumes "runner_start (contract_port base net) fuel (fresh_runner (contract_port base net) i w d) = Some (Ok (), s)"
    and "files_ok (contract_port base net) d"
    and "runner_run (contract_port base net) sui_le s t"
  shows "(rn_batch t \<noteq> [] \<longrightarrow> min (batch_size (rn_batch t)) (2 ^ 64 - 1) \<le> unat (rn_batch_bytes t)) \<and>
    (rn_rx_open t \<and> ft_flush_after (rn_timer t) \<noteq> None \<longrightarrow> (ft_at (rn_timer t) \<noteq> None \<longleftrightarrow> rn_batch t \<noteq> []))"
proof -
  have "batch_ok s" using start_well_queued [OF assms(1,2)] by simp
  from contract.run_batch_ok [OF assms(3) this] show ?thesis by (simp add: batch_ok_def)
qed

section \<open>A refused block\<close>

text \<open>The contract refuses a block for good: its height is neither the tip nor the next one, or it is
  the tip with another blob recorded.\<close>

definition refused :: "move_registry \<Rightarrow> block \<Rightarrow> hash \<Rightarrow> bool" where
  "refused reg b x \<longleftrightarrow>
     (let h = height (header b); tip = mr_latest_height reg in
      if h = tip then mr_commitments reg h \<noteq> Some (to_vec x) else h \<noteq> tip + 1)"

lemma outside_registry [simp]: "ch_registry (fold outside_exec xs c) = ch_registry c"
proof (induction xs arbitrary: c)
  case (Cons x xs)
  have "ch_registry (outside_exec x c) = ch_registry c" by (cases x) (auto split: sum.split)
  with Cons show ?case by simp
qed simp

lemma refused_settle:
  assumes "refused (ch_registry c) b x"
  shows "\<exists>e. exec_settle (settle_commands st (header b) (BlobId x) cur) c = Err e"
proof (cases "do_settle (ch_registry c) (ch_inbox c) (to_vec x) (height (header b)) (settle_block_ts (timestamp (header b))) cur")
  case (Inl e)
  then show ?thesis by (simp add: exec_settle_commands)
next
  case (Inr ri)
  obtain reg ib where "ri = (reg, ib)" by fastforce
  with Inr assms show ?thesis by (auto simp: do_settle_Ok refused_def Let_def)
qed

lemma refused_commit:
  assumes "refused (ch_registry (sw_chain w)) b x" "net_commit net b (BlobId x) tracked w = (r, w')"
  shows "(\<exists>e. r = Err e) \<and> ch_registry (sw_chain w') = ch_registry (sw_chain w)"
proof -
  obtain dv outage others v where pl: "sn_plan net (sw_rest w) = ((dv, outage, others), v)"
    by (cases "sn_plan net (sw_rest w)") auto
  let ?c = "fold outside_exec others (sw_chain w)"
  obtain y c where cc: "contract_commit (sn_settlement net) dv outage b (BlobId x) tracked ?c = (y, c)" by fastforce
  from refused_settle [of ?c b x "sn_settlement net" "commit_cursor tracked ?c"] assms(1)
  obtain e where e: "exec_settle (settle_commands (sn_settlement net) (header b) (BlobId x) (commit_cursor tracked ?c)) ?c = Err e"
    by auto
  have "y \<noteq> Ok ()" using contract_commit_Ok [of "sn_settlement net" dv outage b "BlobId x" tracked ?c] cc e by auto
  moreover have "ch_registry c = ch_registry (sw_chain w)"
    using cc e by (auto simp: contract_commit_def split: if_splits)
  moreover have "r = y" "w' = w\<lparr>sw_rest := v, sw_chain := c\<rparr>"
    using assms(2) by (simp_all add: net_commit_def on_rest_def pl cc)
  ultimately show ?thesis by (cases y) auto
qed

abbreviation registry_of :: "'v sui_world runner \<Rightarrow> move_registry" where
  "registry_of s \<equiv> ch_registry (sw_chain (es_world s))"

lemma refused_attempt:
  assumes "refused (registry_of s) b x" "settle_attempt (contract_port base net) b (BlobId x) s = (r, t)"
  shows "(\<exists>e. r = Err e) \<and> registry_of t = registry_of s"
proof -
  have w: "(\<exists>e. r = Err e) \<and> registry_of t = registry_of u"
    if "on_world (net_commit net b (BlobId x) c) u = (r, t)" "registry_of u = registry_of s" for u c and r :: "(core_error, unit) result"
  proof -
    obtain r' w' where n: "net_commit net b (BlobId x) c (es_world u) = (r', w')" by fastforce
    have "refused (ch_registry (sw_chain (es_world u))) b x" using assms(1) that(2) by simp
    from refused_commit [OF this n] that n show ?thesis by (auto simp: on_world_def)
  qed
  show ?thesis
    using assms(2) w
    by (fastforce simp: settle_attempt_def st_map_err_def map_err_def on_disk_def
        split: option.splits prod.splits sum.splits)
qed

lemma refused_retry:
  assumes "refused (registry_of s) b x"
  shows "retry_with_backoff (contract_port base net) (settle_attempt (contract_port base net) b (BlobId x)) k backoff mx s = Some (r, t) \<Longrightarrow>
    r = None \<and> rp_shutting_down base (sw_rest (es_world t)) \<and> registry_of t = registry_of s"
  using assms
proof (induction k arbitrary: backoff s)
  case (Suc k)
  obtain y s1 where a: "settle_attempt (contract_port base net) b (BlobId x) s = (y, s1)" by fastforce
  from refused_attempt [OF Suc.prems(2) a] obtain e where y: "y = Err e" and reg: "registry_of s1 = registry_of s" by blast
  let ?u = "es_sleep (rest_engine (rp_engine base)) backoff s1"
  have u: "registry_of ?u = registry_of s" using reg by (simp add: es_sleep_def rest_engine_def)
  show ?case
    using Suc.prems a y u Suc.IH [of "min (backoff * 2) mx" ?u] by (auto split: if_splits)
qed simp

lemma gate_registry:
  "wait_inclusion_gate (contract_port base net) tk h k backoff s = Some (r, t) \<Longrightarrow>
    registry_of t = registry_of s \<and> (\<not> r \<longrightarrow> rp_shutting_down base (sw_rest (es_world t)))"
proof (induction k arbitrary: s)
  case (Suc k)
  obtain y s1 where a: "on_disk (tracker_halt_check tk h) s = (y, s1)" by fastforce
  have "es_world s1 = es_world s" using a by (auto simp: on_disk_def split: prod.splits)
  then show ?case
    using Suc.prems a Suc.IH [of "es_sleep (rest_engine (rp_engine base)) backoff s1"]
    by (auto simp: es_sleep_def rest_engine_def split: if_splits sum.splits halt_check.splits)
qed simp

text \<open>
  C21: a block the contract refuses stops settlement until shutdown. When the registry already holds
  another blob for the block's height, or the block leaves a gap, settling it never succeeds,
  however often it is retried and whatever the network does: the call returns only because the
  process is shutting down, and the registry is as before. Re-publishing a batch after a failed
  finalization (a new blob for a settled height) and a dropped pending height both lead here.
\<close>

theorem refused_block_stalls_settlement:
  assumes "refused (registry_of s) b x"
    and "settle_with_gate (contract_port base net) fuel b (BlobId x) s = Some (r, t)"
  shows "\<not> r \<and> rp_shutting_down base (sw_rest (es_world t)) \<and> registry_of t = registry_of s"
proof -
  let ?p = "contract_port base net"
  let ?gate = "case rp_inbox ?p of None \<Rightarrow> Some (True, s)
    | Some tk \<Rightarrow> wait_inclusion_gate ?p tk (height (header b)) fuel 500 s"
  obtain g u where g: "?gate = Some (g, u)"
    using assms(2) unfolding settle_with_gate_def by (cases ?gate) auto
  have q: "registry_of u = registry_of s" "\<not> g \<longrightarrow> rp_shutting_down base (sw_rest (es_world u))"
    using g gate_registry by (auto split: option.splits dest: gate_registry)
  show ?thesis
  proof (cases g)
    case False
    then have "r = False \<and> t = u" using assms(2) unfolding settle_with_gate_def g by simp
    with q False show ?thesis by simp
  next
    case True
    then obtain y where y: "retry_with_backoff ?p (settle_attempt ?p b (BlobId x)) fuel 500 10000 u = Some (y, t)" "r = (y \<noteq> None)"
      using assms(2) unfolding settle_with_gate_def g by auto
    from refused_retry [OF _ y(1)] assms(1) q(1) y(2) show ?thesis by simp
  qed
qed

end
