(* ===== verification/Runner_Shutdown.thy ===== *)
theory Runner_Shutdown
  imports Runner Engine_Frame
begin

text \<open>
  The retry loops of the sequencer end: once the shutdown flag is set after boundedly many sleeps,
  every turn of the finalizer returns, whatever the publisher, the settlement layer and the
  execution layer answer.
\<close>

text \<open>\<open>mu w\<close> bounds the sleeps left until the flag is set: sleeping uses one up, no other call
  adds any, and none left means the flag is set.\<close>

locale shutdown_bound =
  fixes p :: "'w runner_port" and mu :: "'w \<Rightarrow> nat"
  assumes flag: "mu w = 0 \<Longrightarrow> rp_shutting_down p w"
    and sleep: "mu (ep_sleep (rp_engine p) ms w) \<le> mu w - 1"
    and token: "mu (snd (ep_token (rp_engine p) w)) \<le> mu w"
    and post: "mu (snd (ep_post (rp_engine p) url tk body w)) \<le> mu w"
    and publish: "mu (snd (rp_publish p bs w)) \<le> mu w"
    and commit: "mu (snd (rp_commit p b i c w)) \<le> mu w"
begin

sublocale engine_world "rp_engine p" "\<lambda>w w'. mu w' \<le> mu w"
proof
  show "mu (ep_sleep (rp_engine p) ms w) \<le> mu w" for ms w
    using sleep [of ms w] by linarith
qed (simp_all add: token post)

abbreviation rest :: "'w runner \<Rightarrow> nat" where
  "rest s \<equiv> mu (es_world s)"

lemma rest_sleep: "0 < rest s \<Longrightarrow> rest (es_sleep (rp_engine p) ms s) < rest s"
  using sleep [of ms "es_world s"] by (simp add: es_sleep_def)

lemma on_world_rest: "on_world m s = (r, t) \<Longrightarrow> (\<And>w. mu (snd (m w)) \<le> mu w) \<Longrightarrow> rest t \<le> rest s"
  by (auto simp: on_world_def split: prod.splits) (metis snd_conv)

lemma on_disk_rest [simp]: "on_disk m s = (r, t) \<Longrightarrow> rest t = rest s"
  by (auto simp: on_disk_def split: prod.splits)

lemma awake: "\<not> rp_shutting_down p w \<Longrightarrow> 0 < mu w"
  using flag [of w] by auto

lemma publish_loop_returns:
  "rest s < k \<Longrightarrow> \<exists>r t. publish_loop p blocks k backoff s = Some (r, t) \<and> rest t \<le> rest s"
proof (induction k arbitrary: backoff s)
  case (Suc k)
  obtain x s1 where a: "on_world (rp_publish p blocks) s = (x, s1)" by fastforce
  have le: "rest s1 \<le> rest s" by (rule on_world_rest [OF a publish])
  show ?case
  proof (cases "rp_shutting_down p (es_world s)")
    case False
    let ?u = "es_sleep (rp_engine p) backoff s1"
    have "rest ?u < rest s \<or> rest ?u \<le> rest s1 \<and> rest s1 < rest s"
      using awake [OF False] le sleep [of backoff "es_world s1"] by (simp add: es_sleep_def) linarith
    then have "rest ?u < k" and ul: "rest ?u \<le> rest s" using Suc.prems by auto
    from Suc.IH [OF this(1), of "min (backoff * 2) 10000"] a ul le False show ?thesis
      by (cases x) (auto intro: order_trans)
  qed simp
qed simp

lemma retry_returns:
  assumes op: "\<And>s r t. op s = (r, t) \<Longrightarrow> rest t \<le> rest s"
  shows "rest s < k \<Longrightarrow> \<exists>r t. retry_with_backoff p op k backoff mx s = Some (r, t) \<and> rest t \<le> rest s"
proof (induction k arbitrary: backoff s)
  case (Suc k)
  obtain x s1 where a: "op s = (x, s1)" by fastforce
  note le = op [OF a]
  show ?case
  proof (cases "rp_shutting_down p (es_world s)")
    case False
    let ?u = "es_sleep (rp_engine p) backoff s1"
    have "rest ?u < rest s \<or> rest ?u \<le> rest s1 \<and> rest s1 < rest s"
      using awake [OF False] le sleep [of backoff "es_world s1"] by (simp add: es_sleep_def) linarith
    then have "rest ?u < k" and ul: "rest ?u \<le> rest s" using Suc.prems by auto
    from Suc.IH [OF this(1), of "min (backoff * 2) mx"] a ul le False show ?thesis
      by (cases x) (auto intro: order_trans)
  qed simp
qed simp

lemma gate_returns:
  "rest s < k \<Longrightarrow> \<exists>r t. wait_inclusion_gate p tk h k backoff s = Some (r, t) \<and> rest t \<le> rest s"
proof (induction k arbitrary: s)
  case (Suc k)
  obtain x s1 where a: "on_disk (tracker_halt_check tk h) s = (x, s1)" by fastforce
  have le: "rest s1 = rest s" using a by simp
  show ?case
  proof (cases "rp_shutting_down p (es_world s)")
    case False
    let ?u = "es_sleep (rp_engine p) backoff s1"
    have lt: "rest ?u < rest s" using rest_sleep [of s1 backoff] awake [OF False] le by simp
    then have "rest ?u < k" using Suc.prems by simp
    from Suc.IH [OF this] a lt le False show ?thesis
      by (cases x) (auto split: halt_check.split)
  qed (simp add: exI [of _ False])
qed simp

lemma attempt_rest: "settle_attempt p b i s = (r, t) \<Longrightarrow> rest t \<le> rest s"
proof -
  assume "settle_attempt p b i s = (r, t)"
  then obtain u c r' where "on_world (rp_commit p b i c) u = (r', t)" "rest u = rest s"
    by (auto simp: settle_attempt_def st_map_err_def split: option.splits prod.splits sum.splits)
  from on_world_rest [OF this(1) commit] this(2) show ?thesis by simp
qed

lemma settle_with_gate_returns:
  assumes "rest s < k"
  shows "\<exists>r t. settle_with_gate p k b i s = Some (r, t) \<and> rest t \<le> rest s"
proof -
  let ?gate = "case rp_inbox p of None \<Rightarrow> Some (True, s)
    | Some tk \<Rightarrow> wait_inclusion_gate p tk (height (header b)) k 500 s"
  obtain g u where g: "?gate = Some (g, u)" "rest u \<le> rest s"
    using gate_returns [OF assms, of _ "height (header b)" 500] by (cases "rp_inbox p") fastforce+
  then have u: "rest u < k" using assms by simp
  have "\<exists>r t. retry_with_backoff p (settle_attempt p b i) k 500 10000 u = Some (r, t) \<and> rest t \<le> rest u"
    by (rule retry_returns [OF _ u]) (rule attempt_rest)
  then obtain r t where "retry_with_backoff p (settle_attempt p b i) k 500 10000 u = Some (r, t)" "rest t \<le> rest u"
    by blast
  with g show ?thesis by (cases g) (auto simp: settle_with_gate_def)
qed

lemma advance_rest: "advance_finalized p h bh s = (r, t) \<Longrightarrow> rest t \<le> rest s"
proof -
  assume a: "advance_finalized p h bh s = (r, t)"
  obtain x s1 where f: "engine_finalize (rp_engine p) (rn_head s) bh bh s = (x, s1)" by fastforce
  have "rest s1 \<le> rest s" using frame.preservesD [OF engine_finalize_le f] by (simp add: eng_le_def)
  moreover have "es_world t = es_world s1"
    using a f by (cases x) (auto simp: advance_finalized_def sbind_def st_map_err_def)
  ultimately show ?thesis by simp
qed

lemma clear_settled_world [simp]: "es_world (clear_settled p h s) = es_world s"
  by (simp add: clear_settled_def persist_state_def on_disk_def Let_def split: prod.split)

lemma settle_loop_returns:
  "rest s < k \<Longrightarrow> \<exists>t. settle_loop p k i bs s = Some t"
proof (induction bs arbitrary: s)
  case (Cons b bs)
  obtain r s1 where g: "settle_with_gate p k (pb_block b) i s = Some (r, s1)" and le: "rest s1 \<le> rest s"
    using settle_with_gate_returns [OF Cons.prems] by blast
  obtain x s2 where a: "advance_finalized p (pb_height b) (pb_block_hash b) (s1\<lparr>rn_batch := bs\<rparr>) = (x, s2)" by fastforce
  have "rest s2 \<le> rest s1" using advance_rest [OF a] by simp
  then have "rest (clear_settled p (pb_height b) s2) < k" using le Cons.prems by simp
  from Cons.IH [OF this] g a show ?case by (cases r; cases x) auto
qed simp

lemma flush_returns: "rest s < k \<Longrightarrow> \<exists>t. flush_batch p k s = Some t"
proof -
  assume k: "rest s < k"
  obtain r s1 where l: "publish_loop p (map pb_block (rn_batch s)) k 500 s = Some (r, s1)" and le: "rest s1 \<le> rest s"
    using publish_loop_returns [OF k] by blast
  have "rest s1 < k" using k le by simp
  from settle_loop_returns [OF this] l show ?thesis by (cases r) (auto simp: flush_batch_def)
qed

lemma turn_returns:
  assumes "rest s < k"
  shows "\<exists>t. finalizer_turn p k s = Some t"
proof -
  have f: "\<exists>t. flush_batch p k u = Some t" if "es_world u = es_world s" for u
    by (rule flush_returns) (simp add: that assms)
  have "\<exists>t. receive_block p k b (s\<lparr>rn_queue := q\<rparr>) = Some t" for b q
    unfolding receive_block_def Let_def using f by simp
  moreover obtain t1 t2 where "flush_batch p k s = Some t1"
    "flush_batch p k (s\<lparr>rn_timer := timer_disarm (rn_timer s)\<rparr>) = Some t2"
    using f [of s] f [of "s\<lparr>rn_timer := timer_disarm (rn_timer s)\<rparr>"] by auto
  ultimately show ?thesis
    unfolding finalizer_turn_def by (auto split: list.split option.split)
qed

end

text \<open>Any environment in which the shutdown flag is set after a number of sleeps: the number left is the
  second half of the world.\<close>

definition on_fst :: "('v \<Rightarrow> 'a \<times> 'v) \<Rightarrow> 'v \<times> nat \<Rightarrow> 'a \<times> 'v \<times> nat" where
  "on_fst f w = (case w of (v, n) \<Rightarrow> (case f v of (r, v') \<Rightarrow> (r, (v', n))))"

definition stopping_engine :: "'v engine_port \<Rightarrow> ('v \<times> nat) engine_port" where
  "stopping_engine p =
     \<lparr>ep_endpoint = ep_endpoint p,
      ep_token = on_fst (ep_token p),
      ep_post = (\<lambda>url tk body. on_fst (ep_post p url tk body)),
      ep_now = (\<lambda>(v, n). ep_now p v),
      ep_sleep = (\<lambda>ms (v, n). (ep_sleep p ms v, n - 1)),
      ep_enc_state = ep_enc_state p, ep_enc_attributes = ep_enc_attributes p,
      ep_enc_payload_id = ep_enc_payload_id p, ep_enc_payload = ep_enc_payload p,
      ep_enc_hashes = ep_enc_hashes p, ep_enc_hash = ep_enc_hash p,
      ep_dec_updated = ep_dec_updated p, ep_dec_envelope = ep_dec_envelope p,
      ep_dec_status = ep_dec_status p, ep_parse_hash = ep_parse_hash p,
      ep_int_error = ep_int_error p, ep_show_status = ep_show_status p\<rparr>"

definition stopping_port :: "'v runner_port \<Rightarrow> ('v \<times> nat) runner_port" where
  "stopping_port base =
     \<lparr>rp_engine = stopping_engine (rp_engine base),
      rp_now_unix = (\<lambda>(v, n). rp_now_unix base v),
      rp_shutting_down = (\<lambda>(v, n). n = 0 \<or> rp_shutting_down base v),
      rp_publish = (\<lambda>bs. on_fst (rp_publish base bs)),
      rp_commit = (\<lambda>b i c. on_fst (rp_commit base b i c)),
      rp_sign = rp_sign base,
      rp_broadcast = map_option (\<lambda>f out (v, n). (f out v, n)) (rp_broadcast base),
      rp_sha256 = rp_sha256 base, rp_inbox = rp_inbox base,
      rp_fee_recipient = rp_fee_recipient base, rp_genesis_hash = rp_genesis_hash base,
      rp_da_batch_size = rp_da_batch_size base, rp_flush_after = rp_flush_after base,
      rp_enc_payload = rp_enc_payload base, rp_dec_payload = rp_dec_payload base,
      rp_show_hash = rp_show_hash base, rp_parse_hash = rp_parse_hash base,
      rp_io = rp_io base, rp_dir = rp_dir base,
      rp_block_to_bytes = rp_block_to_bytes base, rp_block_from_bytes = rp_block_from_bytes base,
      rp_state_json = rp_state_json base, rp_heights_json = rp_heights_json base,
      rp_list_blocks = rp_list_blocks base\<rparr>"

interpretation stopping: shutdown_bound "stopping_port base" snd
  by unfold_locales (auto simp: stopping_port_def stopping_engine_def on_fst_def split: prod.split)

text \<open>
  C17: shutdown ends every retry. When the shutdown flag is set after at most as many more sleeps as the
  world counts, a turn of the finalizer given more rounds than that returns, in every
  environment: even when the publisher never accepts the batch, the contract never accepts the
  block and the inclusion gate never clears.
\<close>

theorem finalizer_returns_on_shutdown:
  assumes "snd (es_world s) < fuel"
  shows "\<exists>t. finalizer_turn (stopping_port base) fuel s = Some t"
  by (rule stopping.turn_returns) (rule assms)

end
