(* ===== verification/Runner_Examples.thy ===== *)
theory Runner_Examples
  imports Runner_Chain Runner_Shutdown
begin

text \<open>
  The properties of the sequencer at concrete inputs: an execution layer that builds and accepts the
  same block every time, an empty disk and one that a crash left with a pending block, and a
  contract at genesis.
\<close>

section \<open>A concrete sequencer\<close>

definition example_payload :: payload where
  "example_payload = \<lparr>pl_parent_hash = barr_fill 0, pl_state_root = barr_fill 3, pl_block_hash = barr_fill 7,
     pl_block_number = 1, pl_timestamp = 100, pl_transactions = [], pl_rest = []\<rparr>"

definition example_block :: block where
  "example_block = \<lparr>header = \<lparr>height = 1, parent_hash = barr_fill 0, state_root = barr_fill 3, timestamp = 100\<rparr>,
     data = [1], signature = Some (barr_fill 9)\<rparr>"

definition example_engine :: "unit engine_port" where
  "example_engine = \<lparr>ep_endpoint = [], ep_token = (\<lambda>w. (Ok [], w)),
     ep_post = (\<lambda>url tk body w. (Ok (JObj [(''result'', JNull)]), w)),
     ep_now = (\<lambda>_. 0), ep_sleep = (\<lambda>_ w. w),
     ep_enc_state = (\<lambda>_. Ok JNull), ep_enc_attributes = (\<lambda>_. Ok JNull), ep_enc_payload_id = (\<lambda>_. Ok JNull),
     ep_enc_payload = (\<lambda>_. Ok JNull), ep_enc_hashes = (\<lambda>_. Ok JNull), ep_enc_hash = (\<lambda>_. Ok JNull),
     ep_dec_updated = (\<lambda>_. Ok \<lparr>fu_payload_status = \<lparr>ps_status = Valid, ps_latest_valid_hash = None\<rparr>,
                              fu_payload_id = Some (barr_fill 1)\<rparr>),
     ep_dec_envelope = (\<lambda>_. Ok example_payload), ep_dec_status = (\<lambda>_. Ok \<lparr>ps_status = Valid, ps_latest_valid_hash = None\<rparr>),
     ep_parse_hash = (\<lambda>_. Err []), ep_int_error = (\<lambda>_. []), ep_show_status = (\<lambda>_. [])\<rparr>"

definition example_port :: "bool \<Rightarrow> unit runner_port" where
  "example_port stopped =
     \<lparr>rp_engine = example_engine, rp_now_unix = (\<lambda>_. 50), rp_shutting_down = (\<lambda>_. stopped),
      rp_publish = (\<lambda>bs w. (Ok (BlobId (barr_fill 8)), w)), rp_commit = (\<lambda>b i c w. (Err (Network ''down''), w)),
      rp_sign = (\<lambda>_. Ok (barr_fill 9)), rp_broadcast = None, rp_sha256 = (\<lambda>_. barr_fill 0), rp_inbox = None,
      rp_fee_recipient = barr_fill 0, rp_genesis_hash = Some (barr_fill 2), rp_da_batch_size = 0, rp_flush_after = Some 1000,
      rp_enc_payload = (\<lambda>_. Ok [1]), rp_dec_payload = (\<lambda>_. Ok example_payload),
      rp_show_hash = hash_text, rp_parse_hash = parse_hash_text, rp_io = no_faults, rp_dir = ''data'',
      rp_block_to_bytes = (\<lambda>b. if b = example_block then Ok [1] else Err ''block''),
      rp_block_from_bytes = (\<lambda>bs. if bs = [1] then Ok example_block else Err ''json''),
      rp_state_json = chain_state_json, rp_heights_json = heights_json, rp_list_blocks = (\<lambda>_. None)\<rparr>"

lemma example_port_simps [simp]:
  "rp_engine (example_port x) = example_engine" "rp_shutting_down (example_port x) w = x" "rp_inbox (example_port x) = None"
  "rp_io (example_port x) = no_faults" "rp_dir (example_port x) = ''data''" "rp_heights_json (example_port x) = heights_json"
  "rp_state_json (example_port x) = chain_state_json" "rp_show_hash (example_port x) = hash_text"
  "rp_now_unix (example_port x) w = 50" "rp_broadcast (example_port x) = None" "rp_sign (example_port x) hdr = Ok (barr_fill 9)"
  "rp_block_to_bytes (example_port x) b = (if b = example_block then Ok [1] else Err ''block'')"
  "rp_block_from_bytes (example_port x) bs = (if bs = [1] then Ok example_block else Err ''json'')"
  "rp_enc_payload (example_port x) = (\<lambda>_. Ok [1])" "rp_dec_payload (example_port x) bs = Ok example_payload"
  "rp_list_blocks (example_port x) d = None" "rp_genesis_hash (example_port x) = Some (barr_fill 2)"
  by (simp_all add: example_port_def)

text \<open>A disk with block 1 stored and pending.\<close>

definition crashed_disk :: "string \<Rightarrow> disk" where
  "crashed_disk t = \<lparr>files = [pending_path ''data'' \<mapsto> Text t, block_path ''data'' 1 \<mapsto> Bytes [1]], ops = 0\<rparr>"

lemma no_faults_None [simp]: "no_faults n = None" by (simp add: no_faults_def)

lemma crashed_marked:
  assumes "to_json heights_json [1] = Ok t" "rp_heights_json p = heights_json" "rp_dir p = ''data''"
  shows "marked p (crashed_disk t) {1}"
proof -
  have "holds heights_json [] (pending_path ''data'') (crashed_disk t) [1]"
    using assms(1) heights_json_ok by (auto simp: holds_def crashed_disk_def json_ok_def)
  then show ?thesis by (auto simp: marked_def pending_set_def assms(2,3) intro!: exI [of _ "[1]"])
qed

lemma crashed_stored:
  assumes "rp_dir p = ''data''" "rp_block_from_bytes p = rp_block_from_bytes (example_port x)"
  shows "stored_block p (crashed_disk t) h = (if h = 1 then Some example_block else None)"
  by (auto simp: stored_block_def crashed_disk_def assms block_path_def pending_path_def)

lemma example_call:
  "engine_call example_engine dec m ps s = (map_err EDecode (dec JNull), s\<lparr>es_next_id := es_next_id s + 1, es_world := ()\<rparr>)"
  by (simp add: engine_call_def example_engine_def decode_response_def jget_def Let_def)

lemma example_engine_simps [simp]:
  "ep_enc_state example_engine x = Ok JNull" "ep_enc_attributes example_engine a = Ok JNull"
  "ep_enc_payload_id example_engine i = Ok JNull" "ep_enc_payload example_engine pl = Ok JNull"
  "ep_enc_hashes example_engine hs = Ok JNull" "ep_enc_hash example_engine h = Ok JNull"
  "ep_dec_updated example_engine v = Ok \<lparr>fu_payload_status = \<lparr>ps_status = Valid, ps_latest_valid_hash = None\<rparr>,
     fu_payload_id = Some (barr_fill 1)\<rparr>"
  "ep_dec_envelope example_engine v = Ok example_payload"
  "ep_dec_status example_engine v = Ok \<lparr>ps_status = Valid, ps_latest_valid_hash = None\<rparr>"
  by (simp_all add: example_engine_def)

section \<open>Recovery\<close>

theorem recovery_requeues_pending_witness:
  "\<exists>t. rn_queue (recover_pending (example_port False) (fresh_runner (example_port False) 1 () (crashed_disk t))) =
     [\<lparr>pb_block = example_block, pb_block_hash = barr_fill 7, pb_height = 1\<rparr>]"
proof -
  let ?p = "example_port False"
  obtain t where t: "to_json heights_json [1] = Ok t" using heights_json_small [of "[1]"] by auto
  let ?s = "fresh_runner ?p 1 () (crashed_disk t)"
  have d: "rn_disk ?s = crashed_disk t" "rn_queue ?s = []" "rn_rx_open ?s" by (simp_all add: fresh_runner_def)
  have m: "marked ?p (rn_disk ?s) {1}" unfolding d by (rule crashed_marked [OF t]) simp_all
  have rq: "requeue ?p (crashed_disk t) 1 = Some \<lparr>pb_block = example_block, pb_block_hash = barr_fill 7, pb_height = 1\<rparr>"
    by (simp add: requeue_def crashed_stored [where x = False] decode_block_hash_def example_payload_def fun_eq_iff)
  have "rn_queue (recover_pending ?p ?s) = rn_queue ?s @ List.map_filter (requeue ?p (rn_disk ?s)) (sorted_list_of_set {1})"
    using recovery_requeues_pending [of ?p ?s "{1}", OF _ _ m d(3)] heights_json_ok by simp
  then show ?thesis by (auto simp: d rq map_filter_simps)
qed

section \<open>Production\<close>

lemma example_fcu:
  "fork_choice_updated_v3 example_engine st attrs s =
     (Ok \<lparr>fu_payload_status = \<lparr>ps_status = Valid, ps_latest_valid_hash = None\<rparr>, fu_payload_id = Some (barr_fill 1)\<rparr>,
      s\<lparr>es_next_id := es_next_id s + 1, es_world := ()\<rparr>)"
  by (simp add: fork_choice_updated_v3_def example_call sbind_def slift_def)

lemma example_wait:
  "wait_for_forkchoice example_engine st attrs s =
     (Ok \<lparr>fu_payload_status = \<lparr>ps_status = Valid, ps_latest_valid_hash = None\<rparr>, fu_payload_id = Some (barr_fill 1)\<rparr>,
      s\<lparr>es_next_id := es_next_id s + 1, es_world := ()\<rparr>)"
proof -
  have ten: "MAX_RETRIES = Suc 9" by (simp add: MAX_RETRIES_def)
  show ?thesis unfolding wait_for_forkchoice_def ten forkchoice_loop.simps by (simp add: example_fcu)
qed

definition example_built :: built_payload where
  "example_built = \<lparr>bp_payload_id = barr_fill 1, bp_payload = example_payload, bp_block_hash = barr_fill 7,
     bp_height = 1, bp_timestamp = 100\<rparr>"

lemma example_built_simps [simp]:
  "bp_block_hash example_built = barr_fill 7" "bp_height example_built = 1" "bp_payload example_built = example_payload"
  by (simp_all add: example_built_def)

lemma example_build:
  "\<exists>i. engine_build example_engine st attrs s = (Ok example_built, s\<lparr>es_next_id := i, es_world := ()\<rparr>)"
  by (simp add: engine_build_def get_payload_v4_def example_wait example_call sbind_def slift_def sreturn_def)
    (auto simp: example_built_def example_payload_def)

lemma example_accept:
  "\<exists>i. engine_accept example_engine pl h sf f s = (Ok (), s\<lparr>es_next_id := i, es_world := ()\<rparr>)"
proof -
  have n: "\<exists>i. new_payload_v4 example_engine pl [] PARENT_BEACON_BLOCK_ROOT s =
      (Ok \<lparr>ps_status = Valid, ps_latest_valid_hash = None\<rparr>, s\<lparr>es_next_id := i, es_world := ()\<rparr>)"
    by (auto simp: new_payload_v4_def example_call sbind_def slift_def)
  then show ?thesis
    by (auto simp: engine_accept_def example_wait sbind_def sreturn_def)
qed

lemma example_block_built:
  "payload_into_block (\<lambda>_. Ok [1]) example_built = Ok (example_block\<lparr>signature := None\<rparr>)"
  by (simp add: payload_into_block_def example_built_def example_payload_def example_block_def Let_def)

lemma example_signed [simp]:
  "header (example_block\<lparr>signature := None\<rparr>) = header example_block"
  "example_block\<lparr>signature := None, signature := Some (barr_fill 9)\<rparr> = example_block"
  by (simp_all add: example_block_def)

lemma example_publish:
  assumes "rn_disk s = blank_disk" "rn_rx_open s"
  shows "\<exists>t. publish_built (example_port False) example_built s = (Ok (), t)"
proof -
  let ?p = "example_port False"
  have io: "no_faults n = None" for n by simp
  obtain d1 where d1: "block_put no_faults (rp_block_to_bytes ?p) ''data'' example_block blank_disk = (Ok (), d1)"
    "files d1 (pending_path ''data'') = None"
    by (simp add: block_put_def sbind_def slift_def fs_write_def blank_disk_def)
  have "holds heights_json [] (pending_path ''data'') d1 []" using d1(2) by (simp add: holds_def)
  moreover obtain t where "to_json heights_json (pending_mark 1 []) = Ok t"
    using heights_json_small [of "[1]"] by (auto simp: pending_mark_def binary_search_def)
  ultimately obtain d2 where d2: "store_mark no_faults heights_json ''data'' 1 d1 = (Ok (), d2)"
    using pending_mutate_no_fault [where io = no_faults, OF io heights_json_ok, of "''data''" d1 "[]" "pending_mark 1"]
    by (auto simp: store_mark_def)
  let ?st = "\<lparr>cs_head = hash_text (rn_head s), cs_safe = hash_text (rn_safe s),
      cs_finalized = hash_text (rn_finalized s), cs_height = 1, cs_timestamp = rn_timestamp s\<rparr>"
  obtain u where u: "to_json chain_state_json ?st = Ok u" using chain_state_json_encodes by blast
  obtain d3 where d3: "state_save no_faults chain_state_json ''data'' ?st d2 = (Ok (), d3)"
    using save_json_no_fault [where io = no_faults, OF io u] unfolding state_save_def by blast
  have e1: "on_disk (st_map_err g (block_put no_faults (rp_block_to_bytes ?p) ''data'' example_block)) s = (Ok (), s\<lparr>rn_disk := d1\<rparr>)"
    for g :: "store_error \<Rightarrow> string" using d1 assms by (simp add: on_disk_def st_map_err_def)
  have e2: "on_disk (st_map_err g (store_mark no_faults heights_json ''data'' 1)) (s\<lparr>rn_disk := d1\<rparr>) = (Ok (), s\<lparr>rn_disk := d2\<rparr>)"
    for g :: "store_error \<Rightarrow> string" using d2 by (simp add: on_disk_def st_map_err_def)
  have e3: "persist_state ?p 1 (s\<lparr>rn_disk := d2\<rparr>) = (Ok (), s\<lparr>rn_disk := d3\<rparr>)"
    using d3 by (simp add: persist_state_def on_disk_def st_map_err_def)
  have obs: "s\<lparr>rn_disk := d1\<rparr>\<lparr>rn_disk := observe_block_inclusions None x y (rn_disk (s\<lparr>rn_disk := d1\<rparr>))\<rparr> = s\<lparr>rn_disk := d1\<rparr>" for x y
    by (simp add: observe_block_inclusions_def)
  have lat: "latest_or ?p 1 x = 1" for x by (simp add: latest_or_def block_latest_height_def)
  show ?thesis
    by (simp only: publish_built_def example_port_simps example_block_built map_err_simps slift_def
        example_built_simps example_signed Let_def sbind_def e1 e2 e3 obs lat prod.case sum.case) simp
qed


section \<open>Shutdown\<close>

theorem finalizer_returns_on_shutdown_witness:
  "\<exists>t. finalizer_turn (stopping_port (example_port False)) 3
     (fresh_runner (stopping_port (example_port False)) 1 ((), 2) blank_disk
        \<lparr>rn_queue := [\<lparr>pb_block = example_block, pb_block_hash = barr_fill 7, pb_height = 1\<rparr>]\<rparr>) = Some t"
  by (rule finalizer_returns_on_shutdown) (simp add: fresh_runner_def)

section \<open>On chain\<close>

definition example_net :: "(unit, unit) sui_net" where
  "example_net = \<lparr>sn_settlement = sample_settlement, sn_plan = (\<lambda>w. ((Delivered, None, []), w))\<rparr>"

definition example_world :: "unit sui_world" where
  "example_world = \<lparr>sw_rest = (), sw_chain = genesis (barr_fill 5) (barr_fill 6) 0, sw_blobs = []\<rparr>"

theorem refused_block_stalls_settlement_witness:
  "settle_with_gate (contract_port (example_port True) example_net) 1
       (example_block\<lparr>header := (header example_block)\<lparr>height := 5\<rparr>\<rparr>) (BlobId (barr_fill 8))
       (fresh_runner (contract_port (example_port True) example_net) 1 example_world blank_disk) =
     Some (False, fresh_runner (contract_port (example_port True) example_net) 1 example_world blank_disk)"
proof -
  let ?p = "contract_port (example_port True) example_net"
  let ?s = "fresh_runner ?p 1 example_world blank_disk"
  let ?b = "example_block\<lparr>header := (header example_block)\<lparr>height := 5\<rparr>\<rparr>"
  have g: "settle_with_gate ?p 1 ?b (BlobId (barr_fill 8)) ?s = Some (r, t) \<longleftrightarrow> \<not> r \<and> t = ?s" for r t
    by (auto simp: settle_with_gate_def)
  have "refused (registry_of ?s) ?b (barr_fill 8)"
    by (simp add: refused_def Let_def fresh_runner_def example_world_def genesis_def)
  from refused_block_stalls_settlement [OF this, of "example_port True" example_net 1 False ?s] g show ?thesis by simp
qed

text \<open>The settling turn, step by step: the publisher stores the blob, the contract takes the block, the
  execution layer confirms, the marker goes.\<close>

abbreviation net_port :: "unit sui_world runner_port" where
  "net_port \<equiv> contract_port (example_port False) example_net"

lemma rest_engine_simps [simp]:
  "ep_enc_state (rest_engine e) = ep_enc_state e" "ep_enc_attributes (rest_engine e) = ep_enc_attributes e"
  "ep_dec_updated (rest_engine e) = ep_dec_updated e" "ep_now (rest_engine e) w = ep_now e (sw_rest w)"
  by (simp_all add: rest_engine_def)

lemma net_call:
  "engine_call (rest_engine example_engine) dec m ps s =
     (map_err EDecode (dec JNull), s\<lparr>es_next_id := es_next_id s + 1, es_world := es_world s\<lparr>sw_rest := ()\<rparr>\<rparr>)"
  by (simp add: engine_call_def rest_engine_def example_engine_def on_rest_def decode_response_def jget_def Let_def)

lemma net_fcu:
  "fork_choice_updated_v3 (rest_engine example_engine) st attrs s =
     (Ok \<lparr>fu_payload_status = \<lparr>ps_status = Valid, ps_latest_valid_hash = None\<rparr>, fu_payload_id = Some (barr_fill 1)\<rparr>,
      s\<lparr>es_next_id := es_next_id s + 1, es_world := es_world s\<lparr>sw_rest := ()\<rparr>\<rparr>)"
  by (simp add: fork_choice_updated_v3_def net_call sbind_def slift_def)

lemma net_advance:
  "advance_finalized net_port h x s =
     (Ok (), s\<lparr>es_next_id := es_next_id s + 1, es_world := es_world s\<lparr>sw_rest := ()\<rparr>, rn_safe := x, rn_finalized := x\<rparr>)"
proof -
  have ten: "MAX_RETRIES = Suc 9" by (simp add: MAX_RETRIES_def)
  have "engine_finalize (rest_engine example_engine) hd' x x s =
      (Ok (), s\<lparr>es_next_id := es_next_id s + 1, es_world := es_world s\<lparr>sw_rest := ()\<rparr>\<rparr>)" for hd'
    unfolding engine_finalize_def wait_for_forkchoice_def ten forkchoice_loop.simps
    by (simp add: net_fcu sbind_def sreturn_def)
  then show ?thesis by (simp add: advance_finalized_def sbind_def st_map_err_def)
qed

lemma net_commits:
  assumes "w = example_world\<lparr>sw_blobs := bs\<rparr>"
  shows "\<exists>w'. net_commit example_net example_block (BlobId x) None w = (Ok (), w')"
proof -
  let ?c = "genesis (barr_fill 5) (barr_fill 6) 0"
  have "settleable ?c (header example_block) 0" by (simp add: settleable_def genesis_def example_block_def)
  then obtain ib where "do_settle (ch_registry ?c) (ch_inbox ?c) (to_vec x) (height (header example_block))
      (settle_block_ts (timestamp (header example_block))) 0 =
      Ok ((ch_registry ?c)\<lparr>mr_commitments := (mr_commitments (ch_registry ?c))(height (header example_block) \<mapsto> to_vec x),
            mr_latest_height := height (header example_block)\<rparr>, ib)"
    by (rule settle_first [OF chain_inv_genesis])
  then have "fst (contract_commit sample_settlement Delivered None example_block (BlobId x) None ?c) = Ok ()"
    unfolding contract_commit_Ok
    by (simp add: commit_cursor_def exec_settle_commands and_then_def sample_settlement_def genesis_def)
      (simp add: commit_state_root_def)
  then show ?thesis
    by (auto simp: net_commit_def on_rest_def example_net_def example_world_def assms prod_eq_iff split: prod.split)
qed

text \<open>A start over the crashed disk, then one turn of the finalizer, in an environment that is already
  shutting down.\<close>

abbreviation example_pending :: pending_block where
  "example_pending \<equiv> \<lparr>pb_block = example_block, pb_block_hash = barr_fill 7, pb_height = 1\<rparr>"

lemma net_clears:
  assumes "marked net_port (rn_disk s) {1}"
  shows "marked net_port (rn_disk (clear_settled net_port 1 s)) {}"
proof -
  have io: "no_faults n = None" for n by simp
  from assms obtain hs where hs: "holds heights_json [] (pending_path ''data'') (rn_disk s) hs" "set hs = {1}"
    by (auto simp: marked_def pending_set_def)
  obtain d1 where d1: "load_json no_faults heights_json [] (pending_path ''data'') (rn_disk s) = (Ok hs, d1)"
    using load_json_no_fault [where io = no_faults, OF io hs(1)] by blast
  have "remdups_adj (sort hs) = [1]"
    using hs(2) by (intro strict_sorted_equal) (simp_all add: sorted_dedup)
  then have cl: "pending_clear 1 (remdups_adj (sort hs)) = []" by (simp add: pending_clear_def binary_search_def)
  obtain t where t: "to_json heights_json [] = Ok t" using heights_json_small [of "[]"] by auto
  obtain d where "save_json no_faults heights_json (pending_tmp ''data'') (pending_path ''data'') [] d1 = (Ok (), d)"
    using save_json_no_fault [where io = no_faults, OF io t] by blast
  then have d: "store_clear no_faults heights_json ''data'' 1 (rn_disk s) = (Ok (), d)"
    using d1
    by (auto simp: store_clear_def pending_mutate_def pending_load_raw_def pending_save_raw_def sbind_def sreturn_def cl)
  then have m: "marked net_port d {}"
    using run_op_set [of heights_json no_faults "''data''" "ClearOp 1" "rn_disk s" "Ok ()" d "{1}"] heights_json_ok assms
    by (simp add: marked_def)
  have "clear_settled net_port 1 s = snd (persist_state net_port (latest_or net_port 1 (s\<lparr>rn_disk := d\<rparr>)) (s\<lparr>rn_disk := d\<rparr>))"
    by (simp add: clear_settled_def on_disk_def d Let_def)
  moreover obtain r d' where sv: "state_save no_faults chain_state_json ''data''
      \<lparr>cs_head = hash_text (rn_head s), cs_safe = hash_text (rn_safe s), cs_finalized = hash_text (rn_finalized s),
       cs_height = 1, cs_timestamp = rn_timestamp s\<rparr> d = (r, d')" by fastforce
  moreover have "rp_show_hash net_port = hash_text" "latest_or net_port 1 t = 1" for t
    by (simp_all add: contract_port_def latest_or_def block_latest_height_def)
  ultimately have "rn_disk (clear_settled net_port 1 s) = d'"
    by (simp add: persist_state_def on_disk_def st_map_err_def)
  moreover have "same_file (pending_path ''data'') d d'"
    using same_file.preservesD [OF state_save_same_file sv] by simp
  ultimately show ?thesis using marked_same_file [of net_port d d'] m by simp
qed

lemma net_turn:
  assumes "rn_queue s = [example_pending]" "rn_batch s = []" "ft_at (rn_timer s) = None" "es_world s = example_world"
    and "marked net_port (rn_disk s) {1}"
  shows "\<exists>u. finalizer_turn net_port (Suc 0) s = Some u \<and> marked net_port (rn_disk u) {}"
proof -
  let ?w = "example_world\<lparr>sw_blobs := [(BlobId (barr_fill 8), [example_block])]\<rparr>"
  obtain w' where w': "net_commit example_net example_block (BlobId (barr_fill 8)) None ?w = (Ok (), w')"
    using net_commits by blast
  have pub: "net_publish (example_port False) [example_block] example_world = (Ok (BlobId (barr_fill 8)), ?w)"
    by (simp add: net_publish_def on_rest_def example_port_def example_world_def)
  have gate: "settle_with_gate net_port (Suc 0) example_block (BlobId (barr_fill 8)) t = Some (True, t\<lparr>es_world := w'\<rparr>)"
    if "es_world t = ?w" for t
    using that by (simp add: settle_with_gate_def settle_attempt_def st_map_err_def on_world_def w')
  have "rp_da_batch_size net_port = 0" by (simp add: contract_port_def example_port_def)
  then obtain s2 where s2: "receive_block net_port (Suc 0) example_pending (s\<lparr>rn_queue := []\<rparr>) = map_option disarm_if_flushed (flush_batch net_port (Suc 0) s2)"
    "rn_batch s2 = [example_pending]" "es_world s2 = example_world" "rn_disk s2 = rn_disk s"
    using assms by (intro that [of "s\<lparr>rn_queue := [], rn_timer := timer_arm (ep_now (rp_engine net_port) example_world) (rn_timer s),
        rn_batch_bytes := saturating_add (rn_batch_bytes s) (vec_len (data example_block)), rn_batch := [example_pending]\<rparr>"])
      (simp_all add: receive_block_def Let_def)
  let ?s3 = "s2\<lparr>es_world := ?w\<rparr>"
  have fl: "flush_batch net_port (Suc 0) s2 = settle_loop net_port (Suc 0) (BlobId (barr_fill 8)) [example_pending] ?s3"
    using s2 by (simp add: flush_batch_def on_world_def pub)
  obtain s4 where s4: "settle_loop net_port (Suc 0) (BlobId (barr_fill 8)) [example_pending] ?s3 =
      Some ((clear_settled net_port 1 s4)\<lparr>rn_batch := [], rn_batch_bytes := 0\<rparr>)" "rn_disk s4 = rn_disk s"
    using s2 by (simp add: gate net_advance)
  then have "marked net_port (rn_disk (clear_settled net_port 1 s4)) {}" using net_clears assms(5) by simp
  then show ?thesis
    using assms s2(1) fl s4 by (simp add: finalizer_turn_def timer_deadline_def disarm_if_flushed_def)
qed

lemma example_run:
  assumes "to_json heights_json [1] = Ok t" "p = net_port"
  obtains s u where
    "runner_start p 1 (fresh_runner p 1 example_world (crashed_disk t)) = Some (Ok (), s)"
    "files_ok p (crashed_disk t)" "runner_run p sui_le s u" "marked p (rn_disk s) {1}" "marked p (rn_disk u) {}"
proof -
  let ?f = "fresh_runner p 1 example_world (crashed_disk t)"
  have pf: "rp_dir p = ''data''" "rp_block_from_bytes p = rp_block_from_bytes (example_port False)" "rp_io p = no_faults"
    "rp_heights_json p = heights_json" "rp_genesis_hash p = Some (barr_fill 2)" "\<And>bs. rp_dec_payload p bs = Ok example_payload"
    "rp_now_unix p w = 50" for w
    by (simp_all add: assms(2))
  have st: "stored_block p (crashed_disk t) h = (if h = 1 then Some example_block else None)" for h
    by (rule crashed_stored [OF pf(1,2)])
  have fo: "files_ok p (crashed_disk t)" by (simp add: files_ok_def st example_block_def)
  let ?d = "call (crashed_disk t)"
  have fd: "files ?d = files (crashed_disk t)" by simp
  have m: "marked p ?d {1}"
    using crashed_marked [OF assms(1) pf(4,1)] by (simp add: marked_def pending_set_def holds_def)
  let ?u = "with_pointers (barr_fill 2) (barr_fill 2) (barr_fill 2) 50 (?f\<lparr>rn_disk := ?d\<rparr>)"
  have fr: "rn_disk ?f = crashed_disk t" by (simp add: fresh_runner_def)
  have "store_init no_faults ''data'' (crashed_disk t) = (Ok (), ?d)"
    by (simp add: store_init_def fs_create_dir_all_def)
  moreover have "state_load no_faults (rp_state_json p) ''data'' ?d = (Ok None, ?d)"
    by (simp add: state_load_def fs_exists_def crashed_disk_def state_path_def pending_path_def block_path_def)
  ultimately have start: "runner_start p 1 ?f = Some (Ok (), recover_pending p ?u)"
    by (simp add: runner_start_def on_disk_def pf fr)
  let ?s = "recover_pending p ?u"
  have ud: "rn_disk ?u = ?d" "rn_queue ?u = []" "rn_rx_open ?u" "rn_batch ?u = []" by (simp_all add: with_pointers_def fresh_runner_def)
  obtain d where d: "files d = files ?d" and rec: "?s = recover_heights p (sorted_list_of_set {1}) (?u\<lparr>rn_disk := d\<rparr>)"
    using recover_pending_heights [of p ?u "{1}"] pf(3) m ud(1) by auto
  have sb: "stored_block p d = stored_block p (crashed_disk t)" using d fd by (intro stored_block_files) simp
  have rq: "requeue p d 1 = Some \<lparr>pb_block = example_block, pb_block_hash = barr_fill 7, pb_height = 1\<rparr>"
    by (simp add: requeue_def sb st decode_block_hash_def pf(6)) (simp add: example_payload_def)
  have io: "rp_io p n = None" for n by (simp add: pf(3))
  have "\<exists>S'. marked p (rn_disk ?s) S' \<and> {h \<in> {1}. requeue p d h \<noteq> None} \<subseteq> S' \<and> S' \<subseteq> {1}"
    using recover_heights_marked [where p = p and s = "?u\<lparr>rn_disk := d\<rparr>" and S = "{1}" and hs = "sorted_list_of_set {1}", OF _ io]
      m d heights_json_ok pf(4) unfolding rec by (simp add: marked_def pending_set_def holds_def)
  then have ms: "marked p (rn_disk ?s) {1}" using rq by (auto dest: subset_singletonD)
  have q: "rn_queue ?s = [\<lparr>pb_block = example_block, pb_block_hash = barr_fill 7, pb_height = 1\<rparr>]"
    using recover_heights_queue [where p = p and s = "?u\<lparr>rn_disk := d\<rparr>" and hs = "sorted_list_of_set {1}", OF io] ud
    unfolding rec by (simp add: rq map_filter_simps)
  obtain d2 where "recover_heights p [1] (?u\<lparr>rn_disk := d\<rparr>) =
      recover_heights p [] (tx_send example_pending (?u\<lparr>rn_disk := d\<rparr>\<lparr>rn_disk := d2\<rparr>))"
    by (rule recover_step [where s = "?u\<lparr>rn_disk := d\<rparr>" and p = p and h = 1 and hs = "[]"]) (auto simp: rq io)
  then have s: "?s = tx_send example_pending (?u\<lparr>rn_disk := d2\<rparr>)" using rec by simp
  have f: "rn_batch ?s = []" "ft_at (rn_timer ?s) = None" "es_world ?s = example_world" "rn_rx_open ?s"
    unfolding s by (simp_all add: tx_send_def with_pointers_def fresh_runner_def timer_new_def)
  from net_turn [OF q f(1-3)] ms assms(2)
  obtain u where u: "finalizer_turn p (Suc 0) ?s = Some u" "marked p (rn_disk u) {}" by blast
  have "runner_run p sui_le ?s u" by (rule runner_run.finalize [OF runner_run.start f(4) u(1)])
  from start fo this ms u(2) show ?thesis by (rule that)
qed

lemma marked_unique: "json_ok (rp_heights_json p) \<Longrightarrow> marked p d S \<Longrightarrow> marked p d T \<Longrightarrow> S = T"
  by (auto simp: marked_def pending_set_def holds_def split: option.splits if_splits)


theorem flush_triggers_cover_batch_witness:
  "\<exists>s t. runner_run net_port sui_le s t \<and> marked net_port (rn_disk s) {1} \<and>
     (rn_rx_open t \<and> ft_flush_after (rn_timer t) \<noteq> None \<longrightarrow> (ft_at (rn_timer t) \<noteq> None \<longleftrightarrow> rn_batch t \<noteq> []))"
proof -
  obtain t where t: "to_json heights_json [1] = Ok t" using heights_json_small [of "[1]"] by auto
  from example_run [OF t refl] obtain s u where su:
    "runner_start net_port 1 (fresh_runner net_port 1 example_world (crashed_disk t)) = Some (Ok (), s)"
    "files_ok net_port (crashed_disk t)" "runner_run net_port sui_le s u" "marked net_port (rn_disk s) {1}" "marked net_port (rn_disk u) {}" .
  from flush_triggers_cover_batch [OF su(1-3)] su(3,4) show ?thesis by blast
qed

end
