(* ===== verification/Bridge_Chain.thy ===== *)
theory Bridge_Chain
  imports Sui_Bridge L2_Rpc
begin

text \<open>
  The contracts of the bridge: the Vault on Sui (\<open>move/sources/bridge.move\<close>), the L2 token and the
  factory (\<open>solidity/src/Bridge.sol\<close>, \<open>solidity/src/BridgeFactory.sol\<close>), and the L2 ledger that runs them.
\<close>

section \<open>The Vault\<close>

datatype vault_abort =
    V_ZERO_AMOUNT
  | V_INSUFFICIENT_LIQUIDITY
  | V_INVALID_RECIPIENT
  | V_ROTATED
  | V_NOT_ROTATING
  | V_ROTATION rot_abort
  | V_ARITHMETIC_ERROR
  | V_FIELD_EXISTS

text \<open>The event of a release.\<close>

record vault_withdrawal =
  vw_nonce :: u64
  vw_coin_type :: "byte list"
  vw_amount :: u64
  vw_recipient :: address
  vw_l2_nonce :: u64

text \<open>The bag and the tables are maps; \<open>va_rotation\<close> is the rotation record of the dynamic field, \<open>va_events\<close>
  the emitted releases. A coin type is its \<open>type_key\<close>.\<close>

record vault =
  va_deposits_id :: address
  va_deposit_nonce :: u64
  va_withdraw_nonce :: u64
  va_reserves :: "byte list \<rightharpoonup> u64"
  va_deposits :: "u64 \<rightharpoonup> deposit_record"
  va_processed :: "byte list \<rightharpoonup> bool"
  va_rotation :: "rotation_state option"
  va_events :: "vault_withdrawal list"

definition vault_add :: "u64 \<Rightarrow> u64 \<Rightarrow> (vault_abort, u64) result" where
  "vault_add a b = (if unat a + unat b < 2 ^ 64 then Ok (a + b) else Err V_ARITHMETIC_ERROR)"

definition vault_deposit :: "byte list \<Rightarrow> u64 \<Rightarrow> byte list \<Rightarrow> vault \<Rightarrow> (vault_abort, vault) result" where
  "vault_deposit coin amount recipient_l2 v =
     (if \<not> amount > 0 then Err V_ZERO_AMOUNT
      else if length recipient_l2 \<noteq> 20 then Err V_INVALID_RECIPIENT
      else and_then (case va_reserves v coin of None \<Rightarrow> Ok amount | Some held \<Rightarrow> vault_add held amount) (\<lambda>held.
        let nonce = va_deposit_nonce v in
        if va_deposits v nonce \<noteq> None then Err V_FIELD_EXISTS
        else and_then (vault_add nonce 1) (\<lambda>next.
          Ok (v\<lparr>va_reserves := (va_reserves v)(coin \<mapsto> held),
                va_deposits := (va_deposits v)(nonce \<mapsto>
                  \<lparr>dr_amount = amount, dr_recipient_l2 = recipient_l2, dr_coin_type = coin\<rparr>),
                va_deposit_nonce := next\<rparr>))))"

definition withdraw_key :: "byte list \<Rightarrow> u64 \<Rightarrow> byte list" where
  "withdraw_key coin l2_nonce = coin @ to_le_bytes l2_nonce"

definition do_withdraw ::
    "byte list \<Rightarrow> address \<Rightarrow> u64 \<Rightarrow> u64 \<Rightarrow> vault \<Rightarrow> (vault_abort, bool \<times> vault) result" where
  "do_withdraw coin recipient amount l2_nonce v =
     (let key = withdraw_key coin l2_nonce in
      if va_processed v key \<noteq> None then Ok (False, v)
      else if \<not> amount > 0 then Err V_ZERO_AMOUNT
      else case va_reserves v coin of
        None \<Rightarrow> Err V_INSUFFICIENT_LIQUIDITY
      | Some held \<Rightarrow>
          if \<not> held \<ge> amount then Err V_INSUFFICIENT_LIQUIDITY
          else and_then (vault_add (va_withdraw_nonce v) 1) (\<lambda>next.
            Ok (True, v\<lparr>va_processed := (va_processed v)(key \<mapsto> True),
                        va_reserves := (va_reserves v)(coin \<mapsto> held - amount),
                        va_withdraw_nonce := next,
                        va_events := va_events v @
                          [\<lparr>vw_nonce = va_withdraw_nonce v, vw_coin_type = coin, vw_amount = amount,
                            vw_recipient = recipient, vw_l2_nonce = l2_nonce\<rparr>]\<rparr>)))"

definition withdraw_as ::
    "u64 \<Rightarrow> address \<Rightarrow> byte list \<Rightarrow> address \<Rightarrow> u64 \<Rightarrow> u64 \<Rightarrow> vault \<Rightarrow> (vault_abort, bool \<times> vault) result" where
  "withdraw_as clock sender coin recipient amount l2_nonce v =
     (case va_rotation v of
        None \<Rightarrow> Err V_NOT_ROTATING
      | Some st \<Rightarrow>
          if \<not> can_act st clock sender then Err (V_ROTATION E_NOT_AUTHORIZED)
          else do_withdraw coin recipient amount l2_nonce v)"

section \<open>The L2 token\<close>

type_synonym u256 = "256 word"
record bridge_token =
  bt_coin_type :: string
  bt_total_supply :: u256
  bt_balance_of :: "evm_address \<Rightarrow> u256"
  bt_relayer :: evm_address
  bt_last_minted_nonce :: u64
  bt_minted_any :: bool
  bt_last_withdrawal_nonce :: u64
  bt_initialized :: bool

definition checked_add :: "'a::len word \<Rightarrow> 'a word \<Rightarrow> (string, 'a word) result" where
  "checked_add a b = (if unat a + unat b < 2 ^ LENGTH('a) then Ok (a + b) else Err ''Panic(0x11)'')"

definition token_setup :: "string \<Rightarrow> evm_address \<Rightarrow> bridge_token \<Rightarrow> (string, bridge_token) result" where
  "token_setup coin_type relayer t =
     (if relayer = barr_fill 0 then Err ''Bridge: zero relayer''
      else Ok (t\<lparr>bt_initialized := True, bt_coin_type := coin_type, bt_relayer := relayer\<rparr>))"

definition token_blank :: bridge_token where
  "token_blank = \<lparr>bt_coin_type = [], bt_total_supply = 0, bt_balance_of = (\<lambda>_. 0), bt_relayer = barr_fill 0,
     bt_last_minted_nonce = 0, bt_minted_any = False, bt_last_withdrawal_nonce = 0, bt_initialized = False\<rparr>"

definition token_initialize :: "string \<Rightarrow> evm_address \<Rightarrow> bridge_token \<Rightarrow> (string, bridge_token) result" where
  "token_initialize coin_type relayer t =
     (if bt_initialized t then Err ''Bridge: already initialized'' else token_setup coin_type relayer t)"

definition token_mint :: "evm_address \<Rightarrow> evm_address \<Rightarrow> u256 \<Rightarrow> u64 \<Rightarrow> bridge_token \<Rightarrow> (string, bridge_token) result" where
  "token_mint sender recipient amount nonce t =
     (if sender \<noteq> bt_relayer t then Err ''Bridge: not relayer''
      else if \<not> (if bt_minted_any t then nonce > bt_last_minted_nonce t else nonce = 0) then Err ''Bridge: stale nonce''
      else if recipient = barr_fill 0 then Err ''Bridge: mint to zero''
      else and_then (checked_add (bt_total_supply t) amount) (\<lambda>supply.
           and_then (checked_add (bt_balance_of t recipient) amount) (\<lambda>balance.
             Ok (t\<lparr>bt_last_minted_nonce := nonce, bt_minted_any := True, bt_total_supply := supply,
                   bt_balance_of := (bt_balance_of t)(recipient := balance)\<rparr>))))"

text \<open>The returned number is the withdrawal nonce of the event.\<close>

definition token_initiate_withdrawal ::
    "evm_address \<Rightarrow> hash \<Rightarrow> u256 \<Rightarrow> bridge_token \<Rightarrow> (string, u64 \<times> bridge_token) result" where
  "token_initiate_withdrawal sender sui_recipient amount t =
     (if \<not> amount > 0 then Err ''Bridge: zero amount''
      else if sui_recipient = barr_fill 0 then Err ''Bridge: zero recipient''
      else let bal = bt_balance_of t sender in
        if \<not> bal \<ge> amount then Err ''Bridge: insufficient balance''
        else and_then (checked_add (bt_last_withdrawal_nonce t) 1) (\<lambda>nonce.
          Ok (nonce, t\<lparr>bt_balance_of := (bt_balance_of t)(sender := bal - amount),
                       bt_total_supply := bt_total_supply t - amount, bt_last_withdrawal_nonce := nonce\<rparr>)))"

definition token_transfer :: "evm_address \<Rightarrow> evm_address \<Rightarrow> u256 \<Rightarrow> bridge_token \<Rightarrow> (string, bridge_token) result" where
  "token_transfer sender recipient amount t =
     (if recipient = barr_fill 0 then Err ''Bridge: transfer to zero''
      else let bal = bt_balance_of t sender in
        if \<not> bal \<ge> amount then Err ''Bridge: insufficient balance''
        else let b1 = (bt_balance_of t)(sender := bal - amount) in
          Ok (t\<lparr>bt_balance_of := b1(recipient := b1 recipient + amount)\<rparr>))"

section \<open>The factory and the ledger\<close>

record bridge_factory =
  bf_relayer :: evm_address
  bf_initialized :: bool
  bf_token_for :: "string \<Rightarrow> evm_address"

text \<open>The events the relayer reads, and mints; \<open>EvForeign\<close> is a log of any other contract.\<close>

datatype l2_event =
    EvCreated evm_address string string string
  | EvWithdrawal u64 evm_address hash u256
  | EvMinted u64 evm_address u256 string
  | EvForeign "hash list" "byte list"

datatype l2_call =
    CallMint evm_address u256 u64
  | CallCreateBridge string string string
  | CallAdopt string evm_address
  | CallInitToken string evm_address
  | CallWithdraw hash u256
  | CallTransfer evm_address u256
  | CallForeign "hash list" "byte list"

text \<open>A mined log: block, emitter, event. \<open>l2_tokens\<close> are the \<open>Bridge\<close> contracts by address, \<open>l2_receipts\<close>
  the status and the logs of the mined raw transactions, \<open>l2_pool\<close> those waiting.\<close>

type_synonym l2_log = "u64 \<times> evm_address \<times> l2_event"

record l2_ledger =
  l2_head :: u64
  l2_factory_at :: evm_address
  l2_factory :: bridge_factory
  l2_tokens :: "evm_address \<rightharpoonup> bridge_token"
  l2_logs :: "l2_log list"
  l2_receipts :: "(byte list \<times> bool \<times> l2_log list) list"
  l2_pool :: "byte list list"

definition factory_create ::
    "string \<Rightarrow> string \<Rightarrow> string \<Rightarrow> evm_address \<Rightarrow> l2_ledger \<Rightarrow> (string, l2_log list \<times> l2_ledger) result" where
  "factory_create name symbol coin_type created g =
     (let f = l2_factory g in
      if \<not> bf_initialized f then Err ''BridgeFactory: not initialized''
      else if \<not> length coin_type > 0 then Err ''BridgeFactory: empty coin type''
      else if bf_token_for f coin_type \<noteq> barr_fill 0 then Err ''BridgeFactory: coin type already has a token''
      else if created = barr_fill 0 \<or> created = l2_factory_at g \<or> l2_tokens g created \<noteq> None \<or>
        created \<in> fst ` snd ` set (l2_logs g) then Err ''create collision''
      else and_then (token_setup coin_type (bf_relayer f) token_blank) (\<lambda>t.
        Ok ([(l2_head g, l2_factory_at g, EvCreated created coin_type name symbol)],
            g\<lparr>l2_tokens := (l2_tokens g)(created \<mapsto> t),
              l2_factory := f\<lparr>bf_token_for := (bf_token_for f)(coin_type := created)\<rparr>\<rparr>)))"

definition factory_adopt ::
    "evm_address \<Rightarrow> string \<Rightarrow> evm_address \<Rightarrow> l2_ledger \<Rightarrow> (string, l2_log list \<times> l2_ledger) result" where
  "factory_adopt sender coin_type token g =
     (let f = l2_factory g in
      if sender \<noteq> bf_relayer f then Err ''BridgeFactory: not relayer''
      else if \<not> bf_initialized f then Err ''BridgeFactory: not initialized''
      else if token = barr_fill 0 then Err ''BridgeFactory: zero token''
      else if \<not> length coin_type > 0 then Err ''BridgeFactory: empty coin type''
      else if bf_token_for f coin_type \<noteq> barr_fill 0 then Err ''BridgeFactory: coin type already has a token''
      else case l2_tokens g token of
        None \<Rightarrow> Err ''call to non-contract''
      | Some t \<Rightarrow>
          if bt_coin_type t \<noteq> coin_type then Err ''BridgeFactory: token coin type mismatch''
          else if bt_relayer t \<noteq> bf_relayer f then Err ''BridgeFactory: token relayer mismatch''
          else Ok ([(l2_head g, l2_factory_at g, EvCreated token coin_type [] [])],
                   g\<lparr>l2_factory := f\<lparr>bf_token_for := (bf_token_for f)(coin_type := token)\<rparr>\<rparr>))"

text \<open>Solidity's calldata decoder reverts on a string of 2^64 bytes or more.\<close>

definition calldata_fits :: "string list \<Rightarrow> bool" where
  "calldata_fits args \<longleftrightarrow> (\<forall>s \<in> set args. length s < 2 ^ 64)"

text \<open>One call of \<open>sender\<close> to the contract at \<open>target\<close>. \<open>created\<close> is the address a creation would get; an
  address with code, that is one that has already logged, is refused.\<close>

definition token_call ::
    "evm_address \<Rightarrow> (bridge_token \<Rightarrow> (string, l2_event list \<times> bridge_token) result) \<Rightarrow> l2_ledger \<Rightarrow>
     (string, l2_log list \<times> l2_ledger) result" where
  "token_call target op g =
     (case l2_tokens g target of
        None \<Rightarrow> Err ''call to non-contract''
      | Some t \<Rightarrow> and_then (op t) (\<lambda>(evs, t').
          Ok (map (\<lambda>e. (l2_head g, target, e)) evs, g\<lparr>l2_tokens := (l2_tokens g)(target \<mapsto> t')\<rparr>)))"

fun l2_exec ::
    "evm_address \<Rightarrow> evm_address \<Rightarrow> evm_address \<Rightarrow> l2_call \<Rightarrow> l2_ledger \<Rightarrow> (string, l2_log list \<times> l2_ledger) result" where
  "l2_exec sender target created (CallMint recipient amount nonce) g =
     token_call target (\<lambda>t. and_then (token_mint sender recipient amount nonce t) (\<lambda>t'.
       Ok ([EvMinted nonce recipient amount (bt_coin_type t)], t'))) g"
| "l2_exec sender target created (CallWithdraw sui_recipient amount) g =
     token_call target (\<lambda>t. and_then (token_initiate_withdrawal sender sui_recipient amount t) (\<lambda>(nonce, t').
       Ok ([EvWithdrawal nonce sender sui_recipient amount], t'))) g"
| "l2_exec sender target created (CallTransfer recipient amount) g =
     token_call target (\<lambda>t. and_then (token_transfer sender recipient amount t) (\<lambda>t'. Ok ([], t'))) g"
| "l2_exec sender target created (CallInitToken coin_type relayer) g =
     token_call target (\<lambda>t. and_then (token_initialize coin_type relayer t) (\<lambda>t'. Ok ([], t'))) g"
| "l2_exec sender target created (CallCreateBridge name symbol coin_type) g =
     (if target \<noteq> l2_factory_at g \<or> \<not> calldata_fits [name, symbol, coin_type] then Err ''call reverted''
      else factory_create name symbol coin_type created g)"
| "l2_exec sender target created (CallAdopt coin_type token) g =
     (if target \<noteq> l2_factory_at g \<or> \<not> calldata_fits [coin_type] then Err ''call reverted''
      else factory_adopt sender coin_type token g)"
| "l2_exec sender target created (CallForeign topics dat) g =
     (if target = l2_factory_at g \<or> l2_tokens g target \<noteq> None then Err ''no such function''
      else Ok ([(l2_head g, target, EvForeign topics dat)], g))"

text \<open>A call in a new block; a reverted one leaves only the block.\<close>

definition l2_mine :: "evm_address \<Rightarrow> evm_address \<Rightarrow> evm_address \<Rightarrow> l2_call \<Rightarrow> l2_ledger \<Rightarrow> (bool \<times> l2_log list) \<times> l2_ledger" where
  "l2_mine sender target created c g =
     (let g1 = g\<lparr>l2_head := l2_head g + 1\<rparr> in
      case l2_exec sender target created c g1 of
        Inl _ \<Rightarrow> ((False, []), g1)
      | Inr (lgs, g2) \<Rightarrow> ((True, lgs), g2\<lparr>l2_logs := l2_logs g2 @ lgs\<rparr>))"

end
