(* ===== verification/Bridge_World.thy ===== *)
theory Bridge_World
  imports Relayer Bridge_Chain
begin

text \<open>
  The relayer between the two chains: a Sui network that runs the Vault and an L2 node that answers
  the JSON-RPC requests of the relayer from its ledger, while users of both chains transact,
  pooled transactions are mined late or never, and requests and answers get lost.
\<close>

section \<open>Logs on the wire\<close>

definition abi_u64 :: "u64 \<Rightarrow> byte list" where
  "abi_u64 n = replicate 24 0 @ to_be_bytes n"

definition abi_u256 :: "u256 \<Rightarrow> byte list" where
  "abi_u256 x = rev (le_bytes 32 x)"

definition abi_address :: "evm_address \<Rightarrow> byte list" where
  "abi_address a = replicate 12 0 @ to_vec a"

definition abi_padding :: "nat \<Rightarrow> byte list" where
  "abi_padding n = replicate ((32 - n mod 32) mod 32) 0"

definition abi_string :: "string \<Rightarrow> byte list" where
  "abi_string s = abi_u64 (of_nat (length s)) @ as_bytes s @ abi_padding (length s)"

text \<open>Three strings: their offsets, then the strings.\<close>

definition abi_strings3 :: "string \<Rightarrow> string \<Rightarrow> string \<Rightarrow> byte list" where
  "abi_strings3 a b c =
     (let xa = abi_string a; xb = abi_string b; xc = abi_string c
      in abi_u64 96 @ abi_u64 (of_nat (96 + length xa)) @ abi_u64 (of_nat (96 + length xa + length xb)) @ xa @ xb @ xc)"

fun event_topics :: "evm_lib \<Rightarrow> l2_event \<Rightarrow> hash list" where
  "event_topics l (EvCreated token coin name symbol) = [BRIDGE_CREATED_TOPIC l, Abs_barray (abi_address token)]"
| "event_topics l (EvWithdrawal nonce sender sui_recipient amount) =
     [WITHDRAWAL_TOPIC l, Abs_barray (abi_u64 nonce), Abs_barray (abi_address sender), sui_recipient]"
| "event_topics l (EvMinted nonce recipient amount coin) =
     [el_keccak l (as_bytes ''DepositMinted(uint64,address,uint256,string)''), Abs_barray (abi_u64 nonce),
      Abs_barray (abi_address recipient)]"
| "event_topics l (EvForeign topics dat) = topics"

fun event_data :: "l2_event \<Rightarrow> byte list" where
  "event_data (EvCreated token coin name symbol) = abi_strings3 coin name symbol"
| "event_data (EvWithdrawal nonce sender sui_recipient amount) = abi_u256 amount"
| "event_data (EvMinted nonce recipient amount coin) = abi_u256 amount @ abi_u64 64 @ abi_string coin"
| "event_data (EvForeign topics dat) = dat"

definition wire_log :: "evm_lib \<Rightarrow> l2_log \<Rightarrow> rpc_log" where
  "wire_log l lg = (case lg of (blk, a, e) \<Rightarrow>
     \<lparr>rl_address = hex_text l (to_vec a), rl_topics = map (\<lambda>t. hex_text l (to_vec t)) (event_topics l e),
      rl_data = hex_text l (event_data e)\<rparr>)"

definition log_json :: "rpc_log \<Rightarrow> jv" where
  "log_json lg = JObj [(''address'', JStr (rl_address lg)), (''topics'', JArr (map JStr (rl_topics lg))),
     (''data'', JStr (rl_data lg))]"

section \<open>The node\<close>

text \<open>\<open>bn_decode\<close> reads a signed transaction back into its target and call, \<open>bn_hash\<close> is the
  transaction hash, \<open>bn_read_address\<close> reads an address text, \<open>bn_misc\<close> answers the requests that say
  nothing about the bridge (nonce, gas price, chain id, code). \<open>bn_plan\<close> is the fate of the next request of
  the relayer and what happens on the chains before it.\<close>

datatype outside_act =
    UserDeposit "byte list" u64 "byte list"
  | SetRotation rotation_state
  | BridgeClock u64
  | UserCall evm_address evm_address evm_address l2_call
  | MineRelayer "byte list" evm_address bool
  | EmptyBlock

datatype fate = Answered | Unreachable string | AnswerLost string

record ('v, 'key) bridge_net =
  bn_lib :: evm_lib
  bn_signer :: evm_address
  bn_factory :: evm_address
  bn_client :: "'key bridge_client"
  bn_child_id :: "address \<Rightarrow> byte list \<Rightarrow> address"
  bn_nonce_of :: "address \<Rightarrow> u64 option"
  bn_decode :: "byte list \<Rightarrow> (evm_address \<times> l2_call) option"
  bn_hash :: "byte list \<Rightarrow> string"
  bn_read_address :: "string \<Rightarrow> evm_address option"
  bn_misc :: "'v \<Rightarrow> jv \<Rightarrow> jv"
  bn_plan :: "'v \<Rightarrow> (outside_act list \<times> fate) \<times> 'v"

record 'v bridge_world =
  bw_rest :: 'v
  bw_clock :: u64
  bw_vault :: vault
  bw_l2 :: l2_ledger

text \<open>A coin type of the Vault is a type name as Sui prints it.\<close>

definition canonical_coin :: "evm_lib \<Rightarrow> byte list \<Rightarrow> bool" where
  "canonical_coin l coin \<longleftrightarrow> (case from_utf8 [] coin of Inl _ \<Rightarrow> False | Inr s \<Rightarrow> normalize_coin_type l s = Ok coin)"

fun outside_step :: "('v, 'key) bridge_net \<Rightarrow> outside_act \<Rightarrow> 'v bridge_world \<Rightarrow> 'v bridge_world" where
  "outside_step net (UserDeposit coin amount recipient) w =
     (if \<not> canonical_coin (bn_lib net) coin then w
      else case vault_deposit coin amount recipient (bw_vault w) of Inl _ \<Rightarrow> w | Inr v \<Rightarrow> w\<lparr>bw_vault := v\<rparr>)"
| "outside_step net (SetRotation st) w = w\<lparr>bw_vault := (bw_vault w)\<lparr>va_rotation := Some st\<rparr>\<rparr>"
| "outside_step net (BridgeClock t) w = w\<lparr>bw_clock := t\<rparr>"
| "outside_step net (UserCall sender target created c) w =
     (if sender = bn_signer net \<or> sender = barr_fill 0 then w
      else w\<lparr>bw_l2 := snd (l2_mine sender target created c (bw_l2 w))\<rparr>)"
| "outside_step net (MineRelayer raw created enough_gas) w =
     (let g = bw_l2 w; g0 = g\<lparr>l2_pool := removeAll raw (l2_pool g)\<rparr> in
      if raw \<notin> set (l2_pool g) \<or> raw \<in> fst ` set (l2_receipts g) then w
      else case bn_decode net raw of
        None \<Rightarrow> w
      | Some (target, c) \<Rightarrow>
          (case (if enough_gas then l2_mine (bn_signer net) target created c g0
                 else ((False, []), g0\<lparr>l2_head := l2_head g0 + 1\<rparr>)) of
             (rcpt, g1) \<Rightarrow> w\<lparr>bw_l2 := g1\<lparr>l2_receipts := l2_receipts g1 @ [(raw, rcpt)]\<rparr>\<rparr>))"
| "outside_step net EmptyBlock w = w\<lparr>bw_l2 := (bw_l2 w)\<lparr>l2_head := l2_head (bw_l2 w) + 1\<rparr>\<rparr>"

definition hex_qty :: "u64 \<Rightarrow> jv" where
  "hex_qty n = JStr (''0x'' @ show_hex_u64 n)"

definition str_of :: "jv option \<Rightarrow> string" where
  "str_of v = (case v of Some (JStr t) \<Rightarrow> t | _ \<Rightarrow> [])"

definition arr_of :: "jv option \<Rightarrow> jv list" where
  "arr_of v = (case v of Some (JArr xs) \<Rightarrow> xs | _ \<Rightarrow> [])"

definition qty_of :: "jv option \<Rightarrow> u64" where
  "qty_of v = (case from_str_radix_16 (trim_start_0x (str_of v)) of Some n \<Rightarrow> n | None \<Rightarrow> 0)"

text \<open>\<open>eth_getLogs\<close>: block range, emitters, first topic.\<close>

definition node_logs :: "('v, 'key) bridge_net \<Rightarrow> jv \<Rightarrow> l2_ledger \<Rightarrow> jv" where
  "node_logs net q g =
     (let addrs = map (\<lambda>x. bn_read_address net (str_of (Some x))) (arr_of (jget ''address'' q));
          topic = str_of (case arr_of (jget ''topics'' q) of [] \<Rightarrow> None | t # _ \<Rightarrow> Some t)
      in JArr (map (log_json \<circ> wire_log (bn_lib net))
           (filter (\<lambda>(blk, a, e). qty_of (jget ''fromBlock'' q) \<le> blk \<and> blk \<le> qty_of (jget ''toBlock'' q) \<and>
                Some a \<in> set addrs \<and> (case event_topics (bn_lib net) e of [] \<Rightarrow> False
                                    | t # _ \<Rightarrow> hex_text (bn_lib net) (to_vec t) = topic)) (l2_logs g))))"

text \<open>\<open>eth_call\<close> of the two getters of a token.\<close>

definition node_call :: "('v, 'key) bridge_net \<Rightarrow> 'v \<Rightarrow> jv \<Rightarrow> jv \<Rightarrow> l2_ledger \<Rightarrow> jv" where
  "node_call net v req q g =
     (let l = bn_lib net; dat = str_of (jget ''data'' q) in
      case Option.bind (bn_read_address net (str_of (jget ''to'' q))) (l2_tokens g) of
        Some t \<Rightarrow>
          if dat = hex_text l (selector l ''lastMintedDepositNonce()'') then
            JStr (hex_text l (abi_u64 (bt_last_minted_nonce t)))
          else if dat = hex_text l (selector l ''mintedAny()'') then
            JStr (hex_text l (abi_u64 (if bt_minted_any t then 1 else 0)))
          else bn_misc net v req
      | None \<Rightarrow> bn_misc net v req)"

definition receipt_json :: "evm_lib \<Rightarrow> bool \<times> l2_log list \<Rightarrow> jv" where
  "receipt_json l r = JObj [(''status'', JStr (if fst r then ''0x1'' else ''0x0'')),
     (''logs'', JArr (map (log_json \<circ> wire_log l) (snd r)))]"

definition node_receipt :: "('v, 'key) bridge_net \<Rightarrow> string \<Rightarrow> l2_ledger \<Rightarrow> jv" where
  "node_receipt net h g =
     (case List.find (\<lambda>(raw, r). bn_hash net raw = h) (l2_receipts g) of
        None \<Rightarrow> JNull
      | Some (_, r) \<Rightarrow> receipt_json (bn_lib net) r)"

definition node_send :: "('v, 'key) bridge_net \<Rightarrow> string \<Rightarrow> l2_ledger \<Rightarrow> jv \<times> l2_ledger" where
  "node_send net t g =
     (case el_unhex (bn_lib net) (trim_start_0x t) of
        Inl e \<Rightarrow> (JNull, g)
      | Inr raw \<Rightarrow> (JStr (bn_hash net raw), g\<lparr>l2_pool := l2_pool g @ [raw]\<rparr>))"

definition node_serve :: "('v, 'key) bridge_net \<Rightarrow> 'v \<Rightarrow> jv \<Rightarrow> l2_ledger \<Rightarrow> jv \<times> l2_ledger" where
  "node_serve net v req g =
     (let name = str_of (jget ''method'' req); ps = arr_of (jget ''params'' req) in
      if name = ''eth_blockNumber'' then (hex_qty (l2_head g), g)
      else if name = ''eth_getLogs'' \<and> ps \<noteq> [] then (node_logs net (hd ps) g, g)
      else if name = ''eth_call'' \<and> ps \<noteq> [] then (node_call net v req (hd ps) g, g)
      else if name = ''eth_sendRawTransaction'' \<and> ps \<noteq> [] then node_send net (str_of (Some (hd ps))) g
      else if name = ''eth_getTransactionReceipt'' \<and> ps \<noteq> [] then (node_receipt net (str_of (Some (hd ps))) g, g)
      else (bn_misc net v req, g))"

text \<open>What happens before a request of the relayer is answered, and the fate of the request.\<close>

definition before_request :: "('v, 'key) bridge_net \<Rightarrow> 'v bridge_world \<Rightarrow> fate \<times> 'v bridge_world" where
  "before_request net w =
     (case bn_plan net (bw_rest w) of ((acts, f), v) \<Rightarrow> (f, fold (outside_step net) acts (w\<lparr>bw_rest := v\<rparr>)))"

definition node_post :: "('v, 'key) bridge_net \<Rightarrow> jv \<Rightarrow> 'v bridge_world \<Rightarrow> (string, jv) result \<times> 'v bridge_world" where
  "node_post net req w =
     (case before_request net w of (f, w1) \<Rightarrow>
       (case node_serve net (bw_rest w1) req (bw_l2 w1) of (v, g) \<Rightarrow>
         (case f of
            Unreachable e \<Rightarrow> (Err e, w1)
          | AnswerLost e \<Rightarrow> (Err e, w1\<lparr>bw_l2 := g\<rparr>)
          | Answered \<Rightarrow> (Ok (JObj [(''jsonrpc'', JStr ''2.0''), (''id'', JNum 1), (''result'', v)]), w1\<lparr>bw_l2 := g\<rparr>))))"

section \<open>The Sui side\<close>

definition vault_mirror :: "('v, 'key) bridge_net \<Rightarrow> vault \<Rightarrow> vault_bcs" where
  "vault_mirror net v =
     \<lparr>vb_id = bc_vault (bn_client net), vb_deposit_nonce = va_deposit_nonce v, vb_withdraw_nonce = va_withdraw_nonce v,
      vb_reserves = \<lparr>tb_id = bc_vault (bn_client net), tb_size = 0\<rparr>,
      vb_deposits = \<lparr>tb_id = va_deposits_id v, tb_size = va_deposit_nonce v\<rparr>,
      vb_processed_withdrawals = \<lparr>tb_id = bc_vault (bn_client net), tb_size = 0\<rparr>\<rparr>"

definition vault_rpc_env :: "('v, 'key) bridge_net \<Rightarrow> vault \<Rightarrow> rpc_env" where
  "vault_rpc_env net v =
     \<lparr>rpc_new = (\<lambda>_. Ok ()),
      get_object = (\<lambda>_ a.
        if a = bc_vault (bn_client net) then Ok (Some (c_enc c_vault (vault_mirror net v)))
        else case Option.bind (bn_nonce_of net a) (\<lambda>n. map_option (Pair n) (va_deposits v n)) of
          None \<Rightarrow> Ok None
        | Some (n, d) \<Rightarrow> Ok (Some (c_enc (c_field c_deposit) \<lparr>fb_id = a, fb_name = n, fb_value = d\<rparr>))),
      derive_dynamic_child_id = (\<lambda>tbl _ key. bn_child_id net tbl key)\<rparr>"

text \<open>The key of the reserves for a type tag: the name without the prefix.\<close>

definition type_key :: "string \<Rightarrow> byte list" where
  "type_key tag = as_bytes (trim_start_0x tag)"

fun exec_withdraw :: "u64 \<Rightarrow> ptb \<Rightarrow> vault \<Rightarrow> (vault_abort, vault) result" where
  "exec_withdraw clock \<lparr>ptb_sender = sender, ptb_calls = [MoveCallT [tag] mc]\<rparr> v =
     (case mc_args mc of
        [ArgObject _, ArgObject _, ArgAddress recipient, ArgU64 amount, ArgU64 nonce] \<Rightarrow>
          and_then (withdraw_as clock sender (type_key tag) recipient amount nonce v) (\<lambda>(_, v'). Ok v')
      | _ \<Rightarrow> Err V_ROTATED)"
| "exec_withdraw clock b v = Err V_ROTATED"

definition vault_tx_env :: "fate \<Rightarrow> u64 \<Rightarrow> vault \<Rightarrow> ('key, ptb, unit) tx_env" where
  "vault_tx_env f clock v =
     \<lparr>te_derive = (\<lambda>_. barr_fill 0), te_client = (\<lambda>_. Ok ()), te_build = (\<lambda>b. Ok b), te_sign = (\<lambda>_ _. Ok ()),
      te_execute = (\<lambda>tx _ _. case f of
          Unreachable e \<Rightarrow> Err e
        | AnswerLost e \<Rightarrow> Err e
        | Answered \<Rightarrow>
            (case exec_withdraw clock tx v of
               Inl _ \<Rightarrow> Ok \<lparr>tr_success = False, tr_error = Some ''MoveAbort'', tr_changed = []\<rparr>
             | Inr _ \<Rightarrow> Ok \<lparr>tr_success = True, tr_error = None, tr_changed = []\<rparr>))\<rparr>"

definition sui_read :: "('v, 'key) bridge_net \<Rightarrow> (rpc_env \<Rightarrow> (bridge_error, 'a) result) \<Rightarrow> 'v bridge_world \<Rightarrow>
     (bridge_error, 'a) result \<times> 'v bridge_world" where
  "sui_read net q w =
     (case before_request net w of
        (Answered, w1) \<Rightarrow> (q (vault_rpc_env net (bw_vault w1)), w1)
      | (Unreachable e, w1) \<Rightarrow> (Err (BRpc e), w1)
      | (AnswerLost e, w1) \<Rightarrow> (Err (BRpc e), w1))"

definition sui_withdraw ::
    "('v, 'key) bridge_net \<Rightarrow> string \<Rightarrow> address \<Rightarrow> u64 \<Rightarrow> u64 \<Rightarrow> 'v bridge_world \<Rightarrow>
     (bridge_error, unit) result \<times> 'v bridge_world" where
  "sui_withdraw net tag recipient amount l2_nonce w =
     (case before_request net w of (f, w1) \<Rightarrow>
        (bridge_withdraw (vault_tx_env f (bw_clock w1) (bw_vault w1)) (bn_client net) tag recipient amount l2_nonce,
         case f of
           Unreachable _ \<Rightarrow> w1
         | _ \<Rightarrow> (case exec_withdraw (bw_clock w1)
                       \<lparr>ptb_sender = bc_sender (bn_client net), ptb_calls = withdraw_commands (bn_client net) tag recipient amount l2_nonce\<rparr>
                       (bw_vault w1) of
                  Inl _ \<Rightarrow> w1 | Inr v \<Rightarrow> w1\<lparr>bw_vault := v\<rparr>)))"

definition bridge_port ::
    "('v, 'key) bridge_net \<Rightarrow> io \<Rightarrow> cursors json \<Rightarrow> 'v bridge_world relay_port" where
  "bridge_port net io j =
     \<lparr>lp_lib = bn_lib net, lp_post = node_post net, lp_now = (\<lambda>_. 0), lp_sleep = (\<lambda>_ w. w),
      lp_vault_status = sui_read net (\<lambda>env. vault_status env bcs_vault_decoders (\<lambda>_. Ok (bc_vault (bn_client net))) 0 [] []),
      lp_deposit_at = (\<lambda>tbl nonce. sui_read net (\<lambda>env. deposit_at env bcs_vault_decoders 0 [] tbl nonce)),
      lp_withdraw = sui_withdraw net, lp_signer = bn_signer net, lp_factory = bn_factory net, lp_poll = 2000,
      lp_io = io, lp_cursors_path = ''bridge_cursors.json'', lp_cursors_json = j\<rparr>"

end
