(* ===== verification/Bridge_Ledger.thy ===== *)
theory Bridge_Ledger
  imports Bridge_Chain
begin

text \<open>
  Invariants of the chains the relayer works between. On the L2: the supply of a token is what was
  minted less what was burned, it is the sum of the balances, mint nonces start at 0 and increase,
  withdrawal nonces count from 1; logs of a token or of the factory are their own; a mint on a token of
  the relayer was called by the relayer. In the Vault: reserves are deposits less releases, and a
  release is paid once.
\<close>

section \<open>Finitely many addresses\<close>

instance barray :: (len) finite
proof
  have "finite {xs :: byte list. length xs = LENGTH('a)}"
    using finite_lists_length_eq [of "UNIV :: byte set" "LENGTH('a)"] by simp
  moreover have "(UNIV :: 'a barray set) = Abs_barray ` {xs. length xs = LENGTH('a)}"
  proof (intro equalityI subsetI)
    show "x \<in> Abs_barray ` {xs. length xs = LENGTH('a)}" for x :: "'a barray"
      by (rule image_eqI [of _ _ "to_vec x"]) (simp_all add: to_vec_inverse)
  qed simp
  ultimately show "finite (UNIV :: 'a barray set)" using finite_imageI by metis
qed

lemma sum_fun_upd:
  fixes f :: "'a::finite \<Rightarrow> 'b" and g :: "'b \<Rightarrow> nat"
  shows "(\<Sum>a\<in>UNIV. g ((f(r := v)) a)) + g (f r) = (\<Sum>a\<in>UNIV. g (f a)) + g v"
proof -
  have "(\<Sum>a\<in>UNIV. g (h a)) = g (h r) + (\<Sum>a\<in>UNIV - {r}. g (h a))" for h :: "'a \<Rightarrow> 'b"
    by (rule sum.remove) simp_all
  note this [of "f(r := v)"] this [of f]
  moreover have "(\<Sum>a\<in>UNIV - {r}. g ((f(r := v)) a)) = (\<Sum>a\<in>UNIV - {r}. g (f a))"
    by (rule sum.cong) auto
  ultimately show ?thesis by simp
qed

lemma member_le_total: "g (f r) \<le> (\<Sum>a\<in>UNIV. g (f (a::'a::finite)) :: nat)"
  by (rule member_le_sum) simp_all

section \<open>Accounts of a token\<close>

definition minted_of :: "evm_address \<Rightarrow> l2_log \<Rightarrow> nat" where
  "minted_of token lg = (case lg of (_, a, EvMinted n r x c) \<Rightarrow> if a = token then unat x else 0 | _ \<Rightarrow> 0)"

definition burned_of :: "evm_address \<Rightarrow> l2_log \<Rightarrow> nat" where
  "burned_of token lg = (case lg of (_, a, EvWithdrawal n s r x) \<Rightarrow> if a = token then unat x else 0 | _ \<Rightarrow> 0)"

definition mint_nonces :: "evm_address \<Rightarrow> l2_log list \<Rightarrow> nat list" where
  "mint_nonces token lgs = concat (map (\<lambda>lg. case lg of
     (_, a, EvMinted n r x c) \<Rightarrow> if a = token then [unat n] else [] | _ \<Rightarrow> []) lgs)"

definition burn_nonces :: "evm_address \<Rightarrow> l2_log list \<Rightarrow> nat list" where
  "burn_nonces token lgs = concat (map (\<lambda>lg. case lg of
     (_, a, EvWithdrawal n s r x) \<Rightarrow> if a = token then [unat n] else [] | _ \<Rightarrow> []) lgs)"

definition total_minted :: "evm_address \<Rightarrow> l2_log list \<Rightarrow> nat" where
  "total_minted token lgs = sum_list (map (minted_of token) lgs)"

definition total_burned :: "evm_address \<Rightarrow> l2_log list \<Rightarrow> nat" where
  "total_burned token lgs = sum_list (map (burned_of token) lgs)"

lemmas account_defs = minted_of_def burned_of_def mint_nonces_def burn_nonces_def total_minted_def total_burned_def

lemma accounts_append [simp]:
  "mint_nonces t (as @ bs) = mint_nonces t as @ mint_nonces t bs"
  "burn_nonces t (as @ bs) = burn_nonces t as @ burn_nonces t bs"
  "total_minted t (as @ bs) = total_minted t as + total_minted t bs"
  "total_burned t (as @ bs) = total_burned t as + total_burned t bs"
  by (simp_all add: account_defs)

lemma accounts_other:
  assumes "\<And>b a e. (b, a, e) \<in> set lgs \<Longrightarrow> a \<noteq> t"
  shows "mint_nonces t lgs = []" "burn_nonces t lgs = []" "total_minted t lgs = 0" "total_burned t lgs = 0"
proof -
  have "\<forall>lg \<in> set lgs. fst (snd lg) \<noteq> t" using assms by (metis prod.collapse)
  then show "mint_nonces t lgs = []" "burn_nonces t lgs = []" "total_minted t lgs = 0" "total_burned t lgs = 0"
    by (induction lgs; auto simp: account_defs split: l2_event.splits)+
qed

lemma accounts_single [simp]:
  "mint_nonces t [(b, a, EvMinted n r x c)] = (if a = t then [unat n] else [])"
  "burn_nonces t [(b, a, EvMinted n r x c)] = []"
  "total_minted t [(b, a, EvMinted n r x c)] = (if a = t then unat x else 0)"
  "total_burned t [(b, a, EvMinted n r x c)] = 0"
  "mint_nonces t [(b, a, EvWithdrawal n s h x)] = []"
  "burn_nonces t [(b, a, EvWithdrawal n s h x)] = (if a = t then [unat n] else [])"
  "total_minted t [(b, a, EvWithdrawal n s h x)] = 0"
  "total_burned t [(b, a, EvWithdrawal n s h x)] = (if a = t then unat x else 0)"
  "mint_nonces t [] = []" "burn_nonces t [] = []" "total_minted t [] = 0" "total_burned t [] = 0"
  by (simp_all add: account_defs)

lemma mint_nonces_mem: "n \<in> set (mint_nonces t lgs) \<longleftrightarrow> (\<exists>b k r x c. (b, t, EvMinted k r x c) \<in> set lgs \<and> n = unat k)"
proof
  assume "n \<in> set (mint_nonces t lgs)"
  then show "\<exists>b k r x c. (b, t, EvMinted k r x c) \<in> set lgs \<and> n = unat k"
    by (fastforce simp: mint_nonces_def split: l2_event.splits if_splits)
next
  assume "\<exists>b k r x c. (b, t, EvMinted k r x c) \<in> set lgs \<and> n = unat k"
  then show "n \<in> set (mint_nonces t lgs)" by (force simp: mint_nonces_def)
qed

text \<open>The state of one token fits the logs it emitted.\<close>

definition token_ok :: "evm_address \<Rightarrow> l2_log list \<Rightarrow> bridge_token \<Rightarrow> bool" where
  "token_ok a lgs t \<longleftrightarrow>
     total_minted a lgs = total_burned a lgs + unat (bt_total_supply t) \<and>
     (\<Sum>h\<in>UNIV. unat (bt_balance_of t h)) = unat (bt_total_supply t) \<and>
     sorted_wrt (<) (mint_nonces a lgs) \<and>
     (if bt_minted_any t then mint_nonces a lgs \<noteq> [] \<and> hd (mint_nonces a lgs) = 0 \<and>
        last (mint_nonces a lgs) = unat (bt_last_minted_nonce t)
      else mint_nonces a lgs = [] \<and> bt_last_minted_nonce t = 0) \<and>
     burn_nonces a lgs = [1..<Suc (unat (bt_last_withdrawal_nonce t))] \<and>
     (bt_initialized t \<or> bt_relayer t = barr_fill 0 \<and> \<not> bt_minted_any t)"

lemma checked_add_Ok: "checked_add a b = Ok c \<longleftrightarrow> c = a + b \<and> unat c = unat a + unat b"
proof (cases "unat a + unat b < 2 ^ LENGTH('a)")
  case True
  then show ?thesis by (auto simp: checked_add_def unat_word_ariths)
next
  case False
  then have "unat c \<noteq> unat a + unat b" using unsigned_less [of c, where ?'a = nat] by linarith
  with False show ?thesis by (simp add: checked_add_def)
qed

lemma token_ok_mint:
  assumes "token_mint sender r x n t = Ok t'" "token_ok a lgs t" "sender \<noteq> barr_fill 0"
  shows "token_ok a (lgs @ [(b, a, EvMinted n r x c)]) t'"
proof -
  from assms(1) obtain tot bal where
    guards: "sender = bt_relayer t" "if bt_minted_any t then n > bt_last_minted_nonce t else n = 0"
    and sup: "unat tot = unat (bt_total_supply t) + unat x"
    and bal: "unat bal = unat (bt_balance_of t r) + unat x"
    and t': "t' = t\<lparr>bt_last_minted_nonce := n, bt_minted_any := True, bt_total_supply := tot,
                    bt_balance_of := (bt_balance_of t)(r := bal)\<rparr>"
    by (auto simp: token_mint_def and_then_eq_Inr checked_add_Ok split: if_splits)
  have sorted: "sorted_wrt (<) (mint_nonces a lgs @ [unat n])"
  proof (cases "bt_minted_any t")
    case True
    with assms(2) have "m \<le> unat (bt_last_minted_nonce t)" if "m \<in> set (mint_nonces a lgs)" for m
      using that by (cases "mint_nonces a lgs" rule: rev_cases) (auto simp: token_ok_def sorted_wrt_append)
    moreover have "unat (bt_last_minted_nonce t) < unat n" using True guards(2) by (simp add: word_less_nat_alt)
    ultimately show ?thesis using assms(2) by (fastforce simp: token_ok_def sorted_wrt_append)
  qed (use assms(2) in \<open>simp add: token_ok_def\<close>)
  have first: "hd (mint_nonces a lgs @ [unat n]) = 0"
    using assms(2) guards(2) by (cases "mint_nonces a lgs") (auto simp: token_ok_def split: if_splits)
  have "(\<Sum>h\<in>UNIV. unat (bt_balance_of t' h)) = unat tot"
    using sum_fun_upd [of unat "bt_balance_of t" r bal] assms(2) bal sup by (simp add: t' token_ok_def)
  then show ?thesis
    using assms(2,3) guards sup sorted first by (simp add: token_ok_def t' hd_append)
qed

lemma token_ok_burn:
  assumes "token_initiate_withdrawal sender h x t = Ok (n, t')" "token_ok a lgs t"
  shows "token_ok a (lgs @ [(b, a, EvWithdrawal n sender h x)]) t'"
proof -
  let ?bal = "bt_balance_of t sender"
  from assms(1) have guards: "x \<le> ?bal" "unat n = unat (bt_last_withdrawal_nonce t) + 1"
    and t': "t' = t\<lparr>bt_balance_of := (bt_balance_of t)(sender := ?bal - x),
                   bt_total_supply := bt_total_supply t - x, bt_last_withdrawal_nonce := n\<rparr>"
    by (auto simp: token_initiate_withdrawal_def Let_def and_then_eq_Inr checked_add_Ok split: if_splits)
  have total: "(\<Sum>h\<in>UNIV. unat (bt_balance_of t h)) = unat (bt_total_supply t)"
    using assms(2) by (simp add: token_ok_def)
  have le: "x \<le> bt_total_supply t"
    using member_le_total [of unat "bt_balance_of t" sender] guards(1) total by (simp add: word_le_nat_alt)
  have subs: "unat (?bal - x) = unat ?bal - unat x" "unat (bt_total_supply t - x) = unat (bt_total_supply t) - unat x"
    using guards(1) le by (simp_all add: unat_sub)
  have "(\<Sum>h\<in>UNIV. unat (bt_balance_of t' h)) = unat (bt_total_supply t - x)"
    using sum_fun_upd [of unat "bt_balance_of t" sender "?bal - x"] total subs guards(1)
    by (simp add: t' word_le_nat_alt)
  moreover have "unat x \<le> unat (bt_total_supply t)" using le by (simp add: word_le_nat_alt)
  ultimately show ?thesis using assms(2) guards subs by (simp add: token_ok_def t')
qed

lemma token_ok_transfer:
  assumes "token_transfer sender r x t = Ok t'" "token_ok a lgs t"
  shows "token_ok a lgs t'"
proof -
  let ?bal = "bt_balance_of t sender" and ?b1 = "(bt_balance_of t)(sender := bt_balance_of t sender - x)"
  from assms(1) have guard: "x \<le> ?bal" and t': "t' = t\<lparr>bt_balance_of := ?b1(r := ?b1 r + x)\<rparr>"
    by (auto simp: token_transfer_def Let_def split: if_splits)
  have total: "(\<Sum>h\<in>UNIV. unat (bt_balance_of t h)) = unat (bt_total_supply t)"
    using assms(2) by (simp add: token_ok_def)
  have "unat (?bal - x) = unat ?bal - unat x" using guard by (simp add: unat_sub)
  then have s1: "(\<Sum>h\<in>UNIV. unat (?b1 h)) + unat x = unat (bt_total_supply t)"
    using sum_fun_upd [of unat "bt_balance_of t" sender "?bal - x"] total guard by (simp add: word_le_nat_alt)
  have "unat (?b1 r) + unat x \<le> unat (bt_total_supply t)"
    using member_le_total [of unat ?b1 r] s1 by linarith
  also have "\<dots> < 2 ^ 256" using unsigned_less [of "bt_total_supply t"] by simp
  finally have "unat (?b1 r + x) = unat (?b1 r) + unat x" by (simp add: unat_word_ariths)
  then have "(\<Sum>h\<in>UNIV. unat (bt_balance_of t' h)) = unat (bt_total_supply t)"
    using sum_fun_upd [of unat ?b1 r "?b1 r + x"] s1 by (simp add: t' del: fun_upd_apply)
  with assms(2) show ?thesis by (simp add: token_ok_def t')
qed

lemma token_ok_setup:
  assumes "token_setup coin relayer t = Ok t'" "token_ok a lgs t"
  shows "token_ok a lgs t'"
  using assms by (auto simp: token_setup_def token_ok_def split: if_splits)

lemma token_ok_blank:
  assumes "\<And>b a' e. (b, a', e) \<in> set lgs \<Longrightarrow> a' \<noteq> a"
  shows "token_ok a lgs token_blank"
  using accounts_other [OF assms] by (simp add: token_ok_def token_blank_def)

lemma token_ok_other:
  assumes "token_ok a lgs t" "\<And>b a' e. (b, a', e) \<in> set new \<Longrightarrow> a' \<noteq> a"
  shows "token_ok a (lgs @ new) t"
  using assms(1) accounts_other [OF assms(2)] by (simp add: token_ok_def)

section \<open>The ledger\<close>

text \<open>\<open>J token nonce recipient amount\<close> says that a mint by the relayer is justified.\<close>

type_synonym mint_law = "evm_address \<Rightarrow> u64 \<Rightarrow> evm_address \<Rightarrow> u256 \<Rightarrow> bool"

definition log_ok :: "evm_address \<Rightarrow> mint_law \<Rightarrow> l2_ledger \<Rightarrow> l2_log \<Rightarrow> bool" where
  "log_ok signer J g lg = (case lg of (b, a, e) \<Rightarrow> (case e of
       EvCreated token coin name symbol \<Rightarrow> a = l2_factory_at g \<and> length coin < 2 ^ 64 \<and>
         (\<exists>t. l2_tokens g token = Some t \<and> bt_initialized t \<and> bt_coin_type t = coin \<and> bt_relayer t = signer)
     | EvWithdrawal n s r x \<Rightarrow> l2_tokens g a \<noteq> None
     | EvMinted n r x c \<Rightarrow>
         r \<noteq> barr_fill 0 \<and> (\<exists>t. l2_tokens g a = Some t \<and> bt_initialized t \<and> (bt_relayer t = signer \<longrightarrow> J a n r x))
     | EvForeign topics dat \<Rightarrow> a \<noteq> l2_factory_at g \<and> l2_tokens g a = None))"

definition ledger_ok :: "evm_address \<Rightarrow> mint_law \<Rightarrow> l2_ledger \<Rightarrow> bool" where
  "ledger_ok signer J g \<longleftrightarrow>
     bf_relayer (l2_factory g) = signer \<and> signer \<noteq> barr_fill 0 \<and> l2_tokens g (l2_factory_at g) = None \<and>
     (\<forall>a t. l2_tokens g a = Some t \<longrightarrow> token_ok a (l2_logs g) t) \<and>
     (\<forall>lg \<in> set (l2_logs g). log_ok signer J g lg)"

lemma log_ok_mono: "log_ok signer J g lg \<Longrightarrow> (\<And>a n r x. J a n r x \<Longrightarrow> K a n r x) \<Longrightarrow> log_ok signer K g lg"
  by (auto simp: log_ok_def split: prod.splits l2_event.splits)

lemma ledger_ok_mono: "ledger_ok signer J g \<Longrightarrow> (\<And>a n r x. J a n r x \<Longrightarrow> K a n r x) \<Longrightarrow> ledger_ok signer K g"
  unfolding ledger_ok_def using log_ok_mono by blast

text \<open>Fields no contract reads.\<close>

lemma log_ok_irrelevant [simp]:
  "log_ok signer J (g\<lparr>l2_head := h\<rparr>) = log_ok signer J g"
  "log_ok signer J (g\<lparr>l2_pool := q\<rparr>) = log_ok signer J g"
  "log_ok signer J (g\<lparr>l2_receipts := rs\<rparr>) = log_ok signer J g"
  "log_ok signer J (g\<lparr>l2_logs := ls\<rparr>) = log_ok signer J g"
  by (auto simp: log_ok_def fun_eq_iff split: prod.splits l2_event.splits)

lemma ledger_ok_irrelevant [simp]:
  "ledger_ok signer J (g\<lparr>l2_head := h\<rparr>) = ledger_ok signer J g"
  "ledger_ok signer J (g\<lparr>l2_pool := q\<rparr>) = ledger_ok signer J g"
  "ledger_ok signer J (g\<lparr>l2_receipts := rs\<rparr>) = ledger_ok signer J g"
  by (simp_all add: ledger_ok_def)

definition token_keeps :: "bridge_token \<Rightarrow> bridge_token \<Rightarrow> bool" where
  "token_keeps t t' \<longleftrightarrow> bt_initialized t \<longrightarrow>
     bt_initialized t' \<and> bt_coin_type t' = bt_coin_type t \<and> bt_relayer t' = bt_relayer t"

lemma not_initialized_no_mint:
  assumes "token_ok a lgs t" "\<not> bt_initialized t"
  shows "(b, a, EvMinted n r x c) \<notin> set lgs"
proof -
  from assms have "mint_nonces a lgs = []" by (auto simp: token_ok_def)
  then have "unat n \<notin> set (mint_nonces a lgs)" by simp
  then show ?thesis unfolding mint_nonces_mem by blast
qed

lemma ledger_ok_token_step:
  assumes ok: "ledger_ok signer J g" and t: "l2_tokens g a = Some t" and t': "token_ok a (l2_logs g @ new) t'"
    and keeps: "token_keeps t t'" and new: "\<And>b a' e. (b, a', e) \<in> set new \<Longrightarrow> a' = a"
    and new_ok: "\<And>lg. lg \<in> set new \<Longrightarrow> log_ok signer J (g\<lparr>l2_tokens := (l2_tokens g)(a \<mapsto> t')\<rparr>) lg"
  shows "ledger_ok signer J (g\<lparr>l2_tokens := (l2_tokens g)(a \<mapsto> t'), l2_logs := l2_logs g @ new\<rparr>)"
proof -
  have ta: "token_ok a (l2_logs g) t" using ok t by (simp add: ledger_ok_def)
  have "log_ok signer J (g\<lparr>l2_tokens := (l2_tokens g)(a \<mapsto> t')\<rparr>) lg" if lg: "lg \<in> set (l2_logs g)" for lg
  proof -
    have old: "log_ok signer J g lg" using ok lg by (simp add: ledger_ok_def)
    obtain b a' e where l: "lg = (b, a', e)" by (metis prod.collapse)
    show ?thesis
    proof (cases e)
      case (EvMinted n r x c)
      then show ?thesis using old l t keeps not_initialized_no_mint [OF ta, of b n r x c] lg
        by (auto simp: log_ok_def token_keeps_def)
    qed (use old l t keeps in \<open>auto simp: log_ok_def token_keeps_def\<close>)
  qed
  moreover have "token_ok x (l2_logs g @ new) u" if "x \<noteq> a" "l2_tokens g x = Some u" for x u
    using that ok new by (intro token_ok_other) (auto simp: ledger_ok_def)
  ultimately show ?thesis
    using ok t t' new_ok by (auto simp: ledger_ok_def)
qed

lemma token_keeps_mint: "token_mint sender r x n t = Ok t' \<Longrightarrow> token_keeps t t'"
  by (auto simp: token_keeps_def token_mint_def and_then_eq_Inr split: if_splits)

lemma token_keeps_burn: "token_initiate_withdrawal sender h x t = Ok (k, t') \<Longrightarrow> token_keeps t t'"
  by (auto simp: token_keeps_def token_initiate_withdrawal_def Let_def and_then_eq_Inr split: if_splits)

lemma token_keeps_transfer: "token_transfer sender r x t = Ok t' \<Longrightarrow> token_keeps t t'"
  by (auto simp: token_keeps_def token_transfer_def Let_def split: if_splits)

lemma token_keeps_init: "token_initialize coin relayer t = Ok t' \<Longrightarrow> token_keeps t t'"
  by (auto simp: token_keeps_def token_initialize_def)

lemma token_ok_init: "token_initialize coin relayer t = Ok t' \<Longrightarrow> token_ok a lgs t \<Longrightarrow> token_ok a lgs t'"
  by (auto simp: token_initialize_def intro: token_ok_setup split: if_splits)

lemma minting_token_initialized:
  "token_ok a lgs t \<Longrightarrow> token_mint sender r x n t = Ok t' \<Longrightarrow> sender \<noteq> barr_fill 0 \<Longrightarrow>
   bt_initialized t' \<and> bt_relayer t' = sender \<and> r \<noteq> barr_fill 0"
  by (auto simp: token_ok_def token_mint_def and_then_eq_Inr split: if_splits)

lemma ledger_ok_token_call:
  assumes ok: "ledger_ok signer J g" and run: "token_call a op g = Ok (lgs, g')"
    and step: "\<And>t evs t'. l2_tokens g a = Some t \<Longrightarrow> op t = Ok (evs, t') \<Longrightarrow>
      token_keeps t t' \<and> token_ok a (l2_logs g @ map (\<lambda>e. (l2_head g, a, e)) evs) t' \<and>
      (\<forall>e \<in> set evs. log_ok signer J (g\<lparr>l2_tokens := (l2_tokens g)(a \<mapsto> t')\<rparr>) (l2_head g, a, e))"
  shows "ledger_ok signer J (g'\<lparr>l2_logs := l2_logs g' @ lgs\<rparr>)"
proof -
  from run obtain t evs t' where t: "l2_tokens g a = Some t" "op t = Ok (evs, t')"
    and r: "lgs = map (\<lambda>e. (l2_head g, a, e)) evs" "g' = g\<lparr>l2_tokens := (l2_tokens g)(a \<mapsto> t')\<rparr>"
    by (auto simp: token_call_def and_then_eq_Inr split: option.splits)
  note st = step [OF t, folded r(1)]
  have "ledger_ok signer J (g\<lparr>l2_tokens := (l2_tokens g)(a \<mapsto> t'), l2_logs := l2_logs g @ lgs\<rparr>)"
  proof (rule ledger_ok_token_step [OF ok t(1)])
    show "token_ok a (l2_logs g @ lgs) t'" "token_keeps t t'" using st by blast+
    show "a' = a" if "(b, a', e) \<in> set lgs" for b a' e using that r(1) by auto
    show "log_ok signer J (g\<lparr>l2_tokens := (l2_tokens g)(a \<mapsto> t')\<rparr>) lg" if "lg \<in> set lgs" for lg
      using that st unfolding r(1) by auto
  qed
  then show ?thesis by (simp add: r(2))
qed

lemma ledger_ok_create:
  assumes ok: "ledger_ok signer J g" and run: "factory_create name symbol coin created g = Ok (lgs, g')"
    and fits: "length coin < 2 ^ 64"
  shows "ledger_ok signer J (g'\<lparr>l2_logs := l2_logs g' @ lgs\<rparr>)"
proof -
  from run obtain t where fresh: "created \<noteq> l2_factory_at g" "l2_tokens g created = None"
      "created \<notin> fst ` snd ` set (l2_logs g)"
    and t: "token_setup coin (bf_relayer (l2_factory g)) token_blank = Ok t"
    and lgs: "lgs = [(l2_head g, l2_factory_at g, EvCreated created coin name symbol)]"
    and g': "g' = g\<lparr>l2_tokens := (l2_tokens g)(created \<mapsto> t),
        l2_factory := (l2_factory g)\<lparr>bf_token_for := (bf_token_for (l2_factory g))(coin := created)\<rparr>\<rparr>"
    by (auto simp: factory_create_def Let_def and_then_eq_Inr split: if_splits)
  from t have tf: "bt_initialized t" "bt_coin_type t = coin" "bt_relayer t = bf_relayer (l2_factory g)"
    by (auto simp: token_setup_def split: if_splits)
  have old: "log_ok signer J g' lg" if lg: "lg \<in> set (l2_logs g)" for lg
  proof -
    obtain b a e where l: "lg = (b, a, e)" by (metis prod.collapse)
    have "a \<noteq> created" using fresh(3) lg l by force
    moreover have "log_ok signer J g lg" using ok lg by (simp add: ledger_ok_def)
    ultimately show ?thesis using fresh(2) l by (auto simp: log_ok_def g' split: l2_event.splits)
  qed
  have "token_ok created (l2_logs g @ lgs) t"
    by (rule token_ok_setup [OF t token_ok_blank]) (use fresh lgs in \<open>force\<close>)
  moreover have "token_ok a (l2_logs g @ lgs) u" if "l2_tokens g a = Some u" for a u
    using that ok lgs by (intro token_ok_other) (auto simp: ledger_ok_def)
  moreover have "log_ok signer J g' lg" if "lg \<in> set lgs" for lg
    using that ok fits tf by (simp add: lgs log_ok_def g' ledger_ok_def)
  ultimately show ?thesis using ok old fresh by (auto simp: ledger_ok_def g')
qed

lemma ledger_ok_adopt:
  assumes ok: "ledger_ok signer J g" and run: "factory_adopt sender coin token g = Ok (lgs, g')"
    and fits: "length coin < 2 ^ 64"
  shows "ledger_ok signer J (g'\<lparr>l2_logs := l2_logs g' @ lgs\<rparr>)"
proof -
  from run obtain t where t: "l2_tokens g token = Some t" "bt_coin_type t = coin"
      "bt_relayer t = bf_relayer (l2_factory g)"
    and lgs: "lgs = [(l2_head g, l2_factory_at g, EvCreated token coin [] [])]"
    and g': "g' = g\<lparr>l2_factory := (l2_factory g)\<lparr>bf_token_for := (bf_token_for (l2_factory g))(coin := token)\<rparr>\<rparr>"
    by (auto simp: factory_adopt_def Let_def split: if_splits option.splits)
  have "bt_initialized t"
    using ok t by (auto simp: ledger_ok_def token_ok_def)
  then have new: "log_ok signer J g' lg" if "lg \<in> set lgs" for lg
    using that ok fits t by (simp add: lgs log_ok_def g' ledger_ok_def)
  have "log_ok signer J g' = log_ok signer J g"
    by (auto simp: g' log_ok_def fun_eq_iff split: prod.splits l2_event.splits)
  moreover have "token_ok a (l2_logs g @ lgs) u" if "l2_tokens g a = Some u" for a u
    using that ok lgs by (intro token_ok_other) (auto simp: ledger_ok_def)
  ultimately show ?thesis using ok new by (auto simp: ledger_ok_def g')
qed

lemma ledger_ok_exec:
  assumes ok: "ledger_ok signer J g" and run: "l2_exec sender target created c g = Ok (lgs, g')"
    and sender: "sender \<noteq> barr_fill 0"
    and just: "\<And>r x n. sender = signer \<Longrightarrow> c = CallMint r x n \<Longrightarrow> J target n r x"
  shows "ledger_ok signer J (g'\<lparr>l2_logs := l2_logs g' @ lgs\<rparr>)"
proof -
  have tok: "token_ok a (l2_logs g) t" if "l2_tokens g a = Some t" for a t
    using ok that by (simp add: ledger_ok_def)
  show ?thesis
  proof (cases c)
    case (CallMint r x n)
    from run [unfolded CallMint l2_exec.simps] show ?thesis
    proof (rule ledger_ok_token_call [OF ok])
      fix t evs t' assume t: "l2_tokens g target = Some t"
        and "and_then (token_mint sender r x n t) (\<lambda>t'. Ok ([EvMinted n r x (bt_coin_type t)], t')) = Ok (evs, t')"
      then have m: "token_mint sender r x n t = Ok t'" "evs = [EvMinted n r x (bt_coin_type t)]"
        by (auto simp: and_then_eq_Inr)
      show "token_keeps t t' \<and> token_ok target (l2_logs g @ map (\<lambda>e. (l2_head g, target, e)) evs) t' \<and>
        (\<forall>e \<in> set evs. log_ok signer J (g\<lparr>l2_tokens := (l2_tokens g)(target \<mapsto> t')\<rparr>) (l2_head g, target, e))"
        using token_ok_mint [OF m(1) tok [OF t] sender] token_keeps_mint [OF m(1)]
          minting_token_initialized [OF tok [OF t] m(1) sender] just [OF _ CallMint] m(2)
        by (auto simp: log_ok_def)
    qed
  next
    case (CallWithdraw h x)
    from run [unfolded CallWithdraw l2_exec.simps] show ?thesis
      by (rule ledger_ok_token_call [OF ok])
         (auto simp: and_then_eq_Inr log_ok_def intro: token_ok_burn [OF _ tok] token_keeps_burn)
  next
    case (CallTransfer r x)
    from run [unfolded CallTransfer l2_exec.simps] show ?thesis
      by (rule ledger_ok_token_call [OF ok])
         (auto simp: and_then_eq_Inr intro: token_ok_transfer [OF _ tok] token_keeps_transfer)
  next
    case (CallInitToken coin relayer)
    from run [unfolded CallInitToken l2_exec.simps] show ?thesis
      by (rule ledger_ok_token_call [OF ok])
         (auto simp: and_then_eq_Inr intro: token_ok_init [OF _ tok] token_keeps_init)
  next
    case (CallForeign topics dat)
    with run have "lgs = [(l2_head g, target, EvForeign topics dat)]" "g' = g"
      and no: "target \<noteq> l2_factory_at g" "l2_tokens g target = None" by (auto split: if_splits)
    moreover have "token_ok a (l2_logs g @ lgs) u" if "l2_tokens g a = Some u" for a u
      using that ok no \<open>lgs = _\<close> by (intro token_ok_other) (auto simp: ledger_ok_def)
    ultimately show ?thesis using ok by (auto simp: ledger_ok_def log_ok_def)
  qed (use run in \<open>auto split: if_splits simp: calldata_fits_def intro: ledger_ok_create [OF ok] ledger_ok_adopt [OF ok]\<close>)
qed

lemma ledger_ok_mine:
  assumes "ledger_ok signer J g" "sender \<noteq> barr_fill 0"
    "\<And>r x n. sender = signer \<Longrightarrow> c = CallMint r x n \<Longrightarrow> J target n r x"
  shows "ledger_ok signer J (snd (l2_mine sender target created c g))"
  using assms ledger_ok_exec [of signer J "g\<lparr>l2_head := l2_head g + 1\<rparr>" sender target created c]
  by (auto simp: l2_mine_def Let_def split: sum.splits)

section \<open>What a call adds\<close>

definition same_frame :: "l2_ledger \<Rightarrow> l2_ledger \<Rightarrow> bool" where
  "same_frame g g' \<longleftrightarrow> l2_logs g' = l2_logs g \<and> l2_receipts g' = l2_receipts g \<and> l2_pool g' = l2_pool g \<and>
     l2_factory_at g' = l2_factory_at g"

lemma same_frame_token: "token_call a op g = Ok (lgs, g') \<Longrightarrow> same_frame g g'"
  by (auto simp: token_call_def same_frame_def and_then_eq_Inr split: option.splits)

lemma same_frame_create: "factory_create nm sy coin created g = Ok (lgs, g') \<Longrightarrow> same_frame g g'"
  by (auto simp: factory_create_def Let_def same_frame_def and_then_eq_Inr split: if_splits)

lemma same_frame_adopt: "factory_adopt sender coin token g = Ok (lgs, g') \<Longrightarrow> same_frame g g'"
  by (auto simp: factory_adopt_def Let_def same_frame_def split: if_splits option.splits)

lemma l2_exec_frame: "l2_exec sender target created c g = Ok (lgs, g') \<Longrightarrow> same_frame g g'"
  by (cases c) (auto intro: same_frame_token same_frame_create same_frame_adopt simp: same_frame_def [of h h for h] split: if_splits)

lemma l2_mine_frame:
  assumes "l2_mine sender target created c g = ((st, lgs), g')"
  shows "l2_receipts g' = l2_receipts g" "l2_pool g' = l2_pool g" "l2_factory_at g' = l2_factory_at g"
    "l2_logs g' = l2_logs g @ lgs"
proof -
  let ?g = "g\<lparr>l2_head := l2_head g + 1\<rparr>"
  have "l2_receipts g' = l2_receipts g \<and> l2_pool g' = l2_pool g \<and> l2_factory_at g' = l2_factory_at g \<and>
    l2_logs g' = l2_logs g @ lgs"
  proof (cases "l2_exec sender target created c ?g")
    case (Inr x)
    then obtain ls g2 where x: "l2_exec sender target created c ?g = Ok (ls, g2)" by (cases x) auto
    from l2_exec_frame [OF x] x assms show ?thesis by (auto simp: l2_mine_def Let_def same_frame_def)
  qed (use assms in \<open>simp add: l2_mine_def Let_def; auto\<close>)
  then show "l2_receipts g' = l2_receipts g" "l2_pool g' = l2_pool g" "l2_factory_at g' = l2_factory_at g"
    "l2_logs g' = l2_logs g @ lgs" by blast+
qed

lemma l2_mine_mint:
  "l2_mine sender target created (CallMint r x n) g = ((True, lgs), g') \<Longrightarrow> \<exists>b c. lgs = [(b, target, EvMinted n r x c)]"
  by (auto simp: l2_mine_def Let_def token_call_def and_then_eq_Inr split: sum.splits option.splits)

lemma l2_mine_create:
  "l2_mine sender target created (CallCreateBridge nm sy coin) g = ((True, lgs), g') \<Longrightarrow>
   \<exists>b a. lgs = [(b, a, EvCreated created coin nm sy)]"
  by (auto simp: l2_mine_def factory_create_def Let_def and_then_eq_Inr split: sum.splits if_splits)

section \<open>The Vault\<close>

definition reserve_of :: "byte list \<Rightarrow> vault \<Rightarrow> nat" where
  "reserve_of coin v = (case va_reserves v coin of None \<Rightarrow> 0 | Some x \<Rightarrow> unat x)"

definition deposited :: "byte list \<Rightarrow> vault \<Rightarrow> nat \<Rightarrow> nat" where
  "deposited coin v n =
     (case va_deposits v (of_nat n) of
        Some d \<Rightarrow> if dr_coin_type d = coin then unat (dr_amount d) else 0 | None \<Rightarrow> 0)"

definition total_deposited :: "byte list \<Rightarrow> vault \<Rightarrow> nat" where
  "total_deposited coin v = (\<Sum>n < unat (va_deposit_nonce v). deposited coin v n)"

definition released :: "byte list \<Rightarrow> vault_withdrawal \<Rightarrow> nat" where
  "released coin e = (if vw_coin_type e = coin then unat (vw_amount e) else 0)"

definition total_released :: "byte list \<Rightarrow> vault \<Rightarrow> nat" where
  "total_released coin v = sum_list (map (released coin) (va_events v))"

definition release_key :: "vault_withdrawal \<Rightarrow> byte list \<times> u64" where
  "release_key e = (vw_coin_type e, vw_l2_nonce e)"

definition vault_ok :: "vault \<Rightarrow> bool" where
  "vault_ok v \<longleftrightarrow>
     (\<forall>n. va_deposits v n \<noteq> None \<longleftrightarrow> n < va_deposit_nonce v) \<and>
     (\<forall>coin. reserve_of coin v + total_released coin v = total_deposited coin v) \<and>
     distinct (map release_key (va_events v)) \<and>
     (\<forall>e \<in> set (va_events v). va_processed v (withdraw_key (vw_coin_type e) (vw_l2_nonce e)) \<noteq> None)"

lemma withdraw_key_inject [simp]: "withdraw_key c n = withdraw_key d m \<longleftrightarrow> c = d \<and> n = m"
  by (auto simp: withdraw_key_def)

lemma vault_add_Ok: "vault_add a b = Ok c \<longleftrightarrow> c = a + b \<and> unat c = unat a + unat b"
proof (cases "unat a + unat b < 2 ^ 64")
  case True
  then show ?thesis by (auto simp: vault_add_def unat_word_ariths)
next
  case False
  then have "unat c \<noteq> unat a + unat b" using unat_u64_less [of c] by linarith
  with False show ?thesis by (simp add: vault_add_def)
qed

lemma vault_depositE:
  assumes "vault_deposit coin amount recipient v = Ok v'"
  obtains held nxt where "amount > 0" "length recipient = 20" "va_deposits v (va_deposit_nonce v) = None"
    "unat held = reserve_of coin v + unat amount" "unat nxt = unat (va_deposit_nonce v) + 1"
    "v' = v\<lparr>va_reserves := (va_reserves v)(coin \<mapsto> held),
            va_deposits := (va_deposits v)(va_deposit_nonce v \<mapsto>
              \<lparr>dr_amount = amount, dr_recipient_l2 = recipient, dr_coin_type = coin\<rparr>),
            va_deposit_nonce := nxt\<rparr>"
  using assms
  by (auto simp: vault_deposit_def Let_def and_then_eq_Inr vault_add_Ok reserve_of_def split: if_splits option.splits)

lemma vault_ok_deposit:
  assumes "vault_deposit coin amount recipient v = Ok v'" "vault_ok v"
  shows "vault_ok v'"
proof (rule vault_depositE [OF assms(1)])
  fix held nxt
  assume fresh: "va_deposits v (va_deposit_nonce v) = None"
    and held: "unat held = reserve_of coin v + unat amount"
    and nxt: "unat nxt = unat (va_deposit_nonce v) + 1"
    and v': "v' = v\<lparr>va_reserves := (va_reserves v)(coin \<mapsto> held),
            va_deposits := (va_deposits v)(va_deposit_nonce v \<mapsto>
              \<lparr>dr_amount = amount, dr_recipient_l2 = recipient, dr_coin_type = coin\<rparr>),
            va_deposit_nonce := nxt\<rparr>"
  let ?k = "unat (va_deposit_nonce v)"
  have older: "deposited c v' n = deposited c v n" if "n < ?k" for c n
  proof -
    have "unat (of_nat n :: u64) = n" using that unat_u64_less [of "va_deposit_nonce v"] by (simp add: take_bit_nat_eq_self_iff unat_of_nat)
    then have "(of_nat n :: u64) \<noteq> va_deposit_nonce v" using that by auto
    then show ?thesis by (simp add: deposited_def v')
  qed
  have new: "deposited c v' ?k = (if c = coin then unat amount else 0)" for c
    by (simp add: deposited_def v')
  have dep: "total_deposited c v' = total_deposited c v + (if c = coin then unat amount else 0)" for c
    unfolding total_deposited_def using older new by (simp add: v' nxt)
  have res: "reserve_of c v' = reserve_of c v + (if c = coin then unat amount else 0)" for c
    using held by (simp add: reserve_of_def v')
  have rel: "total_released c v' = total_released c v" for c by (simp add: total_released_def v')
  have dom: "(va_deposits v' n \<noteq> None) \<longleftrightarrow> n < nxt" for n
  proof -
    have "n < nxt \<longleftrightarrow> n = va_deposit_nonce v \<or> n < va_deposit_nonce v"
      using nxt by (auto simp: word_less_nat_alt word_unat_eq_iff)
    then show ?thesis using assms(2) by (auto simp: v' vault_ok_def)
  qed
  have "\<forall>c. reserve_of c v' + total_released c v' = total_deposited c v'"
    using assms(2) by (simp add: dep res rel vault_ok_def)
  moreover have "va_events v' = va_events v" "va_processed v' = va_processed v" "va_deposit_nonce v' = nxt"
    by (simp_all add: v')
  ultimately show ?thesis using assms(2) dom unfolding vault_ok_def by simp
qed

lemma do_withdrawE:
  assumes "do_withdraw coin recipient amount l2_nonce v = Ok (moved, v')"
  obtains (replay) "va_processed v (withdraw_key coin l2_nonce) \<noteq> None" "\<not> moved" "v' = v"
    | (paid) held nxt where "va_processed v (withdraw_key coin l2_nonce) = None" "moved" "va_reserves v coin = Some held"
      "amount \<le> held" "amount > 0"
      "v' = v\<lparr>va_processed := (va_processed v)(withdraw_key coin l2_nonce \<mapsto> True),
              va_reserves := (va_reserves v)(coin \<mapsto> held - amount), va_withdraw_nonce := nxt,
              va_events := va_events v @
                [\<lparr>vw_nonce = va_withdraw_nonce v, vw_coin_type = coin, vw_amount = amount,
                  vw_recipient = recipient, vw_l2_nonce = l2_nonce\<rparr>]\<rparr>"
  using assms by (auto simp: do_withdraw_def Let_def and_then_eq_Inr split: if_splits option.splits)

lemma vault_ok_withdraw:
  assumes "do_withdraw coin recipient amount l2_nonce v = Ok (moved, v')" "vault_ok v"
  shows "vault_ok v'"
  using assms(1)
proof (cases rule: do_withdrawE)
  case (paid held nxt)
  have "reserve_of c v' + total_released c v' = reserve_of c v + total_released c v" for c
    using paid(3,4)
    by (cases "c = coin") (simp_all add: paid(6) reserve_of_def total_released_def released_def unat_sub word_le_nat_alt)
  moreover have "total_deposited c v' = total_deposited c v" for c
    by (simp add: paid(6) total_deposited_def deposited_def)
  moreover have "(coin, l2_nonce) \<notin> release_key ` set (va_events v)"
    using assms(2) paid(1) by (auto simp: vault_ok_def release_key_def)
  ultimately show ?thesis
    using assms(2) unfolding vault_ok_def by (auto simp: paid(6) release_key_def)
qed (use assms(2) in simp)

end
