(* ===== verification/Bridge_Wire.thy ===== *)
theory Bridge_Wire
  imports Bridge_World Bridge_Ledger Relayer_Registry
begin

text \<open>
  What the relayer's requests read: the documented laws of the foreign libraries and of the network, the
  round trips of logs, receipts and ABI words over the wire, and for every request the state of the
  chains its answer speaks of.
\<close>

section \<open>Laws\<close>

text \<open>Hex text has no \<open>x\<close>; the parsers accept what the printers print; topics and selectors of
  different signatures differ; a type tag prints canonically: \<open>0x\<close> and a spelling that starts with
  no further prefix, in ASCII, that parses back to the tag.\<close>

definition bridge_lib_ok :: "evm_lib \<Rightarrow> bool" where
  "bridge_lib_ok l \<longleftrightarrow> hex_ok l \<and> (\<forall>bs. CHR ''x'' \<notin> set (el_hex l bs)) \<and>
     WITHDRAWAL_TOPIC l \<noteq> BRIDGE_CREATED_TOPIC l \<and>
     el_keccak l (as_bytes ''DepositMinted(uint64,address,uint256,string)'') \<noteq> WITHDRAWAL_TOPIC l \<and>
     selector l ''lastMintedDepositNonce()'' \<noteq> selector l ''mintedAny()'' \<and>
     (\<forall>s t. el_struct_tag l s = Ok t \<longrightarrow>
        (\<exists>u. t = ''0x'' @ u \<and> \<not> starts_with u ''0x'' \<and> (\<forall>c \<in> set u. of_char c < (128 :: nat))) \<and>
        el_struct_tag l t = Ok t)"

text \<open>Addresses read back; transaction hashes do not collide; a signed transaction decodes to what was
  signed; the field objects of the deposits table \<open>tbl\<close> are found by nonce.\<close>

definition bridge_net_ok :: "('v, 'key) bridge_net \<Rightarrow> address \<Rightarrow> bool" where
  "bridge_net_ok net tbl \<longleftrightarrow> bridge_lib_ok (bn_lib net) \<and> inj (bn_hash net) \<and>
     (\<forall>a. bn_read_address net (el_checksum (bn_lib net) a) = Some a) \<and>
     (\<forall>tx raw r a n. el_sign_tx (bn_lib net) tx = Ok raw \<longrightarrow> tx_input tx = el_mint_call (bn_lib net) r a n \<longrightarrow>
        bn_decode net raw = Some (tx_to tx, CallMint r (ucast a) n)) \<and>
     (\<forall>tx raw nm sy c. el_sign_tx (bn_lib net) tx = Ok raw \<longrightarrow> tx_input tx = el_create_call (bn_lib net) nm sy c \<longrightarrow>
        bn_decode net raw = Some (tx_to tx, CallCreateBridge nm sy c)) \<and>
     (\<forall>n. bn_nonce_of net (bn_child_id net tbl (to_le_bytes n)) = Some n \<and>
        bn_child_id net tbl (to_le_bytes n) \<noteq> bc_vault (bn_client net))"

section \<open>Texts\<close>

declare to_vec_inverse [simp]

lemma trim_no_x: "CHR ''x'' \<notin> set s \<Longrightarrow> trim_start_0x s = s"
  by (cases s rule: trim_start_0x.cases) auto

lemma unhex_hex_text [simp]: "bridge_lib_ok l \<Longrightarrow> el_unhex l (trim_start_0x (hex_text l bs)) = Ok bs"
  by (simp add: hex_text_def trim_no_x bridge_lib_ok_def hex_ok_def)

lemma hex_text_inject [simp]: "bridge_lib_ok l \<Longrightarrow> hex_text l as = hex_text l bs \<longleftrightarrow> as = bs"
  by (metis unhex_hex_text sum.inject(2))

lemma hex_to_fixed32_text [simp]: "bridge_lib_ok l \<Longrightarrow> hex_to_fixed32 l (hex_text l (to_vec h)) = Ok h"
  by (simp add: hex_to_fixed32_def)

lemma hex_to_fixed32_abi [simp]:
  "bridge_lib_ok l \<Longrightarrow> length bs = 32 \<Longrightarrow> hex_to_fixed32 l (hex_text l bs) = Ok (Abs_barray bs)"
  by (simp add: hex_to_fixed32_def try_into_def)

lemma parse_log_address_text [simp]: "bridge_lib_ok l \<Longrightarrow> parse_log_address l (hex_text l (to_vec a)) = Ok a"
  by (simp add: parse_log_address_def)

lemma starts_with_append [simp]: "starts_with (p @ s) p"
  by (simp add: starts_with_def)

lemma trim_start_0x_id: "\<not> starts_with u ''0x'' \<Longrightarrow> trim_start_0x u = u"
  by (cases u rule: trim_start_0x.cases) (auto simp: starts_with_def)

text \<open>A normalized coin type normalizes to itself.\<close>

lemma normalize_canonical:
  assumes "bridge_lib_ok l" "normalize_coin_type l s = Ok coin"
  shows "\<exists>u. coin = as_bytes u \<and> from_utf8 err coin = Ok u \<and> normalize_coin_type l u = Ok coin \<and>
    coin_type_tag l u = Ok (''0x'' @ u) \<and> type_key (''0x'' @ u) = coin"
proof -
  obtain x t where t: "el_struct_tag l x = Ok t" "coin = as_bytes (trim_start_0x t)"
    using assms(2) by (auto simp: normalize_coin_type_def parse_struct_tag_flexible_def and_then_eq_Inr)
  then obtain u where u: "t = ''0x'' @ u" "\<not> starts_with u ''0x''" "\<forall>c \<in> set u. of_char c < (128 :: nat)"
    "el_struct_tag l t = Ok t" using assms(1) unfolding bridge_lib_ok_def by metis
  have coin: "coin = as_bytes u" using t(2) u(1,2) by (simp add: trim_start_0x_id)
  have "parse_struct_tag_flexible l u = Ok t" using u by (simp add: parse_struct_tag_flexible_def)
  then have "normalize_coin_type l u = Ok coin" "coin_type_tag l u = Ok (''0x'' @ u)"
    using t(2) u(1) by (simp_all add: normalize_coin_type_def coin_type_tag_def)
  moreover have "from_utf8 err coin = Ok u" using coin from_utf8_as_bytes [of err u] as_bytes_ascii [OF u(3)] by simp
  moreover have "type_key (''0x'' @ u) = coin" using coin u(2) by (simp add: type_key_def trim_start_0x_id)
  ultimately show ?thesis using coin by blast
qed

section \<open>Logs\<close>

lemma rpc_log_of_json [simp]: "rpc_log_of (log_json lg) = Ok lg"
proof -
  have "array_of string_value (JArr (map JStr ts)) = Ok ts" for ts
    by (simp add: array_of_def comp_def string_value_def as_str_def)
  then show ?thesis
    by (simp add: rpc_log_of_def log_json_def is_object_def default_field_def jget_def string_value_def as_str_def)
qed

lemma array_of_log_json: "array_of rpc_log_of (JArr (map (log_json \<circ> f) xs)) = Ok (map f xs)"
  by (simp add: array_of_def comp_def collect_results_Inr_map)

lemma length_abi [simp]:
  "length (abi_u64 n) = 32" "length (abi_u256 x) = 32" "length (abi_address a) = 32"
  by (simp_all add: abi_u64_def abi_u256_def abi_address_def)

lemma word_u64_abi [simp]: "word_u64 (abi_u64 n) = n"
  by (simp add: word_u64_def abi_u64_def)

lemma le_bytes_take: "n \<le> m \<Longrightarrow> take n (le_bytes m w) = le_bytes n w"
proof (induction n arbitrary: m w)
  case (Suc n)
  then show ?case by (cases m) simp_all
qed simp

lemma le_word_le_bytes_ucast: "(le_word (le_bytes n (w :: 'a::len word)) :: 'b::len word) = take_bit (8 * n) (ucast w)"
proof (induction n arbitrary: w)
  case (Suc n)
  show ?case
  proof (rule bit_word_eqI)
    fix i assume i: "i < LENGTH('b)"
    show "bit (le_word (le_bytes (Suc n) w) :: 'b word) i = bit (take_bit (8 * Suc n) (ucast w :: 'b word)) i"
      using i by (auto simp: Suc bit_or_iff bit_push_bit_iff bit_take_bit_iff bit_drop_bit_eq bit_ucast_iff
          dest: bit_imp_le_length)
  qed
qed simp

text \<open>The relayer keeps the low eight bytes of a 256-bit amount.\<close>

lemma low_bytes_u256: "from_be_bytes (take 8 (drop 24 (abi_u256 x))) = ucast x"
proof -
  have "take 8 (drop 24 (abi_u256 x)) = rev (take 8 (le_bytes 32 x))"
    unfolding abi_u256_def by (simp add: drop_rev take_rev)
  then have "from_be_bytes (take 8 (drop 24 (abi_u256 x))) = le_word (le_bytes 8 x)"
    by (simp add: from_be_bytes_def from_le_bytes_def le_bytes_take)
  also have "\<dots> = ucast x"
    unfolding le_word_le_bytes_ucast by (rule bit_word_eqI) (simp add: bit_take_bit_iff)
  finally show ?thesis .
qed

lemma parse_withdrawal_wire:
  assumes "bridge_lib_ok l"
  shows "parse_withdrawal_log l (wire_log l (b, a, EvWithdrawal n s r x)) =
    Ok \<lparr>pw_nonce = n, pw_amount = ucast x, pw_sui_recipient = r\<rparr>"
  using assms low_bytes_u256 [of x]
  by (simp add: parse_withdrawal_log_def wire_log_def topic_at_def log_data_u64_def)

lemma rl_address_wire [simp]: "rl_address (wire_log l (b, a, e)) = hex_text l (to_vec a)"
  by (simp add: wire_log_def)

text \<open>A \<open>BridgeCreated\<close> log is read back when its coin type is valid UTF-8 and skipped otherwise.\<close>

lemma length_as_bytes [simp]: "length (as_bytes s) = length s"
  by (simp add: as_bytes_def)

lemma decode_first_strings3:
  assumes "bridge_lib_ok l" "length s < 2 ^ 64"
  shows "decode_first_abi_string l (hex_text l (abi_strings3 s nm sy)) =
    (if 128 + length s < 2 ^ 64 then from_utf8 ''string not utf-8'' (as_bytes s) else Err ''string length overruns'')"
proof -
  let ?b = "abi_strings3 s nm sy"
  have head: "take 32 ?b = abi_u64 96" by (simp add: abi_strings3_def Let_def)
  have tail: "drop 96 ?b = abi_u64 (of_nat (length s)) @ as_bytes s @ abi_padding (length s) @ abi_string nm @ abi_string sy"
    by (simp add: abi_strings3_def Let_def abi_string_def)
  have len: "unat (of_nat (length s) :: u64) = length s"
    using assms(2) by (simp add: unat_of_nat take_bit_nat_eq_self)
  have w: "word_u64 (take 32 (drop 96 ?b)) = of_nat (length s)" by (simp add: tail)
  have body: "take (length s) (drop 128 ?b) = as_bytes s"
  proof -
    have "drop 128 ?b = drop 32 (drop 96 ?b)" by simp
    then show ?thesis by (simp add: tail)
  qed
  have "128 + length s \<le> length ?b" using arg_cong [OF tail, of length] by simp
  with assms(1) show ?thesis
    by (simp add: decode_first_abi_string_def Let_def head w len body)
qed

lemma decode_first_string:
  "bridge_lib_ok l \<Longrightarrow> length s < 2 ^ 64 \<Longrightarrow> decode_first_abi_string l (hex_text l (abi_strings3 s nm sy)) = Ok s' \<Longrightarrow> s' = s"
  by (auto simp: decode_first_strings3 from_utf8_as_bytes split: if_splits)

lemma decode_word_address_abi [simp]: "decode_word_address (Abs_barray (abi_address a)) = a"
proof -
  have "to_vec (Abs_barray (abi_address a) :: hash) = abi_address a" by simp
  then show ?thesis by (simp add: decode_word_address_def abi_address_def)
qed

lemma parse_created_wire:
  assumes "bridge_lib_ok l" "length s < 2 ^ 64"
    "parse_bridge_created_log l (wire_log l (b, a, EvCreated token s nm sy)) = Ok (coin, t)"
  shows "coin = s \<and> t = token"
  using assms decode_first_string [of l s nm sy coin]
  by (auto simp: parse_bridge_created_log_def wire_log_def topic_at_def and_then_eq_Inr)

section \<open>Requests to the node\<close>

lemma lp_l2_of [simp]:
  "lp_post (l2_of p) = lp_post p" "lp_lib (l2_of p) = lp_lib p" "lp_now (l2_of p) = lp_now p"
  by (simp_all add: l2_of_def l2_port.defs)

lemma bridge_port_simps [simp]:
  "lp_lib (bridge_port net io j) = bn_lib net" "lp_post (bridge_port net io j) = node_post net"
  "lp_signer (bridge_port net io j) = bn_signer net" "lp_factory (bridge_port net io j) = bn_factory net"
  "lp_withdraw (bridge_port net io j) = sui_withdraw net" "lp_io (bridge_port net io j) = io"
  "lp_cursors_json (bridge_port net io j) = j" "lp_cursors_path (bridge_port net io j) = ''bridge_cursors.json''"
  by (simp_all add: bridge_port_def)

lemma node_postE:
  assumes "node_post net req w = (r, w')"
  obtains (answered) w1 v g where "before_request net w = (Answered, w1)" "node_serve net (bw_rest w1) req (bw_l2 w1) = (v, g)"
      "r = Ok (JObj [(''jsonrpc'', JStr ''2.0''), (''id'', JNum 1), (''result'', v)])" "w' = w1\<lparr>bw_l2 := g\<rparr>"
    | (lost) f w1 v g e where "before_request net w = (f, w1)" "node_serve net (bw_rest w1) req (bw_l2 w1) = (v, g)"
      "r = Err e" "w' = w1\<lparr>bw_l2 := g\<rparr>"
    | (unreached) f w1 e where "before_request net w = (f, w1)" "r = Err e" "w' = w1"
  using assms by (auto simp: node_post_def split: prod.splits fate.splits)

lemma rpc_call_Ok:
  assumes "lp_post p = node_post net" "rpc_call p dec req w = (Ok x, w')"
  shows "\<exists>w1 v g. before_request net w = (Answered, w1) \<and> node_serve net (bw_rest w1) req (bw_l2 w1) = (v, g) \<and>
    v \<noteq> JNull \<and> dec v = Ok x \<and> w' = w1\<lparr>bw_l2 := g\<rparr>"
proof -
  obtain r w2 where post: "node_post net req w = (r, w2)" by fastforce
  from assms post obtain body where r: "r = Ok body"
    by (cases r) (auto simp: rpc_call_def sbind_def st_map_err_def)
  have w2: "w' = w2" using assms post r
    by (auto simp: rpc_call_def sbind_def st_map_err_def slift_def split: sum.splits)
  from post show ?thesis
  proof (cases rule: node_postE)
    case (answered w1 v g)
    have "v \<noteq> JNull \<and> dec v = Ok x"
      using assms post answered(3)
      by (auto simp: rpc_call_def sbind_def st_map_err_def slift_def is_object_def optional_field_def jget_def
          and_then_eq_Inr split: if_splits sum.splits)
    with answered w2 show ?thesis by blast
  qed (use r in simp_all)
qed

lemma rpc_call_world:
  "lp_post p = node_post net \<Longrightarrow> snd (rpc_call p dec req w) = snd (node_post net req w)"
  by (auto simp: rpc_call_def sbind_def st_map_err_def slift_def split: prod.splits sum.splits)

text \<open>Requests by name.\<close>

lemma serve_simps [simp]:
  "node_serve net v (l2_request ''eth_blockNumber'' []) g = (hex_qty (l2_head g), g)"
  "node_serve net v (l2_request ''eth_getLogs'' [q]) g = (node_logs net q g, g)"
  "node_serve net v (l2_request ''eth_sendRawTransaction'' [JStr t]) g = node_send net t g"
  "node_serve net v (l2_request ''eth_getTransactionReceipt'' [JStr t]) g = (node_receipt net t g, g)"
  "node_serve net v (l2_request ''eth_call'' [q, z]) g = (node_call net v (l2_request ''eth_call'' [q, z]) q g, g)"
  "node_serve net v (l2_request ''eth_gasPrice'' []) g = (bn_misc net v (l2_request ''eth_gasPrice'' []), g)"
  "node_serve net v (l2_request ''eth_chainId'' []) g = (bn_misc net v (l2_request ''eth_chainId'' []), g)"
  "node_serve net v (l2_request ''eth_getCode'' ps) g = (bn_misc net v (l2_request ''eth_getCode'' ps), g)"
  "node_serve net v (l2_request ''eth_getTransactionCount'' ps) g =
     (bn_misc net v (l2_request ''eth_getTransactionCount'' ps), g)"
  by (simp_all add: node_serve_def l2_request_def jget_def str_of_def arr_of_def)

lemma bw_l2_same [simp]: "w\<lparr>bw_l2 := bw_l2 w\<rparr> = w" "w\<lparr>bw_vault := bw_vault w\<rparr> = w"
  by (cases w, simp)+

lemma bridge_net_okD:
  assumes "bridge_net_ok net tbl"
  shows "bridge_lib_ok (bn_lib net)" "inj (bn_hash net)"
    "bn_read_address net (el_checksum (bn_lib net) a) = Some a"
    "el_sign_tx (bn_lib net) tx = Ok raw \<Longrightarrow> tx_input tx = el_mint_call (bn_lib net) r x n \<Longrightarrow>
       bn_decode net raw = Some (tx_to tx, CallMint r (ucast x) n)"
    "el_sign_tx (bn_lib net) tx = Ok raw \<Longrightarrow> tx_input tx = el_create_call (bn_lib net) nm sy c \<Longrightarrow>
       bn_decode net raw = Some (tx_to tx, CallCreateBridge nm sy c)"
    "bn_nonce_of net (bn_child_id net tbl (to_le_bytes n)) = Some n"
    "bn_child_id net tbl (to_le_bytes n) \<noteq> bc_vault (bn_client net)"
  using assms unfolding bridge_net_ok_def by blast+

lemma trim_show_hex [simp]: "trim_start_0x (show_hex_u64 k) = show_hex_u64 k"
  using trim_start_0x_show_hex [of k] by simp

text \<open>The logs a node returns are those of its ledger at that moment.\<close>

definition logs_for :: "evm_lib \<Rightarrow> evm_address list \<Rightarrow> hash \<Rightarrow> u64 \<Rightarrow> u64 \<Rightarrow> l2_ledger \<Rightarrow> l2_log list" where
  "logs_for l addrs topic a b g =
     filter (\<lambda>(blk, x, e). a \<le> blk \<and> blk \<le> b \<and> x \<in> set addrs \<and> (\<exists>ts. event_topics l e = topic # ts)) (l2_logs g)"

lemma json_readers [simp]:
  "arr_of (Some (JArr xs)) = xs" "str_of (Some (JStr t)) = t" "qty_of (Some (JStr (''0x'' @ show_hex_u64 k))) = k"
  by (simp_all add: arr_of_def str_of_def qty_of_def)

lemma node_logs_for:
  assumes "bridge_net_ok net tbl"
  shows "node_logs net (JObj [(''address'', JArr (map (\<lambda>a. JStr (el_checksum (bn_lib net) a)) addrs)),
     (''fromBlock'', JStr (''0x'' @ show_hex_u64 a)), (''toBlock'', JStr (''0x'' @ show_hex_u64 b)),
     (''topics'', JArr [JStr (hex_text (bn_lib net) (to_vec topic))])]) g =
   JArr (map (log_json \<circ> wire_log (bn_lib net)) (logs_for (bn_lib net) addrs topic a b g))"
    (is "node_logs net ?q g = _")
proof -
  note n = bridge_net_okD [OF assms]
  have fields: "jget ''address'' ?q = Some (JArr (map (\<lambda>a. JStr (el_checksum (bn_lib net) a)) addrs))"
    "jget ''fromBlock'' ?q = Some (JStr (''0x'' @ show_hex_u64 a))" "jget ''toBlock'' ?q = Some (JStr (''0x'' @ show_hex_u64 b))"
    "jget ''topics'' ?q = Some (JArr [JStr (hex_text (bn_lib net) (to_vec topic))])"
    by (simp_all add: jget_def)
  have addrs: "Some x \<in> set (map (\<lambda>x. bn_read_address net (str_of (Some x)))
      (map (\<lambda>a. JStr (el_checksum (bn_lib net) a)) addrs)) \<longleftrightarrow> x \<in> set addrs" for x
    by (auto simp: n(3) image_iff)
  have first: "(case event_topics (bn_lib net) e of [] \<Rightarrow> False
      | t # _ \<Rightarrow> hex_text (bn_lib net) (to_vec t) = hex_text (bn_lib net) (to_vec topic)) \<longleftrightarrow>
      (\<exists>ts. event_topics (bn_lib net) e = topic # ts)" for e
    using n(1) by (cases "event_topics (bn_lib net) e") (auto simp: to_vec_eq_iff)
  show ?thesis
    unfolding node_logs_def Let_def logs_for_def fields json_readers list.case addrs first by (rule refl)
qed

lemma eth_get_logs_Ok:
  assumes "bridge_net_ok net tbl" "lp_post p = node_post net" "lp_lib p = bn_lib net"
    "eth_get_logs p addrs topic a b w = (Ok lgs, w')"
  shows "before_request net w = (Answered, w')"
    "lgs = map (wire_log (bn_lib net)) (logs_for (bn_lib net) addrs topic a b (bw_l2 w'))"
proof -
  from assms(4) have "rpc_call p (array_of rpc_log_of) (l2_request ''eth_getLogs''
           [JObj [(''address'', JArr (map (\<lambda>a. JStr (el_checksum (bn_lib net) a)) addrs)),
                  (''fromBlock'', JStr (''0x'' @ show_hex_u64 a)),
                  (''toBlock'', JStr (''0x'' @ show_hex_u64 b)),
                  (''topics'', JArr [JStr (hex_text (bn_lib net) (to_vec topic))])]]) w = (Ok lgs, w')"
    by (simp add: eth_get_logs_def assms(3) split: if_splits)
  from rpc_call_Ok [OF assms(2) this] obtain w1 where w1: "before_request net w = (Answered, w1)" "w' = w1"
    "array_of rpc_log_of (JArr (map (log_json \<circ> wire_log (bn_lib net)) (logs_for (bn_lib net) addrs topic a b (bw_l2 w1)))) = Ok lgs"
    by (auto simp: node_logs_for [OF assms(1)] simp del: append_Cons append_Nil)
  then show "before_request net w = (Answered, w')"
    "lgs = map (wire_log (bn_lib net)) (logs_for (bn_lib net) addrs topic a b (bw_l2 w'))"
    by (simp_all add: array_of_log_json)
qed

lemma eth_send_Ok:
  assumes "bridge_net_ok net tbl" "lp_post p = node_post net" "lp_lib p = bn_lib net"
    "eth_send_raw_transaction p raw w = (Ok h, w')"
  shows "h = bn_hash net raw"
proof -
  note n = bridge_net_okD [OF assms(1)]
  from rpc_call_Ok [OF assms(2) assms(4) [unfolded eth_send_raw_transaction_def]] obtain g1 v g where
    "node_send net (hex_text (bn_lib net) raw) g1 = (v, g)" "string_value v = Ok h"
    by (auto simp: assms(3))
  then show ?thesis using n(1) by (auto simp: node_send_def string_value_def as_str_def)
qed

text \<open>A request changes the ledger only by putting a transaction into the pool.\<close>

lemma node_serve_ledger:
  assumes "bridge_lib_ok (bn_lib net)" "node_serve net v req g = (x, g')"
  shows "g' = g \<or> (\<exists>raw. jget ''method'' req = Some (JStr ''eth_sendRawTransaction'') \<and>
    arr_of (jget ''params'' req) \<noteq> [] \<and>
    el_unhex (bn_lib net) (trim_start_0x (str_of (Some (hd (arr_of (jget ''params'' req)))))) = Ok raw \<and>
    g' = g\<lparr>l2_pool := l2_pool g @ [raw]\<rparr>)"
proof (cases "str_of (jget ''method'' req) = ''eth_sendRawTransaction'' \<and> arr_of (jget ''params'' req) \<noteq> []")
  case True
  then have m: "jget ''method'' req = Some (JStr ''eth_sendRawTransaction'')"
    by (auto simp: str_of_def split: option.splits jv.splits)
  with True assms(2) have "node_send net (str_of (Some (hd (arr_of (jget ''params'' req))))) g = (x, g')"
    by (simp add: node_serve_def Let_def)
  with m True show ?thesis by (auto simp: node_send_def split: sum.splits)
next
  case False
  with assms(2) have "g' = g" by (auto simp: node_serve_def Let_def split: if_splits)
  then show ?thesis ..
qed

section \<open>Receipts\<close>

lemma receipt_of_json:
  "receipt_of (receipt_json l r) = Ok \<lparr>rc_status = (if fst r then ''0x1'' else ''0x0''), rc_logs = map (wire_log l) (snd r)\<rparr>"
  by (simp add: receipt_of_def receipt_json_def is_object_def jget_def default_field_def string_value_def as_str_def
      array_of_log_json [unfolded comp_def] comp_def)

lemma receipt_success: "ensure_receipt_success \<lparr>rc_status = (if b then ''0x1'' else ''0x0''), rc_logs = x\<rparr> = Ok u \<longleftrightarrow> b"
  by (simp add: ensure_receipt_success_def to_lowercase_def to_lower_def)

definition receipt_in :: "l2_ledger \<Rightarrow> byte list \<Rightarrow> bool \<Rightarrow> l2_log list \<Rightarrow> bool" where
  "receipt_in g raw st lgs \<longleftrightarrow> (raw, st, lgs) \<in> set (l2_receipts g)"

lemma node_receipt_Ok:
  assumes "inj (bn_hash net)" "node_receipt net (bn_hash net raw) g \<noteq> JNull"
  shows "\<exists>st lgs. receipt_in g raw st lgs \<and> node_receipt net (bn_hash net raw) g = receipt_json (bn_lib net) (st, lgs)"
proof -
  from assms(2) obtain e where e: "List.find (\<lambda>(raw', r). bn_hash net raw' = bn_hash net raw) (l2_receipts g) = Some e"
    by (cases "List.find (\<lambda>(raw', r). bn_hash net raw' = bn_hash net raw) (l2_receipts g)") (auto simp: node_receipt_def)
  obtain raw' st lgs where e': "e = (raw', st, lgs)" by (cases e)
  have "e \<in> set (l2_receipts g)" "bn_hash net raw' = bn_hash net raw"
    using e e' by (auto simp: find_Some_iff in_set_conv_nth)
  with assms(1) e' have "raw' = raw" "receipt_in g raw st lgs" by (auto simp: receipt_in_def dest: injD)
  with e e' show ?thesis by (auto simp: node_receipt_def)
qed

lemma receipt_wait_Ok:
  assumes "bridge_net_ok net tbl" "lp_post p = node_post net"
    "wait_for_receipt p (Suc k) (bn_hash net raw) poll w = Some (Ok rc, w')"
  shows "\<exists>st lgs. receipt_in (bw_l2 w') raw st lgs \<and>
    rc = \<lparr>rc_status = (if st then ''0x1'' else ''0x0''), rc_logs = map (wire_log (bn_lib net)) lgs\<rparr>"
proof -
  from assms(3) have "rpc_call p receipt_of (l2_request ''eth_getTransactionReceipt'' [JStr (bn_hash net raw)]) w = (Ok rc, w')"
    by (simp add: wait_for_receipt_once)
  from rpc_call_Ok [OF assms(2) this]
  have "node_receipt net (bn_hash net raw) (bw_l2 w') \<noteq> JNull" "receipt_of (node_receipt net (bn_hash net raw) (bw_l2 w')) = Ok rc"
    by auto
  with node_receipt_Ok [OF bridge_net_okD(2) [OF assms(1)] this(1)] obtain st lgs where
    r: "receipt_in (bw_l2 w') raw st lgs" "receipt_of (receipt_json (bn_lib net) (st, lgs)) = Ok rc" by metis
  have "rc = \<lparr>rc_status = (if st then ''0x1'' else ''0x0''), rc_logs = map (wire_log (bn_lib net)) lgs\<rparr>"
    using r(2) unfolding receipt_of_json by (simp only: sum.inject fst_conv snd_conv)
  with r(1) show ?thesis by blast
qed

lemma abi_bool: "last (abi_u64 (if b then 1 else 0)) \<noteq> 0 \<longleftrightarrow> b"
proof -
  have "last (abi_u64 n) = hd (to_le_bytes n)" for n
  proof -
    have "to_le_bytes n \<noteq> []" by (metis length_to_le_bytes list.size(3) zero_neq_numeral)
    then show ?thesis by (simp add: abi_u64_def to_be_bytes_def last_rev)
  qed
  then show ?thesis by (simp add: to_le_bytes_def numeral_eq_Suc)
qed

lemma abi_u64_nonempty [simp]: "abi_u64 n \<noteq> []"
  by (metis length_abi(1) list.size(3) zero_neq_numeral)

section \<open>The mint cursor of a token\<close>

lemma eth_call_token:
  assumes "bridge_net_ok net tbl" "lp_post p = node_post net" "lp_lib p = bn_lib net"
    "eth_call p token (selector (bn_lib net) sig) w = (Ok bytes, w')" "l2_tokens (bw_l2 w') token = Some t"
    "sig \<in> {''lastMintedDepositNonce()'', ''mintedAny()''}"
  shows "bytes = abi_u64 (if sig = ''mintedAny()'' then (if bt_minted_any t then 1 else 0) else bt_last_minted_nonce t)"
proof -
  note n = bridge_net_okD [OF assms(1)]
  let ?req = "eth_call_request (bn_lib net) token (hex_text (bn_lib net) (selector (bn_lib net) sig))"
  from assms(4) obtain out where out: "rpc_call p string_value ?req w = (Ok out, w')"
      "el_unhex (bn_lib net) (trim_start_0x out) = Ok bytes"
    by (auto simp: eth_call_def sbind_Ok_iff assms(3))
  have distinct: "selector (bn_lib net) ''mintedAny()'' \<noteq> selector (bn_lib net) ''lastMintedDepositNonce()''"
    using n(1) unfolding bridge_lib_ok_def by metis
  from rpc_call_Ok [OF assms(2) out(1)]
  have "string_value (node_call net (bw_rest w') ?req (JObj [(''to'', JStr (el_checksum (bn_lib net) token)),
       (''data'', JStr (hex_text (bn_lib net) (selector (bn_lib net) sig)))]) (bw_l2 w')) = Ok out"
    by (auto simp: eth_call_request_def)
  then have "out = hex_text (bn_lib net)
     (abi_u64 (if sig = ''mintedAny()'' then (if bt_minted_any t then 1 else 0) else bt_last_minted_nonce t))"
    using assms(5,6) n(1,3) distinct
    by (auto simp: node_call_def Let_def jget_def string_value_def as_str_def)
  with out(2) n(1) show ?thesis by simp
qed

section \<open>Reads of the Vault\<close>

lemma sui_read_Ok: "sui_read net q w = (Ok x, w') \<Longrightarrow> before_request net w = (Answered, w') \<and> q (vault_rpc_env net (bw_vault w')) = Ok x"
  by (auto simp: sui_read_def split: prod.splits fate.splits)

lemma sui_read_world: "snd (sui_read net q w) = snd (before_request net w)"
  by (simp add: sui_read_def split: prod.splits fate.splits)

lemma c_enc_read: "codec_ok c \<Longrightarrow> c_enc c x = Some bs \<Longrightarrow> bcs_from_bytes c bs = Ok y \<Longrightarrow> y = x"
  by (simp add: bcs_from_bytes_iff bcs_to_bytes_def codec_ok_dec bcs_from_bytes_def split: option.splits prod.splits if_splits)
     (metis codec_ok_dec append_Nil2 option.inject prod.inject)

lemma vault_status_Ok:
  assumes "lp_vault_status (bridge_port net io j) w = (Ok st, w')"
  shows "before_request net w = (Answered, w')" "vs_deposit_nonce st = va_deposit_nonce (bw_vault w')"
    "vs_deposits_table_uid st = va_deposits_id (bw_vault w')"
proof -
  from sui_read_Ok [of net _ w st w'] assms have r: "before_request net w = (Answered, w')"
    "vault_status (vault_rpc_env net (bw_vault w')) bcs_vault_decoders (\<lambda>_. Ok (bc_vault (bn_client net))) 0 [] [] = Ok st"
    by (auto simp: bridge_port_def)
  then obtain bs v where bs: "c_enc c_vault (vault_mirror net (bw_vault w')) = Some bs" "bcs_from_bytes c_vault bs = Ok v"
    "st = \<lparr>vs_deposit_nonce = vb_deposit_nonce v, vs_withdraw_nonce = vb_withdraw_nonce v,
           vs_deposits_table_uid = tb_id (vb_deposits v)\<rparr>"
    by (auto simp: vault_status_def vault_contents_def and_then_eq_Inr parse_vault_status_def bcs_vault_decoders_def
        object_contents_Ok vault_rpc_env_def parse_address_def)
  from c_enc_read [OF codec_ok_vault bs(1,2)] have "v = vault_mirror net (bw_vault w')" .
  with bs(3) r(1) show "before_request net w = (Answered, w')" "vs_deposit_nonce st = va_deposit_nonce (bw_vault w')"
    "vs_deposits_table_uid st = va_deposits_id (bw_vault w')" by (simp_all add: vault_mirror_def)
qed

lemma codec_ok_deposit_field: "codec_ok (c_field c_deposit)"
  by (intro codec_oks)

lemma deposit_at_Ok:
  assumes "bridge_net_ok net tbl" "lp_deposit_at (bridge_port net io j) tbl nonce w = (Ok (Some d), w')"
  shows "before_request net w = (Answered, w')" "va_deposits (bw_vault w') nonce = Some d"
proof -
  note n = bridge_net_okD(6,7) [OF assms(1), of nonce]
  from sui_read_Ok [of net _ w "Some d" w'] assms(2) have r: "before_request net w = (Answered, w')"
    "deposit_at (vault_rpc_env net (bw_vault w')) bcs_vault_decoders 0 [] tbl nonce = Ok (Some d)"
    by (auto simp: bridge_port_def)
  from r(2) obtain bs where fc: "field_contents (vault_rpc_env net (bw_vault w')) 0 [] tbl nonce = Ok (Some bs)"
    and pd: "parse_field_deposit bcs_vault_decoders bs = Ok d"
    by (auto simp: deposit_at_def and_then_eq_Inr split: sum.splits option.splits)
  from fc n obtain d' where d': "va_deposits (bw_vault w') nonce = Some d'"
    "c_enc (c_field c_deposit) \<lparr>fb_id = bn_child_id net tbl (to_le_bytes nonce), fb_name = nonce, fb_value = d'\<rparr> = Some bs"
    by (cases "va_deposits (bw_vault w') nonce") (auto simp: field_contents_def vault_rpc_env_def Let_def split: option.splits)
  from pd obtain f where "bcs_from_bytes (c_field c_deposit) bs = Ok f" "d = fb_value f"
    by (auto simp: parse_field_deposit_def bcs_vault_decoders_def and_then_eq_Inr split: if_splits)
  with c_enc_read [OF codec_ok_deposit_field d'(2)] have "d = d'" by auto
  with d' r(1) show "before_request net w = (Answered, w')" "va_deposits (bw_vault w') nonce = Some d" by simp_all
qed

end
