(* ===== verification/Bridge_Safety.thy ===== *)
theory Bridge_Safety
  imports Bridge_Wire
begin

text \<open>
  Safety of the bridge: runs of the relayer between the two chains, with crashes and restarts at any
  point of a pass (a crash is a pass whose remaining requests and writes fail, followed by a
  restart from the file), torn cursor files, lost answers, transactions mined late, and users that
  transact in between. The invariant ties every mint to a deposit, every release to a burn and the
  cursor to the mints below it.
\<close>

section \<open>What the logs and the Vault say\<close>

definition token_of :: "evm_lib \<Rightarrow> l2_log list \<Rightarrow> byte list \<Rightarrow> evm_address \<Rightarrow> bool" where
  "token_of l lgs coin token \<longleftrightarrow>
     (\<exists>b a s nm sy. (b, a, EvCreated token s nm sy) \<in> set lgs \<and> normalize_coin_type l s = Ok coin)"

definition minted_deposit :: "evm_lib \<Rightarrow> 'v bridge_world \<Rightarrow> u64 \<Rightarrow> bool" where
  "minted_deposit l w n \<longleftrightarrow>
     (\<exists>d token b r x c. va_deposits (bw_vault w) n = Some d \<and> token_of l (l2_logs (bw_l2 w)) (dr_coin_type d) token \<and>
        (b, token, EvMinted n r x c) \<in> set (l2_logs (bw_l2 w)))"

definition mint_due :: "evm_lib \<Rightarrow> 'v bridge_world \<Rightarrow> mint_law" where
  "mint_due l w token n r x \<longleftrightarrow>
     (\<exists>d. va_deposits (bw_vault w) n = Some d \<and> x = ucast (dr_amount d) \<and> to_vec r = dr_recipient_l2 d \<and>
        token_of l (l2_logs (bw_l2 w)) (dr_coin_type d) token) \<and>
     (\<forall>k < n. minted_deposit l w k)"

definition release_due :: "evm_lib \<Rightarrow> l2_log list \<Rightarrow> vault_withdrawal \<Rightarrow> bool" where
  "release_due l lgs e \<longleftrightarrow>
     (\<exists>b token s x. (b, token, EvWithdrawal (vw_l2_nonce e) s (vw_recipient e) x) \<in> set lgs \<and>
        token_of l lgs (vw_coin_type e) token \<and> vw_amount e = ucast x)"

definition call_due :: "('v, 'key) bridge_net \<Rightarrow> 'v bridge_world \<Rightarrow> byte list \<Rightarrow> bool" where
  "call_due net w raw \<longleftrightarrow>
     (\<forall>token r x n. bn_decode net raw = Some (token, CallMint r x n) \<longrightarrow> mint_due (bn_lib net) w token n r x)"

definition receipt_ok :: "('v, 'key) bridge_net \<Rightarrow> l2_log list \<Rightarrow> byte list \<times> bool \<times> l2_log list \<Rightarrow> bool" where
  "receipt_ok net lgs rc = (case rc of (raw, st, new) \<Rightarrow> set new \<subseteq> set lgs \<and>
     (\<forall>token r x n. st \<longrightarrow> bn_decode net raw = Some (token, CallMint r x n) \<longrightarrow> (\<exists>b c. new = [(b, token, EvMinted n r x c)])) \<and>
     (\<forall>f nm sy s. st \<longrightarrow> bn_decode net raw = Some (f, CallCreateBridge nm sy s) \<longrightarrow>
        (\<exists>b a token. new = [(b, a, EvCreated token s nm sy)])))"

definition bridge_inv :: "('v, 'key) bridge_net \<Rightarrow> address \<Rightarrow> 'v bridge_world \<Rightarrow> bool" where
  "bridge_inv net tbl w \<longleftrightarrow>
     ledger_ok (bn_signer net) (mint_due (bn_lib net) w) (bw_l2 w) \<and>
     l2_factory_at (bw_l2 w) = bn_factory net \<and>
     vault_ok (bw_vault w) \<and> va_deposits_id (bw_vault w) = tbl \<and>
     (\<forall>n d. va_deposits (bw_vault w) n = Some d \<longrightarrow> canonical_coin (bn_lib net) (dr_coin_type d)) \<and>
     (\<forall>e \<in> set (va_events (bw_vault w)). release_due (bn_lib net) (l2_logs (bw_l2 w)) e) \<and>
     (\<forall>raw \<in> set (l2_pool (bw_l2 w)). call_due net w raw) \<and>
     (\<forall>rc \<in> set (l2_receipts (bw_l2 w)). receipt_ok net (l2_logs (bw_l2 w)) rc)"

text \<open>The chains only grow.\<close>

definition world_le :: "'v bridge_world \<Rightarrow> 'v bridge_world \<Rightarrow> bool" where
  "world_le w w' \<longleftrightarrow>
     (\<exists>new. l2_logs (bw_l2 w') = l2_logs (bw_l2 w) @ new) \<and>
     (\<exists>new. l2_receipts (bw_l2 w') = l2_receipts (bw_l2 w) @ new) \<and>
     va_deposits (bw_vault w) \<subseteq>\<^sub>m va_deposits (bw_vault w')"

lemma world_le_refl [simp]: "world_le w w"
  by (simp add: world_le_def)

lemma world_le_trans: "world_le u v \<Longrightarrow> world_le v w \<Longrightarrow> world_le u w"
  unfolding world_le_def by (metis append_assoc map_le_trans)

lemma world_le_logs: "world_le w w' \<Longrightarrow> set (l2_logs (bw_l2 w)) \<subseteq> set (l2_logs (bw_l2 w'))"
  by (auto simp: world_le_def)

lemma world_le_deposit: "world_le w w' \<Longrightarrow> va_deposits (bw_vault w) n = Some d \<Longrightarrow> va_deposits (bw_vault w') n = Some d"
  by (auto simp: world_le_def map_le_def dest: bspec [OF _ domI])

lemma token_ofI:
  "(b, a, EvCreated token s nm sy) \<in> set lgs \<Longrightarrow> normalize_coin_type l s = Ok coin \<Longrightarrow> token_of l lgs coin token"
  unfolding token_of_def by blast

lemma token_of_mono: "token_of l lgs coin token \<Longrightarrow> set lgs \<subseteq> set lgs' \<Longrightarrow> token_of l lgs' coin token"
  unfolding token_of_def by blast

lemma minted_deposit_mono: "minted_deposit l w n \<Longrightarrow> world_le w w' \<Longrightarrow> minted_deposit l w' n"
  unfolding minted_deposit_def by (meson world_le_deposit world_le_logs token_of_mono subsetD)

lemma mint_due_mono: "mint_due l w a n r x \<Longrightarrow> world_le w w' \<Longrightarrow> mint_due l w' a n r x"
  unfolding mint_due_def by (blast intro: minted_deposit_mono world_le_deposit token_of_mono [OF _ world_le_logs])

lemma release_due_mono: "release_due l lgs e \<Longrightarrow> set lgs \<subseteq> set lgs' \<Longrightarrow> release_due l lgs' e"
  unfolding release_due_def by (meson token_of_mono subsetD)

lemma call_due_mono: "call_due net w raw \<Longrightarrow> world_le w w' \<Longrightarrow> call_due net w' raw"
  unfolding call_due_def using mint_due_mono by blast

lemma receipt_ok_mono: "receipt_ok net lgs rc \<Longrightarrow> set lgs \<subseteq> set lgs' \<Longrightarrow> receipt_ok net lgs' rc"
  by (auto simp: receipt_ok_def)

lemma bridge_inv_extend:
  assumes inv: "bridge_inv net tbl w" and le: "world_le w w'"
    and ledger: "ledger_ok (bn_signer net) (mint_due (bn_lib net) w) (bw_l2 w')" "l2_factory_at (bw_l2 w') = bn_factory net"
    and vault: "vault_ok (bw_vault w')" "va_deposits_id (bw_vault w') = tbl"
    and coins: "\<And>n d. va_deposits (bw_vault w') n = Some d \<Longrightarrow> canonical_coin (bn_lib net) (dr_coin_type d)"
    and events: "\<And>e. e \<in> set (va_events (bw_vault w')) \<Longrightarrow> e \<in> set (va_events (bw_vault w)) \<or>
      release_due (bn_lib net) (l2_logs (bw_l2 w')) e"
    and pool: "\<And>raw. raw \<in> set (l2_pool (bw_l2 w')) \<Longrightarrow> raw \<in> set (l2_pool (bw_l2 w)) \<or> call_due net w' raw"
    and receipts: "\<And>rc. rc \<in> set (l2_receipts (bw_l2 w')) \<Longrightarrow> rc \<in> set (l2_receipts (bw_l2 w)) \<or>
      receipt_ok net (l2_logs (bw_l2 w')) rc"
  shows "bridge_inv net tbl w'"
proof -
  note logs = world_le_logs [OF le]
  have "ledger_ok (bn_signer net) (mint_due (bn_lib net) w') (bw_l2 w')"
    by (rule ledger_ok_mono [OF ledger(1)]) (rule mint_due_mono [OF _ le])
  moreover have "release_due (bn_lib net) (l2_logs (bw_l2 w')) e" if "e \<in> set (va_events (bw_vault w'))" for e
    using events [OF that] inv release_due_mono [OF _ logs] by (auto simp: bridge_inv_def)
  moreover have "call_due net w' raw" if "raw \<in> set (l2_pool (bw_l2 w'))" for raw
    using pool [OF that] inv call_due_mono [OF _ le, of net raw] by (auto simp: bridge_inv_def)
  moreover have "receipt_ok net (l2_logs (bw_l2 w')) rc" if "rc \<in> set (l2_receipts (bw_l2 w'))" for rc
    using receipts [OF that] inv receipt_ok_mono [OF _ logs, of net rc] by (auto simp: bridge_inv_def)
  ultimately show ?thesis using ledger(2) vault coins unfolding bridge_inv_def by blast
qed

text \<open>A change of the world that keeps the invariant.\<close>

definition sound :: "('v, 'key) bridge_net \<Rightarrow> address \<Rightarrow> 'v bridge_world \<Rightarrow> 'v bridge_world \<Rightarrow> bool" where
  "sound net tbl w w' \<longleftrightarrow> (bridge_inv net tbl w \<longrightarrow> bridge_inv net tbl w' \<and> world_le w w')"

interpretation snd_order: run_order "sound net tbl"
  by unfold_locales (auto simp: sound_def intro: world_le_trans)

section \<open>Users, blocks and the network\<close>

lemma ledger_step_sound:
  assumes le: "l2_logs g = l2_logs (bw_l2 w) @ new" "\<exists>rs. l2_receipts g = l2_receipts (bw_l2 w) @ rs"
    and ok: "bridge_inv net tbl w \<Longrightarrow> ledger_ok (bn_signer net) (mint_due (bn_lib net) w) g"
    and at: "l2_factory_at g = l2_factory_at (bw_l2 w)" and pool: "set (l2_pool g) \<subseteq> set (l2_pool (bw_l2 w))"
    and receipts: "\<And>rc. rc \<in> set (l2_receipts g) \<Longrightarrow> rc \<in> set (l2_receipts (bw_l2 w)) \<or> receipt_ok net (l2_logs g) rc"
  shows "sound net tbl w (w\<lparr>bw_l2 := g\<rparr>)"
  unfolding sound_def
proof
  assume inv: "bridge_inv net tbl w"
  have wle: "world_le w (w\<lparr>bw_l2 := g\<rparr>)" using le by (simp add: world_le_def)
  have "bridge_inv net tbl (w\<lparr>bw_l2 := g\<rparr>)"
  proof (rule bridge_inv_extend [OF inv wle])
    show "ledger_ok (bn_signer net) (mint_due (bn_lib net) w) (bw_l2 (w\<lparr>bw_l2 := g\<rparr>))" using ok [OF inv] by simp
    show "rc \<in> set (l2_receipts (bw_l2 w)) \<or> receipt_ok net (l2_logs (bw_l2 (w\<lparr>bw_l2 := g\<rparr>))) rc"
      if "rc \<in> set (l2_receipts (bw_l2 (w\<lparr>bw_l2 := g\<rparr>)))" for rc using receipts that by simp
  qed (use inv at pool in \<open>auto simp: bridge_inv_def\<close>)
  with wle show "bridge_inv net tbl (w\<lparr>bw_l2 := g\<rparr>) \<and> world_le w (w\<lparr>bw_l2 := g\<rparr>)" by blast
qed

lemma vault_step_sound:
  assumes deps: "va_deposits (bw_vault w) \<subseteq>\<^sub>m va_deposits v" and at: "va_deposits_id v = va_deposits_id (bw_vault w)"
    and ok: "vault_ok (bw_vault w) \<Longrightarrow> vault_ok v"
    and coins: "\<And>n d. va_deposits v n = Some d \<Longrightarrow> va_deposits (bw_vault w) n = Some d \<or> canonical_coin (bn_lib net) (dr_coin_type d)"
    and events: "\<And>e. bridge_inv net tbl w \<Longrightarrow> e \<in> set (va_events v) \<Longrightarrow> e \<in> set (va_events (bw_vault w)) \<or>
      release_due (bn_lib net) (l2_logs (bw_l2 w)) e"
  shows "sound net tbl w (w\<lparr>bw_vault := v\<rparr>)"
  unfolding sound_def
proof
  assume inv: "bridge_inv net tbl w"
  have wle: "world_le w (w\<lparr>bw_vault := v\<rparr>)" using deps by (simp add: world_le_def)
  have "bridge_inv net tbl (w\<lparr>bw_vault := v\<rparr>)"
  proof (rule bridge_inv_extend [OF inv wle])
    show "canonical_coin (bn_lib net) (dr_coin_type d)" if "va_deposits (bw_vault (w\<lparr>bw_vault := v\<rparr>)) n = Some d" for n d
      using coins [of n d] that inv by (auto simp: bridge_inv_def)
    show "e \<in> set (va_events (bw_vault w)) \<or> release_due (bn_lib net) (l2_logs (bw_l2 (w\<lparr>bw_vault := v\<rparr>))) e"
      if "e \<in> set (va_events (bw_vault (w\<lparr>bw_vault := v\<rparr>)))" for e using events [OF inv] that by simp
  qed (use inv at ok in \<open>auto simp: bridge_inv_def\<close>)
  with wle show "bridge_inv net tbl (w\<lparr>bw_vault := v\<rparr>) \<and> world_le w (w\<lparr>bw_vault := v\<rparr>)" by blast
qed

lemma sound_clock: "sound net tbl w (w\<lparr>bw_clock := t\<rparr>)"
proof -
  have "mint_due l (w\<lparr>bw_clock := t\<rparr>) = mint_due l w" for l
    by (simp add: mint_due_def minted_deposit_def fun_eq_iff)
  then show ?thesis by (simp add: sound_def bridge_inv_def world_le_def call_due_def)
qed

lemma sound_rest: "sound net tbl w (w\<lparr>bw_rest := v\<rparr>)"
proof -
  have "mint_due l (w\<lparr>bw_rest := v\<rparr>) = mint_due l w" for l
    by (simp add: mint_due_def minted_deposit_def fun_eq_iff)
  then show ?thesis by (simp add: sound_def bridge_inv_def world_le_def call_due_def)
qed

lemma sound_mine_relayer:
  assumes raw: "raw \<in> set (l2_pool (bw_l2 w))" and dec: "bn_decode net raw = Some (target, c)"
    and run: "(if enough_gas then l2_mine (bn_signer net) target created c (bw_l2 w\<lparr>l2_pool := pool\<rparr>)
       else ((False, []), bw_l2 w\<lparr>l2_pool := pool\<rparr>\<lparr>l2_head := l2_head (bw_l2 w) + 1\<rparr>)) = ((st, lgs), g1)"
    and pool: "set pool \<subseteq> set (l2_pool (bw_l2 w))"
  shows "sound net tbl w (w\<lparr>bw_l2 := g1\<lparr>l2_receipts := l2_receipts g1 @ [(raw, st, lgs)]\<rparr>\<rparr>)"
proof (cases enough_gas)
  case True
  let ?g0 = "bw_l2 w\<lparr>l2_pool := pool\<rparr>"
  from run True have mine: "l2_mine (bn_signer net) target created c ?g0 = ((st, lgs), g1)" by simp
  note fr = l2_mine_frame [OF mine]
  show ?thesis
  proof (rule ledger_step_sound [where new = lgs])
    assume inv: "bridge_inv net tbl w"
    then have g: "ledger_ok (bn_signer net) (mint_due (bn_lib net) w) ?g0" and "call_due net w raw"
      using raw by (simp_all add: bridge_inv_def)
    have "ledger_ok (bn_signer net) (mint_due (bn_lib net) w) (snd (l2_mine (bn_signer net) target created c ?g0))"
    proof (rule ledger_ok_mine [OF g])
      show "bn_signer net \<noteq> barr_fill 0" using g by (simp add: ledger_ok_def)
      show "mint_due (bn_lib net) w target n r x" if "c = CallMint r x n" for r x n
        using \<open>call_due net w raw\<close> dec that by (simp add: call_due_def)
    qed
    then show "ledger_ok (bn_signer net) (mint_due (bn_lib net) w) (g1\<lparr>l2_receipts := l2_receipts g1 @ [(raw, st, lgs)]\<rparr>)"
      by (simp add: mine)
  next
    fix rc assume "rc \<in> set (l2_receipts (g1\<lparr>l2_receipts := l2_receipts g1 @ [(raw, st, lgs)]\<rparr>))"
    moreover have "receipt_ok net (l2_logs g1) (raw, st, lgs)"
      using mine dec fr(4) by (auto simp: receipt_ok_def dest!: l2_mine_mint l2_mine_create)
    ultimately show "rc \<in> set (l2_receipts (bw_l2 w)) \<or>
        receipt_ok net (l2_logs (g1\<lparr>l2_receipts := l2_receipts g1 @ [(raw, st, lgs)]\<rparr>)) rc"
      using fr(1) by auto
  qed (use fr pool in auto)
next
  case False
  with run have g1: "st = False" "lgs = []" "g1 = bw_l2 w\<lparr>l2_pool := pool, l2_head := l2_head (bw_l2 w) + 1\<rparr>" by auto
  show ?thesis
    by (rule ledger_step_sound [where new = "[]"]) (use g1 pool in \<open>auto simp: bridge_inv_def receipt_ok_def\<close>)
qed

lemma outside_sound: "sound net tbl w (outside_step net act w)"
proof (cases act)
  case (UserDeposit coin amount recipient)
  show ?thesis
  proof (cases "canonical_coin (bn_lib net) coin \<and> (\<exists>v. vault_deposit coin amount recipient (bw_vault w) = Ok v)")
    case True
    then obtain v where v: "canonical_coin (bn_lib net) coin" "vault_deposit coin amount recipient (bw_vault w) = Ok v" by blast
    have "sound net tbl w (w\<lparr>bw_vault := v\<rparr>)"
      by (rule vault_step_sound; rule vault_depositE [OF v(2)])
         (use v in \<open>auto simp: map_le_def intro: vault_ok_deposit split: if_splits\<close>)
    with v UserDeposit show ?thesis by simp
  qed (use UserDeposit in \<open>auto simp: snd_order.refl split: sum.splits\<close>)
next
  case (SetRotation st)
  have "sound net tbl w (w\<lparr>bw_vault := (bw_vault w)\<lparr>va_rotation := Some st\<rparr>\<rparr>)"
    by (rule vault_step_sound)
       (simp_all add: vault_ok_def reserve_of_def total_released_def total_deposited_def deposited_def)
  with SetRotation show ?thesis by simp
next
  case (UserCall sender target created c)
  show ?thesis
  proof (cases "sender = bn_signer net \<or> sender = barr_fill 0")
    case False
    obtain st lgs g where mine: "l2_mine sender target created c (bw_l2 w) = ((st, lgs), g)"
      by (metis prod.exhaust)
    note fr = l2_mine_frame [OF mine]
    have "sound net tbl w (w\<lparr>bw_l2 := g\<rparr>)"
    proof (rule ledger_step_sound [where new = lgs])
      assume "bridge_inv net tbl w"
      then show "ledger_ok (bn_signer net) (mint_due (bn_lib net) w) g"
        using ledger_ok_mine [of "bn_signer net" "mint_due (bn_lib net) w" "bw_l2 w" sender c target created] False mine
        by (simp add: bridge_inv_def)
    qed (use fr in auto)
    with UserCall False mine show ?thesis by simp
  qed (use UserCall in \<open>auto simp: snd_order.refl\<close>)
next
  case (MineRelayer raw created enough_gas)
  show ?thesis
  proof (cases "raw \<notin> set (l2_pool (bw_l2 w)) \<or> raw \<in> fst ` set (l2_receipts (bw_l2 w)) \<or> bn_decode net raw = None")
    case True
    then have "outside_step net act w = w" by (auto simp: MineRelayer Let_def)
    then show ?thesis by (simp add: snd_order.refl)
  next
    case False
    then obtain target c where dec: "bn_decode net raw = Some (target, c)" by auto
    let ?g0 = "bw_l2 w\<lparr>l2_pool := removeAll raw (l2_pool (bw_l2 w))\<rparr>"
    obtain st lgs g1 where run: "(if enough_gas then l2_mine (bn_signer net) target created c ?g0
       else ((False, []), ?g0\<lparr>l2_head := l2_head (bw_l2 w) + 1\<rparr>)) = ((st, lgs), g1)" by (metis prod.exhaust)
    have "outside_step net act w = w\<lparr>bw_l2 := g1\<lparr>l2_receipts := l2_receipts g1 @ [(raw, st, lgs)]\<rparr>\<rparr>"
      using False dec run by (auto simp: MineRelayer Let_def split: if_splits)
    moreover have "sound net tbl w (w\<lparr>bw_l2 := g1\<lparr>l2_receipts := l2_receipts g1 @ [(raw, st, lgs)]\<rparr>\<rparr>)"
      by (rule sound_mine_relayer [OF _ dec run]) (use False in auto)
    ultimately show ?thesis by simp
  qed
next
  case EmptyBlock
  have "sound net tbl w (w\<lparr>bw_l2 := (bw_l2 w)\<lparr>l2_head := l2_head (bw_l2 w) + 1\<rparr>\<rparr>)"
    by (rule ledger_step_sound [where new = "[]"]) (auto simp: bridge_inv_def)
  with EmptyBlock show ?thesis by simp
qed (simp add: sound_clock)

lemma outside_steps_sound: "sound net tbl w (fold (outside_step net) acts w)"
  by (induction acts arbitrary: w) (auto simp: snd_order.refl intro: snd_order.trans outside_sound)

lemma before_request_sound: "before_request net w = (f, w1) \<Longrightarrow> sound net tbl w w1"
  by (auto simp: before_request_def split: prod.splits intro: snd_order.trans [OF sound_rest outside_steps_sound])

text \<open>Every request of the relayer is sound, given that what it sends is due.\<close>

lemma pool_sound:
  assumes "bridge_inv net tbl w \<Longrightarrow> call_due net w raw"
  shows "sound net tbl w (w\<lparr>bw_l2 := (bw_l2 w)\<lparr>l2_pool := l2_pool (bw_l2 w) @ [raw]\<rparr>\<rparr>)"
  unfolding sound_def
proof
  assume inv: "bridge_inv net tbl w"
  let ?w = "w\<lparr>bw_l2 := (bw_l2 w)\<lparr>l2_pool := l2_pool (bw_l2 w) @ [raw]\<rparr>\<rparr>"
  have le: "world_le w ?w" by (simp add: world_le_def)
  have "bridge_inv net tbl ?w"
    by (rule bridge_inv_extend [OF inv le])
       (use inv call_due_mono [OF assms [OF inv] le] in \<open>auto simp: bridge_inv_def\<close>)
  with le show "bridge_inv net tbl ?w \<and> world_le w ?w" by blast
qed

lemma node_post_sound:
  assumes "jget ''method'' req \<noteq> Some (JStr ''eth_sendRawTransaction'')" "bridge_lib_ok (bn_lib net)"
  shows "preserves (sound net tbl) (node_post net req)"
proof (rule snd_order.preservesI)
  fix w
  obtain r w' where post: "node_post net req w = (r, w')" by fastforce
  have same: "w1\<lparr>bw_l2 := g\<rparr> = w1" if "node_serve net (bw_rest w1) req (bw_l2 w1) = (v, g)" for w1 v g
    using node_serve_ledger [OF assms(2) that] assms(1) by simp
  from post have "sound net tbl w w'"
  proof (cases rule: node_postE)
    case (answered w1 v g)
    with same [OF answered(2)] before_request_sound show ?thesis by metis
  next
    case (lost f w1 v g e)
    with same [OF lost(2)] before_request_sound show ?thesis by metis
  next
    case (unreached f w1 e)
    with before_request_sound show ?thesis by metis
  qed
  then show "sound net tbl w (snd (node_post net req w))" by (simp add: post)
qed

end
