(* ===== verification/Bridge_Relay.thy ===== *)
theory Bridge_Relay
  imports Bridge_Safety
begin

text \<open>
  The relayer's operations keep the invariant of the bridge, whatever the networks answer and wherever
  a pass stops.
\<close>

section \<open>Requests\<close>

named_theorems sound_intros \<open>operations whose effect on the chains is sound\<close>

lemmas sound_rules = snd_order.preserves_slift snd_order.preserves_sreturn snd_order.preserves_sthrow
  snd_order.preserves_st_map_err snd_order.preserves_sbind' snd_order.preserves_if

lemma sound_rpc:
  assumes "lp_post p = node_post net" "bridge_lib_ok (bn_lib net)" "name \<noteq> ''eth_sendRawTransaction''"
  shows "preserves (sound net tbl) (rpc_call p dec (l2_request name ps))"
proof -
  have "jget ''method'' (l2_request name ps) \<noteq> Some (JStr ''eth_sendRawTransaction'')"
    using assms(3) by (simp add: l2_request_def jget_def)
  from node_post_sound [OF this assms(2)] show ?thesis
    by (simp add: preserves_def rpc_call_world [OF assms(1)])
qed

lemma sound_requests [sound_intros]:
  assumes "lp_post p = node_post net" "bridge_lib_ok (bn_lib net)"
  shows "preserves (sound net tbl) (eth_get_logs p addrs topic a b)"
    "preserves (sound net tbl) (eth_block_number p)"
    "preserves (sound net tbl) (eth_chain_id p)"
    "preserves (sound net tbl) (eth_get_transaction_count p addr)"
    "preserves (sound net tbl) (eth_gas_price p)"
    "preserves (sound net tbl) (eth_call p token sel)"
    "preserves (sound net tbl) (eth_call_u64 p token sel)"
    "preserves (sound net tbl) (eth_call_bool p token sel)"
    "preserves (sound net tbl) (eth_call_address p token sel)"
    "preserves (sound net tbl) (eth_get_code p addr)"
proof -
  note rpc = sound_rpc [OF assms]
  show call: "preserves (sound net tbl) (eth_call p token sel)" for token sel
    unfolding eth_call_def eth_call_request_def by (intro sound_rules rpc) simp_all
  show "preserves (sound net tbl) (eth_get_logs p addrs topic a b)"
    unfolding eth_get_logs_def by (intro sound_rules rpc) simp_all
  show "preserves (sound net tbl) (eth_block_number p)" "preserves (sound net tbl) (eth_chain_id p)"
    "preserves (sound net tbl) (eth_get_transaction_count p addr)"
    unfolding eth_block_number_def eth_chain_id_def eth_get_transaction_count_def rpc_quantity_def
    by (intro sound_rules rpc; simp)+
  show "preserves (sound net tbl) (eth_gas_price p)"
    unfolding eth_gas_price_def by (intro sound_rules rpc) simp_all
  show "preserves (sound net tbl) (eth_call_u64 p token sel)" "preserves (sound net tbl) (eth_call_bool p token sel)"
    "preserves (sound net tbl) (eth_call_address p token sel)"
    unfolding eth_call_u64_def eth_call_bool_def eth_call_address_def by (intro sound_rules call)+
  show "preserves (sound net tbl) (eth_get_code p addr)"
    unfolding eth_get_code_def by (intro sound_rules rpc) simp_all
qed

lemma sound_unwrap_or [sound_intros]: "preserves (sound net tbl) m \<Longrightarrow> preserves (sound net tbl) (unwrap_or d m)"
  unfolding preserves_def unwrap_or_def by (auto split: prod.splits sum.splits) (metis snd_conv)+

lemma sound_mint_cursor [sound_intros]:
  assumes "lp_post p = node_post net" "bridge_lib_ok (bn_lib net)"
  shows "preserves (sound net tbl) (eth_mint_cursor p token)"
proof (rule snd_order.preservesI)
  fix w
  obtain last_minted w1 where u: "unwrap_or 0 (eth_call_u64 p token (selector (lp_lib p) ''lastMintedDepositNonce()'')) w = (last_minted, w1)"
    by fastforce
  note s1 = snd_order.preservesD [OF sound_unwrap_or [OF sound_requests(7) [OF assms]] u]
  have "preserves (sound net tbl) (sbind (eth_call_bool p token (selector (lp_lib p) ''mintedAny()''))
      (\<lambda>any. sreturn (any, last_minted)))"
    by (intro sound_rules sound_requests(8) [OF assms])
  from snd_order.preserves_after [OF this s1] show "sound net tbl w (snd (eth_mint_cursor p token w))"
    by (simp add: eth_mint_cursor_def u)
qed

lemma sound_verify [sound_intros]:
  assumes "lp_post p = node_post net" "bridge_lib_ok (bn_lib net)"
  shows "preserves (sound net tbl) (verify_l2_bridge_factory p factory relayer)"
  unfolding verify_l2_bridge_factory_def by (intro sound_rules sound_requests [OF assms])

lemma sound_wait:
  assumes "lp_post p = node_post net" "bridge_lib_ok (bn_lib net)" "wait_for_receipt p (Suc k) h poll w = Some (r, w')"
  shows "sound net tbl w w'"
proof -
  from assms(3) have "rpc_call p receipt_of (l2_request ''eth_getTransactionReceipt'' [JStr h]) w = (r, w')"
    by (simp add: wait_for_receipt_once)
  then show ?thesis by (rule snd_order.preservesD [OF sound_rpc [OF assms(1,2)], rotated]) simp
qed

lemma sound_absorb [sound_intros]:
  assumes "lp_post p = node_post net" "bridge_lib_ok (bn_lib net)"
  shows "preserves (sound net tbl) (absorb_creations p factory r a b)"
  unfolding absorb_creations_def by (intro sound_rules sound_requests [OF assms])

lemma sound_sui_read [sound_intros]: "preserves (sound net tbl) (sui_read net q)"
  unfolding preserves_def sui_read_world using before_request_sound by (metis prod.collapse)

lemma sound_send_raw:
  assumes "lp_post p = node_post net" "lp_lib p = bn_lib net" "bridge_lib_ok (bn_lib net)"
    and due: "\<And>w1. world_le w w1 \<Longrightarrow> bridge_inv net tbl w1 \<Longrightarrow> call_due net w1 raw"
  shows "sound net tbl w (snd (eth_send_raw_transaction p raw w))"
proof -
  let ?req = "l2_request ''eth_sendRawTransaction'' [JStr (hex_text (bn_lib net) raw)]"
  obtain r w' where post: "node_post net ?req w = (r, w')" by fastforce
  have sent: "sound net tbl w (w1\<lparr>bw_l2 := g\<rparr>)"
    if "before_request net w = (f, w1)" "node_serve net (bw_rest w1) ?req (bw_l2 w1) = (v, g)" for f w1 v g
  proof -
    note s1 = before_request_sound [OF that(1), of tbl]
    have g: "g = (bw_l2 w1)\<lparr>l2_pool := l2_pool (bw_l2 w1) @ [raw]\<rparr>"
      using that(2) assms(3) by (auto simp: node_send_def)
    show ?thesis
      unfolding sound_def
    proof
      assume inv: "bridge_inv net tbl w"
      with s1 have w1: "bridge_inv net tbl w1" "world_le w w1" by (simp_all add: sound_def)
      from pool_sound [of net tbl w1 raw] due [OF w1(2,1)] w1 g
      show "bridge_inv net tbl (w1\<lparr>bw_l2 := g\<rparr>) \<and> world_le w (w1\<lparr>bw_l2 := g\<rparr>)"
        by (auto simp: sound_def intro: world_le_trans)
    qed
  qed
  have "sound net tbl w w'"
    using post
  proof (cases rule: node_postE)
    case (answered w1 v g)
    with sent show ?thesis by blast
  next
    case (lost f w1 v g e)
    with sent show ?thesis by blast
  next
    case (unreached f w1 e)
    with before_request_sound show ?thesis by metis
  qed
  then show ?thesis
    by (simp add: eth_send_raw_transaction_def assms(2) rpc_call_world [OF assms(1)] post)
qed

section \<open>The relayer's state\<close>

definition registry_due :: "evm_lib \<Rightarrow> l2_log list \<Rightarrow> token_registry \<Rightarrow> bool" where
  "registry_due l lgs r \<longleftrightarrow>
     (\<forall>(coin, token) \<in> set (tr_by_coin_type r). token_of l lgs coin token) \<and>
     (\<forall>(token, coin) \<in> set (tr_by_address r). token_of l lgs coin token)"

definition cursors_due :: "evm_lib \<Rightarrow> 'v bridge_world \<Rightarrow> cursors \<Rightarrow> bool" where
  "cursors_due l w c \<longleftrightarrow> (\<forall>k < cu_next_deposit_nonce c. minted_deposit l w k)"

definition file_due :: "('v, 'key) bridge_net \<Rightarrow> cursors json \<Rightarrow> 'v bridge_world \<Rightarrow> disk \<Rightarrow> bool" where
  "file_due net j w d \<longleftrightarrow>
     (\<forall>t c. files d ''bridge_cursors.json'' = Some (Text t) \<longrightarrow> from_json j t = Ok c \<longrightarrow> cursors_due (bn_lib net) w c \<and>
        (\<forall>r. registry_from_snapshot (bn_lib net) (cu_tokens c) = Ok r \<longrightarrow>
           registry_due (bn_lib net) (l2_logs (bw_l2 w)) r))"

definition relay_inv :: "('v, 'key) bridge_net \<Rightarrow> address \<Rightarrow> cursors json \<Rightarrow> 'v bridge_world relayer \<Rightarrow> bool" where
  "relay_inv net tbl j s \<longleftrightarrow> bridge_inv net tbl (re_world s) \<and> re_deposits_table s = tbl \<and>
     registry_due (bn_lib net) (l2_logs (bw_l2 (re_world s))) (re_tokens s) \<and>
     cursors_due (bn_lib net) (re_world s) (re_cursors s) \<and> file_due net j (re_world s) (re_disk s)"

text \<open>A torn cursor file does not parse.\<close>

definition torn_ok :: "io \<Rightarrow> 'a json \<Rightarrow> bool" where
  "torn_ok io j \<longleftrightarrow> (\<forall>n e t. io n = Some (e, Text t) \<longrightarrow> isl (from_json j t))"

lemma torn_okD: "torn_ok io j \<Longrightarrow> io n = Some (e, Text t) \<Longrightarrow> from_json j t = Ok c \<Longrightarrow> thesis"
  unfolding torn_ok_def by fastforce

lemma registry_due_mono: "registry_due l lgs r \<Longrightarrow> set lgs \<subseteq> set lgs' \<Longrightarrow> registry_due l lgs' r"
  unfolding registry_due_def by (fast intro: token_of_mono)

lemma cursors_due_mono: "cursors_due l w c \<Longrightarrow> world_le w w' \<Longrightarrow> cursors_due l w' c"
  unfolding cursors_due_def using minted_deposit_mono by blast

lemma file_due_mono: "file_due net j w d \<Longrightarrow> world_le w w' \<Longrightarrow> file_due net j w' d"
  unfolding file_due_def using cursors_due_mono registry_due_mono world_le_logs by blast

lemma set_update: "set (AList.update k v al) \<subseteq> insert (k, v) (set al)"
  by (induction al) auto

lemma registry_due_insert:
  "registry_due l lgs r \<Longrightarrow> token_of l lgs coin token \<Longrightarrow> registry_due l lgs (snd (registry_insert coin token r))"
  using set_update [of coin token "tr_by_coin_type r"] set_update [of token coin "tr_by_address r"]
  by (auto simp: registry_insert_def registry_due_def split: option.splits)

lemma registry_due_empty [simp]: "registry_due l lgs registry_empty"
  by (simp add: registry_due_def registry_empty_def)

lemma registry_due_lookup:
  "registry_due l lgs r \<Longrightarrow> registry_token_for coin r = Some token \<Longrightarrow> token_of l lgs coin token"
  "registry_due l lgs r \<Longrightarrow> registry_coin_for token r = Some coin \<Longrightarrow> token_of l lgs coin token"
  by (auto simp: registry_due_def registry_token_for_def registry_coin_for_def dest: map_of_SomeD)

lemma set_btree_insert: "set (btree_insert k v t) \<subseteq> insert (k, v) (set t)"
  by (induction t) auto

lemma set_snapshot: "set (registry_snapshot l r) \<subseteq> (\<lambda>(c, a). (el_hex l c, el_show_address l a)) ` set (tr_by_coin_type r)"
proof -
  have "set (fold (\<lambda>(c, a). btree_insert (f c) (g a)) ps t) \<subseteq> (\<lambda>(c, a). (f c, g a)) ` set ps \<union> set t"
    for ps :: "('x \<times> 'y) list" and f :: "'x \<Rightarrow> 'k::linorder" and g :: "'y \<Rightarrow> 'v" and t
  proof (induction ps arbitrary: t)
    case (Cons e ps)
    obtain c a where e: "e = (c, a)" by (cases e)
    show ?case using Cons [of "btree_insert (f c) (g a) t"] set_btree_insert [of "f c" "g a" t] by (auto simp: e)
  qed simp
  from this [of "el_hex l" "el_show_address l" "tr_by_coin_type r" "[]"] show ?thesis
    by (simp add: registry_snapshot_def)
qed

lemma snapshot_entries_due:
  assumes "hex_ok l"
  shows "snapshot_entries l es r = Ok r' \<Longrightarrow> registry_due l lgs r \<Longrightarrow>
    (\<And>e. e \<in> set es \<Longrightarrow> \<exists>c a. e = (el_hex l c, el_show_address l a) \<and> token_of l lgs c a) \<Longrightarrow> registry_due l lgs r'"
proof (induction es arbitrary: r)
  case (Cons e es)
  obtain c a where e: "e = (el_hex l c, el_show_address l a)" "token_of l lgs c a" using Cons.prems(3) [of e] by auto
  from Cons.prems(1) e assms have "snapshot_entries l es (snd (registry_insert c a r)) = Ok r'" by (simp add: hex_ok_def)
  from Cons.IH [OF this registry_due_insert [OF Cons.prems(2) e(2)]] Cons.prems(3) show ?case by simp
qed simp

lemma snapshot_due:
  assumes "hex_ok l" "registry_due l lgs r" "registry_from_snapshot l (registry_snapshot l r) = Ok r'"
  shows "registry_due l lgs r'"
proof (rule snapshot_entries_due [OF assms(1)])
  show "snapshot_entries l (registry_snapshot l r) registry_empty = Ok r'"
    using assms(3) by (simp add: registry_from_snapshot_def)
  show "\<exists>c a. e = (el_hex l c, el_show_address l a) \<and> token_of l lgs c a" if "e \<in> set (registry_snapshot l r)" for e
    using that set_snapshot [of l r] assms(2) by (fastforce simp: registry_due_def)
qed simp

text \<open>Operations of the relayer that keep its invariant.\<close>

definition relay_sound ::
    "('v, 'key) bridge_net \<Rightarrow> address \<Rightarrow> cursors json \<Rightarrow> 'v bridge_world relayer \<Rightarrow> 'v bridge_world relayer \<Rightarrow> bool" where
  "relay_sound net tbl j s t \<longleftrightarrow>
     (relay_inv net tbl j s \<longrightarrow> relay_inv net tbl j t \<and> world_le (re_world s) (re_world t))"

interpretation rs: run_order "relay_sound net tbl j"
  by unfold_locales (auto simp: relay_sound_def intro: world_le_trans)

lemma relay_inv_world:
  assumes "relay_inv net tbl j s" "bridge_inv net tbl w" "world_le (re_world s) w"
  shows "relay_inv net tbl j (s\<lparr>re_world := w\<rparr>)"
  using assms(1,2) registry_due_mono [OF _ world_le_logs [OF assms(3)]] cursors_due_mono [OF _ assms(3)]
    file_due_mono [OF _ assms(3), of net j "re_disk s"]
  by (simp add: relay_inv_def)

lemma relay_sound_world: "sound net tbl (re_world s) w \<Longrightarrow> relay_sound net tbl j s (s\<lparr>re_world := w\<rparr>)"
  by (auto simp: relay_sound_def sound_def relay_inv_world) (simp_all add: relay_inv_def)

lemma on_net_sound: "preserves (sound net tbl) m \<Longrightarrow> preserves (relay_sound net tbl j) (on_net m)"
  unfolding preserves_def on_net_def by (auto split: prod.splits intro: relay_sound_world) (metis relay_sound_world snd_conv)

lemma relay_sound_cursors:
  "(relay_inv net tbl j s \<Longrightarrow> cursors_due (bn_lib net) (re_world s) c) \<Longrightarrow> relay_sound net tbl j s (s\<lparr>re_cursors := c\<rparr>)"
  by (simp add: relay_sound_def relay_inv_def)

lemma relay_sound_tokens:
  "(relay_inv net tbl j s \<Longrightarrow> registry_due (bn_lib net) (l2_logs (bw_l2 (re_world s))) r) \<Longrightarrow>
   relay_sound net tbl j s (s\<lparr>re_tokens := r\<rparr>)"
  by (simp add: relay_sound_def relay_inv_def)

lemma save_progress_sound:
  assumes "json_ok j" "torn_ok io j" "hex_ok (bn_lib net)"
  shows "relay_sound net tbl j s (save_progress (bridge_port net io j) s)"
  unfolding relay_sound_def
proof
  assume inv: "relay_inv net tbl j s"
  let ?c = "(re_cursors s)\<lparr>cu_tokens := registry_snapshot (bn_lib net) (re_tokens s)\<rparr>"
  let ?s = "save_progress (bridge_port net io j) s"
  have c: "cursors_due (bn_lib net) (re_world s) ?c" using inv by (simp add: relay_inv_def cursors_due_def)
  have "file_due net j (re_world s) (re_disk ?s)"
    unfolding file_due_def
  proof (intro allI impI)
    fix t c'
    assume t: "files (re_disk ?s) ''bridge_cursors.json'' = Some (Text t)" and c': "from_json j t = Ok c'"
    show "cursors_due (bn_lib net) (re_world s) c' \<and> (\<forall>r. registry_from_snapshot (bn_lib net) (cu_tokens c') = Ok r \<longrightarrow>
        registry_due (bn_lib net) (l2_logs (bw_l2 (re_world s))) r)"
    proof (cases "to_json j ?c")
      case (Inl e)
      with t c' inv show ?thesis
        by (simp add: save_progress_def Let_def persist_cursors_def relay_inv_def file_due_def)
    next
      case (Inr body)
      then have rd: "from_json j body = Ok ?c" using assms(1) by (simp add: json_ok_def)
      have "c' = ?c"
        using t c' rd Inr
        by (auto simp: save_progress_def Let_def persist_cursors_def fs_write_def split: option.splits
            intro: torn_okD [OF assms(2)])
      with c inv snapshot_due [OF assms(3)] show ?thesis by (auto simp: relay_inv_def)
    qed
  qed
  with inv c show "relay_inv net tbl j ?s \<and> world_le (re_world s) (re_world ?s)"
    by (simp add: relay_inv_def save_progress_def Let_def)
qed

section \<open>Sending transactions\<close>

lemma send_l2_tx_sound:
  assumes net: "bridge_net_ok net tbl"
    and due: "\<And>w1 raw. world_le (re_world s) w1 \<Longrightarrow> bridge_inv net tbl w1 \<Longrightarrow>
      (\<exists>tx. el_sign_tx (bn_lib net) tx = Ok raw \<and> tx_input tx = input \<and> tx_to tx = target) \<Longrightarrow> call_due net w1 raw"
  shows "relay_sound net tbl j s (snd (send_l2_tx (bridge_port net io j) target input gas s))"
proof -
  let ?p = "l2_of (bridge_port net io j)"
  have port: "lp_post ?p = node_post net" "lp_lib ?p = bn_lib net" by simp_all
  note lib = bridge_net_okD(1) [OF net]
  let ?rest = "\<lambda>nonce_tx. sbind (eth_gas_price ?p) (\<lambda>price.
             sbind (slift (map_err (\<lambda>_. ''signing bridge tx'') (el_sign_tx (bn_lib net)
                     \<lparr>tx_chain_id = re_chain_id s, tx_nonce = nonce_tx, tx_gas_limit = gas,
                      tx_max_fee_per_gas = price, tx_max_priority_fee = min price 2000000000,
                      tx_to = target, tx_input = input\<rparr>))) (eth_send_raw_transaction ?p))"
  obtain r w' where run: "sbind (eth_get_transaction_count ?p (bn_signer net)) ?rest (re_world s) = (r, w')" by fastforce
  from run have "sound net tbl (re_world s) w'"
  proof (cases rule: sbindE)
    case (err e)
    then show ?thesis using snd_order.preservesD [OF sound_requests(4) [OF port(1) lib]] by blast
  next
    case (ok nonce_tx w1)
    note s1 = snd_order.preservesD [OF sound_requests(4) [OF port(1) lib] ok(1), of tbl]
    from ok(2) show ?thesis
    proof (cases rule: sbindE)
      case (err e)
      then show ?thesis using snd_order.preservesD [OF sound_requests(5) [OF port(1) lib]] s1 snd_order.trans by blast
    next
      case (ok price w2)
      have s2: "sound net tbl (re_world s) w2"
        using snd_order.preservesD [OF sound_requests(5) [OF port(1) lib] ok(1)] s1 snd_order.trans by blast
      from ok(2) show ?thesis
      proof (cases rule: sbindE)
        case (err e)
        with s2 show ?thesis by simp
      next
        case (ok raw w3)
        then have raw: "\<exists>tx. el_sign_tx (bn_lib net) tx = Ok raw \<and> tx_input tx = input \<and> tx_to tx = target"
          and w3: "w3 = w2" by (auto intro!: exI)
        show ?thesis
          unfolding sound_def
        proof
          assume inv: "bridge_inv net tbl (re_world s)"
          with s2 have w2: "bridge_inv net tbl w2" "world_le (re_world s) w2" by (simp_all add: sound_def)
          have "sound net tbl w2 (snd (eth_send_raw_transaction ?p raw w2))"
            by (rule sound_send_raw [OF port lib]) (use due [OF _ _ raw] w2 world_le_trans in blast)
          with ok(2) w3 w2 show "bridge_inv net tbl w' \<and> world_le (re_world s) w'"
            by (auto simp: sound_def intro: world_le_trans)
        qed
      qed
    qed
  qed
  then show ?thesis
    using run by (simp add: send_l2_tx_def on_net_def relay_sound_world)
qed

lemma send_l2_tx_Ok:
  assumes "bridge_net_ok net tbl" "send_l2_tx (bridge_port net io j) target input gas s = (Ok h, s')"
  shows "\<exists>raw tx. h = bn_hash net raw \<and> el_sign_tx (bn_lib net) tx = Ok raw \<and> tx_input tx = input \<and> tx_to tx = target"
proof -
  from assms(2) obtain w1 nonce_tx w2 price w3 tx raw where
    "el_sign_tx (bn_lib net) tx = Ok raw" "tx_input tx = input" "tx_to tx = target"
    "eth_send_raw_transaction (l2_of (bridge_port net io j)) raw w3 = (Ok h, re_world s')"
    by (auto simp: send_l2_tx_def on_net_def sbind_Ok_iff split: prod.splits)
  with eth_send_Ok [OF assms(1), of "l2_of (bridge_port net io j)" raw] show ?thesis by auto
qed

lemma await_receipt_sound:
  assumes "bridge_net_ok net tbl"
  shows "preserves (relay_sound net tbl j) (await_receipt (bridge_port net io j) h)"
proof (rule rs.preservesI)
  fix s :: "'a bridge_world relayer"
  obtain r w' where w: "wait_for_receipt (l2_of (bridge_port net io j)) (Suc 0) h (lp_poll (bridge_port net io j)) (re_world s) =
      Some (r, w')"
    unfolding wait_for_receipt_once by (metis prod.exhaust)
  have "sound net tbl (re_world s) w'"
    by (rule sound_wait [OF _ bridge_net_okD(1) [OF assms] w]) simp
  with w show "relay_sound net tbl j s (snd (await_receipt (bridge_port net io j) h s))"
    by (simp add: await_receipt_def relay_sound_world)
qed

lemma await_receipt_Ok:
  assumes "bridge_net_ok net tbl" "await_receipt (bridge_port net io j) (bn_hash net raw) s = (Ok rc, s')"
  shows "\<exists>st lgs. receipt_in (bw_l2 (re_world s')) raw st lgs \<and>
    rc = \<lparr>rc_status = (if st then ''0x1'' else ''0x0''), rc_logs = map (wire_log (bn_lib net)) lgs\<rparr>"
proof -
  let ?wait = "wait_for_receipt (l2_of (bridge_port net io j)) (Suc 0) (bn_hash net raw) (lp_poll (bridge_port net io j)) (re_world s)"
  obtain r w' where w: "?wait = Some (r, w')" unfolding wait_for_receipt_once by (metis prod.exhaust)
  with assms(2) have "r = Ok rc" "re_world s' = w'" by (auto simp: await_receipt_def)
  with receipt_wait_Ok [OF assms(1) _ w [unfolded \<open>r = Ok rc\<close>]] show ?thesis by simp
qed

section \<open>Creating and minting\<close>

text \<open>A call that is no mint is always due; a mint is due when its deposit is.\<close>

lemma create_call_due:
  assumes "bridge_net_ok net tbl" "el_sign_tx (bn_lib net) tx = Ok raw" "tx_input tx = el_create_call (bn_lib net) nm sy c"
  shows "call_due net w raw"
  using bridge_net_okD(5) [OF assms] by (simp add: call_due_def)

lemma mint_call_due:
  assumes "bridge_net_ok net tbl" "el_sign_tx (bn_lib net) tx = Ok raw" "tx_input tx = el_mint_call (bn_lib net) r a n"
    "mint_due (bn_lib net) w (tx_to tx) n r (ucast a)"
  shows "call_due net w raw"
  using bridge_net_okD(4) [OF assms(1,2,3)] assms(4) by (simp add: call_due_def)

lemma receipt_inD:
  "bridge_inv net tbl w \<Longrightarrow> receipt_in (bw_l2 w) raw st lgs \<Longrightarrow> receipt_ok net (l2_logs (bw_l2 w)) (raw, st, lgs)"
  by (auto simp: bridge_inv_def receipt_in_def)

lemma created_length:
  "bridge_inv net tbl w \<Longrightarrow> (b, a, EvCreated token s nm sy) \<in> set (l2_logs (bw_l2 w)) \<Longrightarrow> length s < 2 ^ 64"
  by (force simp: bridge_inv_def ledger_ok_def log_ok_def)

lemma find_single: "List.find P [x] = Some y \<longleftrightarrow> y = x \<and> P x"
  by auto

lemma ensure_token_step:
  assumes net: "bridge_net_ok net tbl" and canonical: "canonical_coin (bn_lib net) coin"
    and run: "ensure_token (bridge_port net io j) coin s = (r, s')" and inv: "relay_inv net tbl j s"
  shows "relay_inv net tbl j s' \<and> world_le (re_world s) (re_world s') \<and>
    (\<forall>token. r = Ok token \<longrightarrow> token_of (bn_lib net) (l2_logs (bw_l2 (re_world s'))) coin token)"
proof (cases "registry_token_for coin (re_tokens s)")
  case (Some token)
  with run have "s' = s" "r = Ok token" by (simp_all add: ensure_token_def)
  with inv registry_due_lookup(1) [OF _ Some] show ?thesis by (auto simp: relay_inv_def)
next
  case None
  note lib = bridge_net_okD(1) [OF net]
  let ?p = "bridge_port net io j"
  have chain: "relay_inv net tbl j u \<and> world_le (re_world s) (re_world u)"
    if "relay_inv net tbl j t \<and> world_le (re_world s) (re_world t)" "relay_sound net tbl j t u" for t u
    using that by (auto simp: relay_sound_def intro: world_le_trans)
  have here: "relay_inv net tbl j s \<and> world_le (re_world s) (re_world s)" using inv by simp
  from run [unfolded ensure_token_def None option.case Let_def] show ?thesis
  proof (cases rule: sbindE)
    case (err e)
    with inv show ?thesis by simp
  next
    case (ok coin_str s0)
    then have coin_str: "from_utf8 ''deposit coin_type bytes are not utf-8'' coin = Ok coin_str" and s0: "s0 = s" by auto
    have norm: "normalize_coin_type (bn_lib net) coin_str = Ok coin"
      using canonical coin_str by (auto simp: canonical_coin_def from_utf8_def split: if_splits)
    obtain nm sy where md: "derive_token_metadata coin_str = (nm, sy)" by fastforce
    from ok(2) [unfolded s0 md prod.case create_bridge_calldata_def bridge_port_simps] show ?thesis
    proof (cases rule: sbindE)
      case (err e)
      have "relay_sound net tbl j s (snd (send_l2_tx ?p (bn_factory net) (el_create_call (bn_lib net) nm sy coin_str) CREATE_BRIDGE_GAS_LIMIT s))"
        by (rule send_l2_tx_sound [OF net]) (auto intro: create_call_due [OF net])
      with err chain [OF here] show ?thesis by (auto simp: st_map_err_Err_iff)
    next
      case (ok h s1)
      then have sent: "send_l2_tx ?p (bn_factory net) (el_create_call (bn_lib net) nm sy coin_str) CREATE_BRIDGE_GAS_LIMIT s = (Ok h, s1)"
        by simp
      have "relay_sound net tbl j s (snd (send_l2_tx ?p (bn_factory net) (el_create_call (bn_lib net) nm sy coin_str) CREATE_BRIDGE_GAS_LIMIT s))"
        by (rule send_l2_tx_sound [OF net]) (auto intro: create_call_due [OF net])
      then have i1: "relay_inv net tbl j s1 \<and> world_le (re_world s) (re_world s1)" using chain [OF here] sent by simp
      obtain raw tx where raw: "h = bn_hash net raw" "el_sign_tx (bn_lib net) tx = Ok raw"
        "tx_input tx = el_create_call (bn_lib net) nm sy coin_str" "tx_to tx = bn_factory net"
        using send_l2_tx_Ok [OF net sent] by blast
      note dec = bridge_net_okD(5) [OF net raw(2,3)]
      from ok(2) show ?thesis
      proof (cases rule: sbindE)
        case (err e)
        with chain [OF i1 rs.preservesD [OF await_receipt_sound [OF net] err(1)]] show ?thesis by simp
      next
        case (ok rcpt s2)
        note i2 = chain [OF i1 rs.preservesD [OF await_receipt_sound [OF net] ok(1)]]
        then have binv: "bridge_inv net tbl (re_world s2)" by (simp add: relay_inv_def)
        obtain st lgs where rc: "receipt_in (bw_l2 (re_world s2)) raw st lgs"
          "rcpt = \<lparr>rc_status = (if st then ''0x1'' else ''0x0''), rc_logs = map (wire_log (bn_lib net)) lgs\<rparr>"
          using await_receipt_Ok [OF net ok(1) [unfolded raw(1)]] by blast
        from ok(2) show ?thesis
        proof (cases rule: sbindE)
          case (err e)
          with i2 show ?thesis by simp
        next
          case (ok u s3)
          then have s3: "s3 = s2" and "st" using receipt_success [of st] rc(2) by (auto simp: slift_def)
          with receipt_inD [OF binv rc(1)] dec obtain b a created where
            lgs: "lgs = [(b, a, EvCreated created coin_str nm sy)]" "set lgs \<subseteq> set (l2_logs (bw_l2 (re_world s2)))"
            by (auto simp: receipt_ok_def)
          have len: "length coin_str < 2 ^ 64" using created_length [OF binv] lgs by auto
          have tok: "token_of (bn_lib net) (l2_logs (bw_l2 (re_world s2))) coin created"
            by (rule token_ofI [OF _ norm]) (use lgs in auto)
          from ok(2) [unfolded s3] show ?thesis
          proof (cases rule: sbindE)
            case (err e)
            with i2 show ?thesis by simp
          next
            case (ok lg s4)
            then have s4: "s4 = s2" and lg: "lg = wire_log (bn_lib net) (b, a, EvCreated created coin_str nm sy)"
              using rc(2) lgs(1) by (auto split: if_splits)
            show ?thesis
            proof (cases "parse_bridge_created_log (bn_lib net) lg")
              case (Inl e)
              with ok(2) s4 i2 show ?thesis by auto
            next
              case (Inr x)
              then obtain cs token where x: "parse_bridge_created_log (bn_lib net) lg = Ok (cs, token)" by (cases x) auto
              from parse_created_wire [OF lib len x [unfolded lg]] have token: "token = created" by simp
              have i5: "relay_inv net tbl j t \<and> world_le (re_world s) (re_world t) \<and>
                  registry_due (bn_lib net) (l2_logs (bw_l2 (re_world t))) (re_tokens t) \<and> re_world t = re_world s2"
                if "t = s2\<lparr>re_tokens := snd (registry_insert coin created (re_tokens s2))\<rparr>" for t
                using that i2 tok registry_due_insert [OF _ tok] by (simp add: relay_inv_def)
              let ?t = "s2\<lparr>re_tokens := snd (registry_insert coin created (re_tokens s2))\<rparr>"
              have "s' = ?t \<and> (r = Ok created \<or>
                  r = ok_or ''canonical token missing after twin rejection'' (registry_token_for coin (re_tokens ?t)))"
                using ok(2) x token s4
                by (cases "registry_insert coin created (re_tokens s2)"; cases "fst (registry_insert coin created (re_tokens s2))") auto
              with i5 [OF refl] tok registry_due_lookup(1) [of "bn_lib net" "l2_logs (bw_l2 (re_world ?t))" "re_tokens ?t" coin]
              show ?thesis by auto
            qed
          qed
        qed
      qed
    qed
  qed
qed

lemma mint_on_l2_step:
  assumes net: "bridge_net_ok net tbl" and inv: "relay_inv net tbl j s"
    and due: "\<And>recip. try_into recipient = Some recip \<Longrightarrow> mint_due (bn_lib net) (re_world s) token n recip (ucast amount)"
    and run: "mint_on_l2 (bridge_port net io j) token n recipient amount s = (r, s')"
  shows "relay_inv net tbl j s' \<and> world_le (re_world s) (re_world s') \<and>
    (r = Ok () \<longrightarrow> (\<exists>b h c. (b, token, EvMinted n h (ucast amount) c) \<in> set (l2_logs (bw_l2 (re_world s')))))"
proof -
  let ?p = "bridge_port net io j"
  have chain: "relay_inv net tbl j u \<and> world_le (re_world s) (re_world u)"
    if "relay_inv net tbl j t \<and> world_le (re_world s) (re_world t)" "relay_sound net tbl j t u" for t u
    using that by (auto simp: relay_sound_def intro: world_le_trans)
  have here: "relay_inv net tbl j s \<and> world_le (re_world s) (re_world s)" using inv by simp
  from run [unfolded mint_on_l2_def mint_calldata_def bridge_port_simps] show ?thesis
  proof (cases rule: sbindE)
    case (err e)
    with inv show ?thesis by simp
  next
    case (ok recip s0)
    then have recip: "try_into recipient = Some recip" and s0: "s0 = s" by auto
    have sent: "relay_sound net tbl j s (snd (send_l2_tx ?p token (el_mint_call (bn_lib net) recip amount n) MINT_GAS_LIMIT s))"
      by (rule send_l2_tx_sound [OF net])
         (metis mint_call_due [OF net] mint_due_mono [OF due [OF recip]])
    from ok(2) [unfolded s0] show ?thesis
    proof (cases rule: sbindE)
      case (err e)
      with chain [OF here sent] show ?thesis by (auto simp: st_map_err_Err_iff)
    next
      case (ok h s1)
      then have h: "send_l2_tx ?p token (el_mint_call (bn_lib net) recip amount n) MINT_GAS_LIMIT s = (Ok h, s1)" by simp
      with chain [OF here sent] have i1: "relay_inv net tbl j s1 \<and> world_le (re_world s) (re_world s1)" by simp
      obtain raw tx where raw: "h = bn_hash net raw" "el_sign_tx (bn_lib net) tx = Ok raw"
        "tx_input tx = el_mint_call (bn_lib net) recip amount n" "tx_to tx = token"
        using send_l2_tx_Ok [OF net h] by blast
      note dec = bridge_net_okD(4) [OF net raw(2,3)]
      from ok(2) show ?thesis
      proof (cases rule: sbindE)
        case (err e)
        with chain [OF i1 rs.preservesD [OF await_receipt_sound [OF net] err(1)]] show ?thesis by simp
      next
        case (ok rcpt s2)
        note i2 = chain [OF i1 rs.preservesD [OF await_receipt_sound [OF net] ok(1)]]
        then have binv: "bridge_inv net tbl (re_world s2)" by (simp add: relay_inv_def)
        obtain st lgs where rc: "receipt_in (bw_l2 (re_world s2)) raw st lgs"
          "rcpt = \<lparr>rc_status = (if st then ''0x1'' else ''0x0''), rc_logs = map (wire_log (bn_lib net)) lgs\<rparr>"
          using await_receipt_Ok [OF net ok(1) [unfolded raw(1)]] by blast
        have res: "r = ensure_receipt_success rcpt" "s' = s2" using ok(2) by (simp_all add: slift_def)
        have "\<exists>b h c. (b, token, EvMinted n h (ucast amount) c) \<in> set (l2_logs (bw_l2 (re_world s2)))" if "r = Ok ()"
        proof -
          have st using that res(1) receipt_success [of st] rc(2) by simp
          with receipt_inD [OF binv rc(1)] dec raw(4) obtain b c where
            "lgs = [(b, token, EvMinted n recip (ucast amount) c)]" "set lgs \<subseteq> set (l2_logs (bw_l2 (re_world s2)))"
            unfolding receipt_ok_def by auto
          then show ?thesis by auto
        qed
        with i2 res show ?thesis by simp
      qed
    qed
  qed
qed

text \<open>What a mint of the relayer's own token says.\<close>

lemma created_token:
  assumes "bridge_inv net tbl w" "token_of l (l2_logs (bw_l2 w)) coin token"
  shows "\<exists>t. l2_tokens (bw_l2 w) token = Some t \<and> bt_initialized t \<and> bt_relayer t = bn_signer net \<and>
    normalize_coin_type l (bt_coin_type t) = Ok coin \<and> token_ok token (l2_logs (bw_l2 w)) t"
proof -
  from assms(2) obtain b a s nm sy where c: "(b, a, EvCreated token s nm sy) \<in> set (l2_logs (bw_l2 w))"
    "normalize_coin_type l s = Ok coin" by (auto simp: token_of_def)
  have ok: "ledger_ok (bn_signer net) (mint_due (bn_lib net) w) (bw_l2 w)" using assms(1) by (simp add: bridge_inv_def)
  then have "log_ok (bn_signer net) (mint_due (bn_lib net) w) (bw_l2 w) (b, a, EvCreated token s nm sy)"
    using c(1) by (simp add: ledger_ok_def)
  then show ?thesis using c(2) ok by (auto simp: log_ok_def ledger_ok_def)
qed

lemma minted_due:
  assumes "bridge_inv net tbl w" "token_of l (l2_logs (bw_l2 w)) coin token"
    "(b, token, EvMinted n r x c) \<in> set (l2_logs (bw_l2 w))"
  shows "mint_due (bn_lib net) w token n r x" "r \<noteq> barr_fill 0"
proof -
  obtain t where t: "l2_tokens (bw_l2 w) token = Some t" "bt_relayer t = bn_signer net"
    using created_token [OF assms(1,2)] by blast
  have "log_ok (bn_signer net) (mint_due (bn_lib net) w) (bw_l2 w) (b, token, EvMinted n r x c)"
    using assms(1,3) by (simp add: bridge_inv_def ledger_ok_def)
  with t show "mint_due (bn_lib net) w token n r x" "r \<noteq> barr_fill 0" by (auto simp: log_ok_def)
qed

lemma token_of_unique:
  assumes "bridge_inv net tbl w" "token_of l (l2_logs (bw_l2 w)) c token" "token_of l (l2_logs (bw_l2 w)) d token"
  shows "c = d"
  using created_token [OF assms(1,2)] created_token [OF assms(1,3)] by auto

section \<open>The mint cursor\<close>

lemma mint_cursor_token:
  assumes net: "bridge_net_ok net tbl" and port: "lp_post p = node_post net" "lp_lib p = bn_lib net"
  shows "eth_call_u64 p token (selector (bn_lib net) ''lastMintedDepositNonce()'') w = (Ok n, w') \<Longrightarrow>
      l2_tokens (bw_l2 w') token = Some t \<Longrightarrow> n = bt_last_minted_nonce t"
    and "eth_call_bool p token (selector (bn_lib net) ''mintedAny()'') w = (Ok b, w') \<Longrightarrow>
      l2_tokens (bw_l2 w') token = Some t \<Longrightarrow> b = bt_minted_any t"
proof -
  assume "eth_call_u64 p token (selector (bn_lib net) ''lastMintedDepositNonce()'') w = (Ok n, w')"
    and t: "l2_tokens (bw_l2 w') token = Some t"
  then obtain bytes where bytes: "eth_call p token (selector (bn_lib net) ''lastMintedDepositNonce()'') w = (Ok bytes, w')"
    "n = from_be_bytes (take 8 (drop 24 bytes))"
    by (auto simp: eth_call_u64_def sbind_Ok_iff split: if_splits)
  from eth_call_token [OF net port bytes(1) t] have "bytes = abi_u64 (bt_last_minted_nonce t)" by simp
  with bytes(2) show "n = bt_last_minted_nonce t" by (simp add: abi_u64_def)
next
  assume "eth_call_bool p token (selector (bn_lib net) ''mintedAny()'') w = (Ok b, w')"
    and t: "l2_tokens (bw_l2 w') token = Some t"
  then obtain bytes where bytes: "eth_call p token (selector (bn_lib net) ''mintedAny()'') w = (Ok bytes, w')"
    "b \<longleftrightarrow> bytes \<noteq> [] \<and> last bytes \<noteq> 0"
    by (auto simp: eth_call_bool_def sbind_Ok_iff)
  from eth_call_token [OF net port bytes(1) t] have "bytes = abi_u64 (if bt_minted_any t then 1 else 0)" by simp
  with bytes(2) show "b = bt_minted_any t" using abi_bool by simp
qed

lemma mint_cursor_Ok:
  assumes net: "bridge_net_ok net tbl" and port: "lp_post p = node_post net" "lp_lib p = bn_lib net"
    and inv: "bridge_inv net tbl w" and tok: "token_of l (l2_logs (bw_l2 w)) coin token"
    and run: "eth_mint_cursor p token w = (Ok (True, lst), w')"
  shows "\<exists>b m r x c. (b, token, EvMinted m r x c) \<in> set (l2_logs (bw_l2 w')) \<and> lst \<le> m"
proof -
  note lib = bridge_net_okD(1) [OF net]
  let ?u64 = "eth_call_u64 p token (selector (bn_lib net) ''lastMintedDepositNonce()'')"
  obtain l0 w1 where u: "unwrap_or 0 ?u64 w = (l0, w1)" by fastforce
  with run have b: "eth_call_bool p token (selector (bn_lib net) ''mintedAny()'') w1 = (Ok True, w')" "lst = l0"
    by (auto simp: eth_mint_cursor_def port(2) sbind_Ok_iff)
  have s1: "sound net tbl w w1"
    using snd_order.preservesD [OF sound_unwrap_or [OF sound_requests(7) [OF port(1) lib]] u] .
  have s2: "sound net tbl w1 w'" using snd_order.preservesD [OF sound_requests(8) [OF port(1) lib] b(1)] .
  from s1 inv have w1: "bridge_inv net tbl w1" "world_le w w1" by (simp_all add: sound_def)
  with s2 have w': "bridge_inv net tbl w'" "world_le w1 w'" by (simp_all add: sound_def)
  note tok1 = token_of_mono [OF tok world_le_logs [OF w1(2)]]
  note tok' = token_of_mono [OF tok1 world_le_logs [OF w'(2)]]
  obtain t1 where t1: "l2_tokens (bw_l2 w1) token = Some t1" "token_ok token (l2_logs (bw_l2 w1)) t1"
    using created_token [OF w1(1) tok1] by blast
  obtain t' where t': "l2_tokens (bw_l2 w') token = Some t'" "token_ok token (l2_logs (bw_l2 w')) t'"
    using created_token [OF w'(1) tok'] by blast
  have "bt_minted_any t'" using mint_cursor_token(2) [OF net port b(1) t'(1)] by simp
  then have ne: "mint_nonces token (l2_logs (bw_l2 w')) \<noteq> []" "hd (mint_nonces token (l2_logs (bw_l2 w'))) = 0"
    using t'(2) by (auto simp: token_ok_def)
  consider "lst = 0" | "lst = bt_last_minted_nonce t1" "bt_minted_any t1"
  proof -
    from u consider e where "?u64 w = (Err e, w1)" "l0 = 0" | "?u64 w = (Ok l0, w1)"
      by (auto simp: unwrap_or_def split: prod.splits sum.splits)
    then show ?thesis
    proof cases
      case 2
      with mint_cursor_token(1) [OF net port _ t1(1)] have eq: "lst = bt_last_minted_nonce t1" using b(2) by simp
      moreover have "lst = 0 \<or> bt_minted_any t1" using t1(2) eq by (auto simp: token_ok_def)
      ultimately show ?thesis using that by blast
    qed (use b(2) that in blast)
  qed
  then show ?thesis
  proof cases
    case 1
    from hd_in_set [OF ne(1)] ne(2) have "0 \<in> set (mint_nonces token (l2_logs (bw_l2 w')))" by simp
    then obtain b' m r x c where "(b', token, EvMinted m r x c) \<in> set (l2_logs (bw_l2 w'))"
      unfolding mint_nonces_mem by blast
    moreover have "lst \<le> m" using 1 by simp
    ultimately show ?thesis by blast
  next
    case 2
    then have "unat lst \<in> set (mint_nonces token (l2_logs (bw_l2 w1)))"
      using t1(2) last_in_set by (fastforce simp: token_ok_def)
    then obtain b' m r x c where "(b', token, EvMinted m r x c) \<in> set (l2_logs (bw_l2 w1))" "unat lst = unat m"
      unfolding mint_nonces_mem by blast
    then have "(b', token, EvMinted m r x c) \<in> set (l2_logs (bw_l2 w'))" "lst \<le> m"
      using world_le_logs [OF w'(2)] by (auto simp: word_le_nat_alt)
    then show ?thesis by blast
  qed
qed

text \<open>A token whose cursor has reached a nonce has the deposit of that nonce minted.\<close>

lemma minted_reaches:
  assumes "bridge_inv net tbl w" "token_of (bn_lib net) (l2_logs (bw_l2 w)) coin token"
    "(b, token, EvMinted m r x c) \<in> set (l2_logs (bw_l2 w))" "n \<le> m"
  shows "minted_deposit (bn_lib net) w n"
proof -
  from minted_due(1) [OF assms(1,2,3)] obtain d where d: "va_deposits (bw_vault w) m = Some d"
    "token_of (bn_lib net) (l2_logs (bw_l2 w)) (dr_coin_type d) token" "\<forall>k < m. minted_deposit (bn_lib net) w k"
    unfolding mint_due_def by blast
  show ?thesis
  proof (cases "n = m")
    case True
    with d(1,2) assms(3) show ?thesis unfolding minted_deposit_def by blast
  qed (use d(3) assms(4) in auto)
qed

section \<open>The deposit pass\<close>

lemma unwrap_mint_cursor:
  assumes net: "bridge_net_ok net tbl" and inv: "relay_inv net tbl j s"
    and tok: "token_of (bn_lib net) (l2_logs (bw_l2 (re_world s))) coin token"
    and run: "unwrap_or (False, 0) (on_net (eth_mint_cursor (l2_of (bridge_port net io j)) token)) s = ((any, lst), s')"
  shows "relay_inv net tbl j s' \<and> world_le (re_world s) (re_world s') \<and>
    (\<forall>n. any \<longrightarrow> n \<le> lst \<longrightarrow> minted_deposit (bn_lib net) (re_world s') n)"
proof -
  let ?p = "l2_of (bridge_port net io j)"
  have port: "lp_post ?p = node_post net" "lp_lib ?p = bn_lib net" by simp_all
  obtain res w' where m: "eth_mint_cursor ?p token (re_world s) = (res, w')" by fastforce
  have s': "s' = s\<lparr>re_world := w'\<rparr>" using run m by (auto simp: unwrap_or_def on_net_def split: sum.splits)
  have "sound net tbl (re_world s) w'"
    using snd_order.preservesD [OF sound_mint_cursor [OF port(1) bridge_net_okD(1) [OF net]] m] .
  then have i: "relay_inv net tbl j s'" "world_le (re_world s) w'" "bridge_inv net tbl w'"
    using relay_sound_world [of net tbl s w' j] inv s' by (auto simp: relay_sound_def relay_inv_def)
  have "minted_deposit (bn_lib net) w' n" if "any" "n \<le> lst" for n
  proof -
    from run m that(1) have "res = Ok (True, lst)"
      by (cases res) (auto simp: unwrap_or_def on_net_def)
    with mint_cursor_Ok [OF net port _ tok] inv m obtain b k r x c where
      "(b, token, EvMinted k r x c) \<in> set (l2_logs (bw_l2 w'))" "lst \<le> k" by (auto simp: relay_inv_def)
    with minted_reaches [OF i(3) token_of_mono [OF tok world_le_logs [OF i(2)]]] that(2)
    show ?thesis by (meson order_trans)
  qed
  with i s' show ?thesis by simp
qed

lemma relay_deposit_sound:
  assumes net: "bridge_net_ok net tbl" and "json_ok j" "torn_ok io j"
  shows "preserves (relay_sound net tbl j) (relay_deposit (bridge_port net io j) latest)"
proof (rule rs.preservesI)
  fix s :: "'a bridge_world relayer"
  let ?p = "bridge_port net io j" and ?n = "cu_next_deposit_nonce (re_cursors s)"
  obtain go_on s' where step: "relay_deposit ?p latest s = (go_on, s')" by fastforce
  have deposit_at_sound: "preserves (relay_sound net tbl j) (on_net (lp_deposit_at ?p tb k))" for tb k
    by (rule on_net_sound) (simp add: bridge_port_def sound_sui_read)
  have canonical: "canonical_coin (bn_lib net) (dr_coin_type d)" "va_deposits (bw_vault (re_world s1)) k = Some d"
    if "on_net (lp_deposit_at ?p (re_deposits_table s) k) s = (Ok (Some d), s1)" "relay_inv net tbl j s1" "re_deposits_table s = tbl"
    for d k s1
  proof -
    from that(1,3) have "lp_deposit_at ?p tbl k (re_world s) = (Ok (Some d), re_world s1)"
      by (auto simp: on_net_def split: prod.splits)
    from deposit_at_Ok(2) [OF net this] show "va_deposits (bw_vault (re_world s1)) k = Some d" .
    with that(2) show "canonical_coin (bn_lib net) (dr_coin_type d)" by (auto simp: relay_inv_def bridge_inv_def)
  qed
  have "relay_inv net tbl j s' \<and> world_le (re_world s) (re_world s')" if inv: "relay_inv net tbl j s"
    using step
  proof (cases rule: relay_depositE)
    case caught_up
    with inv show ?thesis by simp
  next
    case (unread r)
    with rs.preservesD [OF deposit_at_sound unread(1)] inv show ?thesis by (simp add: relay_sound_def)
  next
    case (no_token d s1 e)
    from rs.preservesD [OF deposit_at_sound no_token(1)] inv
    have i1: "relay_inv net tbl j s1" "world_le (re_world s) (re_world s1)" by (simp_all add: relay_sound_def)
    with ensure_token_step [OF net canonical(1) [OF no_token(1)] no_token(2)] inv show ?thesis
      by (auto simp: relay_inv_def intro: world_le_trans)
  next
    case (minting d s1 token s2 any lst s3 r s4)
    from rs.preservesD [OF deposit_at_sound minting(2)] inv
    have i1: "relay_inv net tbl j s1" "world_le (re_world s) (re_world s1)" by (simp_all add: relay_sound_def)
    have tb: "re_deposits_table s = tbl" using inv by (simp add: relay_inv_def)
    note dep = canonical [OF minting(2) i1(1) tb]
    from ensure_token_step [OF net dep(1) minting(3) i1(1)]
    have i2: "relay_inv net tbl j s2" "world_le (re_world s1) (re_world s2)"
      "token_of (bn_lib net) (l2_logs (bw_l2 (re_world s2))) (dr_coin_type d) token" by auto
    from unwrap_mint_cursor [OF net i2(1,3) minting(4)]
    have i3: "relay_inv net tbl j s3" "world_le (re_world s2) (re_world s3)"
      "\<And>n. any \<Longrightarrow> n \<le> lst \<Longrightarrow> minted_deposit (bn_lib net) (re_world s3) n" by auto
    have le3: "world_le (re_world s1) (re_world s3)" "world_le (re_world s) (re_world s3)"
      using i1 i2 i3 world_le_trans by blast+
    have dep3: "va_deposits (bw_vault (re_world s3)) ?n = Some d"
      "token_of (bn_lib net) (l2_logs (bw_l2 (re_world s3))) (dr_coin_type d) token"
      using world_le_deposit [OF le3(1) dep(2)] token_of_mono [OF i2(3) world_le_logs [OF i3(2)]] by auto
    have older: "\<forall>k < ?n. minted_deposit (bn_lib net) (re_world s3) k"
      using inv minted_deposit_mono [OF _ le3(2)] by (auto simp: relay_inv_def cursors_due_def)
    have i4: "relay_inv net tbl j s4 \<and> world_le (re_world s3) (re_world s4) \<and>
        (r = Ok () \<longrightarrow> minted_deposit (bn_lib net) (re_world s4) ?n)"
    proof (cases "any \<and> ?n \<le> lst")
      case True
      with minting(5) i3 show ?thesis by auto
    next
      case False
      with minting(5) have run: "mint_on_l2 ?p token ?n (dr_recipient_l2 d) (dr_amount d) s3 = (r, s4)" by auto
      have due: "mint_due (bn_lib net) (re_world s3) token ?n recip (ucast (dr_amount d))"
        if "try_into (dr_recipient_l2 d) = Some recip" for recip
        using that dep3 older unfolding mint_due_def by (auto simp: try_into_eq_Some)
      from mint_on_l2_step [OF net i3(1) due run] have m: "relay_inv net tbl j s4" "world_le (re_world s3) (re_world s4)"
        "r = Ok () \<Longrightarrow> \<exists>b h c. (b, token, EvMinted ?n h (ucast (dr_amount d)) c) \<in> set (l2_logs (bw_l2 (re_world s4)))"
        by auto
      have "minted_deposit (bn_lib net) (re_world s4) ?n" if "r = Ok ()"
        using m(3) [OF that] world_le_deposit [OF m(2) dep3(1)] token_of_mono [OF dep3(2) world_le_logs [OF m(2)]]
        unfolding minted_deposit_def by blast
      with m(1,2) show ?thesis by blast
    qed
    have le4: "world_le (re_world s) (re_world s4)" using i4 le3(2) world_le_trans by blast
    show ?thesis
    proof (cases go_on)
      case False
      with minting(7) i4 le4 show ?thesis by simp
    next
      case True
      let ?t = "s4\<lparr>re_cursors := (re_cursors s4)\<lparr>cu_next_deposit_nonce := ?n + 1\<rparr>\<rparr>"
      have "minted_deposit (bn_lib net) (re_world s4) k" if "k < ?n + 1" for k
      proof -
        have "k < ?n \<or> k = ?n" using that unat_Suc_less [OF minting(1)] by (auto simp: word_less_nat_alt word_unat_eq_iff)
        then show ?thesis
          using True minting(6) i4 older minted_deposit_mono [of "bn_lib net" "re_world s3" k "re_world s4"] by auto
      qed
      with i4 have "relay_inv net tbl j ?t" by (simp add: relay_inv_def cursors_due_def)
      moreover have "relay_sound net tbl j ?t s'"
        using save_progress_sound [OF assms(2,3), of net tbl ?t] minting(7) True bridge_net_okD(1) [OF net]
        by (simp add: bridge_lib_ok_def)
      ultimately show ?thesis using le4 by (auto simp: relay_sound_def intro: world_le_trans)
    qed
  qed
  then show "relay_sound net tbl j s (snd (relay_deposit ?p latest s))" by (simp add: relay_sound_def step)
qed

section \<open>The withdrawal pass\<close>

lemma exec_withdraw_commands:
  assumes "exec_withdraw clock \<lparr>ptb_sender = sender, ptb_calls = withdraw_commands c tag recipient amount n\<rparr> v = Ok v'"
  shows "\<exists>moved. do_withdraw (type_key tag) recipient amount n v = Ok (moved, v')"
  using assms
  by (auto simp: withdraw_commands_def bridge_call_def withdraw_as_def and_then_eq_Inr split: option.splits if_splits)

lemma sui_withdraw_sound:
  assumes burn: "(b, token, EvWithdrawal n sender recipient x) \<in> set (l2_logs (bw_l2 w))"
    and tok: "token_of (bn_lib net) (l2_logs (bw_l2 w)) (type_key tag) token"
  shows "sound net tbl w (snd (sui_withdraw net tag recipient (ucast x) n w))"
proof -
  obtain f w1 where br: "before_request net w = (f, w1)" by fastforce
  note s1 = before_request_sound [OF br, of tbl]
  have paid: "sound net tbl w (w1\<lparr>bw_vault := v\<rparr>)"
    if ex: "exec_withdraw (bw_clock w1) \<lparr>ptb_sender = bc_sender (bn_client net),
        ptb_calls = withdraw_commands (bn_client net) tag recipient (ucast x) n\<rparr> (bw_vault w1) = Ok v" for v
  proof -
    obtain moved where dw: "do_withdraw (type_key tag) recipient (ucast x) n (bw_vault w1) = Ok (moved, v)"
      using exec_withdraw_commands [OF ex] by blast
    have "sound net tbl w1 (w1\<lparr>bw_vault := v\<rparr>)" if le: "world_le w w1"
    proof -
      have due: "release_due (bn_lib net) (l2_logs (bw_l2 w1)) \<lparr>vw_nonce = k, vw_coin_type = type_key tag, vw_amount = ucast x,
          vw_recipient = recipient, vw_l2_nonce = n\<rparr>" for k
        using burn token_of_mono [OF tok world_le_logs [OF le]] world_le_logs [OF le] unfolding release_due_def
        by (auto intro!: exI)
      from dw show ?thesis
        by (cases rule: do_withdrawE; intro vault_step_sound)
           (auto intro: vault_ok_withdraw due simp: map_le_refl)
    qed
    with s1 show ?thesis by (auto simp: sound_def intro: world_le_trans)
  qed
  show ?thesis
    by (auto simp: sui_withdraw_def br s1 paid split: fate.splits sum.splits)
qed

lemma process_log_sound:
  assumes net: "bridge_net_ok net tbl"
    and lg: "lg = wire_log (bn_lib net) (b, a, EvWithdrawal n sd r x)"
      "(b, a, EvWithdrawal n sd r x) \<in> set (l2_logs (bw_l2 (re_world s)))"
  shows "relay_sound net tbl j s (snd (process_withdrawal_log (bridge_port net io j) lg s))"
  unfolding relay_sound_def
proof
  assume inv: "relay_inv net tbl j s"
  note lib = bridge_net_okD(1) [OF net]
  let ?p = "bridge_port net io j"
  have stays: "relay_inv net tbl j s \<and> world_le (re_world s) (re_world s)" using inv by simp
  have parsed: "parse_log_address (bn_lib net) (rl_address lg) = Ok a" using lib by (simp add: lg(1))
  show "relay_inv net tbl j (snd (process_withdrawal_log ?p lg s)) \<and>
      world_le (re_world s) (re_world (snd (process_withdrawal_log ?p lg s)))"
  proof (cases "registry_coin_for a (re_tokens s)")
    case None
    with parsed stays show ?thesis by (simp add: process_withdrawal_log_def)
  next
    case (Some coin)
    then have tok: "token_of (bn_lib net) (l2_logs (bw_l2 (re_world s))) coin a"
      using inv registry_due_lookup(2) by (auto simp: relay_inv_def)
    then obtain str where "normalize_coin_type (bn_lib net) str = Ok coin" by (auto simp: token_of_def)
    from normalize_canonical [OF lib this, of "''token coin_type not utf-8''"] obtain u where
      u: "from_utf8 ''token coin_type not utf-8'' coin = Ok u" "coin_type_tag (bn_lib net) u = Ok (''0x'' @ u)"
        "type_key (''0x'' @ u) = coin" by blast
    have run: "process_withdrawal_log ?p lg s =
       st_map_err (\<lambda>e. ''Sui withdraw failed (nonce '' @ show_u64 n @ ''): '' @ bridge_error_display e)
         (on_net (sui_withdraw net (''0x'' @ u) r (ucast x) n)) s"
      using parsed Some u(1,2) parse_withdrawal_wire [OF lib, of b a n sd r x]
      by (simp add: process_withdrawal_log_def lg(1) del: append_Cons append_Nil)
    have "sound net tbl (re_world s) (snd (sui_withdraw net (''0x'' @ u) r (ucast x) n (re_world s)))"
      by (rule sui_withdraw_sound [OF lg(2)]) (use tok u(3) in simp)
    then have "relay_sound net tbl j s (snd (on_net (sui_withdraw net (''0x'' @ u) r (ucast x) n) s))"
      by (cases "sui_withdraw net (''0x'' @ u) r (ucast x) n (re_world s)") (simp add: on_net_def relay_sound_world del: append_Cons append_Nil)
    with inv show ?thesis
      unfolding run by (simp add: relay_sound_def st_map_err_def case_prod_beta)
  qed
qed

lemma process_logs_sound:
  assumes "bridge_net_ok net tbl"
  shows "(\<And>lg. lg \<in> set lgs \<Longrightarrow> \<exists>b a n sd r x. lg = wire_log (bn_lib net) (b, a, EvWithdrawal n sd r x) \<and>
      (b, a, EvWithdrawal n sd r x) \<in> set (l2_logs (bw_l2 (re_world s)))) \<Longrightarrow>
    relay_sound net tbl j s (snd (process_logs (bridge_port net io j) lgs s))"
proof (induction lgs arbitrary: s)
  case (Cons lg lgs)
  obtain b a n sd r x where lg: "lg = wire_log (bn_lib net) (b, a, EvWithdrawal n sd r x)"
    "(b, a, EvWithdrawal n sd r x) \<in> set (l2_logs (bw_l2 (re_world s)))" using Cons.prems [of lg] by auto
  obtain res s1 where step: "process_withdrawal_log (bridge_port net io j) lg s = (res, s1)" by fastforce
  have s1: "relay_sound net tbl j s s1" using process_log_sound [OF assms lg, of j io] step by simp
  show ?case
  proof (cases res)
    case (Inl e)
    with s1 step show ?thesis by simp
  next
    case (Inr y)
    have "relay_sound net tbl j s (snd (process_logs (bridge_port net io j) lgs s1))"
      unfolding relay_sound_def
    proof
      assume inv: "relay_inv net tbl j s"
      with s1 have i1: "relay_inv net tbl j s1" "world_le (re_world s) (re_world s1)" by (simp_all add: relay_sound_def)
      have "relay_sound net tbl j s1 (snd (process_logs (bridge_port net io j) lgs s1))"
      proof (rule Cons.IH)
        fix lg' assume "lg' \<in> set lgs"
        with Cons.prems [of lg'] world_le_logs [OF i1(2)]
        show "\<exists>b a n sd r x. lg' = wire_log (bn_lib net) (b, a, EvWithdrawal n sd r x) \<and>
            (b, a, EvWithdrawal n sd r x) \<in> set (l2_logs (bw_l2 (re_world s1)))" by (simp, blast)
      qed
      with i1 show "relay_inv net tbl j (snd (process_logs (bridge_port net io j) lgs s1)) \<and>
          world_le (re_world s) (re_world (snd (process_logs (bridge_port net io j) lgs s1)))"
        by (auto simp: relay_sound_def intro: world_le_trans)
    qed
    with step Inr show ?thesis by simp
  qed
qed (simp add: rs.refl)

text \<open>Logs of the factory are creations, logs of a token with the withdrawal topic are burns.\<close>

lemma log_of_factory:
  assumes "bridge_inv net tbl w" "(b, bn_factory net, e) \<in> set (l2_logs (bw_l2 w))"
  shows "\<exists>token s nm sy. e = EvCreated token s nm sy"
proof -
  from assms have "log_ok (bn_signer net) (mint_due (bn_lib net) w) (bw_l2 w) (b, bn_factory net, e)"
    "l2_tokens (bw_l2 w) (bn_factory net) = None" "l2_factory_at (bw_l2 w) = bn_factory net"
    by (auto simp: bridge_inv_def ledger_ok_def)
  then show ?thesis by (cases e) (auto simp: log_ok_def)
qed

lemma log_of_token:
  assumes "bridge_inv net tbl w" "(b, a, e) \<in> set (l2_logs (bw_l2 w))" "token_of l (l2_logs (bw_l2 w)) coin a"
    "bridge_lib_ok (bn_lib net)" "event_topics (bn_lib net) e = WITHDRAWAL_TOPIC (bn_lib net) # ts"
  shows "\<exists>n sd r x. e = EvWithdrawal n sd r x"
proof -
  have "log_ok (bn_signer net) (mint_due (bn_lib net) w) (bw_l2 w) (b, a, e)"
    "l2_tokens (bw_l2 w) (l2_factory_at (bw_l2 w)) = None"
    using assms(1,2) by (auto simp: bridge_inv_def ledger_ok_def)
  moreover obtain t where "l2_tokens (bw_l2 w) a = Some t" using created_token [OF assms(1,3)] by blast
  ultimately show ?thesis
    using assms(4,5) by (cases e) (auto simp: log_ok_def bridge_lib_ok_def)
qed

lemma absorb_logs_due:
  assumes "bridge_lib_ok l" "registry_due l lgs r"
    "\<And>lg. lg \<in> set new \<Longrightarrow> \<exists>b a token s nm sy. lg = (b, a, EvCreated token s nm sy) \<and> lg \<in> set lgs \<and> length s < 2 ^ 64"
  shows "registry_due l lgs (fold (absorb_log l) (map (wire_log l) new) r)"
  using assms(2,3)
proof (induction new arbitrary: r)
  case (Cons lg new)
  obtain b a token s nm sy where lg: "lg = (b, a, EvCreated token s nm sy)" "lg \<in> set lgs" "length s < 2 ^ 64"
    using Cons.prems(2) [of lg] by auto
  have "registry_due l lgs (absorb_log l (wire_log l lg) r)"
  proof (cases "parse_bridge_created_log l (wire_log l lg)")
    case (Inr y)
    obtain cs t where y: "y = (cs, t)" by (cases y)
    with Inr parse_created_wire [OF assms(1) lg(3), of b a token nm sy cs t] lg(1) have "cs = s" "t = token" by auto
    with Inr y lg(1,2) Cons.prems(1) show ?thesis
      by (auto simp: absorb_log_def split: sum.splits intro!: registry_due_insert token_ofI)
  qed (use Cons.prems(1) in \<open>simp add: absorb_log_def\<close>)
  with Cons.IH Cons.prems(2) show ?case by simp
qed simp

lemma absorb_due:
  assumes net: "bridge_net_ok net tbl" and port: "lp_post p = node_post net" "lp_lib p = bn_lib net"
    and run: "absorb_creations p (bn_factory net) r a b w = (Ok (n, r'), w')"
    and inv: "bridge_inv net tbl w" "registry_due (bn_lib net) (l2_logs (bw_l2 w)) r"
  shows "bridge_inv net tbl w'" "world_le w w'" "registry_due (bn_lib net) (l2_logs (bw_l2 w')) r'"
proof -
  note lib = bridge_net_okD(1) [OF net]
  have "sound net tbl w w'" using snd_order.preservesD [OF sound_absorb [OF port(1) lib] run] .
  with inv(1) show w': "bridge_inv net tbl w'" "world_le w w'" by (simp_all add: sound_def)
  from run obtain lgs where g: "eth_get_logs p [bn_factory net] (BRIDGE_CREATED_TOPIC (bn_lib net)) a b w = (Ok lgs, w')"
    "r' = fold (absorb_log (bn_lib net)) lgs r"
    by (auto simp: absorb_creations_def sbind_Ok_iff port(2))
  let ?new = "logs_for (bn_lib net) [bn_factory net] (BRIDGE_CREATED_TOPIC (bn_lib net)) a b (bw_l2 w')"
  have new: "\<exists>b a token s nm sy. lg = (b, a, EvCreated token s nm sy) \<and> lg \<in> set (l2_logs (bw_l2 w')) \<and> length s < 2 ^ 64"
    if "lg \<in> set ?new" for lg
  proof -
    from that obtain c e where "lg = (c, bn_factory net, e)" "lg \<in> set (l2_logs (bw_l2 w'))" by (auto simp: logs_for_def)
    with log_of_factory [OF w'(1)] created_length [OF w'(1)] show ?thesis by metis
  qed
  from absorb_logs_due [OF lib registry_due_mono [OF inv(2) world_le_logs [OF w'(2)]] new]
  show "registry_due (bn_lib net) (l2_logs (bw_l2 w')) r'"
    by (simp add: g(2) eth_get_logs_Ok(2) [OF net port g(1)])
qed

lemma absorbed_sound:
  assumes "bridge_net_ok net tbl"
    "on_net (absorb_creations (l2_of (bridge_port net io j)) (bn_factory net) (re_tokens s) a b) s = (Ok (n, tokens), t)"
  shows "relay_sound net tbl j s (t\<lparr>re_tokens := tokens\<rparr>)"
proof -
  from assms(2) obtain w' where run: "absorb_creations (l2_of (bridge_port net io j)) (bn_factory net) (re_tokens s) a b (re_world s) =
    (Ok (n, tokens), w')" "t = s\<lparr>re_world := w'\<rparr>" by (auto simp: on_net_def split: prod.splits)
  show ?thesis
    unfolding relay_sound_def
  proof
    assume inv: "relay_inv net tbl j s"
    then have "bridge_inv net tbl (re_world s)" "registry_due (bn_lib net) (l2_logs (bw_l2 (re_world s))) (re_tokens s)"
      by (simp_all add: relay_inv_def)
    note d = absorb_due [OF assms(1) _ _ run(1) this]
    have "relay_inv net tbl j t" using relay_inv_world [OF inv] d run(2) by simp
    with d run(2) show "relay_inv net tbl j (t\<lparr>re_tokens := tokens\<rparr>) \<and> world_le (re_world s) (re_world (t\<lparr>re_tokens := tokens\<rparr>))"
      by (simp add: relay_inv_def)
  qed
qed

lemma withdrawal_logs_sound:
  assumes net: "bridge_net_ok net tbl"
  shows "relay_sound net tbl j s (snd (sbind (on_net (eth_get_logs (l2_of (bridge_port net io j)) (registry_addresses (re_tokens s))
     (WITHDRAWAL_TOPIC (bn_lib net)) a b)) (process_logs (bridge_port net io j)) s))"
proof -
  let ?p = "l2_of (bridge_port net io j)"
  let ?get = "eth_get_logs ?p (registry_addresses (re_tokens s)) (WITHDRAWAL_TOPIC (bn_lib net)) a b"
  have port: "lp_post ?p = node_post net" "lp_lib ?p = bn_lib net" by simp_all
  note lib = bridge_net_okD(1) [OF net]
  obtain res w' where g: "?get (re_world s) = (res, w')" by fastforce
  then have on: "on_net ?get s = (res, s\<lparr>re_world := w'\<rparr>)" by (simp add: on_net_def)
  have s1: "relay_sound net tbl j s (s\<lparr>re_world := w'\<rparr>)"
    by (rule relay_sound_world) (rule snd_order.preservesD [OF sound_requests(1) [OF port(1) lib] g])
  show ?thesis
  proof (cases res)
    case (Inl e)
    with on s1 show ?thesis by simp
  next
    case (Inr lgs)
    note lgs = eth_get_logs_Ok(2) [OF net port g [unfolded Inr]]
    have "relay_sound net tbl j s (snd (process_logs (bridge_port net io j) lgs (s\<lparr>re_world := w'\<rparr>)))"
      unfolding relay_sound_def
    proof
      assume inv: "relay_inv net tbl j s"
      with s1 have i1: "relay_inv net tbl j (s\<lparr>re_world := w'\<rparr>)" "world_le (re_world s) w'" by (simp_all add: relay_sound_def)
      then have w': "bridge_inv net tbl w'" "registry_due (bn_lib net) (l2_logs (bw_l2 w')) (re_tokens s)"
        by (simp_all add: relay_inv_def)
      have "relay_sound net tbl j (s\<lparr>re_world := w'\<rparr>) (snd (process_logs (bridge_port net io j) lgs (s\<lparr>re_world := w'\<rparr>)))"
      proof (rule process_logs_sound [OF net])
        fix lg assume "lg \<in> set lgs"
        then obtain blk x e ts where e: "lg = wire_log (bn_lib net) (blk, x, e)" "(blk, x, e) \<in> set (l2_logs (bw_l2 w'))"
          "x \<in> set (registry_addresses (re_tokens s))" "event_topics (bn_lib net) e = WITHDRAWAL_TOPIC (bn_lib net) # ts"
          unfolding lgs logs_for_def by auto
        then obtain coin where "token_of (bn_lib net) (l2_logs (bw_l2 w')) coin x"
          using w'(2) by (auto simp: registry_addresses_def registry_due_def)
        from log_of_token [OF w'(1) e(2) this lib e(4)] obtain n sd r amt where "e = EvWithdrawal n sd r amt" by blast
        with e(1,2) have ev: "lg = wire_log (bn_lib net) (blk, x, EvWithdrawal n sd r amt)"
          "(blk, x, EvWithdrawal n sd r amt) \<in> set (l2_logs (bw_l2 w'))" by (simp_all only:)
        have here: "re_world (s\<lparr>re_world := w'\<rparr>) = w'" by simp
        show "\<exists>b a n sd r x. lg = wire_log (bn_lib net) (b, a, EvWithdrawal n sd r x) \<and>
            (b, a, EvWithdrawal n sd r x) \<in> set (l2_logs (bw_l2 (re_world (s\<lparr>re_world := w'\<rparr>))))"
          unfolding here using ev by blast
      qed
      with i1 show "relay_inv net tbl j (snd (process_logs (bridge_port net io j) lgs (s\<lparr>re_world := w'\<rparr>))) \<and>
          world_le (re_world s) (re_world (snd (process_logs (bridge_port net io j) lgs (s\<lparr>re_world := w'\<rparr>))))"
        by (auto simp: relay_sound_def intro: world_le_trans)
    qed
    with on Inr show ?thesis by simp
  qed
qed

lemma relay_withdrawals_sound:
  assumes net: "bridge_net_ok net tbl" and j: "json_ok j" "torn_ok io j"
  shows "preserves (relay_sound net tbl j) (relay_withdrawals (bridge_port net io j))"
proof (rule rs.preservesI)
  fix s :: "'a bridge_world relayer"
  let ?p = "bridge_port net io j" and ?from = "cu_next_l2_block (re_cursors s)"
  note lib = bridge_net_okD(1) [OF net]
  have port: "lp_post (l2_of ?p) = node_post net" by simp
  obtain rb s1 where b: "on_net (eth_block_number (l2_of ?p)) s = (rb, s1)" by fastforce
  have s1: "relay_sound net tbl j s s1"
    using rs.preservesD [OF on_net_sound [OF sound_requests(2) [OF port lib]] b] .
  show "relay_sound net tbl j s (snd (relay_withdrawals ?p s))"
  proof (cases rb)
    case (Inl e)
    with b s1 show ?thesis by (simp add: relay_withdrawals_def Let_def)
  next
    case (Inr latest)
    show ?thesis
    proof (cases "latest < ?from")
      case True
      with b s1 Inr show ?thesis by (simp add: relay_withdrawals_def Let_def)
    next
      case late: False
      obtain ra t where a: "on_net (absorb_creations (l2_of ?p) (bn_factory net) (re_tokens s1) ?from latest) s1 = (ra, t)"
        by fastforce
      show ?thesis
      proof (cases ra)
        case (Inl e)
        have "relay_sound net tbl j s1 t"
          using rs.preservesD [OF on_net_sound [OF sound_absorb [OF port lib]] a] .
        with b s1 Inr late a Inl show ?thesis by (auto simp: relay_withdrawals_def Let_def intro: rs.trans)
      next
        case (Inr y)
        obtain k tokens where y: "ra = Ok (k, tokens)" using Inr by (cases y) simp
        let ?s2 = "t\<lparr>re_tokens := tokens\<rparr>"
        have s2: "relay_sound net tbl j s ?s2"
          using absorbed_sound [OF net a [unfolded y]] s1 rs.trans by blast
        let ?logs = "if registry_addresses tokens = [] then sreturn ()
            else sbind (on_net (eth_get_logs (l2_of ?p) (registry_addresses tokens) (WITHDRAWAL_TOPIC (bn_lib net)) ?from latest))
                       (process_logs ?p)"
        obtain rl s3 where l: "?logs ?s2 = (rl, s3)" by fastforce
        have "relay_sound net tbl j ?s2 (snd (?logs ?s2))"
          using withdrawal_logs_sound [OF net, of j ?s2 io ?from latest] by (cases "registry_addresses tokens = []") (simp_all add: rs.refl sreturn_def)
        with l have s3: "relay_sound net tbl j s s3" using s2 rs.trans by fastforce
        let ?s4 = "s3\<lparr>re_cursors := (re_cursors s3)\<lparr>cu_next_l2_block := latest + 1\<rparr>\<rparr>"
        have "relay_sound net tbl j s3 ?s4"
          by (rule relay_sound_cursors) (simp add: relay_inv_def cursors_due_def)
        then have s5: "relay_sound net tbl j s (save_progress ?p ?s4)"
          using s3 rs.trans save_progress_sound [OF j, of net tbl ?s4] lib unfolding bridge_lib_ok_def by blast
        have "relay_withdrawals ?p s =
            sbind ?logs (\<lambda>_ s3. (Ok (), save_progress ?p (s3\<lparr>re_cursors := (re_cursors s3)\<lparr>cu_next_l2_block := latest + 1\<rparr>\<rparr>))) ?s2"
          using b \<open>rb = Ok latest\<close> late a y by (simp add: relay_withdrawals_def Let_def)
        with l s3 s5 show ?thesis by (cases rl) (simp_all add: sbind_def)
      qed
    qed
  qed
qed

section \<open>The deposit pass and the round\<close>

lemma deposit_loop_sound:
  assumes net: "bridge_net_ok net tbl" and j: "json_ok j" "torn_ok io j"
  shows "deposit_loop (bridge_port net io j) latest k s = Some t \<Longrightarrow> relay_sound net tbl j s t"
proof (induction k arbitrary: s)
  case (Suc k)
  obtain go_on u where step: "relay_deposit (bridge_port net io j) latest s = (go_on, u)" by fastforce
  have "relay_sound net tbl j s u" using rs.preservesD [OF relay_deposit_sound [OF assms] step] .
  with Suc step show ?case by (auto intro: rs.trans split: if_splits)
qed simp

lemma relay_deposits_sound:
  assumes net: "bridge_net_ok net tbl" and j: "json_ok j" "torn_ok io j"
    and run: "relay_deposits (bridge_port net io j) s = Some t"
  shows "relay_sound net tbl j s t"
proof -
  have "preserves (relay_sound net tbl j) (on_net (lp_vault_status (bridge_port net io j)))"
    by (rule on_net_sound) (simp add: bridge_port_def sound_sui_read)
  note s1 = rs.preservesD [OF this]
  obtain res s1 where st: "on_net (lp_vault_status (bridge_port net io j)) s = (res, s1)" by fastforce
  note first = s1 [OF st]
  show ?thesis
  proof (cases res)
    case (Inl e)
    with run st first show ?thesis by (simp add: relay_deposits_def)
  next
    case (Inr status)
    with run st obtain k where "deposit_loop (bridge_port net io j) (vs_deposit_nonce status) k s1 = Some t"
      by (auto simp add: relay_deposits_def simp del: deposit_loop.simps)
    from rs.trans [OF first deposit_loop_sound [OF assms(1-3) this]] show ?thesis .
  qed
qed

lemma relay_round_sound:
  assumes "bridge_net_ok net tbl" "json_ok j" "torn_ok io j" "relay_round (bridge_port net io j) s = Some t"
  shows "relay_sound net tbl j s t"
proof -
  obtain u where u: "relay_deposits (bridge_port net io j) s = Some u" "t = snd (relay_withdrawals (bridge_port net io j) u)"
    using assms(4) by (auto simp: relay_round_def)
  obtain r where "relay_withdrawals (bridge_port net io j) u = (r, t)" using u(2) by (cases "relay_withdrawals (bridge_port net io j) u") simp
  from rs.trans [OF relay_deposits_sound [OF assms(1-3) u(1)] rs.preservesD [OF relay_withdrawals_sound [OF assms(1-3)] this]]
  show ?thesis .
qed

end
