(* ===== verification/Bridge_Runs.thy ===== *)
theory Bridge_Runs
  imports Bridge_Relay
begin

text \<open>
  Runs of the bridge: the relayer starts from its cursor file or the factory's history, passes over
  both chains, and stops at any point of a pass; users transact on both chains at any time. What every
  run guarantees: mints match deposits, releases match burns, the Vault covers the tokens.
\<close>

section \<open>Start-up\<close>

lemma scan_loop_due:
  assumes net: "bridge_net_ok net tbl" and port: "lp_post p = node_post net" "lp_lib p = bn_lib net"
  shows "scan_loop p (bn_factory net) hd_block k chunk from_block r w = Some (res, w') \<Longrightarrow>
    bridge_inv net tbl w \<Longrightarrow> registry_due (bn_lib net) (l2_logs (bw_l2 w)) r \<Longrightarrow>
    bridge_inv net tbl w' \<and> world_le w w' \<and> (\<forall>r'. res = Ok r' \<longrightarrow> registry_due (bn_lib net) (l2_logs (bw_l2 w')) r')"
proof (induction k arbitrary: chunk from_block r w)
  case (Suc k)
  let ?to = "min (saturating_add from_block (chunk - 1)) hd_block"
  show ?case
  proof (cases "from_block > hd_block")
    case True
    with Suc.prems show ?thesis by auto
  next
    case within: False
    obtain ra w1 where a: "absorb_creations p (bn_factory net) r from_block ?to w = (ra, w1)" by fastforce
    show ?thesis
    proof (cases ra)
      case (Inl e)
      have "sound net tbl w w1"
        using snd_order.preservesD [OF sound_absorb [OF port(1) bridge_net_okD(1) [OF net]] a] .
      with Suc.prems(2) have w1: "bridge_inv net tbl w1" "world_le w w1" by (simp_all add: sound_def)
      show ?thesis
      proof (cases "chunk > MIN_CREATION_SCAN_CHUNK")
        case True
        with Suc.prems(1) within a Inl have "scan_loop p (bn_factory net) hd_block k (chunk div 2) from_block r w1 = Some (res, w')"
          by (simp add: Let_def)
        from Suc.IH [OF this w1(1) registry_due_mono [OF Suc.prems(3) world_le_logs [OF w1(2)]]] w1(2)
        show ?thesis by (blast intro: world_le_trans)
      next
        case False
        with Suc.prems(1) within a Inl w1 show ?thesis by (auto simp: Let_def)
      qed
    next
      case (Inr y)
      obtain found r1 where y: "ra = Ok (found, r1)" using Inr by (cases y) simp
      note d = absorb_due [OF net port a [unfolded y] Suc.prems(2,3)]
      from Suc.prems(1) within a y obtain c where
        "scan_loop p (bn_factory net) hd_block k c (?to + 1) r1 w1 = Some (res, w')" by (simp add: Let_def)
      from Suc.IH [OF this d(1) d(3)] d(2) show ?thesis by (blast intro: world_le_trans)
    qed
  qed
qed simp

definition snapshot_ok :: "evm_lib \<Rightarrow> 'v bridge_world relayer \<Rightarrow> bool" where
  "snapshot_ok l s \<longleftrightarrow> (\<forall>r. registry_from_snapshot l (cu_tokens (re_cursors s)) = Ok r \<longrightarrow>
     registry_due l (l2_logs (bw_l2 (re_world s))) r)"

lemma restore_sound:
  assumes net: "bridge_net_ok net tbl" and j: "json_ok j" "torn_ok io j"
    and run: "restore_token_registry (bridge_port net io j) fuel s = Some (res, t)"
    and inv: "relay_inv net tbl j s" and snap: "snapshot_ok (bn_lib net) s"
  shows "relay_inv net tbl j t \<and> world_le (re_world s) (re_world t)"
proof (cases "cu_tokens (re_cursors s) \<noteq> [] \<and> cu_next_l2_block (re_cursors s) > 0")
  case True
  with run inv snap show ?thesis
    by (auto simp: restore_token_registry_def relay_inv_def snapshot_ok_def split: sum.splits)
next
  case fresh: False
  let ?p = "l2_of (bridge_port net io j)"
  note lib = bridge_net_okD(1) [OF net]
  have port: "lp_post ?p = node_post net" "lp_lib ?p = bn_lib net" by simp_all
  obtain rb s1 where b: "on_net (eth_block_number ?p) s = (rb, s1)" by fastforce
  have s1: "relay_inv net tbl j s1" "world_le (re_world s) (re_world s1)"
    using rs.preservesD [OF on_net_sound [OF sound_requests(2) [OF port(1) lib]] b, of tbl j] inv
    by (simp_all add: relay_sound_def)
  show ?thesis
  proof (cases rb)
    case (Inl e)
    with run fresh b s1 show ?thesis by (auto simp: restore_token_registry_def)
  next
    case (Inr hd_block)
    from run fresh b Inr obtain rr w where
      scan: "scan_loop ?p (bn_factory net) hd_block fuel CREATION_SCAN_CHUNK 0 registry_empty (re_world s1) = Some (rr, w)"
      by (auto simp: restore_token_registry_def split: option.splits)
    have w: "bridge_inv net tbl w" "world_le (re_world s1) w"
        "\<forall>r'. rr = Ok r' \<longrightarrow> registry_due (bn_lib net) (l2_logs (bw_l2 w)) r'"
      using scan_loop_due [OF net port scan] s1(1) by (auto simp: relay_inv_def)
    have inv_w: "relay_inv net tbl j (s1\<lparr>re_world := w\<rparr>)" by (rule relay_inv_world [OF s1(1) w(1,2)])
    show ?thesis
    proof (cases rr)
      case (Inl e)
      with run fresh b Inr scan have "t = s1\<lparr>re_world := w\<rparr>" by (auto simp: restore_token_registry_def)
      with inv_w s1(2) w(2) show ?thesis by (auto intro: world_le_trans)
    next
      case rr: (Inr r)
      let ?s2 = "s1\<lparr>re_world := w, re_tokens := r, re_cursors := (re_cursors s1)\<lparr>cu_next_l2_block := hd_block + 1\<rparr>\<rparr>"
      from run fresh b Inr scan rr have t: "t = save_progress (bridge_port net io j) ?s2"
        by (auto simp: restore_token_registry_def)
      have "relay_inv net tbl j ?s2" using inv_w w(3) rr by (simp add: relay_inv_def cursors_due_def)
      with save_progress_sound [OF j, of net tbl ?s2] lib t s1(2) w(2) show ?thesis
        by (auto simp: relay_sound_def bridge_lib_ok_def intro: world_le_trans)
    qed
  qed
qed

lemma loaded_due:
  assumes "file_due net j w d" "files (snd (load_cursors io j ''bridge_cursors.json'' d)) = files d"
    "load_cursors io j ''bridge_cursors.json'' d = (c, d')"
  shows "cursors_due (bn_lib net) w c" "snapshot_ok (bn_lib net) \<lparr>re_world = w, re_disk = d', re_cursors = c,
    re_tokens = registry_empty, re_chain_id = i, re_deposits_table = tbl\<rparr>" "file_due net j w d'"
proof -
  consider "c = cursors_default"
    | t where "files d ''bridge_cursors.json'' = Some (Text t)" "from_json j t = Ok c"
    using assms(3)
    by (auto simp: load_cursors_def fs_read_to_string_def fs_read_def split: prod.splits sum.splits option.splits fdata.splits if_splits)
  then have "cursors_due (bn_lib net) w c \<and>
      (\<forall>r. registry_from_snapshot (bn_lib net) (cu_tokens c) = Ok r \<longrightarrow> registry_due (bn_lib net) (l2_logs (bw_l2 w)) r)"
  proof cases
    case 1
    then show ?thesis by (auto simp: cursors_due_def cursors_default_def registry_from_snapshot_def)
  next
    case 2
    with assms(1) show ?thesis by (auto simp: file_due_def)
  qed
  then show "cursors_due (bn_lib net) w c" "snapshot_ok (bn_lib net) \<lparr>re_world = w, re_disk = d', re_cursors = c,
    re_tokens = registry_empty, re_chain_id = i, re_deposits_table = tbl\<rparr>"
    by (simp_all add: snapshot_ok_def)
  from assms show "file_due net j w d'" by (simp add: file_due_def)
qed

lemma load_cursors_files: "files (snd (load_cursors io j p d)) = files d"
  using fs_read_to_string_files [of io p d]
  by (auto simp: load_cursors_def simp del: fs_read_to_string_files split: prod.splits sum.splits)

lemma relayer_new_sound:
  assumes net: "bridge_net_ok net tbl" and j: "json_ok j" "torn_ok io j"
    and run: "relayer_new (bridge_port net io j) fuel d w = Some (res, w')"
    and inv: "bridge_inv net tbl w" and saved: "file_due net j w d"
  shows "bridge_inv net tbl w' \<and> world_le w w' \<and> (\<forall>s. res = Ok s \<longrightarrow> relay_inv net tbl j s \<and> re_world s = w')"
proof -
  let ?p = "bridge_port net io j"
  note lib = bridge_net_okD(1) [OF net]
  have port: "lp_post (l2_of ?p) = node_post net" by simp
  obtain r1 w1 where v: "verify_l2_bridge_factory (l2_of ?p) (bn_factory net) (bn_signer net) w = (r1, w1)" by fastforce
  obtain r2 w2 where c: "eth_chain_id (l2_of ?p) w1 = (r2, w2)" by fastforce
  obtain r3 w3 where st: "lp_vault_status ?p w2 = (r3, w3)" by fastforce
  have s1: "sound net tbl w w1" using snd_order.preservesD [OF sound_verify [OF port lib] v] .
  have s2: "sound net tbl w w2" using s1 snd_order.preservesD [OF sound_requests(3) [OF port lib] c] snd_order.trans by blast
  have "preserves (sound net tbl) (lp_vault_status ?p)" by (simp add: bridge_port_def sound_sui_read)
  from snd_order.preservesD [OF this st] have s3: "sound net tbl w w3" using s2 snd_order.trans by blast
  show ?thesis
  proof (cases "\<exists>x chain_id status. r1 = Ok x \<and> r2 = Ok chain_id \<and> r3 = Ok status")
    case False
    then have "w' \<in> {w1, w2, w3} \<and> isl res" using run v c st
      by (auto simp: relayer_new_steps relayer_open_def split: sum.splits)
    with s1 s2 s3 inv show ?thesis by (auto simp: sound_def)
  next
    case True
    then obtain x chain_id status where ok: "r1 = Ok x" "r2 = Ok chain_id" "r3 = Ok status" by blast
    let ?s = "loaded_relayer ?p chain_id (vs_deposits_table_uid status) d w3"
    from run v c st ok obtain rr t where r: "restore_token_registry ?p fuel ?s = Some (rr, t)"
      "res = and_then rr (\<lambda>_. Ok t)" "w' = re_world t"
      by (auto simp: relayer_new_steps relayer_open_def)
    have w3: "bridge_inv net tbl w3" "world_le w w3" using s3 inv by (simp_all add: sound_def)
    note tbl = vault_status_Ok(3) [of net io j w2 status w3, unfolded st [unfolded ok(3)], OF refl]
    obtain cu d' where l: "load_cursors io j ''bridge_cursors.json'' d = (cu, d')" by fastforce
    then have s: "?s = \<lparr>re_world = w3, re_disk = d', re_cursors = cu, re_tokens = registry_empty,
        re_chain_id = chain_id, re_deposits_table = vs_deposits_table_uid status\<rparr>"
      by (simp add: loaded_relayer_def bridge_port_def)
    note due = loaded_due [OF file_due_mono [OF saved w3(2)] load_cursors_files l]
    have "va_deposits_id (bw_vault w3) = tbl" using w3(1) by (simp add: bridge_inv_def)
    then have "relay_inv net tbl j ?s" unfolding s using w3(1) tbl due(1,3) by (simp add: relay_inv_def)
    moreover have "snapshot_ok (bn_lib net) ?s" using due(2) by (simp add: s)
    ultimately have t: "relay_inv net tbl j t \<and> world_le (re_world ?s) (re_world t)"
      using restore_sound [OF net j r(1)] by blast
    with w3(2) s have le: "world_le w w'" by (simp add: r(3)) (blast intro: world_le_trans)
    have "res = Ok u \<Longrightarrow> u = t" for u using r(2) by (cases rr) auto
    with t le r(3) show ?thesis by (auto simp: relay_inv_def)
  qed
qed

section \<open>Runs\<close>

text \<open>The relayer's process is down, with its disk, or up. Before the first start the contracts are
  deployed: a Vault without deposits, a factory with the relayer's key and without tokens; other
  \<open>Bridge\<close> contracts are blank.\<close>

datatype 'v bridge_node = NodeDown disk "'v bridge_world" | NodeUp "'v bridge_world relayer"

fun node_world :: "'v bridge_node \<Rightarrow> 'v bridge_world" where
  "node_world (NodeDown d w) = w"
| "node_world (NodeUp s) = re_world s"

definition vault_new :: "vault \<Rightarrow> bool" where
  "vault_new v \<longleftrightarrow> va_deposit_nonce v = 0 \<and> va_withdraw_nonce v = 0 \<and> va_reserves v = Map.empty \<and>
     va_deposits v = Map.empty \<and> va_processed v = Map.empty \<and> va_events v = []"

definition ledger_new :: "evm_address \<Rightarrow> evm_address \<Rightarrow> l2_ledger \<Rightarrow> bool" where
  "ledger_new signer factory g \<longleftrightarrow> signer \<noteq> barr_fill 0 \<and> bf_relayer (l2_factory g) = signer \<and>
     l2_factory_at g = factory \<and> l2_tokens g factory = None \<and> ran (l2_tokens g) \<subseteq> {token_blank} \<and>
     l2_logs g = [] \<and> l2_receipts g = [] \<and> l2_pool g = []"

inductive bridge_run :: "('v, 'key) bridge_net \<Rightarrow> address \<Rightarrow> cursors json \<Rightarrow> 'v bridge_node \<Rightarrow> bool"
  for net tbl j where
  deployed: "vault_new (bw_vault w) \<Longrightarrow> va_deposits_id (bw_vault w) = tbl \<Longrightarrow>
     ledger_new (bn_signer net) (bn_factory net) (bw_l2 w) \<Longrightarrow> files d ''bridge_cursors.json'' = None \<Longrightarrow>
     bridge_run net tbl j (NodeDown d w)"
| boot: "bridge_run net tbl j (NodeDown d w) \<Longrightarrow> torn_ok io j \<Longrightarrow>
     relayer_new (bridge_port net io j) fuel d w = Some (Ok s, w') \<Longrightarrow> bridge_run net tbl j (NodeUp s)"
| boot_fails: "bridge_run net tbl j (NodeDown d w) \<Longrightarrow> torn_ok io j \<Longrightarrow>
     relayer_new (bridge_port net io j) fuel d w = Some (Err e, w') \<Longrightarrow> bridge_run net tbl j (NodeDown d w')"
| pass: "bridge_run net tbl j (NodeUp s) \<Longrightarrow> torn_ok io j \<Longrightarrow>
     relay_round (bridge_port net io j) s = Some t \<Longrightarrow> bridge_run net tbl j (NodeUp t)"
| stop: "bridge_run net tbl j (NodeUp s) \<Longrightarrow> bridge_run net tbl j (NodeDown (re_disk s) (re_world s))"
| away: "bridge_run net tbl j (NodeDown d w) \<Longrightarrow> bridge_run net tbl j (NodeDown d (outside_step net act w))"
| idle: "bridge_run net tbl j (NodeUp s) \<Longrightarrow>
     bridge_run net tbl j (NodeUp (s\<lparr>re_world := outside_step net act (re_world s)\<rparr>))"

lemma vault_new_ok: "vault_new v \<Longrightarrow> vault_ok v"
  by (auto simp: vault_new_def vault_ok_def reserve_of_def total_released_def total_deposited_def)

lemma ledger_new_ok: "ledger_new signer factory g \<Longrightarrow> ledger_ok signer J g"
  using token_ok_blank [of "[]"] by (auto simp: ledger_new_def ledger_ok_def ran_def)

lemma bridge_new_inv:
  "vault_new (bw_vault w) \<Longrightarrow> va_deposits_id (bw_vault w) = tbl \<Longrightarrow>
   ledger_new (bn_signer net) (bn_factory net) (bw_l2 w) \<Longrightarrow> bridge_inv net tbl w"
  unfolding bridge_inv_def
  by (simp add: vault_new_ok ledger_new_ok) (simp add: vault_new_def ledger_new_def)

fun node_inv :: "('v, 'key) bridge_net \<Rightarrow> address \<Rightarrow> cursors json \<Rightarrow> 'v bridge_node \<Rightarrow> bool" where
  "node_inv net tbl j (NodeDown d w) \<longleftrightarrow> bridge_inv net tbl w \<and> file_due net j w d"
| "node_inv net tbl j (NodeUp s) \<longleftrightarrow> relay_inv net tbl j s"

lemma bridge_run_inv:
  assumes "bridge_run net tbl j x" "bridge_net_ok net tbl" "json_ok j"
  shows "node_inv net tbl j x"
  using assms(1)
proof (induction rule: bridge_run.induct)
  case (deployed w d)
  then show ?case using bridge_new_inv [OF deployed(1-3)] by (simp add: file_due_def)
next
  case (boot d w io fuel s w')
  with relayer_new_sound [OF assms(2,3) boot(2) boot(3)] show ?case by simp
next
  case (boot_fails d w io fuel e w')
  with relayer_new_sound [OF assms(2,3) boot_fails(2) boot_fails(3)] show ?case by (auto intro: file_due_mono)
next
  case (pass s io t)
  with relay_round_sound [OF assms(2,3) pass(2) pass(3)] show ?case by (simp add: relay_sound_def)
next
  case (stop s)
  then show ?case by (simp add: relay_inv_def)
next
  case (away d w act)
  with outside_sound [of net tbl w act] show ?case by (auto simp: sound_def intro: file_due_mono)
next
  case (idle s act)
  with relay_sound_world [OF outside_sound [of net tbl "re_world s" act], of j] show ?case by (simp add: relay_sound_def)
qed

lemma bridge_run_world:
  "bridge_run net tbl j x \<Longrightarrow> bridge_net_ok net tbl \<Longrightarrow> json_ok j \<Longrightarrow> bridge_inv net tbl (node_world x)"
  by (drule (2) bridge_run_inv) (cases x; simp add: relay_inv_def)

end
