(* ===== verification/Bridge_Solvency.thy ===== *)
theory Bridge_Solvency
  imports Bridge_Runs
begin

text \<open>
  The accounts of the two chains together: what a token has minted is at most what the Vault took in of
  its coin, and what the Vault released is at most what the token burned. The properties of the runs of
  \<open>Bridge_Runs\<close> follow.
\<close>

section \<open>Sums over logs\<close>

lemma unat_ucast_le: "unat (ucast (x :: 'a::len word) :: 'b::len word) \<le> unat x"
  by (simp add: unsigned_ucast_eq take_bit_nat_less_eq_self)

lemma unat_ucast_256: "unat (ucast (x :: u64) :: u256) = unat x"
  by (simp add: unsigned_ucast_eq take_bit_nat_eq_self_iff less_trans [OF unat_u64_less])

lemma total_minted_by_nonce:
  "(\<And>b n r x c. (b, token, EvMinted n r x c) \<in> set lgs \<Longrightarrow> unat x = f (unat n)) \<Longrightarrow>
   total_minted token lgs = sum_list (map f (mint_nonces token lgs))"
proof (induction lgs)
  case (Cons lg lgs)
  obtain b a e where lg: "lg = (b, a, e)" by (cases lg)
  have "total_minted token lgs = sum_list (map f (mint_nonces token lgs))"
    by (rule Cons.IH) (erule Cons.prems [OF list.set_intros(2)])
  moreover have "total_minted token [lg] = sum_list (map f (mint_nonces token [lg]))"
    using Cons.prems [of b _ _ _] lg by (cases e) (auto simp: account_defs)
  ultimately show ?case
    using accounts_append(1) [of token "[lg]" lgs] accounts_append(3) [of token "[lg]" lgs] by simp
qed (simp add: account_defs)

definition burn_amount :: "evm_address \<Rightarrow> nat \<Rightarrow> l2_log \<Rightarrow> nat" where
  "burn_amount token n lg = (case lg of
     (_, a, EvWithdrawal m s r x) \<Rightarrow> if a = token \<and> unat m = n then unat x else 0 | _ \<Rightarrow> 0)"

definition burned_at :: "evm_address \<Rightarrow> l2_log list \<Rightarrow> nat \<Rightarrow> nat" where
  "burned_at token lgs n = sum_list (map (burn_amount token n) lgs)"

lemma burned_at_ge:
  assumes "(b, token, EvWithdrawal n s r x) \<in> set lgs"
  shows "unat x \<le> burned_at token lgs (unat n)"
proof -
  from assms have "burn_amount token (unat n) (b, token, EvWithdrawal n s r x) \<in> set (map (burn_amount token (unat n)) lgs)"
    unfolding set_map by (rule imageI)
  from member_le_sum_list [OF this] show ?thesis by (simp add: burned_at_def burn_amount_def)
qed

lemma burned_at_total: "(\<Sum>n < 2 ^ 64. burned_at token lgs n) = total_burned token lgs"
proof (induction lgs)
  case (Cons lg lgs)
  obtain b a e where lg: "lg = (b, a, e)" by (cases lg)
  have "(\<Sum>n < 2 ^ 64. burned_at token [lg] n) = total_burned token [lg]"
    using lg unat_u64_less by (cases e) (auto simp: burned_at_def burn_amount_def account_defs sum.delta)
  moreover have "burned_at token (lg # lgs) n = burned_at token [lg] n + burned_at token lgs n" for n
    by (simp add: burned_at_def)
  ultimately show ?case
    using Cons accounts_append(4) [of token "[lg]" lgs] by (simp add: sum.distrib)
qed (simp add: burned_at_def account_defs)

lemma sum_list_distinct_le:
  fixes f :: "nat \<Rightarrow> nat"
  assumes "distinct ns" "set ns \<subseteq> {..<N}"
  shows "sum_list (map f ns) \<le> (\<Sum>n < N. f n)"
  using assms by (simp add: sum_list_distinct_conv_sum_set sum_mono2)

section \<open>Mints and deposits, releases and burns\<close>

lemma minted_le_deposited:
  assumes inv: "bridge_inv net tbl w" and tok: "token_of l (l2_logs (bw_l2 w)) coin token"
    and l: "l = bn_lib net"
  shows "total_minted token (l2_logs (bw_l2 w)) \<le> total_deposited coin (bw_vault w)"
proof -
  let ?lgs = "l2_logs (bw_l2 w)" and ?v = "bw_vault w"
  from created_token [OF inv tok] obtain t where "token_ok token ?lgs t" by blast
  then have dist: "distinct (mint_nonces token ?lgs)"
    by (simp add: token_ok_def strict_sorted_iff)
  have mint: "n < va_deposit_nonce ?v \<and> unat x = deposited coin ?v (unat n)"
    if m: "(b, token, EvMinted n r x c) \<in> set ?lgs" for b n r x c
  proof -
    from minted_due(1) [OF inv tok m] obtain d where d: "va_deposits ?v n = Some d" "x = ucast (dr_amount d)"
      "token_of l ?lgs (dr_coin_type d) token"
      unfolding mint_due_def l by blast
    from token_of_unique [OF inv d(3) tok] have "dr_coin_type d = coin" .
    moreover have "n < va_deposit_nonce ?v" using inv d(1) by (auto simp: bridge_inv_def vault_ok_def)
    moreover have "unat x = unat (dr_amount d)" unfolding d(2) by (rule unat_ucast_256)
    ultimately show ?thesis using d(1) by (simp add: deposited_def)
  qed
  have "total_minted token ?lgs = sum_list (map (deposited coin ?v) (mint_nonces token ?lgs))"
    by (rule total_minted_by_nonce) (use mint in blast)
  also have "\<dots> \<le> total_deposited coin ?v"
    unfolding total_deposited_def
  proof (rule sum_list_distinct_le [OF dist])
    show "set (mint_nonces token ?lgs) \<subseteq> {..<unat (va_deposit_nonce ?v)}"
      using mint by (auto simp: mint_nonces_mem word_less_nat_alt)
  qed
  finally show ?thesis .
qed

definition only_token :: "evm_lib \<Rightarrow> l2_log list \<Rightarrow> byte list \<Rightarrow> evm_address \<Rightarrow> bool" where
  "only_token l lgs coin token \<longleftrightarrow> token_of l lgs coin token \<and> (\<forall>other. token_of l lgs coin other \<longrightarrow> other = token)"

lemma released_le_burned:
  assumes inv: "bridge_inv net tbl w" and tok: "only_token (bn_lib net) (l2_logs (bw_l2 w)) coin token"
  shows "total_released coin (bw_vault w) \<le> total_burned token (l2_logs (bw_l2 w))"
proof -
  let ?lgs = "l2_logs (bw_l2 w)" and ?es = "filter (\<lambda>e. vw_coin_type e = coin) (va_events (bw_vault w))"
  let ?ns = "map (\<lambda>e. unat (vw_l2_nonce e)) ?es"
  have "distinct (map release_key (va_events (bw_vault w)))" using inv by (simp add: bridge_inv_def vault_ok_def)
  then have "distinct (map release_key ?es)" by (rule distinct_map_filter)
  moreover have "inj_on (\<lambda>k. unat (snd k)) (release_key ` set ?es)"
    by (auto simp: inj_on_def release_key_def word_unat_eq_iff)
  ultimately have "distinct (map (\<lambda>k. unat (snd k)) (map release_key ?es))" by (simp only: distinct_map) simp
  then have dist: "distinct ?ns" by (simp add: release_key_def comp_def)
  have amount: "unat (vw_amount e) \<le> burned_at token ?lgs (unat (vw_l2_nonce e))" if "e \<in> set ?es" for e
  proof -
    from that inv have "release_due (bn_lib net) ?lgs e" "vw_coin_type e = coin" by (auto simp: bridge_inv_def)
    then obtain b other s x where e: "(b, other, EvWithdrawal (vw_l2_nonce e) s (vw_recipient e) x) \<in> set ?lgs"
      "token_of (bn_lib net) ?lgs coin other" "vw_amount e = ucast x" by (auto simp: release_due_def)
    with tok have "other = token" by (simp add: only_token_def)
    with burned_at_ge [of b token _ s "vw_recipient e" x] e(1)
    have "unat x \<le> burned_at token ?lgs (unat (vw_l2_nonce e))" by simp
    moreover have "unat (vw_amount e) \<le> unat x" unfolding e(3) by (rule unat_ucast_le)
    ultimately show ?thesis by simp
  qed
  have "total_released coin (bw_vault w) = sum_list (map (\<lambda>e. unat (vw_amount e)) ?es)"
    unfolding total_released_def released_def by (simp add: sum_list_map_filter')
  also have "\<dots> \<le> sum_list (map (burned_at token ?lgs) ?ns)"
    unfolding map_map comp_def by (rule sum_list_mono) (rule amount)
  also have "\<dots> \<le> (\<Sum>n < 2 ^ 64. burned_at token ?lgs n)"
    by (rule sum_list_distinct_le [OF dist]) (use unat_u64_less in auto)
  finally show ?thesis unfolding burned_at_total .
qed

lemma solvent:
  assumes inv: "bridge_inv net tbl w" and tok: "only_token (bn_lib net) (l2_logs (bw_l2 w)) coin token"
    and t: "l2_tokens (bw_l2 w) token = Some t"
  shows "unat (bt_total_supply t) + total_burned token (l2_logs (bw_l2 w)) \<le>
    reserve_of coin (bw_vault w) + total_released coin (bw_vault w)"
proof -
  have of: "token_of (bn_lib net) (l2_logs (bw_l2 w)) coin token" using tok by (simp add: only_token_def)
  have "total_minted token (l2_logs (bw_l2 w)) = total_burned token (l2_logs (bw_l2 w)) + unat (bt_total_supply t)"
    using created_token [OF inv of] t by (auto simp: token_ok_def)
  moreover have "reserve_of coin (bw_vault w) + total_released coin (bw_vault w) = total_deposited coin (bw_vault w)"
    using inv by (simp add: bridge_inv_def vault_ok_def)
  ultimately show ?thesis using minted_le_deposited [OF inv of refl] by linarith
qed

text \<open>The first mint of a token has nonce 0, so the first token to mint takes the first deposit.\<close>

lemma minted_first_coin:
  assumes inv: "bridge_inv net tbl w" and m: "minted_deposit (bn_lib net) w n"
    and d: "va_deposits (bw_vault w) n = Some d"
  shows "\<exists>d0. va_deposits (bw_vault w) 0 = Some d0 \<and> dr_coin_type d = dr_coin_type d0"
proof -
  let ?lgs = "l2_logs (bw_l2 w)"
  from m d obtain token b r x c where tok: "token_of (bn_lib net) ?lgs (dr_coin_type d) token"
    and mint: "(b, token, EvMinted n r x c) \<in> set ?lgs" by (auto simp: minted_deposit_def)
  from created_token [OF inv tok] obtain t where t: "token_ok token ?lgs t" by blast
  have "unat n \<in> set (mint_nonces token ?lgs)" using mint unfolding mint_nonces_mem by blast
  then have ne: "mint_nonces token ?lgs \<noteq> []" by auto
  with t have "hd (mint_nonces token ?lgs) = 0" by (auto simp: token_ok_def split: if_splits)
  with ne have "0 \<in> set (mint_nonces token ?lgs)" by (metis hd_in_set)
  then obtain b0 k r0 x0 c0 where "(b0, token, EvMinted k r0 x0 c0) \<in> set ?lgs" "0 = unat k"
    unfolding mint_nonces_mem by blast
  then have "(b0, token, EvMinted 0 r0 x0 c0) \<in> set ?lgs" by (metis unat_0 word_unat_eq_iff)
  from minted_due(1) [OF inv tok this] obtain d0 where d0: "va_deposits (bw_vault w) 0 = Some d0"
    "token_of (bn_lib net) ?lgs (dr_coin_type d0) token" unfolding mint_due_def by blast
  with token_of_unique [OF inv tok d0(2)] show ?thesis by blast
qed

lemma minted_recipient:
  assumes inv: "bridge_inv net tbl w" and m: "minted_deposit (bn_lib net) w n"
    and d: "va_deposits (bw_vault w) n = Some d"
  shows "dr_recipient_l2 d \<noteq> replicate 20 0"
proof -
  from m d obtain token b r x c where tok: "token_of (bn_lib net) (l2_logs (bw_l2 w)) (dr_coin_type d) token"
    and mint: "(b, token, EvMinted n r x c) \<in> set (l2_logs (bw_l2 w))" by (auto simp: minted_deposit_def)
  from minted_due [OF inv tok mint] d have "to_vec r = dr_recipient_l2 d" "r \<noteq> barr_fill 0"
    by (auto simp: mint_due_def)
  moreover have "replicate 20 0 = to_vec (barr_fill 0 :: evm_address)" by simp
  ultimately show ?thesis by (metis to_vec_eq_iff)
qed

end
