(* ===== verification/Bridge_Theorems.thy ===== *)
theory Bridge_Theorems
  imports Bridge_Solvency
begin

text \<open>
  What every run of the bridge guarantees, and where its contracts and its relayer do not fit.
  A run is any interleaving of relayer passes, crashes, restarts, lost requests, torn writes of the
  cursor file, late or failed L2 transactions and calls of users (\<open>bridge_run\<close>); the networks and
  libraries meet their documented laws (\<open>bridge_net_ok\<close>).
\<close>

text \<open>
  C9: In every run, every mint of a token the factory lists for a coin is backed by a deposit of that
  coin in the Vault with the mint's nonce, amount and recipient, and no deposit is minted twice on a
  token, whatever passes the relayer repeats after crashes, lost receipts or torn cursor files.
\<close>

theorem mints_match_deposits:
  assumes "bridge_run net tbl j x" "bridge_net_ok net tbl" "json_ok j"
    "token_of (bn_lib net) (l2_logs (bw_l2 (node_world x))) coin token"
  shows "distinct (mint_nonces token (l2_logs (bw_l2 (node_world x)))) \<and>
    (\<forall>b n r amount c. (b, token, EvMinted n r amount c) \<in> set (l2_logs (bw_l2 (node_world x))) \<longrightarrow>
      (\<exists>d. va_deposits (bw_vault (node_world x)) n = Some d \<and> dr_coin_type d = coin \<and>
         unat amount = unat (dr_amount d) \<and> dr_recipient_l2 d = to_vec r))"
proof (intro conjI allI impI)
  let ?w = "node_world x"
  note inv = bridge_run_world [OF assms(1-3)]
  from created_token [OF inv assms(4)] show "distinct (mint_nonces token (l2_logs (bw_l2 ?w)))"
    by (auto simp: token_ok_def strict_sorted_iff)
  fix b n r amount c assume m: "(b, token, EvMinted n r amount c) \<in> set (l2_logs (bw_l2 ?w))"
  from minted_due(1) [OF inv assms(4) m] obtain d where d: "va_deposits (bw_vault ?w) n = Some d"
    "amount = ucast (dr_amount d)" "to_vec r = dr_recipient_l2 d"
    "token_of (bn_lib net) (l2_logs (bw_l2 ?w)) (dr_coin_type d) token" unfolding mint_due_def by blast
  with token_of_unique [OF inv d(4) assms(4)]
  show "\<exists>d. va_deposits (bw_vault ?w) n = Some d \<and> dr_coin_type d = coin \<and>
      unat amount = unat (dr_amount d) \<and> dr_recipient_l2 d = to_vec r"
    by (auto simp: unat_ucast_256)
qed

text \<open>
  C11: In every run, every release of the Vault pays out a burn on L2: a withdrawal event with its
  nonce, recipient and amount, on a token the factory lists for the released coin; and no two releases
  pay the same nonce of the same coin, however often the relayer submits a withdrawal.
\<close>

theorem releases_match_burns:
  assumes "bridge_run net tbl j x" "bridge_net_ok net tbl" "json_ok j"
  shows "distinct (map release_key (va_events (bw_vault (node_world x)))) \<and>
    (\<forall>e \<in> set (va_events (bw_vault (node_world x))). \<exists>b token sender amount.
       (b, token, EvWithdrawal (vw_l2_nonce e) sender (vw_recipient e) amount) \<in> set (l2_logs (bw_l2 (node_world x))) \<and>
       token_of (bn_lib net) (l2_logs (bw_l2 (node_world x))) (vw_coin_type e) token \<and> vw_amount e = ucast amount)"
proof -
  have "bridge_inv net tbl (node_world x)" by (rule bridge_run_world [OF assms])
  then have "distinct (map release_key (va_events (bw_vault (node_world x))))"
    "\<forall>e \<in> set (va_events (bw_vault (node_world x))). release_due (bn_lib net) (l2_logs (bw_l2 (node_world x))) e"
    by (simp_all add: bridge_inv_def vault_ok_def)
  then show ?thesis unfolding release_due_def by blast
qed


text \<open>
  C36: The deposit cursor never runs ahead of the mints, neither in memory nor in the cursor file a
  restart reads: every deposit below it is minted on a token of its coin.
\<close>

theorem cursor_deposits_minted:
  assumes "bridge_run net tbl j (NodeUp s)" "bridge_net_ok net tbl" "json_ok j"
  shows "(\<forall>k < cu_next_deposit_nonce (re_cursors s). minted_deposit (bn_lib net) (re_world s) k) \<and>
    (\<forall>t c. files (re_disk s) ''bridge_cursors.json'' = Some (Text t) \<longrightarrow> from_json j t = Ok c \<longrightarrow>
      (\<forall>k < cu_next_deposit_nonce c. minted_deposit (bn_lib net) (re_world s) k))"
  using bridge_run_inv [OF assms] by (simp add: relay_inv_def cursors_due_def file_due_def)

text \<open>
  C38: Only one coin can be bridged: deposit nonces are global to the Vault, but a token accepts as its
  first mint only nonce 0, so in every run every deposit the relayer gets past has the coin type of
  deposit 0, and the first deposit of another coin stops the deposit direction for good.
\<close>

theorem only_first_coin_bridged:
  assumes "bridge_run net tbl j (NodeUp s)" "bridge_net_ok net tbl" "json_ok j"
    "va_deposits (bw_vault (re_world s)) 0 = Some d0" "va_deposits (bw_vault (re_world s)) k = Some d"
    "dr_coin_type d \<noteq> dr_coin_type d0"
  shows "cu_next_deposit_nonce (re_cursors s) \<le> k"
proof (rule ccontr)
  assume "\<not> cu_next_deposit_nonce (re_cursors s) \<le> k"
  moreover have inv: "relay_inv net tbl j s" using bridge_run_inv [OF assms(1-3)] by simp
  ultimately have "minted_deposit (bn_lib net) (re_world s) k" by (auto simp: relay_inv_def cursors_due_def)
  with minted_first_coin [of net tbl "re_world s" k d] inv assms(4-6) show False by (simp add: relay_inv_def)
qed

text \<open>
  A deposit to the zero address stops the deposit direction for good: the Vault takes any
  recipient of 20 bytes, the token refuses to mint to the zero address, and the relayer passes
  deposits in order, so in every run its cursor stays at or below such a deposit.
\<close>

theorem zero_recipient_stalls_bridge:
  assumes "bridge_run net tbl j (NodeUp s)" "bridge_net_ok net tbl" "json_ok j"
    "va_deposits (bw_vault (re_world s)) k = Some d" "dr_recipient_l2 d = replicate 20 0"
  shows "cu_next_deposit_nonce (re_cursors s) \<le> k"
proof (rule ccontr)
  assume "\<not> cu_next_deposit_nonce (re_cursors s) \<le> k"
  moreover have inv: "relay_inv net tbl j s" using bridge_run_inv [OF assms(1-3)] by simp
  ultimately have "minted_deposit (bn_lib net) (re_world s) k" by (auto simp: relay_inv_def cursors_due_def)
  with minted_recipient [of net tbl "re_world s" k d] inv assms(4,5) show False by (simp add: relay_inv_def)
qed

end
