(* ===== verification/Bridge_Answers.thy ===== *)
theory Bridge_Answers
  imports Bridge_Wire
begin

text \<open>
  What the relayer's requests return when the networks answer: the computing direction of the
  read-backs of \<open>Bridge_Wire\<close>.
\<close>

section \<open>Requests to the node\<close>

lemma rpc_answered:
  assumes "lp_post p = node_post net" "before_request net w = (Answered, w1)"
    "node_serve net (bw_rest w1) req (bw_l2 w1) = (v, g)" "v \<noteq> JNull" "dec v = Ok x"
  shows "rpc_call p dec req w = (Ok x, w1\<lparr>bw_l2 := g\<rparr>)"
proof -
  have "node_post net req w = (Ok (JObj [(''jsonrpc'', JStr ''2.0''), (''id'', JNum 1), (''result'', v)]), w1\<lparr>bw_l2 := g\<rparr>)"
    using assms(2,3) by (simp add: node_post_def)
  then show ?thesis
    using assms(1,4,5)
    by (simp add: rpc_call_def sbind_def st_map_err_def slift_def is_object_def optional_field_def jget_def)
qed

lemma string_value_JStr [simp]: "string_value (JStr t) = Ok t"
  by (simp add: string_value_def as_str_def)

lemma hex_qty_answer [simp]: "hex_qty n = JStr (''0x'' @ show_hex_u64 n)"
  by (simp add: hex_qty_def)

lemma parse_hex_qty_show: "parse_hex_qty (''0x'' @ show_hex_u64 n) = Ok n"
  by (simp add: parse_hex_qty_def)

lemma block_number_answered:
  assumes "lp_post p = node_post net" "before_request net w = (Answered, w1)"
  shows "eth_block_number p w = (Ok (l2_head (bw_l2 w1)), w1)"
  using rpc_answered [OF assms, of "l2_request ''eth_blockNumber'' []" _ _ string_value "''0x'' @ show_hex_u64 (l2_head (bw_l2 w1))"]
  by (simp add: eth_block_number_def rpc_quantity_def sbind_def slift_def parse_hex_qty_show [simplified])

lemma quantity_answered:
  assumes "lp_post p = node_post net" "before_request net w = (Answered, w1)"
    "node_serve net (bw_rest w1) (l2_request name ps) (bw_l2 w1) = (JStr t, bw_l2 w1)"
  shows "rpc_quantity p name ps w = (parse_hex_qty t, w1)"
  using rpc_answered [OF assms, of string_value t]
  by (simp add: rpc_quantity_def sbind_def slift_def)

lemma get_logs_answered:
  assumes "bridge_net_ok net tbl" "lp_post p = node_post net" "lp_lib p = bn_lib net"
    "before_request net w = (Answered, w1)" "addrs \<noteq> []"
  shows "eth_get_logs p addrs topic a b w =
    (Ok (map (wire_log (bn_lib net)) (logs_for (bn_lib net) addrs topic a b (bw_l2 w1))), w1)"
proof -
  let ?q = "JObj [(''address'', JArr (map (\<lambda>a. JStr (el_checksum (bn_lib net) a)) addrs)),
     (''fromBlock'', JStr (''0x'' @ show_hex_u64 a)), (''toBlock'', JStr (''0x'' @ show_hex_u64 b)),
     (''topics'', JArr [JStr (hex_text (bn_lib net) (to_vec topic))])]"
  let ?lgs = "map (wire_log (bn_lib net)) (logs_for (bn_lib net) addrs topic a b (bw_l2 w1))"
  have "array_of rpc_log_of (node_logs net ?q (bw_l2 w1)) = Ok ?lgs"
    unfolding node_logs_for [OF assms(1)] array_of_log_json by (rule refl)
  moreover have "node_logs net ?q (bw_l2 w1) \<noteq> JNull"
    unfolding node_logs_for [OF assms(1)] by simp
  ultimately have "rpc_call p (array_of rpc_log_of) (l2_request ''eth_getLogs'' [?q]) w = (Ok ?lgs, w1\<lparr>bw_l2 := bw_l2 w1\<rparr>)"
    by (intro rpc_answered [OF assms(2,4) serve_simps(2)])
  then show ?thesis
    unfolding eth_get_logs_def assms(3) using assms(5) by (simp add: st_map_err_def)
qed

lemma send_answered:
  assumes "bridge_lib_ok (bn_lib net)" "lp_post p = node_post net" "lp_lib p = bn_lib net"
    "before_request net w = (Answered, w1)"
  shows "eth_send_raw_transaction p raw w =
    (Ok (bn_hash net raw), w1\<lparr>bw_l2 := (bw_l2 w1)\<lparr>l2_pool := l2_pool (bw_l2 w1) @ [raw]\<rparr>\<rparr>)"
  unfolding eth_send_raw_transaction_def assms(3)
  by (rule rpc_answered [OF assms(2,4), where v = "JStr (bn_hash net raw)"])
    (use assms(1) in \<open>simp_all add: node_send_def\<close>)

lemma receipt_answered:
  assumes "lp_post p = node_post net" "before_request net w = (Answered, w1)"
    "List.find (\<lambda>(raw', r). bn_hash net raw' = h) (l2_receipts (bw_l2 w1)) = Some (raw, st, lgs)"
  shows "wait_for_receipt p (Suc k) h poll w =
    Some (Ok \<lparr>rc_status = (if st then ''0x1'' else ''0x0''), rc_logs = map (wire_log (bn_lib net)) lgs\<rparr>, w1)"
proof -
  have "node_receipt net h (bw_l2 w1) = receipt_json (bn_lib net) (st, lgs)" using assms(3) by (simp add: node_receipt_def)
  then have "rpc_call p receipt_of (l2_request ''eth_getTransactionReceipt'' [JStr h]) w =
      (Ok \<lparr>rc_status = (if st then ''0x1'' else ''0x0''), rc_logs = map (wire_log (bn_lib net)) lgs\<rparr>, w1\<lparr>bw_l2 := bw_l2 w1\<rparr>)"
    by (intro rpc_answered [OF assms(1,2), where v = "receipt_json (bn_lib net) (st, lgs)"])
      (simp_all only: serve_simps receipt_of_json fst_conv snd_conv, simp add: receipt_json_def)
  then show ?thesis by (simp add: wait_for_receipt_once)
qed

lemma call_answered:
  assumes "bridge_lib_ok (bn_lib net)" "lp_post p = node_post net" "lp_lib p = bn_lib net"
    "before_request net w = (Answered, w1)"
    "node_call net (bw_rest w1) (eth_call_request (bn_lib net) a (hex_text (bn_lib net) sel))
       (JObj [(''to'', JStr (el_checksum (bn_lib net) a)), (''data'', JStr (hex_text (bn_lib net) sel))]) (bw_l2 w1) =
     JStr (hex_text (bn_lib net) bs)"
  shows "eth_call p a sel w = (Ok bs, w1)"
proof -
  have "rpc_call p string_value (eth_call_request (bn_lib net) a (hex_text (bn_lib net) sel)) w =
      (Ok (hex_text (bn_lib net) bs), w1\<lparr>bw_l2 := bw_l2 w1\<rparr>)"
    using assms(5)
    by (intro rpc_answered [OF assms(2,4), where v = "JStr (hex_text (bn_lib net) bs)"]) (simp_all add: eth_call_request_def)
  with assms(1) show ?thesis unfolding eth_call_def assms(3) by (simp add: sbind_def slift_def)
qed

lemma node_call_token:
  assumes "bridge_net_ok net tbl" "l2_tokens g a = Some t"
  shows "node_call net v req (JObj [(''to'', JStr (el_checksum (bn_lib net) a)),
       (''data'', JStr (hex_text (bn_lib net) (selector (bn_lib net) ''lastMintedDepositNonce()'')))]) g =
     JStr (hex_text (bn_lib net) (abi_u64 (bt_last_minted_nonce t)))"
    and "node_call net v req (JObj [(''to'', JStr (el_checksum (bn_lib net) a)),
       (''data'', JStr (hex_text (bn_lib net) (selector (bn_lib net) ''mintedAny()'')))]) g =
     JStr (hex_text (bn_lib net) (abi_u64 (if bt_minted_any t then 1 else 0)))"
proof -
  note n = bridge_net_okD [OF assms(1)]
  have "selector (bn_lib net) ''mintedAny()'' \<noteq> selector (bn_lib net) ''lastMintedDepositNonce()''"
    using n(1) unfolding bridge_lib_ok_def by metis
  with n(1,3) assms(2) show "node_call net v req (JObj [(''to'', JStr (el_checksum (bn_lib net) a)),
       (''data'', JStr (hex_text (bn_lib net) (selector (bn_lib net) ''lastMintedDepositNonce()'')))]) g =
     JStr (hex_text (bn_lib net) (abi_u64 (bt_last_minted_nonce t)))"
    and "node_call net v req (JObj [(''to'', JStr (el_checksum (bn_lib net) a)),
       (''data'', JStr (hex_text (bn_lib net) (selector (bn_lib net) ''mintedAny()'')))]) g =
     JStr (hex_text (bn_lib net) (abi_u64 (if bt_minted_any t then 1 else 0)))"
    by (simp_all add: node_call_def Let_def jget_def)
qed

lemma from_abi_u64 [simp]: "from_be_bytes (take 8 (drop 24 (abi_u64 n))) = n"
  "from_be_bytes (drop 24 (abi_u64 n)) = n"
  by (simp_all add: abi_u64_def)

lemma mint_cursor_answered:
  assumes net: "bridge_net_ok net tbl" and port: "lp_post p = node_post net" "lp_lib p = bn_lib net"
    and first: "before_request net w = (Answered, w1)" "l2_tokens (bw_l2 w1) a = Some t1"
    and second: "before_request net w1 = (Answered, w2)" "l2_tokens (bw_l2 w2) a = Some t2"
  shows "eth_mint_cursor p a w = (Ok (bt_minted_any t2, bt_last_minted_nonce t1), w2)"
proof -
  note lib = bridge_net_okD(1) [OF net]
  have "eth_call p a (selector (bn_lib net) ''lastMintedDepositNonce()'') w = (Ok (abi_u64 (bt_last_minted_nonce t1)), w1)"
    by (rule call_answered [OF lib port first(1)]) (rule node_call_token(1) [OF net first(2)])
  moreover have "eth_call p a (selector (bn_lib net) ''mintedAny()'') w1 = (Ok (abi_u64 (if bt_minted_any t2 then 1 else 0)), w2)"
    by (rule call_answered [OF lib port second(1)]) (rule node_call_token(2) [OF net second(2)])
  ultimately show ?thesis
    unfolding eth_mint_cursor_def unwrap_or_def eth_call_u64_def eth_call_bool_def port(2)
    by (simp add: sbind_def sreturn_def abi_bool del: take_drop)
qed

section \<open>Requests to Sui\<close>

lemma c_enc_decode: "codec_ok c \<Longrightarrow> c_enc c x = Some bs \<Longrightarrow> bcs_from_bytes c bs = Ok x"
  by (simp add: bcs_from_bytes_iff bcs_to_bytes_def)

lemma vault_enc: "\<exists>bs. c_enc c_vault v = Some bs"
  by (simp add: c_vault_def c_table_def codec_simps c_iso_def)

lemma vault_status_answered:
  assumes "before_request net w = (Answered, w1)"
  shows "lp_vault_status (bridge_port net io j) w =
    (Ok \<lparr>vs_deposit_nonce = va_deposit_nonce (bw_vault w1), vs_withdraw_nonce = va_withdraw_nonce (bw_vault w1),
         vs_deposits_table_uid = va_deposits_id (bw_vault w1)\<rparr>, w1)"
proof -
  obtain bs where bs: "c_enc c_vault (vault_mirror net (bw_vault w1)) = Some bs" using vault_enc by blast
  note d = c_enc_decode [OF codec_ok_vault bs]
  have "vault_status (vault_rpc_env net (bw_vault w1)) bcs_vault_decoders (\<lambda>_. Ok (bc_vault (bn_client net))) 0 [] [] =
      Ok \<lparr>vs_deposit_nonce = va_deposit_nonce (bw_vault w1), vs_withdraw_nonce = va_withdraw_nonce (bw_vault w1),
         vs_deposits_table_uid = va_deposits_id (bw_vault w1)\<rparr>"
    by (simp add: vault_status_def vault_contents_def parse_address_def object_contents_def vault_rpc_env_def bs
        parse_vault_status_def bcs_vault_decoders_def d)
       (simp add: vault_mirror_def)
  with assms show ?thesis by (simp add: bridge_port_def sui_read_def)
qed

text \<open>BCS sequences are shorter than 2^31.\<close>

lemma enc_bytes: "enc_all c_byte bs = Some bs"
  by (induction bs) (simp_all add: codec_simps)

lemma deposit_enc:
  "length (dr_recipient_l2 d) < 2 ^ 31 \<Longrightarrow> length (dr_coin_type d) < 2 ^ 31 \<Longrightarrow>
   \<exists>bs. c_enc (c_field c_deposit) \<lparr>fb_id = i, fb_name = n, fb_value = d\<rparr> = Some bs"
  by (simp add: c_field_def c_deposit_def codec_simps enc_bytes)

lemma deposit_at_answered:
  assumes "bridge_net_ok net tbl" "before_request net w = (Answered, w1)" "va_deposits (bw_vault w1) n = Some d"
    "length (dr_recipient_l2 d) = 20" "length (dr_coin_type d) < 2 ^ 31"
  shows "lp_deposit_at (bridge_port net io j) tbl n w = (Ok (Some d), w1)"
proof -
  note k = bridge_net_okD(6,7) [OF assms(1), of n]
  obtain bs where bs: "c_enc (c_field c_deposit) \<lparr>fb_id = bn_child_id net tbl (to_le_bytes n), fb_name = n, fb_value = d\<rparr> = Some bs"
    using deposit_enc [of d] assms(4,5) by auto
  have "field_contents (vault_rpc_env net (bw_vault w1)) 0 [] tbl n = Ok (Some bs)"
    using k assms(3) bs by (simp add: field_contents_def vault_rpc_env_def)
  then have "deposit_at (vault_rpc_env net (bw_vault w1)) bcs_vault_decoders 0 [] tbl n = Ok (Some d)"
    using assms(4) by (simp add: deposit_at_def parse_field_deposit_def bcs_vault_decoders_def
        c_enc_decode [OF codec_ok_deposit_field bs])
  with assms(2) show ?thesis by (simp add: bridge_port_def sui_read_def)
qed

lemma withdraw_answered:
  assumes "before_request net w = (Answered, w1)"
    "exec_withdraw (bw_clock w1) \<lparr>ptb_sender = bc_sender (bn_client net),
        ptb_calls = withdraw_commands (bn_client net) tag recipient amount n\<rparr> (bw_vault w1) = Ok v"
  shows "sui_withdraw net tag recipient amount n w = (Ok (), w1\<lparr>bw_vault := v\<rparr>)"
  using assms by (simp add: sui_withdraw_def bridge_withdraw_def bridge_build_tx_def bridge_submit_def
      sign_and_execute_def into_checked_def vault_tx_env_def)

section \<open>Logs\<close>

lemma parse_created_answered:
  assumes "bridge_lib_ok l" "128 + length s < 2 ^ 64" "utf8_ok (as_bytes s)"
  shows "parse_bridge_created_log l (wire_log l (b, a, EvCreated token s nm sy)) = Ok (s, token)"
  using assms(1) decode_first_strings3 [OF assms(1), of s nm sy] assms(2,3)
  by (simp add: parse_bridge_created_log_def wire_log_def topic_at_def from_utf8_as_bytes)

end
