(* ===== verification/Bridge_Examples.thy ===== *)
theory Bridge_Examples
  imports Bridge_Theorems Bridge_Answers
begin

text \<open>
  A concrete bridge: hex texts, a transaction encoding that reads back, a scripted network, and one run
  in which a deposit is minted, part of it burned and the burn released. The properties of the bridge
  apply to it.
\<close>

section \<open>A library\<close>

definition ex_hex :: "byte list \<Rightarrow> string" where
  "ex_hex bs = concat (map (\<lambda>b. [hex_char (unat b div 16), hex_char (unat b mod 16)]) bs)"

fun ex_unhex :: "string \<Rightarrow> (string, byte list) result" where
  "ex_unhex [] = Ok []"
| "ex_unhex [c] = Err ''Odd number of digits''"
| "ex_unhex (a # b # cs) =
     (case (hex_digit a, hex_digit b) of
        (Some x, Some y) \<Rightarrow> and_then (ex_unhex cs) (\<lambda>bs. Ok (of_nat (16 * x + y) # bs))
      | _ \<Rightarrow> Err ''Invalid character'')"

lemma unat_byte_less: "unat (b :: byte) < 256"
  using unsigned_less [of b, where ?'a = nat] by simp

lemma ex_unhex_hex [simp]: "ex_unhex (ex_hex bs) = Ok bs"
proof (induction bs)
  case (Cons b bs)
  have "unat b div 16 < 16" "unat b mod 16 < 16" using unat_byte_less [of b] by auto
  moreover have "16 * (unat b div 16) + unat b mod 16 = unat b" by simp
  ultimately show ?case using Cons by (simp add: ex_hex_def)
qed (simp add: ex_hex_def)

lemma ex_hex_no_x: "CHR ''x'' \<notin> set (ex_hex bs)"
proof
  assume "CHR ''x'' \<in> set (ex_hex bs)"
  then obtain b :: byte where "CHR ''x'' = hex_char (unat b div 16) \<or> CHR ''x'' = hex_char (unat b mod 16)"
    by (auto simp: ex_hex_def)
  moreover have "unat b div 16 < 16" "unat b mod 16 < 16" using unat_byte_less [of b] by auto
  ultimately obtain d where "d < 16" "CHR ''x'' = hex_char d" by blast
  with hex_digit_hex_char [of d] have "hex_digit (CHR ''x'') = Some d" by simp
  then show False by (simp add: hex_digit_def)
qed

definition ex_parse_address :: "string \<Rightarrow> (string, evm_address) result" where
  "ex_parse_address s = and_then (ex_unhex (drop 2 s)) (\<lambda>bs. ok_or ''not 20 bytes'' (try_into bs))"

definition ex_show_address :: "evm_address \<Rightarrow> string" where
  "ex_show_address a = ''0x'' @ ex_hex (to_vec a)"

lemma ex_address [simp]: "ex_parse_address (ex_show_address a) = Ok a"
  by (simp add: ex_parse_address_def ex_show_address_def)

definition ex_keccak :: "byte list \<Rightarrow> hash" where
  "ex_keccak bs = Abs_barray (take 32 (bs @ replicate 32 0))"

definition ex_struct_tag :: "string \<Rightarrow> (string, string) result" where
  "ex_struct_tag s =
     (if starts_with s ''0x'' \<and> \<not> starts_with (drop 2 s) ''0x'' \<and> (\<forall>c \<in> set (drop 2 s). of_char c < (128 :: nat))
      then Ok s else Err ''invalid struct tag'')"

text \<open>Strings inside calldata: every character after a 1, a 0 at the end.\<close>

definition put_string :: "string \<Rightarrow> byte list" where
  "put_string s = concat (map (\<lambda>c. [1, of_char c]) s) @ [0]"

fun get_string :: "byte list \<Rightarrow> string \<times> byte list" where
  "get_string (b # c # bs) =
     (if b = 0 then ([], c # bs) else case get_string bs of (s, r) \<Rightarrow> (char_of (unat c) # s, r))"
| "get_string _ = ([], [])"

lemma get_put_string: "get_string (put_string s @ b # bs) = (s, b # bs)"
  by (induction s) (simp_all add: put_string_def char_byte_char)

lemma get_put_last: "get_string (put_string s) = (s, [])"
  by (induction s) (simp_all add: put_string_def char_byte_char)

definition ex_mint_call :: "evm_address \<Rightarrow> u64 \<Rightarrow> u64 \<Rightarrow> byte list" where
  "ex_mint_call r a n = 1 # to_vec r @ to_le_bytes a @ to_le_bytes n"

definition ex_create_call :: "string \<Rightarrow> string \<Rightarrow> string \<Rightarrow> byte list" where
  "ex_create_call nm sy c = 2 # put_string nm @ put_string sy @ put_string c"

definition ex_sign_tx :: "l2_tx \<Rightarrow> (string, byte list) result" where
  "ex_sign_tx tx = Ok (to_vec (tx_to tx) @ to_le_bytes (tx_nonce tx) @ tx_input tx)"

definition ex_call :: "byte list \<Rightarrow> l2_call option" where
  "ex_call bs =
     (case bs of
        [] \<Rightarrow> None
      | tag # rest \<Rightarrow>
          if tag = 1 then
            Some (CallMint (Abs_barray (take 20 rest)) (ucast (from_le_bytes (take 8 (drop 20 rest)))) (from_le_bytes (drop 28 rest)))
          else case get_string rest of (nm, r1) \<Rightarrow> case get_string r1 of (sy, r2) \<Rightarrow>
            Some (CallCreateBridge nm sy (fst (get_string r2))))"

definition ex_decode :: "byte list \<Rightarrow> (evm_address \<times> l2_call) option" where
  "ex_decode raw = map_option (Pair (Abs_barray (take 20 raw))) (ex_call (drop 28 raw))"

definition ex_lib :: evm_lib where
  "ex_lib = \<lparr>el_hex = ex_hex, el_unhex = ex_unhex, el_keccak = ex_keccak, el_show_address = ex_show_address,
     el_parse_address = ex_parse_address, el_checksum = ex_show_address, el_struct_tag = ex_struct_tag,
     el_mint_call = ex_mint_call, el_create_call = ex_create_call, el_sign_tx = ex_sign_tx\<rparr>"

lemma ex_lib_simps [simp]:
  "el_hex ex_lib = ex_hex" "el_unhex ex_lib = ex_unhex" "el_keccak ex_lib = ex_keccak"
  "el_show_address ex_lib = ex_show_address" "el_parse_address ex_lib = ex_parse_address"
  "el_checksum ex_lib = ex_show_address" "el_struct_tag ex_lib = ex_struct_tag"
  "el_mint_call ex_lib = ex_mint_call" "el_create_call ex_lib = ex_create_call" "el_sign_tx ex_lib = ex_sign_tx"
  by (simp_all add: ex_lib_def)

lemma ex_call_mint: "ex_call (ex_mint_call r a n) = Some (CallMint r (ucast a) n)"
  by (simp add: ex_call_def ex_mint_call_def)

lemma put_string_Cons: "\<exists>b bs. put_string s = b # bs"
  by (cases s) (simp_all add: put_string_def)

lemma ex_call_create: "ex_call (ex_create_call nm sy c) = Some (CallCreateBridge nm sy c)"
proof -
  obtain b1 bs1 b2 bs2 where p: "put_string sy = b1 # bs1" "put_string c = b2 # bs2" using put_string_Cons by metis
  have "get_string (put_string nm @ put_string sy @ put_string c) = (nm, put_string sy @ put_string c)"
    using get_put_string [of nm b1 "bs1 @ put_string c"] p(1) by simp
  moreover have "get_string (put_string sy @ put_string c) = (sy, put_string c)"
    using get_put_string [of sy b2 bs2] p(2) by simp
  ultimately show ?thesis by (simp add: ex_call_def ex_create_call_def get_put_last)
qed

lemma ex_decode_signed:
  assumes "ex_sign_tx tx = Ok raw" "ex_call (tx_input tx) = Some c"
  shows "ex_decode raw = Some (tx_to tx, c)"
proof -
  have "raw = to_vec (tx_to tx) @ to_le_bytes (tx_nonce tx) @ tx_input tx" using assms(1) by (simp add: ex_sign_tx_def)
  then have "take 20 raw = to_vec (tx_to tx)" "drop 28 raw = tx_input tx" by simp_all
  with assms(2) show ?thesis by (simp add: ex_decode_def)
qed

lemma ex_topics: "take 4 (to_vec (ex_keccak (as_bytes s))) = take 4 (as_bytes s @ replicate 32 0)"
  by (simp add: ex_keccak_def)

lemma ex_keccak_neq: "take 4 (as_bytes s @ replicate 32 0) \<noteq> take 4 (as_bytes t @ replicate 32 0) \<Longrightarrow>
  ex_keccak (as_bytes s) \<noteq> ex_keccak (as_bytes t)"
  by (metis ex_topics)

lemma ex_lib_ok: "bridge_lib_ok ex_lib"
proof -
  have "WITHDRAWAL_TOPIC ex_lib \<noteq> BRIDGE_CREATED_TOPIC ex_lib"
    "el_keccak ex_lib (as_bytes ''DepositMinted(uint64,address,uint256,string)'') \<noteq> WITHDRAWAL_TOPIC ex_lib"
    unfolding WITHDRAWAL_TOPIC_def BRIDGE_CREATED_TOPIC_def ex_lib_simps
    by (rule ex_keccak_neq, simp add: as_bytes_def)+
  moreover have "selector ex_lib ''lastMintedDepositNonce()'' \<noteq> selector ex_lib ''mintedAny()''"
    unfolding selector_def ex_lib_simps ex_topics by (simp add: as_bytes_def)
  moreover have "(\<exists>u. t = ''0x'' @ u \<and> \<not> starts_with u ''0x'' \<and> (\<forall>c \<in> set u. of_char c < (128 :: nat))) \<and> ex_struct_tag t = Ok t"
    if "ex_struct_tag s = Ok t" for s t
  proof -
    from that have t: "t = s" "starts_with s ''0x''" "\<not> starts_with (drop 2 s) ''0x''" "\<forall>c \<in> set (drop 2 s). of_char c < (128 :: nat)"
      by (auto simp: ex_struct_tag_def split: if_splits)
    from t(2) have "take 2 s = ''0x''" by (simp add: starts_with_def numeral_2_eq_2)
    then have "s = ''0x'' @ drop 2 s" using append_take_drop_id [of 2 s] by (simp only:)
    with t that show ?thesis by blast
  qed
  ultimately show ?thesis by (simp add: bridge_lib_ok_def hex_ok_def ex_hex_no_x)
qed

section \<open>A scripted network\<close>

text \<open>Each request takes the next entry of the script; past its end nothing answers.\<close>

type_synonym script = "(outside_act list \<times> fate) list"

definition ex_signer :: evm_address where "ex_signer = barr_fill 1"
definition ex_factory :: evm_address where "ex_factory = barr_fill 2"
definition ex_token :: evm_address where "ex_token = barr_fill 3"
definition ex_user :: evm_address where "ex_user = barr_fill 4"
definition ex_table :: address where "ex_table = barr_fill 5"
definition ex_payee :: address where "ex_payee = barr_fill 6"
definition ex_operator :: address where "ex_operator = barr_fill 7"
definition ex_coin :: "byte list" where "ex_coin = as_bytes ''2::sui::SUI''"

lemmas ex_addresses = ex_signer_def ex_factory_def ex_token_def ex_user_def ex_table_def ex_payee_def ex_operator_def

definition ex_plan :: "script \<Rightarrow> (outside_act list \<times> fate) \<times> script" where
  "ex_plan v = (case v of [] \<Rightarrow> (([], Unreachable ''down''), []) | e # es \<Rightarrow> (e, es))"

definition ex_misc :: "script \<Rightarrow> jv \<Rightarrow> jv" where
  "ex_misc v req =
     (let name = str_of (jget ''method'' req) in
      if name = ''eth_getCode'' then JStr ''0x600160''
      else if name = ''eth_call'' then JStr (hex_text ex_lib (abi_address ex_signer))
      else JStr ''0x1'')"

definition ex_net :: "(script, unit) bridge_net" where
  "ex_net = \<lparr>bn_lib = ex_lib, bn_signer = ex_signer, bn_factory = ex_factory,
     bn_client = \<lparr>bc_key = (), bc_sender = ex_operator, bc_package = barr_fill 8, bc_cap = barr_fill 9, bc_vault = barr_fill 0\<rparr>,
     bn_child_id = (\<lambda>_ key. Abs_barray (take 31 (key @ replicate 31 0) @ [1])),
     bn_nonce_of = (\<lambda>a. if last (to_vec a) = 1 then Some (from_le_bytes (take 8 (to_vec a))) else None),
     bn_decode = ex_decode, bn_hash = ex_hex, bn_read_address = (\<lambda>s. case ex_parse_address s of Inl _ \<Rightarrow> None | Inr a \<Rightarrow> Some a),
     bn_misc = ex_misc, bn_plan = ex_plan\<rparr>"

lemma ex_net_simps [simp]:
  "bn_lib ex_net = ex_lib" "bn_signer ex_net = ex_signer" "bn_factory ex_net = ex_factory" "bn_decode ex_net = ex_decode"
  "bn_hash ex_net = ex_hex" "bn_misc ex_net = ex_misc" "bn_plan ex_net = ex_plan"
  "bn_read_address ex_net (ex_show_address a) = Some a"
  by (simp_all add: ex_net_def)

lemma ex_net_ok: "bridge_net_ok ex_net tbl"
proof -
  have "inj ex_hex" by (rule injI) (metis ex_unhex_hex sum.inject(2))
  moreover have "ex_decode raw = Some (tx_to tx, CallMint r (ucast a) n)"
    if "ex_sign_tx tx = Ok raw" "tx_input tx = ex_mint_call r a n" for tx raw r a n
    using ex_decode_signed [OF that(1)] that(2) by (simp add: ex_call_mint)
  moreover have "ex_decode raw = Some (tx_to tx, CallCreateBridge nm sy c)"
    if "ex_sign_tx tx = Ok raw" "tx_input tx = ex_create_call nm sy c" for tx raw nm sy c
    using ex_decode_signed [OF that(1)] that(2) by (simp add: ex_call_create)
  moreover have "bn_nonce_of ex_net (bn_child_id ex_net tbl (to_le_bytes n)) = Some n \<and>
      bn_child_id ex_net tbl (to_le_bytes n) \<noteq> bc_vault (bn_client ex_net)" for n
  proof -
    let ?bs = "take 31 (to_le_bytes n @ replicate 31 0) @ [1]"
    have v: "to_vec (Abs_barray ?bs :: address) = ?bs" by simp
    have "last (to_vec (barr_fill 0 :: address)) = (0 :: byte)" by (simp add: numeral_eq_Suc)
    with v have "Abs_barray ?bs \<noteq> (barr_fill 0 :: address)" by (metis last_snoc zero_neq_one)
    with v show ?thesis by (simp add: ex_net_def)
  qed
  ultimately show ?thesis by (simp add: bridge_net_ok_def ex_lib_ok)
qed

section \<open>A cursor file format\<close>

definition put_text :: "string \<Rightarrow> string" where
  "put_text s = concat (map (\<lambda>c. [CHR ''+'', c]) s) @ ''.''"

fun get_text :: "string \<Rightarrow> string \<times> string" where
  "get_text (b # c # cs) = (if b = CHR ''.'' then ([], c # cs) else case get_text cs of (s, r) \<Rightarrow> (c # s, r))"
| "get_text _ = ([], [])"

lemma get_put_text: "get_text (put_text s @ r) = (s, r)"
  by (induction s; cases r) (simp_all add: put_text_def)

fun put_entries :: "(string \<times> string) list \<Rightarrow> string" where
  "put_entries [] = []"
| "put_entries ((k, v) # es) = CHR '','' # put_text k @ put_text v @ put_entries es"

lemma get_text_shorter: "get_text cs = (s, r) \<Longrightarrow> length r \<le> length cs"
  by (induction cs arbitrary: s r rule: get_text.induct) (fastforce split: if_splits prod.splits)+

function get_entries :: "string \<Rightarrow> (string \<times> string) list" where
  "get_entries [] = []"
| "get_entries (c # cs) = (case get_text cs of (k, r) \<Rightarrow> case get_text r of (v, r') \<Rightarrow> (k, v) # get_entries r')"
  by pat_completeness auto
termination
  by (relation "measure length") (auto dest!: get_text_shorter [OF sym] intro: le_imp_less_Suc order_trans)

lemma get_put_entries: "get_entries (put_entries es) = es"
  by (induction es rule: put_entries.induct) (simp_all add: get_put_text)

definition ex_json :: "cursors json" where
  "ex_json = \<lparr>to_json = (\<lambda>c. Ok (CHR ''j'' # put_text (show_u64 (cu_next_deposit_nonce c)) @
                put_text (show_u64 (cu_next_l2_block c)) @ put_entries (cu_tokens c))),
     from_json = (\<lambda>t. case t of [] \<Rightarrow> Err ''EOF'' | c # cs \<Rightarrow>
       (case get_text cs of (a, r) \<Rightarrow> case get_text r of (b, r') \<Rightarrow>
          case (parse_u64 a, parse_u64 b) of
            (Some n, Some m) \<Rightarrow> Ok \<lparr>cu_next_deposit_nonce = n, cu_next_l2_block = m, cu_tokens = get_entries r'\<rparr>
          | _ \<Rightarrow> Err ''invalid number''))\<rparr>"

lemma ex_json_ok: "json_ok ex_json"
  by (auto simp: json_ok_def ex_json_def get_put_text get_put_entries trim_def is_ws_def)

section \<open>A run\<close>

definition ex_deposit :: deposit_record where
  "ex_deposit = \<lparr>dr_amount = 7, dr_recipient_l2 = to_vec ex_user, dr_coin_type = ex_coin\<rparr>"

definition ex_vault :: vault where
  "ex_vault = \<lparr>va_deposits_id = ex_table, va_deposit_nonce = 0, va_withdraw_nonce = 0, va_reserves = Map.empty,
     va_deposits = Map.empty, va_processed = Map.empty,
     va_rotation = Some \<lparr>authority = ex_operator, rs_prev = None, rs_pending = None\<rparr>, va_events = []\<rparr>"

definition ex_ledger :: l2_ledger where
  "ex_ledger = \<lparr>l2_head = 0, l2_factory_at = ex_factory,
     l2_factory = \<lparr>bf_relayer = ex_signer, bf_initialized = True, bf_token_for = (\<lambda>_. barr_fill 0)\<rparr>,
     l2_tokens = Map.empty, l2_logs = [], l2_receipts = [], l2_pool = []\<rparr>"

definition ex_world :: "script \<Rightarrow> vault \<Rightarrow> l2_ledger \<Rightarrow> script bridge_world" where
  "ex_world v va g = \<lparr>bw_rest = v, bw_clock = 0, bw_vault = va, bw_l2 = g\<rparr>"

lemma ex_world_simps [simp]:
  "bw_rest (ex_world v va g) = v" "bw_vault (ex_world v va g) = va" "bw_l2 (ex_world v va g) = g" "bw_clock (ex_world v va g) = 0"
  "(ex_world v va g)\<lparr>bw_l2 := g'\<rparr> = ex_world v va g'" "(ex_world v va g)\<lparr>bw_vault := va'\<rparr> = ex_world v va' g"
  "(ex_world v va g)\<lparr>bw_rest := v'\<rparr> = ex_world v' va g"
  by (simp_all add: ex_world_def)

abbreviation quiet :: "outside_act list \<times> fate" where "quiet \<equiv> ([], Answered)"

lemma ex_request [simp]:
  "before_request ex_net (ex_world ((acts, f) # v) va g) = (f, fold (outside_step ex_net) acts (ex_world v va g))"
  by (simp add: before_request_def ex_plan_def)

lemma ex_down [simp]: "before_request ex_net (ex_world [] va g) = (Unreachable ''down'', ex_world [] va g)"
  by (simp add: before_request_def ex_plan_def)

text \<open>Before the first start a user deposits 7 coins and another creates the coin's token.\<close>

definition ex_coin_text :: string where "ex_coin_text = ''2::sui::SUI''"

lemma ex_coin_normal: "normalize_coin_type ex_lib ex_coin_text = Ok ex_coin"
  by (simp add: normalize_coin_type_def parse_struct_tag_flexible_def ex_struct_tag_def ex_coin_text_def ex_coin_def starts_with_def)

lemma ex_coin_utf8: "from_utf8 e ex_coin = Ok ex_coin_text"
proof -
  have "utf8_ok ex_coin" unfolding ex_coin_def by (rule as_bytes_ascii) simp
  then show ?thesis by (simp add: from_utf8_as_bytes ex_coin_def ex_coin_text_def)
qed

lemma ex_coin_canonical: "canonical_coin ex_lib ex_coin"
  by (simp add: canonical_coin_def ex_coin_utf8 ex_coin_normal)

definition ex_vault1 :: vault where
  "ex_vault1 = ex_vault\<lparr>va_reserves := [ex_coin \<mapsto> 7], va_deposits := [0 \<mapsto> ex_deposit], va_deposit_nonce := 1\<rparr>"

definition ex_bridge_token :: bridge_token where
  "ex_bridge_token = token_blank\<lparr>bt_initialized := True, bt_coin_type := ex_coin_text, bt_relayer := ex_signer\<rparr>"

definition ex_created :: l2_log where
  "ex_created = (1, ex_factory, EvCreated ex_token ex_coin_text [] [])"

definition ex_ledger1 :: l2_ledger where
  "ex_ledger1 = ex_ledger\<lparr>l2_head := 1, l2_tokens := [ex_token \<mapsto> ex_bridge_token],
     l2_factory := \<lparr>bf_relayer = ex_signer, bf_initialized = True, bf_token_for = (\<lambda>_. barr_fill 0)(ex_coin_text := ex_token)\<rparr>,
     l2_logs := [ex_created]\<rparr>"

lemma ex_user_deposit: "outside_step ex_net (UserDeposit ex_coin 7 (to_vec ex_user)) (ex_world v ex_vault g) = ex_world v ex_vault1 g"
  by (simp add: ex_coin_canonical vault_deposit_def ex_vault_def vault_add_def ex_vault1_def ex_deposit_def)

lemma ex_user_create:
  "outside_step ex_net (UserCall ex_user ex_factory ex_token (CallCreateBridge [] [] ex_coin_text)) (ex_world v va ex_ledger) =
   ex_world v va ex_ledger1"
  by (simp add: l2_mine_def factory_create_def ex_ledger_def calldata_fits_def ex_coin_text_def ex_addresses
      token_setup_def ex_ledger1_def ex_bridge_token_def ex_created_def token_blank_def)

definition ex_raw :: "byte list" where
  "ex_raw = to_vec ex_token @ to_le_bytes 1 @ ex_mint_call ex_user 7 0"

definition ex_burn :: outside_act where
  "ex_burn = UserCall ex_user ex_token ex_user (CallWithdraw ex_payee 3)"

definition ex_pass :: script where
  "ex_pass = replicate 7 quiet @ [([MineRelayer ex_raw ex_user True], Answered), ([ex_burn], Answered), quiet, quiet, quiet]"

definition ex_boot :: script where "ex_boot = replicate 8 quiet"

abbreviation ex_port :: "script bridge_world relay_port" where "ex_port \<equiv> bridge_port ex_net no_faults ex_json"

definition ex_disk :: disk where "ex_disk = \<lparr>files = Map.empty, ops = 0\<rparr>"

lemma ex_deployed: "bridge_run ex_net ex_table ex_json (NodeDown ex_disk (ex_world (ex_boot @ ex_pass) ex_vault ex_ledger))"
  by (rule bridge_run.deployed)
    (simp_all add: vault_new_def ledger_new_def ex_vault_def ex_ledger_def ex_disk_def ex_addresses)

lemma ex_prepared: "bridge_run ex_net ex_table ex_json (NodeDown ex_disk (ex_world (ex_boot @ ex_pass) ex_vault1 ex_ledger1))"
  using bridge_run.away [OF bridge_run.away [OF ex_deployed]] ex_user_deposit ex_user_create by metis

subsection \<open>Start-up\<close>

lemma ex_port_l2 [simp]: "lp_post (l2_of ex_port) = node_post ex_net" "lp_lib (l2_of ex_port) = ex_lib"
  by simp_all

lemma ex_misc_simps [simp]:
  "ex_misc v (l2_request ''eth_getCode'' ps) = JStr ''0x600160''"
  "ex_misc v (l2_request ''eth_call'' ps) = JStr (hex_text ex_lib (abi_address ex_signer))"
  "ex_misc v (l2_request ''eth_chainId'' ps) = JStr ''0x1''" "ex_misc v (l2_request ''eth_gasPrice'' ps) = JStr ''0x1''"
  "ex_misc v (l2_request ''eth_getTransactionCount'' ps) = JStr ''0x1''"
  by (simp_all add: ex_misc_def l2_request_def jget_def)

lemma ex_one: "parse_hex_qty ''0x1'' = Ok 1"
  by (simp add: parse_hex_qty_def from_str_radix_16_def hex_digit_def)

lemma ex_code: "eth_get_code (l2_of ex_port) a (ex_world (quiet # v) va g) = (Ok [0x60, 0x01, 0x60], ex_world v va g)"
proof -
  have "rpc_call (l2_of ex_port) string_value (l2_request ''eth_getCode'' [JStr (ex_show_address a), JStr ''latest'']) (ex_world (quiet # v) va g) =
      (Ok ''0x600160'', ex_world v va g)"
    by (subst rpc_answered [where net = ex_net and v = "JStr ''0x600160''"]) (simp_all, simp)
  then show ?thesis by (simp add: eth_get_code_def sbind_def sreturn_def hex_digit_def)
qed

lemma ex_call_factory:
  assumes "l2_tokens g ex_factory = None"
  shows "eth_call (l2_of ex_port) ex_factory sel (ex_world (quiet # v) va g) = (Ok (abi_address ex_signer), ex_world v va g)"
  by (rule call_answered [where net = ex_net]) 
    (simp_all add: ex_lib_ok node_call_def Let_def assms jget_def eth_call_request_def)

lemma ex_verify:
  assumes "l2_tokens g ex_factory = None"
  shows "verify_l2_bridge_factory (l2_of ex_port) ex_factory ex_signer (ex_world (quiet # quiet # quiet # quiet # v) va g) =
    (Ok (), ex_world v va g)"
proof -
  have "last (abi_address ex_signer) \<noteq> 0" by (simp add: abi_address_def ex_signer_def numeral_eq_Suc)
  moreover have "abi_address ex_signer \<noteq> []" by (simp add: abi_address_def)
  moreover have "decode_abi_address (abi_address ex_signer) = Ok ex_signer"
    by (simp add: decode_abi_address_def abi_address_def)
  ultimately show ?thesis
    by (simp add: verify_l2_bridge_factory_def sbind_def sreturn_def st_map_err_def slift_def ex_code eth_call_bool_def
        eth_call_address_def ex_call_factory [OF assms])
qed

lemma ex_chain_id: "eth_chain_id (l2_of ex_port) (ex_world (quiet # v) va g) = (Ok 1, ex_world v va g)"
  unfolding eth_chain_id_def
  by (subst quantity_answered [where net = ex_net and t = "''0x1''"])
    (simp_all add: ex_one)

lemma ex_sui_status: "lp_vault_status ex_port (ex_world (quiet # v) va g) =
    (Ok \<lparr>vs_deposit_nonce = va_deposit_nonce va, vs_withdraw_nonce = va_withdraw_nonce va, vs_deposits_table_uid = va_deposits_id va\<rparr>,
     ex_world v va g)"
  by (subst vault_status_answered) (simp_all, simp)

lemma ex_block_number: "eth_block_number (l2_of ex_port) (ex_world ((acts, Answered) # v) va g) =
    (Ok (l2_head (bw_l2 (fold (outside_step ex_net) acts (ex_world v va g)))), fold (outside_step ex_net) acts (ex_world v va g))"
  by (rule block_number_answered [where net = ex_net]) simp_all

lemma ex_get_logs:
  "addrs \<noteq> [] \<Longrightarrow> eth_get_logs (l2_of ex_port) addrs topic a b (ex_world (quiet # v) va g) =
    (Ok (map (wire_log ex_lib) (logs_for ex_lib addrs topic a b g)), ex_world v va g)"
  by (subst get_logs_answered [OF ex_net_ok]) (simp_all, simp)

lemma ex_parse_created: "parse_bridge_created_log ex_lib (wire_log ex_lib ex_created) = Ok (ex_coin_text, ex_token)"
  unfolding ex_created_def
  by (rule parse_created_answered [OF ex_lib_ok])
    (simp add: ex_coin_text_def, unfold ex_coin_text_def, rule as_bytes_ascii, simp)

lemma ex_logs_for_factory:
  assumes "l2_logs g = [ex_created]" "a \<le> 1" "1 \<le> b"
  shows "logs_for ex_lib [ex_factory] (BRIDGE_CREATED_TOPIC ex_lib) a b g = [ex_created]"
  using assms by (simp add: logs_for_def ex_created_def)

definition ex_registry :: token_registry where
  "ex_registry = \<lparr>tr_by_coin_type = [(ex_coin, ex_token)], tr_by_address = [(ex_token, ex_coin)]\<rparr>"

lemma ex_absorb:
  assumes "l2_logs g = [ex_created]" "1 \<le> b"
  shows "absorb_creations (l2_of ex_port) ex_factory registry_empty 0 b (ex_world (quiet # v) va g) = (Ok (1, ex_registry), ex_world v va g)"
  by (simp add: absorb_creations_def sbind_def sreturn_def ex_get_logs ex_logs_for_factory [OF assms(1) _ assms(2)] absorb_log_def
      ex_parse_created ex_coin_normal registry_insert_def registry_empty_def registry_token_for_def ex_registry_def del: of_nat_0 )

lemma ex_scan:
  assumes "l2_logs g = [ex_created]"
  shows "scan_loop (l2_of ex_port) ex_factory 1 3 CREATION_SCAN_CHUNK 0 registry_empty (ex_world (quiet # v) va g) =
    Some (Ok ex_registry, ex_world v va g)"
proof -
  have to: "min (saturating_add 0 (CREATION_SCAN_CHUNK - 1)) 1 = (1 :: u64)"
    by (simp add: saturating_add_def CREATION_SCAN_CHUNK_def min_def word_le_nat_alt word_less_nat_alt u64_max_def)
  have three: "(3 :: nat) = Suc (Suc (Suc 0))" by simp
  show ?thesis
    unfolding three using ex_absorb [OF assms, of 1 v va] by (simp add: to Let_def CREATION_SCAN_HALVE_AFTER_def)
qed

lemma save_progress_fields [simp]:
  "re_world (save_progress p s) = re_world s" "re_tokens (save_progress p s) = re_tokens s"
  "re_chain_id (save_progress p s) = re_chain_id s" "re_deposits_table (save_progress p s) = re_deposits_table s"
  "cu_next_deposit_nonce (re_cursors (save_progress p s)) = cu_next_deposit_nonce (re_cursors s)"
  "cu_next_l2_block (re_cursors (save_progress p s)) = cu_next_l2_block (re_cursors s)"
  by (simp_all add: save_progress_def Let_def)

lemma ex_boots: "\<exists>s. relayer_new ex_port 3 ex_disk (ex_world (ex_boot @ v) ex_vault1 ex_ledger1) = Some (Ok s, ex_world v ex_vault1 ex_ledger1) \<and>
    re_world s = ex_world v ex_vault1 ex_ledger1 \<and> re_tokens s = ex_registry \<and> re_chain_id s = 1 \<and>
    re_deposits_table s = ex_table \<and> cu_next_deposit_nonce (re_cursors s) = 0 \<and> cu_next_l2_block (re_cursors s) = 2"
proof -
  have boot: "ex_boot = [quiet, quiet, quiet, quiet, quiet, quiet, quiet, quiet]" by (simp add: ex_boot_def numeral_eq_Suc)
  have g: "l2_tokens ex_ledger1 ex_factory = None" "l2_logs ex_ledger1 = [ex_created]" "l2_head ex_ledger1 = 1"
    by (simp_all add: ex_ledger1_def ex_ledger_def ex_addresses)
  have load: "\<exists>d. load_cursors (lp_io ex_port) (lp_cursors_json ex_port) (lp_cursors_path ex_port) ex_disk = (cursors_default, d)"
    by (simp add: load_cursors_def fs_read_to_string_def fs_read_def ex_disk_def no_faults_def)
  then obtain d where d: "load_cursors (lp_io ex_port) (lp_cursors_json ex_port) (lp_cursors_path ex_port) ex_disk = (cursors_default, d)" ..
  have ports: "lp_factory ex_port = ex_factory" "lp_signer ex_port = ex_signer" by simp_all
  show ?thesis
    unfolding relayer_new_steps relayer_open_def ports boot append_Cons append_Nil ex_verify [OF g(1)] ex_chain_id ex_sui_status prod.case sum.case
      loaded_relayer_def d restore_token_registry_def
    by (simp add: cursors_default_def on_net_def ex_block_number g ex_scan [OF g(2)] and_then_def)
       (simp add: ex_vault1_def ex_vault_def)
qed

subsection \<open>The pass\<close>

definition ex_minted :: l2_log where "ex_minted = (2, ex_token, EvMinted 0 ex_user 7 ex_coin_text)"
definition ex_burned :: l2_log where "ex_burned = (3, ex_token, EvWithdrawal 1 ex_user ex_payee 3)"

definition ex_ledger2 :: l2_ledger where
  "ex_ledger2 = ex_ledger1\<lparr>l2_head := 2, l2_pool := [],
     l2_tokens := [ex_token \<mapsto> ex_bridge_token\<lparr>bt_total_supply := 7, bt_balance_of := (\<lambda>_. 0)(ex_user := 7), bt_minted_any := True\<rparr>],
     l2_logs := [ex_created, ex_minted], l2_receipts := [(ex_raw, True, [ex_minted])]\<rparr>"

definition ex_ledger3 :: l2_ledger where
  "ex_ledger3 = ex_ledger2\<lparr>l2_head := 3,
     l2_tokens := [ex_token \<mapsto> ex_bridge_token\<lparr>bt_total_supply := 4, bt_balance_of := (\<lambda>_. 0)(ex_user := 4), bt_minted_any := True,
       bt_last_withdrawal_nonce := 1\<rparr>],
     l2_logs := [ex_created, ex_minted, ex_burned]\<rparr>"

definition ex_vault3 :: vault where
  "ex_vault3 = ex_vault1\<lparr>va_withdraw_nonce := 1, va_reserves := [ex_coin \<mapsto> 4], va_processed := [withdraw_key ex_coin 1 \<mapsto> True],
     va_events := [\<lparr>vw_nonce = 0, vw_coin_type = ex_coin, vw_amount = 3, vw_recipient = ex_payee, vw_l2_nonce = 1\<rparr>]\<rparr>"

lemma ex_decode_raw: "ex_decode ex_raw = Some (ex_token, CallMint ex_user 7 0)"
proof -
  have "take 20 ex_raw = to_vec ex_token" "drop 28 ex_raw = ex_mint_call ex_user 7 0" by (simp_all add: ex_raw_def)
  then show ?thesis by (simp add: ex_decode_def ex_call_mint)
qed

lemma ex_mined:
  "outside_step ex_net (MineRelayer ex_raw ex_user True) (ex_world v va (ex_ledger1\<lparr>l2_pool := [ex_raw]\<rparr>)) = ex_world v va ex_ledger2"
  by (simp add: Let_def ex_ledger1_def ex_ledger_def ex_decode_raw l2_mine_def token_call_def token_mint_def ex_bridge_token_def
      ex_addresses token_blank_def checked_add_def and_then_def ex_ledger2_def ex_minted_def)

lemma ex_burns: "outside_step ex_net ex_burn (ex_world v va ex_ledger2) = ex_world v va ex_ledger3"
  by (simp add: ex_burn_def Let_def ex_ledger1_def ex_ledger_def l2_mine_def token_call_def token_initiate_withdrawal_def ex_bridge_token_def
      ex_addresses token_blank_def checked_add_def and_then_def ex_ledger2_def ex_ledger3_def ex_burned_def)

text \<open>The deposit direction.\<close>

lemma ex_deposit_at:
  "lp_deposit_at ex_port ex_table 0 (ex_world (quiet # v) ex_vault1 g) = (Ok (Some ex_deposit), ex_world v ex_vault1 g)"
  by (rule deposit_at_answered [OF ex_net_ok])
    (simp_all add: ex_vault1_def ex_deposit_def, simp_all add: ex_coin_def)

lemma ex_mint_cursor:
  assumes "l2_tokens g ex_token = Some t"
  shows "eth_mint_cursor (l2_of ex_port) ex_token (ex_world (quiet # quiet # v) va g) =
    (Ok (bt_minted_any t, bt_last_minted_nonce t), ex_world v va g)"
  by (rule mint_cursor_answered [OF ex_net_ok]) (simp_all add: assms, simp_all add: assms)

lemma ex_send:
  assumes "re_chain_id s = 1" "re_world s = ex_world (quiet # quiet # quiet # v) va g"
  shows "send_l2_tx ex_port target input gas s =
    (Ok (ex_hex (to_vec target @ to_le_bytes 1 @ input)),
     s\<lparr>re_world := ex_world v va (g\<lparr>l2_pool := l2_pool g @ [to_vec target @ to_le_bytes 1 @ input]\<rparr>)\<rparr>)"
proof -
  have nonce: "eth_get_transaction_count (l2_of ex_port) a (ex_world (quiet # v) va g) = (Ok 1, ex_world v va g)" for a v
    unfolding eth_get_transaction_count_def
    by (subst quantity_answered [where net = ex_net and t = "''0x1''"]) (simp_all add: ex_one)
  have "rpc_call (l2_of ex_port) string_value (l2_request ''eth_gasPrice'' []) (ex_world (quiet # v) va g) = (Ok ''0x1'', ex_world v va g)" for v
    by (subst rpc_answered [where net = ex_net and v = "JStr ''0x1''"]) (simp_all, simp)
  then have price: "eth_gas_price (l2_of ex_port) (ex_world (quiet # v) va g) = (Ok 1000000000, ex_world v va g)" for v
    by (simp add: eth_gas_price_def sbind_def sreturn_def ex_one)
  have send: "eth_send_raw_transaction (l2_of ex_port) raw (ex_world (quiet # v) va g) =
      (Ok (ex_hex raw), ex_world v va (g\<lparr>l2_pool := l2_pool g @ [raw]\<rparr>))" for raw v
    by (subst send_answered [where net = ex_net]) (simp_all add: ex_lib_ok, simp)
  show ?thesis
    by (simp add: send_l2_tx_def on_net_def assms(2) sbind_def slift_def nonce price send ex_sign_tx_def)
qed

lemma ex_receipt:
  assumes "re_world s = ex_world (([MineRelayer ex_raw ex_user True], Answered) # v) va (ex_ledger1\<lparr>l2_pool := [ex_raw]\<rparr>)"
  shows "await_receipt ex_port (ex_hex ex_raw) s =
    (Ok \<lparr>rc_status = ''0x1'', rc_logs = [wire_log ex_lib ex_minted]\<rparr>, s\<lparr>re_world := ex_world v va ex_ledger2\<rparr>)"
proof -
  have "wait_for_receipt (l2_of ex_port) (Suc 0) (ex_hex ex_raw) 2000 (re_world s) =
      Some (Ok \<lparr>rc_status = (if True then ''0x1'' else ''0x0''), rc_logs = map (wire_log (bn_lib ex_net)) [ex_minted]\<rparr>, ex_world v va ex_ledger2)"
    by (rule receipt_answered [where net = ex_net and raw = ex_raw])
      (simp_all add: assms ex_mined del: outside_step.simps, simp add: ex_ledger2_def)
  moreover have "lp_poll ex_port = 2000" by (simp add: bridge_port_def)
  ultimately show ?thesis by (simp add: await_receipt_def)
qed

lemma ex_relay_deposit:
  assumes s: "re_world s = ex_world (replicate 6 quiet @ ([MineRelayer ex_raw ex_user True], Answered) # v) ex_vault1 ex_ledger1"
    "re_tokens s = ex_registry" "re_chain_id s = 1" "re_deposits_table s = ex_table" "cu_next_deposit_nonce (re_cursors s) = 0"
  shows "relay_deposit ex_port 1 s = (True, save_progress ex_port
    (s\<lparr>re_world := ex_world v ex_vault1 ex_ledger2, re_cursors := (re_cursors s)\<lparr>cu_next_deposit_nonce := 1\<rparr>\<rparr>))"
proof -
  let ?u = "\<lambda>w. s\<lparr>re_world := w\<rparr>" and ?mine = "([MineRelayer ex_raw ex_user True], Answered)"
  have w: "re_world s = ex_world (quiet # quiet # quiet # quiet # quiet # quiet # ?mine # v) ex_vault1 ex_ledger1"
    using s(1) by (simp add: numeral_eq_Suc)
  have g: "l2_tokens ex_ledger1 ex_token = Some ex_bridge_token" "l2_pool ex_ledger1 = []"
    by (simp_all add: ex_ledger1_def ex_ledger_def)
  have at: "on_net (lp_deposit_at ex_port ex_table 0) s =
      (Ok (Some ex_deposit), ?u (ex_world (quiet # quiet # quiet # quiet # quiet # ?mine # v) ex_vault1 ex_ledger1))"
    by (simp add: on_net_def w ex_deposit_at)
  have token: "ensure_token ex_port (dr_coin_type ex_deposit) (?u w) = (Ok ex_token, ?u w)" for w
    using s(2) by (simp add: ensure_token_def registry_token_for_def ex_registry_def ex_deposit_def)
  have cursor: "unwrap_or (False, 0) (on_net (eth_mint_cursor (l2_of ex_port) ex_token))
      (?u (ex_world (quiet # quiet # quiet # quiet # quiet # ?mine # v) ex_vault1 ex_ledger1)) =
      ((False, 0), ?u (ex_world (quiet # quiet # quiet # ?mine # v) ex_vault1 ex_ledger1))"
    using ex_mint_cursor [OF g(1)] by (simp add: unwrap_or_def on_net_def ex_bridge_token_def token_blank_def)
  have mint: "mint_on_l2 ex_port ex_token 0 (dr_recipient_l2 ex_deposit) (dr_amount ex_deposit)
      (?u (ex_world (quiet # quiet # quiet # ?mine # v) ex_vault1 ex_ledger1)) = (Ok (), ?u (ex_world v ex_vault1 ex_ledger2))"
  proof -
    have "to_vec ex_token @ to_le_bytes 1 @ ex_mint_call ex_user 7 0 = ex_raw" by (simp add: ex_raw_def)
    then have "send_l2_tx ex_port ex_token (ex_mint_call ex_user 7 0) MINT_GAS_LIMIT
        (?u (ex_world (quiet # quiet # quiet # ?mine # v) ex_vault1 ex_ledger1)) =
        (Ok (ex_hex ex_raw), ?u (ex_world (?mine # v) ex_vault1 (ex_ledger1\<lparr>l2_pool := [ex_raw]\<rparr>)))"
      using ex_send [of "?u (ex_world (quiet # quiet # quiet # ?mine # v) ex_vault1 ex_ledger1)"] s(3) g(2) by simp
    moreover have "await_receipt ex_port (ex_hex ex_raw) (?u (ex_world (?mine # v) ex_vault1 (ex_ledger1\<lparr>l2_pool := [ex_raw]\<rparr>))) =
        (Ok \<lparr>rc_status = ''0x1'', rc_logs = [wire_log ex_lib ex_minted]\<rparr>, ?u (ex_world v ex_vault1 ex_ledger2))"
      by (subst ex_receipt) simp_all
    moreover have "ensure_receipt_success \<lparr>rc_status = ''0x1'', rc_logs = [wire_log ex_lib ex_minted]\<rparr> = Ok ()"
      by (simp add: ensure_receipt_success_def to_lowercase_def to_lower_def)
    ultimately show ?thesis
      by (simp add: mint_on_l2_def ex_deposit_def mint_calldata_def sbind_def slift_def st_map_err_def)
  qed
  show ?thesis
    unfolding relay_deposit_def s(4,5) Let_def at
    by (simp add: token cursor mint)
qed

text \<open>The withdrawal direction.\<close>

lemma ex_topics_differ: "WITHDRAWAL_TOPIC ex_lib \<noteq> BRIDGE_CREATED_TOPIC ex_lib"
  "el_keccak ex_lib (as_bytes ''DepositMinted(uint64,address,uint256,string)'') \<noteq> WITHDRAWAL_TOPIC ex_lib"
  using ex_lib_ok by (simp_all add: bridge_lib_ok_def)

lemma ex_withdraw:
  "sui_withdraw ex_net (''0x'' @ ex_coin_text) ex_payee 3 1 (ex_world (quiet # v) ex_vault1 g) = (Ok (), ex_world v ex_vault3 g)"
proof -
  have "type_key (''0x'' @ ex_coin_text) = ex_coin" by (simp add: type_key_def ex_coin_text_def ex_coin_def)
  moreover have "bc_sender (bn_client ex_net) = ex_operator" by (simp add: ex_net_def)
  ultimately have "exec_withdraw (bw_clock (ex_world v ex_vault1 g)) \<lparr>ptb_sender = bc_sender (bn_client ex_net),
      ptb_calls = withdraw_commands (bn_client ex_net) (''0x'' @ ex_coin_text) ex_payee 3 1\<rparr> (bw_vault (ex_world v ex_vault1 g)) = Ok ex_vault3"
    by (simp add: withdraw_commands_def bridge_call_def withdraw_as_def can_act_def do_withdraw_def ex_vault1_def ex_vault_def
        vault_add_def and_then_def ex_vault3_def del: append_Cons append_Nil)
  from withdraw_answered [where net = ex_net, OF _ this, of "ex_world (quiet # v) ex_vault1 g"]
  show ?thesis by simp
qed

lemma ex_process:
  assumes "re_world s = ex_world (quiet # v) ex_vault1 g" "re_tokens s = ex_registry"
  shows "process_withdrawal_log ex_port (wire_log ex_lib ex_burned) s = (Ok (), s\<lparr>re_world := ex_world v ex_vault3 g\<rparr>)"
proof -
  have addr: "parse_log_address ex_lib (rl_address (wire_log ex_lib ex_burned)) = Ok ex_token"
    using ex_lib_ok by (simp add: ex_burned_def)
  have parsed: "parse_withdrawal_log ex_lib (wire_log ex_lib ex_burned) = Ok \<lparr>pw_nonce = 1, pw_amount = 3, pw_sui_recipient = ex_payee\<rparr>"
    unfolding ex_burned_def by (simp add: parse_withdrawal_wire [OF ex_lib_ok])
  have coin: "registry_coin_for ex_token ex_registry = Some ex_coin" by (simp add: registry_coin_for_def ex_registry_def)
  have tag: "coin_type_tag ex_lib ex_coin_text = Ok (''0x'' @ ex_coin_text)"
    by (simp add: coin_type_tag_def parse_struct_tag_flexible_def ex_struct_tag_def ex_coin_text_def starts_with_def)
  have withdraw: "lp_withdraw ex_port = sui_withdraw ex_net" by (simp add: bridge_port_def)
  show ?thesis
    by (simp add: process_withdrawal_log_def addr parsed coin tag assms ex_coin_utf8 withdraw sbind_def slift_def st_map_err_def
        on_net_def ex_withdraw del: append_Cons append_Nil)
qed

lemma ex_relay_withdrawals:
  assumes "re_world s = ex_world (([ex_burn], Answered) # quiet # quiet # quiet # v) ex_vault1 ex_ledger2"
    "re_tokens s = ex_registry" "cu_next_l2_block (re_cursors s) = 2"
  shows "relay_withdrawals ex_port s = (Ok (), save_progress ex_port
    (s\<lparr>re_world := ex_world v ex_vault3 ex_ledger3, re_cursors := (re_cursors s)\<lparr>cu_next_l2_block := 4\<rparr>\<rparr>))"
proof -
  let ?u = "\<lambda>v. s\<lparr>re_world := ex_world v ex_vault1 ex_ledger3\<rparr>"
  have head: "on_net (eth_block_number (l2_of ex_port)) s = (Ok 3, ?u (quiet # quiet # quiet # v))"
    using ex_block_number [of "[ex_burn]" "quiet # quiet # quiet # v" ex_vault1 ex_ledger2]
    by (simp add: on_net_def assms(1) ex_burns del: outside_step.simps) (simp add: ex_ledger3_def)
  have logs: "l2_logs ex_ledger3 = [ex_created, ex_minted, ex_burned]" by (simp add: ex_ledger3_def)
  have "\<not> (2 :: u64) \<le> 1" by (simp add: word_le_nat_alt)
  then have none: "logs_for ex_lib [ex_factory] (BRIDGE_CREATED_TOPIC ex_lib) 2 3 ex_ledger3 = []"
    by (simp add: logs_for_def logs ex_created_def ex_minted_def ex_burned_def ex_addresses)
  have one: "logs_for ex_lib [ex_token] (WITHDRAWAL_TOPIC ex_lib) 2 3 ex_ledger3 = [ex_burned]"
    using ex_topics_differ by (simp add: logs_for_def logs ex_created_def ex_minted_def ex_burned_def ex_addresses)
  have absorb: "on_net (absorb_creations (l2_of ex_port) ex_factory ex_registry 2 3) (?u (quiet # v')) =
      (Ok (0, ex_registry), ?u v')" for v'
    by (simp add: on_net_def absorb_creations_def sbind_def sreturn_def ex_get_logs none)
  have addrs: "registry_addresses ex_registry = [ex_token]" by (simp add: registry_addresses_def ex_registry_def)
  have get: "on_net (eth_get_logs (l2_of ex_port) [ex_token] (WITHDRAWAL_TOPIC ex_lib) 2 3) (?u (quiet # v')) =
      (Ok [wire_log ex_lib ex_burned], ?u v')" for v'
    by (simp add: on_net_def ex_get_logs one)
  have process: "process_logs ex_port [wire_log ex_lib ex_burned] (?u (quiet # v)) = (Ok (), s\<lparr>re_world := ex_world v ex_vault3 ex_ledger3\<rparr>)"
    using ex_process [of "?u (quiet # v)" v ex_ledger3] assms(2) by (simp add: sbind_def)
  have tokens: "(?u v')\<lparr>re_tokens := ex_registry\<rparr> = ?u v'" for v'
    using assms(2) by (cases s) simp
  show ?thesis
    unfolding relay_withdrawals_def assms(3) Let_def sbind_def [of _ _ s] head
    by (simp add: assms(2) absorb tokens addrs get process sbind_def del: process_logs.simps)
qed

lemma ex_passes:
  assumes "re_world s = ex_world (ex_pass @ []) ex_vault1 ex_ledger1"
    "re_tokens s = ex_registry" "re_chain_id s = 1" "re_deposits_table s = ex_table"
    "cu_next_deposit_nonce (re_cursors s) = 0" "cu_next_l2_block (re_cursors s) = 2"
  shows "\<exists>t. relay_round ex_port s = Some t \<and> re_world t = ex_world [] ex_vault3 ex_ledger3 \<and>
    cu_next_deposit_nonce (re_cursors t) = 1 \<and> cu_next_l2_block (re_cursors t) = 4"
proof -
  let ?mine = "([MineRelayer ex_raw ex_user True], Answered)" and ?rest = "[([ex_burn], Answered), quiet, quiet, quiet]"
  have "replicate 7 quiet = quiet # replicate 6 quiet" by (simp add: numeral_eq_Suc)
  then have script: "ex_pass @ [] = quiet # (replicate 6 quiet @ ?mine # ?rest)" unfolding ex_pass_def by simp
  let ?s1 = "s\<lparr>re_world := ex_world (replicate 6 quiet @ ?mine # ?rest) ex_vault1 ex_ledger1\<rparr>"
  have va: "va_deposit_nonce ex_vault1 = 1" by (simp add: ex_vault1_def)
  have status: "on_net (lp_vault_status ex_port) s = (Ok \<lparr>vs_deposit_nonce = 1, vs_withdraw_nonce = va_withdraw_nonce ex_vault1,
      vs_deposits_table_uid = va_deposits_id ex_vault1\<rparr>, ?s1)"
    unfolding on_net_def assms(1) script by (simp add: ex_sui_status va)
  let ?s2 = "save_progress ex_port (?s1\<lparr>re_world := ex_world ?rest ex_vault1 ex_ledger2, re_cursors := (re_cursors ?s1)\<lparr>cu_next_deposit_nonce := 1\<rparr>\<rparr>)"
  have "relay_deposit ex_port 1 ?s1 = (True, ?s2)" using ex_relay_deposit [of ?s1 ?rest] assms by simp
  moreover have "relay_deposit ex_port 1 ?s2 = (False, ?s2)" by (simp add: relay_deposit_def)
  moreover have "Suc (unat (1 :: u64) - unat (0 :: u64)) = Suc (Suc 0)" by simp
  ultimately have "relay_deposits ex_port s = Some ?s2"
    unfolding relay_deposits_def status using assms(5) by simp
  moreover have "relay_withdrawals ex_port ?s2 = (Ok (), save_progress ex_port
    (?s2\<lparr>re_world := ex_world [] ex_vault3 ex_ledger3, re_cursors := (re_cursors ?s2)\<lparr>cu_next_l2_block := 4\<rparr>\<rparr>))"
    by (rule ex_relay_withdrawals) (simp_all add: assms)
  ultimately show ?thesis unfolding relay_round_def by simp
qed

text \<open>The run: start, pass, release.\<close>

lemma ex_run: "\<exists>s. bridge_run ex_net ex_table ex_json (NodeUp s) \<and> re_world s = ex_world [] ex_vault3 ex_ledger3 \<and>
    cu_next_deposit_nonce (re_cursors s) = 1 \<and> cu_next_l2_block (re_cursors s) = 4"
proof -
  have torn: "torn_ok no_faults ex_json" by (simp add: torn_ok_def no_faults_def)
  obtain s where s: "relayer_new ex_port 3 ex_disk (ex_world (ex_boot @ ex_pass @ []) ex_vault1 ex_ledger1) =
      Some (Ok s, ex_world (ex_pass @ []) ex_vault1 ex_ledger1)"
    "re_world s = ex_world (ex_pass @ []) ex_vault1 ex_ledger1" "re_tokens s = ex_registry" "re_chain_id s = 1"
    "re_deposits_table s = ex_table" "cu_next_deposit_nonce (re_cursors s) = 0" "cu_next_l2_block (re_cursors s) = 2"
    using ex_boots [of "ex_pass @ []"] by blast
  have up: "bridge_run ex_net ex_table ex_json (NodeUp s)"
    using bridge_run.boot [OF ex_prepared torn] s(1) by simp
  obtain t where "relay_round ex_port s = Some t" "re_world t = ex_world [] ex_vault3 ex_ledger3"
    "cu_next_deposit_nonce (re_cursors t) = 1" "cu_next_l2_block (re_cursors t) = 4"
    using ex_passes [OF s(2-7)] by blast
  with bridge_run.pass [OF up torn] show ?thesis by blast
qed

section \<open>The properties on this run\<close>

lemma ex_ledger3_logs: "l2_logs ex_ledger3 = [ex_created, ex_minted, ex_burned]"
  by (simp add: ex_ledger3_def)

lemma ex_only_token: "only_token ex_lib (l2_logs ex_ledger3) ex_coin ex_token"
  using token_ofI [of 1 ex_factory ex_token ex_coin_text "[]" "[]" "l2_logs ex_ledger3" ex_lib ex_coin] ex_coin_normal
  by (auto simp: only_token_def token_of_def ex_ledger3_logs ex_created_def ex_minted_def ex_burned_def)

lemma ex_token_of: "token_of ex_lib (l2_logs ex_ledger3) ex_coin ex_token"
  using ex_only_token by (simp add: only_token_def)

theorem mints_match_deposits_witness:
  "\<exists>x. bridge_run ex_net ex_table ex_json x \<and>
     (2, ex_token, EvMinted 0 ex_user 7 ex_coin_text) \<in> set (l2_logs (bw_l2 (node_world x))) \<and>
     (\<exists>d. va_deposits (bw_vault (node_world x)) 0 = Some d \<and> dr_coin_type d = ex_coin \<and> unat (dr_amount d) = 7)"
proof -
  obtain s where s: "bridge_run ex_net ex_table ex_json (NodeUp s)" "re_world s = ex_world [] ex_vault3 ex_ledger3"
    using ex_run by blast
  have mint: "(2, ex_token, EvMinted 0 ex_user 7 ex_coin_text) \<in> set (l2_logs (bw_l2 (node_world (NodeUp s))))"
    by (simp add: s(2) ex_ledger3_logs ex_minted_def)
  have "token_of (bn_lib ex_net) (l2_logs (bw_l2 (node_world (NodeUp s)))) ex_coin ex_token"
    using ex_token_of by (simp add: s(2))
  from mints_match_deposits [OF s(1) ex_net_ok ex_json_ok this] mint s(1) show ?thesis by force
qed

theorem releases_match_burns_witness:
  "\<exists>x. bridge_run ex_net ex_table ex_json x \<and> va_events (bw_vault (node_world x)) \<noteq> [] \<and>
     distinct (map release_key (va_events (bw_vault (node_world x))))"
proof -
  obtain s where s: "bridge_run ex_net ex_table ex_json (NodeUp s)" "re_world s = ex_world [] ex_vault3 ex_ledger3"
    using ex_run by blast
  have "va_events (bw_vault (node_world (NodeUp s))) \<noteq> []" by (simp add: s(2) ex_vault3_def)
  with releases_match_burns [OF s(1) ex_net_ok ex_json_ok] s(1) show ?thesis by blast
qed


theorem cursor_deposits_minted_witness:
  "\<exists>s. bridge_run ex_net ex_table ex_json (NodeUp s) \<and> 0 < cu_next_deposit_nonce (re_cursors s) \<and>
     minted_deposit ex_lib (re_world s) 0"
proof -
  obtain s where s: "bridge_run ex_net ex_table ex_json (NodeUp s)" "cu_next_deposit_nonce (re_cursors s) = 1"
    using ex_run by blast
  from cursor_deposits_minted [OF s(1) ex_net_ok ex_json_ok] s show ?thesis by auto
qed

text \<open>Deposits that no pass gets over.\<close>

definition ex_other :: "byte list" where "ex_other = as_bytes ''3::usd::USD''"

lemma ex_other_canonical: "canonical_coin ex_lib ex_other" "ex_other \<noteq> ex_coin"
proof -
  have "utf8_ok ex_other" unfolding ex_other_def by (rule as_bytes_ascii) simp
  then have "from_utf8 [] ex_other = Ok ''3::usd::USD''" by (simp add: from_utf8_as_bytes ex_other_def)
  moreover have "normalize_coin_type ex_lib ''3::usd::USD'' = Ok ex_other"
    by (simp add: normalize_coin_type_def parse_struct_tag_flexible_def ex_struct_tag_def ex_other_def starts_with_def)
  ultimately show "canonical_coin ex_lib ex_other" by (simp add: canonical_coin_def)
  show "ex_other \<noteq> ex_coin" by (simp add: ex_other_def ex_coin_def as_bytes_def)
qed

lemma ex_second_deposit:
  assumes "canonical_coin ex_lib coin" "length recipient = 20"
  shows "\<exists>s d0. bridge_run ex_net ex_table ex_json (NodeUp s) \<and> cu_next_deposit_nonce (re_cursors s) = 1 \<and>
    va_deposits (bw_vault (re_world s)) 0 = Some d0 \<and> dr_coin_type d0 = ex_coin \<and>
    va_deposits (bw_vault (re_world s)) 1 = Some \<lparr>dr_amount = 5, dr_recipient_l2 = recipient, dr_coin_type = coin\<rparr>"
proof -
  obtain s where s: "bridge_run ex_net ex_table ex_json (NodeUp s)" "re_world s = ex_world [] ex_vault3 ex_ledger3"
    "cu_next_deposit_nonce (re_cursors s) = 1" using ex_run by blast
  let ?s = "s\<lparr>re_world := outside_step ex_net (UserDeposit coin 5 recipient) (re_world s)\<rparr>"
  have "va_deposits (bw_vault (re_world ?s)) 0 = Some ex_deposit \<and>
      va_deposits (bw_vault (re_world ?s)) 1 = Some \<lparr>dr_amount = 5, dr_recipient_l2 = recipient, dr_coin_type = coin\<rparr>"
    using assms by (simp add: s(2) vault_deposit_def ex_vault3_def ex_vault1_def ex_vault_def vault_add_def)
  moreover have "bridge_run ex_net ex_table ex_json (NodeUp ?s)" by (rule bridge_run.idle [OF s(1)])
  moreover have "cu_next_deposit_nonce (re_cursors ?s) = 1" using s(3) by simp
  moreover have "dr_coin_type ex_deposit = ex_coin" by (simp add: ex_deposit_def)
  ultimately show ?thesis by blast
qed

theorem only_first_coin_bridged_witness:
  "\<exists>s d. bridge_run ex_net ex_table ex_json (NodeUp s) \<and> va_deposits (bw_vault (re_world s)) 1 = Some d \<and>
     dr_coin_type d = ex_other \<and> cu_next_deposit_nonce (re_cursors s) = 1 \<and> cu_next_deposit_nonce (re_cursors s) \<le> 1"
proof -
  obtain s d0 where s: "bridge_run ex_net ex_table ex_json (NodeUp s)" "cu_next_deposit_nonce (re_cursors s) = 1"
    "va_deposits (bw_vault (re_world s)) 0 = Some d0" "dr_coin_type d0 = ex_coin"
    "va_deposits (bw_vault (re_world s)) 1 = Some \<lparr>dr_amount = 5, dr_recipient_l2 = to_vec ex_user, dr_coin_type = ex_other\<rparr>"
    using ex_second_deposit [OF ex_other_canonical(1), of "to_vec ex_user"] by auto
  from only_first_coin_bridged [OF s(1) ex_net_ok ex_json_ok s(3,5)] s ex_other_canonical(2) show ?thesis by fastforce
qed

theorem zero_recipient_stalls_bridge_witness:
  "\<exists>s d. bridge_run ex_net ex_table ex_json (NodeUp s) \<and> va_deposits (bw_vault (re_world s)) 1 = Some d \<and>
     dr_recipient_l2 d = replicate 20 0 \<and> cu_next_deposit_nonce (re_cursors s) = 1 \<and> cu_next_deposit_nonce (re_cursors s) \<le> 1"
proof -
  obtain s where s: "bridge_run ex_net ex_table ex_json (NodeUp s)" "cu_next_deposit_nonce (re_cursors s) = 1"
    "va_deposits (bw_vault (re_world s)) 1 = Some \<lparr>dr_amount = 5, dr_recipient_l2 = replicate 20 0, dr_coin_type = ex_coin\<rparr>"
    using ex_second_deposit [OF ex_coin_canonical, of "replicate 20 0"] by auto
  from zero_recipient_stalls_bridge [OF s(1) ex_net_ok ex_json_ok s(3)] s show ?thesis by fastforce
qed

section \<open>The registry\<close>

theorem withdrawals_pay_canonical_coin_witness:
  "\<exists>s. relayer_run ex_port s \<and> registry_coin_for ex_token (re_tokens s) = Some ex_coin \<and>
     registry_token_for ex_coin (re_tokens s) = Some ex_token"
proof -
  obtain s where s: "relayer_new ex_port 3 ex_disk (ex_world (ex_boot @ []) ex_vault1 ex_ledger1) =
      Some (Ok s, ex_world [] ex_vault1 ex_ledger1)" "re_tokens s = ex_registry"
    using ex_boots [of "[]"] by blast
  have run: "relayer_run ex_port s" by (rule relayer_run.start [OF s(1)])
  have "registry_coin_for ex_token (re_tokens s) = Some ex_coin" by (simp add: s(2) registry_coin_for_def ex_registry_def)
  with withdrawals_pay_canonical_coin [OF run this] run show ?thesis by blast
qed

theorem registry_snapshot_roundtrip_witness:
  "registry_snapshot ex_lib ex_registry = [(ex_hex ex_coin, ex_show_address ex_token)] \<and>
   (\<exists>r'. registry_from_snapshot ex_lib (registry_snapshot ex_lib ex_registry) = Ok r' \<and>
      registry_token_for ex_coin r' = Some ex_token)"
proof -
  have "hex_ok ex_lib" using ex_lib_ok by (simp add: bridge_lib_ok_def)
  moreover have "registry_bij ex_registry" 
    by (auto simp: registry_bij_def ex_registry_def registry_coin_for_def registry_token_for_def split: if_splits)
  ultimately obtain r' where "registry_from_snapshot ex_lib (registry_snapshot ex_lib ex_registry) = Ok r'"
    "registry_token_for ex_coin r' = registry_token_for ex_coin ex_registry"
    using registry_snapshot_roundtrip [of ex_lib ex_registry] by blast
  then show ?thesis by (simp add: registry_token_for_def ex_registry_def registry_snapshot_def)
qed

theorem creation_scan_returns_witness:
  "\<exists>res w'. scan_loop (l2_of ex_port) ex_factory 1 2503 CREATION_SCAN_CHUNK 0 registry_empty (ex_world [] ex_vault ex_ledger) = Some (res, w')"
  by (rule creation_scan_returns) (simp_all add: u64_max_def)

end
