(* ===== verification/Spec2Isabelle.thy ===== *)
theory Spec2Isabelle
  imports Bridge_Task_Examples Node_Tasks Metrics Mcp_Examples Wire Peers State_Root Node_Rotation Full_Node_Safety
    Runner_Examples Bridge_Examples
begin

text \<open>
  podseq: a verification development for the rollup node of this repository.

  A sequencer builds EVM blocks on an execution layer (Reth), publishes batches of them as blobs on Walrus
  and records each block's blob id in a registry contract on Sui. Full nodes follow the registry, fetch the
  blobs, check the sequencer's signature and replay the blocks; peers hand them unsettled blocks early. A
  force-inclusion inbox on Sui obliges the sequencer to include a transaction before a deadline. An
  enshrined bridge locks coins in a Vault on Sui and mints tokens on the L2. The keys of the sequencer and
  of the bridge are rotated through an authority record on Sui. The Rust crates are under
  \<open>src/crates\<close>, the contracts under \<open>src/move\<close> and \<open>src/solidity\<close>.

  \<^bold>\<open>How the model is built.\<close> Definitions keep the names of the code; a name that clashes has a
  suffix or its component's prefix, and record fields carry a short prefix. Machine integers are words
  (\<open>u64\<close>, \<open>u256\<close>), fixed byte arrays are \<open>'n barray\<close>, a \<open>Result\<close> is the sum \<open>('e, 'a) result\<close> with
  \<open>Ok\<close> and \<open>Err\<close>, a string is the list of its UTF-8 bytes. Effects are passed explicitly: a fallible
  operation maps a state to a result and a state, and \<open>sbind\<close> is the question mark operator. The disk is a
  map of files with a fault plan \<open>io\<close>: it says of the n-th call whether it fails, and a failing
  write leaves any partial contents. The outside (execution layer, networks, other processes) is an
  abstract world that every call may change, or a function of the number of the read, so two reads of one
  operation may see different states. Third-party code is an argument: BCS, JSON, TOML, hex, base64,
  keccak, SHA-256, ed25519 and secp256k1, the Sui, HTTP and EVM clients. What is relied on of it is a
  named hypothesis (\<open>json_ok\<close>, \<open>codec_ok\<close>, \<open>bridge_lib_ok\<close>, \<open>bridge_net_ok\<close>) or the locale \<open>bcs_codec\<close>,
  and each is shown to hold for a concrete instance.

  \<^bold>\<open>Foundations.\<close> \<open>Prelude\<close>, \<open>Text_Util\<close> (the integer and string operations of Rust's standard library),
  \<open>Disk\<close>, \<open>Effects\<close> (inversion of sequencing; the locale \<open>run_order\<close> for what every operation keeps),
  \<open>Bcs\<close> (a reference codec), \<open>Core_Types\<close> (\<open>crates/core\<close>: blocks, signing message, signer keys).

  \<^bold>\<open>Data availability.\<close> \<open>Wire\<close> (\<open>crates/sui/src/wire.rs\<close>, \<open>blob_id.rs\<close>, the Walrus half of \<open>lib.rs\<close>):
  decode accepts exactly the encodings of non-empty batches.

  \<^bold>\<open>The Sui side.\<close> \<open>Sui_Rpc\<close>, \<open>Ptb\<close> and \<open>Settlement\<close> (\<open>crates/sui/src/settlement.rs\<close>): object reads,
  transactions as data, the settle transaction, the deploy ceremony. \<open>Inbox_Read\<close> (\<open>inbox.rs\<close>), \<open>Deadline\<close>
  (\<open>deadline.rs\<close>), \<open>State_Root\<close> (\<open>state_root.rs\<close>), \<open>Peers\<close> (\<open>peers.rs\<close>), \<open>Rotation\<close> (\<open>rotation.rs\<close> and
  the authority record), \<open>Sui_Bridge\<close> (\<open>bridge.rs\<close>). \<open>Contract\<close> is the registry and the inbox on chain
  (\<open>settlement.move\<close>, \<open>inbox.move\<close>). Shown: a settle transaction executed by the contract records the
  next block exactly once; the deadline monitor's verdicts equal the classification of one chain
  state although it reads in several round trips; roots, peer books and blob ids read back.

  \<^bold>\<open>The sequencer.\<close> \<open>Engine\<close>, \<open>Engine_Frame\<close> (\<open>crates/engine\<close>), \<open>Stores\<close> (\<open>crates/node/src/store\<close>),
  \<open>Inbox_Tracker\<close> (\<open>crates/node/src/inbox.rs\<close>), \<open>Runner\<close> (\<open>crates/node/src/runner.rs\<close>), \<open>Node_Rotation\<close>
  (\<open>crates/node/src/rotation.rs\<close>). \<open>Runner_Safety\<close> and \<open>Runner_Storage\<close> prove the properties of its loop
  under the locale \<open>settlement_service\<close>, \<open>Runner_Chain\<close> interprets it on the modelled contract,
  \<open>Runner_Shutdown\<close> bounds its retry loops, \<open>Runner_Examples\<close> runs it. Shown: the pending store is a set
  under any disk faults, markers only advance, a marker goes only when its block is settled, a
  produced block is durable, recovery queues what is pending, shutdown ends every retry, a rotation
  retires a key only after every signer is on its successor.

  \<^bold>\<open>The full node and its peers.\<close> \<open>P2p\<close> (\<open>crates/p2p\<close>), \<open>Full_Node\<close>, \<open>Full_Node_Safety\<close>
  (\<open>crates/node/src/full_node.rs\<close>): only signed blocks reach the execution layer, finality moves only
  to settled blocks, a pass that succeeds reaches the settled tip.

  \<^bold>\<open>The bridge.\<close> \<open>L2_Rpc\<close>, \<open>Relayer\<close> and \<open>Bridge_Task\<close> (\<open>crates/node/src/bridge.rs\<close>): requests and ABI
  decoders, the relayer, the task around it. \<open>Bridge_Chain\<close> has the contracts (\<open>bridge.move\<close>, \<open>Bridge.sol\<close>,
  \<open>BridgeFactory.sol\<close>), \<open>Bridge_World\<close> the networks between them. \<open>Relayer_Registry\<close>: what holds whatever
  the node answers. \<open>Bridge_Ledger\<close>: invariants of the two chains. \<open>Bridge_Wire\<close>, \<open>Bridge_Answers\<close>: what
  the requests read. \<open>Bridge_Safety\<close>, \<open>Bridge_Relay\<close>: the invariant and that every operation of the relayer
  keeps it. \<open>Bridge_Runs\<close>, \<open>Bridge_Solvency\<close>, \<open>Bridge_Theorems\<close>: every run with crashes, torn cursor
  files and lost answers mints what was deposited, releases what was burned and stays solvent.
  \<open>Bridge_Task_Safety\<close>: the Vault is created once, the task ends at shutdown. \<open>Bridge_Examples\<close> and
  \<open>Bridge_Task_Examples\<close> are concrete runs.

  \<^bold>\<open>The program.\<close> \<open>Config\<close> (\<open>crates/node/src/config.rs\<close>), \<open>Node_Setup\<close> (\<open>settlement.rs\<close>, \<open>keyring.rs\<close>),
  \<open>Node_Main\<close> (\<open>main.rs\<close>), \<open>Node_Tasks\<close> (the shared client, the inbox poller, the admission poll), \<open>Mcp_Http\<close> and \<open>Mcp\<close> (\<open>mcp.rs\<close>), \<open>Metrics\<close> (\<open>metrics.rs\<close>).
  \<open>Node_Setup_Safety\<close>, \<open>Node_Main_Safety\<close>: a first start deploys once and a restart attaches to it, a
  sequencer starts on one key and one contract. \<open>Mcp_Answers\<close>, \<open>Mcp_Safety\<close>: the endpoint answers with
  complete HTTP messages, runs tools on complete requests only and changes no file. \<open>Node_Main_Examples\<close>
  and \<open>Mcp_Examples\<close> are concrete inputs.

  \<^bold>\<open>Loops and fuel.\<close> Recursions over the data are structural. A loop with a bound of its own keeps it:
  head discovery makes at most 16 attempts (the backoff doubles from 500 ms within a minute), the wait
  for a forkchoice at most 10. The retry loops of the sequencer (publish, the inclusion gate, settle)
  take fuel and are \<open>None\<close> when it runs out; fuel that exceeds the number of sleeps before the shutdown
  flag is enough (\<open>Runner_Shutdown\<close>). The scan of the factory's history needs 2502 rounds
  more than the number of the head block (\<open>creation_scan_returns\<close>), so \<open>2^64 + 2502\<close> is enough for every
  head but \<open>2^64 - 1\<close>, where the block counter wraps. A deposit pass handles at most the deposits it saw
  at its start. The wait for a receipt ends with its first poll (\<open>receipt_wait_is_one_poll\<close>), so it runs
  with one round. The deploy loop has no bound and is a \<open>partial_function\<close>: \<open>None\<close> is a run that never
  returns, and \<open>Node_Setup_Safety\<close> says when it returns.

  \<^bold>\<open>Steps and interleaving.\<close> A producer tick, a turn of the finalizer, a pass of the poller, a poll of the
  rotation watcher, a relay pass and a connection of the MCP server are single steps; runs are sequences
  of them with the steps of other parties between them. A crash of the relayer is a pass whose remaining
  requests and writes fail, followed by a restart. Inside one operation the world may change at every
  request. Connections of the MCP server are handled one after the other, and what the running node
  writes meanwhile is a change of the disk before each access.

  \<^bold>\<open>Not modelled.\<close> Task spawning, channels and mutexes beyond the queue of the sequencer; the runtime trait
  (\<open>core/src/runtime.rs\<close>, no operations); signal handlers and the 30 s, 10 s and 2 s waits at shutdown;
  binding listeners, the construction of HTTP clients and the JWT secret (library calls); the commonware
  network behind the peer-to-peer layer; argument parsing; log lines and the updates of metric
  instruments; Debug instances and accessors. Of the contracts: token allowances, \<open>setRelayer\<close>, the
  Vault's rotation calls, the peer book's and the upgrade custody's entry points, events nobody reads.
  The nonces and fees of L2 transactions are part of the signed transaction but the L2 ledger does not
  check them. The web UI, the documentation, the container files and the gas benchmark are not part of
  the node.
\<close>

end
